(* ===== verification/Prelude.thy ===== *)
theory Prelude
imports Main "HOL-Library.Char_ord" "HOL-Library.List_Lexorder" "HOL-Library.Product_Lexorder" "HOL-Library.AList"
begin

text \<open>
  The shared layer of the development: errors as values, the transaction boundary of
  \<^verbatim>\<open>app/db/_core.py\<close>, tables as lists of rows with the SQL verbs the repositories use,
  JSON values with Python's dict operations, and Python's string operations on ASCII and
  Latin-1 text. Every component theory imports it.
\<close>

named_theorems tx_simps "inversion of sequenced fallible operations"
named_theorems row_simps "rewriting of table verbs"
named_theorems inv_intros "preservation of the components' invariants"

section \<open>Errors as values\<close>

text \<open>
  One constructor per exception class the modelled code raises. \<open>IntegrityError\<close> names the
  violated constraint, as psycopg's message does; \<open>DataError\<close> is PostgreSQL's
  ``bigint out of range''.
\<close>

datatype err =
    ValueError string
  | RuntimeError string
  | IntegrityError string
  | DataError string
  | OverflowError
  | InsufficientWalletBalance
  | FixedShellReservationReleased
  | ActiveRuntimeTurnError
  | DomainError string

type_synonym 'a res = "err + 'a"

text \<open>
  \<open>and_then\<close> runs the second operation on the value of the first and keeps the first error,
  as an exception that propagates does.
\<close>

definition and_then :: "'e + 'a \<Rightarrow> ('a \<Rightarrow> 'e + 'b) \<Rightarrow> 'e + 'b" where
  "and_then m f = (case m of Inl e \<Rightarrow> Inl e | Inr x \<Rightarrow> f x)"

lemma and_then_simps [simp]:
  "and_then (Inl e) f = Inl e"
  "and_then (Inr x) f = f x"
  by (simp_all add: and_then_def)

lemma and_then_Inr [tx_simps]: "and_then m f = Inr y \<longleftrightarrow> (\<exists>x. m = Inr x \<and> f x = Inr y)"
  by (cases m) auto

lemma and_then_Inl [tx_simps]:
  "and_then m f = Inl e \<longleftrightarrow> m = Inl e \<or> (\<exists>x. m = Inr x \<and> f x = Inl e)"
  by (cases m) auto

lemma and_then_cong [fundef_cong]:
  "m = m' \<Longrightarrow> (\<And>x. m' = Inr x \<Longrightarrow> f x = g x) \<Longrightarrow> and_then m f = and_then m' g"
  by (cases m') auto

lemma case_res_ex: "(case x of Inl _ \<Rightarrow> False | Inr (v, s) \<Rightarrow> P v s) \<Longrightarrow> \<exists>v s. x = Inr (v, s) \<and> P v s"
  by (auto split: sum.splits)

lemma and_then_assoc: "and_then (and_then m f) g = and_then m (\<lambda>x. and_then (f x) g)"
  by (cases m) auto

text \<open>\<open>res_all P m\<close>: if \<open>m\<close> returns, what it returns satisfies \<open>P\<close>.\<close>

definition res_all :: "('a \<Rightarrow> bool) \<Rightarrow> 'e + 'a \<Rightarrow> bool" where
  "res_all P m = (case m of Inl _ \<Rightarrow> True | Inr x \<Rightarrow> P x)"

lemma res_all_simps [simp]:
  "res_all P (Inl e)"
  "res_all P (Inr x) = P x"
  by (simp_all add: res_all_def)

lemma res_all_bind: "(\<And>x. m = Inr x \<Longrightarrow> res_all P (f x)) \<Longrightarrow> res_all P (and_then m f)"
  by (cases m) simp_all

text \<open>Branches, one rule per construct: \<open>intro res_all_rules\<close> walks through a chain of guards.\<close>

lemma res_all_if: "(b \<Longrightarrow> res_all P x) \<Longrightarrow> (\<not> b \<Longrightarrow> res_all P y) \<Longrightarrow> res_all P (if b then x else y)"
  by simp

lemma res_all_option: "(x = None \<Longrightarrow> res_all P a) \<Longrightarrow> (\<And>y. x = Some y \<Longrightarrow> res_all P (f y)) \<Longrightarrow>
    res_all P (case x of None \<Rightarrow> a | Some y \<Rightarrow> f y)"
  by (cases x) simp_all

lemma res_all_sum: "(\<And>e. x = Inl e \<Longrightarrow> res_all P (g e)) \<Longrightarrow> (\<And>y. x = Inr y \<Longrightarrow> res_all P (f y)) \<Longrightarrow>
    res_all P (case x of Inl e \<Rightarrow> g e | Inr y \<Rightarrow> f y)"
  by (cases x) simp_all

lemma res_all_prod: "(\<And>a b. x = (a, b) \<Longrightarrow> res_all P (f a b)) \<Longrightarrow> res_all P (case x of (a, b) \<Rightarrow> f a b)"
  by (cases x) simp

lemma res_all_prod2: "(\<And>a b. x = (a, b) \<Longrightarrow> res_all P (f a b y)) \<Longrightarrow> res_all P ((case x of (a, b) \<Rightarrow> f a b) y)"
  by (cases x) simp

lemma res_all_Inr: "P x \<Longrightarrow> res_all P (Inr x)"
  by simp

lemmas res_all_rules = res_all_bind res_all_if res_all_option res_all_sum res_all_prod res_all_prod2 res_all_Inr res_all_simps(1)

text \<open>The same for an operation that always leaves a state: \<open>out_all P r\<close> is \<open>P\<close> of the state it leaves.\<close>

definition out_all :: "('s \<Rightarrow> bool) \<Rightarrow> 'x \<times> 's \<Rightarrow> bool" where
  "out_all P r = P (snd r)"

lemma out_all_pair: "P s \<Longrightarrow> out_all P (x, s)"
  by (simp add: out_all_def)

lemma out_all_if: "(b \<Longrightarrow> out_all P x) \<Longrightarrow> (\<not> b \<Longrightarrow> out_all P y) \<Longrightarrow> out_all P (if b then x else y)"
  by simp

lemma out_all_option: "(x = None \<Longrightarrow> out_all P a) \<Longrightarrow> (\<And>y. x = Some y \<Longrightarrow> out_all P (f y)) \<Longrightarrow>
    out_all P (case x of None \<Rightarrow> a | Some y \<Rightarrow> f y)"
  by (cases x) simp_all

lemma out_all_sum: "(\<And>e. x = Inl e \<Longrightarrow> out_all P (g e)) \<Longrightarrow> (\<And>y. x = Inr y \<Longrightarrow> out_all P (f y)) \<Longrightarrow>
    out_all P (case x of Inl e \<Rightarrow> g e | Inr y \<Rightarrow> f y)"
  by (cases x) simp_all

lemma out_all_prod: "(\<And>a b. x = (a, b) \<Longrightarrow> out_all P (f a b)) \<Longrightarrow> out_all P (case x of (a, b) \<Rightarrow> f a b)"
  by (cases x) simp

lemmas out_all_rules = out_all_pair out_all_if out_all_option out_all_sum out_all_prod

lemma res_allD: "res_all P m \<Longrightarrow> m = Inr x \<Longrightarrow> P x"
  by simp

text \<open>
  \<open>connect()\<close> commits when its block returns and rolls back when it raises: an operation on
  the database state either returns a value and the new state, or an error, and then the old
  state stands.
\<close>

definition run_tx :: "('s \<Rightarrow> 'e + 'a \<times> 's) \<Rightarrow> 's \<Rightarrow> ('e + 'a) \<times> 's" where
  "run_tx f s = (case f s of Inl e \<Rightarrow> (Inl e, s) | Inr (x, s') \<Rightarrow> (Inr x, s'))"

lemma run_tx_Inr [simp]: "f s = Inr (x, s') \<Longrightarrow> run_tx f s = (Inr x, s')"
  by (simp add: run_tx_def)

lemma run_tx_Inl [simp]: "f s = Inl e \<Longrightarrow> run_tx f s = (Inl e, s)"
  by (simp add: run_tx_def)

lemma run_tx_state_cases:
  assumes "P s" and "\<And>x s'. f s = Inr (x, s') \<Longrightarrow> P s'"
  shows "P (snd (run_tx f s))"
  using assms by (auto simp: run_tx_def split: sum.splits prod.splits)

text \<open>The \<open>BIGINT\<close> columns: a value outside 64 signed bits is refused by PostgreSQL.\<close>

definition bigint :: "int \<Rightarrow> int res" where
  "bigint x = (if - (2 ^ 63) \<le> x \<and> x < 2 ^ 63 then Inr x else Inl (DataError ''bigint out of range''))"

lemma bigint_Inr [tx_simps]: "bigint x = Inr y \<longleftrightarrow> y = x \<and> - (2 ^ 63) \<le> x \<and> x < 2 ^ 63"
  by (auto simp: bigint_def)

section \<open>Tables\<close>

text \<open>
  A table is the list of its rows in insertion order. \<open>find_row\<close> is \<open>SELECT ... fetchone()\<close>
  on a condition that identifies at most one row (or whose first row is the one meant),
  \<open>update_where\<close> is \<open>UPDATE ... WHERE\<close>, \<open>count_where\<close> is its row count and \<open>SELECT COUNT(*)\<close>,
  \<open>first_by\<close> is \<open>ORDER BY key LIMIT 1\<close>.
\<close>

abbreviation find_row :: "('r \<Rightarrow> bool) \<Rightarrow> 'r list \<Rightarrow> 'r option" where
  "find_row \<equiv> List.find"

definition update_where :: "('r \<Rightarrow> bool) \<Rightarrow> ('r \<Rightarrow> 'r) \<Rightarrow> 'r list \<Rightarrow> 'r list" where
  "update_where p f rs = map (\<lambda>r. if p r then f r else r) rs"

definition count_where :: "('r \<Rightarrow> bool) \<Rightarrow> 'r list \<Rightarrow> nat" where
  "count_where p rs = length (filter p rs)"

definition delete_where :: "('r \<Rightarrow> bool) \<Rightarrow> 'r list \<Rightarrow> 'r list" where
  "delete_where p rs = filter (\<lambda>r. \<not> p r) rs"

definition first_by :: "('r \<Rightarrow> 'k::linorder) \<Rightarrow> 'r list \<Rightarrow> 'r option" where
  "first_by k rs = (case sort_key k rs of [] \<Rightarrow> None | r # _ \<Rightarrow> Some r)"

text \<open>\<open>LIMIT n\<close>, with an equation that counts down instead of building the numeral.\<close>

definition sql_limit :: "int \<Rightarrow> 'r list \<Rightarrow> 'r list" where
  "sql_limit n rs = take (nat n) rs"

lemma sql_limit_code [code]:
  "sql_limit n [] = []"
  "sql_limit n (r # rs) = (if n \<le> 0 then [] else r # sql_limit (n - 1) rs)"
  by (simp_all add: sql_limit_def take_Cons' nat_diff_distrib)

lemma set_sql_limit: "set (sql_limit n rs) \<subseteq> set rs"
  by (simp add: sql_limit_def set_take_subset)

text \<open>\<open>ORDER BY key DESC\<close>; the keys in use end in the row id, so they are all different.\<close>

definition order_desc :: "('r \<Rightarrow> 'k::linorder) \<Rightarrow> 'r list \<Rightarrow> 'r list" where
  "order_desc k rs = rev (sort_key k rs)"

lemma set_order_desc [simp]: "set (order_desc k rs) = set rs"
  by (simp add: order_desc_def)

lemma order_desc_Nil [simp]: "order_desc k rs = [] \<longleftrightarrow> rs = []"
  by (metis list.set(1) set_empty set_order_desc)

lemma find_row_Some: "find_row p rs = Some r \<Longrightarrow> r \<in> set rs \<and> p r"
  by (auto simp: find_Some_iff)

lemma find_row_None: "find_row p rs = None \<longleftrightarrow> (\<forall>r \<in> set rs. \<not> p r)"
  by (auto simp: find_None_iff)

lemma find_row_unique:
  "r \<in> set rs \<Longrightarrow> p r \<Longrightarrow> (\<And>r'. r' \<in> set rs \<Longrightarrow> p r' \<Longrightarrow> r' = r) \<Longrightarrow> find_row p rs = Some r"
  by (metis find_row_None find_row_Some not_Some_eq)

lemma find_row_ex: "r \<in> set rs \<Longrightarrow> p r \<Longrightarrow> \<exists>r'. find_row p rs = Some r'"
  by (meson find_row_None not_Some_eq)

lemma find_row_append:
  "find_row p (xs @ ys) = (case find_row p xs of None \<Rightarrow> find_row p ys | Some r \<Rightarrow> Some r)"
  by (induction xs) auto

lemma find_row_cong: "(\<And>r. r \<in> set rs \<Longrightarrow> p r = q r) \<Longrightarrow> find_row p rs = find_row q rs"
proof (induction rs)
  case Nil
  show ?case by simp
next
  case (Cons r rs)
  from Cons.prems [of r] have "p r = q r" by simp
  with Cons show ?case by simp
qed

lemma first_by_Some: "first_by k rs = Some r \<Longrightarrow> r \<in> set rs"
proof -
  assume "first_by k rs = Some r"
  then obtain xs where "sort_key k rs = r # xs"
    by (auto simp: first_by_def split: list.splits)
  then have "r \<in> set (sort_key k rs)" by (simp only: list.set_intros)
  then show ?thesis by (simp only: set_sort)
qed

lemma first_by_None [simp]: "first_by k rs = None \<longleftrightarrow> rs = []"
proof -
  have "sort_key k rs = [] \<longleftrightarrow> rs = []" by (metis length_0_conv length_sort)
  then show ?thesis by (cases "sort_key k rs") (simp_all add: first_by_def)
qed

lemma first_by_least: "first_by k rs = Some r \<Longrightarrow> r' \<in> set rs \<Longrightarrow> k r \<le> k r'"
proof -
  assume f: "first_by k rs = Some r" and r': "r' \<in> set rs"
  then obtain xs where xs: "sort_key k rs = r # xs"
    by (auto simp: first_by_def split: list.splits)
  have "sorted (map k (r # xs))"
    by (metis sorted_sort_key xs)
  moreover have "r' = r \<or> r' \<in> set xs"
    using r' by (metis set_ConsD set_sort xs)
  ultimately show ?thesis by auto
qed

lemma update_where_Nil [simp]: "update_where p f [] = []"
  by (simp add: update_where_def)

lemma update_where_Cons [simp]:
  "update_where p f (r # rs) = (if p r then f r else r) # update_where p f rs"
  by (simp add: update_where_def)

lemma set_update_where:
  "set (update_where p f rs) = (\<lambda>r. if p r then f r else r) ` set rs"
  by (simp add: update_where_def)

lemma length_update_where [simp]: "length (update_where p f rs) = length rs"
  by (simp add: update_where_def)

lemma update_where_none: "\<forall>r \<in> set rs. \<not> p r \<Longrightarrow> update_where p f rs = rs"
  by (induction rs) auto

lemma map_update_where: "(\<And>r. g (f r) = g r) \<Longrightarrow> map g (update_where p f rs) = map g rs"
  by (induction rs) auto

lemma count_where_simps [simp]:
  "count_where p [] = 0"
  "count_where p (r # rs) = (if p r then 1 else 0) + count_where p rs"
  "count_where p (xs @ ys) = count_where p xs + count_where p ys"
  by (simp_all add: count_where_def)

lemma count_where_0: "count_where p rs = 0 \<longleftrightarrow> (\<forall>r \<in> set rs. \<not> p r)"
  by (induction rs) auto

lemma count_where_mono: "(\<And>r. r \<in> set rs \<Longrightarrow> p r \<Longrightarrow> q r) \<Longrightarrow> count_where p rs \<le> count_where q rs"
proof (induction rs)
  case Nil
  then show ?case by simp
next
  case (Cons r rs)
  then have "count_where p rs \<le> count_where q rs" by simp
  with Cons.prems [of r] show ?case by auto
qed

lemma count_where_delete: "count_where p (delete_where q rs) = count_where (\<lambda>r. p r \<and> \<not> q r) rs"
  by (induction rs) (auto simp: delete_where_def)

lemma delete_where_le: "count_where p (delete_where q rs) \<le> count_where p rs"
  by (auto simp: count_where_delete intro: count_where_mono)

lemma set_delete_where [simp]: "set (delete_where p rs) = {r \<in> set rs. \<not> p r}"
  by (auto simp: delete_where_def)

lemma delete_where_append: "delete_where p (xs @ ys) = delete_where p xs @ delete_where p ys"
  by (simp add: delete_where_def)

lemma count_where_one: "count_where p rs = 1 \<Longrightarrow> \<exists>r \<in> set rs. p r"
  by (metis count_where_0 zero_neq_one)

text \<open>
  A unique index on \<open>k\<close> restricted to the rows of \<open>p\<close> (a partial unique index of the
  migrations): the indexed keys are pairwise different.
\<close>

definition unique_on :: "('r \<Rightarrow> bool) \<Rightarrow> ('r \<Rightarrow> 'k) \<Rightarrow> 'r list \<Rightarrow> bool" where
  "unique_on p k rs = distinct (map k (filter p rs))"

lemma unique_on_Nil [simp]: "unique_on p k []"
  by (simp add: unique_on_def)

lemma unique_on_snoc:
  "unique_on p k (rs @ [r]) \<longleftrightarrow>
     unique_on p k rs \<and> (p r \<longrightarrow> (\<forall>r' \<in> set rs. p r' \<longrightarrow> k r' \<noteq> k r))"
  unfolding unique_on_def by (auto simp: image_iff)

lemma unique_on_Cons:
  "unique_on p k (r # rs) \<longleftrightarrow>
     unique_on p k rs \<and> (p r \<longrightarrow> (\<forall>r' \<in> set rs. p r' \<longrightarrow> k r' \<noteq> k r))"
  unfolding unique_on_def by (auto simp: image_iff)

lemma unique_onD:
  "unique_on p k rs \<Longrightarrow> r \<in> set rs \<Longrightarrow> r' \<in> set rs \<Longrightarrow> p r \<Longrightarrow> p r' \<Longrightarrow> k r = k r' \<Longrightarrow> r = r'"
  by (induction rs) (auto simp: unique_on_Cons)

lemma unique_on_update:
  "(\<And>r. k (f r) = k r) \<Longrightarrow> (\<And>r. p (f r) = p r) \<Longrightarrow>
     unique_on p k (update_where q f rs) = unique_on p k rs"
proof (induction rs)
  case Nil
  then show ?case by simp
next
  case (Cons r rs)
  have "(\<forall>r' \<in> set (update_where q f rs). p r' \<longrightarrow> k r' \<noteq> k a) \<longleftrightarrow>
        (\<forall>r' \<in> set rs. p r' \<longrightarrow> k r' \<noteq> k a)" for a
    using Cons.prems by (induction rs) auto
  with Cons show ?case by (simp add: unique_on_Cons)
qed

lemma find_row_update_where:
  assumes "\<And>r. p (f r) = p r"
  shows "find_row p (update_where q f rs) = map_option (\<lambda>r. if q r then f r else r) (find_row p rs)"
  by (induction rs) (auto simp: assms)

lemma unique_on_update_weaken:
  "(\<And>r. k (f r) = k r) \<Longrightarrow> (\<And>r. q r \<Longrightarrow> p (f r) \<Longrightarrow> p r) \<Longrightarrow> unique_on p k rs \<Longrightarrow>
     unique_on p k (update_where q f rs)"
proof (induction rs)
  case Nil
  then show ?case by simp
next
  case (Cons r rs)
  have "\<forall>r' \<in> set rs. p r' \<longrightarrow> k r' \<noteq> k a \<Longrightarrow>
        \<forall>r' \<in> set (update_where q f rs). p r' \<longrightarrow> k r' \<noteq> k a" for a
    using Cons.prems(1,2) by (induction rs) auto
  with Cons show ?case by (auto simp: unique_on_Cons)
qed

lemma unique_on_filter: "unique_on p k rs \<Longrightarrow> unique_on p k (filter q rs)"
  by (induction rs) (auto simp: unique_on_Cons)

lemma unique_on_delete: "unique_on p k rs \<Longrightarrow> unique_on p k (delete_where q rs)"
  by (simp add: delete_where_def unique_on_filter)

text \<open>A nullable column satisfies a check when it is \<open>NULL\<close> or its value does.\<close>

fun opt_all :: "('a \<Rightarrow> bool) \<Rightarrow> 'a option \<Rightarrow> bool" where
  "opt_all p None = True"
| "opt_all p (Some x) = p x"

lemma opt_all_iff: "opt_all p v = (\<forall>x. v = Some x \<longrightarrow> p x)"
  by (cases v) auto

text \<open>Rows found, counted, updated and deleted by a unique key.\<close>

lemma find_row_last:
  "k r \<notin> k ` set rs \<Longrightarrow> k r = i \<Longrightarrow> q r \<Longrightarrow>
     find_row (\<lambda>x. k x = i \<and> q x) (rs @ [r]) = Some r"
proof -
  assume "k r \<notin> k ` set rs" and r: "k r = i" "q r"
  then have "find_row (\<lambda>x. k x = i \<and> q x) rs = None" by (auto simp: find_row_None image_iff)
  with r show ?thesis by (simp add: find_row_append)
qed

lemma find_row_updated:
  assumes "unique_on (\<lambda>_. True) k rs" and "r \<in> set rs" and "p r" and "\<And>x. p x \<Longrightarrow> k x = k r"
    and pf: "\<And>x. p (f x) = p x"
  shows "find_row p (update_where p f rs) = Some (f r)"
proof (rule find_row_unique)
  have *: "x = r" if "x \<in> set rs" "p x" for x
    using unique_onD [OF assms(1) that(1) assms(2)] assms(4) [OF that(2)] by blast
  show "f r \<in> set (update_where p f rs)"
    unfolding set_update_where using assms(2,3) by (intro image_eqI [of _ _ r]) (simp_all only: if_True)
  show "p (f r)" using assms(3) by (simp only: pf)
  fix y assume "y \<in> set (update_where p f rs)" and y: "p y"
  then obtain x where x: "x \<in> set rs" "y = (if p x then f x else x)"
    unfolding set_update_where by blast
  with y have "p x" using pf by metis
  with x * show "y = f r" by simp
qed

lemma count_where_key:
  assumes "unique_on (\<lambda>_. True) k rs" and "r \<in> set rs" and "\<And>x. p x \<Longrightarrow> k x = k r"
  shows "count_where p rs = (if p r then 1 else 0)"
  using assms(1,2)
proof (induction rs)
  case Nil
  then show ?case by simp
next
  case (Cons a rs)
  show ?case
  proof (cases "a = r")
    case True
    with Cons.prems have "\<forall>x \<in> set rs. k x \<noteq> k r" by (simp add: unique_on_Cons)
    then have "count_where p rs = 0" using assms(3) by (auto simp: count_where_0)
    with True show ?thesis by simp
  next
    case False
    with Cons.prems have r: "r \<in> set rs" and k: "k r \<noteq> k a" and u: "unique_on (\<lambda>_. True) k rs"
      by (auto simp: unique_on_Cons)
    from k assms(3) have "\<not> p a" by force
    with Cons.IH [OF u r] show ?thesis by simp
  qed
qed

lemma count_where_delete_key:
  assumes "unique_on (\<lambda>_. True) k rs" and "r \<in> set rs"
  shows "int (count_where p (delete_where (\<lambda>x. k x = k r) rs)) = int (count_where p rs) - (if p r then 1 else 0)"
  using assms
proof (induction rs)
  case Nil
  then show ?case by simp
next
  case (Cons a rs)
  show ?case
  proof (cases "a = r")
    case True
    with Cons.prems have "\<forall>x \<in> set rs. k x \<noteq> k r" by (simp add: unique_on_Cons)
    then have "delete_where (\<lambda>x. k x = k r) rs = rs" by (simp add: delete_where_def)
    with True show ?thesis by (simp add: delete_where_def)
  next
    case False
    with Cons.prems have r: "r \<in> set rs" and "k r \<noteq> k a" and u: "unique_on (\<lambda>_. True) k rs"
      by (auto simp: unique_on_Cons)
    then have "delete_where (\<lambda>x. k x = k r) (a # rs) = a # delete_where (\<lambda>x. k x = k r) rs"
      by (auto simp: delete_where_def)
    with Cons.IH [OF u r] show ?thesis by simp
  qed
qed

lemma update_where_key_cong:
  assumes "unique_on (\<lambda>_. True) k rs" and "r \<in> set rs" and "\<And>x. p x \<Longrightarrow> k x = k r" and "\<And>x. q x \<Longrightarrow> k x = k r"
    and "p r = q r"
  shows "update_where p f rs = update_where q f rs"
proof -
  have "p x = q x" if "x \<in> set rs" for x
    using unique_onD [OF assms(1) that assms(2)] assms(3-5) by metis
  then show ?thesis by (simp add: update_where_def)
qed

section \<open>JSON values and Python dicts\<close>

text \<open>
  The \<open>*_json\<close> columns hold the text of a JSON object written by \<open>json.dumps\<close>. The model
  keeps the decoded object; \<open>None\<close> stands for text that \<open>json.loads\<close> rejects, where the
  code falls back to the empty dict. A dict is an association list in insertion order, on
  which \<open>d[k] = v\<close> is \<open>AList.update\<close>.
\<close>

datatype json = JNull | JBool bool | JInt int | JStr string | JList "json list" | JDict "(string \<times> json) list"

type_synonym dict = "(string \<times> json) list"

definition load_json :: "dict option \<Rightarrow> dict" where
  "load_json m = (case m of None \<Rightarrow> [] | Some d \<Rightarrow> d)"

definition dict_set :: "string \<Rightarrow> json \<Rightarrow> dict \<Rightarrow> dict" where
  "dict_set k v d = AList.update k v d"

definition dict_setdefault :: "string \<Rightarrow> json \<Rightarrow> dict \<Rightarrow> dict" where
  "dict_setdefault k v d = (case map_of d k of None \<Rightarrow> AList.update k v d | Some _ \<Rightarrow> d)"

fun dict_update :: "dict \<Rightarrow> dict \<Rightarrow> dict" where
  "dict_update d [] = d"
| "dict_update d ((k, v) # kvs) = dict_update (dict_set k v d) kvs"

fun truthy :: "json option \<Rightarrow> bool" where
  "truthy None = False"
| "truthy (Some JNull) = False"
| "truthy (Some (JBool b)) = b"
| "truthy (Some (JInt i)) = (i \<noteq> 0)"
| "truthy (Some (JStr s)) = (s \<noteq> [])"
| "truthy (Some (JList xs)) = (xs \<noteq> [])"
| "truthy (Some (JDict d)) = (d \<noteq> [])"

lemma map_of_dict_set [simp]: "map_of (dict_set k v d) k' = (if k' = k then Some v else map_of d k')"
  by (simp add: dict_set_def update_conv')

lemma map_of_dict_setdefault [simp]:
  "map_of (dict_setdefault k v d) k' =
     (if k' = k \<and> map_of d k = None then Some v else map_of d k')"
  by (auto simp: dict_setdefault_def update_conv' split: option.splits)

section \<open>Python strings\<close>

text \<open>
  Identifiers, codes, keys and status words are \<open>string\<close>: one \<open>char\<close> per code point up to
  U+00FF. \<open>str.strip()\<close> removes the code points for which \<open>str.isspace()\<close> holds.
\<close>

definition py_space :: "char \<Rightarrow> bool" where
  "py_space c = (let n = (of_char c :: nat) in
     (9 \<le> n \<and> n \<le> 13) \<or> (28 \<le> n \<and> n \<le> 32) \<or> n = 133 \<or> n = 160)"

text \<open>The same over \<open>int\<close>, whose numerals evaluate in binary.\<close>

lemma py_space_code [code]:
  "py_space c = (let n = (of_char c :: int) in
     (9 \<le> n \<and> n \<le> 13) \<or> (28 \<le> n \<and> n \<le> 32) \<or> n = 133 \<or> n = 160)"
proof -
  have "(of_char c :: int) = int (of_char c)" by (simp add: of_nat_of_char)
  then show ?thesis by (auto simp: py_space_def Let_def)
qed

definition py_strip :: "string \<Rightarrow> string" where
  "py_strip s = rev (dropWhile py_space (rev (dropWhile py_space s)))"

lemma py_strip_Nil [simp]: "py_strip [] = []"
  by (simp add: py_strip_def)

lemma py_strip_hd: "py_strip s \<noteq> [] \<Longrightarrow> \<not> py_space (hd (py_strip s))"
proof -
  assume ne: "py_strip s \<noteq> []"
  define t where "t = dropWhile py_space s"
  have t: "t \<noteq> [] \<Longrightarrow> \<not> py_space (hd t)"
    unfolding t_def by (rule hd_dropWhile)
  obtain u where u: "t = py_strip s @ u"
    unfolding py_strip_def t_def [symmetric]
    by (metis append.right_neutral rev_append rev_rev_ident takeWhile_dropWhile_id)
  then have "hd (py_strip s) = hd t" using ne by simp
  then show ?thesis using t ne u by auto
qed

lemma py_strip_last: "py_strip s \<noteq> [] \<Longrightarrow> \<not> py_space (last (py_strip s))"
  unfolding py_strip_def
  by (metis hd_dropWhile hd_rev last_rev rev_is_Nil_conv rev_rev_ident)

lemma py_strip_id:
  assumes "s \<noteq> []" and "\<not> py_space (hd s)" and "\<not> py_space (last s)"
  shows "py_strip s = s"
proof -
  have "dropWhile py_space s = s"
    using assms by (cases s) auto
  moreover have "dropWhile py_space (rev s) = rev s"
    using assms by (cases "rev s") (auto simp: hd_rev [symmetric])
  ultimately show ?thesis by (simp add: py_strip_def)
qed

lemma py_strip_idem [simp]: "py_strip (py_strip s) = py_strip s"
proof (cases "py_strip s = []")
  case True
  then show ?thesis by (simp only: py_strip_Nil)
next
  case False
  then show ?thesis by (intro py_strip_id py_strip_hd py_strip_last)
qed

text \<open>\<open>str(n)\<close> of a natural number, and reading it back.\<close>

fun nat_str :: "nat \<Rightarrow> string" where
  "nat_str n = (if n < 10 then [char_of (48 + n)] else nat_str (n div 10) @ [char_of (48 + n mod 10)])"

declare nat_str.simps [simp del]

definition digit_val :: "char \<Rightarrow> nat" where
  "digit_val c = (of_char c :: nat) - 48"

definition is_digit :: "char \<Rightarrow> bool" where
  "is_digit c = (let n = (of_char c :: nat) in 48 \<le> n \<and> n \<le> 57)"

fun str_nat_acc :: "nat \<Rightarrow> string \<Rightarrow> nat" where
  "str_nat_acc a [] = a"
| "str_nat_acc a (c # cs) = str_nat_acc (10 * a + digit_val c) cs"

definition str_nat :: "string \<Rightarrow> nat" where
  "str_nat = str_nat_acc 0"

lemma digit_val_char [simp]: "(d::nat) < 10 \<Longrightarrow> digit_val (char_of (48 + d)) = d"
  by (simp add: digit_val_def)

lemma is_digit_char [simp]: "(d::nat) < 10 \<Longrightarrow> is_digit (char_of (48 + d))"
  by (simp add: is_digit_def)

lemma str_nat_acc_append: "str_nat_acc a (xs @ ys) = str_nat_acc (str_nat_acc a xs) ys"
  by (induction xs arbitrary: a) auto

lemma str_nat_nat_str [simp]: "str_nat (nat_str n) = n"
proof (induction n rule: nat_str.induct)
  case (1 n)
  show ?case
  proof (cases "n < 10")
    case True
    then show ?thesis by (simp add: nat_str.simps str_nat_def)
  next
    case False
    with 1 have "str_nat (nat_str (n div 10)) = n div 10" by simp
    with False show ?thesis
      by (subst nat_str.simps) (simp add: str_nat_def str_nat_acc_append)
  qed
qed

lemma nat_str_inj [simp]: "nat_str m = nat_str n \<longleftrightarrow> m = n"
  by (metis str_nat_nat_str)

lemma nat_str_digits: "\<forall>c \<in> set (nat_str n). is_digit c"
proof (induction n rule: nat_str.induct)
  case (1 n)
  then show ?case by (subst nat_str.simps) auto
qed

lemma nat_str_ne [simp]: "nat_str n \<noteq> []"
  by (subst nat_str.simps) simp

definition starts_with :: "string \<Rightarrow> string \<Rightarrow> bool" where
  "starts_with p s = (take (length p) s = p)"

definition ends_with :: "string \<Rightarrow> string \<Rightarrow> bool" where
  "ends_with p s = (length p \<le> length s \<and> drop (length s - length p) s = p)"

end
