(* ===== verification/Product_Registry.thy ===== *)
theory Product_Registry
imports Prelude
begin

text \<open>
  \<^verbatim>\<open>app/bootstrap/product_registry.py\<close> and \<^verbatim>\<open>app/platform/channels.py\<close>: the registry of
  products the server serves (validated when it is built, fail-closed when it is asked) and
  the capability table of the access channels. A registry is the list of its validated
  registrations in insertion order, as the dict of the code is.
\<close>

section \<open>Registrations\<close>

record product =
  p_app :: string
  p_enabled :: bool
  p_language :: string
  p_channels :: "string list"

type_synonym registry = "product list"

definition supported_languages :: "string list" where
  "supported_languages = [''zh-CN'', ''en-US'', ''ja-JP'']"

definition is_lower :: "char \<Rightarrow> bool" where
  "is_lower c = (let n = (of_char c :: nat) in 97 \<le> n \<and> n \<le> 122)"

text \<open>\<open>_APP_ID_RE.fullmatch\<close>: a lower-case letter, then 1 to 63 of \<open>[a-z0-9_]\<close>.\<close>

definition app_id_ok :: "string \<Rightarrow> bool" where
  "app_id_ok s = (case s of [] \<Rightarrow> False
     | c # cs \<Rightarrow> is_lower c \<and> 1 \<le> length cs \<and> length cs \<le> 63 \<and>
         (\<forall>d \<in> set cs. is_lower d \<or> is_digit d \<or> d = CHR ''_''))"

text \<open>\<open>tuple(dict.fromkeys(...))\<close> keeps the first occurrence of each key.\<close>

definition dict_fromkeys :: "'a list \<Rightarrow> 'a list" where
  "dict_fromkeys xs = rev (remdups (rev xs))"

definition clean_channels :: "string list \<Rightarrow> string list" where
  "clean_channels chs = dict_fromkeys (filter (\<lambda>c. c \<noteq> []) (map py_strip chs))"

definition add_product :: "registry \<Rightarrow> product \<Rightarrow> registry res" where
  "add_product entries product =
     (let app_id = py_strip (p_app product) in
      if \<not> app_id_ok app_id then Inl (ValueError ''invalid app_id'')
      else if \<exists>q \<in> set entries. p_app q = app_id then Inl (ValueError ''duplicate app_id'')
      else let lang = py_strip (p_language product) in
      if lang \<notin> set supported_languages then Inl (ValueError ''unsupported default_language'')
      else let chs = clean_channels (p_channels product) in
      if length chs \<noteq> length (p_channels product)
      then Inl (ValueError ''invalid or duplicate allowed_channels'')
      else Inr (entries @ [\<lparr>p_app = app_id, p_enabled = p_enabled product,
                            p_language = lang, p_channels = chs\<rparr>]))"

fun add_products :: "registry \<Rightarrow> product list \<Rightarrow> registry res" where
  "add_products entries [] = Inr entries"
| "add_products entries (p # ps) = and_then (add_product entries p) (\<lambda>es. add_products es ps)"

definition mk_registry :: "product list \<Rightarrow> registry res" where
  "mk_registry products = and_then (add_products [] products)
     (\<lambda>entries. if entries = [] then Inl (ValueError ''product registry must not be empty'')
               else Inr entries)"

section \<open>Lookups\<close>

definition require_registered :: "registry \<Rightarrow> string \<Rightarrow> product res" where
  "require_registered reg app_id =
     (case find_row (\<lambda>p. p_app p = py_strip app_id) reg of
        None \<Rightarrow> Inl (ValueError ''unregistered app_id'')
      | Some p \<Rightarrow> Inr p)"

definition require_enabled :: "registry \<Rightarrow> string \<Rightarrow> product res" where
  "require_enabled reg app_id = and_then (require_registered reg app_id)
     (\<lambda>p. if \<not> p_enabled p then Inl (ValueError ''disabled app_id'') else Inr p)"

definition registrations :: "registry \<Rightarrow> product list" where
  "registrations reg = sort_key p_app reg"

definition require_allowed_channel :: "registry \<Rightarrow> string \<Rightarrow> string \<Rightarrow> product res" where
  "require_allowed_channel reg app_id channel = and_then (require_registered reg app_id)
     (\<lambda>p. if py_strip channel \<notin> set (p_channels p) then Inl (ValueError ''channel not allowed'')
          else Inr p)"

definition ZHAOXI_APP_ID :: string where "ZHAOXI_APP_ID = ''zhaoxi''"
definition MINGCHAN_APP_ID :: string where "MINGCHAN_APP_ID = ''mingchan''"
definition PLUM_APP_ID :: string where "PLUM_APP_ID = ''plum''"

definition production_products :: "product list" where
  "production_products =
     [\<lparr>p_app = ZHAOXI_APP_ID, p_enabled = True, p_language = ''zh-CN'',
       p_channels = [''openclaw-weixin'', ''web'', ''unknown'']\<rparr>,
      \<lparr>p_app = MINGCHAN_APP_ID, p_enabled = True, p_language = ''zh-CN'', p_channels = [''native'']\<rparr>,
      \<lparr>p_app = PLUM_APP_ID, p_enabled = True, p_language = ''zh-CN'', p_channels = [''native'']\<rparr>]"

definition production_registry :: "registry res" where
  "production_registry = mk_registry production_products"

definition build_test_product_registry :: "bool \<Rightarrow> registry res" where
  "build_test_product_registry mingchan_enabled = mk_registry
     [\<lparr>p_app = ZHAOXI_APP_ID, p_enabled = True, p_language = ''zh-CN'',
       p_channels = [''openclaw-weixin'', ''web'', ''unknown'']\<rparr>,
      \<lparr>p_app = MINGCHAN_APP_ID, p_enabled = mingchan_enabled, p_language = ''zh-CN'',
       p_channels = [''native'']\<rparr>,
      \<lparr>p_app = PLUM_APP_ID, p_enabled = True, p_language = ''zh-CN'', p_channels = [''native'']\<rparr>,
      \<lparr>p_app = ''test_product'', p_enabled = True, p_language = ''zh-CN'', p_channels = [''native'']\<rparr>]"

section \<open>Channel capabilities\<close>

record channel_cap =
  active_session_key :: string
  onboarding_enabled :: bool
  onboarding_copy_key :: string
  default_reply_delivery :: string
  supports_out_of_band_tool_final :: bool
  supports_proactive :: bool
  tdai_enabled :: bool
  reply_presentation :: string

definition CHANNEL_WEIXIN :: string where "CHANNEL_WEIXIN = ''openclaw-weixin''"
definition CHANNEL_WEB :: string where "CHANNEL_WEB = ''web''"
definition CHANNEL_APP :: string where "CHANNEL_APP = ''native''"

definition default_capability :: channel_cap where
  "default_capability = \<lparr>active_session_key = ''__account_active__'', onboarding_enabled = False,
     onboarding_copy_key = ''weixin_welcome'', default_reply_delivery = ''sync_http'',
     supports_out_of_band_tool_final = True, supports_proactive = True, tdai_enabled = True,
     reply_presentation = ''weixin''\<rparr>"

definition channels :: "(string \<times> channel_cap) list" where
  "channels =
     [(CHANNEL_WEIXIN, default_capability\<lparr>onboarding_enabled := True\<rparr>),
      (CHANNEL_WEB, \<lparr>active_session_key = ''__web_active__'', onboarding_enabled = False,
         onboarding_copy_key = ''web_welcome'', default_reply_delivery = ''sync_http'',
         supports_out_of_band_tool_final = False, supports_proactive = False, tdai_enabled = False,
         reply_presentation = ''web''\<rparr>),
      (CHANNEL_APP, \<lparr>active_session_key = ''__app_active__'', onboarding_enabled = False,
         onboarding_copy_key = ''app_welcome'', default_reply_delivery = ''sync_http'',
         supports_out_of_band_tool_final = False, supports_proactive = False, tdai_enabled = False,
         reply_presentation = ''native''\<rparr>)]"

definition get_channel_capability :: "string \<Rightarrow> channel_cap" where
  "get_channel_capability channel =
     (case map_of channels channel of None \<Rightarrow> default_capability | Some c \<Rightarrow> c)"

section \<open>Properties of a built registry\<close>

definition product_ok :: "product \<Rightarrow> bool" where
  "product_ok p = (app_id_ok (p_app p) \<and> p_language p \<in> set supported_languages \<and>
     distinct (p_channels p) \<and> (\<forall>c \<in> set (p_channels p). c \<noteq> [] \<and> py_strip c = c) \<and>
     py_strip (p_app p) = p_app p)"

definition registry_ok :: "registry \<Rightarrow> bool" where
  "registry_ok reg = (unique_on (\<lambda>_. True) p_app reg \<and> list_all product_ok reg)"

lemma dict_fromkeys_simps [simp]:
  "set (dict_fromkeys xs) = set xs" "distinct (dict_fromkeys xs)"
  by (simp_all add: dict_fromkeys_def)

lemma add_product_ok:
  "registry_ok entries \<Longrightarrow> add_product entries p = Inr es \<Longrightarrow> registry_ok es \<and> es \<noteq> []"
  by (auto simp: add_product_def Let_def registry_ok_def product_ok_def unique_on_snoc
      clean_channels_def split: if_splits)

lemma add_products_ok: "registry_ok entries \<Longrightarrow> add_products entries ps = Inr es \<Longrightarrow> registry_ok es"
  by (induction ps arbitrary: entries) (auto simp: tx_simps dest: add_product_ok)

lemma mk_registry_ok: "mk_registry ps = Inr reg \<Longrightarrow> registry_ok reg \<and> reg \<noteq> []"
  unfolding mk_registry_def and_then_Inr
  by (auto split: if_splits dest!: add_products_ok [rotated] simp: registry_ok_def)

lemma require_enabled_Inr [tx_simps]:
  "require_enabled reg a = Inr p \<longleftrightarrow>
     find_row (\<lambda>p. p_app p = py_strip a) reg = Some p \<and> p_enabled p"
  by (auto simp: require_enabled_def require_registered_def tx_simps split: option.splits if_splits)

lemma require_enabled_app: "require_enabled reg a = Inr p \<Longrightarrow> p_app p = py_strip a"
  by (auto simp: require_enabled_Inr dest: find_row_Some)

lemma app_id_ok_ne: "app_id_ok s \<Longrightarrow> s \<noteq> []"
  by (auto simp: app_id_ok_def)

lemma registered_app_ne:
  "registry_ok reg \<Longrightarrow> require_enabled reg a = Inr p \<Longrightarrow> p_app p \<noteq> []"
  by (auto simp: require_enabled_Inr registry_ok_def product_ok_def list_all_iff
      dest!: find_row_Some app_id_ok_ne)

lemma is_lower_not_space: "is_lower c \<Longrightarrow> \<not> py_space c"
  by (auto simp: is_lower_def py_space_def Let_def)

lemma registered_app_strip:
  "registry_ok reg \<Longrightarrow> p \<in> set reg \<Longrightarrow> py_strip (p_app p) = p_app p"
  by (auto simp: registry_ok_def product_ok_def list_all_iff)

lemma production_registry_value:
  "production_registry = Inr production_products"
  by (simp add: production_registry_def mk_registry_def production_products_def add_product_def
      app_id_ok_def is_lower_def is_digit_def supported_languages_def clean_channels_def
      dict_fromkeys_def py_strip_def py_space_def Let_def ZHAOXI_APP_ID_def MINGCHAN_APP_ID_def
      PLUM_APP_ID_def)

lemma production_products_ok: "registry_ok production_products"
  using mk_registry_ok [of production_products production_products] production_registry_value
  by (simp add: production_registry_def)

end
