(* ===== verification/Core_Text.thy ===== *)
theory Core_Text
imports Prelude
begin

text \<open>
  The text and amount helpers of \<^verbatim>\<open>app/db/_core.py\<close>, \<^verbatim>\<open>app/db/_schema_utils.py\<close> and
  \<^verbatim>\<open>app/db/billing.py\<close>: cleaning of optional text, phone numbers and invite codes, channel
  account aliases, the quota subject encoding, the display of shell amounts, and the price of
  tokens with Python's float division written out.
\<close>

section \<open>Cleaning and normalising\<close>

definition clean_text :: "string option \<Rightarrow> string option" where
  "clean_text value = (case value of None \<Rightarrow> None
     | Some v \<Rightarrow> (let t = py_strip v in if t = [] then None else Some t))"

lemma clean_text_Some: "clean_text v = Some t \<Longrightarrow> t \<noteq> [] \<and> py_strip t = t"
  by (auto simp: clean_text_def Let_def split: option.splits if_splits)

lemma clean_text_stable [simp]: "clean_text (clean_text v) = clean_text v"
  by (auto simp: clean_text_def Let_def split: option.splits)

lemma clean_text_fixed: "t \<noteq> [] \<Longrightarrow> py_strip t = t \<Longrightarrow> clean_text (Some t) = Some t"
  by (simp add: clean_text_def)

lemma clean_text_prefix:
  assumes "clean_text v = Some key" and "p \<noteq> []" and "\<not> py_space (hd p)"
  shows "clean_text (Some (p @ key)) = Some (p @ key)"
proof -
  from assms(1) have k: "key \<noteq> []" "py_strip key = key" using clean_text_Some by blast+
  then have "\<not> py_space (last key)" using py_strip_last [of key] by simp
  with k(1) assms(2,3) have "py_strip (p @ key) = p @ key"
    by (intro py_strip_id) simp_all
  then show ?thesis using assms(2) by (intro clean_text_fixed) simp_all
qed

text \<open>
  \<open>str.upper()\<close> on Latin-1: letters are shifted, the sharp s becomes SS; U+00B5 and U+00FF,
  whose upper-case letters lie outside Latin-1, are left as they are.
\<close>

definition py_upper_char :: "char \<Rightarrow> string" where
  "py_upper_char c = (let n = (of_char c :: nat) in
     if 97 \<le> n \<and> n \<le> 122 \<or> 224 \<le> n \<and> n \<le> 254 \<and> n \<noteq> 247 then [char_of (n - 32)]
     else if n = 223 then ''SS'' else [c])"

definition py_upper :: "string \<Rightarrow> string" where
  "py_upper s = concat (map py_upper_char s)"

definition normalize_referral_code :: "string option \<Rightarrow> string option" where
  "normalize_referral_code code = (case clean_text code of None \<Rightarrow> None
     | Some t \<Rightarrow> Some (py_upper (filter (\<lambda>c. \<not> py_space c) t)))"

text \<open>\<open>_PHONE_RE = ^1[3-9]\d{9}$\<close> after the separators are removed.\<close>

definition phone_ok :: "string \<Rightarrow> bool" where
  "phone_ok s = (length s = 11 \<and> s ! 0 = CHR ''1'' \<and> s ! 1 \<in> set ''3456789'' \<and>
     (\<forall>c \<in> set (drop 2 s). is_digit c))"

definition normalize_phone :: "string \<Rightarrow> string res" where
  "normalize_phone phone =
     (let normalized = py_strip (filter (\<lambda>c. c \<notin> set '' -().'') phone)
      in if phone_ok normalized then Inr normalized
         else Inl (ValueError ''phone must be a valid Chinese mobile number (1[3-9]XXXXXXXXX)''))"

definition channel_account_id_aliases :: "string \<Rightarrow> string list" where
  "channel_account_id_aliases value =
     (case clean_text (Some value) of None \<Rightarrow> []
      | Some cleaned \<Rightarrow>
         (let n = length cleaned;
              bot = (if ends_with ''@im.bot'' cleaned then [take (n - 7) cleaned @ ''-im-bot'']
                     else if ends_with ''-im-bot'' cleaned then [take (n - 7) cleaned @ ''@im.bot'']
                     else []);
              wechat = (if ends_with ''@im.wechat'' cleaned then [take (n - 10) cleaned @ ''-im-wechat'']
                     else if ends_with ''-im-wechat'' cleaned then [take (n - 10) cleaned @ ''@im.wechat'']
                     else [])
          in rev (remdups (rev (cleaned # bot @ wechat)))))"

section \<open>Row ids\<close>

text \<open>
  \<open>_new_id(prefix)\<close> is the prefix and the 32 hexadecimal digits of a random uuid, which is an
  argument; \<open>_new_referral_code()\<close> is the first eight digits in upper case.
\<close>

definition hex_digit :: "int \<Rightarrow> char" where
  "hex_digit d = char_of (nat (if d < 10 then 48 + d else 87 + d))"

fun hex_digits :: "nat \<Rightarrow> int \<Rightarrow> string" where
  "hex_digits 0 n = []"
| "hex_digits (Suc k) n = hex_digits k (n div 16) @ [hex_digit (n mod 16)]"

definition new_id :: "string \<Rightarrow> int \<Rightarrow> string" where
  "new_id prefix uuid = prefix @ ''_'' @ hex_digits 32 uuid"

definition new_referral_code :: "int \<Rightarrow> string" where
  "new_referral_code uuid = py_upper (take 8 (hex_digits 32 uuid))"

lemma hex_digit_not_space:
  assumes "0 \<le> d" and "d < 16"
  shows "\<not> py_space (hex_digit d)"
proof -
  define m where "m = nat (if d < 10 then 48 + d else 87 + d)"
  have m: "33 \<le> m" "m < 127" using assms by (simp_all add: m_def nat_less_iff le_nat_iff)
  have "(of_char (hex_digit d) :: nat) = m"
    unfolding hex_digit_def of_char_of m_def [symmetric] using m(2) by (intro mod_less) simp
  then show ?thesis using m unfolding py_space_def Let_def by simp
qed

lemma new_id_clean:
  assumes "prefix \<noteq> []" and "\<not> py_space (hd prefix)"
  shows "clean_text (Some (new_id prefix uuid)) = Some (new_id prefix uuid)"
proof (rule clean_text_fixed)
  show "new_id prefix uuid \<noteq> []" using assms(1) by (simp add: new_id_def)
  have "hex_digits 32 uuid = hex_digits 31 (uuid div 16) @ [hex_digit (uuid mod 16)]"
    using hex_digits.simps(2) [of 31 uuid] by (simp del: hex_digits.simps)
  then have "last (new_id prefix uuid) = hex_digit (uuid mod 16)"
    by (simp add: new_id_def)
  then have "\<not> py_space (last (new_id prefix uuid))" by (simp add: hex_digit_not_space)
  then show "py_strip (new_id prefix uuid) = new_id prefix uuid"
    using assms by (intro py_strip_id) (simp_all add: new_id_def)
qed

section \<open>The quota subject\<close>

text \<open>
  \<open>product_quota_subject\<close>: the key of a product's quota rows and locks,
  \<open>product:<len app>:<app>:<user>\<close>.
\<close>

definition product_quota_subject :: "string \<Rightarrow> string \<Rightarrow> string res" where
  "product_quota_subject platform_user_id app_id =
     (let u = py_strip platform_user_id; a = py_strip app_id
      in if u = [] \<or> a = [] then Inl (ValueError ''platform_user_id and app_id are required'')
         else Inr (''product:'' @ nat_str (length a) @ '':'' @ a @ '':'' @ u))"

lemma colon_not_digit: "CHR '':'' \<notin> set (nat_str n)"
  using nat_str_digits [of n] by (auto simp: is_digit_def Let_def)

lemma split_at_colon:
  "CHR '':'' \<notin> set xs \<Longrightarrow> CHR '':'' \<notin> set ys \<Longrightarrow>
     xs @ CHR '':'' # us = ys @ CHR '':'' # vs \<Longrightarrow> xs = ys \<and> us = vs"
  by (induction xs arbitrary: ys) (auto simp: Cons_eq_append_conv append_eq_Cons_conv)

lemma quota_subject_parts:
  assumes "nat_str (length a) @ '':'' @ a @ '':'' @ u = nat_str (length b) @ '':'' @ b @ '':'' @ v"
  shows "a = b \<and> u = v"
proof -
  from assms have "nat_str (length a) = nat_str (length b) \<and> a @ '':'' @ u = b @ '':'' @ v"
    using split_at_colon [OF colon_not_digit colon_not_digit,
        of "length a" "a @ '':'' @ u" "length b" "b @ '':'' @ v"] by simp
  then show ?thesis by (auto simp: append_eq_append_conv)
qed

section \<open>Showing shell amounts\<close>

definition SHELL_MICROS_PER_SHELL :: int where "SHELL_MICROS_PER_SHELL = 1000000"
definition SHELL_BILLABLE_TOKENS_PER_SHELL :: int where "SHELL_BILLABLE_TOKENS_PER_SHELL = 1000"
definition NEW_USER_GRANT_SHELLS :: int where "NEW_USER_GRANT_SHELLS = 1000"
definition NEW_USER_GRANT_SHELL_MICROS :: int where
  "NEW_USER_GRANT_SHELL_MICROS = NEW_USER_GRANT_SHELLS * SHELL_MICROS_PER_SHELL"
definition REFERRAL_REWARD_SHELLS :: int where "REFERRAL_REWARD_SHELLS = 1000"
definition REFERRAL_REWARD_SHELL_MICROS :: int where
  "REFERRAL_REWARD_SHELL_MICROS = REFERRAL_REWARD_SHELLS * SHELL_MICROS_PER_SHELL"

definition pad6 :: "nat \<Rightarrow> string" where
  "pad6 n = replicate (6 - length (nat_str n)) (CHR ''0'') @ nat_str n"

definition rstrip_zeros :: "string \<Rightarrow> string" where
  "rstrip_zeros s = rev (dropWhile (\<lambda>c. c = CHR ''0'') (rev s))"

definition format_shell_amount :: "int \<Rightarrow> string" where
  "format_shell_amount amount_shell_micros =
     (let sign = (if amount_shell_micros < 0 then ''-'' else []);
          amount = \<bar>amount_shell_micros\<bar>;
          whole = nat (amount div SHELL_MICROS_PER_SHELL);
          fraction = nat (amount mod SHELL_MICROS_PER_SHELL)
      in if fraction = 0 then sign @ nat_str whole
         else rstrip_zeros (sign @ nat_str whole @ ''.'' @ pad6 fraction))"

text \<open>
  The reader of the display, the specification of what a displayed amount means: an optional
  sign, the whole shells, and up to six decimal places.
\<close>

definition parse_unsigned :: "string \<Rightarrow> int" where
  "parse_unsigned s =
     (let whole = takeWhile (\<lambda>c. c \<noteq> CHR ''.'') s;
          frac = drop 1 (dropWhile (\<lambda>c. c \<noteq> CHR ''.'') s)
      in int (str_nat whole) * 1000000
         + int (str_nat (frac @ replicate (6 - length frac) (CHR ''0''))))"

definition parse_shell_amount :: "string \<Rightarrow> int" where
  "parse_shell_amount s =
     (case s of [] \<Rightarrow> 0 | c # cs \<Rightarrow> if c = CHR ''-'' then - parse_unsigned cs else parse_unsigned s)"

lemma str_nat_acc_zeros: "str_nat_acc 0 (replicate k (CHR ''0'') @ s) = str_nat_acc 0 s"
  by (induction k) (auto simp: digit_val_def)

lemma str_nat_pad6 [simp]: "str_nat (pad6 n) = n"
  using str_nat_nat_str [of n] by (simp add: pad6_def str_nat_def str_nat_acc_zeros)

lemma length_nat_str: "n < 10 ^ k \<Longrightarrow> 0 < k \<Longrightarrow> length (nat_str n) \<le> k"
proof (induction k arbitrary: n)
  case 0
  then show ?case by simp
next
  case (Suc k)
  show ?case
  proof (cases "n < 10")
    case True
    then show ?thesis by (subst nat_str.simps) simp
  next
    case False
    with Suc.prems have "0 < k" by (cases k) auto
    moreover have "n div 10 < 10 ^ k" using Suc.prems by (simp add: div_less_iff_less_mult mult.commute)
    ultimately have "length (nat_str (n div 10)) \<le> k" by (intro Suc.IH)
    with False show ?thesis by (subst nat_str.simps) simp
  qed
qed

lemma length_pad6: "n < 1000000 \<Longrightarrow> length (pad6 n) = 6"
  using length_nat_str [of n 6] by (simp add: pad6_def)

lemma rstrip_zeros_pad:
  "rstrip_zeros s @ replicate (length s - length (rstrip_zeros s)) (CHR ''0'') = s"
proof -
  let ?z = "\<lambda>c. c = CHR ''0''"
  have "takeWhile ?z (rev s) = replicate (length (takeWhile ?z (rev s))) (CHR ''0'')"
    by (rule replicate_length_same [symmetric]) (auto dest: set_takeWhileD)
  moreover have len: "length (takeWhile ?z (rev s)) + length (rstrip_zeros s) = length s"
    unfolding rstrip_zeros_def length_rev
    by (metis length_append length_rev takeWhile_dropWhile_id)
  moreover have "s = rstrip_zeros s @ rev (takeWhile ?z (rev s))"
    by (metis rev_append rev_rev_ident rstrip_zeros_def takeWhile_dropWhile_id)
  ultimately show ?thesis
    using len by (metis add_diff_cancel_right' rev_replicate)
qed

lemma rstrip_zeros_append:
  "c \<noteq> CHR ''0'' \<Longrightarrow> rstrip_zeros (xs @ c # ys) = xs @ c # rstrip_zeros ys"
  by (auto simp: rstrip_zeros_def dropWhile_append)

lemma digits_no_char: "c \<in> set (nat_str n) \<Longrightarrow> c \<noteq> CHR ''.'' \<and> c \<noteq> CHR ''-''"
  using nat_str_digits [of n] by (auto simp: is_digit_def Let_def)

lemma takeWhile_dot [simp]: "takeWhile (\<lambda>c. c \<noteq> CHR ''.'') (nat_str n @ CHR ''.'' # s) = nat_str n"
  "dropWhile (\<lambda>c. c \<noteq> CHR ''.'') (nat_str n @ CHR ''.'' # s) = CHR ''.'' # s"
  "takeWhile (\<lambda>c. c \<noteq> CHR ''.'') (nat_str n) = nat_str n"
  "dropWhile (\<lambda>c. c \<noteq> CHR ''.'') (nat_str n) = []"
  using digits_no_char [of _ n]
  by (auto simp: takeWhile_append dropWhile_append takeWhile_eq_all_conv dropWhile_eq_Nil_conv)

lemma parse_unsigned_whole: "parse_unsigned (nat_str w) = int w * 1000000"
  by (simp add: parse_unsigned_def) (simp add: str_nat_def digit_val_def numeral_eq_Suc)

lemma parse_unsigned_fraction:
  assumes "f < 1000000"
  shows "parse_unsigned (nat_str w @ CHR ''.'' # rstrip_zeros (pad6 f)) = int w * 1000000 + int f"
  using rstrip_zeros_pad [of "pad6 f"] length_pad6 [OF assms]
  by (simp add: parse_unsigned_def)

lemma parse_signed:
  "s \<noteq> [] \<Longrightarrow> hd s \<noteq> CHR ''-'' \<Longrightarrow> parse_shell_amount ((if b then ''-'' else []) @ s) =
     (if b then - parse_unsigned s else parse_unsigned s)"
  by (cases s) (auto simp: parse_shell_amount_def)

lemma hd_nat_str: "hd (nat_str n @ s) \<noteq> CHR ''-''"
  using digits_no_char [of "hd (nat_str n)" n] by (simp add: hd_append)

lemma parse_format_shell: "parse_shell_amount (format_shell_amount m) = m"
proof -
  define w where "w = nat (\<bar>m\<bar> div 1000000)"
  define f where "f = nat (\<bar>m\<bar> mod 1000000)"
  have f: "f < 1000000" by (simp add: f_def nat_less_iff)
  have m: "int w * 1000000 + int f = \<bar>m\<bar>"
    by (simp add: w_def f_def pos_imp_zdiv_nonneg_iff)
  show ?thesis
  proof (cases "f = 0")
    case True
    then have "format_shell_amount m = (if m < 0 then ''-'' else []) @ nat_str w"
      by (simp add: format_shell_amount_def SHELL_MICROS_PER_SHELL_def w_def f_def Let_def)
    then show ?thesis
      using m True hd_nat_str [of w "[]"] by (simp add: parse_signed parse_unsigned_whole)
  next
    case False
    then have "format_shell_amount m =
        rstrip_zeros ((if m < 0 then ''-'' else []) @ nat_str w @ ''.'' @ pad6 f)"
      by (simp add: format_shell_amount_def SHELL_MICROS_PER_SHELL_def w_def f_def Let_def)
    also have "\<dots> = (if m < 0 then ''-'' else []) @ nat_str w @ CHR ''.'' # rstrip_zeros (pad6 f)"
      using rstrip_zeros_append [of "CHR ''.''" "(if m < 0 then ''-'' else []) @ nat_str w" "pad6 f"]
      by simp
    finally show ?thesis
      using m f hd_nat_str [of w "CHR ''.'' # rstrip_zeros (pad6 f)"]
      by (simp only: parse_signed append_is_Nil_conv nat_str_ne simp_thms)
         (simp add: parse_unsigned_fraction)
  qed
qed

end
