(* ===== verification/Identity.thy ===== *)
theory Identity
imports Product_Registry Core_Text
begin

text \<open>
  Who an account belongs to: platform users and their product memberships
  (\<^verbatim>\<open>app/db/product_memberships.py\<close>), the three ways an account has an owner
  (\<open>resolve_owner_platform_user_id\<close> of \<^verbatim>\<open>app/db/accounts.py\<close>), and the billing scope
  (\<open>_resolve_billing_scope_in_conn\<close> of \<^verbatim>\<open>app/db/billing.py\<close>). The identity tables are the
  root of the database record that the other components extend. Timestamps are seconds: the
  columns hold Beijing time in the fixed-width form \<^verbatim>\<open>YYYY-MM-DD HH:MM:SS\<close>, whose text order
  is the order of time.
\<close>

section \<open>Tables\<close>

record platform_user =
  u_id :: string
  u_phone :: string
  u_name :: "string option"
  u_avatar :: "string option"
  u_status :: string

datatype membership_status = MActive | MDisabled

record membership =
  m_user :: string
  m_app :: string
  m_status :: membership_status
  m_daily_limit :: "int option"
  m_rpm_limit :: "int option"
  m_settings :: "dict option"
  m_created :: int

record account =
  a_id :: string
  a_channel :: "string option"
  a_name :: "string option"
  a_status :: string
  a_app :: string
  a_daily_limit :: "int option"
  a_rpm_limit :: "int option"

record owner_binding =
  b_id :: int
  b_user :: string
  b_account :: string
  b_method :: string
  b_status :: string
  b_app :: string
  b_created :: int

record runtime_ownership =
  ro_account :: string
  ro_user :: string
  ro_app :: string
  ro_source_type :: string
  ro_source :: string
  ro_status :: string

text \<open>The home world of a user and its residents (the companion world of Mingchan).\<close>

record universe =
  uv_id :: string
  uv_owner :: string
  uv_app :: string
  uv_status :: string
  uv_onboarding :: string

record resident =
  rs_id :: string
  rs_universe :: string
  rs_template :: string
  rs_version :: string
  rs_runtime :: "string option"
  rs_origin :: string
  rs_status :: string
  rs_joined :: "int option"
  rs_offline :: "int option"
  rs_departure :: "string option"
  rs_name :: "string option"
  rs_naming :: "string option"
  rs_created :: int
  rs_updated :: int

record identity_db =
  users :: "platform_user list"
  memberships :: "membership list"
  accounts :: "account list"
  bindings :: "owner_binding list"
  ownerships :: "runtime_ownership list"
  universes :: "universe list"
  residents :: "resident list"

section \<open>Memberships\<close>

definition get_product_membership :: "'a identity_db_scheme \<Rightarrow> string \<Rightarrow> string \<Rightarrow> membership option" where
  "get_product_membership db u app = find_row (\<lambda>m. m_user m = u \<and> m_app m = app) (memberships db)"

text \<open>
  \<open>INSERT ... ON CONFLICT(platform_user_id, app_id) DO NOTHING\<close>, then the row and whether the
  insert made it.
\<close>

definition ensure_product_membership ::
  "registry \<Rightarrow> int \<Rightarrow> string \<Rightarrow> string \<Rightarrow> 'a identity_db_scheme \<Rightarrow>
     ((membership \<times> bool) \<times> 'a identity_db_scheme) res" where
  "ensure_product_membership reg now u app db = and_then (require_enabled reg app) (\<lambda>p.
     case find_row (\<lambda>x. u_id x = u) (users db) of
       None \<Rightarrow> Inl (ValueError ''platform_user not found'')
     | Some _ \<Rightarrow>
        (case get_product_membership db u (p_app p) of
           Some m \<Rightarrow> Inr ((m, False), db)
         | None \<Rightarrow>
            (let m = \<lparr>m_user = u, m_app = p_app p, m_status = MActive, m_daily_limit = None,
                      m_rpm_limit = None, m_settings = Some [], m_created = now\<rparr>
             in Inr ((m, True), db\<lparr>memberships := memberships db @ [m]\<rparr>))))"

definition list_product_memberships :: "'a identity_db_scheme \<Rightarrow> string \<Rightarrow> membership list" where
  "list_product_memberships db u = sort_key m_app (filter (\<lambda>m. m_user m = u) (memberships db))"

definition require_active_product_membership ::
  "registry \<Rightarrow> 'a identity_db_scheme \<Rightarrow> string \<Rightarrow> string \<Rightarrow> membership res" where
  "require_active_product_membership reg db u app = and_then (require_enabled reg app) (\<lambda>p.
     case get_product_membership db u (p_app p) of
       None \<Rightarrow> Inl (ValueError ''active product membership required'')
     | Some m \<Rightarrow> if m_status m \<noteq> MActive
                then Inl (ValueError ''active product membership required'') else Inr m)"

definition parse_membership_status :: "string \<Rightarrow> membership_status option" where
  "parse_membership_status s =
     (if py_strip s = ''active'' then Some MActive
      else if py_strip s = ''disabled'' then Some MDisabled else None)"

definition update_product_membership_status ::
  "registry \<Rightarrow> string \<Rightarrow> string \<Rightarrow> string \<Rightarrow> 'a identity_db_scheme \<Rightarrow>
     (membership option \<times> 'a identity_db_scheme) res" where
  "update_product_membership_status reg u app status db =
     (case parse_membership_status status of
        None \<Rightarrow> Inl (ValueError ''membership status must be active or disabled'')
      | Some st \<Rightarrow> and_then (require_enabled reg app) (\<lambda>p.
          let db' = db\<lparr>memberships := update_where (\<lambda>m. m_user m = u \<and> m_app m = p_app p)
                                        (\<lambda>m. m\<lparr>m_status := st\<rparr>) (memberships db)\<rparr>
          in Inr (get_product_membership db' u (p_app p), db')))"

section \<open>The owner of an account\<close>

definition residents_owner :: "'a identity_db_scheme \<Rightarrow> string \<Rightarrow> string option" where
  "residents_owner db acc =
     (case concat (map (\<lambda>r. map uv_owner (filter (\<lambda>v. uv_id v = rs_universe r) (universes db)))
                  (filter (\<lambda>r. rs_runtime r = Some acc) (residents db))) of
        [] \<Rightarrow> None | owner # _ \<Rightarrow> Some owner)"

definition resolve_owner_platform_user_id :: "'a identity_db_scheme \<Rightarrow> string \<Rightarrow> string option" where
  "resolve_owner_platform_user_id db acc =
     (case find_row (\<lambda>x. ro_account x = acc \<and> ro_status x = ''active'') (ownerships db) of
        Some x \<Rightarrow> Some (ro_user x)
      | None \<Rightarrow>
        (case first_by (\<lambda>x. (b_created x, b_id x))
                (filter (\<lambda>x. b_account x = acc \<and> b_status x = ''active'') (bindings db)) of
           Some x \<Rightarrow> Some (b_user x)
         | None \<Rightarrow> residents_owner db acc))"

section \<open>The billing scope\<close>

record scope =
  sc_account :: string
  sc_user :: string
  sc_app :: string

definition find_account :: "'a identity_db_scheme \<Rightarrow> string \<Rightarrow> account option" where
  "find_account db acc = find_row (\<lambda>a. a_id a = acc) (accounts db)"

text \<open>\<open>_registered_app_id\<close>\<close>

definition registered_app_id :: "registry \<Rightarrow> string \<Rightarrow> string res" where
  "registered_app_id reg app =
     (case clean_text (Some app) of
        None \<Rightarrow> Inl (ValueError ''app_id is required'')
      | Some cleaned \<Rightarrow> and_then (require_enabled reg cleaned) (\<lambda>p. Inr (p_app p)))"

text \<open>\<open>Inr None\<close> is the code's \<open>None\<close>: no account or no owner, when that is allowed.\<close>

definition resolve_billing_scope ::
  "registry \<Rightarrow> 'a identity_db_scheme \<Rightarrow> string \<Rightarrow> string option \<Rightarrow> bool \<Rightarrow> scope option res" where
  "resolve_billing_scope reg db acc u allow_missing_owner =
     (case find_account db acc of
        None \<Rightarrow> if allow_missing_owner then Inr None else Inl (ValueError ''account not found'')
      | Some account \<Rightarrow> and_then (require_enabled reg (a_app account)) (\<lambda>p.
          case resolve_owner_platform_user_id db acc of
            None \<Rightarrow> if allow_missing_owner then Inr None
                    else Inl (ValueError ''account owner not found'')
          | Some owner \<Rightarrow>
              if u \<noteq> None \<and> u \<noteq> Some owner then Inl (ValueError ''billing scope mismatch'')
              else and_then (require_active_product_membership reg db owner (p_app p)) (\<lambda>_.
                Inr (Some \<lparr>sc_account = a_id account, sc_user = owner, sc_app = p_app p\<rparr>))))"

text \<open>
  The callers that do not allow a missing owner \<open>assert scope is not None\<close>; the assertion is
  kept as an error value, which \<open>billing_scope_total\<close> below shows unreachable.
\<close>

definition require_billing_scope ::
  "registry \<Rightarrow> 'a identity_db_scheme \<Rightarrow> string \<Rightarrow> string option \<Rightarrow> scope res" where
  "require_billing_scope reg db acc u = and_then (resolve_billing_scope reg db acc u False) (\<lambda>s.
     case s of None \<Rightarrow> Inl (RuntimeError ''assert scope is not None'') | Some sc \<Rightarrow> Inr sc)"

lemma billing_scope_total: "resolve_billing_scope reg db acc u False \<noteq> Inr None"
  by (auto simp: resolve_billing_scope_def tx_simps split: option.splits if_splits)

definition scope_ok :: "'a identity_db_scheme \<Rightarrow> scope \<Rightarrow> bool" where
  "scope_ok db sc =
     ((\<exists>a \<in> set (accounts db). a_id a = sc_account sc \<and> py_strip (a_app a) = sc_app sc) \<and>
      (\<exists>m \<in> set (memberships db). m_user m = sc_user sc \<and> m_app m = sc_app sc \<and> m_status m = MActive) \<and>
      resolve_owner_platform_user_id db (sc_account sc) = Some (sc_user sc))"

lemma require_active_Inr:
  "require_active_product_membership reg db u app = Inr m \<Longrightarrow>
     m \<in> set (memberships db) \<and> m_user m = u \<and> m_app m = py_strip app \<and> m_status m = MActive"
proof -
  assume "require_active_product_membership reg db u app = Inr m"
  then obtain p where p: "require_enabled reg app = Inr p"
    and g: "get_product_membership db u (p_app p) = Some m" and a: "m_status m = MActive"
    unfolding require_active_product_membership_def and_then_Inr by (auto split: option.splits if_splits)
  from g have f: "find_row (\<lambda>m. m_user m = u \<and> m_app m = py_strip app) (memberships db) = Some m"
    unfolding get_product_membership_def by (simp add: require_enabled_app [OF p])
  from find_row_Some [OF f] a show ?thesis by simp
qed

lemma resolve_scope_Some:
  assumes "resolve_billing_scope reg db acc u b = Inr (Some sc)"
  shows "scope_ok db sc" "sc_account sc = acc" "u \<noteq> None \<Longrightarrow> u = Some (sc_user sc)"
    and "\<exists>p. require_enabled reg (sc_app sc) = Inr p"
proof -
  from assms obtain a p m where a: "find_account db acc = Some a"
    and p: "require_enabled reg (a_app a) = Inr p"
    and o: "resolve_owner_platform_user_id db acc = Some (sc_user sc)"
    and u: "u \<noteq> None \<Longrightarrow> u = Some (sc_user sc)"
    and m: "require_active_product_membership reg db (sc_user sc) (p_app p) = Inr m"
    and sc: "sc = \<lparr>sc_account = a_id a, sc_user = sc_user sc, sc_app = p_app p\<rparr>"
    by (auto simp: resolve_billing_scope_def tx_simps split: option.splits if_splits)
  from a have a': "a \<in> set (accounts db)" "a_id a = acc"
    unfolding find_account_def by (auto dest: find_row_Some)
  from sc have sc': "sc_account sc = a_id a" "sc_app sc = p_app p"
    by (metis scope.select_convs)+
  note app = require_enabled_app [OF p]
  from require_active_Inr [OF m] app have
    "m \<in> set (memberships db) \<and> m_user m = sc_user sc \<and> m_app m = sc_app sc \<and> m_status m = MActive"
    by (simp add: sc')
  with a' o app show "scope_ok db sc" unfolding scope_ok_def by (auto simp: sc')
  from a' show "sc_account sc = acc" by (simp add: sc')
  from u show "u \<noteq> None \<Longrightarrow> u = Some (sc_user sc)" .
  from m show "\<exists>p. require_enabled reg (sc_app sc) = Inr p"
    by (auto simp: require_active_product_membership_def tx_simps sc')
qed

lemma require_scope_Inr:
  "require_billing_scope reg db acc u = Inr sc \<longleftrightarrow> resolve_billing_scope reg db acc u False = Inr (Some sc)"
  by (auto simp: require_billing_scope_def tx_simps split: option.splits)

lemma scope_membership:
  "resolve_billing_scope reg db acc u b = Inr (Some sc) \<Longrightarrow>
     \<exists>m \<in> set (memberships db). m_user m = sc_user sc \<and> m_app m = sc_app sc \<and> m_status m = MActive"
  using resolve_scope_Some(1) by (fastforce simp: scope_ok_def)

text \<open>
  The scope depends on the identity tables alone, so it is the same before and after an
  operation that leaves them alone; \<open>same_identity\<close> is that frame.
\<close>

definition same_identity :: "'a identity_db_scheme \<Rightarrow> 'b identity_db_scheme \<Rightarrow> bool" where
  "same_identity s t = (users s = users t \<and> memberships s = memberships t \<and> accounts s = accounts t \<and>
     bindings s = bindings t \<and> ownerships s = ownerships t \<and> universes s = universes t \<and>
     residents s = residents t)"

lemma same_identity_refl [simp]: "same_identity s s"
  by (simp add: same_identity_def)

lemma same_identity_trans: "same_identity s t \<Longrightarrow> same_identity t u \<Longrightarrow> same_identity s u"
  by (simp add: same_identity_def)

lemma same_identity_sym: "same_identity s t \<Longrightarrow> same_identity t s"
  by (simp add: same_identity_def)

lemma same_identity_owner:
  "same_identity s t \<Longrightarrow> resolve_owner_platform_user_id s acc = resolve_owner_platform_user_id t acc"
proof -
  assume a: "same_identity s t"
  then have eqs: "ownerships s = ownerships t" "bindings s = bindings t" "residents s = residents t"
    "universes s = universes t"
    by (simp_all add: same_identity_def)
  show ?thesis
    unfolding resolve_owner_platform_user_id_def residents_owner_def eqs ..
qed

lemma same_identity_membership:
  "same_identity s t \<Longrightarrow>
     require_active_product_membership reg s u app = require_active_product_membership reg t u app"
proof -
  assume a: "same_identity s t"
  then have eqs: "memberships s = memberships t"
    by (simp_all add: same_identity_def)
  show ?thesis
    unfolding require_active_product_membership_def get_product_membership_def eqs ..
qed

lemma same_identity_account: "same_identity s t \<Longrightarrow> find_account s acc = find_account t acc"
  unfolding same_identity_def find_account_def by simp

lemma same_identity_scope:
  assumes "same_identity s t"
  shows "resolve_billing_scope reg s acc u b = resolve_billing_scope reg t acc u b"
  unfolding resolve_billing_scope_def same_identity_owner [OF assms] same_identity_membership [OF assms]
    same_identity_account [OF assms] ..

lemma same_identity_require_scope:
  "same_identity s t \<Longrightarrow> require_billing_scope reg s acc u = require_billing_scope reg t acc u"
  by (simp add: require_billing_scope_def same_identity_scope [of s t])

section \<open>Membership facts\<close>

definition memberships_ok :: "'a identity_db_scheme \<Rightarrow> bool" where
  "memberships_ok db = unique_on (\<lambda>_. True) (\<lambda>m. (m_user m, m_app m)) (memberships db)"

lemma ensure_membership_ok:
  "memberships_ok db \<Longrightarrow> ensure_product_membership reg now u app db = Inr (r, db') \<Longrightarrow> memberships_ok db'"
  by (auto simp: ensure_product_membership_def memberships_ok_def get_product_membership_def tx_simps
      unique_on_snoc find_row_None Let_def split: option.splits)

lemma update_membership_ok:
  "memberships_ok db \<Longrightarrow> update_product_membership_status reg u app st db = Inr (r, db') \<Longrightarrow>
     memberships_ok db'"
  by (auto simp: update_product_membership_status_def memberships_ok_def tx_simps Let_def
      unique_on_update split: option.splits)

lemma ensure_membership_get:
  "ensure_product_membership reg now u app db = Inr ((m, new), db') \<Longrightarrow>
     get_product_membership db' u (py_strip app) = Some m \<and>
     (new \<longleftrightarrow> get_product_membership db u (py_strip app) = None)"
  by (auto simp: ensure_product_membership_def get_product_membership_def tx_simps Let_def
      find_row_append dest: require_enabled_app find_row_Some split: option.splits)

end
