(* ===== verification/Token_Pricing.thy ===== *)
theory Token_Pricing
imports Core_Text
begin

text \<open>
  The price of a chat turn, \<^verbatim>\<open>_shell_micros_for_tokens\<close> and the token estimators of
  \<^verbatim>\<open>app/db/billing.py\<close>. The code divides two integers with Python's \<open>/\<close>, whose result is a
  binary64 float, before \<open>math.ceil\<close>. The model computes that float: the correctly rounded
  quotient (53 significant bits, ties to even) as a mantissa and an exponent, with
  \<open>OverflowError\<close> when it is too large for a float.
\<close>

section \<open>True division of integers\<close>

fun bit_length :: "nat \<Rightarrow> nat" where
  "bit_length n = (if n = 0 then 0 else Suc (bit_length (n div 2)))"

declare bit_length.simps [simp del]

lemma bit_length_le: "bit_length n \<le> j \<longleftrightarrow> n < 2 ^ j"
proof (induction n arbitrary: j rule: bit_length.induct)
  case (1 n)
  show ?case
  proof (cases "n = 0")
    case True
    then show ?thesis by (simp add: bit_length.simps)
  next
    case False
    show ?thesis
    proof (cases j)
      case 0
      with False show ?thesis by (simp add: bit_length.simps [of n])
    next
      case (Suc i)
      with False 1 have "bit_length n \<le> j \<longleftrightarrow> n div 2 < 2 ^ i"
        by (simp add: bit_length.simps [of n])
      also have "\<dots> \<longleftrightarrow> n < 2 ^ j" by (auto simp: Suc div_less_iff_less_mult mult.commute)
      finally show ?thesis .
    qed
  qed
qed

definition round_half_even :: "nat \<Rightarrow> nat \<Rightarrow> nat" where
  "round_half_even a b =
     (let f = a div b; r = a mod b
      in if 2 * r < b then f else if b < 2 * r then f + 1 else if even f then f else f + 1)"

lemma round_half_even_ge: "c * b \<le> a \<Longrightarrow> 0 < b \<Longrightarrow> c \<le> round_half_even a b"
  by (auto simp: round_half_even_def Let_def less_eq_div_iff_mult_less_eq intro: le_SucI)

lemma round_half_even_le:
  assumes "a \<le> c * b" and "0 < b"
  shows "round_half_even a b \<le> c"
proof (cases "a mod b = 0")
  case True
  then have "round_half_even a b = a div b" using assms by (simp add: round_half_even_def)
  also have "\<dots> \<le> c" using assms by (metis div_le_mono nonzero_mult_div_cancel_right not_gr0)
  finally show ?thesis .
next
  case False
  have "a div b < c"
  proof (rule ccontr)
    assume "\<not> a div b < c"
    then have "c * b \<le> a div b * b" by (intro mult_le_mono1) simp
    moreover have "a div b * b < a" using False by (metis add_diff_cancel_left' div_mult_mod_eq
          less_add_same_cancel1 neq0_conv)
    ultimately show False using assms by linarith
  qed
  then show ?thesis by (auto simp: round_half_even_def Let_def)
qed

text \<open>
  \<open>truediv a b\<close> for \<open>b > 0\<close>: the float \<open>m * 2 ^ e\<close> nearest to \<open>a / b\<close>. \<open>g\<close> is
  the binary logarithm of the quotient rounded down, so \<open>e = g - 52\<close> is the weight of the
  last of 53 significant bits.
\<close>

definition truediv_nat :: "nat \<Rightarrow> nat \<Rightarrow> nat \<times> int" where
  "truediv_nat p q =
     (let s = bit_length q;
          g = int (bit_length (p * 2 ^ s div q)) - 1 - int s;
          e = g - 52
      in (if 0 \<le> e then round_half_even p (q * 2 ^ nat e)
          else round_half_even (p * 2 ^ nat (- e)) q, e))"

definition truediv :: "int \<Rightarrow> nat \<Rightarrow> (int \<times> int) res" where
  "truediv a b =
     (if a = 0 then Inr (0, 0)
      else let (m, e) = truediv_nat (nat \<bar>a\<bar>) b
        in if 0 \<le> e \<and> 2 ^ 1024 \<le> m * 2 ^ nat e then Inl OverflowError
           else Inr (sgn a * int m, e))"

definition float_ceil :: "int \<times> int \<Rightarrow> int" where
  "float_ceil x = (case x of (m, e) \<Rightarrow>
     if 0 \<le> e then m * 2 ^ nat e else - ((- m) div 2 ^ nat (- e)))"

section \<open>The price\<close>

definition shell_micros_for_tokens :: "int \<Rightarrow> int \<Rightarrow> int res" where
  "shell_micros_for_tokens billable_tokens model_price_multiplier_micros =
     (if billable_tokens \<le> 0 then Inr 0
      else and_then
        (truediv (billable_tokens * model_price_multiplier_micros * SHELL_MICROS_PER_SHELL)
                 (nat (SHELL_BILLABLE_TOKENS_PER_SHELL * 1000000)))
        (\<lambda>x. Inr (float_ceil x)))"

text \<open>
  \<open>len / 2\<close> is exact in binary, so the estimate of a text is half its length, rounded up.
  Texts are the list of their code points; a message's content is text, a list of parts (of
  which the code measures the JSON text) or something it ignores.
\<close>

type_synonym ustr = "int list"

datatype msg_content = TextContent ustr | PartsContent ustr | OtherContent

definition estimate_tokens_from_text :: "ustr option \<Rightarrow> int" where
  "estimate_tokens_from_text text =
     (case text of None \<Rightarrow> 0
      | Some cleaned \<Rightarrow> if cleaned = [] then 0 else max 1 ((int (length cleaned) + 1) div 2))"

fun estimate_tokens_from_messages :: "msg_content list \<Rightarrow> int" where
  "estimate_tokens_from_messages [] = 0"
| "estimate_tokens_from_messages (TextContent t # ms) =
     estimate_tokens_from_text (Some t) + estimate_tokens_from_messages ms"
| "estimate_tokens_from_messages (PartsContent dumped # ms) =
     estimate_tokens_from_text (Some dumped) + estimate_tokens_from_messages ms"
| "estimate_tokens_from_messages (OtherContent # ms) = estimate_tokens_from_messages ms"

lemma estimate_text_nonneg: "0 \<le> estimate_tokens_from_text t"
  by (auto simp: estimate_tokens_from_text_def split: option.splits)

lemma estimate_messages_nonneg: "0 \<le> estimate_tokens_from_messages ms"
  by (induction ms rule: estimate_tokens_from_messages.induct) (auto simp: estimate_text_nonneg add_nonneg_nonneg)

section \<open>Exactness of the float computation\<close>

text \<open>
  Up to a price of \<open>2 ^ 43\<close> micros (eight million shells) the float is close enough for
  \<open>ceil\<close> to give the exact quotient rounded up: the quotient is a multiple of 1/1000, and the
  distance between neighbouring floats is below that.
\<close>

lemma price_exponent:
  assumes "n < 2 ^ 43 * 1000"
  shows "snd (truediv_nat (n * 1000000) 1000000000) \<le> - 10"
proof -
  have bl: "bit_length 1000000000 = 30"
    by (simp add: bit_length.simps)
  have "n * 1000000 * 2 ^ 30 div 1000000000 < (2::nat) ^ 73"
    using assms by (simp add: div_less_iff_less_mult)
  then have "bit_length (n * 1000000 * 2 ^ 30 div 1000000000) \<le> 73"
    by (simp only: bit_length_le)
  then show ?thesis by (simp add: truediv_nat_def Let_def bl)
qed

lemma ceil_between:
  assumes "(c - 1) * 2 ^ k < m" and "m \<le> c * 2 ^ k"
  shows "- ((- m) div 2 ^ k) = (c::int)"
proof -
  have "(- m) div 2 ^ k = - c"
    using assms by (intro int_div_pos_eq [where r = "c * 2 ^ k - m"]) (auto simp: algebra_simps)
  then show ?thesis by simp
qed

lemma price_exact_pos:
  assumes "0 < n" and "n < 2 ^ 43 * 1000"
  shows "float_ceil (int (fst (truediv_nat (n * 1000000) 1000000000)),
           snd (truediv_nat (n * 1000000) 1000000000)) = int ((n + 999) div 1000)"
proof -
  define e where "e = snd (truediv_nat (n * 1000000) 1000000000)"
  define k where "k = nat (- e)"
  define c where "c = (n + 999) div 1000"
  have e: "e \<le> - 10" unfolding e_def by (rule price_exponent [OF assms(2)])
  then have k: "10 \<le> k" by (simp add: k_def)
  have m: "fst (truediv_nat (n * 1000000) 1000000000) = round_half_even (n * 1000000 * 2 ^ k) 1000000000"
    using e by (simp add: truediv_nat_def Let_def k_def e_def)
  have c: "n \<le> 1000 * c" "1000 * (c - 1) + 1 \<le> n" "0 < c"
  proof -
    have "n + 999 = 1000 * c + (n + 999) mod 1000" "(n + 999) mod 1000 < 1000"
      by (simp_all add: c_def)
    then show "n \<le> 1000 * c" "1000 * (c - 1) + 1 \<le> n" "0 < c"
      using assms(1) by linarith+
  qed
  have "n * 1000000 * 2 ^ k \<le> c * 2 ^ k * 1000000000"
    using mult_le_mono1 [OF c(1), of "1000000 * 2 ^ k"] by (simp add: algebra_simps)
  then have upper: "round_half_even (n * 1000000 * 2 ^ k) 1000000000 \<le> c * 2 ^ k"
    by (rule round_half_even_le) simp
  have "(1000::nat) \<le> 2 ^ k"
    using power_increasing [OF k, of "2::nat"] by simp
  then have "((c - 1) * 2 ^ k + 1) * 1000000000 \<le> (1000 * (c - 1) + 1) * (1000000 * 2 ^ k)"
    by (simp add: algebra_simps)
  also have "\<dots> \<le> n * 1000000 * 2 ^ k"
    using mult_le_mono1 [OF c(2), of "1000000 * 2 ^ k"] by (simp add: algebra_simps)
  finally have lower: "(c - 1) * 2 ^ k + 1 \<le> round_half_even (n * 1000000 * 2 ^ k) 1000000000"
    by (rule round_half_even_ge) simp
  have "- ((- int (round_half_even (n * 1000000 * 2 ^ k) 1000000000)) div 2 ^ k) = int c"
  proof (rule ceil_between)
    have "int ((c - 1) * 2 ^ k + 1) \<le> int (round_half_even (n * 1000000 * 2 ^ k) 1000000000)"
      using lower by (simp only: of_nat_le_iff)
    then show "(int c - 1) * 2 ^ k < int (round_half_even (n * 1000000 * 2 ^ k) 1000000000)"
      using c(3) by (simp add: of_nat_diff)
    have "int (round_half_even (n * 1000000 * 2 ^ k) 1000000000) \<le> int (c * 2 ^ k)"
      using upper by (simp only: of_nat_le_iff)
    then show "int (round_half_even (n * 1000000 * 2 ^ k) 1000000000) \<le> int c * 2 ^ k"
      by simp
  qed
  then show ?thesis
    using e by (simp add: float_ceil_def m e_def [symmetric] k_def [symmetric] c_def [symmetric])
qed

lemma shell_micros_exact:
  assumes "0 \<le> t" and "0 \<le> m" and "t * m < 2 ^ 43 * 1000"
  shows "shell_micros_for_tokens t m = Inr ((t * m + 999) div 1000)"
proof (cases "t * m = 0")
  case True
  then show ?thesis
    by (auto simp: shell_micros_for_tokens_def truediv_def float_ceil_def)
next
  case False
  define n where "n = nat (t * m)"
  have n: "int n = t * m" "0 < n" "n < 2 ^ 43 * 1000"
    using assms False by (auto simp: n_def zero_less_mult_iff order.order_iff_strict)
  have arg: "nat \<bar>t * m * SHELL_MICROS_PER_SHELL\<bar> = n * 1000000"
    using n(1) [symmetric] by (simp add: SHELL_MICROS_PER_SHELL_def)
  have e: "snd (truediv_nat (n * 1000000) 1000000000) \<le> - 10"
    by (rule price_exponent [OF n(3)])
  have "truediv (t * m * SHELL_MICROS_PER_SHELL) 1000000000 =
      Inr (int (fst (truediv_nat (n * 1000000) 1000000000)), snd (truediv_nat (n * 1000000) 1000000000))"
    using False assms e n(2) unfolding truediv_def arg
    by (auto simp: SHELL_MICROS_PER_SHELL_def sgn_if zero_less_mult_iff split: prod.split)
  moreover have "int ((n + 999) div 1000) = (t * m + 999) div 1000"
    using n(1) by (simp add: zdiv_int)
  ultimately show ?thesis
    using False assms price_exact_pos [OF n(2,3)]
    by (auto simp: shell_micros_for_tokens_def SHELL_BILLABLE_TOKENS_PER_SHELL_def)
qed

end
