(* ===== verification/Wallet.thy ===== *)
theory Wallet
imports Identity Token_Pricing
begin

text \<open>
  Wallets and their ledger: the tables \<^verbatim>\<open>entitlement_wallets\<close>, \<^verbatim>\<open>entitlement_ledger\<close> and
  \<^verbatim>\<open>cost_events\<close> with the unique constraints the migrations leave on them, and the operations
  of \<^verbatim>\<open>app/db/billing.py\<close> that write them, statement by statement. Row ids (\<open>_new_id\<close>, a
  random uuid) and the time of a transaction are arguments. Each operation returns an error or
  its value with the new database; \<open>run_tx\<close> rolls back.
\<close>

section \<open>Tables\<close>

record subscription =
  sb_id :: string
  sb_user :: string
  sb_app :: string
  sb_plan :: string
  sb_status :: string
  sb_created :: int
  sb_updated :: int

record wallet =
  w_id :: string
  w_account :: string
  w_user :: string
  w_app :: string
  w_balance :: int
  w_status :: string
  w_created :: int
  w_updated :: int

record ledger_row =
  l_id :: string
  l_wallet :: string
  l_account :: string
  l_user :: string
  l_app :: string
  l_entry :: string
  l_source_type :: string
  l_source :: "string option"
  l_amount :: int
  l_after :: int
  l_key :: string
  l_meta :: "dict option"
  l_created :: int

record cost_event =
  c_id :: string
  c_wallet :: "string option"
  c_account :: string
  c_user :: "string option"
  c_app :: string
  c_type :: string
  c_owner :: string
  c_billable :: int
  c_model :: "string option"
  c_input :: int
  c_output :: int
  c_tokens :: int
  c_multiplier :: int
  c_micros :: int
  c_ledger :: "string option"
  c_source_type :: "string option"
  c_source :: "string option"
  c_key :: string
  c_meta :: "dict option"
  c_created :: int

record wallet_db = identity_db +
  subscriptions :: "subscription list"
  wallets :: "wallet list"
  ledger :: "ledger_row list"
  costs :: "cost_event list"

section \<open>Rows as the callers see them\<close>

record wallet_view =
  wv_row :: wallet
  wv_shells :: string

record ledger_view =
  lv_row :: ledger_row
  lv_amount_shells :: string
  lv_after_shells :: string
  lv_metadata :: dict
  lv_decode_error :: bool

record cost_view =
  cv_row :: cost_event
  cv_billable :: bool
  cv_shells :: string
  cv_metadata :: dict
  cv_decode_error :: bool

definition decode_wallet_row :: "wallet \<Rightarrow> wallet_view" where
  "decode_wallet_row w = \<lparr>wv_row = w, wv_shells = format_shell_amount (w_balance w)\<rparr>"

definition decode_ledger_row :: "ledger_row \<Rightarrow> ledger_view" where
  "decode_ledger_row l = \<lparr>lv_row = l, lv_amount_shells = format_shell_amount (l_amount l),
     lv_after_shells = format_shell_amount (l_after l), lv_metadata = load_json (l_meta l),
     lv_decode_error = (l_meta l = None)\<rparr>"

definition decode_cost_event_row :: "cost_event \<Rightarrow> cost_view" where
  "decode_cost_event_row c = \<lparr>cv_row = c, cv_billable = (c_billable c \<noteq> 0),
     cv_shells = format_shell_amount (c_micros c), cv_metadata = load_json (c_meta c),
     cv_decode_error = (c_meta c = None)\<rparr>"

section \<open>SQL statements on the tables\<close>

definition active_wallet :: "string \<Rightarrow> string \<Rightarrow> 'a wallet_db_scheme \<Rightarrow> wallet option" where
  "active_wallet u app db =
     find_row (\<lambda>w. w_user w = u \<and> w_app w = app \<and> w_status w = ''active'') (wallets db)"

text \<open>
  \<open>INSERT ... ON CONFLICT(platform_user_id, app_id) WHERE status = 'active' DO NOTHING\<close>: a
  conflict on the arbiter index drops the row, a conflict on the primary key or on the
  \<open>UNIQUE(account_id)\<close> of the baseline table raises.
\<close>

definition insert_wallet :: "wallet \<Rightarrow> 'a wallet_db_scheme \<Rightarrow> 'a wallet_db_scheme res" where
  "insert_wallet w db =
     (if active_wallet (w_user w) (w_app w) db \<noteq> None then Inr db
      else if w_id w \<in> w_id ` set (wallets db) then Inl (IntegrityError ''entitlement_wallets_pkey'')
      else if w_account w \<in> w_account ` set (wallets db)
      then Inl (IntegrityError ''entitlement_wallets_account_id_key'')
      else Inr (db\<lparr>wallets := wallets db @ [w]\<rparr>))"

text \<open>\<open>UPDATE ... SET balance_shell_micros = balance_shell_micros + amt\<close> on the rows of \<open>p\<close>.\<close>

definition add_balance ::
  "(wallet \<Rightarrow> bool) \<Rightarrow> int \<Rightarrow> int \<Rightarrow> 'a wallet_db_scheme \<Rightarrow> 'a wallet_db_scheme res" where
  "add_balance p amt now db =
     (if list_all (\<lambda>w. \<not> p w \<or> (- (2 ^ 63) \<le> w_balance w + amt \<and> w_balance w + amt < 2 ^ 63)) (wallets db)
      then Inr (db\<lparr>wallets := update_where p
             (\<lambda>w. w\<lparr>w_balance := w_balance w + amt, w_updated := now\<rparr>) (wallets db)\<rparr>)
      else Inl (DataError ''bigint out of range''))"

definition find_ledger :: "string \<Rightarrow> string \<Rightarrow> 'a wallet_db_scheme \<Rightarrow> ledger_row option" where
  "find_ledger app key db = find_row (\<lambda>l. l_app l = app \<and> l_key l = key) (ledger db)"

definition insert_ledger :: "ledger_row \<Rightarrow> 'a wallet_db_scheme \<Rightarrow> 'a wallet_db_scheme res" where
  "insert_ledger l db = and_then (bigint (l_amount l)) (\<lambda>_. and_then (bigint (l_after l)) (\<lambda>_.
     if l_id l \<in> l_id ` set (ledger db) then Inl (IntegrityError ''entitlement_ledger_pkey'')
     else if (l_app l, l_key l) \<in> (\<lambda>x. (l_app x, l_key x)) ` set (ledger db)
     then Inl (IntegrityError ''ux_entitlement_ledger_app_idempotency'')
     else Inr (db\<lparr>ledger := ledger db @ [l]\<rparr>)))"

definition bigints :: "int list \<Rightarrow> unit res" where
  "bigints xs = (if list_all (\<lambda>x. - (2 ^ 63) \<le> x \<and> x < 2 ^ 63) xs then Inr ()
                 else Inl (DataError ''bigint out of range''))"

definition find_cost :: "string \<Rightarrow> string \<Rightarrow> 'a wallet_db_scheme \<Rightarrow> cost_event option" where
  "find_cost app key db = find_row (\<lambda>c. c_app c = app \<and> c_key c = key) (costs db)"

definition insert_cost :: "cost_event \<Rightarrow> 'a wallet_db_scheme \<Rightarrow> 'a wallet_db_scheme res" where
  "insert_cost c db = and_then (bigints [c_input c, c_output c, c_tokens c, c_multiplier c, c_micros c])
     (\<lambda>_. if c_id c \<in> c_id ` set (costs db) then Inl (IntegrityError ''cost_events_pkey'')
     else if (c_app c, c_key c) \<in> (\<lambda>x. (c_app x, c_key x)) ` set (costs db)
     then Inl (IntegrityError ''ux_cost_events_app_idempotency'')
     else Inr (db\<lparr>costs := costs db @ [c]\<rparr>))"

section \<open>Operations\<close>

definition ensure_wallet ::
  "registry \<Rightarrow> int \<Rightarrow> string \<Rightarrow> string \<Rightarrow> string \<Rightarrow> 'a wallet_db_scheme \<Rightarrow>
     (wallet \<times> 'a wallet_db_scheme) res" where
  "ensure_wallet reg now wid acc u db = and_then (require_billing_scope reg db acc (Some u)) (\<lambda>sc.
     let app = sc_app sc;
         w = \<lparr>w_id = wid, w_account = acc, w_user = u, w_app = app, w_balance = 0,
              w_status = ''active'', w_created = now, w_updated = now\<rparr>
     in and_then (insert_wallet w db) (\<lambda>db1.
       case active_wallet u app db1 of
         None \<Rightarrow> Inl (RuntimeError ''entitlement_wallet was not created'')
       | Some row \<Rightarrow> Inr (row, db1)))"

text \<open>The keyword arguments of \<open>_apply_wallet_ledger_in_conn\<close>.\<close>

record posting =
  po_account :: string
  po_user :: string
  po_amount :: int
  po_entry :: string
  po_source_type :: string
  po_source :: "string option"
  po_key :: string
  po_meta :: dict

definition apply_wallet_ledger ::
  "registry \<Rightarrow> int \<Rightarrow> string \<Rightarrow> string \<Rightarrow> posting \<Rightarrow> 'a wallet_db_scheme \<Rightarrow>
     (ledger_row \<times> 'a wallet_db_scheme) res" where
  "apply_wallet_ledger reg now wid lid po db =
     (if po_amount po = 0 then Inl (ValueError ''amount_shell_micros must not be zero'')
      else if clean_text (Some (po_entry po)) \<noteq> Some ''credit'' \<and>
              clean_text (Some (po_entry po)) \<noteq> Some ''debit''
      then Inl (ValueError ''entry_type must be credit or debit'')
      else if clean_text (Some (po_source_type po)) = None
      then Inl (ValueError ''source_type is required'')
      else if clean_text (Some (po_key po)) = None
      then Inl (ValueError ''idempotency_key is required'')
      else and_then (require_billing_scope reg db (po_account po) (Some (po_user po))) (\<lambda>sc.
        let app = sc_app sc; key = the (clean_text (Some (po_key po)))
        in (case find_ledger app key db of
          Some existing \<Rightarrow>
            if l_user existing \<noteq> po_user po \<or> l_app existing \<noteq> app
            then Inl (ValueError ''billing idempotency scope mismatch'') else Inr (existing, db)
        | None \<Rightarrow> and_then (ensure_wallet reg now wid (po_account po) (po_user po) db) (\<lambda>(w, db1).
            if w_app w \<noteq> app then Inl (ValueError ''billing wallet app mismatch'')
            else and_then (add_balance (\<lambda>x. w_id x = w_id w \<and> w_app x = app) (po_amount po) now db1) (\<lambda>db2.
              case find_row (\<lambda>x. w_id x = w_id w \<and> w_app x = app) (wallets db2) of
                None \<Rightarrow> Inl (RuntimeError ''balance row is None'')
              | Some bw \<Rightarrow> and_then (insert_ledger
                  \<lparr>l_id = lid, l_wallet = w_id w, l_account = po_account po, l_user = po_user po,
                   l_app = app, l_entry = the (clean_text (Some (po_entry po))),
                   l_source_type = the (clean_text (Some (po_source_type po))),
                   l_source = clean_text (po_source po), l_amount = po_amount po,
                   l_after = w_balance bw, l_key = key, l_meta = Some (po_meta po), l_created = now\<rparr> db2)
                  (\<lambda>db3. case find_row (\<lambda>l. l_id l = lid \<and> l_app l = app) (ledger db3) of
                     None \<Rightarrow> Inl (RuntimeError ''entitlement_ledger was not created'')
                   | Some row \<Rightarrow> Inr (row, db3)))))))"

definition grant_shells ::
  "registry \<Rightarrow> int \<Rightarrow> string \<Rightarrow> string \<Rightarrow> posting \<Rightarrow> 'a wallet_db_scheme \<Rightarrow>
     (ledger_view \<times> 'a wallet_db_scheme) res" where
  "grant_shells reg now wid lid po db =
     (if po_amount po \<le> 0 then Inl (ValueError ''amount_shell_micros must be positive'')
      else and_then (apply_wallet_ledger reg now wid lid (po\<lparr>po_entry := ''credit''\<rparr>) db)
        (\<lambda>(row, db'). Inr (decode_ledger_row row, db')))"

definition release_key :: "string \<Rightarrow> string" where
  "release_key key = ''release-'' @ key"

definition reserve_fixed_shells ::
  "registry \<Rightarrow> int \<Rightarrow> string \<Rightarrow> string \<Rightarrow> string \<Rightarrow> string \<Rightarrow> int \<Rightarrow> string \<Rightarrow> string option \<Rightarrow> dict \<Rightarrow>
     'a wallet_db_scheme \<Rightarrow> (ledger_view \<times> 'a wallet_db_scheme) res" where
  "reserve_fixed_shells reg now wid lid acc u amount idempotency_key source_id metadata db =
     (if amount \<le> 0 then Inl (ValueError ''amount_shell_micros must be positive'')
      else case clean_text (Some idempotency_key) of
        None \<Rightarrow> Inl (ValueError ''idempotency_key is required'')
      | Some key \<Rightarrow> and_then (require_billing_scope reg db acc (Some u)) (\<lambda>sc.
          let app = sc_app sc
          in (case find_ledger app key db of
            Some existing \<Rightarrow>
              if l_account existing \<noteq> acc \<or> l_user existing \<noteq> u
              then Inl (ValueError ''billing idempotency owner mismatch'')
              else if l_amount existing \<noteq> - amount
              then Inl (ValueError ''billing idempotency amount mismatch'')
              else if find_ledger app (release_key key) db \<noteq> None
              then Inl FixedShellReservationReleased
              else Inr (decode_ledger_row existing, db)
          | None \<Rightarrow> and_then (ensure_wallet reg now wid acc u db) (\<lambda>(w, db1).
              let p = (\<lambda>x. w_id x = w_id w \<and> w_app x = app \<and> w_status x = ''active'' \<and>
                           amount \<le> w_balance x)
              in and_then (add_balance p (- amount) now db1) (\<lambda>db2.
                if count_where p (wallets db1) \<noteq> 1 then Inl InsufficientWalletBalance
                else (case find_row (\<lambda>x. w_id x = w_id w \<and> w_app x = app) (wallets db2) of
                  None \<Rightarrow> Inl (RuntimeError ''balance is None'')
                | Some bw \<Rightarrow> and_then (insert_ledger
                    \<lparr>l_id = lid, l_wallet = w_id w, l_account = acc, l_user = u, l_app = app,
                     l_entry = ''debit'', l_source_type = ''fixed_reservation'',
                     l_source = clean_text source_id, l_amount = - amount, l_after = w_balance bw,
                     l_key = key, l_meta = Some metadata, l_created = now\<rparr> db2)
                    (\<lambda>db3. case find_row (\<lambda>l. l_id l = lid \<and> l_app l = app) (ledger db3) of
                       None \<Rightarrow> Inl (RuntimeError ''row is None'')
                     | Some row \<Rightarrow> Inr (decode_ledger_row row, db3))))))))"

definition release_fixed_shell_reservation ::
  "registry \<Rightarrow> int \<Rightarrow> string \<Rightarrow> string \<Rightarrow> string \<Rightarrow> string \<Rightarrow> string \<Rightarrow> 'a wallet_db_scheme \<Rightarrow>
     (ledger_view \<times> 'a wallet_db_scheme) res" where
  "release_fixed_shell_reservation reg now wid lid acc u reservation_key db =
     and_then (require_billing_scope reg db acc (Some u)) (\<lambda>sc.
       case clean_text (Some reservation_key) of
         None \<Rightarrow> Inl (ValueError ''reservation not found'')
       | Some key \<Rightarrow>
         (case find_row (\<lambda>l. l_app l = sc_app sc \<and> l_key l = key \<and> l_source_type l = ''fixed_reservation'' \<and>
                             l_account l = acc \<and> l_user l = u) (ledger db) of
            None \<Rightarrow> Inl (ValueError ''reservation not found'')
          | Some reservation \<Rightarrow> and_then (apply_wallet_ledger reg now wid lid
              \<lparr>po_account = acc, po_user = u, po_amount = - l_amount reservation,
               po_entry = ''credit'', po_source_type = ''fixed_reservation_release'',
               po_source = Some (l_id reservation), po_key = release_key key,
               po_meta = [(''reservation_ledger_id'', JStr (l_id reservation))]\<rparr> db)
              (\<lambda>(row, db'). Inr (decode_ledger_row row, db'))))"

text \<open>
  The new-user grant: the historical person-level key for \<open>zhaoxi\<close>, a key with the product
  for every other product. The scope is read in one transaction, the grant is another.
\<close>

definition new_user_grant_key :: "string \<Rightarrow> string \<Rightarrow> string" where
  "new_user_grant_key app u =
     (if app = ZHAOXI_APP_ID then ''new-user-grant-'' @ u
      else ''new-user-grant-'' @ app @ ''-'' @ u)"

definition grant_new_user_shells ::
  "registry \<Rightarrow> int \<Rightarrow> string \<Rightarrow> string \<Rightarrow> string \<Rightarrow> string \<Rightarrow> 'a wallet_db_scheme \<Rightarrow>
     (ledger_view \<times> 'a wallet_db_scheme) res" where
  "grant_new_user_shells reg now wid lid acc u db =
     and_then (require_billing_scope reg db acc (Some u)) (\<lambda>sc.
       grant_shells reg now wid lid
         \<lparr>po_account = acc, po_user = u, po_amount = NEW_USER_GRANT_SHELL_MICROS, po_entry = ''credit'',
          po_source_type = ''new_user_grant'', po_source = Some acc,
          po_key = new_user_grant_key (sc_app sc) u,
          po_meta = [(''grant_shells'', JInt NEW_USER_GRANT_SHELLS), (''app_id'', JStr (sc_app sc))]\<rparr> db)"

section \<open>Charges\<close>

record charge_result =
  cr_event :: cost_view
  cr_ledger :: "ledger_view option"
  cr_wallet :: "wallet_view option"

text \<open>
  What the two charge functions differ in; the body after the price is the same text in both
  (\<open>record_charge\<close>).
\<close>

record charge =
  ch_type :: string
  ch_entry_source :: string
  ch_source_type :: "string option"
  ch_source :: "string option"
  ch_model :: "string option"
  ch_input :: int
  ch_output :: int
  ch_tokens :: int
  ch_multiplier :: int
  ch_micros :: int
  ch_meta :: dict

definition charge_replay ::
  "string \<Rightarrow> scope \<Rightarrow> cost_event \<Rightarrow> 'a wallet_db_scheme \<Rightarrow> charge_result option res" where
  "charge_replay acc sc existing db =
     (if c_account existing \<noteq> acc \<or> c_user existing \<noteq> Some (sc_user sc) \<or> c_app existing \<noteq> sc_app sc
      then Inl (ValueError ''billing idempotency scope mismatch'')
      else Inr (Some \<lparr>cr_event = decode_cost_event_row existing,
        cr_ledger = (case c_ledger existing of None \<Rightarrow> None
          | Some lid \<Rightarrow> if lid = [] then None
              else map_option decode_ledger_row
                     (find_row (\<lambda>l. l_id l = lid \<and> l_app l = sc_app sc) (ledger db))),
        cr_wallet = map_option decode_wallet_row (active_wallet (sc_user sc) (sc_app sc) db)\<rparr>))"

definition record_charge ::
  "registry \<Rightarrow> int \<Rightarrow> string \<Rightarrow> string \<Rightarrow> string \<Rightarrow> string \<Rightarrow> string \<Rightarrow> charge \<Rightarrow> 'a wallet_db_scheme \<Rightarrow>
     (charge_result option \<times> 'a wallet_db_scheme) res" where
  "record_charge reg now wid lid cid acc key ch db =
     and_then (resolve_billing_scope reg db acc None True) (\<lambda>s. case s of
       None \<Rightarrow> Inr (None, db)
     | Some sc \<Rightarrow> let u = sc_user sc; app = sc_app sc in
        (case find_cost app key db of
          Some existing \<Rightarrow> and_then (charge_replay acc sc existing db) (\<lambda>r. Inr (r, db))
        | None \<Rightarrow> and_then (ensure_wallet reg now wid acc u db) (\<lambda>(w, db1).
            and_then (apply_wallet_ledger reg now wid lid
              \<lparr>po_account = acc, po_user = u, po_amount = - ch_micros ch, po_entry = ''debit'',
               po_source_type = ch_entry_source ch, po_source = ch_source ch,
               po_key = ''usage-charge-'' @ key, po_meta = ch_meta ch\<rparr> db1) (\<lambda>(lrow, db2).
              and_then (insert_cost
                \<lparr>c_id = cid, c_wallet = Some (w_id w), c_account = acc, c_user = Some u, c_app = app,
                 c_type = ch_type ch, c_owner = ''user'', c_billable = 1,
                 c_model = clean_text (ch_model ch), c_input = ch_input ch, c_output = ch_output ch,
                 c_tokens = ch_tokens ch, c_multiplier = ch_multiplier ch, c_micros = ch_micros ch,
                 c_ledger = Some (l_id lrow), c_source_type = clean_text (ch_source_type ch),
                 c_source = clean_text (ch_source ch), c_key = key, c_meta = Some (ch_meta ch),
                 c_created = now\<rparr> db2) (\<lambda>db3.
                case (find_row (\<lambda>c. c_id c = cid \<and> c_app c = app) (costs db3),
                      find_row (\<lambda>x. w_id x = w_id w \<and> w_app x = app) (wallets db3)) of
                  (Some ev, Some wr) \<Rightarrow>
                    Inr (Some \<lparr>cr_event = decode_cost_event_row ev,
                      cr_ledger = Some (decode_ledger_row lrow),
                      cr_wallet = Some (decode_wallet_row wr)\<rparr>, db3)
                | _ \<Rightarrow> Inl (RuntimeError ''cost_event was not created''))))))"

definition opt_str :: "string option \<Rightarrow> json" where
  "opt_str v = (case v of None \<Rightarrow> JNull | Some s \<Rightarrow> JStr s)"

definition record_chat_usage_charge ::
  "registry \<Rightarrow> int \<Rightarrow> string \<Rightarrow> string \<Rightarrow> string \<Rightarrow> string \<Rightarrow> string \<Rightarrow> msg_content list \<Rightarrow>
     ustr option \<Rightarrow> string \<Rightarrow> string option \<Rightarrow> string \<Rightarrow> int option \<Rightarrow> int option \<Rightarrow> int \<Rightarrow> dict \<Rightarrow>
     'a wallet_db_scheme \<Rightarrow> (charge_result option \<times> 'a wallet_db_scheme) res" where
  "record_chat_usage_charge reg now wid lid cid acc model messages reply source_type source_id
     idempotency_key input_tokens output_tokens multiplier metadata db =
     (case clean_text (Some idempotency_key) of
        None \<Rightarrow> Inl (ValueError ''idempotency_key is required'')
      | Some key \<Rightarrow>
        let estimated = (input_tokens = None \<or> output_tokens = None);
            inp = (case input_tokens of Some n \<Rightarrow> n | None \<Rightarrow> estimate_tokens_from_messages messages);
            out = (case output_tokens of Some n \<Rightarrow> n | None \<Rightarrow> estimate_tokens_from_text reply);
            billable = max 0 inp + max 0 out
        in and_then (shell_micros_for_tokens billable multiplier) (\<lambda>micros.
          if micros \<le> 0 then Inr (None, db)
          else record_charge reg now wid lid cid acc key
            \<lparr>ch_type = ''llm_tokens'', ch_entry_source = ''usage_charge'',
             ch_source_type = Some source_type, ch_source = source_id, ch_model = Some model,
             ch_input = inp, ch_output = out, ch_tokens = billable, ch_multiplier = multiplier,
             ch_micros = micros,
             ch_meta = dict_update [(''estimated'', JBool estimated), (''input_tokens'', JInt inp),
               (''output_tokens'', JInt out), (''billable_tokens'', JInt billable),
               (''model'', JStr model)] metadata\<rparr> db))"

text \<open>\<open>default_cost\<close> is the setting \<open>image_understanding_cost_shell_micros\<close>.\<close>

definition record_image_understanding_charge ::
  "registry \<Rightarrow> int \<Rightarrow> string \<Rightarrow> string \<Rightarrow> string \<Rightarrow> int \<Rightarrow> string \<Rightarrow> string option \<Rightarrow> string \<Rightarrow>
     string option \<Rightarrow> int option \<Rightarrow> dict \<Rightarrow>
     'a wallet_db_scheme \<Rightarrow> (charge_result option \<times> 'a wallet_db_scheme) res" where
  "record_image_understanding_charge reg now wid lid cid default_cost acc source_id idempotency_key model
     cost_shell_micros metadata db =
     (case clean_text (Some idempotency_key) of
        None \<Rightarrow> Inl (ValueError ''idempotency_key is required'')
      | Some key \<Rightarrow>
        let micros = (case cost_shell_micros of Some n \<Rightarrow> n | None \<Rightarrow> default_cost)
        in if micros \<le> 0 then Inr (None, db)
           else record_charge reg now wid lid cid acc key
             \<lparr>ch_type = ''image_understanding'', ch_entry_source = ''image_understanding_charge'',
              ch_source_type = Some ''image_understanding_charge'', ch_source = source_id,
              ch_model = model, ch_input = 0, ch_output = 0, ch_tokens = 0, ch_multiplier = 1000000,
              ch_micros = micros,
              ch_meta = dict_update [(''cost_type'', JStr ''image_understanding''),
                (''model'', opt_str model)] metadata\<rparr> db)"

section \<open>Reads\<close>

record wallet_summary =
  ws_wallet :: wallet_view
  ws_latest :: "ledger_view option"
  ws_display :: string

definition get_wallet_summary ::
  "registry \<Rightarrow> int \<Rightarrow> string \<Rightarrow> string \<Rightarrow> string \<Rightarrow> bool \<Rightarrow> bool \<Rightarrow> 'a wallet_db_scheme \<Rightarrow>
     (wallet_summary option \<times> 'a wallet_db_scheme) res" where
  "get_wallet_summary reg now wid lid acc ensure_grant create_if_missing db =
     and_then (resolve_billing_scope reg db acc None True) (\<lambda>s. case s of
       None \<Rightarrow> Inr (None, db)
     | Some sc \<Rightarrow>
         and_then (if ensure_grant
             then map_sum id snd (grant_new_user_shells reg now wid lid acc (sc_user sc) db)
             else if create_if_missing then map_sum id snd (ensure_wallet reg now wid acc (sc_user sc) db)
             else Inr db) (\<lambda>db1.
           case active_wallet (sc_user sc) (sc_app sc) db1 of
             None \<Rightarrow> Inr (None, db1)
           | Some w \<Rightarrow>
               let rows = filter (\<lambda>l. l_wallet l = w_id w \<and> l_app l = sc_app sc) (ledger db1)
               in Inr (Some \<lparr>ws_wallet = decode_wallet_row w,
                    ws_latest = (case order_desc (\<lambda>l. (l_created l, l_id l)) rows of
                                   [] \<Rightarrow> None | l # _ \<Rightarrow> Some (decode_ledger_row l)),
                    ws_display = wv_shells (decode_wallet_row w)\<rparr>, db1)))"

definition get_wallet_balance_shell_micros ::
  "registry \<Rightarrow> string \<Rightarrow> 'a wallet_db_scheme \<Rightarrow> int option res" where
  "get_wallet_balance_shell_micros reg acc db =
     and_then (get_wallet_summary reg 0 [] [] acc False False db)
       (\<lambda>(summary, _). Inr (map_option (\<lambda>s. w_balance (wv_row (ws_wallet s))) summary))"

definition list_wallet_ledger ::
  "registry \<Rightarrow> string \<Rightarrow> int \<Rightarrow> 'a wallet_db_scheme \<Rightarrow> ledger_view list res" where
  "list_wallet_ledger reg acc limit db =
     and_then (resolve_billing_scope reg db acc None True) (\<lambda>s. case s of
       None \<Rightarrow> Inr []
     | Some sc \<Rightarrow> Inr (map decode_ledger_row (sql_limit (max 1 (min limit 200))
         (order_desc (\<lambda>l. (l_created l, l_id l))
            (filter (\<lambda>l. l_user l = sc_user sc \<and> l_app l = sc_app sc) (ledger db))))))"

end
