(* ===== verification/Wallet_Laws.thy ===== *)
theory Wallet_Laws
imports Wallet
begin

text \<open>
  The effect of every wallet operation: what \<open>ensure_wallet\<close>, a posting and a reservation do to
  the tables when they succeed, as equations between the two states. The invariants and the
  contract theorems use these lemmas and never unfold an operation again.
\<close>

definition wallet_keys_ok :: "'a wallet_db_scheme \<Rightarrow> bool" where
  "wallet_keys_ok db =
     (unique_on (\<lambda>_. True) w_id (wallets db) \<and> unique_on (\<lambda>_. True) w_account (wallets db) \<and>
      unique_on (\<lambda>w. w_status w = ''active'') (\<lambda>w. (w_user w, w_app w)) (wallets db) \<and>
      unique_on (\<lambda>_. True) l_id (ledger db) \<and>
      unique_on (\<lambda>_. True) (\<lambda>l. (l_app l, l_key l)) (ledger db) \<and>
      unique_on (\<lambda>_. True) c_id (costs db) \<and>
      unique_on (\<lambda>_. True) (\<lambda>c. (c_app c, c_key c)) (costs db))"

text \<open>The state after a posting \<open>l\<close>: its wallet's balance moved by its amount, the row appended.\<close>

definition posted :: "ledger_row \<Rightarrow> 'a wallet_db_scheme \<Rightarrow> 'a wallet_db_scheme" where
  "posted l db = db\<lparr>
     wallets := update_where (\<lambda>x. w_id x = l_wallet l \<and> w_app x = l_app l)
        (\<lambda>w. w\<lparr>w_balance := w_balance w + l_amount l, w_updated := l_created l\<rparr>) (wallets db),
     ledger := ledger db @ [l]\<rparr>"

text \<open>What holds of a row and its wallet when a posting goes through.\<close>

definition postable :: "ledger_row \<Rightarrow> wallet \<Rightarrow> 'a wallet_db_scheme \<Rightarrow> bool" where
  "postable l w db =
     (w \<in> set (wallets db) \<and> w_id w = l_wallet l \<and> w_app w = l_app l \<and> w_user w = l_user l \<and>
      w_status w = ''active'' \<and> l_after l = w_balance w + l_amount l \<and>
      - (2 ^ 63) \<le> l_amount l \<and> l_amount l < 2 ^ 63 \<and>
      - (2 ^ 63) \<le> l_after l \<and> l_after l < 2 ^ 63 \<and>
      l_id l \<notin> l_id ` set (ledger db) \<and> (l_app l, l_key l) \<notin> (\<lambda>x. (l_app x, l_key x)) ` set (ledger db))"

section \<open>Statements\<close>

lemma active_wallet_Some:
  "active_wallet u app db = Some w \<Longrightarrow>
     w \<in> set (wallets db) \<and> w_user w = u \<and> w_app w = app \<and> w_status w = ''active''"
  unfolding active_wallet_def by (drule find_row_Some) simp

lemma insert_ledger_Inr [tx_simps]:
  "insert_ledger l db = Inr db' \<longleftrightarrow>
     - (2 ^ 63) \<le> l_amount l \<and> l_amount l < 2 ^ 63 \<and> - (2 ^ 63) \<le> l_after l \<and> l_after l < 2 ^ 63 \<and>
     l_id l \<notin> l_id ` set (ledger db) \<and>
     (l_app l, l_key l) \<notin> (\<lambda>x. (l_app x, l_key x)) ` set (ledger db) \<and>
     db' = db\<lparr>ledger := ledger db @ [l]\<rparr>"
  by (auto simp: insert_ledger_def tx_simps)

lemma insert_cost_Inr:
  "insert_cost c db = Inr db' \<Longrightarrow>
     c_id c \<notin> c_id ` set (costs db) \<and>
     (c_app c, c_key c) \<notin> (\<lambda>x. (c_app x, c_key x)) ` set (costs db) \<and>
     db' = db\<lparr>costs := costs db @ [c]\<rparr>"
  unfolding insert_cost_def and_then_Inr by (auto split: if_splits)

lemma add_balance_Inr [tx_simps]:
  "add_balance p amt now db = Inr db' \<longleftrightarrow>
     (\<forall>w \<in> set (wallets db). p w \<longrightarrow> - (2 ^ 63) \<le> w_balance w + amt \<and> w_balance w + amt < 2 ^ 63) \<and>
     db' = db\<lparr>wallets := update_where p
             (\<lambda>w. w\<lparr>w_balance := w_balance w + amt, w_updated := now\<rparr>) (wallets db)\<rparr>"
  unfolding add_balance_def list_all_iff by auto

lemma find_ledger_None:
  "find_ledger app key db = None \<longleftrightarrow> (app, key) \<notin> (\<lambda>x. (l_app x, l_key x)) ` set (ledger db)"
  by (auto simp: find_ledger_def find_row_None)

lemma find_ledger_Some:
  "find_ledger app key db = Some l \<Longrightarrow> l \<in> set (ledger db) \<and> l_app l = app \<and> l_key l = key"
  unfolding find_ledger_def by (drule find_row_Some) simp

lemma find_ledger_posted:
  "find_ledger app key (posted l db) =
     (case find_ledger app key db of Some r \<Rightarrow> Some r
      | None \<Rightarrow> if l_app l = app \<and> l_key l = key then Some l else None)"
  by (simp add: find_ledger_def posted_def find_row_append split: option.split)

section \<open>Effects\<close>

lemma ensure_wallet_effect:
  assumes "ensure_wallet reg now wid acc u db = Inr (w, db')"
  obtains sc where "require_billing_scope reg db acc (Some u) = Inr sc"
    and "active_wallet u (sc_app sc) db' = Some w"
    and "db' = db \<and> active_wallet u (sc_app sc) db = Some w \<or>
         active_wallet u (sc_app sc) db = None \<and> wid \<notin> w_id ` set (wallets db) \<and>
         acc \<notin> w_account ` set (wallets db) \<and>
         w = \<lparr>w_id = wid, w_account = acc, w_user = u, w_app = sc_app sc, w_balance = 0,
              w_status = ''active'', w_created = now, w_updated = now\<rparr> \<and>
         db' = db\<lparr>wallets := wallets db @ [w]\<rparr>"
proof -
  from assms obtain sc db1 where sc: "require_billing_scope reg db acc (Some u) = Inr sc"
    and ins: "insert_wallet \<lparr>w_id = wid, w_account = acc, w_user = u, w_app = sc_app sc, w_balance = 0,
              w_status = ''active'', w_created = now, w_updated = now\<rparr> db = Inr db1"
    and act: "active_wallet u (sc_app sc) db1 = Some w" and db': "db' = db1"
    unfolding ensure_wallet_def and_then_Inr Let_def by (auto split: option.splits)
  have "db1 = db \<or> active_wallet u (sc_app sc) db = None \<and> wid \<notin> w_id ` set (wallets db) \<and>
         acc \<notin> w_account ` set (wallets db) \<and>
         db1 = db\<lparr>wallets := wallets db @ [\<lparr>w_id = wid, w_account = acc, w_user = u, w_app = sc_app sc,
              w_balance = 0, w_status = ''active'', w_created = now, w_updated = now\<rparr>]\<rparr>"
    using ins unfolding insert_wallet_def by (simp split: if_splits)
  then show thesis
  proof
    assume "db1 = db"
    with act show thesis by (intro that [OF sc]) (simp_all add: db')
  next
    assume *: "active_wallet u (sc_app sc) db = None \<and> wid \<notin> w_id ` set (wallets db) \<and>
         acc \<notin> w_account ` set (wallets db) \<and>
         db1 = db\<lparr>wallets := wallets db @ [\<lparr>w_id = wid, w_account = acc, w_user = u, w_app = sc_app sc,
              w_balance = 0, w_status = ''active'', w_created = now, w_updated = now\<rparr>]\<rparr>"
    then have "w = \<lparr>w_id = wid, w_account = acc, w_user = u, w_app = sc_app sc, w_balance = 0,
              w_status = ''active'', w_created = now, w_updated = now\<rparr>"
      using act by (simp add: active_wallet_def find_row_append)
    with * act show thesis by (intro that [OF sc]) (simp_all add: db')
  qed
qed

lemma ensure_wallet_frame:
  assumes "ensure_wallet reg now wid acc u db = Inr (w, db')"
  shows "same_identity db db'" "ledger db' = ledger db" "costs db' = costs db"
    "subscriptions db' = subscriptions db" "wallet_db.more db' = wallet_db.more db"
proof -
  obtain ws where "db' = db\<lparr>wallets := ws\<rparr>"
    using ensure_wallet_effect [OF assms] by (metis wallet_db.surjective wallet_db.update_convs(2))
  then show "same_identity db db'" "ledger db' = ledger db" "costs db' = costs db"
    "subscriptions db' = subscriptions db" "wallet_db.more db' = wallet_db.more db"
    by (simp_all add: same_identity_def)
qed

text \<open>The keys stay unique when \<open>ensure_wallet\<close> adds a row, and when a posting does.\<close>

lemma ensure_wallet_keys:
  assumes k: "wallet_keys_ok db" and e: "ensure_wallet reg now wid acc u db = Inr (w, db')"
  shows "wallet_keys_ok db'"
  using e
proof (rule ensure_wallet_effect)
  fix sc
  assume "db' = db \<and> active_wallet u (sc_app sc) db = Some w \<or>
         active_wallet u (sc_app sc) db = None \<and> wid \<notin> w_id ` set (wallets db) \<and>
         acc \<notin> w_account ` set (wallets db) \<and>
         w = \<lparr>w_id = wid, w_account = acc, w_user = u, w_app = sc_app sc, w_balance = 0,
              w_status = ''active'', w_created = now, w_updated = now\<rparr> \<and>
         db' = db\<lparr>wallets := wallets db @ [w]\<rparr>"
  then show "wallet_keys_ok db'"
  proof
    assume "db' = db \<and> active_wallet u (sc_app sc) db = Some w"
    with k show ?thesis by simp
  next
    assume "active_wallet u (sc_app sc) db = None \<and> wid \<notin> w_id ` set (wallets db) \<and>
         acc \<notin> w_account ` set (wallets db) \<and>
         w = \<lparr>w_id = wid, w_account = acc, w_user = u, w_app = sc_app sc, w_balance = 0,
              w_status = ''active'', w_created = now, w_updated = now\<rparr> \<and>
         db' = db\<lparr>wallets := wallets db @ [w]\<rparr>"
    with k show ?thesis
      by (auto simp: wallet_keys_ok_def unique_on_snoc active_wallet_def find_row_None image_iff)
  qed
qed

lemma posted_keys:
  assumes "wallet_keys_ok db" and "postable l w db"
  shows "wallet_keys_ok (posted l db)"
  using assms
  by (auto simp: wallet_keys_ok_def postable_def posted_def unique_on_update unique_on_snoc image_iff)

lemma posted_frame [simp]:
  "same_identity db (posted l db)" "costs (posted l db) = costs db"
  "subscriptions (posted l db) = subscriptions db" "ledger (posted l db) = ledger db @ [l]"
  "wallet_db.more (posted l db) = wallet_db.more db"
  by (simp_all add: posted_def same_identity_def)

lemma posted_wallets_ex:
  "w \<in> set (wallets db) \<Longrightarrow>
     \<exists>x \<in> set (wallets (posted l db)). w_id x = w_id w \<and> w_app x = w_app w \<and> w_user x = w_user w"
  unfolding posted_def
  by (rule bexI [of _ "if w_id w = l_wallet l \<and> w_app w = l_app l
          then w\<lparr>w_balance := w_balance w + l_amount l, w_updated := l_created l\<rparr> else w"])
    (simp_all add: set_update_where)

lemma apply_wallet_ledger_effect:
  assumes "apply_wallet_ledger reg now wid lid po db = Inr (l, db')" and keys: "wallet_keys_ok db"
  obtains sc key where "require_billing_scope reg db (po_account po) (Some (po_user po)) = Inr sc"
    and "clean_text (Some (po_key po)) = Some key" and "po_amount po \<noteq> 0"
    and "find_ledger (sc_app sc) key db = Some l" and "l_user l = po_user po" and "db' = db"
  | sc key w db1 where "require_billing_scope reg db (po_account po) (Some (po_user po)) = Inr sc"
    and "clean_text (Some (po_key po)) = Some key" and "po_amount po \<noteq> 0"
    and "find_ledger (sc_app sc) key db = None"
    and "ensure_wallet reg now wid (po_account po) (po_user po) db = Inr (w, db1)"
    and "postable l w db1" and "db' = posted l db1"
    and "l_id l = lid" and "l_account l = po_account po" and "l_user l = po_user po"
    and "l_app l = sc_app sc" and "l_key l = key" and "l_amount l = po_amount po" and "l_created l = now"
    and "clean_text (Some (po_source_type po)) = Some (l_source_type l)"
    and "l_source l = clean_text (po_source po)"
proof -
  from assms(1) have st: "clean_text (Some (po_source_type po)) \<noteq> None"
    by (auto simp: apply_wallet_ledger_def split: if_splits)
  from assms(1) obtain sc key where nz: "po_amount po \<noteq> 0"
    and key: "clean_text (Some (po_key po)) = Some key"
    and sc: "require_billing_scope reg db (po_account po) (Some (po_user po)) = Inr sc"
    by (auto simp: apply_wallet_ledger_def and_then_Inr split: if_splits)
  show thesis
  proof (cases "find_ledger (sc_app sc) key db")
    case (Some e)
    with assms(1) sc key nz have "e = l" "db' = db" "l_user l = po_user po"
      by (auto simp: apply_wallet_ledger_def Let_def split: if_splits)
    with Some show thesis using that(1) [OF sc key nz] by simp
  next
    case None
    with assms(1) sc key nz obtain w db1 db2 bw db3 where
          ens: "ensure_wallet reg now wid (po_account po) (po_user po) db = Inr (w, db1)"
      and app: "w_app w = sc_app sc"
      and add: "add_balance (\<lambda>x. w_id x = w_id w \<and> w_app x = sc_app sc) (po_amount po) now db1 = Inr db2"
      and bw: "find_row (\<lambda>x. w_id x = w_id w \<and> w_app x = sc_app sc) (wallets db2) = Some bw"
      and ins: "insert_ledger
                  \<lparr>l_id = lid, l_wallet = w_id w, l_account = po_account po, l_user = po_user po,
                   l_app = sc_app sc, l_entry = the (clean_text (Some (po_entry po))),
                   l_source_type = the (clean_text (Some (po_source_type po))),
                   l_source = clean_text (po_source po), l_amount = po_amount po,
                   l_after = w_balance bw, l_key = key, l_meta = Some (po_meta po), l_created = now\<rparr> db2
                = Inr db3"
      and row: "find_row (\<lambda>l. l_id l = lid \<and> l_app l = sc_app sc) (ledger db3) = Some l" and db': "db' = db3"
      by (auto simp: apply_wallet_ledger_def Let_def and_then_Inr split: if_splits option.splits)
    note k1 = ensure_wallet_keys [OF keys ens]
    obtain sc' where sc': "require_billing_scope reg db (po_account po) (Some (po_user po)) = Inr sc'"
      and act: "active_wallet (po_user po) (sc_app sc') db1 = Some w"
      by (rule ensure_wallet_effect [OF ens])
    from sc sc' have [simp]: "sc' = sc" by simp
    note w = active_wallet_Some [OF act]
    define f where "f = (\<lambda>x. x\<lparr>w_balance := w_balance x + po_amount po, w_updated := now\<rparr> :: wallet)"
    have db2: "db2 = db1\<lparr>wallets := update_where (\<lambda>x. w_id x = w_id w \<and> w_app x = sc_app sc) f (wallets db1)\<rparr>"
      using add unfolding add_balance_Inr f_def by simp
    have "find_row (\<lambda>x. w_id x = w_id w \<and> w_app x = sc_app sc) (wallets db2) = Some (f w)"
      unfolding db2 using k1 w by (simp, intro find_row_updated [where k = w_id])
        (simp_all add: wallet_keys_ok_def f_def)
    with bw have bwf: "w_balance bw = w_balance w + po_amount po" by (auto simp: f_def)
    define r where "r = \<lparr>l_id = lid, l_wallet = w_id w, l_account = po_account po, l_user = po_user po,
                   l_app = sc_app sc, l_entry = the (clean_text (Some (po_entry po))),
                   l_source_type = the (clean_text (Some (po_source_type po))),
                   l_source = clean_text (po_source po), l_amount = po_amount po,
                   l_after = w_balance bw, l_key = key, l_meta = Some (po_meta po), l_created = now\<rparr>"
    have i: "- (2 ^ 63) \<le> l_amount r" "l_amount r < 2 ^ 63" "- (2 ^ 63) \<le> l_after r" "l_after r < 2 ^ 63"
      "l_id r \<notin> l_id ` set (ledger db2)" "(l_app r, l_key r) \<notin> (\<lambda>x. (l_app x, l_key x)) ` set (ledger db2)"
      "db3 = db2\<lparr>ledger := ledger db2 @ [r]\<rparr>"
      using ins unfolding r_def [symmetric] insert_ledger_Inr by blast+
    have l21: "ledger db2 = ledger db1" by (simp add: db2)
    have "find_row (\<lambda>l. l_id l = lid \<and> l_app l = sc_app sc) (ledger db3) = Some r"
      using i(5) unfolding i(7) by (simp add: find_row_last r_def)
    with row have l: "l = r" by simp
    have db3: "db3 = posted l db1"
      unfolding i(7) l by (simp add: posted_def db2 r_def f_def)
    show thesis
    proof (rule that(2) [OF sc key nz None ens])
      show "postable l w db1"
        using i(1-6) w bwf unfolding postable_def l l21 by (simp add: r_def)
      show "db' = posted l db1" by (simp only: db' db3)
      show "clean_text (Some (po_source_type po)) = Some (l_source_type l)"
        using st by (auto simp: l r_def)
    qed (simp_all add: l r_def)
  qed
qed

text \<open>
  The guarded \<open>UPDATE\<close> of a reservation touches the caller's wallet alone, so its row count is
  one exactly when the balance covers the amount.
\<close>

definition reserve_guard :: "wallet \<Rightarrow> string \<Rightarrow> int \<Rightarrow> wallet \<Rightarrow> bool" where
  "reserve_guard w app amount x =
     (w_id x = w_id w \<and> w_app x = app \<and> w_status x = ''active'' \<and> amount \<le> w_balance x)"

lemma reserve_guard_count:
  assumes "wallet_keys_ok db" and "w \<in> set (wallets db)" and "w_app w = app" and "w_status w = ''active''"
  shows "count_where (reserve_guard w app amount) (wallets db) = (if amount \<le> w_balance w then 1 else 0)"
proof -
  have "count_where (reserve_guard w app amount) (wallets db) =
      (if reserve_guard w app amount w then 1 else 0)"
    using assms by (intro count_where_key [where k = w_id]) (simp_all add: wallet_keys_ok_def reserve_guard_def)
  with assms(3,4) show ?thesis by (simp add: reserve_guard_def)
qed

lemma reserve_unfold:
  "reserve_fixed_shells reg now wid lid acc u amount idempotency_key source_id metadata db =
     (if amount \<le> 0 then Inl (ValueError ''amount_shell_micros must be positive'')
      else case clean_text (Some idempotency_key) of
        None \<Rightarrow> Inl (ValueError ''idempotency_key is required'')
      | Some key \<Rightarrow> and_then (require_billing_scope reg db acc (Some u)) (\<lambda>sc.
          case find_ledger (sc_app sc) key db of
            Some existing \<Rightarrow>
              if l_account existing \<noteq> acc \<or> l_user existing \<noteq> u
              then Inl (ValueError ''billing idempotency owner mismatch'')
              else if l_amount existing \<noteq> - amount
              then Inl (ValueError ''billing idempotency amount mismatch'')
              else if find_ledger (sc_app sc) (release_key key) db \<noteq> None
              then Inl FixedShellReservationReleased
              else Inr (decode_ledger_row existing, db)
          | None \<Rightarrow> and_then (ensure_wallet reg now wid acc u db) (\<lambda>(w, db1).
              and_then (add_balance (reserve_guard w (sc_app sc) amount) (- amount) now db1) (\<lambda>db2.
                if count_where (reserve_guard w (sc_app sc) amount) (wallets db1) \<noteq> 1
                then Inl InsufficientWalletBalance
                else (case find_row (\<lambda>x. w_id x = w_id w \<and> w_app x = sc_app sc) (wallets db2) of
                  None \<Rightarrow> Inl (RuntimeError ''balance is None'')
                | Some bw \<Rightarrow> and_then (insert_ledger
                    \<lparr>l_id = lid, l_wallet = w_id w, l_account = acc, l_user = u, l_app = sc_app sc,
                     l_entry = ''debit'', l_source_type = ''fixed_reservation'',
                     l_source = clean_text source_id, l_amount = - amount, l_after = w_balance bw,
                     l_key = key, l_meta = Some metadata, l_created = now\<rparr> db2)
                    (\<lambda>db3. case find_row (\<lambda>l. l_id l = lid \<and> l_app l = sc_app sc) (ledger db3) of
                       None \<Rightarrow> Inl (RuntimeError ''row is None'')
                     | Some row \<Rightarrow> Inr (decode_ledger_row row, db3)))))))"
  unfolding reserve_fixed_shells_def Let_def reserve_guard_def by (rule refl)

lemma reserve_effect:
  assumes r: "reserve_fixed_shells reg now wid lid acc u amount ikey src meta db = Inr (v, db')"
    and keys: "wallet_keys_ok db"
  obtains sc key l where "require_billing_scope reg db acc (Some u) = Inr sc" and "0 < amount"
    and "clean_text (Some ikey) = Some key" and "find_ledger (sc_app sc) key db = Some l"
    and "l_account l = acc" and "l_user l = u" and "l_amount l = - amount"
    and "find_ledger (sc_app sc) (release_key key) db = None" and "v = decode_ledger_row l" and "db' = db"
  | sc key w db1 l where "require_billing_scope reg db acc (Some u) = Inr sc" and "0 < amount"
    and "clean_text (Some ikey) = Some key" and "find_ledger (sc_app sc) key db = None"
    and "ensure_wallet reg now wid acc u db = Inr (w, db1)" and "amount \<le> w_balance w"
    and "postable l w db1" and "db' = posted l db1" and "v = decode_ledger_row l"
    and "l = \<lparr>l_id = lid, l_wallet = w_id w, l_account = acc, l_user = u, l_app = sc_app sc,
              l_entry = ''debit'', l_source_type = ''fixed_reservation'',
              l_source = clean_text src, l_amount = - amount, l_after = w_balance w - amount,
              l_key = key, l_meta = Some meta, l_created = now\<rparr>"
proof -
  from r obtain key sc where pos: "0 < amount" and key: "clean_text (Some ikey) = Some key"
    and sc: "require_billing_scope reg db acc (Some u) = Inr sc"
    by (auto simp: reserve_unfold and_then_Inr split: if_splits option.splits)
  show thesis
  proof (cases "find_ledger (sc_app sc) key db")
    case (Some e)
    with r pos key sc have "l_account e = acc" "l_user e = u" "l_amount e = - amount"
      "find_ledger (sc_app sc) (release_key key) db = None" "v = decode_ledger_row e" "db' = db"
      by (auto simp: reserve_unfold split: if_splits)
    then show thesis by (rule that(1) [OF sc pos key Some])
  next
    case None
    with r pos key sc obtain w db1 db2 bw db3 row where
          ens: "ensure_wallet reg now wid acc u db = Inr (w, db1)"
      and add: "add_balance (reserve_guard w (sc_app sc) amount) (- amount) now db1 = Inr db2"
      and cnt: "count_where (reserve_guard w (sc_app sc) amount) (wallets db1) = 1"
      and bw: "find_row (\<lambda>x. w_id x = w_id w \<and> w_app x = sc_app sc) (wallets db2) = Some bw"
      and ins: "insert_ledger
                    \<lparr>l_id = lid, l_wallet = w_id w, l_account = acc, l_user = u, l_app = sc_app sc,
                     l_entry = ''debit'', l_source_type = ''fixed_reservation'',
                     l_source = clean_text src, l_amount = - amount, l_after = w_balance bw,
                     l_key = key, l_meta = Some meta, l_created = now\<rparr> db2 = Inr db3"
      and row: "find_row (\<lambda>l. l_id l = lid \<and> l_app l = sc_app sc) (ledger db3) = Some row"
      and v: "v = decode_ledger_row row" and db': "db' = db3"
      by (auto simp: reserve_unfold and_then_Inr split: if_splits option.splits)
    note k1 = ensure_wallet_keys [OF keys ens]
    obtain sc' where sc': "require_billing_scope reg db acc (Some u) = Inr sc'"
      and act: "active_wallet u (sc_app sc') db1 = Some w"
      by (rule ensure_wallet_effect [OF ens])
    from sc sc' have [simp]: "sc' = sc" by simp
    note w = active_wallet_Some [OF act]
    have "count_where (reserve_guard w (sc_app sc) amount) (wallets db1) =
        (if amount \<le> w_balance w then 1 else 0)"
      using w by (intro reserve_guard_count [OF k1]) simp_all
    with cnt have enough: "amount \<le> w_balance w" by presburger
    define f where "f = (\<lambda>x. x\<lparr>w_balance := w_balance x - amount, w_updated := now\<rparr> :: wallet)"
    have "update_where (reserve_guard w (sc_app sc) amount) f (wallets db1) =
          update_where (\<lambda>x. w_id x = w_id w \<and> w_app x = sc_app sc) f (wallets db1)"
      using k1 w enough by (intro update_where_key_cong [where k = w_id and r = w])
        (simp_all add: wallet_keys_ok_def reserve_guard_def)
    then have db2: "db2 = db1\<lparr>wallets := update_where (\<lambda>x. w_id x = w_id w \<and> w_app x = sc_app sc) f (wallets db1)\<rparr>"
      using add unfolding add_balance_Inr f_def by simp
    have "find_row (\<lambda>x. w_id x = w_id w \<and> w_app x = sc_app sc) (wallets db2) = Some (f w)"
      unfolding db2 using k1 w by (simp, intro find_row_updated [where k = w_id])
        (simp_all add: wallet_keys_ok_def f_def)
    with bw have bwf: "w_balance bw = w_balance w - amount" by (auto simp: f_def)
    define r where "r = \<lparr>l_id = lid, l_wallet = w_id w, l_account = acc, l_user = u, l_app = sc_app sc,
                     l_entry = ''debit'', l_source_type = ''fixed_reservation'',
                     l_source = clean_text src, l_amount = - amount, l_after = w_balance w - amount,
                     l_key = key, l_meta = Some meta, l_created = now\<rparr>"
    have i: "- (2 ^ 63) \<le> l_amount r" "l_amount r < 2 ^ 63" "- (2 ^ 63) \<le> l_after r" "l_after r < 2 ^ 63"
      "l_id r \<notin> l_id ` set (ledger db2)" "(l_app r, l_key r) \<notin> (\<lambda>x. (l_app x, l_key x)) ` set (ledger db2)"
      "db3 = db2\<lparr>ledger := ledger db2 @ [r]\<rparr>"
      using ins unfolding bwf r_def [symmetric] insert_ledger_Inr by blast+
    have l21: "ledger db2 = ledger db1" by (simp add: db2)
    have "find_row (\<lambda>l. l_id l = lid \<and> l_app l = sc_app sc) (ledger db3) = Some r"
      using i(5) unfolding i(7) by (simp add: find_row_last r_def)
    with row have l: "row = r" by simp
    have db3: "db3 = posted r db1"
      unfolding i(7) by (simp add: posted_def db2 r_def f_def)
    show thesis
    proof (rule that(2) [OF sc pos key None ens enough])
      show "postable r w db1"
        using i(1-6) w unfolding postable_def l21 by (simp add: r_def)
      show "db' = posted r db1" by (simp only: db' db3)
      show "v = decode_ledger_row r" by (simp only: v l)
    qed (rule r_def)
  qed
qed

definition release_posting :: "string \<Rightarrow> string \<Rightarrow> string \<Rightarrow> ledger_row \<Rightarrow> posting" where
  "release_posting acc u key reservation =
     \<lparr>po_account = acc, po_user = u, po_amount = - l_amount reservation,
      po_entry = ''credit'', po_source_type = ''fixed_reservation_release'',
      po_source = Some (l_id reservation), po_key = release_key key,
      po_meta = [(''reservation_ledger_id'', JStr (l_id reservation))]\<rparr>"

lemma release_effect:
  assumes r: "release_fixed_shell_reservation reg now wid lid acc u rkey db = Inr (v, db')"
  obtains sc key rv l where "require_billing_scope reg db acc (Some u) = Inr sc"
    and "clean_text (Some rkey) = Some key"
    and "rv \<in> set (ledger db)" and "l_app rv = sc_app sc" and "l_key rv = key"
    and "l_source_type rv = ''fixed_reservation''" and "l_account rv = acc" and "l_user rv = u"
    and "apply_wallet_ledger reg now wid lid (release_posting acc u key rv) db = Inr (l, db')"
    and "v = decode_ledger_row l"
proof -
  from r obtain sc where sc: "require_billing_scope reg db acc (Some u) = Inr sc"
    unfolding release_fixed_shell_reservation_def and_then_Inr by blast
  with r obtain key where key: "clean_text (Some rkey) = Some key"
    unfolding release_fixed_shell_reservation_def by (cases "clean_text (Some rkey)") simp_all
  with r sc obtain rv where rv: "find_row (\<lambda>l. l_app l = sc_app sc \<and> l_key l = key \<and>
      l_source_type l = ''fixed_reservation'' \<and> l_account l = acc \<and> l_user l = u) (ledger db) = Some rv"
    unfolding release_fixed_shell_reservation_def by (auto split: option.splits)
  with r sc key obtain l where
      l: "apply_wallet_ledger reg now wid lid (release_posting acc u key rv) db = Inr (l, db')"
    and v: "v = decode_ledger_row l"
    unfolding release_fixed_shell_reservation_def release_posting_def by (auto simp: and_then_Inr)
  from find_row_Some [OF rv] show thesis
    by (intro that [OF sc key _ _ _ _ _ _ l v]) simp_all
qed

lemma release_key_clean: "clean_text (Some k) = Some key \<Longrightarrow> clean_text (Some (release_key key)) = Some (release_key key)"
  unfolding release_key_def by (rule clean_text_prefix) (simp_all add: py_space_def)

definition charge_posting :: "string \<Rightarrow> string \<Rightarrow> string \<Rightarrow> charge \<Rightarrow> posting" where
  "charge_posting acc u key ch =
     \<lparr>po_account = acc, po_user = u, po_amount = - ch_micros ch, po_entry = ''debit'',
      po_source_type = ch_entry_source ch, po_source = ch_source ch,
      po_key = ''usage-charge-'' @ key, po_meta = ch_meta ch\<rparr>"

lemma record_charge_effect:
  assumes r: "record_charge reg now wid lid cid acc key ch db = Inr (v, db')"
  obtains "v = None" and "db' = db" and "resolve_billing_scope reg db acc None True = Inr None"
  | sc c where "resolve_billing_scope reg db acc None True = Inr (Some sc)" and "db' = db"
    and "find_cost (sc_app sc) key db = Some c" and "charge_replay acc sc c db = Inr v"
  | sc w db1 l db2 c where "resolve_billing_scope reg db acc None True = Inr (Some sc)"
    and "find_cost (sc_app sc) key db = None"
    and "ensure_wallet reg now wid acc (sc_user sc) db = Inr (w, db1)"
    and "apply_wallet_ledger reg now wid lid (charge_posting acc (sc_user sc) key ch) db1 = Inr (l, db2)"
    and "c_id c \<notin> c_id ` set (costs db2)"
    and "(c_app c, c_key c) \<notin> (\<lambda>x. (c_app x, c_key x)) ` set (costs db2)"
    and "db' = db2\<lparr>costs := costs db2 @ [c]\<rparr>"
    and "c_wallet c = Some (w_id w)" and "c_account c = acc" and "c_user c = Some (sc_user sc)"
    and "c_app c = sc_app sc" and "c_key c = key" and "c_micros c = ch_micros ch"
    and "c_ledger c = Some (l_id l)" and "v \<noteq> None"
proof -
  obtain s where s: "resolve_billing_scope reg db acc None True = Inr s"
    using r unfolding record_charge_def by (cases "resolve_billing_scope reg db acc None True") simp_all
  show thesis
  proof (cases s)
    case None
    with r s show thesis by (intro that(1)) (simp_all add: record_charge_def)
  next
    case (Some sc)
    with s have sc: "resolve_billing_scope reg db acc None True = Inr (Some sc)" by simp
    show thesis
    proof (cases "find_cost (sc_app sc) key db")
      case (Some c)
      with r sc show thesis
        by (intro that(2) [OF sc _ Some]) (auto simp: record_charge_def Let_def and_then_Inr)
    next
      case None
      with r sc obtain w db1 l db2 db3 where
            ens: "ensure_wallet reg now wid acc (sc_user sc) db = Inr (w, db1)"
        and app: "apply_wallet_ledger reg now wid lid (charge_posting acc (sc_user sc) key ch) db1 = Inr (l, db2)"
        and ins: "insert_cost \<lparr>c_id = cid, c_wallet = Some (w_id w), c_account = acc, c_user = Some (sc_user sc),
                 c_app = sc_app sc, c_type = ch_type ch, c_owner = ''user'', c_billable = 1,
                 c_model = clean_text (ch_model ch), c_input = ch_input ch, c_output = ch_output ch,
                 c_tokens = ch_tokens ch, c_multiplier = ch_multiplier ch, c_micros = ch_micros ch,
                 c_ledger = Some (l_id l), c_source_type = clean_text (ch_source_type ch),
                 c_source = clean_text (ch_source ch), c_key = key, c_meta = Some (ch_meta ch),
                 c_created = now\<rparr> db2 = Inr db3"
        and fin: "(case (find_row (\<lambda>c. c_id c = cid \<and> c_app c = sc_app sc) (costs db3),
                      find_row (\<lambda>x. w_id x = w_id w \<and> w_app x = sc_app sc) (wallets db3)) of
                  (Some ev, Some wr) \<Rightarrow>
                    Inr (Some \<lparr>cr_event = decode_cost_event_row ev,
                      cr_ledger = Some (decode_ledger_row l),
                      cr_wallet = Some (decode_wallet_row wr)\<rparr>, db3)
                | _ \<Rightarrow> Inl (RuntimeError ''cost_event was not created'')) = Inr (v, db')"
        unfolding charge_posting_def record_charge_def Let_def by (auto simp: and_then_Inr)
      from fin have db': "db' = db3" and v: "v \<noteq> None"
        by (auto split: prod.splits option.splits)
      define c where "c = \<lparr>c_id = cid, c_wallet = Some (w_id w), c_account = acc, c_user = Some (sc_user sc),
                 c_app = sc_app sc, c_type = ch_type ch, c_owner = ''user'', c_billable = 1,
                 c_model = clean_text (ch_model ch), c_input = ch_input ch, c_output = ch_output ch,
                 c_tokens = ch_tokens ch, c_multiplier = ch_multiplier ch, c_micros = ch_micros ch,
                 c_ledger = Some (l_id l), c_source_type = clean_text (ch_source_type ch),
                 c_source = clean_text (ch_source ch), c_key = key, c_meta = Some (ch_meta ch),
                 c_created = now\<rparr>"
      note i = insert_cost_Inr [OF ins [folded c_def]]
      show thesis
        by (rule that(3) [OF sc None ens app, of c]) (use i db' v in \<open>simp_all add: c_def\<close>)
    qed
  qed
qed

lemma chat_charge_effect:
  assumes "record_chat_usage_charge reg now wid lid cid acc model messages reply st src ikey inp out mult
    meta db = Inr (v, db')"
  obtains "db' = db" and "v = None"
  | key ch where "clean_text (Some ikey) = Some key" and "0 < ch_micros ch"
    and "record_charge reg now wid lid cid acc key ch db = Inr (v, db')"
    and "shell_micros_for_tokens (ch_tokens ch) mult = Inr (ch_micros ch)"
    and "ch_tokens ch = max 0 (ch_input ch) + max 0 (ch_output ch)"
proof -
  define i where "i = (case inp of Some n \<Rightarrow> n | None \<Rightarrow> estimate_tokens_from_messages messages)"
  define j where "j = (case out of Some n \<Rightarrow> n | None \<Rightarrow> estimate_tokens_from_text reply)"
  from assms obtain key micros where key: "clean_text (Some ikey) = Some key"
    and m: "shell_micros_for_tokens (max 0 i + max 0 j) mult = Inr micros"
    unfolding record_chat_usage_charge_def Let_def i_def [symmetric] j_def [symmetric]
    by (auto simp: and_then_Inr split: option.splits)
  show thesis
  proof (cases "micros \<le> 0")
    case True
    with assms key m show thesis
      unfolding record_chat_usage_charge_def Let_def i_def [symmetric] j_def [symmetric]
      by (intro that(1)) auto
  next
    case False
    let ?ch = "\<lparr>ch_type = ''llm_tokens'', ch_entry_source = ''usage_charge'',
             ch_source_type = Some st, ch_source = src, ch_model = Some model,
             ch_input = i, ch_output = j, ch_tokens = max 0 i + max 0 j, ch_multiplier = mult,
             ch_micros = micros,
             ch_meta = dict_update [(''estimated'', JBool (inp = None \<or> out = None)), (''input_tokens'', JInt i),
               (''output_tokens'', JInt j), (''billable_tokens'', JInt (max 0 i + max 0 j)),
               (''model'', JStr model)] meta\<rparr>"
    from assms key m False have "record_charge reg now wid lid cid acc key ?ch db = Inr (v, db')"
      unfolding record_chat_usage_charge_def Let_def i_def [symmetric] j_def [symmetric] by simp
    with False m show thesis by (intro that(2) [OF key, of ?ch]) simp_all
  qed
qed

lemma image_charge_effect:
  assumes "record_image_understanding_charge reg now wid lid cid dc acc src ikey model cost meta db = Inr (v, db')"
  obtains "db' = db" and "v = None"
  | key ch where "clean_text (Some ikey) = Some key" and "0 < ch_micros ch"
    and "record_charge reg now wid lid cid acc key ch db = Inr (v, db')"
    and "ch_micros ch = (case cost of Some n \<Rightarrow> n | None \<Rightarrow> dc)"
proof -
  define n where "n = (case cost of Some n \<Rightarrow> n | None \<Rightarrow> dc)"
  from assms obtain key where key: "clean_text (Some ikey) = Some key"
    by (auto simp: record_image_understanding_charge_def split: option.splits)
  show thesis
  proof (cases "n \<le> 0")
    case True
    with assms key show thesis
      unfolding record_image_understanding_charge_def Let_def n_def [symmetric] by (intro that(1)) auto
  next
    case False
    let ?ch = "\<lparr>ch_type = ''image_understanding'', ch_entry_source = ''image_understanding_charge'',
              ch_source_type = Some ''image_understanding_charge'', ch_source = src,
              ch_model = model, ch_input = 0, ch_output = 0, ch_tokens = 0, ch_multiplier = 1000000,
              ch_micros = n,
              ch_meta = dict_update [(''cost_type'', JStr ''image_understanding''),
                (''model'', opt_str model)] meta\<rparr>"
    from assms key False have "record_charge reg now wid lid cid acc key ?ch db = Inr (v, db')"
      unfolding record_image_understanding_charge_def Let_def n_def [symmetric] by simp
    with False n_def show thesis by (intro that(2) [OF key, of ?ch]) simp_all
  qed
qed

end
