(* ===== verification/Subscriptions.thy ===== *)
theory Subscriptions
imports Wallet_Laws
begin

text \<open>
  Subscriptions of a user in a product (\<^verbatim>\<open>app/db/billing.py\<close>): at most one active row per
  user and product, kept by the partial unique index \<^verbatim>\<open>ux_subscriptions_user_app_active\<close>.
\<close>

definition or_else :: "string option \<Rightarrow> string \<Rightarrow> string" where
  "or_else v d = (case v of None \<Rightarrow> d | Some s \<Rightarrow> if s = [] then d else s)"

definition active_sub :: "string \<Rightarrow> string \<Rightarrow> subscription \<Rightarrow> bool" where
  "active_sub u app s = (sb_user s = u \<and> sb_app s = app \<and> sb_status s = ''active'')"

definition insert_subscription :: "subscription \<Rightarrow> 'a wallet_db_scheme \<Rightarrow> 'a wallet_db_scheme res" where
  "insert_subscription s db =
     (if sb_id s \<in> sb_id ` set (subscriptions db) then Inl (IntegrityError ''subscriptions_pkey'')
      else if sb_status s = ''active'' \<and> find_row (active_sub (sb_user s) (sb_app s)) (subscriptions db) \<noteq> None
      then Inl (IntegrityError ''ux_subscriptions_user_app_active'')
      else Inr (db\<lparr>subscriptions := subscriptions db @ [s]\<rparr>))"

text \<open>
  The active branch is \<open>INSERT ... ON CONFLICT ... DO UPDATE\<close>: with an active row the insert
  becomes an update of its plan, without one the row is inserted.
\<close>

definition upsert_subscription_for_user ::
  "registry \<Rightarrow> int \<Rightarrow> string \<Rightarrow> string \<Rightarrow> string \<Rightarrow> string \<Rightarrow> string \<Rightarrow> 'a wallet_db_scheme \<Rightarrow>
     (subscription \<times> 'a wallet_db_scheme) res" where
  "upsert_subscription_for_user reg now sid u plan status app_id db =
     and_then (registered_app_id reg app_id) (\<lambda>app.
       if find_row (\<lambda>x. u_id x = u) (users db) = None then Inl (ValueError ''platform_user not found'')
       else and_then (require_active_product_membership reg db u app) (\<lambda>_.
         let cplan = or_else (clean_text (Some plan)) ''free'';
             cstatus = or_else (clean_text (Some status)) ''active'';
             row = \<lparr>sb_id = sid, sb_user = u, sb_app = app, sb_plan = cplan, sb_status = cstatus,
                    sb_created = now, sb_updated = now\<rparr>
         in and_then
           (if cstatus = ''active''
            then (case find_row (active_sub u app) (subscriptions db) of
               Some e \<Rightarrow> Inr (sb_id e, db\<lparr>subscriptions := update_where (active_sub u app)
                   (\<lambda>s. s\<lparr>sb_plan := cplan, sb_updated := now\<rparr>) (subscriptions db)\<rparr>)
             | None \<Rightarrow> and_then (insert_subscription row db) (\<lambda>db1.
                 case find_row (active_sub u app) (subscriptions db1) of
                   None \<Rightarrow> Inl (RuntimeError ''active is None'') | Some a \<Rightarrow> Inr (sb_id a, db1)))
            else (case order_desc (\<lambda>s. (sb_updated s, sb_id s))
                          (filter (active_sub u app) (subscriptions db)) of
               e # _ \<Rightarrow> Inr (sb_id e, db\<lparr>subscriptions :=
                   update_where (\<lambda>s. sb_id s = sb_id e \<and> sb_app s = app)
                     (\<lambda>s. s\<lparr>sb_plan := cplan, sb_status := cstatus, sb_updated := now\<rparr>) (subscriptions db)\<rparr>)
             | [] \<Rightarrow> and_then (insert_subscription row db) (\<lambda>db1. Inr (sid, db1))))
           (\<lambda>(i, db2). case find_row (\<lambda>s. sb_id s = i \<and> sb_app s = app) (subscriptions db2) of
              None \<Rightarrow> Inl (RuntimeError ''row is None'') | Some r \<Rightarrow> Inr (r, db2))))"

definition get_latest_subscription_for_user ::
  "registry \<Rightarrow> string \<Rightarrow> string \<Rightarrow> 'a wallet_db_scheme \<Rightarrow> subscription option res" where
  "get_latest_subscription_for_user reg u app_id db =
     and_then (registered_app_id reg app_id) (\<lambda>app.
       and_then (require_active_product_membership reg db u app) (\<lambda>_.
         Inr (case order_desc (\<lambda>s. (if sb_status s = ''active'' then 1 else 0 :: nat, sb_updated s, sb_id s))
                     (filter (\<lambda>s. sb_user s = u \<and> sb_app s = app) (subscriptions db)) of
                [] \<Rightarrow> None | s # _ \<Rightarrow> Some s)))"

definition subscription_keys_ok :: "'a wallet_db_scheme \<Rightarrow> bool" where
  "subscription_keys_ok db =
     (unique_on (\<lambda>_. True) sb_id (subscriptions db) \<and>
      unique_on (\<lambda>s. sb_status s = ''active'') (\<lambda>s. (sb_user s, sb_app s)) (subscriptions db))"

definition subscription_rows_ok :: "'a wallet_db_scheme \<Rightarrow> bool" where
  "subscription_rows_ok db = (\<forall>s \<in> set (subscriptions db). sb_app s \<noteq> [] \<and>
     (\<exists>m \<in> set (memberships db). m_user m = sb_user s \<and> m_app m = sb_app s))"

lemma registered_app_id_Inr:
  "registered_app_id reg app = Inr a \<Longrightarrow> \<exists>p. require_enabled reg app = Inr p \<and> a = p_app p \<and> a = py_strip app"
proof -
  assume r: "registered_app_id reg app = Inr a"
  then obtain c p where c: "clean_text (Some app) = Some c" and p: "require_enabled reg c = Inr p" "a = p_app p"
    by (auto simp: registered_app_id_def and_then_Inr split: option.splits)
  from c have "c = py_strip app" by (auto simp: clean_text_def Let_def split: if_splits)
  with p show ?thesis
    by (auto simp: require_enabled_Inr dest!: find_row_Some)
qed

lemma insert_subscription_ok:
  assumes "insert_subscription s db = Inr db'" and "subscription_keys_ok db"
  shows "subscription_keys_ok db' \<and> db' = db\<lparr>subscriptions := subscriptions db @ [s]\<rparr>"
proof -
  from assms(1) have n: "sb_id s \<notin> sb_id ` set (subscriptions db)" and
    a: "sb_status s = ''active'' \<Longrightarrow> find_row (active_sub (sb_user s) (sb_app s)) (subscriptions db) = None"
    and db': "db' = db\<lparr>subscriptions := subscriptions db @ [s]\<rparr>"
    unfolding insert_subscription_def by (auto split: if_splits)
  from assms(2) n a show ?thesis
    unfolding db' subscription_keys_ok_def
    by (auto simp: unique_on_snoc find_row_None active_sub_def image_iff)
qed

text \<open>
  The four ways an upsert ends: the active row's plan is replaced, an active row is added, the
  active row is closed, or a closed row is added.
\<close>

lemma upsert_effect:
  assumes r: "upsert_subscription_for_user reg now sid u plan status app_id db = Inr (s, db')"
  obtains app rows m where "registered_app_id reg app_id = Inr app"
    and "require_active_product_membership reg db u app = Inr m"
    and "db' = db\<lparr>subscriptions := rows\<rparr>"
    and "subscription_keys_ok db \<Longrightarrow> subscription_keys_ok db'"
    and "\<And>x. x \<in> set rows \<Longrightarrow> sb_user x = u \<and> sb_app x = app \<or>
           (\<exists>y \<in> set (subscriptions db). sb_user x = sb_user y \<and> sb_app x = sb_app y)"
    and "s \<in> set rows" and "sb_app s = app"
proof -
  define cplan where "cplan = or_else (clean_text (Some plan)) ''free''"
  define cstatus where "cstatus = or_else (clean_text (Some status)) ''active''"
  from r obtain app where app: "registered_app_id reg app_id = Inr app"
    unfolding upsert_subscription_for_user_def and_then_Inr by blast
  with r obtain m where m: "require_active_product_membership reg db u app = Inr m"
    unfolding upsert_subscription_for_user_def by (auto simp: and_then_Inr split: if_splits)
  define row where "row = \<lparr>sb_id = sid, sb_user = u, sb_app = app, sb_plan = cplan, sb_status = cstatus,
                    sb_created = now, sb_updated = now\<rparr>"
  from r app m obtain i db2 where
    step: "(if cstatus = ''active''
            then (case find_row (active_sub u app) (subscriptions db) of
               Some e \<Rightarrow> Inr (sb_id e, db\<lparr>subscriptions := update_where (active_sub u app)
                   (\<lambda>s. s\<lparr>sb_plan := cplan, sb_updated := now\<rparr>) (subscriptions db)\<rparr>)
             | None \<Rightarrow> and_then (insert_subscription row db) (\<lambda>db1.
                 case find_row (active_sub u app) (subscriptions db1) of
                   None \<Rightarrow> Inl (RuntimeError ''active is None'') | Some a \<Rightarrow> Inr (sb_id a, db1)))
            else (case order_desc (\<lambda>s. (sb_updated s, sb_id s))
                          (filter (active_sub u app) (subscriptions db)) of
               e # _ \<Rightarrow> Inr (sb_id e, db\<lparr>subscriptions :=
                   update_where (\<lambda>s. sb_id s = sb_id e \<and> sb_app s = app)
                     (\<lambda>s. s\<lparr>sb_plan := cplan, sb_status := cstatus, sb_updated := now\<rparr>) (subscriptions db)\<rparr>)
             | [] \<Rightarrow> and_then (insert_subscription row db) (\<lambda>db1. Inr (sid, db1)))) = Inr (i, db2)"
    and fin: "(case find_row (\<lambda>s. sb_id s = i \<and> sb_app s = app) (subscriptions db2) of
              None \<Rightarrow> Inl (RuntimeError ''row is None'') | Some r \<Rightarrow> Inr (r, db2)) = Inr (s, db')"
    unfolding upsert_subscription_for_user_def Let_def cplan_def cstatus_def row_def
    by (auto simp: and_then_Inr split: if_split_asm)
  from fin have db': "db' = db2"
    and s: "find_row (\<lambda>s. sb_id s = i \<and> sb_app s = app) (subscriptions db2) = Some s"
    by (auto split: option.splits)
  note s = find_row_Some [OF s]
  consider (upd) p f where "db2 = db\<lparr>subscriptions := update_where p f (subscriptions db)\<rparr>"
      "\<And>x. sb_id (f x) = sb_id x \<and> sb_user (f x) = sb_user x \<and> sb_app (f x) = sb_app x"
      "\<And>x. p x \<Longrightarrow> sb_status (f x) = ''active'' \<Longrightarrow> sb_status x = ''active''"
    | (ins) "insert_subscription row db = Inr db2"
  proof (cases "cstatus = ''active''")
    case True
    show thesis
    proof (cases "find_row (active_sub u app) (subscriptions db)")
      case None
      with step True show thesis by (intro ins) (auto simp: and_then_Inr split: option.splits)
    next
      case (Some e)
      with step True show thesis
        by (intro upd [of "active_sub u app" "\<lambda>s. s\<lparr>sb_plan := cplan, sb_updated := now\<rparr>"])
          (auto simp: active_sub_def)
    qed
  next
    case False
    show thesis
    proof (cases "order_desc (\<lambda>s. (sb_updated s, sb_id s)) (filter (active_sub u app) (subscriptions db))")
      case Nil
      with step False show thesis by (intro ins) (auto simp: and_then_Inr)
    next
      case (Cons e es)
      with step False show thesis
        by (intro upd [of "\<lambda>s. sb_id s = sb_id e \<and> sb_app s = app"
              "\<lambda>s. s\<lparr>sb_plan := cplan, sb_status := cstatus, sb_updated := now\<rparr>"]) auto
    qed
  qed
  then show thesis
  proof cases
    case upd
    show thesis
    proof (rule that [OF app m])
      show "db' = db\<lparr>subscriptions := update_where p f (subscriptions db)\<rparr>" by (simp add: db' upd(1))
      show "subscription_keys_ok db'" if "subscription_keys_ok db"
        using that upd(2,3) unfolding db' upd(1) subscription_keys_ok_def
        by (auto intro!: unique_on_update_weaken)
      show "s \<in> set (update_where p f (subscriptions db))" "sb_app s = app"
        using s by (simp_all add: upd(1))
      show "sb_user x = u \<and> sb_app x = app \<or>
           (\<exists>y \<in> set (subscriptions db). sb_user x = sb_user y \<and> sb_app x = sb_app y)"
        if "x \<in> set (update_where p f (subscriptions db))" for x
        using that upd(2) unfolding set_update_where by (auto split: if_splits)
    qed
  next
    case ins
    show thesis
    proof (rule that [OF app m])
      show "db' = db\<lparr>subscriptions := subscriptions db @ [row]\<rparr>"
        using ins unfolding db' insert_subscription_def by (simp split: if_splits)
      then show "s \<in> set (subscriptions db @ [row])" "sb_app s = app" using s db' by simp_all
      show "subscription_keys_ok db'" if "subscription_keys_ok db"
        unfolding db' using insert_subscription_ok [OF ins that] by (rule conjunct1)
      show "sb_user x = u \<and> sb_app x = app \<or>
           (\<exists>y \<in> set (subscriptions db). sb_user x = sb_user y \<and> sb_app x = sb_app y)"
        if "x \<in> set (subscriptions db @ [row])" for x
        using that by (auto simp: row_def)
    qed
  qed
qed

lemma upsert_rows_ok:
  assumes r: "upsert_subscription_for_user reg now sid u plan status app_id db = Inr (s, db')"
    and ok: "subscription_rows_ok db" and reg: "registry_ok reg"
  shows "subscription_rows_ok db'"
  using r
proof (rule upsert_effect)
  fix app rows m
  assume app: "registered_app_id reg app_id = Inr app"
    and m: "require_active_product_membership reg db u app = Inr m"
    and db': "db' = db\<lparr>subscriptions := rows\<rparr>"
    and rows: "\<And>x. x \<in> set rows \<Longrightarrow> sb_user x = u \<and> sb_app x = app \<or>
           (\<exists>y \<in> set (subscriptions db). sb_user x = sb_user y \<and> sb_app x = sb_app y)"
  from registered_app_id_Inr [OF app] obtain p where p: "require_enabled reg app_id = Inr p" "app = p_app p"
    "app = py_strip app_id" by blast
  with registered_app_ne [OF reg p(1)] have ne: "app \<noteq> []" by simp
  have mm: "\<exists>m \<in> set (memberships db). m_user m = u \<and> m_app m = app"
    using require_active_Inr [OF m] p(3) by auto
  show ?thesis
    using ok rows ne mm unfolding subscription_rows_ok_def db' by fastforce
qed

end
