(* ===== verification/Billing_Contract.thy ===== *)
theory Billing_Contract
imports Subscriptions
begin

text \<open>
  The contract the migrations check before they switch the billing tables to products:
  \<open>_billing_contract_violation_counts\<close> and \<open>_billing_idempotency_contract_violation_counts\<close> of
  \<^verbatim>\<open>app/db/migrations/shared.py\<close>, as functions of the tables, and the invariant \<open>billing_ok\<close>
  that every operation keeps and that makes all of the counts zero.
\<close>

section \<open>The migrations' counts\<close>

text \<open>\<open>GROUP BY key HAVING COUNT(*) > 1\<close>: the number of keys that occur more than once.\<close>

definition dup_groups :: "('r \<Rightarrow> 'k) \<Rightarrow> 'r list \<Rightarrow> nat" where
  "dup_groups key rows =
     length (filter (\<lambda>k. 1 < count_where (\<lambda>r. key r = k) rows) (remdups (map key rows)))"

definition ledger_sum :: "wallet \<Rightarrow> ledger_row list \<Rightarrow> int" where
  "ledger_sum w ls = sum_list (map l_amount (filter (\<lambda>l. l_wallet l = w_id w \<and> l_app l = w_app w) ls))"

definition wallet_by_id :: "'a wallet_db_scheme \<Rightarrow> string \<Rightarrow> wallet option" where
  "wallet_by_id db i = find_row (\<lambda>w. w_id w = i) (wallets db)"

definition account_app_differs :: "'a identity_db_scheme \<Rightarrow> string \<Rightarrow> string \<Rightarrow> bool" where
  "account_app_differs db acc app =
     (case find_account db acc of None \<Rightarrow> True | Some a \<Rightarrow> a_app a \<noteq> app)"

definition billing_contract_violation_counts :: "'a wallet_db_scheme \<Rightarrow> (string \<times> nat) list" where
  "billing_contract_violation_counts db =
     [(''null_app_id'',
         count_where (\<lambda>s. sb_app s = []) (subscriptions db) + count_where (\<lambda>w. w_app w = []) (wallets db) +
         count_where (\<lambda>l. l_app l = []) (ledger db) + count_where (\<lambda>c. c_app c = []) (costs db)),
      (''duplicate_active_subscription'', dup_groups (\<lambda>s. (sb_user s, sb_app s))
         (filter (\<lambda>s. sb_status s = ''active'') (subscriptions db))),
      (''duplicate_active_wallet'', dup_groups (\<lambda>w. (w_user w, w_app w))
         (filter (\<lambda>w. w_status w = ''active'') (wallets db))),
      (''subscription_membership_drift'', count_where
         (\<lambda>s. get_product_membership db (sb_user s) (sb_app s) = None) (subscriptions db)),
      (''wallet_scope_drift'', count_where
         (\<lambda>w. account_app_differs db (w_account w) (w_app w) \<or>
              get_product_membership db (w_user w) (w_app w) = None) (wallets db)),
      (''ledger_scope_drift'', count_where
         (\<lambda>l. account_app_differs db (l_account l) (l_app l) \<or>
              get_product_membership db (l_user l) (l_app l) = None \<or>
              (case wallet_by_id db (l_wallet l) of None \<Rightarrow> True
               | Some w \<Rightarrow> l_app l \<noteq> w_app w \<or> l_user l \<noteq> w_user w)) (ledger db)),
      (''cost_scope_drift'', count_where
         (\<lambda>c. account_app_differs db (c_account c) (c_app c) \<or>
              (case c_wallet c of None \<Rightarrow> False | Some i \<Rightarrow>
                 (case wallet_by_id db i of None \<Rightarrow> True | Some w \<Rightarrow> c_app c \<noteq> w_app w)) \<or>
              (case c_ledger c of None \<Rightarrow> False | Some i \<Rightarrow>
                 (case find_row (\<lambda>l. l_id l = i) (ledger db) of
                    None \<Rightarrow> True | Some l \<Rightarrow> c_app c \<noteq> l_app l))) (costs db)),
      (''wallet_ledger_balance_mismatch'', count_where
         (\<lambda>w. w_balance w \<noteq> ledger_sum w (ledger db)) (wallets db))]"

definition billing_idempotency_contract_violation_counts :: "'a wallet_db_scheme \<Rightarrow> (string \<times> nat) list" where
  "billing_idempotency_contract_violation_counts db =
     [(''duplicate_ledger_app_idempotency'', dup_groups (\<lambda>l. (l_app l, l_key l)) (ledger db)),
      (''duplicate_cost_app_idempotency'', dup_groups (\<lambda>c. (c_app c, c_key c)) (costs db))]"

section \<open>The invariant\<close>

definition identity_ok :: "'a identity_db_scheme \<Rightarrow> bool" where
  "identity_ok db = (unique_on (\<lambda>_. True) a_id (accounts db) \<and>
     list_all (\<lambda>a. py_strip (a_app a) = a_app a) (accounts db) \<and> memberships_ok db)"

definition in_scope :: "'a identity_db_scheme \<Rightarrow> string \<Rightarrow> string \<Rightarrow> string \<Rightarrow> bool" where
  "in_scope db acc u app = (app \<noteq> [] \<and> list_ex (\<lambda>a. a_id a = acc \<and> a_app a = app) (accounts db) \<and>
     list_ex (\<lambda>m. m_user m = u \<and> m_app m = app) (memberships db))"

definition wallet_rows_ok :: "'a wallet_db_scheme \<Rightarrow> bool" where
  "wallet_rows_ok db = (\<forall>w \<in> set (wallets db). in_scope db (w_account w) (w_user w) (w_app w) \<and>
     - (2 ^ 63) \<le> w_balance w \<and> w_balance w < 2 ^ 63)"

definition ledger_rows_ok :: "'a wallet_db_scheme \<Rightarrow> bool" where
  "ledger_rows_ok db = (\<forall>l \<in> set (ledger db). in_scope db (l_account l) (l_user l) (l_app l) \<and>
     (\<exists>w \<in> set (wallets db). w_id w = l_wallet l \<and> w_app w = l_app l \<and> w_user w = l_user l))"

definition cost_rows_ok :: "'a wallet_db_scheme \<Rightarrow> bool" where
  "cost_rows_ok db = (\<forall>c \<in> set (costs db).
     (case c_user c of None \<Rightarrow> False | Some u \<Rightarrow> in_scope db (c_account c) u (c_app c)) \<and>
     opt_all (\<lambda>i. \<exists>w \<in> set (wallets db). w_id w = i \<and> w_app w = c_app c) (c_wallet c) \<and>
     opt_all (\<lambda>i. \<exists>l \<in> set (ledger db). l_id l = i \<and> l_app l = c_app c) (c_ledger c))"

lemma case_option_ex: "(case x of None \<Rightarrow> False | Some u \<Rightarrow> P u) = (\<exists>u. x = Some u \<and> P u)"
  by (cases x) auto

lemma cost_rows_ok_iff:
  "cost_rows_ok db = (\<forall>c \<in> set (costs db).
     (\<exists>u. c_user c = Some u \<and> in_scope db (c_account c) u (c_app c)) \<and>
     (\<forall>i. c_wallet c = Some i \<longrightarrow> (\<exists>w \<in> set (wallets db). w_id w = i \<and> w_app w = c_app c)) \<and>
     (\<forall>i. c_ledger c = Some i \<longrightarrow> (\<exists>l \<in> set (ledger db). l_id l = i \<and> l_app l = c_app c)))"
  unfolding cost_rows_ok_def opt_all_iff case_option_ex by (rule refl)

definition balances_ok :: "'a wallet_db_scheme \<Rightarrow> bool" where
  "balances_ok db = (\<forall>w \<in> set (wallets db). w_balance w = ledger_sum w (ledger db))"

text \<open>
  The audit trail: the \<open>balance_after_shell_micros\<close> of every row is the sum of its wallet's
  amounts up to and including the row.
\<close>

definition row_total :: "ledger_row \<Rightarrow> ledger_row list \<Rightarrow> int" where
  "row_total l ls = sum_list (map l_amount (filter (\<lambda>x. l_wallet x = l_wallet l \<and> l_app x = l_app l) ls))"

definition trail_ok :: "ledger_row list \<Rightarrow> bool" where
  "trail_ok ls = list_all (\<lambda>n. l_after (ls ! n) = row_total (ls ! n) (take (Suc n) ls)) [0..<length ls]"

lemma trail_snoc: "trail_ok (ls @ [l]) \<longleftrightarrow> trail_ok ls \<and> l_after l = row_total l (ls @ [l])"
proof -
  have "list_all (\<lambda>n. l_after ((ls @ [l]) ! n) = row_total ((ls @ [l]) ! n) (take (Suc n) (ls @ [l]))) [0..<length ls] =
        list_all (\<lambda>n. l_after (ls ! n) = row_total (ls ! n) (take (Suc n) ls)) [0..<length ls]"
    by (intro list_all_cong refl) (simp add: nth_append)
  then show ?thesis by (simp add: trail_ok_def)
qed

definition billing_ok :: "'a wallet_db_scheme \<Rightarrow> bool" where
  "billing_ok db = (wallet_keys_ok db \<and> subscription_keys_ok db \<and> subscription_rows_ok db \<and>
     wallet_rows_ok db \<and> ledger_rows_ok db \<and> cost_rows_ok db \<and> balances_ok db \<and> trail_ok (ledger db))"

text \<open>The invariant is enough for every count to be zero.\<close>

lemma dup_groups_0: "distinct (map key rows) \<Longrightarrow> dup_groups key rows = 0"
proof -
  assume d: "distinct (map key rows)"
  have "count_where (\<lambda>r. key r = k) rows \<le> 1" for k
    using d by (induction rows) (auto simp: count_where_0 image_iff)
  then have "filter (\<lambda>k. 1 < count_where (\<lambda>r. key r = k) rows) (remdups (map key rows)) = []"
    by (auto simp: filter_empty_conv not_less)
  then show ?thesis by (simp add: dup_groups_def)
qed

lemma in_scope_joins:
  assumes "identity_ok db" and "in_scope db acc u app"
  shows "\<not> account_app_differs db acc app" "get_product_membership db u app \<noteq> None"
proof -
  from assms(2) obtain a where a: "a \<in> set (accounts db)" "a_id a = acc" "a_app a = app"
    by (auto simp: in_scope_def list_ex_iff)
  have "find_row (\<lambda>a. a_id a = acc) (accounts db) = Some a"
    using assms(1) a unique_onD [of "\<lambda>_. True" a_id "accounts db"]
    by (intro find_row_unique) (auto simp: identity_ok_def)
  with a(3) show "\<not> account_app_differs db acc app"
    by (simp add: account_app_differs_def find_account_def)
  show "get_product_membership db u app \<noteq> None"
    using assms(2) by (auto simp: get_product_membership_def in_scope_def list_ex_iff find_row_None)
qed

lemma wallet_by_id_unique:
  "wallet_keys_ok db \<Longrightarrow> w \<in> set (wallets db) \<Longrightarrow> wallet_by_id db (w_id w) = Some w"
  unfolding wallet_by_id_def wallet_keys_ok_def
  using unique_onD [of "\<lambda>_. True" w_id "wallets db"] by (intro find_row_unique) auto

lemma ledger_by_id_unique:
  "wallet_keys_ok db \<Longrightarrow> l \<in> set (ledger db) \<Longrightarrow> find_row (\<lambda>x. l_id x = l_id l) (ledger db) = Some l"
  unfolding wallet_keys_ok_def
  using unique_onD [of "\<lambda>_. True" l_id "ledger db"] by (intro find_row_unique) auto

lemma billing_ok_counts:
  assumes i: "identity_ok db" and b: "billing_ok db"
  shows "\<forall>n \<in> snd ` set (billing_contract_violation_counts db). n = 0"
    and "\<forall>n \<in> snd ` set (billing_idempotency_contract_violation_counts db). n = 0"
proof -
  from b have keys: "wallet_keys_ok db" and skeys: "subscription_keys_ok db" by (simp_all add: billing_ok_def)
  have w: "\<not> (account_app_differs db (w_account w) (w_app w) \<or>
      get_product_membership db (w_user w) (w_app w) = None)" "w_app w \<noteq> []"
    if "w \<in> set (wallets db)" for w
    using b that in_scope_joins [OF i, of "w_account w" "w_user w" "w_app w"]
    by (auto simp: billing_ok_def wallet_rows_ok_def in_scope_def)
  have l: "\<not> (account_app_differs db (l_account l) (l_app l) \<or>
              get_product_membership db (l_user l) (l_app l) = None \<or>
              (case wallet_by_id db (l_wallet l) of None \<Rightarrow> True
               | Some w \<Rightarrow> l_app l \<noteq> w_app w \<or> l_user l \<noteq> w_user w))" "l_app l \<noteq> []"
    if "l \<in> set (ledger db)" for l
  proof -
    from b that obtain w where w: "w \<in> set (wallets db)" "w_id w = l_wallet l" "w_app w = l_app l" "w_user w = l_user l"
      and s: "in_scope db (l_account l) (l_user l) (l_app l)"
      by (auto simp: billing_ok_def ledger_rows_ok_def)
    from wallet_by_id_unique [OF keys w(1)] w(2) have "wallet_by_id db (l_wallet l) = Some w" by simp
    with w(3,4) s in_scope_joins [OF i s]
    show "\<not> (account_app_differs db (l_account l) (l_app l) \<or>
              get_product_membership db (l_user l) (l_app l) = None \<or>
              (case wallet_by_id db (l_wallet l) of None \<Rightarrow> True
               | Some w \<Rightarrow> l_app l \<noteq> w_app w \<or> l_user l \<noteq> w_user w))" "l_app l \<noteq> []"
      by (simp_all add: in_scope_def)
  qed
  have c: "\<not> account_app_differs db (c_account c) (c_app c)" "c_app c \<noteq> []"
    "\<And>j. c_wallet c = Some j \<Longrightarrow> \<exists>w. wallet_by_id db j = Some w \<and> c_app c = w_app w"
    "\<And>j. c_ledger c = Some j \<Longrightarrow> \<exists>l. find_row (\<lambda>l. l_id l = j) (ledger db) = Some l \<and> c_app c = l_app l"
    if c: "c \<in> set (costs db)" for c
  proof -
    from b c obtain u where s: "in_scope db (c_account c) u (c_app c)"
      and cw: "\<And>j. c_wallet c = Some j \<Longrightarrow> \<exists>w \<in> set (wallets db). w_id w = j \<and> w_app w = c_app c"
      and cl: "\<And>j. c_ledger c = Some j \<Longrightarrow> \<exists>l \<in> set (ledger db). l_id l = j \<and> l_app l = c_app c"
      by (auto simp: billing_ok_def cost_rows_ok_iff)
    from s show "\<not> account_app_differs db (c_account c) (c_app c)" "c_app c \<noteq> []"
      by (simp_all add: in_scope_joins [OF i s]) (simp add: in_scope_def)
    show "\<exists>w. wallet_by_id db j = Some w \<and> c_app c = w_app w" if "c_wallet c = Some j" for j
      using cw [OF that] wallet_by_id_unique [OF keys] by force
    show "\<exists>l. find_row (\<lambda>l. l_id l = j) (ledger db) = Some l \<and> c_app c = l_app l" if "c_ledger c = Some j" for j
      using cl [OF that] ledger_by_id_unique [OF keys] by force
  qed
  have s: "sb_app s \<noteq> []" "get_product_membership db (sb_user s) (sb_app s) \<noteq> None"
    if "s \<in> set (subscriptions db)" for s
    using b that by (auto simp: billing_ok_def subscription_rows_ok_def get_product_membership_def find_row_None)
  have "count_where (\<lambda>c. account_app_differs db (c_account c) (c_app c) \<or>
              (case c_wallet c of None \<Rightarrow> False | Some i \<Rightarrow>
                 (case wallet_by_id db i of None \<Rightarrow> True | Some w \<Rightarrow> c_app c \<noteq> w_app w)) \<or>
              (case c_ledger c of None \<Rightarrow> False | Some i \<Rightarrow>
                 (case find_row (\<lambda>l. l_id l = i) (ledger db) of
                    None \<Rightarrow> True | Some l \<Rightarrow> c_app c \<noteq> l_app l))) (costs db) = 0"
    unfolding count_where_0 using c by (fastforce split: option.splits)
  moreover have "dup_groups (\<lambda>w. (w_user w, w_app w)) (filter (\<lambda>w. w_status w = ''active'') (wallets db)) = 0"
    "dup_groups (\<lambda>s. (sb_user s, sb_app s)) (filter (\<lambda>s. sb_status s = ''active'') (subscriptions db)) = 0"
    using keys skeys by (auto intro: dup_groups_0 simp: wallet_keys_ok_def subscription_keys_ok_def unique_on_def)
  moreover have "count_where (\<lambda>w. w_balance w \<noteq> ledger_sum w (ledger db)) (wallets db) = 0"
    using b by (simp add: count_where_0 billing_ok_def balances_ok_def)
  ultimately show "\<forall>n \<in> snd ` set (billing_contract_violation_counts db). n = 0"
    using w l c(2) s by (simp add: billing_contract_violation_counts_def count_where_0)
  show "\<forall>n \<in> snd ` set (billing_idempotency_contract_violation_counts db). n = 0"
    using keys by (simp add: billing_idempotency_contract_violation_counts_def dup_groups_0
        wallet_keys_ok_def unique_on_def)
qed

section \<open>Every operation keeps the invariant\<close>

lemma same_identity_ok: "same_identity s t \<Longrightarrow> identity_ok t = identity_ok s"
  by (simp add: same_identity_def identity_ok_def memberships_ok_def)

lemma same_identity_in_scope: "same_identity s t \<Longrightarrow> in_scope t acc u app = in_scope s acc u app"
  by (simp add: same_identity_def in_scope_def)

lemma scope_in_scope:
  assumes i: "identity_ok db" and reg: "registry_ok reg"
    and sc: "resolve_billing_scope reg db acc u b = Inr (Some sc)"
  shows "in_scope db acc (sc_user sc) (sc_app sc)" "u \<noteq> None \<Longrightarrow> u = Some (sc_user sc)"
proof -
  note r = resolve_scope_Some [OF sc]
  from r(4) obtain p where p: "require_enabled reg (sc_app sc) = Inr p" by blast
  from r(1) obtain a m where a: "a \<in> set (accounts db)" "a_id a = sc_account sc" "py_strip (a_app a) = sc_app sc"
    and m: "m \<in> set (memberships db)" "m_user m = sc_user sc" "m_app m = sc_app sc"
    by (auto simp: scope_ok_def)
  from i a(1) have st: "py_strip (a_app a) = a_app a" by (simp add: identity_ok_def list_all_iff)
  have "p_app p \<noteq> []" using registered_app_ne [OF reg p] .
  moreover have "p_app p = py_strip (sc_app sc)" using require_enabled_app [OF p] .
  ultimately have "sc_app sc \<noteq> []" by auto
  with a m st r(2) show "in_scope db acc (sc_user sc) (sc_app sc)"
    by (auto simp: in_scope_def list_ex_iff)
  from r(3) show "u \<noteq> None \<Longrightarrow> u = Some (sc_user sc)" .
qed

lemma require_scope_in_scope:
  assumes "identity_ok db" and "registry_ok reg" and "require_billing_scope reg db acc (Some u) = Inr sc"
  shows "in_scope db acc u (sc_app sc)" "sc_user sc = u"
  using scope_in_scope [OF assms(1,2), of acc "Some u" False sc] assms(3)
  by (auto simp: require_scope_Inr)

lemma ledger_sum_snoc:
  "ledger_sum w (ls @ [l]) =
     ledger_sum w ls + (if l_wallet l = w_id w \<and> l_app l = w_app w then l_amount l else 0)"
  by (simp add: ledger_sum_def)

lemma ledger_sum_none: "(\<And>l. l \<in> set ls \<Longrightarrow> l_wallet l \<noteq> w_id w) \<Longrightarrow> ledger_sum w ls = 0"
proof -
  assume "\<And>l. l \<in> set ls \<Longrightarrow> l_wallet l \<noteq> w_id w"
  then have "filter (\<lambda>l. l_wallet l = w_id w \<and> l_app l = w_app w) ls = []" by (auto simp: filter_empty_conv)
  then show ?thesis by (simp add: ledger_sum_def)
qed

lemma new_wallet_ok:
  assumes ok: "billing_ok db" and sc: "in_scope db (w_account w) (w_user w) (w_app w)"
    and bal: "w_balance w = 0" and fresh: "w_id w \<notin> w_id ` set (wallets db)"
    and keys: "wallet_keys_ok (db\<lparr>wallets := wallets db @ [w]\<rparr>)"
  shows "billing_ok (db\<lparr>wallets := wallets db @ [w]\<rparr>)"
proof -
  let ?db = "db\<lparr>wallets := wallets db @ [w]\<rparr>"
  have id: "same_identity db ?db" by (simp add: same_identity_def)
  note scope = same_identity_in_scope [OF id]
  have "ledger_sum w (ledger db) = 0"
  proof (rule ledger_sum_none)
    fix l assume "l \<in> set (ledger db)"
    with ok obtain x where "x \<in> set (wallets db)" "w_id x = l_wallet l"
      by (auto simp: billing_ok_def ledger_rows_ok_def)
    with fresh show "l_wallet l \<noteq> w_id w" by (metis image_eqI)
  qed
  then have "balances_ok ?db" using ok bal by (simp add: billing_ok_def balances_ok_def)
  moreover have "wallet_rows_ok ?db" using ok sc bal by (simp add: billing_ok_def wallet_rows_ok_def scope)
  moreover have "ledger_rows_ok ?db" "cost_rows_ok ?db"
    using ok by (auto simp: billing_ok_def ledger_rows_ok_def cost_rows_ok_iff scope)
  moreover have "trail_ok (ledger ?db)" using ok by (simp add: billing_ok_def)
  ultimately show ?thesis
    using ok keys by (simp add: billing_ok_def subscription_keys_ok_def subscription_rows_ok_def)
qed

lemma posted_ok:
  assumes ok: "billing_ok db" and p: "postable l w db"
    and sc: "in_scope db (l_account l) (l_user l) (l_app l)"
  shows "billing_ok (posted l db)"
proof -
  have id: "same_identity db (posted l db)" by simp
  note scope = same_identity_in_scope [OF id]
  from ok have keys: "wallet_keys_ok db" by (simp add: billing_ok_def)
  define q where "q = (\<lambda>x :: wallet. w_id x = l_wallet l \<and> w_app x = l_app l)"
  define f where "f = (\<lambda>w. w\<lparr>w_balance := w_balance w + l_amount l, w_updated := l_created l\<rparr> :: wallet)"
  have ws: "set (wallets (posted l db)) = (\<lambda>x. if q x then f x else x) ` set (wallets db)"
    by (simp add: posted_def set_update_where q_def f_def)
  have only: "x = w" if "x \<in> set (wallets db)" "q x" for x
    using that p keys unique_onD [of "\<lambda>_. True" w_id "wallets db" x w]
    by (simp add: postable_def q_def wallet_keys_ok_def)
  have 1: "balances_ok (posted l db)"
    using ok unfolding balances_ok_def billing_ok_def ws
    by (auto simp: ledger_sum_snoc q_def f_def ledger_sum_def)
  have 2: "wallet_rows_ok (posted l db)"
    using ok p only unfolding wallet_rows_ok_def billing_ok_def ws scope
    by (auto simp: f_def postable_def)
  have wl: "\<exists>x \<in> set (wallets (posted l db)). w_id x = w_id y \<and> w_app x = w_app y \<and> w_user x = w_user y"
    if "y \<in> set (wallets db)" for y
    by (rule posted_wallets_ex [OF that])
  have wrow: "\<exists>x \<in> set (wallets db). w_id x = l_wallet r \<and> w_app x = l_app r \<and> w_user x = l_user r"
    "in_scope db (l_account r) (l_user r) (l_app r)" if "r \<in> set (ledger (posted l db))" for r
    using that ok p sc by (auto simp: billing_ok_def ledger_rows_ok_def postable_def)
  have 3: "ledger_rows_ok (posted l db)"
    unfolding ledger_rows_ok_def scope using wrow wl by metis
  have 4: "cost_rows_ok (posted l db)"
    unfolding cost_rows_ok_iff scope
  proof (intro ballI conjI allI impI)
    fix c assume "c \<in> set (costs (posted l db))"
    then have c: "c \<in> set (costs db)" by simp
    from ok c show "\<exists>u. c_user c = Some u \<and> in_scope db (c_account c) u (c_app c)" by (simp add: billing_ok_def cost_rows_ok_iff)
    show "\<exists>w \<in> set (wallets (posted l db)). w_id w = i \<and> w_app w = c_app c" if "c_wallet c = Some i" for i
    proof -
      from ok c that obtain y where "y \<in> set (wallets db)" "w_id y = i" "w_app y = c_app c"
        by (auto simp: billing_ok_def cost_rows_ok_iff)
      with wl show ?thesis by metis
    qed
    show "\<exists>r \<in> set (ledger (posted l db)). l_id r = i \<and> l_app r = c_app c" if "c_ledger c = Some i" for i
      using ok c that by (auto simp: billing_ok_def cost_rows_ok_iff)
  qed
  have 5: "subscription_keys_ok (posted l db)" "subscription_rows_ok (posted l db)"
    using ok id by (simp_all add: billing_ok_def subscription_keys_ok_def subscription_rows_ok_def same_identity_def)
  have "balances_ok db" using ok by (simp add: billing_ok_def)
  then have "w_balance w = ledger_sum w (ledger db)" using p by (simp add: balances_ok_def postable_def)
  then have 6: "trail_ok (ledger (posted l db))"
    using ok p by (simp add: trail_snoc billing_ok_def row_total_def ledger_sum_def postable_def)
  show ?thesis
    unfolding billing_ok_def by (intro conjI posted_keys [OF keys p] 1 2 3 4 5 6)
qed

text \<open>
  \<open>keeps reg f\<close>: from a good state, a successful run of \<open>f\<close> ends in a good state with the
  same identity tables and a ledger that has only grown at its end (\<open>append_only\<close>). Every
  operation has one lemma of this form.
\<close>

definition append_only :: "'a wallet_db_scheme \<Rightarrow> 'a wallet_db_scheme \<Rightarrow> bool" where
  "append_only db db' = (same_identity db db' \<and> wallet_db.more db' = wallet_db.more db \<and>
     (\<exists>ls. ledger db' = ledger db @ ls))"

lemma append_only_refl [simp]: "append_only db db"
  by (simp add: append_only_def)

lemma append_only_trans: "append_only s t \<Longrightarrow> append_only t u \<Longrightarrow> append_only s u"
  by (auto simp: append_only_def intro: same_identity_trans)

lemma append_only_posted [simp]: "append_only db (posted l db)"
  by (simp add: append_only_def)

lemma append_only_same:
  "same_identity s t \<Longrightarrow> ledger t = ledger s \<Longrightarrow> wallet_db.more t = wallet_db.more s \<Longrightarrow> append_only s t"
  by (simp add: append_only_def)

lemma append_only_identity: "append_only s t \<Longrightarrow> same_identity s t"
  by (simp add: append_only_def)


definition keeps :: "registry \<Rightarrow> ('a wallet_db_scheme \<Rightarrow> ('r \<times> 'a wallet_db_scheme) res) \<Rightarrow> bool" where
  "keeps reg f = (\<forall>db r db'. registry_ok reg \<longrightarrow> identity_ok db \<longrightarrow> billing_ok db \<longrightarrow> f db = Inr (r, db') \<longrightarrow>
     billing_ok db' \<and> append_only db db')"

lemma keepsI:
  "(\<And>db r db'. registry_ok reg \<Longrightarrow> identity_ok db \<Longrightarrow> billing_ok db \<Longrightarrow> f db = Inr (r, db') \<Longrightarrow>
      billing_ok db' \<and> append_only db db') \<Longrightarrow> keeps reg f"
  unfolding keeps_def by blast

lemma keepsD:
  "keeps reg f \<Longrightarrow> registry_ok reg \<Longrightarrow> identity_ok db \<Longrightarrow> billing_ok db \<Longrightarrow> f db = Inr (r, db') \<Longrightarrow>
     billing_ok db' \<and> append_only db db' \<and> identity_ok db'"
  unfolding keeps_def using same_identity_ok append_only_identity by blast

lemma keeps_map: "keeps reg f \<Longrightarrow> keeps reg (\<lambda>db. and_then (f db) (\<lambda>(r, db'). Inr (g r, db')))"
  unfolding keeps_def by (auto simp: and_then_Inr)

lemma ensure_wallet_keeps [inv_intros]: "keeps reg (ensure_wallet reg now wid acc u)"
proof (rule keepsI)
  fix db w db'
  assume reg: "registry_ok reg" and i: "identity_ok db" and b: "billing_ok db"
    and e: "ensure_wallet reg now wid acc u db = Inr (w, db')"
  have k: "wallet_keys_ok db'" using b ensure_wallet_keys [OF _ e] by (simp add: billing_ok_def)
  obtain sc where sc: "require_billing_scope reg db acc (Some u) = Inr sc"
    and c: "db' = db \<and> active_wallet u (sc_app sc) db = Some w \<or>
         active_wallet u (sc_app sc) db = None \<and> wid \<notin> w_id ` set (wallets db) \<and>
         acc \<notin> w_account ` set (wallets db) \<and>
         w = \<lparr>w_id = wid, w_account = acc, w_user = u, w_app = sc_app sc, w_balance = 0,
              w_status = ''active'', w_created = now, w_updated = now\<rparr> \<and>
         db' = db\<lparr>wallets := wallets db @ [w]\<rparr>"
    by (rule ensure_wallet_effect [OF e])
  note s = require_scope_in_scope [OF i reg sc]
  have "billing_ok db'"
    using c
  proof
    assume "db' = db \<and> active_wallet u (sc_app sc) db = Some w"
    with b show ?thesis by simp
  next
    assume n: "active_wallet u (sc_app sc) db = None \<and> wid \<notin> w_id ` set (wallets db) \<and>
         acc \<notin> w_account ` set (wallets db) \<and>
         w = \<lparr>w_id = wid, w_account = acc, w_user = u, w_app = sc_app sc, w_balance = 0,
              w_status = ''active'', w_created = now, w_updated = now\<rparr> \<and>
         db' = db\<lparr>wallets := wallets db @ [w]\<rparr>"
    then have db': "db' = db\<lparr>wallets := wallets db @ [w]\<rparr>" by simp
    show ?thesis
      unfolding db' using n k s by (intro new_wallet_ok [OF b]) simp_all
  qed
  with append_only_same [OF ensure_wallet_frame(1,2,5) [OF e]] show "billing_ok db' \<and> append_only db db'" by simp
qed

lemma apply_wallet_ledger_keeps [inv_intros]: "keeps reg (apply_wallet_ledger reg now wid lid po)"
proof (rule keepsI)
  fix db l db'
  assume reg: "registry_ok reg" and i: "identity_ok db" and b: "billing_ok db"
    and a: "apply_wallet_ledger reg now wid lid po db = Inr (l, db')"
  from b have k: "wallet_keys_ok db" by (simp add: billing_ok_def)
  from a k show "billing_ok db' \<and> append_only db db'"
  proof (rule apply_wallet_ledger_effect)
    assume "db' = db"
    with b show ?thesis by simp
  next
    fix sc key w db1
    assume sc: "require_billing_scope reg db (po_account po) (Some (po_user po)) = Inr sc"
      and e: "ensure_wallet reg now wid (po_account po) (po_user po) db = Inr (w, db1)"
      and p: "postable l w db1" and db': "db' = posted l db1"
      and l: "l_account l = po_account po" "l_user l = po_user po" "l_app l = sc_app sc"
    from keepsD [OF ensure_wallet_keeps reg i b e] have b1: "billing_ok db1" and a1: "append_only db db1"
      by simp_all
    note s1 = append_only_identity [OF a1]
    have "in_scope db1 (l_account l) (l_user l) (l_app l)"
      using require_scope_in_scope(1) [OF i reg sc] by (simp add: l same_identity_in_scope [OF s1])
    from posted_ok [OF b1 p this] have "billing_ok db'" by (simp add: db')
    with a1 show ?thesis by (auto simp: db' intro: append_only_trans)
  qed
qed

lemma grant_shells_keeps [inv_intros]: "keeps reg (grant_shells reg now wid lid po)"
proof (rule keepsI)
  fix db r db'
  assume "registry_ok reg" "identity_ok db" "billing_ok db" and g: "grant_shells reg now wid lid po db = Inr (r, db')"
  moreover from g obtain l where "apply_wallet_ledger reg now wid lid (po\<lparr>po_entry := ''credit''\<rparr>) db = Inr (l, db')"
    by (auto simp: grant_shells_def and_then_Inr split: if_splits)
  ultimately show "billing_ok db' \<and> append_only db db'"
    using keepsD [OF apply_wallet_ledger_keeps] by blast
qed

lemma reserve_keeps [inv_intros]: "keeps reg (reserve_fixed_shells reg now wid lid acc u amount key src meta)"
proof (rule keepsI)
  fix db v db'
  assume reg: "registry_ok reg" and i: "identity_ok db" and b: "billing_ok db"
    and r: "reserve_fixed_shells reg now wid lid acc u amount key src meta db = Inr (v, db')"
  from b have k: "wallet_keys_ok db" by (simp add: billing_ok_def)
  from r k show "billing_ok db' \<and> append_only db db'"
  proof (rule reserve_effect)
    assume "db' = db"
    with b show ?thesis by simp
  next
    fix sc ck w db1 l
    assume sc: "require_billing_scope reg db acc (Some u) = Inr sc"
      and e: "ensure_wallet reg now wid acc u db = Inr (w, db1)"
      and p: "postable l w db1" and db': "db' = posted l db1"
      and l: "l = \<lparr>l_id = lid, l_wallet = w_id w, l_account = acc, l_user = u, l_app = sc_app sc,
              l_entry = ''debit'', l_source_type = ''fixed_reservation'',
              l_source = clean_text src, l_amount = - amount, l_after = w_balance w - amount,
              l_key = ck, l_meta = Some meta, l_created = now\<rparr>"
    from keepsD [OF ensure_wallet_keeps reg i b e] have b1: "billing_ok db1" and a1: "append_only db db1"
      by simp_all
    note s1 = append_only_identity [OF a1]
    have "in_scope db1 (l_account l) (l_user l) (l_app l)"
      using require_scope_in_scope(1) [OF i reg sc] by (simp add: l same_identity_in_scope [OF s1])
    from posted_ok [OF b1 p this] have "billing_ok db'" by (simp add: db')
    with a1 show ?thesis by (auto simp: db' intro: append_only_trans)
  qed
qed

lemma release_keeps [inv_intros]: "keeps reg (release_fixed_shell_reservation reg now wid lid acc u key)"
  by (rule keepsI) (metis apply_wallet_ledger_keeps keepsD release_effect)

lemma new_user_grant_keeps [inv_intros]: "keeps reg (grant_new_user_shells reg now wid lid acc u)"
proof (rule keepsI)
  fix db r db'
  assume "registry_ok reg" "identity_ok db" "billing_ok db"
    and g: "grant_new_user_shells reg now wid lid acc u db = Inr (r, db')"
  moreover from g obtain po where "grant_shells reg now wid lid po db = Inr (r, db')"
    unfolding grant_new_user_shells_def and_then_Inr by blast
  ultimately show "billing_ok db' \<and> append_only db db'"
    using keepsD [OF grant_shells_keeps] by blast
qed

lemma wallet_parts_frame:
  assumes "same_identity s t" and "wallets t = wallets s" and "ledger t = ledger s" and "costs t = costs s"
  shows "wallet_keys_ok t = wallet_keys_ok s" "wallet_rows_ok t = wallet_rows_ok s"
    "ledger_rows_ok t = ledger_rows_ok s" "cost_rows_ok t = cost_rows_ok s" "balances_ok t = balances_ok s"
  unfolding wallet_keys_ok_def wallet_rows_ok_def ledger_rows_ok_def cost_rows_ok_iff balances_ok_def
    assms(2-4) same_identity_in_scope [OF assms(1)] by (rule refl)+

lemma billing_ok_frame:
  assumes "same_identity s t" and "wallets t = wallets s" and "ledger t = ledger s" and "costs t = costs s"
    and "subscriptions t = subscriptions s"
  shows "billing_ok t = billing_ok s"
  using assms(1,3,5)
  by (simp add: billing_ok_def wallet_parts_frame [OF assms(1-4)] subscription_keys_ok_def
      subscription_rows_ok_def same_identity_def)

lemma optional_scope_required:
  assumes "resolve_billing_scope reg db acc None True = Inr (Some sc)"
  shows "require_billing_scope reg db acc (Some (sc_user sc)) = Inr sc"
proof -
  from assms obtain a p where a: "find_account db acc = Some a"
    and p: "require_enabled reg (a_app a) = Inr p"
    and o: "resolve_owner_platform_user_id db acc = Some (sc_user sc)"
    and m: "and_then (require_active_product_membership reg db (sc_user sc) (p_app p))
       (\<lambda>_. Inr (Some \<lparr>sc_account = a_id a, sc_user = sc_user sc, sc_app = p_app p\<rparr>)) = Inr (Some sc)"
    by (auto simp: resolve_billing_scope_def and_then_Inr split: option.splits)
  then show ?thesis by (simp add: require_billing_scope_def resolve_billing_scope_def)
qed

lemma apply_wallet_ledger_row:
  assumes a: "apply_wallet_ledger reg now wid lid po db = Inr (l, db')" and k: "wallet_keys_ok db"
    and sc: "require_billing_scope reg db (po_account po) (Some (po_user po)) = Inr sc"
  shows "l \<in> set (ledger db')" "l_app l = sc_app sc" "l_user l = po_user po"
    "w \<in> set (wallets db) \<Longrightarrow> \<exists>x \<in> set (wallets db'). w_id x = w_id w \<and> w_app x = w_app w"
    "costs db' = costs db"
proof -
  have "l \<in> set (ledger db') \<and> l_app l = sc_app sc \<and> l_user l = po_user po \<and> costs db' = costs db \<and>
    (w \<in> set (wallets db) \<longrightarrow> (\<exists>x \<in> set (wallets db'). w_id x = w_id w \<and> w_app x = w_app w))"
    using a k
  proof (rule apply_wallet_ledger_effect)
    fix sc' key
    assume "require_billing_scope reg db (po_account po) (Some (po_user po)) = Inr sc'"
      and "find_ledger (sc_app sc') key db = Some l" and "l_user l = po_user po" and "db' = db"
    with sc show ?thesis by (auto dest: find_ledger_Some)
  next
    fix sc' key w' db1
    assume sc': "require_billing_scope reg db (po_account po) (Some (po_user po)) = Inr sc'"
      and e: "ensure_wallet reg now wid (po_account po) (po_user po) db = Inr (w', db1)"
      and db': "db' = posted l db1" and l: "l_app l = sc_app sc'" "l_user l = po_user po"
    have "set (wallets db) \<subseteq> set (wallets db1)"
      using e by (rule ensure_wallet_effect) auto
    moreover have "\<exists>x \<in> set (wallets db'). w_id x = w_id w \<and> w_app x = w_app w" if "w \<in> set (wallets db1)"
      unfolding db' using posted_wallets_ex [OF that] by blast
    moreover have "l \<in> set (ledger db')" "costs db' = costs db"
      using ensure_wallet_frame(3) [OF e] by (simp_all add: db')
    ultimately show ?thesis using sc sc' l by auto
  qed
  then show "l \<in> set (ledger db')" "l_app l = sc_app sc" "l_user l = po_user po" "costs db' = costs db"
    "w \<in> set (wallets db) \<Longrightarrow> \<exists>x \<in> set (wallets db'). w_id x = w_id w \<and> w_app x = w_app w"
    by blast+
qed

lemma new_cost_ok:
  assumes b: "billing_ok db" and "c_id c \<notin> c_id ` set (costs db)"
    and "(c_app c, c_key c) \<notin> (\<lambda>x. (c_app x, c_key x)) ` set (costs db)"
    and s: "in_scope db (c_account c) u (c_app c)" and u: "c_user c = Some u"
    and w: "w \<in> set (wallets db)" "c_wallet c = Some (w_id w)" "w_app w = c_app c"
    and l: "l \<in> set (ledger db)" "c_ledger c = Some (l_id l)" "l_app l = c_app c"
  shows "billing_ok (db\<lparr>costs := costs db @ [c]\<rparr>)"
proof -
  let ?db = "db\<lparr>costs := costs db @ [c]\<rparr>"
  have id: "same_identity db ?db" by (simp add: same_identity_def)
  note scope = same_identity_in_scope [OF id]
  have parts: "wallet_rows_ok db" "ledger_rows_ok db" "balances_ok db" "subscription_keys_ok db"
    "subscription_rows_ok db" "trail_ok (ledger db)"
    using b by (simp_all add: billing_ok_def)
  have "wallet_keys_ok ?db"
    using assms(1-3) by (auto simp: billing_ok_def wallet_keys_ok_def unique_on_snoc image_iff)
  moreover have "cost_rows_ok ?db"
    using b s u w l unfolding cost_rows_ok_iff scope billing_ok_def by auto
  moreover have "wallet_rows_ok ?db" "ledger_rows_ok ?db" "balances_ok ?db"
    "subscription_keys_ok ?db" "subscription_rows_ok ?db" "trail_ok (ledger ?db)"
    using parts by (simp_all add: wallet_rows_ok_def ledger_rows_ok_def scope)
      (simp_all add: balances_ok_def subscription_keys_ok_def subscription_rows_ok_def)
  ultimately show ?thesis by (simp add: billing_ok_def)
qed

lemma record_charge_keeps [inv_intros]: "keeps reg (record_charge reg now wid lid cid acc key ch)"
proof (rule keepsI)
  fix db v db'
  assume reg: "registry_ok reg" and i: "identity_ok db" and b: "billing_ok db"
    and r: "record_charge reg now wid lid cid acc key ch db = Inr (v, db')"
  from r show "billing_ok db' \<and> append_only db db'"
  proof (rule record_charge_effect)
    fix sc w db1 l db2 c
    assume sc: "resolve_billing_scope reg db acc None True = Inr (Some sc)"
      and e: "ensure_wallet reg now wid acc (sc_user sc) db = Inr (w, db1)"
      and a: "apply_wallet_ledger reg now wid lid (charge_posting acc (sc_user sc) key ch) db1 = Inr (l, db2)"
      and c: "c_id c \<notin> c_id ` set (costs db2)"
         "(c_app c, c_key c) \<notin> (\<lambda>x. (c_app x, c_key x)) ` set (costs db2)"
      and db': "db' = db2\<lparr>costs := costs db2 @ [c]\<rparr>"
      and cf: "c_user c = Some (sc_user sc)" "c_wallet c = Some (w_id w)" "c_account c = acc" "c_app c = sc_app sc" "c_ledger c = Some (l_id l)"
    from keepsD [OF ensure_wallet_keeps reg i b e] have 1: "billing_ok db1" "append_only db db1" "identity_ok db1"
      by simp_all
    from keepsD [OF apply_wallet_ledger_keeps reg 1(3,1) a] have 2: "billing_ok db2" "append_only db1 db2"
      by simp_all
    note a12 = append_only_trans [OF 1(2) 2(2)] and s1 = append_only_identity [OF 1(2)]
    note s12 = append_only_identity [OF a12]
    note rq = optional_scope_required [OF sc]
    have rq1: "require_billing_scope reg db1 (po_account (charge_posting acc (sc_user sc) key ch))
        (Some (po_user (charge_posting acc (sc_user sc) key ch))) = Inr sc"
      using rq same_identity_require_scope [OF s1, of reg acc] by (simp add: charge_posting_def)
    have k1: "wallet_keys_ok db1" using 1(1) by (simp add: billing_ok_def)
    note row = apply_wallet_ledger_row [OF a k1 rq1]
    obtain sc' where "require_billing_scope reg db acc (Some (sc_user sc)) = Inr sc'"
      and "active_wallet (sc_user sc) (sc_app sc') db1 = Some w"
      by (rule ensure_wallet_effect [OF e])
    with rq have w: "w \<in> set (wallets db1)" "w_app w = sc_app sc"
      by (auto dest: active_wallet_Some)
    from row(4) [OF w(1)] obtain x where x: "x \<in> set (wallets db2)" "w_id x = w_id w" "w_app x = w_app w" by blast
    have "in_scope db2 (c_account c) (sc_user sc) (c_app c)"
      using scope_in_scope(1) [OF i reg sc] by (simp add: cf same_identity_in_scope [OF s12])
    from new_cost_ok [OF 2(1) c this cf(1) x(1) _ _ row(1)] have "billing_ok db'"
      using x w row(2) by (simp add: db' cf)
    moreover have "append_only db2 db'" by (simp add: db' append_only_def same_identity_def)
    ultimately show ?thesis using append_only_trans [OF a12] by blast
  qed (use b in simp_all)
qed

lemma chat_charge_keeps [inv_intros]:
  "keeps reg (record_chat_usage_charge reg now wid lid cid acc model ms reply st src key inp out mult meta)"
proof (rule keepsI)
  fix db v db'
  assume a: "registry_ok reg" "identity_ok db" "billing_ok db"
    and r: "record_chat_usage_charge reg now wid lid cid acc model ms reply st src key inp out mult meta db = Inr (v, db')"
  from r show "billing_ok db' \<and> append_only db db'"
    by (rule chat_charge_effect) (use a keepsD [OF record_charge_keeps a] in auto)
qed

lemma image_charge_keeps [inv_intros]:
  "keeps reg (record_image_understanding_charge reg now wid lid cid dc acc src key model cost meta)"
proof (rule keepsI)
  fix db v db'
  assume a: "registry_ok reg" "identity_ok db" "billing_ok db"
    and r: "record_image_understanding_charge reg now wid lid cid dc acc src key model cost meta db = Inr (v, db')"
  from r show "billing_ok db' \<and> append_only db db'"
    by (rule image_charge_effect) (use a keepsD [OF record_charge_keeps a] in auto)
qed

lemma summary_effect:
  assumes "get_wallet_summary reg now wid lid acc eg cm db = Inr (v, db')"
  shows "db' = db \<or> (\<exists>u r. grant_new_user_shells reg now wid lid acc u db = Inr (r, db')) \<or>
         (\<exists>u w. ensure_wallet reg now wid acc u db = Inr (w, db'))"
proof -
  from assms obtain s where s: "resolve_billing_scope reg db acc None True = Inr s"
    unfolding get_wallet_summary_def and_then_Inr by blast
  show ?thesis
  proof (cases s)
    case None
    with assms s show ?thesis by (simp add: get_wallet_summary_def)
  next
    case (Some sc)
    with assms s obtain db1 where
      "(if eg then map_sum id snd (grant_new_user_shells reg now wid lid acc (sc_user sc) db)
        else if cm then map_sum id snd (ensure_wallet reg now wid acc (sc_user sc) db) else Inr db) = Inr db1"
      and "db' = db1"
      by (auto simp: get_wallet_summary_def and_then_Inr Let_def split: option.splits)
    then show ?thesis
      by (cases "grant_new_user_shells reg now wid lid acc (sc_user sc) db";
          cases "ensure_wallet reg now wid acc (sc_user sc) db") (auto split: if_splits)
  qed
qed

lemma summary_keeps [inv_intros]: "keeps reg (get_wallet_summary reg now wid lid acc eg cm)"
proof (rule keepsI)
  fix db v db'
  assume a: "registry_ok reg" "identity_ok db" "billing_ok db"
    and r: "get_wallet_summary reg now wid lid acc eg cm db = Inr (v, db')"
  from summary_effect [OF r] show "billing_ok db' \<and> append_only db db'"
    using a keepsD [OF new_user_grant_keeps a] keepsD [OF ensure_wallet_keeps a] by auto
qed

lemma append_only_find: "append_only s t \<Longrightarrow> find_ledger app key s = Some l \<Longrightarrow> find_ledger app key t = Some l"
  by (auto simp: append_only_def find_ledger_def find_row_append)

lemma upsert_subscription_keeps [inv_intros]: "keeps reg (upsert_subscription_for_user reg now sid u plan st app)"
proof (rule keepsI)
  fix db s db'
  assume reg: "registry_ok reg" and i: "identity_ok db" and b: "billing_ok db"
    and r: "upsert_subscription_for_user reg now sid u plan st app db = Inr (s, db')"
  obtain rows where db': "db' = db\<lparr>subscriptions := rows\<rparr>"
    and k: "subscription_keys_ok db \<Longrightarrow> subscription_keys_ok db'"
    using r by (rule upsert_effect) blast
  have id: "same_identity db db'" by (simp add: db' same_identity_def)
  have "subscription_rows_ok db'" using upsert_rows_ok [OF r _ reg] b by (simp add: billing_ok_def)
  moreover have "wallets db' = wallets db" "ledger db' = ledger db" "costs db' = costs db"
    by (simp_all add: db')
  ultimately have "billing_ok db'"
    using k b unfolding billing_ok_def by (simp add: wallet_parts_frame [OF id])
  with id show "billing_ok db' \<and> append_only db db'" by (simp add: append_only_def db')
qed

section \<open>Any history of billing transactions\<close>

text \<open>
  One transaction of any billing operation, with any arguments, that commits. A transaction
  that raises leaves the state as it was and is no step.
\<close>

inductive billing_step :: "registry \<Rightarrow> 'a wallet_db_scheme \<Rightarrow> 'a wallet_db_scheme \<Rightarrow> bool" for reg where
  EnsureWallet: "ensure_wallet reg now wid acc u db = Inr (w, db') \<Longrightarrow> billing_step reg db db'"
| Posting: "apply_wallet_ledger reg now wid lid po db = Inr (l, db') \<Longrightarrow> billing_step reg db db'"
| Grant: "grant_shells reg now wid lid po db = Inr (v, db') \<Longrightarrow> billing_step reg db db'"
| Reserve: "reserve_fixed_shells reg now wid lid acc u amount key src meta db = Inr (v, db') \<Longrightarrow>
    billing_step reg db db'"
| Release: "release_fixed_shell_reservation reg now wid lid acc u key db = Inr (v, db') \<Longrightarrow>
    billing_step reg db db'"
| NewUser: "grant_new_user_shells reg now wid lid acc u db = Inr (v, db') \<Longrightarrow> billing_step reg db db'"
| ChatCharge: "record_chat_usage_charge reg now wid lid cid acc model ms reply st src key inp out mult meta db
    = Inr (r, db') \<Longrightarrow> billing_step reg db db'"
| ImageCharge: "record_image_understanding_charge reg now wid lid cid dc acc src key imodel cost meta db
    = Inr (r, db') \<Longrightarrow> billing_step reg db db'"
| Summary: "get_wallet_summary reg now wid lid acc eg cm db = Inr (summary, db') \<Longrightarrow> billing_step reg db db'"
| Subscribe: "upsert_subscription_for_user reg now sid u plan status app db = Inr (sub, db') \<Longrightarrow>
    billing_step reg db db'"

lemmas billing_keeps = ensure_wallet_keeps [THEN keepsD] apply_wallet_ledger_keeps [THEN keepsD]
  grant_shells_keeps [THEN keepsD] reserve_keeps [THEN keepsD] release_keeps [THEN keepsD]
  new_user_grant_keeps [THEN keepsD] chat_charge_keeps [THEN keepsD] image_charge_keeps [THEN keepsD]
  summary_keeps [THEN keepsD] upsert_subscription_keeps [THEN keepsD]

lemma billing_step_ok:
  assumes "billing_step reg db db'" and ok: "registry_ok reg" "identity_ok db" "billing_ok db"
  shows "billing_ok db' \<and> append_only db db' \<and> identity_ok db'"
  using assms(1) by cases (erule billing_keeps [OF ok])+

lemma billing_run_ok:
  assumes "(billing_step reg)\<^sup>*\<^sup>* db db'" and "registry_ok reg" "identity_ok db" "billing_ok db"
  shows "billing_ok db' \<and> append_only db db' \<and> identity_ok db'"
  using assms
proof (induction rule: rtranclp_induct)
  case base
  then show ?case by simp
next
  case (step y z)
  then show ?case using billing_step_ok append_only_trans by blast
qed

end
