(* ===== verification/Wallet_Book.thy ===== *)
theory Wallet_Book
imports Billing_Contract "HOL-Library.Multiset"
begin

text \<open>
  What a wallet promises its callers: an account book of balances per user and product, posted to
  under idempotency keys. The locale \<open>idempotent_book\<close> states the contract, with its
  consequences for whole histories of postings; \<open>apply_wallet_ledger\<close> implements it, and the
  functional refinement \<open>posting_refines\<close> says the same of the abstract book.
\<close>

section \<open>The interface\<close>

locale idempotent_book =
  fixes inv :: "'s \<Rightarrow> bool"
    and run :: "'r \<Rightarrow> 's \<Rightarrow> 's option"
    and owner :: "'r \<Rightarrow> 'o"
    and key :: "'r \<Rightarrow> 'k"
    and amount :: "'r \<Rightarrow> int"
    and balance :: "'s \<Rightarrow> 'o \<Rightarrow> int"
    and used :: "'s \<Rightarrow> 'k \<Rightarrow> bool"
  assumes inv_run: "inv s \<Longrightarrow> run r s = Some s' \<Longrightarrow> inv s'"
    and run_dup: "inv s \<Longrightarrow> run r s = Some s' \<Longrightarrow> used s (key r) \<Longrightarrow> balance s' o1 = balance s o1"
    and run_fresh: "inv s \<Longrightarrow> run r s = Some s' \<Longrightarrow> \<not> used s (key r) \<Longrightarrow>
           balance s' o1 = balance s o1 + (if owner r = o1 then amount r else 0)"
    and run_used: "inv s \<Longrightarrow> run r s = Some s' \<Longrightarrow> used s' k \<longleftrightarrow> used s k \<or> k = key r"
begin

fun run_all :: "'r list \<Rightarrow> 's \<Rightarrow> 's option" where
  "run_all [] s = Some s"
| "run_all (r # rs) s = (case run r s of None \<Rightarrow> None | Some s' \<Rightarrow> run_all rs s')"

text \<open>The amounts that count for \<open>o1\<close>: the first posting of every key that is not yet used.\<close>

fun effective :: "('k \<Rightarrow> bool) \<Rightarrow> 'o \<Rightarrow> 'r list \<Rightarrow> int" where
  "effective u o1 [] = 0"
| "effective u o1 (r # rs) = (if \<not> u (key r) \<and> owner r = o1 then amount r else 0) +
     effective (\<lambda>k. u k \<or> k = key r) o1 rs"

lemma run_all_append: "run_all (xs @ ys) s = (case run_all xs s of None \<Rightarrow> None | Some t \<Rightarrow> run_all ys t)"
  by (induction xs arbitrary: s) (auto split: option.splits)

lemma run_all_spec:
  assumes "inv s" and "run_all rs s = Some s'"
  shows "inv s' \<and> balance s' o1 = balance s o1 + effective (used s) o1 rs \<and>
         (\<forall>k. used s' k \<longleftrightarrow> used s k \<or> k \<in> key ` set rs)"
  using assms
proof (induction rs arbitrary: s)
  case Nil
  then show ?case by simp
next
  case (Cons r rs)
  from Cons.prems obtain t where t: "run r s = Some t" "run_all rs t = Some s'"
    by (auto split: option.splits)
  note i = inv_run [OF Cons.prems(1) t(1)] and u = run_used [OF Cons.prems(1) t(1)]
  from u have "used t = (\<lambda>k. used s k \<or> k = key r)" by auto
  moreover have "balance t o1 = balance s o1 + (if \<not> used s (key r) \<and> owner r = o1 then amount r else 0)"
    using run_dup [OF Cons.prems(1) t(1), of o1] run_fresh [OF Cons.prems(1) t(1), of o1]
    by (cases "used s (key r)") simp_all
  ultimately show ?case
    using Cons.IH [OF i t(2)] u by auto
qed

lemma effective_used: "(\<forall>r \<in> set rs. u (key r)) \<Longrightarrow> effective u o1 rs = 0"
  by (induction rs arbitrary: u) auto

lemma effective_distinct:
  "distinct (map key rs) \<Longrightarrow> effective u o1 rs =
     sum_list (map (\<lambda>r. if \<not> u (key r) \<and> owner r = o1 then amount r else 0) rs)"
proof (induction rs arbitrary: u)
  case Nil
  then show ?case by simp
next
  case (Cons r rs)
  then have n: "key x \<noteq> key r" if "x \<in> set rs" for x using that by (auto simp: image_iff)
  then have "map (\<lambda>r'. if \<not> (u (key r') \<or> key r' = key r) \<and> owner r' = o1 then amount r' else 0) rs =
             map (\<lambda>r'. if \<not> u (key r') \<and> owner r' = o1 then amount r' else 0) rs"
    by (intro map_cong) (simp_all add: n)
  with Cons show ?case by (simp del: map_eq_conv)
qed

text \<open>A history that is replayed, in whole or in part and in any order, changes no balance.\<close>

lemma replay:
  assumes "inv s" and "run_all rs s = Some s1" and "run_all qs s1 = Some s2" and "key ` set qs \<subseteq> key ` set rs"
  shows "balance s2 o1 = balance s1 o1"
proof -
  note 1 = run_all_spec [OF assms(1,2)]
  have "effective (used s1) o1 qs = 0"
    using 1 assms(4) by (intro effective_used) auto
  with 1 run_all_spec [OF _ assms(3)] show ?thesis by auto
qed

text \<open>Postings under different keys commute.\<close>

lemma order_irrelevant:
  assumes "inv s" and "run_all rs s = Some s1" and "run_all qs s = Some s2"
    and "mset qs = mset rs" and "distinct (map key rs)"
  shows "balance s1 o1 = balance s2 o1"
proof -
  have d: "distinct (map key qs)"
    using mset_eq_imp_distinct_iff [of "map key qs" "map key rs"] assms(4,5) by (simp only: mset_map)
  define f where "f = (\<lambda>r. if \<not> used s (key r) \<and> owner r = o1 then amount r else 0)"
  have "sum_list (map f qs) = sum_list (map f rs)"
    by (metis assms(4) mset_map sum_mset_sum_list)
  then show ?thesis
    using run_all_spec [OF assms(1,2)] run_all_spec [OF assms(1,3)]
    by (simp add: effective_distinct [OF d] effective_distinct [OF assms(5)] f_def [symmetric])
qed

end

section \<open>The abstract book\<close>

record book =
  bk_balance :: "string \<times> string \<Rightarrow> int"
  bk_posted :: "string \<times> string \<Rightarrow> (string \<times> int) option"

definition book_post :: "string \<Rightarrow> string \<Rightarrow> string \<Rightarrow> int \<Rightarrow> book \<Rightarrow> book option" where
  "book_post u app key amt b =
     (case bk_posted b (app, key) of
        Some (u', _) \<Rightarrow> if u' = u then Some b else None
      | None \<Rightarrow> Some \<lparr>bk_balance = (bk_balance b)((u, app) := bk_balance b (u, app) + amt),
                     bk_posted = (bk_posted b)((app, key) \<mapsto> (u, amt))\<rparr>)"

definition wallet_balance :: "'a wallet_db_scheme \<Rightarrow> string \<times> string \<Rightarrow> int" where
  "wallet_balance db o1 = (case active_wallet (fst o1) (snd o1) db of None \<Rightarrow> 0 | Some w \<Rightarrow> w_balance w)"

definition book_of :: "'a wallet_db_scheme \<Rightarrow> book" where
  "book_of db = \<lparr>bk_balance = wallet_balance db,
     bk_posted = (\<lambda>(app, key). map_option (\<lambda>l. (l_user l, l_amount l)) (find_ledger app key db))\<rparr>"

lemma active_wallet_key:
  "wallet_keys_ok db \<Longrightarrow> w \<in> set (wallets db) \<Longrightarrow> w_status w = ''active'' \<Longrightarrow>
     active_wallet (w_user w) (w_app w) db = Some w"
  unfolding active_wallet_def wallet_keys_ok_def
  using unique_onD [of "\<lambda>w. w_status w = ''active''" "\<lambda>w. (w_user w, w_app w)" "wallets db"]
  by (intro find_row_unique) auto

lemma ensure_wallet_book:
  assumes "ensure_wallet reg now wid acc u db = Inr (w, db')"
  shows "wallet_balance db' = wallet_balance db" "find_ledger app key db' = find_ledger app key db"
proof -
  show "wallet_balance db' = wallet_balance db"
    using assms
  proof (rule ensure_wallet_effect)
    fix sc
    assume "db' = db \<and> active_wallet u (sc_app sc) db = Some w \<or>
         active_wallet u (sc_app sc) db = None \<and> wid \<notin> w_id ` set (wallets db) \<and>
         acc \<notin> w_account ` set (wallets db) \<and>
         w = \<lparr>w_id = wid, w_account = acc, w_user = u, w_app = sc_app sc, w_balance = 0,
              w_status = ''active'', w_created = now, w_updated = now\<rparr> \<and>
         db' = db\<lparr>wallets := wallets db @ [w]\<rparr>"
    then show ?thesis
    proof (elim disjE conjE)
      assume n: "active_wallet u (sc_app sc) db = None"
        and w: "w = \<lparr>w_id = wid, w_account = acc, w_user = u, w_app = sc_app sc, w_balance = 0,
              w_status = ''active'', w_created = now, w_updated = now\<rparr>"
        and db': "db' = db\<lparr>wallets := wallets db @ [w]\<rparr>"
      have "active_wallet v app db' = (case active_wallet v app db of Some x \<Rightarrow> Some x
          | None \<Rightarrow> if v = u \<and> app = sc_app sc then Some w else None)" for v app
        by (simp add: active_wallet_def db' find_row_append w split: option.split)
      with n w show ?thesis
        by (auto simp: wallet_balance_def fun_eq_iff split: option.split)
    qed simp
  qed
  show "find_ledger app key db' = find_ledger app key db"
    using ensure_wallet_frame(2) [OF assms] by (simp add: find_ledger_def)
qed

lemma posted_balance:
  assumes k: "wallet_keys_ok db" and p: "postable l w db"
  shows "wallet_balance (posted l db) = (wallet_balance db)((l_user l, l_app l) :=
           wallet_balance db (l_user l, l_app l) + l_amount l)"
proof
  fix o1 :: "string \<times> string"
  obtain v app where o1: "o1 = (v, app)" by force
  define f where "f = (\<lambda>w. w\<lparr>w_balance := w_balance w + l_amount l, w_updated := l_created l\<rparr> :: wallet)"
  have w: "w \<in> set (wallets db)" "w_id w = l_wallet l" "w_app w = l_app l" "w_user w = l_user l" "w_status w = ''active''"
    using p by (simp_all add: postable_def)
  have act: "active_wallet (l_user l) (l_app l) db = Some w"
    using active_wallet_key [OF k w(1,5)] w by simp
  note k' = posted_keys [OF k p]
  have only: "x = w" if "x \<in> set (wallets db)" "w_id x = l_wallet l" for x
    using that w k unique_onD [of "\<lambda>_. True" w_id "wallets db" x w] by (simp add: wallet_keys_ok_def)
  have fw: "f w \<in> set (wallets (posted l db))"
    unfolding posted_def using w by (auto simp: set_update_where f_def intro!: image_eqI [of _ _ w])
  show "wallet_balance (posted l db) o1 = ((wallet_balance db)((l_user l, l_app l) :=
           wallet_balance db (l_user l, l_app l) + l_amount l)) o1"
  proof (cases "o1 = (l_user l, l_app l)")
    case True
    have "active_wallet (l_user l) (l_app l) (posted l db) = Some (f w)"
      using active_wallet_key [OF k' fw] w by (simp add: f_def)
    with act True show ?thesis by (simp add: wallet_balance_def f_def)
  next
    case False
    show ?thesis
    proof (cases "active_wallet v app db")
      case None
      then have "active_wallet v app (posted l db) = None"
        unfolding active_wallet_def find_row_None posted_def by (auto simp: set_update_where)
      with None False show ?thesis by (auto simp: wallet_balance_def o1)
    next
      case (Some x)
      note x = active_wallet_Some [OF Some]
      then have "x \<noteq> w" using False w o1 by auto
      then have "w_id x \<noteq> l_wallet l" using only x by blast
      then have "x \<in> set (wallets (posted l db))"
        unfolding posted_def using x by (auto simp: set_update_where intro!: image_eqI [of _ _ x])
      then have "active_wallet v app (posted l db) = Some x"
        using active_wallet_key [OF k', of x] x by simp
      with Some False show ?thesis by (auto simp: wallet_balance_def o1)
    qed
  qed
qed

text \<open>A posting does to the book what \<open>book_post\<close> says.\<close>

lemma posting_book:
  assumes a: "apply_wallet_ledger reg now wid lid po db = Inr (l, db')" and k: "wallet_keys_ok db"
    and sc: "require_billing_scope reg db (po_account po) (Some (po_user po)) = Inr sc"
    and key: "clean_text (Some (po_key po)) = Some key"
  shows "book_post (po_user po) (sc_app sc) key (po_amount po) (book_of db) = Some (book_of db')"
  using a k
proof (rule apply_wallet_ledger_effect)
  fix sc' key'
  assume "require_billing_scope reg db (po_account po) (Some (po_user po)) = Inr sc'"
    and "clean_text (Some (po_key po)) = Some key'"
    and "find_ledger (sc_app sc') key' db = Some l" and "l_user l = po_user po" and "db' = db"
  with sc key show ?thesis by (simp add: book_post_def book_of_def)
next
  fix sc' key' w db1
  assume sc': "require_billing_scope reg db (po_account po) (Some (po_user po)) = Inr sc'"
    and key': "clean_text (Some (po_key po)) = Some key'"
    and n: "find_ledger (sc_app sc') key' db = None"
    and e: "ensure_wallet reg now wid (po_account po) (po_user po) db = Inr (w, db1)"
    and p: "postable l w db1" and db': "db' = posted l db1"
    and l: "l_user l = po_user po" "l_app l = sc_app sc'" "l_key l = key'" "l_amount l = po_amount po"
  note b1 = ensure_wallet_book [OF e]
  note k1 = ensure_wallet_keys [OF k e]
  have "wallet_balance db' = (wallet_balance db)((po_user po, sc_app sc) :=
      wallet_balance db (po_user po, sc_app sc) + po_amount po)"
    using posted_balance [OF k1 p] sc sc' by (simp add: db' b1 l)
  moreover have "find_ledger app' k2 db' = (case find_ledger app' k2 db of Some r \<Rightarrow> Some r
      | None \<Rightarrow> if sc_app sc = app' \<and> key = k2 then Some l else None)" for app' k2
    using sc sc' key key' by (auto simp: db' find_ledger_posted b1 l split: option.split)
  ultimately show ?thesis
    using n sc sc' key key'
    by (auto simp: book_post_def book_of_def fun_eq_iff l split: option.split)
qed

section \<open>The wallet is such a book\<close>

record posting_req =
  rq_now :: int
  rq_wid :: string
  rq_lid :: string
  rq_po :: posting

definition run_posting :: "registry \<Rightarrow> posting_req \<Rightarrow> 'a wallet_db_scheme \<Rightarrow> 'a wallet_db_scheme option" where
  "run_posting reg r db =
     (case apply_wallet_ledger reg (rq_now r) (rq_wid r) (rq_lid r) (rq_po r) db of
        Inl _ \<Rightarrow> None | Inr (_, db') \<Rightarrow> Some db')"

text \<open>
  The product a posting is booked under, and its key, as the identity tables of \<open>db0\<close> resolve
  them; billing never changes those tables.
\<close>

definition posting_app :: "registry \<Rightarrow> 'a identity_db_scheme \<Rightarrow> posting_req \<Rightarrow> string" where
  "posting_app reg db0 r =
     (case require_billing_scope reg db0 (po_account (rq_po r)) (Some (po_user (rq_po r))) of
        Inl _ \<Rightarrow> [] | Inr sc \<Rightarrow> sc_app sc)"

definition posting_owner :: "registry \<Rightarrow> 'a identity_db_scheme \<Rightarrow> posting_req \<Rightarrow> string \<times> string" where
  "posting_owner reg db0 r = (po_user (rq_po r), posting_app reg db0 r)"

definition posting_key :: "registry \<Rightarrow> 'a identity_db_scheme \<Rightarrow> posting_req \<Rightarrow> string \<times> string" where
  "posting_key reg db0 r = (posting_app reg db0 r, or_else (clean_text (Some (po_key (rq_po r)))) [])"

definition key_used :: "'a wallet_db_scheme \<Rightarrow> string \<times> string \<Rightarrow> bool" where
  "key_used db k = (find_ledger (fst k) (snd k) db \<noteq> None)"

definition book_inv :: "registry \<Rightarrow> 'a wallet_db_scheme \<Rightarrow> 'a wallet_db_scheme \<Rightarrow> bool" where
  "book_inv reg db0 db = (registry_ok reg \<and> identity_ok db \<and> billing_ok db \<and> same_identity db0 db)"

lemma book_inv_refl: "registry_ok reg \<Longrightarrow> identity_ok db \<Longrightarrow> billing_ok db \<Longrightarrow> book_inv reg db db"
  by (simp add: book_inv_def)

text \<open>The charge of one usage event takes its price from one balance, once.\<close>

lemma charge_balance:
  assumes r: "record_charge reg now wid lid cid acc key ch db = Inr (v, db')" and k: "wallet_keys_ok db"
    and sc: "resolve_billing_scope reg db acc None True = Inr (Some sc)"
    and key: "clean_text (Some key) = Some key"
    and n: "find_cost (sc_app sc) key db = None" "find_ledger (sc_app sc) (''usage-charge-'' @ key) db = None"
  shows "wallet_balance db' = (wallet_balance db)((sc_user sc, sc_app sc) :=
           wallet_balance db (sc_user sc, sc_app sc) - ch_micros ch)"
    and "\<exists>c. find_cost (sc_app sc) key db' = Some c \<and> c_micros c = ch_micros ch \<and> c_account c = acc \<and>
           c_user c = Some (sc_user sc)"
proof -
  have "wallet_balance db' = (wallet_balance db)((sc_user sc, sc_app sc) :=
           wallet_balance db (sc_user sc, sc_app sc) - ch_micros ch) \<and>
        (\<exists>c. find_cost (sc_app sc) key db' = Some c \<and> c_micros c = ch_micros ch \<and> c_account c = acc \<and>
           c_user c = Some (sc_user sc))"
    using r
  proof (rule record_charge_effect)
    fix sc' w db1 l db2 c
    assume sc': "resolve_billing_scope reg db acc None True = Inr (Some sc')"
      and e: "ensure_wallet reg now wid acc (sc_user sc') db = Inr (w, db1)"
      and a: "apply_wallet_ledger reg now wid lid (charge_posting acc (sc_user sc') key ch) db1 = Inr (l, db2)"
      and db': "db' = db2\<lparr>costs := costs db2 @ [c]\<rparr>"
      and c: "c_account c = acc" "c_user c = Some (sc_user sc')" "c_app c = sc_app sc'" "c_key c = key"
        "c_micros c = ch_micros ch"
    from sc sc' have [simp]: "sc' = sc" by simp
    note k1 = ensure_wallet_keys [OF k e] and b1 = ensure_wallet_book [OF e]
    have rq: "require_billing_scope reg db1 (po_account (charge_posting acc (sc_user sc) key ch))
        (Some (po_user (charge_posting acc (sc_user sc) key ch))) = Inr sc"
      using optional_scope_required [OF sc] same_identity_require_scope [OF ensure_wallet_frame(1) [OF e], of reg acc]
      by (simp add: charge_posting_def)
    have ck: "clean_text (Some (po_key (charge_posting acc (sc_user sc) key ch))) = Some (''usage-charge-'' @ key)"
      using clean_text_prefix [OF key, of "''usage-charge-''"] by (simp add: charge_posting_def py_space_def)
    from a have a: "apply_wallet_ledger reg now wid lid (charge_posting acc (sc_user sc) key ch) db1 = Inr (l, db2)"
      by simp
    from posting_book [OF a k1 rq ck] have
      "book_post (sc_user sc) (sc_app sc) (''usage-charge-'' @ key) (- ch_micros ch) (book_of db1) = Some (book_of db2)"
      by (simp add: charge_posting_def)
    then have "bk_balance (book_of db2) = (bk_balance (book_of db1))((sc_user sc, sc_app sc) :=
        bk_balance (book_of db1) (sc_user sc, sc_app sc) - ch_micros ch)"
      using n(2) b1(2) by (auto simp: book_post_def book_of_def)
    then have "wallet_balance db2 = (wallet_balance db)((sc_user sc, sc_app sc) :=
           wallet_balance db (sc_user sc, sc_app sc) - ch_micros ch)"
      by (simp add: book_of_def b1)
    moreover have "wallet_balance db' = wallet_balance db2"
      by (simp add: db' wallet_balance_def active_wallet_def fun_eq_iff)
    moreover have "costs db2 = costs db"
      using apply_wallet_ledger_row(5) [OF a k1 rq] ensure_wallet_frame(3) [OF e] by simp
    then have "find_cost (sc_app sc) key db' = Some c"
      using n(1) c by (simp add: find_cost_def db' find_row_append)
    ultimately show ?thesis using c by simp
  qed (use sc n in auto)
  then show "wallet_balance db' = (wallet_balance db)((sc_user sc, sc_app sc) :=
           wallet_balance db (sc_user sc, sc_app sc) - ch_micros ch)"
    and "\<exists>c. find_cost (sc_app sc) key db' = Some c \<and> c_micros c = ch_micros ch \<and> c_account c = acc \<and>
           c_user c = Some (sc_user sc)"
    by blast+
qed

lemma charge_replay_state:
  assumes "record_charge reg now wid lid cid acc key ch db = Inr (v, db')"
    and "resolve_billing_scope reg db acc None True = Inr (Some sc)" and "find_cost (sc_app sc) key db = Some c"
  shows "db' = db"
  using assms(1) by (rule record_charge_effect) (use assms(2,3) in auto)

lemma or_else_clean: "clean_text v = Some k \<Longrightarrow> or_else (clean_text v) d = k"
  using clean_text_Some [of v k] by (simp add: or_else_def)

lemma run_posting_book:
  assumes i: "book_inv reg db0 db" and r: "run_posting reg r db = Some db'"
  shows "book_inv reg db0 db'"
    and "book_post (fst (posting_owner reg db0 r)) (fst (posting_key reg db0 r)) (snd (posting_key reg db0 r))
           (po_amount (rq_po r)) (book_of db) = Some (book_of db')"
proof -
  from r obtain l where l: "apply_wallet_ledger reg (rq_now r) (rq_wid r) (rq_lid r) (rq_po r) db = Inr (l, db')"
    by (auto simp: run_posting_def split: sum.splits)
  from i have ok: "registry_ok reg" "identity_ok db" "billing_ok db" and s: "same_identity db0 db"
    by (simp_all add: book_inv_def)
  from keepsD [OF apply_wallet_ledger_keeps ok l] ok s show "book_inv reg db0 db'"
    by (auto simp: book_inv_def dest!: append_only_identity intro: same_identity_trans)
  from ok have k: "wallet_keys_ok db" by (simp add: billing_ok_def)
  obtain sc key where sc: "require_billing_scope reg db (po_account (rq_po r)) (Some (po_user (rq_po r))) = Inr sc"
    and key: "clean_text (Some (po_key (rq_po r))) = Some key"
    using l k by (rule apply_wallet_ledger_effect)
  have "posting_app reg db0 r = sc_app sc"
    using sc same_identity_require_scope [OF s] by (simp add: posting_app_def)
  with posting_book [OF l k sc key] show "book_post (fst (posting_owner reg db0 r))
      (fst (posting_key reg db0 r)) (snd (posting_key reg db0 r)) (po_amount (rq_po r)) (book_of db) = Some (book_of db')"
    by (simp add: posting_owner_def posting_key_def or_else_clean [OF key])
qed

lemma book_of_sel: "bk_balance (book_of db) = wallet_balance db"
  "bk_posted (book_of db) k = None \<longleftrightarrow> \<not> key_used db k"
  by (simp_all add: book_of_def key_used_def split: prod.splits)

lemma book_post_cases:
  assumes "book_post u app key amt b = Some b'"
  shows "bk_posted b (app, key) \<noteq> None \<Longrightarrow> b' = b"
    and "bk_posted b (app, key) = None \<Longrightarrow>
           bk_balance b' = (bk_balance b)((u, app) := bk_balance b (u, app) + amt) \<and>
           bk_posted b' = (bk_posted b)((app, key) \<mapsto> (u, amt))"
  using assms by (auto simp: book_post_def split: if_splits)

interpretation wallet_book: idempotent_book "book_inv reg db0" "run_posting reg" "posting_owner reg db0"
  "posting_key reg db0" "\<lambda>r. po_amount (rq_po r)" wallet_balance key_used for reg db0
proof unfold_locales
  fix db r db' o1 k
  assume i: "book_inv reg db0 db" and r: "run_posting reg r db = Some db'"
  show "book_inv reg db0 db'" by (rule run_posting_book(1) [OF i r])
  note post = book_post_cases [OF run_posting_book(2) [OF i r]]
  have own: "fst (posting_key reg db0 r) = snd (posting_owner reg db0 r)"
    by (simp add: posting_key_def posting_owner_def)
  {
    assume "key_used db (posting_key reg db0 r)"
    then have p: "bk_posted (book_of db) (fst (posting_key reg db0 r), snd (posting_key reg db0 r)) \<noteq> None"
      by (simp add: book_of_sel)
    from post(1) [OF p] show "wallet_balance db' o1 = wallet_balance db o1"
      using book_of_sel(1) by metis
  }
  {
    assume "\<not> key_used db (posting_key reg db0 r)"
    then have p: "bk_posted (book_of db) (fst (posting_key reg db0 r), snd (posting_key reg db0 r)) = None"
      by (simp add: book_of_sel)
    from post(2) [OF p] show "wallet_balance db' o1 = wallet_balance db o1 +
        (if posting_owner reg db0 r = o1 then po_amount (rq_po r) else 0)"
      by (auto simp: book_of_sel own)
  }
  show "key_used db' k \<longleftrightarrow> key_used db k \<or> k = posting_key reg db0 r"
  proof (cases "key_used db (posting_key reg db0 r)")
    case True
    then have p: "bk_posted (book_of db) (fst (posting_key reg db0 r), snd (posting_key reg db0 r)) \<noteq> None"
      by (simp add: book_of_sel)
    from post(1) [OF p] book_of_sel(2) have "key_used db' k = key_used db k" by metis
    with True show ?thesis by auto
  next
    case False
    then have p: "bk_posted (book_of db) (fst (posting_key reg db0 r), snd (posting_key reg db0 r)) = None"
      by (simp add: book_of_sel)
    from post(2) [OF p] have "bk_posted (book_of db') k = None \<longleftrightarrow>
        k \<noteq> posting_key reg db0 r \<and> bk_posted (book_of db) k = None"
      by simp
    then show ?thesis by (auto simp: book_of_sel)
  qed
qed

end
