(* ===== verification/Reservations.thy ===== *)
theory Reservations
imports Wallet_Book
begin

text \<open>
  Fixed reservations: \<open>reserve_fixed_shells\<close> and \<open>release_fixed_shell_reservation\<close> together.
  A reservation is a negative posting that the guarded update lets through only when the balance
  covers it; its release is the opposite posting under the key \<open>release-\<close>\<open>key\<close>.
\<close>

section \<open>One reservation\<close>

definition reservation_row ::
  "int \<Rightarrow> string \<Rightarrow> string \<Rightarrow> string \<Rightarrow> string \<Rightarrow> int \<Rightarrow> string \<Rightarrow> string option \<Rightarrow> dict \<Rightarrow> wallet \<Rightarrow> ledger_row" where
  "reservation_row now lid acc u app amount key src meta w =
     \<lparr>l_id = lid, l_wallet = w_id w, l_account = acc, l_user = u, l_app = app,
      l_entry = ''debit'', l_source_type = ''fixed_reservation'', l_source = clean_text src,
      l_amount = - amount, l_after = w_balance w - amount, l_key = key, l_meta = Some meta, l_created = now\<rparr>"

lemma ensure_wallet_existing:
  assumes "require_billing_scope reg db acc (Some u) = Inr sc" and "active_wallet u (sc_app sc) db = Some w"
  shows "ensure_wallet reg now wid acc u db = Inr (w, db)"
  using assms by (simp add: ensure_wallet_def insert_wallet_def Let_def)

text \<open>
  A fresh reservation on an existing wallet: it raises exactly when the balance is short, and
  otherwise is the posting of its row.
\<close>

lemma reserve_existing:
  assumes ok: "billing_ok db" and sc: "require_billing_scope reg db acc (Some u) = Inr sc"
    and act: "active_wallet u (sc_app sc) db = Some w" and pos: "0 < amount"
    and key: "clean_text (Some ikey) = Some key" and fresh: "find_ledger (sc_app sc) key db = None"
    and lid: "lid \<notin> l_id ` set (ledger db)"
  shows "reserve_fixed_shells reg now wid lid acc u amount ikey src meta db =
    (if w_balance w < amount then Inl InsufficientWalletBalance
     else let l = reservation_row now lid acc u (sc_app sc) amount key src meta w
       in Inr (decode_ledger_row l, posted l db))"
proof -
  from ok have k: "wallet_keys_ok db" and rows: "wallet_rows_ok db" by (simp_all add: billing_ok_def)
  note w = active_wallet_Some [OF act]
  from rows w have bnd: "w_balance w < 2 ^ 63" by (simp add: wallet_rows_ok_def)
  let ?p = "reserve_guard w (sc_app sc) amount"
  have cnt: "count_where ?p (wallets db) = (if amount \<le> w_balance w then 1 else 0)"
    using w by (intro reserve_guard_count [OF k]) simp_all
  have only: "x = w" if "x \<in> set (wallets db)" "?p x" for x
    using that w k unique_onD [of "\<lambda>_. True" w_id "wallets db" x w]
    by (simp add: wallet_keys_ok_def reserve_guard_def)
  define f where "f = (\<lambda>x. x\<lparr>w_balance := w_balance x - amount, w_updated := now\<rparr> :: wallet)"
  have add: "add_balance ?p (- amount) now db = Inr (db\<lparr>wallets := update_where ?p f (wallets db)\<rparr>)"
    unfolding add_balance_Inr f_def using pos bnd by (auto simp: reserve_guard_def dest: only)
  show ?thesis
  proof (cases "w_balance w < amount")
    case True
    with cnt pos key sc fresh add show ?thesis
      by (simp add: reserve_unfold ensure_wallet_existing [OF sc act])
  next
    case False
    define l where "l = reservation_row now lid acc u (sc_app sc) amount key src meta w"
    have upd: "update_where ?p f (wallets db) =
          update_where (\<lambda>x. w_id x = w_id w \<and> w_app x = sc_app sc) f (wallets db)"
      using k w False by (intro update_where_key_cong [where k = w_id and r = w])
        (simp_all add: wallet_keys_ok_def reserve_guard_def)
    define db2 where "db2 = db\<lparr>wallets := update_where ?p f (wallets db)\<rparr>"
    have bw: "find_row (\<lambda>x. w_id x = w_id w \<and> w_app x = sc_app sc) (wallets db2) = Some (f w)"
      unfolding db2_def upd using k w by (simp, intro find_row_updated [where k = w_id])
        (simp_all add: wallet_keys_ok_def f_def)
    have l2: "ledger db2 = ledger db" by (simp add: db2_def)
    have lrec: "\<lparr>l_id = lid, l_wallet = w_id w, l_account = acc, l_user = u, l_app = sc_app sc,
        l_entry = ''debit'', l_source_type = ''fixed_reservation'', l_source = clean_text src,
        l_amount = - amount, l_after = w_balance (f w), l_key = key, l_meta = Some meta, l_created = now\<rparr> = l"
      by (simp add: l_def reservation_row_def f_def)
    have "insert_ledger l db2 = Inr (db2\<lparr>ledger := ledger db2 @ [l]\<rparr>)"
      unfolding insert_ledger_Inr l2 using lid fresh pos bnd False
      by (simp add: l_def reservation_row_def find_ledger_None)
    moreover have db3: "db2\<lparr>ledger := ledger db2 @ [l]\<rparr> = posted l db"
      by (simp add: posted_def db2_def upd [unfolded f_def] l_def reservation_row_def f_def)
    ultimately have ins: "insert_ledger l db2 = Inr (posted l db)" by simp
    have row: "find_row (\<lambda>x. l_id x = lid \<and> l_app x = sc_app sc) (ledger (posted l db)) = Some l"
      using lid by (simp add: find_row_last l_def reservation_row_def)
    have n: "\<not> amount \<le> 0" "count_where ?p (wallets db) = 1" using cnt pos False by simp_all
    have "reserve_fixed_shells reg now wid lid acc u amount ikey src meta db = Inr (decode_ledger_row l, posted l db)"
      unfolding reserve_unfold by (simp add: n key sc fresh ensure_wallet_existing [OF sc act]
          add [folded db2_def] bw lrec ins row del: posted_frame)
    with False show ?thesis by (simp add: l_def Let_def)
  qed
qed

section \<open>One posting on an existing wallet\<close>

definition posting_row ::
  "int \<Rightarrow> string \<Rightarrow> posting \<Rightarrow> string \<Rightarrow> string \<Rightarrow> wallet \<Rightarrow> ledger_row" where
  "posting_row now lid po app key w =
     \<lparr>l_id = lid, l_wallet = w_id w, l_account = po_account po, l_user = po_user po, l_app = app,
      l_entry = the (clean_text (Some (po_entry po))),
      l_source_type = the (clean_text (Some (po_source_type po))), l_source = clean_text (po_source po),
      l_amount = po_amount po, l_after = w_balance w + po_amount po, l_key = key,
      l_meta = Some (po_meta po), l_created = now\<rparr>"

lemma apply_existing:
  assumes ok: "billing_ok db"
    and sc: "require_billing_scope reg db (po_account po) (Some (po_user po)) = Inr sc"
    and act: "active_wallet (po_user po) (sc_app sc) db = Some w" and nz: "po_amount po \<noteq> 0"
    and entry: "clean_text (Some (po_entry po)) \<in> {Some ''credit'', Some ''debit''}"
    and st: "clean_text (Some (po_source_type po)) \<noteq> None"
    and key: "clean_text (Some (po_key po)) = Some key" and fresh: "find_ledger (sc_app sc) key db = None"
    and lid: "lid \<notin> l_id ` set (ledger db)" and amt: "- (2 ^ 63) \<le> po_amount po" "po_amount po < 2 ^ 63"
    and bnd: "- (2 ^ 63) \<le> w_balance w + po_amount po" "w_balance w + po_amount po < 2 ^ 63"
  shows "apply_wallet_ledger reg now wid lid po db =
    (let l = posting_row now lid po (sc_app sc) key w in Inr (l, posted l db))"
proof -
  from ok have k: "wallet_keys_ok db" by (simp add: billing_ok_def)
  note w = active_wallet_Some [OF act]
  let ?p = "\<lambda>x :: wallet. w_id x = w_id w \<and> w_app x = sc_app sc"
  have only: "x = w" if "x \<in> set (wallets db)" "?p x" for x
    using that w k unique_onD [of "\<lambda>_. True" w_id "wallets db" x w] by (simp add: wallet_keys_ok_def)
  define f where "f = (\<lambda>x. x\<lparr>w_balance := w_balance x + po_amount po, w_updated := now\<rparr> :: wallet)"
  define db2 where "db2 = db\<lparr>wallets := update_where ?p f (wallets db)\<rparr>"
  define l where "l = posting_row now lid po (sc_app sc) key w"
  have add: "add_balance ?p (po_amount po) now db = Inr db2"
    unfolding add_balance_Inr f_def db2_def using bnd only by blast
  have bw: "find_row ?p (wallets db2) = Some (f w)"
    unfolding db2_def using k w by (simp, intro find_row_updated [where k = w_id])
      (simp_all add: wallet_keys_ok_def f_def)
  have l2: "ledger db2 = ledger db" by (simp add: db2_def)
  have lrec: "\<lparr>l_id = lid, l_wallet = w_id w, l_account = po_account po, l_user = po_user po, l_app = sc_app sc,
      l_entry = the (clean_text (Some (po_entry po))),
      l_source_type = the (clean_text (Some (po_source_type po))), l_source = clean_text (po_source po),
      l_amount = po_amount po, l_after = w_balance (f w), l_key = key,
      l_meta = Some (po_meta po), l_created = now\<rparr> = l"
    by (simp add: l_def posting_row_def f_def)
  have "insert_ledger l db2 = Inr (db2\<lparr>ledger := ledger db2 @ [l]\<rparr>)"
    unfolding insert_ledger_Inr l2 using lid fresh amt bnd
    by (simp add: l_def posting_row_def find_ledger_None)
  moreover have "db2\<lparr>ledger := ledger db2 @ [l]\<rparr> = posted l db"
    by (simp add: posted_def db2_def l_def posting_row_def f_def)
  ultimately have ins: "insert_ledger l db2 = Inr (posted l db)" by simp
  have row: "find_row (\<lambda>x. l_id x = lid \<and> l_app x = sc_app sc) (ledger (posted l db)) = Some l"
    using lid by (simp add: find_row_last l_def posting_row_def)
  have e: "\<not> (clean_text (Some (po_entry po)) \<noteq> Some ''credit'' \<and> clean_text (Some (po_entry po)) \<noteq> Some ''debit'')"
    "clean_text (Some (po_source_type po)) \<noteq> None" "clean_text (Some (po_key po)) \<noteq> None"
    "the (clean_text (Some (po_key po))) = key"
    using entry st key by auto
  have "apply_wallet_ledger reg now wid lid po db = Inr (l, posted l db)"
    unfolding apply_wallet_ledger_def
    by (simp only: nz e if_False sc and_then_simps Let_def fresh option.case
        ensure_wallet_existing [OF sc act] prod.case w simp_thms add bw lrec ins row)
  then show ?thesis by (simp add: l_def Let_def)
qed

section \<open>Reserve, then release\<close>

lemma release_key_ne: "release_key k \<noteq> k"
proof
  assume "release_key k = k"
  then have "length (release_key k) = length k" by simp
  then show False by (simp add: release_key_def)
qed

lemma posted_wallet:
  assumes k: "wallet_keys_ok db" and p: "postable l w db"
  shows "active_wallet (l_user l) (l_app l) (posted l db) =
    Some (w\<lparr>w_balance := w_balance w + l_amount l, w_updated := l_created l\<rparr>)"
proof -
  let ?w = "w\<lparr>w_balance := w_balance w + l_amount l, w_updated := l_created l\<rparr>"
  have w: "w \<in> set (wallets db)" "w_id w = l_wallet l" "w_app w = l_app l" "w_user w = l_user l" "w_status w = ''active''"
    using p by (simp_all add: postable_def)
  have "?w \<in> set (wallets (posted l db))"
    unfolding posted_def using w by (auto simp: set_update_where intro!: image_eqI [of _ _ w])
  from active_wallet_key [OF posted_keys [OF k p] this] w show ?thesis by simp
qed

lemma reservation_postable:
  assumes ok: "billing_ok db" and act: "active_wallet u app db = Some w" and pos: "0 < amount"
    and fresh: "find_ledger app key db = None" and lid: "lid \<notin> l_id ` set (ledger db)"
    and enough: "amount \<le> w_balance w"
  shows "postable (reservation_row now lid acc u app amount key src meta w) w db"
proof -
  note w = active_wallet_Some [OF act]
  from ok w have "w_balance w < 2 ^ 63" by (simp add: billing_ok_def wallet_rows_ok_def)
  with w fresh lid pos enough show ?thesis
    by (auto simp: postable_def reservation_row_def find_ledger_None)
qed

text \<open>
  The release of a reservation just made: it succeeds, gives the amount back, and a second
  release finds its posting and changes nothing.
\<close>

lemma release_after_reserve:
  assumes reg: "registry_ok reg" and id: "identity_ok db" and ok: "billing_ok db"
    and sc: "require_billing_scope reg db acc (Some u) = Inr sc"
    and act: "active_wallet u (sc_app sc) db = Some w" and pos: "0 < amount" and enough: "amount \<le> w_balance w"
    and key: "clean_text (Some ikey) = Some key" and fresh: "find_ledger (sc_app sc) key db = None"
    and rfresh: "find_ledger (sc_app sc) (release_key key) db = None"
    and lid: "lid \<notin> l_id ` set (ledger db)" and lid2: "lid2 \<notin> l_id ` set (ledger db)" "lid2 \<noteq> lid"
    and l: "l = reservation_row now lid acc u (sc_app sc) amount key src meta w"
  obtains r db2 where "release_fixed_shell_reservation reg now2 wid2 lid2 acc u ikey (posted l db) =
      Inr (decode_ledger_row r, db2)"
    and "wallet_balance db2 = wallet_balance db"
    and "find_ledger (sc_app sc) (release_key key) db2 = Some r" and "find_ledger (sc_app sc) key db2 = Some l"
    and "same_identity db db2" and "billing_ok db2" and "l_user r = u"
proof -
  have p: "postable l w db" unfolding l by (rule reservation_postable [OF ok act pos fresh lid enough])
  have k: "wallet_keys_ok db" using ok by (simp add: billing_ok_def)
  let ?db1 = "posted l db"
  have id1: "same_identity db ?db1" by simp
  have lf: "l_user l = u" "l_app l = sc_app sc" "l_key l = key" "l_amount l = - amount" "l_account l = acc"
    "l_source_type l = ''fixed_reservation''" "l_id l = lid"
    by (simp_all add: l reservation_row_def)
  have sc1: "require_billing_scope reg ?db1 acc (Some u) = Inr sc"
    using sc same_identity_require_scope [OF id1, of reg acc] by simp
  have "in_scope db (l_account l) (l_user l) (l_app l)"
    using require_scope_in_scope(1) [OF id reg sc] by (simp add: lf)
  from posted_ok [OF ok p this] have ok1: "billing_ok ?db1" .
  have k1: "wallet_keys_ok ?db1" using ok1 by (simp add: billing_ok_def)
  define w1 where "w1 = w\<lparr>w_balance := w_balance w + l_amount l, w_updated := l_created l\<rparr>"
  have act1: "active_wallet u (sc_app sc) ?db1 = Some w1"
    using posted_wallet [OF k p] by (simp add: lf w1_def)
  have none: "find_row (\<lambda>x. l_app x = sc_app sc \<and> l_key x = key \<and> l_source_type x = ''fixed_reservation'' \<and>
        l_account x = acc \<and> l_user x = u) (ledger db) = None"
    using fresh by (auto simp: find_ledger_None find_row_None image_iff)
  have rv: "find_row (\<lambda>x. l_app x = sc_app sc \<and> l_key x = key \<and> l_source_type x = ''fixed_reservation'' \<and>
        l_account x = acc \<and> l_user x = u) (ledger ?db1) = Some l"
    by (simp add: find_row_append none lf)
  let ?po = "release_posting acc u key l"
  have po: "po_account ?po = acc" "po_user ?po = u" "po_amount ?po = amount" "po_key ?po = release_key key"
    "clean_text (Some (po_entry ?po)) \<in> {Some ''credit'', Some ''debit''}"
    "clean_text (Some (po_source_type ?po)) \<noteq> None"
    by (simp_all add: release_posting_def lf clean_text_def py_strip_def py_space_def)
  have rkey: "clean_text (Some (po_key ?po)) = Some (release_key key)"
    using release_key_clean [OF key] by (simp add: po)
  have rf1: "find_ledger (sc_app sc) (release_key key) ?db1 = None"
    using rfresh release_key_ne by (simp add: find_ledger_posted lf) (metis release_key_ne)
  have bal: "w_balance w1 = w_balance w - amount" by (simp add: w1_def lf)
  from ok active_wallet_Some [OF act] have bnd: "- (2 ^ 63) \<le> w_balance w" "w_balance w < 2 ^ 63"
    by (simp_all add: billing_ok_def wallet_rows_ok_def)
  define r where "r = posting_row now2 lid2 ?po (sc_app sc) (release_key key) w1"
  have ap: "apply_wallet_ledger reg now2 wid2 lid2 ?po ?db1 = Inr (r, posted r ?db1)"
    using apply_existing [of ?db1 reg ?po sc w1 "release_key key" lid2 now2 wid2] ok1 sc1 act1 pos po rkey rf1
      lid2 bal bnd enough by (simp add: r_def Let_def lf)
  have rel: "release_fixed_shell_reservation reg now2 wid2 lid2 acc u ikey ?db1 =
      Inr (decode_ledger_row r, posted r ?db1)"
    unfolding release_fixed_shell_reservation_def release_posting_def [symmetric]
    by (simp only: sc1 and_then_simps key option.case rv ap prod.case)
  have pr: "postable r w1 ?db1"
    using active_wallet_Some [OF act1] rf1 lid2 pos bal bnd enough po
    by (auto simp: postable_def r_def posting_row_def find_ledger_None lf)
  have rfields: "l_user r = u" "l_app r = sc_app sc" "l_key r = release_key key" "l_amount r = amount" "l_account r = acc"
    by (simp_all add: r_def posting_row_def po)
  have sr: "in_scope ?db1 (l_account r) (l_user r) (l_app r)"
    using require_scope_in_scope(1) [OF id reg sc] by (simp add: rfields same_identity_in_scope [OF id1])
  show thesis
  proof (rule that [OF rel])
    show "wallet_balance (posted r ?db1) = wallet_balance db"
      by (simp add: posted_balance [OF k1 pr] posted_balance [OF k p] rfields lf)
    show "find_ledger (sc_app sc) (release_key key) (posted r ?db1) = Some r"
      by (simp add: find_ledger_posted rf1 [unfolded find_ledger_posted] rfields)
    show "find_ledger (sc_app sc) key (posted r ?db1) = Some l"
      by (simp add: find_ledger_posted fresh lf)
    show "same_identity db (posted r ?db1)"
      by (rule same_identity_trans [OF id1]) simp
    show "billing_ok (posted r ?db1)" by (rule posted_ok [OF ok1 pr sr])
    show "l_user r = u" by (rule rfields)
  qed
qed

section \<open>Reservations never overdraw\<close>

text \<open>
  The traffic of a product that charges by reservation alone: grants (which do not pose as
  reservations), reservations and releases, in any order, by anyone.
\<close>

inductive prepaid_step :: "registry \<Rightarrow> 'a wallet_db_scheme \<Rightarrow> 'a wallet_db_scheme \<Rightarrow> bool" for reg where
  PGrant: "grant_shells reg now wid lid po db = Inr (v, db') \<Longrightarrow>
    clean_text (Some (po_source_type po)) \<noteq> Some ''fixed_reservation'' \<Longrightarrow> prepaid_step reg db db'"
| PReserve: "reserve_fixed_shells reg now wid lid acc u amount key src meta db = Inr (v, db') \<Longrightarrow>
    prepaid_step reg db db'"
| PRelease: "release_fixed_shell_reservation reg now wid lid acc u key db = Inr (v, db') \<Longrightarrow>
    prepaid_step reg db db'"

inductive_cases prepaid_stepE: "prepaid_step reg db db'"

definition covered :: "'a wallet_db_scheme \<Rightarrow> bool" where
  "covered db = ((\<forall>w \<in> set (wallets db). 0 \<le> w_balance w) \<and>
     (\<forall>l \<in> set (ledger db). l_source_type l = ''fixed_reservation'' \<longrightarrow> l_amount l < 0))"

lemma covered_ensure:
  assumes "ensure_wallet reg now wid acc u db = Inr (w, db')" and "covered db"
  shows "covered db'"
  using assms(1) by (rule ensure_wallet_effect) (use assms(2) in \<open>auto simp: covered_def\<close>)

lemma covered_posted:
  assumes c: "covered db" and k: "wallet_keys_ok db" and p: "postable l w db"
    and a: "0 \<le> w_balance w + l_amount l" and st: "l_source_type l = ''fixed_reservation'' \<longrightarrow> l_amount l < 0"
  shows "covered (posted l db)"
proof -
  have only: "x = w" if "x \<in> set (wallets db)" "w_id x = l_wallet l" for x
    using that p k unique_onD [of "\<lambda>_. True" w_id "wallets db" x w]
    by (simp add: wallet_keys_ok_def postable_def)
  show ?thesis
    using c a st only unfolding covered_def by (auto simp: posted_def set_update_where)
qed

lemma covered_apply:
  assumes c: "covered db" and ap: "apply_wallet_ledger reg now wid lid po db = Inr (l, db')"
    and k: "wallet_keys_ok db" and pos: "0 < po_amount po"
    and st: "clean_text (Some (po_source_type po)) \<noteq> Some ''fixed_reservation''"
  shows "covered db'"
  using ap k
proof (rule apply_wallet_ledger_effect)
  assume "db' = db"
  with c show ?thesis by simp
next
  fix sc key w db1
  assume sc: "require_billing_scope reg db (po_account po) (Some (po_user po)) = Inr sc"
    and key: "clean_text (Some (po_key po)) = Some key" and n: "find_ledger (sc_app sc) key db = None"
    and e: "ensure_wallet reg now wid (po_account po) (po_user po) db = Inr (w, db1)"
    and p: "postable l w db1" and db': "db' = posted l db1" and l: "l_amount l = po_amount po"
    and src: "clean_text (Some (po_source_type po)) = Some (l_source_type l)"
  note c1 = covered_ensure [OF e c] and k1 = ensure_wallet_keys [OF k e]
  from st src have "l_source_type l \<noteq> ''fixed_reservation''" by auto
  moreover have "0 \<le> w_balance w" using c1 p by (simp add: covered_def postable_def)
  ultimately show ?thesis
    unfolding db' using pos by (intro covered_posted [OF c1 k1 p]) (simp_all add: l)
qed

lemma prepaid_covered:
  assumes s: "prepaid_step reg db db'" and c: "covered db" and k: "wallet_keys_ok db"
  shows "covered db'"
  using s
proof (cases rule: prepaid_step.cases)
  case (PGrant now wid lid po v)
  then obtain l where "apply_wallet_ledger reg now wid lid (po\<lparr>po_entry := ''credit''\<rparr>) db = Inr (l, db')"
    and "0 < po_amount po"
    by (auto simp: grant_shells_def and_then_Inr split: if_splits)
  then show ?thesis
    using covered_apply [OF c _ k] PGrant(2) by (metis (no_types, lifting) posting.select_convs(3,5)
        posting.surjective posting.update_convs(4))
next
  case (PReserve now wid lid acc u amount key src meta v)
  from PReserve(1) k show ?thesis
  proof (rule reserve_effect)
    assume "db' = db"
    with c show ?thesis by simp
  next
    fix sc ck w db1 l
    assume pos: "0 < amount" and e: "ensure_wallet reg now wid acc u db = Inr (w, db1)"
      and enough: "amount \<le> w_balance w" and p: "postable l w db1" and db': "db' = posted l db1"
      and l: "l = \<lparr>l_id = lid, l_wallet = w_id w, l_account = acc, l_user = u, l_app = sc_app sc,
              l_entry = ''debit'', l_source_type = ''fixed_reservation'',
              l_source = clean_text src, l_amount = - amount, l_after = w_balance w - amount,
              l_key = ck, l_meta = Some meta, l_created = now\<rparr>"
    show ?thesis
      unfolding db' using enough pos
      by (intro covered_posted [OF covered_ensure [OF e c] ensure_wallet_keys [OF k e] p]) (simp_all add: l)
  qed
next
  case (PRelease now wid lid acc u key v)
  from PRelease(1) obtain ck rv l where rv: "rv \<in> set (ledger db)" "l_source_type rv = ''fixed_reservation''"
    and a: "apply_wallet_ledger reg now wid lid (release_posting acc u ck rv) db = Inr (l, db')"
    by (rule release_effect)
  from c rv have "0 < po_amount (release_posting acc u ck rv)"
    by (simp add: covered_def release_posting_def)
  then show ?thesis
    by (rule covered_apply [OF c a k]) (simp add: release_posting_def clean_text_def py_strip_def py_space_def)
qed

lemma prepaid_billing: "prepaid_step reg db db' \<Longrightarrow> billing_step reg db db'"
  by (auto elim!: prepaid_stepE intro: billing_step.intros)

lemma prepaid_run:
  assumes "(prepaid_step reg)\<^sup>*\<^sup>* db db'" and "registry_ok reg" "identity_ok db" "billing_ok db" "covered db"
  shows "covered db' \<and> billing_ok db' \<and> identity_ok db'"
  using assms
proof (induction rule: rtranclp_induct)
  case base
  then show ?case by simp
next
  case (step y z)
  then have y: "covered y" "billing_ok y" "identity_ok y" by simp_all
  then have "covered z" using prepaid_covered [OF step(2)] by (simp add: billing_ok_def)
  with billing_step_ok [OF prepaid_billing [OF step(2)] step(4) y(3,2)] show ?case by simp
qed

end
