(* ===== verification/Samples.thy ===== *)
theory Samples
imports Reservations
begin

text \<open>
  Small concrete states on which the witnesses evaluate the operations: one user with a \<open>zhaoxi\<close>
  account and a \<open>plum\<close> account, before and after a grant of five shells.
\<close>

definition sample_user :: platform_user where
  "sample_user = \<lparr>u_id = ''user_1'', u_phone = ''13800000000'', u_name = None, u_avatar = None,
     u_status = ''active''\<rparr>"

definition sample_membership :: "string \<Rightarrow> membership" where
  "sample_membership app = \<lparr>m_user = ''user_1'', m_app = app, m_status = MActive, m_daily_limit = None,
     m_rpm_limit = None, m_settings = Some [], m_created = 0\<rparr>"

definition sample_account :: "string \<Rightarrow> string \<Rightarrow> account" where
  "sample_account i app = \<lparr>a_id = i, a_channel = None, a_name = None, a_status = ''active'', a_app = app,
     a_daily_limit = None, a_rpm_limit = None\<rparr>"

definition sample_binding :: "int \<Rightarrow> string \<Rightarrow> string \<Rightarrow> owner_binding" where
  "sample_binding i acc app = \<lparr>b_id = i, b_user = ''user_1'', b_account = acc, b_method = ''web'',
     b_status = ''active'', b_app = app, b_created = i\<rparr>"

definition sample_db :: wallet_db where
  "sample_db = \<lparr>users = [sample_user], memberships = [sample_membership ''zhaoxi'', sample_membership ''plum''],
     accounts = [sample_account ''acc_1'' ''zhaoxi'', sample_account ''acc_2'' ''plum''],
     bindings = [sample_binding 1 ''acc_1'' ''zhaoxi'', sample_binding 2 ''acc_2'' ''plum''],
     ownerships = [], universes = [], residents = [],
     subscriptions = [], wallets = [], ledger = [], costs = []\<rparr>"

definition sample_grant :: posting where
  "sample_grant = \<lparr>po_account = ''acc_1'', po_user = ''user_1'', po_amount = 5000000, po_entry = ''credit'',
     po_source_type = ''manual'', po_source = None, po_key = ''grant-1'', po_meta = []\<rparr>"

definition sample_wallet :: wallet where
  "sample_wallet = \<lparr>w_id = ''wallet_1'', w_account = ''acc_1'', w_user = ''user_1'', w_app = ''zhaoxi'',
     w_balance = 5000000, w_status = ''active'', w_created = 10, w_updated = 10\<rparr>"

definition sample_row :: ledger_row where
  "sample_row = \<lparr>l_id = ''ledger_1'', l_wallet = ''wallet_1'', l_account = ''acc_1'', l_user = ''user_1'',
     l_app = ''zhaoxi'', l_entry = ''credit'', l_source_type = ''manual'', l_source = None,
     l_amount = 5000000, l_after = 5000000, l_key = ''grant-1'', l_meta = Some [], l_created = 10\<rparr>"

definition funded_db :: wallet_db where
  "funded_db = sample_db\<lparr>wallets := [sample_wallet], ledger := [sample_row]\<rparr>"

lemma sample_identity: "identity_ok sample_db"
  by code_simp

lemma sample_ok: "billing_ok sample_db"
  by code_simp

lemma funded_identity: "identity_ok funded_db"
  by code_simp

lemma funded_ok: "billing_ok funded_db"
  by code_simp

lemma funded_covered: "covered funded_db"
  by code_simp

lemma sample_scope:
  "require_billing_scope production_products sample_db ''acc_1'' (Some ''user_1'') =
     Inr \<lparr>sc_account = ''acc_1'', sc_user = ''user_1'', sc_app = ''zhaoxi''\<rparr>"
  by code_simp

lemma funded_scope:
  "require_billing_scope production_products funded_db ''acc_1'' (Some ''user_1'') =
     Inr \<lparr>sc_account = ''acc_1'', sc_user = ''user_1'', sc_app = ''zhaoxi''\<rparr>"
  by code_simp

lemma sample_granted:
  "apply_wallet_ledger production_products 10 ''wallet_1'' ''ledger_1'' sample_grant sample_db =
     Inr (sample_row, funded_db)"
  by code_simp

end
