(* ===== verification/Billing_Properties.thy ===== *)
theory Billing_Properties
imports Samples
begin

text \<open>
  What the billing component guarantees, stated over the operations of \<^verbatim>\<open>Wallet\<close>. Each
  property is followed by a witness that applies it at a concrete state of \<^verbatim>\<open>Samples\<close>.
\<close>

section \<open>The contract of every history\<close>

text \<open>C28: in every state that billing transactions can reach, whatever their arguments and order, all
  of the migrations' violation counts are zero: no row without product, at most one active wallet and
  subscription per user and product, no row outside its account, membership, wallet or ledger row, no
  duplicate idempotency key, and every wallet's balance is the sum of its ledger.\<close>

theorem billing_contract_reachable:
  assumes "(billing_step reg)\<^sup>*\<^sup>* db db'" and "registry_ok reg" and "identity_ok db" and "billing_ok db"
  shows "list_all (\<lambda>(check, n). n = 0) (billing_contract_violation_counts db' @
           billing_idempotency_contract_violation_counts db')"
proof -
  from billing_run_ok [OF assms] have "identity_ok db'" "billing_ok db'" by simp_all
  from billing_ok_counts [OF this] show ?thesis by (auto simp: list_all_iff)
qed

lemma sample_step: "(billing_step production_products)\<^sup>*\<^sup>* sample_db funded_db"
  using billing_step.Posting [OF sample_granted] by blast

theorem billing_contract_reachable_witness:
  "list_all (\<lambda>(check, n). n = 0) (billing_contract_violation_counts funded_db @
     billing_idempotency_contract_violation_counts funded_db)"
  by (rule billing_contract_reachable [OF sample_step production_products_ok sample_identity sample_ok])

text \<open>The ledger is an audit trail. In every reachable state the \<open>balance_after_shell_micros\<close>
  of every row is the sum of the amounts of its wallet up to and including that row.\<close>

theorem ledger_trail_reachable:
  assumes "(billing_step reg)\<^sup>*\<^sup>* db db'" and "registry_ok reg" and "identity_ok db" and "billing_ok db"
    and "n < length (ledger db')"
  shows "l_after (ledger db' ! n) = row_total (ledger db' ! n) (take (Suc n) (ledger db'))"
  using billing_run_ok [OF assms(1-4)] assms(5)
  by (simp add: billing_ok_def trail_ok_def list_all_iff)

theorem ledger_trail_reachable_witness:
  "l_after (ledger funded_db ! 0) = row_total (ledger funded_db ! 0) (take (Suc 0) (ledger funded_db))"
  by (rule ledger_trail_reachable [OF sample_step production_products_ok sample_identity sample_ok])
    (simp add: funded_db_def)

section \<open>Idempotent postings\<close>

fun run_postings :: "registry \<Rightarrow> posting_req list \<Rightarrow> 'a wallet_db_scheme \<Rightarrow> 'a wallet_db_scheme option" where
  "run_postings reg [] db = Some db"
| "run_postings reg (r # rs) db =
     (case run_posting reg r db of None \<Rightarrow> None | Some db' \<Rightarrow> run_postings reg rs db')"

lemma run_postings_book: "run_postings reg rs db = wallet_book.run_all reg rs db"
  by (induction rs arbitrary: db) (simp_all split: option.split)

text \<open>C32: refinement. A posting that succeeds acts on the abstract account book, which knows only
  the balance of each user in each product and the keys posted under, exactly as \<open>book_post\<close> does:
  a new key moves one balance by the amount, a used key moves nothing.\<close>

theorem posting_refines:
  assumes "apply_wallet_ledger reg now wid lid po db = Inr (l, db')" and "billing_ok db"
    and "require_billing_scope reg db (po_account po) (Some (po_user po)) = Inr sc"
    and "clean_text (Some (po_key po)) = Some key"
  shows "book_post (po_user po) (sc_app sc) key (po_amount po) (book_of db) = Some (book_of db')"
  using posting_book [OF assms(1) _ assms(3,4)] assms(2) by (simp add: billing_ok_def)

theorem posting_refines_witness:
  "book_post ''user_1'' ''zhaoxi'' ''grant-1'' 5000000 (book_of sample_db) = Some (book_of funded_db)"
proof -
  have "clean_text (Some (po_key sample_grant)) = Some ''grant-1''" by code_simp
  from posting_refines [OF sample_granted sample_ok _ this,
      of "\<lparr>sc_account = ''acc_1'', sc_user = ''user_1'', sc_app = ''zhaoxi''\<rparr>"]
  show ?thesis using sample_scope by (simp add: sample_grant_def)
qed

text \<open>C34: replaying any part of a history of postings, in any order and any number of times, leaves
  every balance of every user in every product as it is.\<close>

theorem postings_replay:
  assumes "registry_ok reg" and "identity_ok db" and "billing_ok db"
    and "run_postings reg rs db = Some db1" and "run_postings reg qs db1 = Some db2"
    and "posting_key reg db ` set qs \<subseteq> posting_key reg db ` set rs"
  shows "wallet_balance db2 o1 = wallet_balance db1 o1"
  by (rule wallet_book.replay [OF book_inv_refl [OF assms(1-3)] assms(4,5) [unfolded run_postings_book] assms(6)])

definition sample_req :: "string \<Rightarrow> posting_req" where
  "sample_req lid = \<lparr>rq_now = 10, rq_wid = ''wallet_1'', rq_lid = lid, rq_po = sample_grant\<rparr>"

theorem postings_replay_witness:
  "run_postings production_products [sample_req ''ledger_2'', sample_req ''ledger_3''] funded_db = Some funded_db \<and>
   wallet_balance funded_db (''user_1'', ''zhaoxi'') = 5000000"
proof -
  have 1: "run_postings production_products [sample_req ''ledger_1''] sample_db = Some funded_db"
    by (simp add: run_posting_def sample_req_def sample_granted)
  have 2: "run_posting production_products (sample_req lid) funded_db = Some funded_db" for lid
    using funded_scope
    by (simp add: run_posting_def sample_req_def apply_wallet_ledger_def sample_grant_def Let_def funded_db_def
        find_ledger_def sample_row_def clean_text_def py_strip_def py_space_def)
  then have 3: "run_postings production_products [sample_req ''ledger_2'', sample_req ''ledger_3''] funded_db =
      Some funded_db" by simp
  have "posting_key production_products sample_db ` set [sample_req ''ledger_2'', sample_req ''ledger_3''] \<subseteq>
      posting_key production_products sample_db ` set [sample_req ''ledger_1'']"
    by (simp add: posting_key_def posting_app_def sample_req_def)
  from postings_replay [OF production_products_ok sample_identity sample_ok 1 3 this]
  have "wallet_balance funded_db (''user_1'', ''zhaoxi'') = wallet_balance funded_db (''user_1'', ''zhaoxi'')" .
  moreover have "wallet_balance funded_db (''user_1'', ''zhaoxi'') = 5000000" by code_simp
  ultimately show ?thesis using 3 by simp
qed

text \<open>Postings under different keys commute: two orders of the same requests, both of which
  commit, end with the same balances.\<close>

theorem postings_commute:
  assumes "registry_ok reg" and "identity_ok db" and "billing_ok db"
    and "run_postings reg rs db = Some db1" and "run_postings reg qs db = Some db2"
    and "mset qs = mset rs" and "distinct (map (posting_key reg db) rs)"
  shows "wallet_balance db1 o1 = wallet_balance db2 o1"
  by (rule wallet_book.order_irrelevant
      [OF book_inv_refl [OF assms(1-3)] assms(4,5) [unfolded run_postings_book] assms(6,7)])

definition sample_req2 :: posting_req where
  "sample_req2 = \<lparr>rq_now = 11, rq_wid = ''wallet_2'', rq_lid = ''ledger_9'',
     rq_po = sample_grant\<lparr>po_key := ''grant-2'', po_amount := 7\<rparr>\<rparr>"

theorem postings_commute_witness:
  "\<exists>db1 db2. run_postings production_products [sample_req ''ledger_1'', sample_req2] sample_db = Some db1 \<and>
     run_postings production_products [sample_req2, sample_req ''ledger_1''] sample_db = Some db2 \<and>
     wallet_balance db1 (''user_1'', ''zhaoxi'') = wallet_balance db2 (''user_1'', ''zhaoxi'')"
proof -
  have "run_postings production_products [sample_req ''ledger_1'', sample_req2] sample_db \<noteq> None"
    "run_postings production_products [sample_req2, sample_req ''ledger_1''] sample_db \<noteq> None"
    by code_simp+
  then obtain db1 db2 where
    1: "run_postings production_products [sample_req ''ledger_1'', sample_req2] sample_db = Some db1" and
    2: "run_postings production_products [sample_req2, sample_req ''ledger_1''] sample_db = Some db2"
    by auto
  have "distinct (map (posting_key production_products sample_db) [sample_req ''ledger_1'', sample_req2])"
    by code_simp
  from postings_commute [OF production_products_ok sample_identity sample_ok 1 2 _ this] 1 2
  show ?thesis by auto
qed

section \<open>Reservations\<close>

text \<open>C30: prepaid traffic never overdraws. From a state whose balances are not negative, any
  sequence of grants, reservations and releases, by any users and in any order, keeps every wallet's
  balance at zero or above.\<close>

theorem prepaid_never_overdraws:
  assumes "(prepaid_step reg)\<^sup>*\<^sup>* db db'" and "registry_ok reg" and "identity_ok db" and "billing_ok db"
    and "covered db" and "w \<in> set (wallets db')"
  shows "0 \<le> w_balance w"
  using prepaid_run [OF assms(1-5)] assms(6) by (simp add: covered_def)

definition sample_reserve :: "int \<Rightarrow> wallet_db \<Rightarrow> (ledger_view \<times> wallet_db) res" where
  "sample_reserve amount db = reserve_fixed_shells production_products 20 ''wallet_9'' ''ledger_2'' ''acc_1''
     ''user_1'' amount '' turn-1 '' None [] db"

definition reserved_db :: wallet_db where
  "reserved_db = posted (reservation_row 20 ''ledger_2'' ''acc_1'' ''user_1'' ''zhaoxi'' 3000000 ''turn-1'' None []
     sample_wallet) funded_db"

lemma sample_reserved: "\<exists>v. sample_reserve 3000000 funded_db = Inr (v, reserved_db)"
proof -
  have "(case sample_reserve 3000000 funded_db of Inl _ \<Rightarrow> False | Inr (_, d) \<Rightarrow> d = reserved_db)" by code_simp
  then show ?thesis by (auto split: sum.splits)
qed

theorem prepaid_never_overdraws_witness:
  "wallets reserved_db \<noteq> [] \<and> 0 \<le> w_balance (hd (wallets reserved_db))"
proof -
  have "(prepaid_step production_products)\<^sup>*\<^sup>* funded_db reserved_db"
    using sample_reserved prepaid_step.PReserve unfolding sample_reserve_def by blast
  moreover have "wallets reserved_db \<noteq> []" by code_simp
  ultimately show ?thesis
    using prepaid_never_overdraws [OF _ production_products_ok funded_identity funded_ok funded_covered,
        of reserved_db "hd (wallets reserved_db)"] by simp
qed

text \<open>A reservation under a new key on a user's wallet succeeds exactly when the balance covers
  the amount, and then takes the amount; otherwise it raises \<open>InsufficientWalletBalance\<close> and,
  like every error, leaves the database as it was.\<close>

theorem reserve_exact:
  assumes "billing_ok db" and "require_billing_scope reg db acc (Some u) = Inr sc"
    and "active_wallet u (sc_app sc) db = Some w" and "0 < amount"
    and "clean_text (Some ikey) = Some key" and "find_ledger (sc_app sc) key db = None"
    and "lid \<notin> l_id ` set (ledger db)"
  shows "run_tx (reserve_fixed_shells reg now wid lid acc u amount ikey src meta) db =
    (if w_balance w < amount then (Inl InsufficientWalletBalance, db)
     else let l = reservation_row now lid acc u (sc_app sc) amount key src meta w
       in (Inr (decode_ledger_row l), posted l db))"
  by (simp add: run_tx_def reserve_existing [OF assms] Let_def)

lemma funded_wallet: "active_wallet ''user_1'' ''zhaoxi'' funded_db = Some sample_wallet"
  by code_simp

lemma turn_key: "clean_text (Some '' turn-1 '') = Some ''turn-1''"
  by code_simp

theorem reserve_exact_witness:
  "run_tx (sample_reserve 5000001) funded_db = (Inl InsufficientWalletBalance, funded_db) \<and>
   snd (run_tx (sample_reserve 3000000) funded_db) = reserved_db"
proof -
  let ?sc = "\<lparr>sc_account = ''acc_1'', sc_user = ''user_1'', sc_app = ''zhaoxi''\<rparr>"
  have f: "find_ledger ''zhaoxi'' ''turn-1'' funded_db = None" "''ledger_2'' \<notin> l_id ` set (ledger funded_db)"
    by (simp_all add: find_ledger_def funded_db_def sample_row_def)
  have "run_tx (sample_reserve n) funded_db = (if w_balance sample_wallet < n
     then (Inl InsufficientWalletBalance, funded_db)
     else let l = reservation_row 20 ''ledger_2'' ''acc_1'' ''user_1'' ''zhaoxi'' n ''turn-1'' None [] sample_wallet
       in (Inr (decode_ledger_row l), posted l funded_db))" if "0 < n" for n
    using reserve_exact [OF funded_ok funded_scope _ that turn_key _ f(2), of sample_wallet 20 "''wallet_9''" None "[]"]
      funded_wallet f(1) unfolding sample_reserve_def by simp
  then show ?thesis by (simp add: sample_wallet_def reserved_db_def Let_def)
qed

text \<open>C31: a reservation is given back exactly once. The release of a reservation just made succeeds
  and restores every balance; releasing it again succeeds and changes nothing; and the key of a
  released reservation is refused for ever after.\<close>

theorem reserve_release_once:
  assumes reg: "registry_ok reg" and id: "identity_ok db" and ok: "billing_ok db"
    and sc: "require_billing_scope reg db acc (Some u) = Inr sc"
    and act: "active_wallet u (sc_app sc) db = Some w" and pos: "0 < amount" and enough: "amount \<le> w_balance w"
    and key: "clean_text (Some ikey) = Some key" and fresh: "find_ledger (sc_app sc) key db = None"
    and rfresh: "find_ledger (sc_app sc) (release_key key) db = None"
    and lid: "lid \<notin> l_id ` set (ledger db)" and lid2: "lid2 \<notin> l_id ` set (ledger db)" "lid2 \<noteq> lid"
    and db1: "db1 = posted (reservation_row now lid acc u (sc_app sc) amount key src meta w) db"
  shows "\<exists>v db2. release_fixed_shell_reservation reg now2 wid2 lid2 acc u ikey db1 = Inr (v, db2) \<and>
    wallet_balance db2 = wallet_balance db \<and>
    release_fixed_shell_reservation reg now3 wid3 lid3 acc u ikey db2 = Inr (v, db2) \<and>
    reserve_fixed_shells reg now4 wid4 lid4 acc u amount ikey src4 meta4 db2 = Inl FixedShellReservationReleased"
proof -
  define l where "l = reservation_row now lid acc u (sc_app sc) amount key src meta w"
  obtain r db2 where rel: "release_fixed_shell_reservation reg now2 wid2 lid2 acc u ikey (posted l db) =
      Inr (decode_ledger_row r, db2)"
    and bal: "wallet_balance db2 = wallet_balance db"
    and fr: "find_ledger (sc_app sc) (release_key key) db2 = Some r" and fl: "find_ledger (sc_app sc) key db2 = Some l"
    and same: "same_identity db db2" and ok2: "billing_ok db2" and ru: "l_user r = u"
    using release_after_reserve [OF reg id ok sc act pos enough key fresh rfresh lid lid2 l_def] by metis
  have lf: "l_user l = u" "l_app l = sc_app sc" "l_key l = key" "l_amount l = - amount" "l_account l = acc"
    "l_source_type l = ''fixed_reservation''"
    by (simp_all add: l_def reservation_row_def)
  have sc2: "require_billing_scope reg db2 acc (Some u) = Inr sc"
    using sc same_identity_require_scope [OF same, of reg acc] by simp
  have keys: "unique_on (\<lambda>_. True) (\<lambda>l. (l_app l, l_key l)) (ledger db2)"
    using ok2 by (simp add: billing_ok_def wallet_keys_ok_def)
  have rv: "find_row (\<lambda>x. l_app x = sc_app sc \<and> l_key x = key \<and> l_source_type x = ''fixed_reservation'' \<and>
        l_account x = acc \<and> l_user x = u) (ledger db2) = Some l"
    using find_ledger_Some [OF fl] lf unique_onD [OF keys] by (intro find_row_unique) auto
  have "release_fixed_shell_reservation reg now3 wid3 lid3 acc u ikey db2 = Inr (decode_ledger_row r, db2)"
    unfolding release_fixed_shell_reservation_def release_posting_def [symmetric]
    using sc2 key rv lf pos fr ru release_key_clean [OF key] find_ledger_Some [OF fr]
    by (simp add: apply_wallet_ledger_def release_posting_def Let_def clean_text_def [of "Some ''credit''"]
        clean_text_def [of "Some ''fixed_reservation_release''"] py_strip_def py_space_def)
  moreover have "reserve_fixed_shells reg now4 wid4 lid4 acc u amount ikey src4 meta4 db2 =
      Inl FixedShellReservationReleased"
    using pos key sc2 fl fr lf by (simp add: reserve_unfold)
  ultimately show ?thesis using rel bal unfolding db1 l_def [symmetric] by blast
qed

theorem reserve_release_once_witness:
  "\<exists>v db2. release_fixed_shell_reservation production_products 30 ''wallet_9'' ''ledger_3'' ''acc_1'' ''user_1''
      ''turn-1'' reserved_db = Inr (v, db2) \<and> wallet_balance db2 = wallet_balance funded_db"
proof -
  have f: "find_ledger ''zhaoxi'' ''turn-1'' funded_db = None"
    "find_ledger ''zhaoxi'' (release_key ''turn-1'') funded_db = None"
    "''ledger_2'' \<notin> l_id ` set (ledger funded_db)" "''ledger_3'' \<notin> l_id ` set (ledger funded_db)"
    by (simp_all add: find_ledger_def funded_db_def sample_row_def release_key_def)
  have k: "clean_text (Some ''turn-1'') = Some ''turn-1''" by code_simp
  from reserve_release_once [OF production_products_ok funded_identity funded_ok funded_scope _ _ _ k _ _ f(3,4),
      of sample_wallet 3000000 reserved_db 20 None "[]" 30 "''wallet_9''" 31 "''wallet_9''" "''ledger_4''" 32
      "''wallet_9''" "''ledger_5''" None "[]"]
  show ?thesis using funded_wallet f(1,2) by (auto simp: sample_wallet_def reserved_db_def)
qed

section \<open>Grants and charges\<close>

text \<open>The new-user grant is given once per user and product for ever: after it, and after any
  further billing traffic, granting it again changes nothing, also through another of the user's
  accounts in the product.\<close>

theorem new_user_grant_once:
  assumes "registry_ok reg" and "identity_ok db" and "billing_ok db"
    and sc: "require_billing_scope reg db acc (Some u) = Inr sc"
    and sc': "require_billing_scope reg db acc' (Some u) = Inr sc'" and app: "sc_app sc' = sc_app sc"
    and g1: "grant_new_user_shells reg now wid lid acc u db = Inr (v, db1)"
    and run: "(billing_step reg)\<^sup>*\<^sup>* db1 db2"
    and g2: "grant_new_user_shells reg now' wid' lid' acc' u db2 = Inr (v', db3)"
    and k: "clean_text (Some u) = Some u"
  shows "db3 = db2 \<and> v' = v"
proof -
  note ok = assms(1-3)
  define po where "po = (\<lambda>a. \<lparr>po_account = a, po_user = u, po_amount = NEW_USER_GRANT_SHELL_MICROS,
    po_entry = ''credit'', po_source_type = ''new_user_grant'', po_source = Some a,
    po_key = new_user_grant_key (sc_app sc) u,
    po_meta = [(''grant_shells'', JInt NEW_USER_GRANT_SHELLS), (''app_id'', JStr (sc_app sc))]\<rparr>)"
  have key: "clean_text (Some (po_key (po a))) = Some (new_user_grant_key (sc_app sc) u)" for a
    using clean_text_prefix [OF k, of "''new-user-grant-''"]
      clean_text_prefix [OF k, of "''new-user-grant-'' @ sc_app sc @ ''-''"]
    by (auto simp: po_def new_user_grant_key_def py_space_def)
  have unfold: "grant_new_user_shells reg n w i a u d = Inr (x, d') \<Longrightarrow>
      require_billing_scope reg d a (Some u) = Inr s \<Longrightarrow> sc_app s = sc_app sc \<Longrightarrow>
      \<exists>l. apply_wallet_ledger reg n w i (po a) d = Inr (l, d') \<and> x = decode_ledger_row l" for n w i a d x d' s
    by (auto simp: grant_new_user_shells_def grant_shells_def po_def and_then_Inr split: if_splits)
  have ps: "require_billing_scope reg d (po_account (po a)) (Some (po_user (po a))) =
      require_billing_scope reg d a (Some u)" for a and d :: "'a wallet_db_scheme"
    by (simp add: po_def)
  from unfold [OF g1 sc refl] obtain l where l: "apply_wallet_ledger reg now wid lid (po acc) db = Inr (l, db1)"
    and v: "v = decode_ledger_row l" by blast
  have kdb: "wallet_keys_ok db" using ok by (simp add: billing_ok_def)
  have f1: "find_ledger (sc_app sc) (new_user_grant_key (sc_app sc) u) db1 = Some l"
    using l kdb
  proof (rule apply_wallet_ledger_effect)
    fix s key' w d1
    assume "require_billing_scope reg db (po_account (po acc)) (Some (po_user (po acc))) = Inr s"
      and "clean_text (Some (po_key (po acc))) = Some key'" and n: "find_ledger (sc_app s) key' db = None"
      and e: "ensure_wallet reg now wid (po_account (po acc)) (po_user (po acc)) db = Inr (w, d1)"
      and db1: "db1 = posted l d1" and lf: "l_app l = sc_app s" "l_key l = key'"
    then show ?thesis
      using sc key ensure_wallet_book(2) [OF e] by (simp add: db1 find_ledger_posted ps)
  qed (use sc key in \<open>auto simp: ps\<close>)
  from keepsD [OF new_user_grant_keeps ok g1]
  have ok1: "billing_ok db1" "append_only db db1" "identity_ok db1" by simp_all
  from billing_run_ok [OF run ok(1) ok1(3,1)] have a12: "append_only db1 db2" and ok2: "billing_ok db2" by simp_all
  have f2: "find_ledger (sc_app sc) (new_user_grant_key (sc_app sc) u) db2 = Some l"
    by (rule append_only_find [OF a12 f1])
  have sc2: "require_billing_scope reg db2 acc' (Some u) = Inr sc'"
    using sc' same_identity_require_scope [OF append_only_identity [OF append_only_trans [OF ok1(2) a12]], of reg acc']
    by simp
  from unfold [OF g2 sc2 app] obtain l' where l': "apply_wallet_ledger reg now' wid' lid' (po acc') db2 = Inr (l', db3)"
    and v': "v' = decode_ledger_row l'" by blast
  have "db3 = db2 \<and> l' = l"
    using l' by (rule apply_wallet_ledger_effect)
      (use ok2 sc2 app key f2 in \<open>auto simp: billing_ok_def ps\<close>)
  then show ?thesis by (simp add: v v')
qed

definition result_state :: "('r \<times> 's) res \<Rightarrow> 's option" where
  "result_state x = (case x of Inl _ \<Rightarrow> None | Inr (_, s) \<Rightarrow> Some s)"

lemma result_stateD: "result_state x = Some s \<Longrightarrow> \<exists>r. x = Inr (r, s)"
  by (auto simp: result_state_def split: sum.splits)

lemma result_state_ne: "result_state x \<noteq> None \<Longrightarrow> \<exists>r s. x = Inr (r, s)"
  by (auto simp: result_state_def split: sum.splits)

definition sample_new_user :: "wallet_db \<Rightarrow> (ledger_view \<times> wallet_db) res" where
  "sample_new_user db = grant_new_user_shells production_products 20 ''wallet_9'' ''ledger_2'' ''acc_1'' ''user_1'' db"

theorem new_user_grant_once_witness:
  "\<exists>v db1. sample_new_user funded_db = Inr (v, db1) \<and> sample_new_user db1 = Inr (v, db1) \<and>
     wallet_balance db1 (''user_1'', ''zhaoxi'') = 1005000000"
proof -
  have "(case sample_new_user funded_db of Inl _ \<Rightarrow> False | Inr (v, db1) \<Rightarrow>
      wallet_balance db1 (''user_1'', ''zhaoxi'') = 1005000000 \<and> result_state (sample_new_user db1) \<noteq> None)"
    by code_simp
  from case_res_ex [OF this] obtain v db1 where 1: "sample_new_user funded_db = Inr (v, db1)"
    and 2: "wallet_balance db1 (''user_1'', ''zhaoxi'') = 1005000000" and "result_state (sample_new_user db1) \<noteq> None"
    by blast
  from result_state_ne [OF this(3)] obtain v' db2 where 3: "sample_new_user db1 = Inr (v', db2)" by blast
  have k: "clean_text (Some ''user_1'') = Some ''user_1''" by code_simp
  from new_user_grant_once [OF production_products_ok funded_identity funded_ok funded_scope funded_scope refl
      1 [unfolded sample_new_user_def] rtranclp.rtrancl_refl 3 [unfolded sample_new_user_def] k]
  show ?thesis using 1 2 3 by auto
qed

text \<open>C33: a chat turn is charged exactly once and exactly its price. A charge under a new key takes
  \<open>ceil(tokens * multiplier / 1000)\<close> micros from the owner's wallet in the account's product and from no
  other wallet, and a retry under the same key changes nothing.\<close>

theorem chat_charge_exact:
  assumes ok: "billing_ok db" and sc: "resolve_billing_scope reg db acc None True = Inr (Some sc)"
    and key: "clean_text (Some ikey) = Some key"
    and n: "find_cost (sc_app sc) key db = None" "find_ledger (sc_app sc) (''usage-charge-'' @ key) db = None"
    and t: "0 \<le> inp" "0 \<le> out" "0 \<le> factor" "(inp + out) * factor < 2 ^ 43 * 1000" "0 < (inp + out) * factor"
    and r: "record_chat_usage_charge reg now wid lid cid acc model ms reply st src ikey (Some inp) (Some out) factor
      meta db = Inr (v, db1)"
    and r2: "record_chat_usage_charge reg now' wid' lid' cid' acc model ms reply st src ikey (Some inp) (Some out) factor
      meta db1 = Inr (v', db2)"
    and id: "registry_ok reg" "identity_ok db"
  shows "wallet_balance db1 = (wallet_balance db)((sc_user sc, sc_app sc) :=
           wallet_balance db (sc_user sc, sc_app sc) - ((inp + out) * factor + 999) div 1000) \<and> db2 = db1"
proof -
  have price: "shell_micros_for_tokens (max 0 inp + max 0 out) factor = Inr (((inp + out) * factor + 999) div 1000)"
    using shell_micros_exact [of "inp + out" factor] t by simp
  have pos: "0 < ((inp + out) * factor + 999) div 1000" using t(5) by linarith
  define ch where "ch = \<lparr>ch_type = ''llm_tokens'', ch_entry_source = ''usage_charge'',
             ch_source_type = Some st, ch_source = src, ch_model = Some model,
             ch_input = inp, ch_output = out, ch_tokens = max 0 inp + max 0 out, ch_multiplier = factor,
             ch_micros = ((inp + out) * factor + 999) div 1000,
             ch_meta = dict_update [(''estimated'', JBool False), (''input_tokens'', JInt inp),
               (''output_tokens'', JInt out), (''billable_tokens'', JInt (max 0 inp + max 0 out)),
               (''model'', JStr model)] meta\<rparr>"
  have unfold: "record_chat_usage_charge reg nw w l c acc model ms reply st src ikey (Some inp) (Some out) factor
      meta d = record_charge reg nw w l c acc key ch d" for nw w l c d
    using pos by (simp add: record_chat_usage_charge_def key price ch_def Let_def)
  have k: "wallet_keys_ok db" using ok by (simp add: billing_ok_def)
  have ckey: "clean_text (Some key) = Some key" using clean_text_stable [of "Some ikey"] key by simp
  note b = charge_balance [OF r [unfolded unfold] k sc ckey n]
  from b(2) obtain c where c: "find_cost (sc_app sc) key db1 = Some c" by blast
  have same: "same_identity db db1"
    using keepsD [OF record_charge_keeps id ok r [unfolded unfold]] append_only_identity by blast
  have "resolve_billing_scope reg db1 acc None True = Inr (Some sc)"
    using sc same_identity_scope [OF same, of reg acc] by simp
  from charge_replay_state [OF r2 [unfolded unfold] this c] b(1) show ?thesis by (simp add: ch_def)
qed

definition sample_charge :: "wallet_db \<Rightarrow> (charge_result option \<times> wallet_db) res" where
  "sample_charge db = record_chat_usage_charge production_products 20 ''wallet_9'' ''ledger_2'' ''cost_1'' ''acc_1''
     ''m'' [] None ''chat'' None ''turn-1'' (Some 1500) (Some 499) 1000500 [] db"

lemma sample_charge_unfold:
  "sample_charge db = record_charge production_products 20 ''wallet_9'' ''ledger_2'' ''cost_1'' ''acc_1'' ''turn-1''
     \<lparr>ch_type = ''llm_tokens'', ch_entry_source = ''usage_charge'', ch_source_type = Some ''chat'',
      ch_source = None, ch_model = Some ''m'', ch_input = 1500, ch_output = 499, ch_tokens = 1999,
      ch_multiplier = 1000500, ch_micros = 2000000,
      ch_meta = [(''estimated'', JBool False), (''input_tokens'', JInt 1500), (''output_tokens'', JInt 499),
        (''billable_tokens'', JInt 1999), (''model'', JStr ''m'')]\<rparr> db"
proof -
  have "clean_text (Some ''turn-1'') = Some ''turn-1''" by code_simp
  moreover have "shell_micros_for_tokens 1999 1000500 = Inr 2000000"
    using shell_micros_exact [of 1999 1000500] by simp
  ultimately show ?thesis by (simp add: sample_charge_def record_chat_usage_charge_def)
qed

theorem chat_charge_exact_witness:
  "\<exists>v db1. sample_charge funded_db = Inr (v, db1) \<and> result_state (sample_charge db1) = Some db1 \<and>
     wallet_balance db1 (''user_1'', ''zhaoxi'') = 5000000 - 2000000"
proof -
  have "(case sample_charge funded_db of Inl _ \<Rightarrow> False | Inr (v, db1) \<Rightarrow> result_state (sample_charge db1) \<noteq> None)"
    unfolding sample_charge_unfold by code_simp
  from case_res_ex [OF this] obtain v db1 where 1: "sample_charge funded_db = Inr (v, db1)"
    and "result_state (sample_charge db1) \<noteq> None" by blast
  from result_state_ne [OF this(2)] obtain v' db2 where 2: "sample_charge db1 = Inr (v', db2)" by blast
  let ?sc = "\<lparr>sc_account = ''acc_1'', sc_user = ''user_1'', sc_app = ''zhaoxi''\<rparr>"
  have sc: "resolve_billing_scope production_products funded_db ''acc_1'' None True = Inr (Some ?sc)" by code_simp
  have k: "clean_text (Some ''turn-1'') = Some ''turn-1''" by code_simp
  have n: "find_cost (sc_app ?sc) ''turn-1'' funded_db = None"
    "find_ledger (sc_app ?sc) (''usage-charge-'' @ ''turn-1'') funded_db = None"
    by (simp_all add: find_cost_def find_ledger_def funded_db_def sample_db_def sample_row_def)
  from chat_charge_exact [OF funded_ok sc k n _ _ _ _ _ 1 [unfolded sample_charge_def] 2 [unfolded sample_charge_def]
      production_products_ok funded_identity]
  have "wallet_balance db1 (''user_1'', ''zhaoxi'') = wallet_balance funded_db (''user_1'', ''zhaoxi'') - 2000000 \<and>
      db2 = db1"
    by simp
  moreover have "wallet_balance funded_db (''user_1'', ''zhaoxi'') = 5000000" by code_simp
  ultimately show ?thesis using 1 2 by (simp add: result_state_def)
qed

section \<open>Scope and money\<close>

text \<open>Billing scopes fail closed. A scope is resolved only for an existing account with an owner,
  a registered and enabled product and an active membership of the owner in that product, and never
  for another user than the one the caller names.\<close>

theorem billing_scope_fails_closed:
  assumes "resolve_billing_scope reg db acc u allow_missing = Inr (Some sc)"
  shows "scope_ok db sc \<and> sc_account sc = acc \<and> (u = None \<or> u = Some (sc_user sc)) \<and>
    (\<exists>p. require_enabled reg (sc_app sc) = Inr p)"
  using resolve_scope_Some [OF assms] by blast

theorem billing_scope_fails_closed_witness:
  "scope_ok funded_db \<lparr>sc_account = ''acc_1'', sc_user = ''user_1'', sc_app = ''zhaoxi''\<rparr>"
  using billing_scope_fails_closed [of production_products funded_db "''acc_1''" "Some ''user_1''" False]
    funded_scope by (simp add: require_scope_Inr)

text \<open>The shell amounts that clients see lose nothing: the decimal string of an amount of micros,
  negative amounts included, reads back as that amount.\<close>

theorem shell_amount_roundtrip: "parse_shell_amount (format_shell_amount m) = m"
  by (rule parse_format_shell)

text \<open>C36: the price of tokens, which the code computes with a float division and \<open>math.ceil\<close>, is the
  exact quotient rounded up for every price below 2^43 micros (more than eight million shells).\<close>

theorem token_price_exact:
  assumes "0 \<le> tokens" and "0 \<le> factor" and "tokens * factor < 2 ^ 43 * 1000"
  shows "shell_micros_for_tokens tokens factor = Inr ((tokens * factor + 999) div 1000)"
  by (rule shell_micros_exact [OF assms])

theorem token_price_exact_witness: "shell_micros_for_tokens 1234 1500001 = Inr 1851002"
  using token_price_exact [of 1234 1500001] by simp

end
