(* ===== verification/Quota.thy ===== *)
theory Quota
imports Complex_Main Identity
begin

text \<open>
  Admission control: the daily message quota of a user in a product (reservation, confirmation,
  rollback and expiry, \<^verbatim>\<open>app/db/accounts.py\<close>) and the sliding-window request limit
  (\<^verbatim>\<open>app/platform/quota/rate_limiter.py\<close>). Both check and insert under a transaction-level
  advisory lock on their subject, so that the checks of one subject run one after another. The
  definitions here are whole transactions; confirmations, rollbacks and sweeps take no lock, and
  \<^verbatim>\<open>Quota_Race\<close> splits the reservation into the statements they can come between. Times are seconds; \<open>hit_at\<close>, a float in the
  code, is a rational number here.
\<close>

section \<open>Tables\<close>

record usage_row =
  du_account :: string
  du_user :: string
  du_app :: string
  du_date :: string
  du_count :: int

record reservation =
  qr_id :: string
  qr_user :: string
  qr_app :: string
  qr_date :: string
  qr_account :: string
  qr_expires :: int

record rpm_hit =
  h_subject :: string
  h_at :: rat

record quota_db = identity_db +
  daily_usage :: "usage_row list"
  reservations :: "reservation list"
  rpm_hits :: "rpm_hit list"

section \<open>Scope and limits\<close>

record quota_scope =
  qs_user :: "string option"
  qs_subject :: string
  qs_app :: string

definition owner_in_app :: "'a identity_db_scheme \<Rightarrow> string \<Rightarrow> string \<Rightarrow> string \<Rightarrow> bool" where
  "owner_in_app db acc u app =
     (list_ex (\<lambda>b. b_account b = acc \<and> b_user b = u \<and> b_status b = ''active'' \<and> b_app b = app) (bindings db) \<or>
      list_ex (\<lambda>r. rs_runtime r = Some acc \<and>
         list_ex (\<lambda>v. uv_id v = rs_universe r \<and> uv_owner v = u) (universes db)) (residents db) \<or>
      list_ex (\<lambda>x. ro_account x = acc \<and> ro_user x = u \<and> ro_app x = app \<and> ro_status x = ''active'') (ownerships db))"

definition resolve_quota_scope ::
  "'a identity_db_scheme \<Rightarrow> string \<Rightarrow> bool \<Rightarrow> quota_scope option res" where
  "resolve_quota_scope db acc allow_missing =
     (case find_account db acc of
        None \<Rightarrow> if allow_missing then Inr None else Inl (ValueError ''account not found'')
      | Some a \<Rightarrow>
         (case resolve_owner_platform_user_id db acc of
            None \<Rightarrow> Inr (Some \<lparr>qs_user = None, qs_subject = acc, qs_app = a_app a\<rparr>)
          | Some u \<Rightarrow>
              if \<not> owner_in_app db acc u (a_app a) then Inl (ValueError ''quota scope mismatch'')
              else (case get_product_membership db u (a_app a) of
                 None \<Rightarrow> Inl (ValueError ''active product membership required'')
               | Some m \<Rightarrow> if m_status m \<noteq> MActive
                          then Inl (ValueError ''active product membership required'')
                          else Inr (Some \<lparr>qs_user = Some u, qs_subject = u, qs_app = a_app a\<rparr>))))"

definition require_quota_scope :: "'a identity_db_scheme \<Rightarrow> string \<Rightarrow> quota_scope res" where
  "require_quota_scope db acc = and_then (resolve_quota_scope db acc False) (\<lambda>s.
     case s of None \<Rightarrow> Inl (RuntimeError ''assert scope is not None'') | Some sc \<Rightarrow> Inr sc)"

record effective_limits =
  el_daily :: int
  el_rpm :: int
  el_source :: string
  el_user :: "string option"
  el_app :: "string option"
  el_subject :: "string option"

definition or_default :: "int option \<Rightarrow> int \<Rightarrow> int" where
  "or_default v d = (case v of None \<Rightarrow> d | Some n \<Rightarrow> n)"

definition resolve_effective_quota_limits ::
  "'a identity_db_scheme \<Rightarrow> string \<Rightarrow> int \<Rightarrow> int \<Rightarrow> effective_limits res" where
  "resolve_effective_quota_limits db acc default_daily default_rpm =
     (case find_account db acc of
        None \<Rightarrow> Inr \<lparr>el_daily = default_daily, el_rpm = default_rpm, el_source = ''default'',
                   el_user = None, el_app = None, el_subject = None\<rparr>
      | Some a \<Rightarrow> and_then (require_quota_scope db acc) (\<lambda>sc.
          case qs_user sc of
            None \<Rightarrow> Inr \<lparr>el_daily = or_default (a_daily_limit a) default_daily,
                       el_rpm = or_default (a_rpm_limit a) default_rpm, el_source = ''orphan_account'',
                       el_user = None, el_app = Some (a_app a), el_subject = Some (qs_subject sc)\<rparr>
          | Some u \<Rightarrow>
             (case find_row (\<lambda>m. m_user m = u \<and> m_app m = a_app a \<and> m_status m = MActive) (memberships db) of
                None \<Rightarrow> Inl (ValueError ''active product membership required'')
              | Some m \<Rightarrow> Inr \<lparr>el_daily = or_default (m_daily_limit m) default_daily,
                       el_rpm = or_default (m_rpm_limit m) default_rpm, el_source = ''product_membership'',
                       el_user = Some u, el_app = Some (a_app a), el_subject = Some (qs_subject sc)\<rparr>)))"

section \<open>Daily usage\<close>

definition usage_of :: "'a quota_db_scheme \<Rightarrow> string \<Rightarrow> string \<Rightarrow> string \<Rightarrow> usage_row option" where
  "usage_of db u app date =
     find_row (\<lambda>d. du_user d = u \<and> du_app d = app \<and> du_date d = date) (daily_usage db)"

definition get_daily_usage :: "'a quota_db_scheme \<Rightarrow> string \<Rightarrow> string \<Rightarrow> int res" where
  "get_daily_usage db acc date = and_then (resolve_quota_scope db acc True) (\<lambda>s. case s of
     None \<Rightarrow> Inr 0
   | Some sc \<Rightarrow> Inr (case usage_of db (qs_subject sc) (qs_app sc) date of
                      None \<Rightarrow> 0 | Some d \<Rightarrow> du_count d))"

text \<open>
  \<open>INSERT ... ON CONFLICT(platform_user_id, app_id, date) DO UPDATE SET message_count =
  message_count + 1\<close>. The baseline's \<open>UNIQUE(account_id, date)\<close> is still in force and is no
  arbiter of the statement, so a conflict on it raises.
\<close>

definition increment_daily_usage_in_scope ::
  "string \<Rightarrow> string \<Rightarrow> string \<Rightarrow> string \<Rightarrow> 'a quota_db_scheme \<Rightarrow> (int \<times> 'a quota_db_scheme) res" where
  "increment_daily_usage_in_scope acc u app date db = and_then
     (case usage_of db u app date of
        Some d \<Rightarrow> and_then (bigint (du_count d + 1)) (\<lambda>_.
          Inr (db\<lparr>daily_usage := update_where
            (\<lambda>d. du_user d = u \<and> du_app d = app \<and> du_date d = date)
            (\<lambda>d. d\<lparr>du_count := du_count d + 1\<rparr>) (daily_usage db)\<rparr>))
      | None \<Rightarrow>
          if list_ex (\<lambda>d. du_account d = acc \<and> du_date d = date) (daily_usage db)
          then Inl (IntegrityError ''daily_usage_account_id_date_key'')
          else Inr (db\<lparr>daily_usage := daily_usage db @
            [\<lparr>du_account = acc, du_user = u, du_app = app, du_date = date, du_count = 1\<rparr>]\<rparr>))
     (\<lambda>db'. Inr (case usage_of db' u app date of None \<Rightarrow> 1 | Some d \<Rightarrow> du_count d, db'))"

definition increment_daily_usage ::
  "string \<Rightarrow> string \<Rightarrow> 'a quota_db_scheme \<Rightarrow> (int \<times> 'a quota_db_scheme) res" where
  "increment_daily_usage acc date db = and_then (require_quota_scope db acc)
     (\<lambda>sc. increment_daily_usage_in_scope acc (qs_subject sc) (qs_app sc) date db)"

definition get_usage_last_7_days :: "'a quota_db_scheme \<Rightarrow> string \<Rightarrow> (string \<times> int) list res" where
  "get_usage_last_7_days db acc = and_then (resolve_quota_scope db acc True) (\<lambda>s. case s of
     None \<Rightarrow> Inr []
   | Some sc \<Rightarrow> Inr (map (\<lambda>d. (du_date d, du_count d)) (take 7 (order_desc du_date
       (filter (\<lambda>d. du_user d = qs_subject sc \<and> du_app d = qs_app sc) (daily_usage db))))))"

section \<open>Reservations\<close>

definition reserved_count :: "'a quota_db_scheme \<Rightarrow> string \<Rightarrow> string \<Rightarrow> string \<Rightarrow> nat" where
  "reserved_count db u app date =
     count_where (\<lambda>r. qr_user r = u \<and> qr_app r = app \<and> qr_date r = date) (reservations db)"

definition used_count :: "'a quota_db_scheme \<Rightarrow> string \<Rightarrow> string \<Rightarrow> string \<Rightarrow> int" where
  "used_count db u app date = (case usage_of db u app date of None \<Rightarrow> 0 | Some d \<Rightarrow> du_count d)"

definition reserve_daily_quota ::
  "int \<Rightarrow> string \<Rightarrow> string \<Rightarrow> string \<Rightarrow> int \<Rightarrow> int \<Rightarrow> 'a quota_db_scheme \<Rightarrow>
     (string option \<times> 'a quota_db_scheme) res" where
  "reserve_daily_quota now rid acc date limit ttl_minutes db =
     and_then (require_quota_scope db acc) (\<lambda>sc.
       let u = qs_subject sc; app = qs_app sc
       in and_then (product_quota_subject u app) (\<lambda>_.
         let db1 = db\<lparr>reservations := delete_where
               (\<lambda>r. qr_user r = u \<and> qr_app r = app \<and> qr_expires r \<le> now) (reservations db)\<rparr>
         in if 0 < limit \<and> limit \<le> used_count db1 u app date + int (reserved_count db1 u app date)
            then Inr (None, db1)
            else if rid \<in> qr_id ` set (reservations db1)
            then Inl (IntegrityError ''daily_quota_reservations_pkey'')
            else Inr (Some rid, db1\<lparr>reservations := reservations db1 @
              [\<lparr>qr_id = rid, qr_user = u, qr_app = app, qr_date = date, qr_account = acc,
                qr_expires = now + 60 * ttl_minutes\<rparr>]\<rparr>)))"

definition delete_reservation :: "string \<Rightarrow> 'a quota_db_scheme \<Rightarrow> 'a quota_db_scheme" where
  "delete_reservation rid db = db\<lparr>reservations := delete_where (\<lambda>r. qr_id r = rid) (reservations db)\<rparr>"

definition confirm_daily_quota ::
  "string option \<Rightarrow> 'a quota_db_scheme \<Rightarrow> (unit \<times> 'a quota_db_scheme) res" where
  "confirm_daily_quota reservation_id db =
     (case reservation_id of
        None \<Rightarrow> Inr ((), db)
      | Some rid \<Rightarrow> if rid = [] then Inr ((), db) else
        (case find_row (\<lambda>r. qr_id r = rid) (reservations db) of
           None \<Rightarrow> Inr ((), db)
         | Some row \<Rightarrow> and_then (require_quota_scope db (qr_account row)) (\<lambda>sc.
             if qs_subject sc \<noteq> qr_user row \<or> qs_app sc \<noteq> qr_app row
             then Inl (ValueError ''quota reservation scope mismatch'')
             else if count_where (\<lambda>r. qr_id r = rid) (reservations db) \<noteq> 1
             then Inr ((), delete_reservation rid db)
             else and_then (increment_daily_usage_in_scope (qr_account row) (qr_user row) (qr_app row)
                      (qr_date row) (delete_reservation rid db))
                    (\<lambda>(_, db'). Inr ((), db')))))"

definition rollback_daily_quota ::
  "string option \<Rightarrow> 'a quota_db_scheme \<Rightarrow> (unit \<times> 'a quota_db_scheme) res" where
  "rollback_daily_quota reservation_id db =
     (case reservation_id of
        None \<Rightarrow> Inr ((), db)
      | Some rid \<Rightarrow> if rid = [] then Inr ((), db) else Inr ((), delete_reservation rid db))"

definition reclaim_expired_reservations ::
  "int \<Rightarrow> nat \<Rightarrow> 'a quota_db_scheme \<Rightarrow> (nat \<times> 'a quota_db_scheme) res" where
  "reclaim_expired_reservations now limit db =
     (let ids = map qr_id (take limit (sort_key qr_expires
                  (filter (\<lambda>r. qr_expires r \<le> now) (reservations db))))
      in Inr (length ids, db\<lparr>reservations := delete_where (\<lambda>r. qr_id r \<in> set ids) (reservations db)\<rparr>))"

section \<open>Requests per minute\<close>

text \<open>
  \<open>check_rpm\<close> forgets the hits older than the window, refuses when the rest fill the limit, and
  records the request otherwise; a limit of 0 is no limit.
\<close>

definition check_rpm ::
  "string \<Rightarrow> int \<Rightarrow> rat \<Rightarrow> rat \<Rightarrow> 'a quota_db_scheme \<Rightarrow> bool \<times> 'a quota_db_scheme" where
  "check_rpm subject limit window_seconds now db =
     (if limit = 0 then (True, db)
      else let cutoff = now - max window_seconds (1 / 1000);
               db1 = db\<lparr>rpm_hits := delete_where (\<lambda>h. h_subject h = subject \<and> h_at h < cutoff) (rpm_hits db)\<rparr>
        in if limit \<le> int (count_where (\<lambda>h. h_subject h = subject) (rpm_hits db1)) then (False, db1)
           else (True, db1\<lparr>rpm_hits := rpm_hits db1 @ [\<lparr>h_subject = subject, h_at = now\<rparr>]\<rparr>))"

definition check_product_rpm ::
  "string \<Rightarrow> string \<Rightarrow> int \<Rightarrow> rat \<Rightarrow> rat \<Rightarrow> 'a quota_db_scheme \<Rightarrow> (bool \<times> 'a quota_db_scheme) res" where
  "check_product_rpm u app limit window_seconds now db = and_then (product_quota_subject u app)
     (\<lambda>subject. Inr (check_rpm subject limit window_seconds now db))"

end
