(* ===== verification/Quota_Laws.thy ===== *)
theory Quota_Laws
imports Quota
begin

text \<open>
  Admission under a cap as an interface, and the two components that implement it: the daily
  quota, whose load is the confirmed messages plus the live reservations, and the request limit,
  whose load is the hits kept for a subject.
\<close>

section \<open>The interface\<close>

text \<open>
  \<open>admit n a s\<close> asks for one more unit under the cap \<open>n\<close>; \<open>settle\<close> is everything else that the
  component does. The provider promises that only an accepted request can raise a load, and never
  above its cap.
\<close>

locale capped_admission =
  fixes inv :: "'s \<Rightarrow> bool"
    and load :: "'s \<Rightarrow> 'k \<Rightarrow> int"
    and admit :: "int \<Rightarrow> 'a \<Rightarrow> 's \<Rightarrow> bool \<times> 's"
    and settle :: "'b \<Rightarrow> 's \<Rightarrow> 's"
  assumes inv_admit: "inv s \<Longrightarrow> admit n a s = (ok, s') \<Longrightarrow> inv s'"
    and inv_settle: "inv s \<Longrightarrow> inv (settle b s)"
    and accept: "inv s \<Longrightarrow> 0 < n \<Longrightarrow> admit n a s = (True, s') \<Longrightarrow> load s' k \<le> max n (load s k)"
    and refuse: "inv s \<Longrightarrow> 0 < n \<Longrightarrow> admit n a s = (False, s') \<Longrightarrow> load s' k \<le> load s k"
    and settle_load: "inv s \<Longrightarrow> load (settle b s) k \<le> load s k"
begin

fun exec :: "(int \<times> 'a) + 'b \<Rightarrow> 's \<Rightarrow> 's" where
  "exec (Inl (n, a)) s = snd (admit n a s)"
| "exec (Inr b) s = settle b s"

fun exec_all :: "((int \<times> 'a) + 'b) list \<Rightarrow> 's \<Rightarrow> 's" where
  "exec_all [] s = s"
| "exec_all (x # xs) s = exec_all xs (exec x s)"

definition cap_within :: "int \<Rightarrow> (int \<times> 'a) + 'b \<Rightarrow> bool" where
  "cap_within c x = (case x of Inl (n, _) \<Rightarrow> 0 < n \<and> n \<le> c | Inr _ \<Rightarrow> True)"

lemma exec_step:
  assumes "inv s" and "cap_within c x" and "load s k \<le> c"
  shows "inv (exec x s) \<and> load (exec x s) k \<le> c"
proof (cases x)
  case (Inl na)
  obtain n a where na: "na = (n, a)" by force
  obtain ok s' where r: "admit n a s = (ok, s')" by force
  from assms(2) have n: "0 < n" "n \<le> c" by (simp_all add: cap_within_def Inl na)
  have "load s' k \<le> c"
  proof (cases ok)
    case True
    with accept [OF assms(1) n(1), of a s' k] r n(2) assms(3) show ?thesis by simp
  next
    case False
    with refuse [OF assms(1) n(1), of a s' k] r assms(3) show ?thesis by simp
  qed
  with inv_admit [OF assms(1) r] show ?thesis by (simp add: Inl na r)
next
  case (Inr b)
  with settle_load [OF assms(1), of b k] inv_settle [OF assms(1)] assms(3) show ?thesis by simp
qed

text \<open>No history of requests under caps up to \<open>c\<close> pushes a load above \<open>c\<close>.\<close>

lemma load_bounded:
  assumes "inv s" and "list_all (cap_within c) xs" and "load s k \<le> c"
  shows "inv (exec_all xs s) \<and> load (exec_all xs s) k \<le> c"
  using assms
proof (induction xs arbitrary: s)
  case Nil
  then show ?case by simp
next
  case (Cons x xs)
  then show ?case using exec_step [of s c x k] by simp
qed

end

section \<open>The daily quota\<close>

definition quota_keys_ok :: "'a quota_db_scheme \<Rightarrow> bool" where
  "quota_keys_ok db = (unique_on (\<lambda>_. True) (\<lambda>d. (du_user d, du_app d, du_date d)) (daily_usage db) \<and>
     unique_on (\<lambda>_. True) (\<lambda>d. (du_account d, du_date d)) (daily_usage db) \<and>
     unique_on (\<lambda>_. True) qr_id (reservations db))"

definition quota_load :: "'a quota_db_scheme \<Rightarrow> string \<times> string \<times> string \<Rightarrow> int" where
  "quota_load db k = (case k of (u, app, date) \<Rightarrow> used_count db u app date + int (reserved_count db u app date))"

lemma usage_of_Some: "usage_of db u app date = Some d \<Longrightarrow>
    d \<in> set (daily_usage db) \<and> du_user d = u \<and> du_app d = app \<and> du_date d = date"
  unfolding usage_of_def by (drule find_row_Some) simp

lemma usage_of_key:
  "quota_keys_ok db \<Longrightarrow> d \<in> set (daily_usage db) \<Longrightarrow> usage_of db (du_user d) (du_app d) (du_date d) = Some d"
  unfolding usage_of_def quota_keys_ok_def
  using unique_onD [of "\<lambda>_. True" "\<lambda>d. (du_user d, du_app d, du_date d)" "daily_usage db"]
  by (intro find_row_unique) auto

text \<open>Counting a message raises the count of its key by one and touches no other.\<close>

lemma increment_effect:
  assumes r: "increment_daily_usage_in_scope acc u app date db = Inr (n, db')" and k: "quota_keys_ok db"
  shows "quota_keys_ok db'" and "reservations db' = reservations db" and "same_identity db db'"
    and "used_count db' u' app' date' =
      used_count db u' app' date' + (if u' = u \<and> app' = app \<and> date' = date then 1 else 0)"
proof -
  have "quota_keys_ok db' \<and> reservations db' = reservations db \<and> same_identity db db' \<and>
    (\<forall>u' app' date'. used_count db' u' app' date' =
      used_count db u' app' date' + (if u' = u \<and> app' = app \<and> date' = date then 1 else 0))"
  proof (cases "usage_of db u app date")
    case (Some d)
    define f where "f = (\<lambda>d. d\<lparr>du_count := du_count d + 1\<rparr> :: usage_row)"
    from r Some have db': "db' = db\<lparr>daily_usage := update_where
            (\<lambda>d. du_user d = u \<and> du_app d = app \<and> du_date d = date) f (daily_usage db)\<rparr>"
      by (auto simp: increment_daily_usage_in_scope_def and_then_Inr f_def)
    have keys: "quota_keys_ok db'"
      using k by (auto simp: quota_keys_ok_def db' f_def unique_on_update)
    have "used_count db' u' app' date' =
      used_count db u' app' date' + (if u' = u \<and> app' = app \<and> date' = date then 1 else 0)" for u' app' date'
    proof (cases "u' = u \<and> app' = app \<and> date' = date")
      case True
      note d = usage_of_Some [OF Some]
      have "f d \<in> set (daily_usage db')"
        using d by (auto simp: db' set_update_where intro!: image_eqI [of _ _ d])
      from usage_of_key [OF keys this] d have "usage_of db' u app date = Some (f d)" by (simp add: f_def)
      with True Some show ?thesis by (simp add: used_count_def f_def)
    next
      case False
      have "usage_of db' u' app' date' = usage_of db u' app' date'"
      proof (cases "usage_of db u' app' date'")
        case None
        then have "usage_of db' u' app' date' = None"
          by (auto simp: usage_of_def db' find_row_None set_update_where f_def)
        with None show ?thesis by simp
      next
        case (Some e)
        note e = usage_of_Some [OF Some]
        with False have "e \<in> set (daily_usage db')"
          by (auto simp: db' set_update_where intro!: image_eqI [of _ _ e])
        from usage_of_key [OF keys this] e Some show ?thesis by simp
      qed
      with False show ?thesis by (simp add: used_count_def)
    qed
    with keys show ?thesis by (simp add: db' same_identity_def)
  next
    case None
    define d where "d = \<lparr>du_account = acc, du_user = u, du_app = app, du_date = date, du_count = 1\<rparr>"
    from r None have n: "\<not> list_ex (\<lambda>d. du_account d = acc \<and> du_date d = date) (daily_usage db)"
      and db': "db' = db\<lparr>daily_usage := daily_usage db @ [d]\<rparr>"
      by (auto simp: increment_daily_usage_in_scope_def and_then_Inr d_def split: if_splits)
    have keys: "quota_keys_ok db'"
      using k n None by (auto simp: quota_keys_ok_def db' unique_on_snoc d_def list_ex_iff usage_of_def find_row_None)
    have "usage_of db' u' app' date' = (case usage_of db u' app' date' of Some e \<Rightarrow> Some e
      | None \<Rightarrow> if u' = u \<and> app' = app \<and> date' = date then Some d else None)" for u' app' date'
      by (auto simp: usage_of_def db' find_row_append d_def split: option.split)
    then have "used_count db' u' app' date' =
      used_count db u' app' date' + (if u' = u \<and> app' = app \<and> date' = date then 1 else 0)" for u' app' date'
      using None by (auto simp: used_count_def d_def split: option.split)
    with keys show ?thesis by (simp add: db' same_identity_def)
  qed
  then show "quota_keys_ok db'" and "reservations db' = reservations db" and "same_identity db db'"
    and "used_count db' u' app' date' =
      used_count db u' app' date' + (if u' = u \<and> app' = app \<and> date' = date then 1 else 0)"
    by blast+
qed

lemma delete_reservations_load:
  "quota_keys_ok db \<Longrightarrow> quota_keys_ok (db\<lparr>reservations := delete_where p (reservations db)\<rparr>) \<and>
     quota_load (db\<lparr>reservations := delete_where p (reservations db)\<rparr>) k \<le> quota_load db k"
  by (auto simp: quota_keys_ok_def unique_on_delete quota_load_def used_count_def usage_of_def
      reserved_count_def delete_where_le split: prod.split)

text \<open>A reservation that is granted fits under its cap; one that is refused changes no other key.\<close>

lemma reserve_quota_effect:
  assumes r: "reserve_daily_quota now rid acc date limit ttl db = Inr (t, db')" and k: "quota_keys_ok db"
  obtains sc db1 where "require_quota_scope db acc = Inr sc"
    and "db1 = db\<lparr>reservations := delete_where
          (\<lambda>r. qr_user r = qs_subject sc \<and> qr_app r = qs_app sc \<and> qr_expires r \<le> now) (reservations db)\<rparr>"
    and "t = None \<and> db' = db1 \<and> 0 < limit \<and> limit \<le> quota_load db1 (qs_subject sc, qs_app sc, date) \<or>
         t = Some rid \<and> (0 < limit \<longrightarrow> quota_load db1 (qs_subject sc, qs_app sc, date) < limit) \<and>
         rid \<notin> qr_id ` set (reservations db1) \<and>
         db' = db1\<lparr>reservations := reservations db1 @
              [\<lparr>qr_id = rid, qr_user = qs_subject sc, qr_app = qs_app sc, qr_date = date, qr_account = acc,
                qr_expires = now + 60 * ttl\<rparr>]\<rparr>"
proof -
  from r obtain sc x where sc: "require_quota_scope db acc = Inr sc"
    and x: "product_quota_subject (qs_subject sc) (qs_app sc) = Inr x"
    by (auto simp: reserve_daily_quota_def and_then_Inr Let_def)
  define db1 where "db1 = db\<lparr>reservations := delete_where
          (\<lambda>r. qr_user r = qs_subject sc \<and> qr_app r = qs_app sc \<and> qr_expires r \<le> now) (reservations db)\<rparr>"
  show thesis
    by (rule that [OF sc db1_def])
      (use r sc x in \<open>auto simp: reserve_daily_quota_def Let_def db1_def [symmetric] quota_load_def not_le
          split: if_splits\<close>)
qed

lemma reserve_quota_load:
  assumes r: "reserve_daily_quota now rid acc date limit ttl db = Inr (t, db')" and k: "quota_keys_ok db"
  shows "quota_keys_ok db'"
    and "t = None \<Longrightarrow> quota_load db' key \<le> quota_load db key"
    and "t \<noteq> None \<Longrightarrow> 0 < limit \<Longrightarrow> quota_load db' key \<le> max limit (quota_load db key)"
proof -
  obtain sc :: quota_scope and db1 where db1: "db1 = db\<lparr>reservations := delete_where
          (\<lambda>r. qr_user r = qs_subject sc \<and> qr_app r = qs_app sc \<and> qr_expires r \<le> now) (reservations db)\<rparr>"
    and c: "t = None \<and> db' = db1 \<and> 0 < limit \<and> limit \<le> quota_load db1 (qs_subject sc, qs_app sc, date) \<or>
         t = Some rid \<and> (0 < limit \<longrightarrow> quota_load db1 (qs_subject sc, qs_app sc, date) < limit) \<and>
         rid \<notin> qr_id ` set (reservations db1) \<and>
         db' = db1\<lparr>reservations := reservations db1 @
              [\<lparr>qr_id = rid, qr_user = qs_subject sc, qr_app = qs_app sc, qr_date = date, qr_account = acc,
                qr_expires = now + 60 * ttl\<rparr>]\<rparr>"
    by (rule reserve_quota_effect [OF r k]) (rule that; assumption)
  have d: "quota_keys_ok db1" "quota_load db1 key \<le> quota_load db key" for key
    using delete_reservations_load [OF k] by (simp_all add: db1)
  show "t = None \<Longrightarrow> quota_load db' key \<le> quota_load db key" using c d(2) by auto
  show "quota_keys_ok db'" using c d(1) by (auto simp: quota_keys_ok_def unique_on_snoc image_iff)
  assume t: "t \<noteq> None" and l: "0 < limit"
  with c have lt: "quota_load db1 (qs_subject sc, qs_app sc, date) < limit" and
    db': "db' = db1\<lparr>reservations := reservations db1 @
              [\<lparr>qr_id = rid, qr_user = qs_subject sc, qr_app = qs_app sc, qr_date = date, qr_account = acc,
                qr_expires = now + 60 * ttl\<rparr>]\<rparr>"
    by auto
  obtain u app dt where key: "key = (u, app, dt)" by (cases key) auto
  have "quota_load db' key = quota_load db1 key + (if key = (qs_subject sc, qs_app sc, date) then 1 else 0)"
    by (simp add: quota_load_def key db' used_count_def usage_of_def reserved_count_def)
  with lt d(2) [of key] show "quota_load db' key \<le> max limit (quota_load db key)" by auto
qed

text \<open>Confirming moves one unit from reserved to used: every load stays as it was, or the token was
  already gone and nothing changes.\<close>

lemma confirm_load:
  assumes r: "confirm_daily_quota rid db = Inr ((), db')" and k: "quota_keys_ok db"
  shows "quota_keys_ok db'" and "quota_load db' key = quota_load db key" and "same_identity db db'"
proof -
  have "quota_keys_ok db' \<and> quota_load db' key = quota_load db key \<and> same_identity db db'"
  proof (cases "db' = db")
    case True
    with k show ?thesis by simp
  next
    case False
    with r obtain i row sc where rid: "rid = Some i" and row: "find_row (\<lambda>r. qr_id r = i) (reservations db) = Some row"
      and sc: "require_quota_scope db (qr_account row) = Inr sc"
      and m: "qs_subject sc = qr_user row" "qs_app sc = qr_app row"
      and one: "count_where (\<lambda>r. qr_id r = i) (reservations db) \<noteq> 1 \<longrightarrow> db' = delete_reservation i db"
      and inc: "count_where (\<lambda>r. qr_id r = i) (reservations db) = 1 \<Longrightarrow>
        \<exists>n. increment_daily_usage_in_scope (qr_account row) (qr_user row) (qr_app row)
                      (qr_date row) (delete_reservation i db) = Inr (n, db')"
      by (auto simp: confirm_daily_quota_def and_then_Inr split: option.splits if_splits)
    note rw = find_row_Some [OF row]
    have u: "unique_on (\<lambda>_. True) qr_id (reservations db)" using k by (simp add: quota_keys_ok_def)
    have "count_where (\<lambda>r. qr_id r = i) (reservations db) = 1"
      using count_where_key [OF u, of row "\<lambda>r. qr_id r = i"] rw by simp
    from inc [OF this] obtain n where n: "increment_daily_usage_in_scope (qr_account row) (qr_user row) (qr_app row)
                      (qr_date row) (delete_reservation i db) = Inr (n, db')" by blast
    have kd: "quota_keys_ok (delete_reservation i db)"
      using delete_reservations_load [OF k] by (simp add: delete_reservation_def)
    note e = increment_effect [OF n kd]
    obtain u' app dt where key: "key = (u', app, dt)" by (cases key) auto
    have del: "int (reserved_count (delete_reservation i db) u' app dt) = int (reserved_count db u' app dt) -
        (if u' = qr_user row \<and> app = qr_app row \<and> dt = qr_date row then 1 else 0)"
      using count_where_delete_key [OF u, of row "\<lambda>r. qr_user r = u' \<and> qr_app r = app \<and> qr_date r = dt"] rw
      by (auto simp: reserved_count_def delete_reservation_def)
    have "used_count (delete_reservation i db) u' app dt = used_count db u' app dt"
      by (simp add: used_count_def usage_of_def delete_reservation_def)
    then have "quota_load db' key = quota_load db key"
      using e(2) e(4) [of u' app dt] del by (auto simp: quota_load_def key reserved_count_def)
    moreover have "same_identity db (delete_reservation i db)"
      by (simp add: same_identity_def delete_reservation_def)
    ultimately show ?thesis using e(1,3) same_identity_trans by blast
  qed
  then show "quota_keys_ok db'" and "quota_load db' key = quota_load db key" and "same_identity db db'" by blast+
qed

section \<open>The daily quota is an admission under a cap\<close>

record quota_request =
  qq_now :: int
  qq_rid :: string
  qq_account :: string
  qq_date :: string
  qq_ttl :: int

datatype quota_settle = Confirm "string option" | Rollback "string option" | Reclaim int nat

definition admit_quota :: "int \<Rightarrow> quota_request \<Rightarrow> 'a quota_db_scheme \<Rightarrow> bool \<times> 'a quota_db_scheme" where
  "admit_quota n q db =
     (case run_tx (reserve_daily_quota (qq_now q) (qq_rid q) (qq_account q) (qq_date q) n (qq_ttl q)) db of
        (Inr (Some _), db') \<Rightarrow> (True, db') | (_, db') \<Rightarrow> (False, db'))"

fun settle_quota :: "quota_settle \<Rightarrow> 'a quota_db_scheme \<Rightarrow> 'a quota_db_scheme" where
  "settle_quota (Confirm rid) db = snd (run_tx (confirm_daily_quota rid) db)"
| "settle_quota (Rollback rid) db = snd (run_tx (rollback_daily_quota rid) db)"
| "settle_quota (Reclaim now limit) db = snd (run_tx (reclaim_expired_reservations now limit) db)"

lemma settle_quota_load:
  assumes "quota_keys_ok db"
  shows "quota_keys_ok (settle_quota b db) \<and> quota_load (settle_quota b db) k \<le> quota_load db k"
proof (cases b)
  case (Confirm rid)
  show ?thesis
    unfolding Confirm settle_quota.simps
    by (rule run_tx_state_cases) (use assms confirm_load [OF _ assms, of rid] in auto)
next
  case (Rollback rid)
  show ?thesis
    unfolding Rollback settle_quota.simps
  proof (rule run_tx_state_cases)
    fix x db' assume "rollback_daily_quota rid db = Inr (x, db')"
    then consider "db' = db" | i where "db' = db\<lparr>reservations := delete_where (\<lambda>r. qr_id r = i) (reservations db)\<rparr>"
      by (cases rid) (auto simp: rollback_daily_quota_def delete_reservation_def split: if_splits)
    then show "quota_keys_ok db' \<and> quota_load db' k \<le> quota_load db k"
      by cases (use assms delete_reservations_load [OF assms] in simp_all)
  qed (use assms in simp)
next
  case (Reclaim now limit)
  show ?thesis
    unfolding Reclaim settle_quota.simps
    by (rule run_tx_state_cases)
      (use assms delete_reservations_load [OF assms] in \<open>auto simp: reclaim_expired_reservations_def Let_def\<close>)
qed

lemma admit_quota_cases:
  assumes "admit_quota n q db = (ok, db')"
  obtains "db' = db" and "\<not> ok"
  | t where "reserve_daily_quota (qq_now q) (qq_rid q) (qq_account q) (qq_date q) n (qq_ttl q) db = Inr (t, db')"
    and "ok \<longleftrightarrow> t \<noteq> None"
proof (cases "reserve_daily_quota (qq_now q) (qq_rid q) (qq_account q) (qq_date q) n (qq_ttl q) db")
  case (Inl e)
  with assms show thesis by (intro that(1)) (auto simp: admit_quota_def)
next
  case (Inr td)
  obtain t d where td: "td = (t, d)" by force
  with Inr assms show thesis by (intro that(2) [of t]) (auto simp: admit_quota_def split: option.splits)
qed

interpretation quota: capped_admission quota_keys_ok quota_load admit_quota settle_quota
proof unfold_locales
  fix s :: "'a quota_db_scheme" and n q ok s' k b
  assume i: "quota_keys_ok s"
  {
    assume a: "admit_quota n q s = (ok, s')"
    then show "quota_keys_ok s'"
      by (rule admit_quota_cases) (use i reserve_quota_load(1) in blast)+
  }
  show "quota_keys_ok (settle_quota b s)" "quota_load (settle_quota b s) k \<le> quota_load s k"
    using settle_quota_load [OF i] by blast+
  {
    assume n: "0 < n" and a: "admit_quota n q s = (True, s')"
    from a show "quota_load s' k \<le> max n (quota_load s k)"
      by (rule admit_quota_cases) (use i n reserve_quota_load(3) in blast)+
  }
  {
    assume a: "admit_quota n q s = (False, s')"
    from a show "quota_load s' k \<le> quota_load s k"
      by (rule admit_quota_cases) (use i reserve_quota_load(2) in blast)+
  }
qed

section \<open>The request limit is one too\<close>

definition rpm_load :: "'a quota_db_scheme \<Rightarrow> string \<Rightarrow> int" where
  "rpm_load db subject = int (count_where (\<lambda>h. h_subject h = subject) (rpm_hits db))"

definition admit_rpm :: "int \<Rightarrow> string \<times> rat \<times> rat \<Rightarrow> 'a quota_db_scheme \<Rightarrow> bool \<times> 'a quota_db_scheme" where
  "admit_rpm n a db = (case a of (subject, window, now) \<Rightarrow> check_rpm subject n window now db)"

definition settle_rpm :: "unit \<Rightarrow> 'a quota_db_scheme \<Rightarrow> 'a quota_db_scheme" where
  "settle_rpm _ db = db"

interpretation rpm: capped_admission "\<lambda>_. True" rpm_load admit_rpm settle_rpm
proof unfold_locales
  fix s :: "'a quota_db_scheme" and n s' k and b :: unit and a :: "string \<times> rat \<times> rat"
  obtain subject :: string and window now where a: "a = (subject, window, now)" by (cases a) auto
  let ?p = "\<lambda>h. h_subject h = subject \<and> h_at h < now - max window (1 / 1000)"
  have le: "int (count_where (\<lambda>h. h_subject h = k) (delete_where ?p (rpm_hits s))) \<le> rpm_load s k"
    by (simp add: rpm_load_def delete_where_le)
  {
    assume n: "0 < n" and "admit_rpm n a s = (True, s')"
    then have "int (count_where (\<lambda>h. h_subject h = subject) (delete_where ?p (rpm_hits s))) < n"
      and s': "rpm_hits s' = delete_where ?p (rpm_hits s) @ [\<lparr>h_subject = subject, h_at = now\<rparr>]"
      by (auto simp: admit_rpm_def check_rpm_def a Let_def split: if_splits)
    with le show "rpm_load s' k \<le> max n (rpm_load s k)"
      by (auto simp: rpm_load_def)
  }
  {
    assume n: "0 < n" and "admit_rpm n a s = (False, s')"
    then have "rpm_hits s' = delete_where ?p (rpm_hits s)"
      by (auto simp: admit_rpm_def check_rpm_def a Let_def split: if_splits)
    with le show "rpm_load s' k \<le> rpm_load s k" by (simp add: rpm_load_def)
  }
  show "rpm_load (settle_rpm b s) k \<le> rpm_load s k" by (simp add: settle_rpm_def)
qed simp_all

section \<open>No window holds more requests than the limit\<close>

text \<open>The requests of one subject at the times \<open>ts\<close>, and which of them pass.\<close>

fun run_rpm :: "string \<Rightarrow> int \<Rightarrow> rat \<Rightarrow> rat list \<Rightarrow> 'a quota_db_scheme \<Rightarrow> rat list \<times> 'a quota_db_scheme" where
  "run_rpm subject n window [] db = ([], db)"
| "run_rpm subject n window (t # ts) db =
     (case check_rpm subject n window t db of
        (ok, db1) \<Rightarrow> (case run_rpm subject n window ts db1 of
          (passed, db2) \<Rightarrow> (if ok then t # passed else passed, db2)))"

definition hits_of :: "string \<Rightarrow> 'a quota_db_scheme \<Rightarrow> rat list" where
  "hits_of subject db = map h_at (filter (\<lambda>h. h_subject h = subject) (rpm_hits db))"

definition in_window :: "rat \<Rightarrow> rat \<Rightarrow> rat list \<Rightarrow> nat" where
  "in_window x w ts = length (filter (\<lambda>t. x \<le> t \<and> t \<le> x + w) ts)"

lemma check_rpm_hits:
  assumes "0 < n" and "check_rpm subject n window t db = (ok, db')"
  defines "kept \<equiv> filter (\<lambda>h. t - max window (1 / 1000) \<le> h) (hits_of subject db)"
  shows "ok \<longleftrightarrow> int (length kept) < n" "hits_of subject db' = kept @ (if ok then [t] else [])"
proof -
  let ?p = "\<lambda>h. h_subject h = subject \<and> h_at h < t - max window (1 / 1000)"
  have k: "map h_at (filter (\<lambda>h. h_subject h = subject) (delete_where ?p rs)) =
      filter (\<lambda>h. t - max window (1 / 1000) \<le> h) (map h_at (filter (\<lambda>h. h_subject h = subject) rs))" for rs
    by (induction rs) (auto simp: delete_where_def not_less)
  then have c: "count_where (\<lambda>h. h_subject h = subject) (delete_where ?p (rpm_hits db)) = length kept"
    unfolding kept_def hits_of_def count_where_def k [symmetric] by (simp only: length_map)
  have "(ok \<longleftrightarrow> int (length kept) < n) \<and> hits_of subject db' = kept @ (if ok then [t] else [])"
    using assms(1,2) c k [of "rpm_hits db"]
    by (auto simp: check_rpm_def Let_def hits_of_def kept_def split: if_splits)
  then show "ok \<longleftrightarrow> int (length kept) < n" "hits_of subject db' = kept @ (if ok then [t] else [])" by blast+
qed

lemma rpm_window_aux:
  assumes "0 < n" and "sorted (c # map (\<lambda>t. t - max window (1 / 1000)) ts)"
    and "hits_of subject db = filter (\<lambda>h. c \<le> h) past"
    and "\<And>x. int (in_window x (max window (1 / 1000)) past) \<le> n"
  shows "int (in_window x (max window (1 / 1000)) (past @ fst (run_rpm subject n window ts db))) \<le> n"
  using assms
proof (induction ts arbitrary: c db past)
  case Nil
  then show ?case by simp
next
  case (Cons t ts)
  define w where "w = max window (1 / 1000)"
  obtain ok db1 where r: "check_rpm subject n window t db = (ok, db1)" by force
  note h = check_rpm_hits [OF Cons.prems(1) r, folded w_def]
  have "c \<le> t - w" using Cons.prems(2) by (simp add: w_def)
  then have kept: "filter (\<lambda>h. t - w \<le> h) (hits_of subject db) = filter (\<lambda>h. t - w \<le> h) past"
    unfolding Cons.prems(3) by (auto intro!: filter_cong simp: filter_filter)
  define past' where "past' = past @ (if ok then [t] else [])"
  have 0: "0 \<le> w" by (simp add: w_def le_max_iff_disj)
  have hits: "hits_of subject db1 = filter (\<lambda>h. t - w \<le> h) past'"
    using h(2) 0 by (simp add: kept past'_def)
  have win: "int (in_window y w past') \<le> n" for y
  proof (cases "ok \<and> y \<le> t \<and> t \<le> y + w")
    case False
    then have "in_window y w past' = in_window y w past"
      by (auto simp: in_window_def past'_def)
    with Cons.prems(4) show ?thesis by (simp add: w_def)
  next
    case True
    then have "in_window y w past' = Suc (length (filter (\<lambda>t. y \<le> t \<and> t \<le> y + w) past))"
      by (simp add: in_window_def past'_def)
    moreover have "length (filter (\<lambda>t. y \<le> t \<and> t \<le> y + w) past) \<le> length (filter (\<lambda>h. t - w \<le> h) past)"
    proof -
      have "filter (\<lambda>t. y \<le> t \<and> t \<le> y + w) past =
            filter (\<lambda>t. y \<le> t \<and> t \<le> y + w) (filter (\<lambda>h. t - w \<le> h) past)"
        using True by (auto simp: filter_filter intro!: filter_cong)
      then show ?thesis by (metis length_filter_le)
    qed
    moreover have "int (length (filter (\<lambda>h. t - w \<le> h) past)) < n" using h(1) True by (simp add: kept)
    ultimately show ?thesis by linarith
  qed
  have s: "sorted ((t - w) # map (\<lambda>t. t - max window (1 / 1000)) ts)"
    using Cons.prems(2) by (simp add: w_def)
  have "int (in_window x (max window (1 / 1000)) (past' @ fst (run_rpm subject n window ts db1))) \<le> n"
    using Cons.IH [OF Cons.prems(1) s hits] win by (simp add: w_def)
  then show ?case
    by (cases ok; cases "run_rpm subject n window ts db1") (simp_all add: r past'_def)
qed

end
