(* ===== verification/Quota_Race.thy ===== *)
theory Quota_Race
imports Quota_Laws
begin

text \<open>
  The daily quota one statement at a time. Only \<open>reserve_daily_quota\<close> takes the advisory lock of its
  subject, and it reads the used messages and the reservations in two statements, each of which sees
  what is committed when it starts (\<open>READ COMMITTED\<close>); \<open>confirm_daily_quota\<close>, \<open>rollback_daily_quota\<close>,
  \<open>reclaim_expired_reservations\<close> and the wipe of an account take no such lock and may commit in between.
\<close>

section \<open>The two halves of a reservation\<close>

text \<open>The local variables of \<open>reserve_daily_quota\<close> once it has read the used messages.\<close>

record open_reserve =
  or_now :: int
  or_rid :: string
  or_account :: string
  or_user :: string
  or_app :: string
  or_date :: string
  or_limit :: int
  or_ttl :: int
  or_used :: int

definition open_reserve_quota ::
  "int \<Rightarrow> string \<Rightarrow> string \<Rightarrow> string \<Rightarrow> int \<Rightarrow> int \<Rightarrow> 'a quota_db_scheme \<Rightarrow> open_reserve res" where
  "open_reserve_quota now rid acc date limit ttl_minutes db =
     and_then (require_quota_scope db acc) (\<lambda>sc.
     and_then (product_quota_subject (qs_subject sc) (qs_app sc)) (\<lambda>_.
       Inr \<lparr>or_now = now, or_rid = rid, or_account = acc, or_user = qs_subject sc, or_app = qs_app sc, or_date = date,
         or_limit = limit, or_ttl = ttl_minutes, or_used = used_count db (qs_subject sc) (qs_app sc) date\<rparr>))"

text \<open>
  The second statement and the insertion. The deletion of the expired rows becomes visible to the
  others when the transaction commits, here.
\<close>

definition finish_reserve_quota :: "open_reserve \<Rightarrow> 'a quota_db_scheme \<Rightarrow> (string option \<times> 'a quota_db_scheme) res" where
  "finish_reserve_quota p db =
     (let u = or_user p; app = or_app p;
          db1 = db\<lparr>reservations := delete_where
            (\<lambda>r. qr_user r = u \<and> qr_app r = app \<and> qr_expires r \<le> or_now p) (reservations db)\<rparr>
      in if 0 < or_limit p \<and> or_limit p \<le> or_used p + int (reserved_count db1 u app (or_date p))
         then Inr (None, db1)
         else if or_rid p \<in> qr_id ` set (reservations db1)
         then Inl (IntegrityError ''daily_quota_reservations_pkey'')
         else Inr (Some (or_rid p), db1\<lparr>reservations := reservations db1 @
           [\<lparr>qr_id = or_rid p, qr_user = u, qr_app = app, qr_date = or_date p, qr_account = or_account p,
             qr_expires = or_now p + 60 * or_ttl p\<rparr>]\<rparr>))"

text \<open>With nothing in between the two halves are \<open>reserve_daily_quota\<close>.\<close>

lemma reserve_in_two_statements:
  "reserve_daily_quota now rid acc date limit ttl db =
     and_then (open_reserve_quota now rid acc date limit ttl db) (\<lambda>p. finish_reserve_quota p db)"
proof (cases "require_quota_scope db acc")
  case (Inr sc)
  then show ?thesis
    by (cases "product_quota_subject (qs_subject sc) (qs_app sc)")
      (simp_all add: reserve_daily_quota_def open_reserve_quota_def finish_reserve_quota_def Let_def used_count_def usage_of_def)
qed (simp add: reserve_daily_quota_def open_reserve_quota_def)

section \<open>Interleavings\<close>

text \<open>
  A state is the database and the reservations that are half done, at most one for each subject: the
  lock is held until the end of the transaction. \<open>racy\<close> says whether a confirmation may commit while
  a reservation is half done.
\<close>

abbreviation lock_of :: "open_reserve \<Rightarrow> string \<times> string" where
  "lock_of p \<equiv> (or_user p, or_app p)"

fun confirming :: "quota_settle \<Rightarrow> bool" where
  "confirming (Confirm rid) = True"
| "confirming _ = False"

text \<open>\<open>unbind_and_wipe_account\<close> of \<^verbatim>\<open>app/db/lifecycle.py\<close> deletes usage and reservations, here any of them.\<close>

definition wipe_quota ::
  "(usage_row \<Rightarrow> bool) \<Rightarrow> (reservation \<Rightarrow> bool) \<Rightarrow> 'a quota_db_scheme \<Rightarrow> 'a quota_db_scheme" where
  "wipe_quota qu qr db = db\<lparr>daily_usage := delete_where qu (daily_usage db), reservations := delete_where qr (reservations db)\<rparr>"

inductive race_step ::
  "bool \<Rightarrow> int \<Rightarrow> 'a quota_db_scheme \<times> open_reserve list \<Rightarrow> 'a quota_db_scheme \<times> open_reserve list \<Rightarrow> bool"
  for racy :: bool and c :: int where
  half: "open_reserve_quota now rid acc date limit ttl db = Inr p \<Longrightarrow> 0 < limit \<Longrightarrow> limit \<le> c \<Longrightarrow>
    lock_of p \<notin> lock_of ` set ps \<Longrightarrow> race_step racy c (db, ps) (db, p # ps)"
| rest: "p \<in> set ps \<Longrightarrow> finish_reserve_quota p db = Inr (t, db') \<Longrightarrow> race_step racy c (db, ps) (db', remove1 p ps)"
| abort: "p \<in> set ps \<Longrightarrow> race_step racy c (db, ps) (db, remove1 p ps)"
| wipe: "race_step racy c (db, ps) (wipe_quota qu qr db, ps)"
| settle: "racy \<or> ps = [] \<or> \<not> confirming b \<Longrightarrow> race_step racy c (db, ps) (settle_quota b db, ps)"

section \<open>What the statements do to the counts\<close>

lemma finish_counts:
  assumes "finish_reserve_quota p db = Inr (t, db')" and "quota_keys_ok db" and "0 < or_limit p"
  shows "quota_keys_ok db'" and "used_count db' u app date = used_count db u app date"
    and "quota_load db' (u, app, date) \<le> quota_load db (u, app, date) \<or>
      (u, app, date) = (or_user p, or_app p, or_date p) \<and>
      quota_load db' (u, app, date) \<le> quota_load db (u, app, date) + 1 \<and>
      or_used p + quota_load db' (u, app, date) \<le> or_limit p + used_count db u app date \<and> or_used p < or_limit p"
    and "reserved_count db' u app date \<le> reserved_count db u app date \<or> (u, app, date) = (or_user p, or_app p, or_date p) \<and>
      or_used p + int (reserved_count db' u app date) \<le> or_limit p"
proof -
  define db1 where "db1 = db\<lparr>reservations := delete_where
    (\<lambda>r. qr_user r = or_user p \<and> qr_app r = or_app p \<and> qr_expires r \<le> or_now p) (reservations db)\<rparr>"
  have r1: "reserved_count db1 u app date \<le> reserved_count db u app date" for u app date
    by (simp add: db1_def reserved_count_def delete_where_le)
  note d = delete_reservations_load [OF assms(2), of "\<lambda>r. qr_user r = or_user p \<and> qr_app r = or_app p \<and> qr_expires r \<le> or_now p",
    folded db1_def]
  have u1: "used_count db1 u app date = used_count db u app date" for u app date
    by (simp add: db1_def used_count_def usage_of_def)
  define r where "r = \<lparr>qr_id = or_rid p, qr_user = or_user p, qr_app = or_app p, qr_date = or_date p,
    qr_account = or_account p, qr_expires = or_now p + 60 * or_ttl p\<rparr>"
  from assms(1,3) consider "db' = db1"
    | "or_used p + int (reserved_count db1 (or_user p) (or_app p) (or_date p)) < or_limit p"
      "or_rid p \<notin> qr_id ` set (reservations db1)" "db' = db1\<lparr>reservations := reservations db1 @ [r]\<rparr>"
    unfolding finish_reserve_quota_def Let_def db1_def [symmetric] r_def [symmetric] by (auto split: if_splits)
  then have "quota_keys_ok db' \<and> used_count db' u app date = used_count db u app date \<and>
    (quota_load db' (u, app, date) \<le> quota_load db (u, app, date) \<or>
      (u, app, date) = (or_user p, or_app p, or_date p) \<and>
      quota_load db' (u, app, date) \<le> quota_load db (u, app, date) + 1 \<and>
      or_used p + quota_load db' (u, app, date) \<le> or_limit p + used_count db u app date \<and> or_used p < or_limit p) \<and>
    (reserved_count db' u app date \<le> reserved_count db u app date \<or>
      (u, app, date) = (or_user p, or_app p, or_date p) \<and> or_used p + int (reserved_count db' u app date) \<le> or_limit p)"
  proof cases
    case 1
    then show ?thesis using d u1 r1 by simp
  next
    case 2
    have "quota_keys_ok db'" using 2(2,3) d by (auto simp: quota_keys_ok_def unique_on_snoc r_def image_iff)
    moreover have "used_count db' u app date = used_count db u app date"
      using u1 by (simp add: 2(3) used_count_def usage_of_def)
    moreover have "quota_load db' (u, app, date) = quota_load db1 (u, app, date) +
        (if (u, app, date) = (or_user p, or_app p, or_date p) then 1 else 0)"
      by (simp add: quota_load_def 2(3) used_count_def usage_of_def reserved_count_def r_def)
    moreover have "quota_load db1 (u, app, date) \<le> quota_load db (u, app, date)" using d by simp
    moreover have "quota_load db1 (or_user p, or_app p, or_date p) = used_count db (or_user p) (or_app p) (or_date p) +
        int (reserved_count db1 (or_user p) (or_app p) (or_date p))"
      by (simp add: quota_load_def u1)
    moreover have "reserved_count db' u app date = reserved_count db1 u app date +
        (if (u, app, date) = (or_user p, or_app p, or_date p) then 1 else 0)"
      by (simp add: 2(3) reserved_count_def r_def)
    ultimately show ?thesis using 2(1) r1 [of u app date] by auto
  qed
  then show "quota_keys_ok db'" and "used_count db' u app date = used_count db u app date"
    and "quota_load db' (u, app, date) \<le> quota_load db (u, app, date) \<or>
      (u, app, date) = (or_user p, or_app p, or_date p) \<and>
      quota_load db' (u, app, date) \<le> quota_load db (u, app, date) + 1 \<and>
      or_used p + quota_load db' (u, app, date) \<le> or_limit p + used_count db u app date \<and> or_used p < or_limit p"
    and "reserved_count db' u app date \<le> reserved_count db u app date \<or> (u, app, date) = (or_user p, or_app p, or_date p) \<and>
      or_used p + int (reserved_count db' u app date) \<le> or_limit p"
    by blast+
qed

lemma confirm_reserved:
  assumes "confirm_daily_quota rid db = Inr ((), db')" and "quota_keys_ok db"
  shows "reserved_count db' u app date \<le> reserved_count db u app date"
proof (cases "db' = db")
  case False
  with assms(1) obtain i and row :: reservation where
      one: "count_where (\<lambda>r. qr_id r = i) (reservations db) \<noteq> 1 \<longrightarrow> db' = delete_reservation i db"
      and inc: "count_where (\<lambda>r. qr_id r = i) (reservations db) = 1 \<Longrightarrow>
        \<exists>n. increment_daily_usage_in_scope (qr_account row) (qr_user row) (qr_app row) (qr_date row) (delete_reservation i db) = Inr (n, db')"
    by (auto simp: confirm_daily_quota_def and_then_Inr split: option.splits if_splits)
  then have "db' = delete_reservation i db \<or>
      (\<exists>n. increment_daily_usage_in_scope (qr_account row) (qr_user row) (qr_app row) (qr_date row) (delete_reservation i db) = Inr (n, db'))"
    by blast
  moreover have "quota_keys_ok (delete_reservation i db)"
    using delete_reservations_load [OF assms(2)] by (simp add: delete_reservation_def)
  ultimately have "reservations db' = reservations (delete_reservation i db)" using increment_effect(2) by metis
  then show ?thesis by (simp add: reserved_count_def delete_reservation_def delete_where_le)
qed simp

lemma settle_counts:
  assumes "quota_keys_ok db"
  shows "used_count db u app date \<le> used_count (settle_quota b db) u app date"
    and "\<not> confirming b \<Longrightarrow> used_count (settle_quota b db) u app date = used_count db u app date"
proof -
  have calm: "used_count (settle_quota b db) u app date = used_count db u app date" if "\<not> confirming b" for b
  proof (cases b)
    case (Rollback rid)
    show ?thesis unfolding Rollback settle_quota.simps
      by (rule run_tx_state_cases) (auto simp: rollback_daily_quota_def delete_reservation_def used_count_def usage_of_def
          split: option.splits if_splits)
  next
    case (Reclaim now limit)
    show ?thesis unfolding Reclaim settle_quota.simps
      by (rule run_tx_state_cases) (auto simp: reclaim_expired_reservations_def Let_def used_count_def usage_of_def)
  qed (use that in simp)
  then show "\<not> confirming b \<Longrightarrow> used_count (settle_quota b db) u app date = used_count db u app date" .
  show "used_count db u app date \<le> used_count (settle_quota b db) u app date"
  proof (cases b)
    case (Confirm rid)
    show ?thesis unfolding Confirm settle_quota.simps
    proof (rule run_tx_state_cases)
      fix x db' assume r: "confirm_daily_quota rid db = Inr (x, db')"
      then have r: "confirm_daily_quota rid db = Inr ((), db')" by simp
      show "used_count db u app date \<le> used_count db' u app date"
        using confirm_load(2) [OF r assms, of "(u, app, date)"] confirm_reserved [OF r assms, of u app date]
        by (simp add: quota_load_def)
    qed simp
  qed (use calm [of b] in simp_all)
qed

lemma settle_reserved:
  assumes "quota_keys_ok db"
  shows "reserved_count (settle_quota b db) u app date \<le> reserved_count db u app date"
proof (cases b)
  case (Confirm rid)
  show ?thesis unfolding Confirm settle_quota.simps
    by (rule run_tx_state_cases) (use confirm_reserved [OF _ assms] in auto)
next
  case (Rollback rid)
  show ?thesis unfolding Rollback settle_quota.simps
    by (rule run_tx_state_cases) (auto simp: rollback_daily_quota_def delete_reservation_def reserved_count_def delete_where_le
        split: option.splits if_splits)
next
  case (Reclaim now limit)
  show ?thesis unfolding Reclaim settle_quota.simps
    by (rule run_tx_state_cases) (auto simp: reclaim_expired_reservations_def Let_def reserved_count_def delete_where_le)
qed

lemma wipe_counts:
  assumes "quota_keys_ok db"
  shows "quota_keys_ok (wipe_quota qu qr db)"
    and "used_count (wipe_quota qu qr db) u app date \<in> {used_count db u app date, 0}"
    and "reserved_count (wipe_quota qu qr db) u app date \<le> reserved_count db u app date"
proof -
  show "quota_keys_ok (wipe_quota qu qr db)"
    using assms by (simp add: wipe_quota_def quota_keys_ok_def unique_on_delete)
  show "reserved_count (wipe_quota qu qr db) u app date \<le> reserved_count db u app date"
    by (simp add: wipe_quota_def reserved_count_def delete_where_le)
  show "used_count (wipe_quota qu qr db) u app date \<in> {used_count db u app date, 0}"
  proof (cases "usage_of (wipe_quota qu qr db) u app date")
    case (Some d)
    note d = usage_of_Some [OF Some]
    then have "d \<in> set (daily_usage db)" by (simp add: wipe_quota_def)
    from usage_of_key [OF assms this] d have "usage_of db u app date = Some d" by simp
    with Some show ?thesis by (simp add: used_count_def)
  qed (simp add: used_count_def)
qed

section \<open>The overshoot\<close>

text \<open>
  How far the load \<open>n\<close> may be above the cap when \<open>k\<close> messages were used before: each unit above it
  took one more confirmation than the last one.
\<close>

definition paid_for :: "int \<Rightarrow> int \<Rightarrow> int \<Rightarrow> bool" where
  "paid_for c n k = (0 < n - c \<longrightarrow> (n - c) * (n - c + 1) \<le> 2 * k)"

definition close_to :: "int \<Rightarrow> int \<Rightarrow> bool" where
  "close_to c n = (n \<le> c \<or> (n - c) * (n - c - 1) < 2 * c)"

lemma prod_mono: "0 < (a :: int) \<Longrightarrow> a \<le> b \<Longrightarrow> a * (a + 1) \<le> b * (b + 1)"
  by (intro mult_mono) simp_all

lemma prod_mono': "0 < (a :: int) \<Longrightarrow> a \<le> b \<Longrightarrow> a * (a - 1) \<le> b * (b - 1)"
  by (intro mult_mono) simp_all

lemma paid_for_mono: "paid_for c n k \<Longrightarrow> n' \<le> n \<Longrightarrow> k \<le> k' \<Longrightarrow> paid_for c n' k'"
  unfolding paid_for_def using prod_mono [of "n' - c" "n - c"] by auto

lemma close_to_mono: "close_to c n \<Longrightarrow> n' \<le> n \<Longrightarrow> close_to c n'"
  unfolding close_to_def using prod_mono' [of "n' - c" "n - c"] by (cases "n' \<le> c") auto

text \<open>One more unit, admitted because \<open>k\<close> used messages and the reservations were below the limit.\<close>

lemma admit_close:
  assumes "paid_for c n k" and "k + (n + 1) \<le> l + used" and "l \<le> c" and "0 \<le> k" and "k < c"
  shows "paid_for c (n + 1) used \<and> close_to c (n + 1)"
proof (cases "c \<le> n")
  case True
  define e where "e = n - c"
  have e: "0 \<le> e" "e * (e + 1) \<le> 2 * k" "k + e + 1 \<le> used"
    using True assms(1,2,3,4) by (cases "e = 0"; auto simp: e_def paid_for_def)+
  then have "(e + 1) * (e + 1 + 1) \<le> 2 * used" by (simp add: algebra_simps)
  moreover have "(e + 1) * (e + 1 - 1) < 2 * c" using e(2) assms(5) by (simp add: algebra_simps)
  moreover have n: "n + 1 - c = e + 1" by (simp add: e_def)
  ultimately show ?thesis unfolding paid_for_def close_to_def n by blast
qed (simp add: paid_for_def close_to_def)

text \<open>
  The invariant of a user, product and day, of a racy history and of a calm one. What a half-done
  reservation has read may be more than what is used now, when the account was wiped since.
\<close>

fun race_inv :: "bool \<Rightarrow> int \<Rightarrow> string \<times> string \<times> string \<Rightarrow> 'a quota_db_scheme \<times> open_reserve list \<Rightarrow> bool" where
  "race_inv racy c (u, app, date) (db, ps) =
     (let n = quota_load db (u, app, date); k = used_count db u app date in
      quota_keys_ok db \<and> 0 \<le> k \<and> int (reserved_count db u app date) \<le> c \<and>
      paid_for c n k \<and> close_to c n \<and> (racy \<or> n \<le> c) \<and> distinct (map lock_of ps) \<and>
      (\<forall>p \<in> set ps. 0 < or_limit p \<and> or_limit p \<le> c \<and> (lock_of p = (u, app) \<and> or_date p = date \<longrightarrow>
        0 \<le> or_used p \<and> paid_for c n (or_used p) \<and> (racy \<or> k \<le> or_used p))))"

lemma open_used:
  assumes "open_reserve_quota now rid acc date limit ttl db = Inr p"
  shows "or_limit p = limit" "or_used p = used_count db (or_user p) (or_app p) (or_date p)"
  using assms by (auto simp: open_reserve_quota_def and_then_Inr)

lemma race_wipe_inv:
  assumes inv: "race_inv racy c (u, app, date) (db, ps)"
  shows "race_inv racy c (u, app, date) (wipe_quota qu qr db, ps)"
proof -
  have k: "quota_keys_ok db" using inv by (simp add: Let_def)
  note w = wipe_counts [OF k, of qu qr] wipe_counts(2,3) [OF k, of qu qr u app date]
  have n: "quota_load (wipe_quota qu qr db) (u, app, date) \<le> quota_load db (u, app, date)"
    using w(4,5) inv by (auto simp: quota_load_def Let_def)
  have "paid_for c (quota_load (wipe_quota qu qr db) (u, app, date)) (used_count (wipe_quota qu qr db) u app date)"
  proof (cases "used_count (wipe_quota qu qr db) u app date = used_count db u app date")
    case True
    then show ?thesis using inv n by (auto simp: Let_def intro: paid_for_mono)
  next
    case False
    then show ?thesis using w(4,5) inv by (auto simp: Let_def quota_load_def paid_for_def)
  qed
  moreover have "close_to c (quota_load (wipe_quota qu qr db) (u, app, date))"
    using inv close_to_mono [OF _ n] by (simp add: Let_def)
  moreover have "paid_for c (quota_load (wipe_quota qu qr db) (u, app, date)) (or_used p)"
    if "p \<in> set ps" "lock_of p = (u, app)" "or_date p = date" for p
    using inv that n by (auto simp: Let_def intro: paid_for_mono)
  moreover have "used_count (wipe_quota qu qr db) u app date \<le> used_count db u app date"
    "0 \<le> used_count (wipe_quota qu qr db) u app date" using w(4) inv by (auto simp: Let_def)
  ultimately show ?thesis using inv w(1,5) n unfolding race_inv.simps Let_def by fastforce
qed

lemma race_rest_inv:
  assumes rest: "p \<in> set ps" "finish_reserve_quota p db = Inr (t, db')"
    and inv: "race_inv racy c (u, app, date) (db, ps)"
  shows "race_inv racy c (u, app, date) (db', remove1 p ps)"
proof -
  have k: "quota_keys_ok db" and l: "0 < or_limit p" "or_limit p \<le> c" and c: "int (reserved_count db u app date) \<le> c"
    using inv rest(1) by (auto simp: Let_def)
  note f = finish_counts [OF rest(2) k l(1)]
  have d: "set (remove1 p ps) \<subseteq> set ps" "distinct (map lock_of (remove1 p ps))"
    using inv by (auto simp: Let_def set_remove1_subset distinct_map intro: inj_on_subset dest: set_remove1_subset [THEN subsetD])
  have r: "int (reserved_count db' u app date) \<le> c"
    using f(4) [of u app date] c inv rest(1) l(2) by (fastforce simp: Let_def)
  from f(3) [of u app date] consider "quota_load db' (u, app, date) \<le> quota_load db (u, app, date)"
    | "lock_of p = (u, app)" "or_date p = date" "quota_load db' (u, app, date) \<le> quota_load db (u, app, date) + 1"
      "or_used p + quota_load db' (u, app, date) \<le> or_limit p + used_count db u app date" "or_used p < or_limit p"
      "quota_load db (u, app, date) < quota_load db' (u, app, date)" by fastforce
  then show ?thesis
  proof cases
    case 1
    then show ?thesis
      using inv f(1,2) r d(2) subsetD [OF d(1)] unfolding race_inv.simps Let_def
      by (auto intro: paid_for_mono close_to_mono)
  next
    case 2
    then have n: "quota_load db' (u, app, date) = quota_load db (u, app, date) + 1" by simp
    have p: "paid_for c (quota_load db (u, app, date)) (or_used p)" "0 \<le> or_used p"
      "racy \<or> used_count db u app date \<le> or_used p"
      using inv rest(1) 2(1,2) by (auto simp: Let_def)
    have used: "or_used p < c" using 2(5) l(2) by simp
    note a = admit_close [OF p(1) 2(4) [unfolded n] l(2) p(2) used]
    have u: "distinct (map lock_of ps)" using inv by (simp add: Let_def)
    have gone: "lock_of q \<noteq> (u, app)" if "q \<in> set (remove1 p ps)" for q
    proof
      assume "lock_of q = (u, app)"
      moreover have q: "q \<in> set ps" "q \<noteq> p" using that set_remove1_eq [of ps p] u by (auto simp: distinct_map)
      ultimately show False using u 2(1) rest(1) by (metis distinct_map inj_onD)
    qed
    show ?thesis
      using inv f(1,2) r d(2) subsetD [OF d(1)] a gone p 2 l unfolding race_inv.simps Let_def n
      by auto
  qed
qed

lemma race_step_inv:
  assumes "race_step racy c (db, ps) (db', ps')" and inv: "race_inv racy c (u, app, date) (db, ps)"
  shows "race_inv racy c (u, app, date) (db', ps')"
  using assms(1)
proof cases
  case (half now rid acc date' limit ttl p)
  then show ?thesis using inv open_used [OF half(3)] by (auto simp: Let_def)
next
  case (rest p t)
  then show ?thesis using race_rest_inv [OF rest(2,3) inv] by simp
next
  case (abort p)
  then show ?thesis using inv
    by (auto simp: Let_def distinct_map intro: inj_on_subset dest: set_remove1_subset [THEN subsetD])
next
  case (wipe qu qr)
  then show ?thesis using race_wipe_inv [OF inv] by simp
next
  case (settle b)
  have k: "quota_keys_ok db" using inv by (simp add: Let_def)
  note q = settle_quota_load [OF k, of b "(u, app, date)"] settle_counts(1) [OF k, of u app date b] settle_counts(2) [OF k, of b u app date]
    settle_reserved [OF k, of b u app date]
  show ?thesis
    using inv q settle(3) unfolding settle race_inv.simps Let_def
    by (auto intro: paid_for_mono close_to_mono order_trans)
qed

lemma race_reach_inv:
  assumes "(race_step racy c)\<^sup>*\<^sup>* s s'" and "race_inv racy c key s"
  shows "race_inv racy c key s'"
  using assms
proof (induction rule: rtranclp_induct)
  case (step t u)
  obtain user app date where key: "key = (user, app, date)" by (cases key) auto
  then show ?case
    using race_step_inv [of racy c "fst t" "snd t" "fst u" "snd u"] step by simp
qed

end
