(* ===== verification/Quota_Properties.thy ===== *)
theory Quota_Properties
imports Quota_Race
begin

text \<open>
  What the admission layer guarantees: the daily quota under any interleaving of its
  transactions and of the statements of a reservation, the request limit in any window, and what happens to a confirmation when the
  owner of an account changes during the day.
\<close>

section \<open>The daily quota\<close>

datatype quota_op = Admit int quota_request | Settle quota_settle

fun quota_exec :: "quota_op list \<Rightarrow> 'a quota_db_scheme \<Rightarrow> 'a quota_db_scheme" where
  "quota_exec [] db = db"
| "quota_exec (Admit n q # ops) db = quota_exec ops (snd (admit_quota n q db))"
| "quota_exec (Settle b # ops) db = quota_exec ops (settle_quota b db)"

fun limit_within :: "int \<Rightarrow> quota_op \<Rightarrow> bool" where
  "limit_within c (Admit n q) = (0 < n \<and> n \<le> c)"
| "limit_within c (Settle b) = True"

fun as_exec :: "quota_op \<Rightarrow> (int \<times> quota_request) + quota_settle" where
  "as_exec (Admit n q) = Inl (n, q)"
| "as_exec (Settle b) = Inr b"

lemma quota_exec_locale: "quota_exec ops db = quota.exec_all (map as_exec ops) db"
  by (induction ops db rule: quota_exec.induct) simp_all

lemma limit_within_locale: "quota.cap_within c (as_exec x) = limit_within c x"
  by (cases x) (simp_all add: quota.cap_within_def)

text \<open>When every transaction runs alone the daily quota is never exceeded: under any sequence of
  reservations with limits up to \<open>c\<close>, confirmations, rollbacks and sweeps, of any accounts of the user and
  in any order, the messages counted for a user, product and day plus the live reservations stay below \<open>c\<close>.\<close>

theorem serial_quota_kept:
  assumes "quota_keys_ok db" and "list_all (limit_within c) ops" and "quota_load db key \<le> c"
  shows "quota_load (quota_exec ops db) key \<le> c"
  using quota.load_bounded [OF assms(1) _ assms(3), of "map as_exec ops"] assms(2)
  by (simp add: quota_exec_locale list_all_iff limit_within_locale)

definition quota_sample :: quota_db where
  "quota_sample = \<lparr>users = [], memberships = [\<lparr>m_user = ''user_1'', m_app = ''zhaoxi'', m_status = MActive,
       m_daily_limit = None, m_rpm_limit = None, m_settings = Some [], m_created = 0\<rparr>],
     accounts = [\<lparr>a_id = ''acc_1'', a_channel = None, a_name = None, a_status = ''active'', a_app = ''zhaoxi'',
       a_daily_limit = None, a_rpm_limit = None\<rparr>],
     bindings = [\<lparr>b_id = 1, b_user = ''user_1'', b_account = ''acc_1'', b_method = ''web'',
       b_status = ''active'', b_app = ''zhaoxi'', b_created = 1\<rparr>],
     ownerships = [], universes = [], residents = [], daily_usage = [], reservations = [], rpm_hits = []\<rparr>"

definition sample_request :: "string \<Rightarrow> quota_request" where
  "sample_request rid = \<lparr>qq_now = 0, qq_rid = rid, qq_account = ''acc_1'', qq_date = ''d'', qq_ttl = 15\<rparr>"

definition sample_ops :: "quota_op list" where
  "sample_ops = [Admit 2 (sample_request ''q1''), Admit 2 (sample_request ''q2''), Settle (Confirm (Some ''q1'')),
     Admit 2 (sample_request ''q3''), Settle (Rollback (Some ''q2'')), Admit 2 (sample_request ''q4'')]"

theorem serial_quota_kept_witness:
  "quota_load (quota_exec sample_ops quota_sample) (''user_1'', ''zhaoxi'', ''d'') = 2"
proof -
  have "quota_load (quota_exec sample_ops quota_sample) (''user_1'', ''zhaoxi'', ''d'') \<le> 2"
    by (rule serial_quota_kept; code_simp)
  moreover have "2 \<le> quota_load (quota_exec sample_ops quota_sample) (''user_1'', ''zhaoxi'', ''d'')" by code_simp
  ultimately show ?thesis by simp
qed

text \<open>C29: how far the daily quota can be exceeded. The transactions interleave statement by statement:
  while a reservation has read the used messages and not yet the reservations, any confirmation, rollback,
  sweep or account wipe may commit. Under limits up to \<open>c\<close> the messages counted for a user, product and day plus the live
  reservations stay within \<open>c\<close> as long as no confirmation commits in such a gap. Otherwise they may be
  above \<open>c\<close> by some \<open>e\<close>, and then \<open>e * (e - 1) < 2 * c\<close>: by one for a limit of one, by at most four for
  a limit of ten.\<close>

theorem daily_quota_overshoot:
  assumes "(race_step racy c)\<^sup>*\<^sup>* (db, []) (db', ps)" and "quota_keys_ok db"
    and "0 \<le> used_count db u app date" and "quota_load db (u, app, date) \<le> c"
  shows "(\<not> racy \<longrightarrow> quota_load db' (u, app, date) \<le> c) \<and>
    (quota_load db' (u, app, date) \<le> c \<or>
      (quota_load db' (u, app, date) - c) * (quota_load db' (u, app, date) - c - 1) < 2 * c)"
proof -
  have "race_inv racy c (u, app, date) (db, [])"
    using assms(2-4) by (simp add: Let_def paid_for_def close_to_def quota_load_def)
  from race_reach_inv [OF assms(1) this] show ?thesis by (auto simp: Let_def close_to_def)
qed

text \<open>The race, under a limit of one: the only message is reserved, the next reservation reads that none
  is used, the first one is confirmed, and the next reservation finds no other.\<close>

definition race_open :: "string \<Rightarrow> quota_db \<Rightarrow> open_reserve" where
  "race_open rid db = (case open_reserve_quota 0 rid ''acc_1'' ''d'' 1 15 db of Inr p \<Rightarrow> p | Inl _ \<Rightarrow> undefined)"

definition race_rest :: "string \<Rightarrow> quota_db \<Rightarrow> quota_db \<Rightarrow> quota_db" where
  "race_rest rid seen db = (case finish_reserve_quota (race_open rid seen) db of Inr (_, db') \<Rightarrow> db' | Inl _ \<Rightarrow> db)"

definition race_held :: quota_db where
  "race_held = race_rest ''q1'' quota_sample quota_sample"

definition race_done :: quota_db where
  "race_done = race_rest ''q2'' race_held (settle_quota (Confirm (Some ''q1'')) race_held)"

lemma race_history: "(race_step True 1)\<^sup>*\<^sup>* (quota_sample, []) (race_done, [])"
proof -
  have o: "open_reserve_quota 0 rid ''acc_1'' ''d'' 1 15 db = Inr (race_open rid db)"
    if "case open_reserve_quota 0 rid ''acc_1'' ''d'' 1 15 db of Inr _ \<Rightarrow> True | Inl _ \<Rightarrow> False" for rid and db :: quota_db
    using that by (simp add: race_open_def split: sum.splits)
  have f: "\<exists>t. finish_reserve_quota (race_open rid seen) db = Inr (t, race_rest rid seen db)"
    if "case finish_reserve_quota (race_open rid seen) db of Inr _ \<Rightarrow> True | Inl _ \<Rightarrow> False" for rid seen and db :: quota_db
    using that by (auto simp: race_rest_def split: sum.splits)
  let ?c = "settle_quota (Confirm (Some ''q1'')) race_held"
  have 1: "race_step True 1 (quota_sample, []) (quota_sample, [race_open ''q1'' quota_sample])"
    by (rule race_step.half [OF o]) (code_simp, simp_all)
  have "\<exists>t. finish_reserve_quota (race_open ''q1'' quota_sample) quota_sample = Inr (t, race_held)"
    unfolding race_held_def by (rule f) code_simp
  then have 2: "race_step True 1 (quota_sample, [race_open ''q1'' quota_sample]) (race_held, [])"
    using race_step.rest [where ps = "[race_open ''q1'' quota_sample]" and p = "race_open ''q1'' quota_sample"] by fastforce
  have 3: "race_step True 1 (race_held, []) (race_held, [race_open ''q2'' race_held])"
    by (rule race_step.half [OF o]) (code_simp, simp_all)
  have 4: "race_step True 1 (race_held, [race_open ''q2'' race_held]) (?c, [race_open ''q2'' race_held])"
    by (rule race_step.settle) simp
  have "\<exists>t. finish_reserve_quota (race_open ''q2'' race_held) ?c = Inr (t, race_done)"
    unfolding race_done_def by (rule f) code_simp
  then have 5: "race_step True 1 (?c, [race_open ''q2'' race_held]) (race_done, [])"
    using race_step.rest [where ps = "[race_open ''q2'' race_held]" and p = "race_open ''q2'' race_held"] by fastforce
  show ?thesis using 1 2 3 4 5 by (meson converse_rtranclp_into_rtranclp rtranclp.rtrancl_refl)
qed

theorem daily_quota_overshoot_witness:
  "\<exists>db'. (race_step True 1)\<^sup>*\<^sup>* (quota_sample, []) (db', []) \<and> quota_load db' (''user_1'', ''zhaoxi'', ''d'') = 2"
proof -
  have k: "quota_keys_ok quota_sample" "0 \<le> used_count quota_sample ''user_1'' ''zhaoxi'' ''d''"
    "quota_load quota_sample (''user_1'', ''zhaoxi'', ''d'') \<le> 1" by code_simp+
  have "2 \<le> quota_load race_done (''user_1'', ''zhaoxi'', ''d'')" by code_simp
  moreover have "quota_load race_done (''user_1'', ''zhaoxi'', ''d'') \<le> 2"
  proof (rule ccontr)
    define e where "e = quota_load race_done (''user_1'', ''zhaoxi'', ''d'') - 1"
    assume "\<not> ?thesis"
    then have e: "2 \<le> e" by (simp add: e_def)
    then have "2 * 1 \<le> e * (e - 1)" by (intro mult_mono) simp_all
    then show False using daily_quota_overshoot [OF race_history k] e by (auto simp: e_def)
  qed
  ultimately show ?thesis using race_history by (intro exI [of _ race_done]) simp
qed

text \<open>A message is counted at most once. Confirming a live reservation counts one message of its
  user, product and day and frees the reservation, every other key keeps its count, and confirming or
  rolling back the same token again does nothing.\<close>

theorem confirm_counts_once:
  assumes r: "confirm_daily_quota (Some rid) db = Inr ((), db')" and k: "quota_keys_ok db"
    and row: "row \<in> set (reservations db)" "qr_id row = rid" and ne: "rid \<noteq> []"
  shows "used_count db' u app date =
      used_count db u app date + (if u = qr_user row \<and> app = qr_app row \<and> date = qr_date row then 1 else 0) \<and>
    rid \<notin> qr_id ` set (reservations db') \<and>
    confirm_daily_quota (Some rid) db' = Inr ((), db') \<and>
    (\<exists>db2. rollback_daily_quota (Some rid) db' = Inr ((), db2) \<and> quota_load db2 key = quota_load db' key)"
proof -
  have u: "unique_on (\<lambda>_. True) qr_id (reservations db)" using k by (simp add: quota_keys_ok_def)
  have f: "find_row (\<lambda>r. qr_id r = rid) (reservations db) = Some row"
    using row unique_onD [OF u] by (intro find_row_unique) auto
  have one: "count_where (\<lambda>r. qr_id r = rid) (reservations db) = 1"
    using count_where_key [OF u row(1), of "\<lambda>r. qr_id r = rid"] row(2) by simp
  from r f one ne obtain n where n: "increment_daily_usage_in_scope (qr_account row) (qr_user row) (qr_app row)
      (qr_date row) (delete_reservation rid db) = Inr (n, db')"
    by (auto simp: confirm_daily_quota_def and_then_Inr split: if_splits)
  have kd: "quota_keys_ok (delete_reservation rid db)"
    using delete_reservations_load [OF k] by (simp add: delete_reservation_def)
  note e = increment_effect [OF n kd]
  have "used_count (delete_reservation rid db) u app date = used_count db u app date"
    by (simp add: used_count_def usage_of_def delete_reservation_def)
  with e(4) have 1: "used_count db' u app date =
      used_count db u app date + (if u = qr_user row \<and> app = qr_app row \<and> date = qr_date row then 1 else 0)"
    by simp
  have gone: "rid \<notin> qr_id ` set (reservations db')"
    using e(2) by (auto simp: delete_reservation_def)
  then have nof: "find_row (\<lambda>r. qr_id r = rid) (reservations db') = None"
    by (auto simp: find_row_None)
  have "reservations (delete_reservation rid db') = reservations db'"
    using gone by (auto simp: delete_reservation_def delete_where_def intro!: filter_True)
  then have "quota_load (delete_reservation rid db') key = quota_load db' key"
    by (simp add: quota_load_def reserved_count_def used_count_def usage_of_def delete_reservation_def split: prod.split)
  with 1 gone nof ne show ?thesis
    by (simp add: confirm_daily_quota_def rollback_daily_quota_def)
qed

definition reserved_sample :: quota_db where
  "reserved_sample = quota_sample\<lparr>reservations := [\<lparr>qr_id = ''q1'', qr_user = ''user_1'', qr_app = ''zhaoxi'',
     qr_date = ''d'', qr_account = ''acc_1'', qr_expires = 900\<rparr>]\<rparr>"

theorem confirm_counts_once_witness:
  "\<exists>db'. confirm_daily_quota (Some ''q1'') reserved_sample = Inr ((), db') \<and> used_count db' ''user_1'' ''zhaoxi'' ''d'' = 1 \<and>
     confirm_daily_quota (Some ''q1'') db' = Inr ((), db')"
proof -
  have "(case confirm_daily_quota (Some ''q1'') reserved_sample of Inl _ \<Rightarrow> False | Inr (_, s) \<Rightarrow> True)"
    and k: "quota_keys_ok reserved_sample"
    and z: "used_count reserved_sample ''user_1'' ''zhaoxi'' ''d'' = 0"
    by code_simp+
  then obtain db' where 1: "confirm_daily_quota (Some ''q1'') reserved_sample = Inr ((), db')"
    by (cases "confirm_daily_quota (Some ''q1'') reserved_sample") auto
  have r: "hd (reservations reserved_sample) \<in> set (reservations reserved_sample)"
    "qr_id (hd (reservations reserved_sample)) = ''q1''" by (simp_all add: reserved_sample_def)
  have f: "qr_user (hd (reservations reserved_sample)) = ''user_1''"
    "qr_app (hd (reservations reserved_sample)) = ''zhaoxi''"
    "qr_date (hd (reservations reserved_sample)) = ''d''" by (simp_all add: reserved_sample_def)
  from confirm_counts_once [OF 1 k r, of "''user_1''" "''zhaoxi''" "''d''"] 1 z f
  show ?thesis by (auto simp del: list.set_sel)
qed

text \<open>C35: \<open>UNIQUE(account_id, date)\<close> of the baseline schema is still in force beside the index the
  statement names as its conflict target. When an account already has a row for the day under another
  subject (it was counted as an ownerless account before it was bound to a user the same day), every
  confirmation of the day raises: the message is not counted and its reservation stays until it expires.\<close>

theorem confirm_after_owner_change_raises:
  assumes row: "find_row (\<lambda>r. qr_id r = rid) (reservations db) = Some row" and ne: "rid \<noteq> []"
    and sc: "require_quota_scope db (qr_account row) = Inr sc" "qs_subject sc = qr_user row" "qs_app sc = qr_app row"
    and k: "quota_keys_ok db"
    and none: "usage_of db (qr_user row) (qr_app row) (qr_date row) = None"
    and old: "d \<in> set (daily_usage db)" "du_account d = qr_account row" "du_date d = qr_date row"
  shows "run_tx (confirm_daily_quota (Some rid)) db =
    (Inl (IntegrityError ''daily_usage_account_id_date_key''), db)"
proof -
  have u: "unique_on (\<lambda>_. True) qr_id (reservations db)" using k by (simp add: quota_keys_ok_def)
  note r = find_row_Some [OF row]
  have one: "count_where (\<lambda>r. qr_id r = rid) (reservations db) = 1"
    using count_where_key [OF u, of row "\<lambda>r. qr_id r = rid"] r by simp
  have "usage_of (delete_reservation rid db) (qr_user row) (qr_app row) (qr_date row) = None"
    using none by (simp add: usage_of_def delete_reservation_def)
  moreover have "list_ex (\<lambda>d. du_account d = qr_account row \<and> du_date d = qr_date row)
      (daily_usage (delete_reservation rid db))"
    using old by (auto simp: list_ex_iff delete_reservation_def)
  ultimately have "confirm_daily_quota (Some rid) db = Inl (IntegrityError ''daily_usage_account_id_date_key'')"
    using row ne sc one by (simp add: confirm_daily_quota_def increment_daily_usage_in_scope_def)
  then show ?thesis by simp
qed

definition rebound_sample :: quota_db where
  "rebound_sample = reserved_sample\<lparr>daily_usage := [\<lparr>du_account = ''acc_1'', du_user = ''acc_1'', du_app = ''zhaoxi'',
     du_date = ''d'', du_count = 3\<rparr>]\<rparr>"

theorem confirm_after_owner_change_raises_witness:
  "run_tx (confirm_daily_quota (Some ''q1'')) rebound_sample =
    (Inl (IntegrityError ''daily_usage_account_id_date_key''), rebound_sample)"
proof (rule confirm_after_owner_change_raises)
  show "find_row (\<lambda>r. qr_id r = ''q1'') (reservations rebound_sample) = Some (hd (reservations rebound_sample))"
    by (simp add: rebound_sample_def reserved_sample_def)
  show "require_quota_scope rebound_sample (qr_account (hd (reservations rebound_sample))) =
      Inr \<lparr>qs_user = Some ''user_1'', qs_subject = ''user_1'', qs_app = ''zhaoxi''\<rparr>"
    by code_simp
  show "quota_keys_ok rebound_sample" by code_simp
  show "hd (daily_usage rebound_sample) \<in> set (daily_usage rebound_sample)" by (simp add: rebound_sample_def)
qed (simp_all add: rebound_sample_def reserved_sample_def usage_of_def)

section \<open>The request limit\<close>

text \<open>No window holds more requests than the limit. For requests of one subject at times in order,
  under a limit \<open>n > 0\<close>, at most \<open>n\<close> of the requests that pass lie in any interval of the window's length.\<close>

theorem rpm_window_bound:
  assumes "0 < n" and "sorted ts" and "hits_of subject db = []"
  shows "int (in_window x (max window (1 / 1000)) (fst (run_rpm subject n window ts db))) \<le> n"
proof (cases ts)
  case Nil
  with assms(1) show ?thesis by (simp add: in_window_def)
next
  case (Cons t us)
  have "sorted ((t - max window (1 / 1000)) # map (\<lambda>t. t - max window (1 / 1000)) ts)"
    using assms(2) by (auto simp: Cons sorted_map)
  from rpm_window_aux [OF assms(1) this, of subject db "[]" x] assms(1,3)
  show ?thesis by (simp add: in_window_def)
qed

theorem rpm_window_bound_witness:
  "in_window 0 60 (fst (run_rpm ''s'' 2 60 [1, 2, 3, 61, 62, 70] quota_sample)) = 2 \<and>
   fst (run_rpm ''s'' 2 60 [1, 2, 3, 61, 62, 70] quota_sample) = [1, 2, 62, 70]"
proof -
  have v: "fst (run_rpm ''s'' 2 60 [1, 2, 3, 61, 62, 70] quota_sample) = [1, 2, 62, 70]"
    by (simp add: check_rpm_def quota_sample_def Let_def delete_where_def)
  have "int (in_window 0 60 (fst (run_rpm ''s'' 2 60 [1, 2, 3, 61, 62, 70] quota_sample))) \<le> 2"
    using rpm_window_bound [of 2 "[1, 2, 3, 61, 62, 70]" "''s''" quota_sample 0 60]
    by (simp add: hits_of_def quota_sample_def)
  with v show ?thesis by (simp add: in_window_def)
qed

end
