(* ===== verification/Referral.thy ===== *)
theory Referral
imports Billing_Contract
begin

text \<open>
  Invitations (\<^verbatim>\<open>app/db/billing.py\<close>): invite codes, the relationship between inviter and
  invitee with its states, the count of meaningful messages, the delayed release of suspicious
  rewards and the reward itself, a posting to the inviter's wallet. The tables extend the
  billing database. The uuids of new ids and codes are arguments. A time stamp
  inside a metadata dict is \<open>JInt\<close> of its seconds, like the columns.
\<close>

section \<open>Tables\<close>

record referral_code =
  rc_id :: string
  rc_user :: "string option"
  rc_app :: string
  rc_code :: string
  rc_type :: string
  rc_status :: string
  rc_max :: "int option"
  rc_used :: int
  rc_expires :: "int option"
  rc_meta :: "dict option"
  rc_created :: int

datatype rel_status = PendingRegistration | Registered | Bound | Qualified | Rewarded

datatype review_status = RPending | RPassed | RFailed

record relationship =
  rr_id :: string
  rr_inviter :: string
  rr_invitee :: string
  rr_code :: string
  rr_app :: string
  rr_status :: rel_status
  rr_count :: int
  rr_review :: review_status
  rr_reward :: "string option"
  rr_meta :: "dict option"
  rr_created :: int
  rr_updated :: int
  rr_rewarded :: "int option"

record message_review =
  mr_id :: string
  mr_rel :: string
  mr_invitee :: string
  mr_account :: string
  mr_app :: string
  mr_messages :: "json list"
  mr_reviewer :: string
  mr_status :: review_status
  mr_reason :: string
  mr_meta :: "dict option"

record message_row =
  mg_id :: int
  mg_account :: string
  mg_direction :: string
  mg_role :: string
  mg_type :: string
  mg_content :: "ustr option"

record phone_verification =
  pv_id :: string
  pv_phone :: string
  pv_token :: "string option"
  pv_expires :: "int option"
  pv_consumed :: "int option"

record referral_db = wallet_db +
  verifications :: "phone_verification list"
  messages :: "message_row list"
  codes :: "referral_code list"
  relationships :: "relationship list"
  reviews :: "message_review list"

definition REFERRAL_QUALIFYING_MESSAGE_COUNT :: nat where "REFERRAL_QUALIFYING_MESSAGE_COUNT = 3"
definition REFERRAL_SOFT_REVIEW_WINDOW_DAYS :: int where "REFERRAL_SOFT_REVIEW_WINDOW_DAYS = 7"
definition REFERRAL_SOFT_REVIEW_REGISTRATION_LIMIT :: nat where "REFERRAL_SOFT_REVIEW_REGISTRATION_LIMIT = 5"
definition REFERRAL_SOFT_REVIEW_REWARD_DELAY_DAYS :: int where "REFERRAL_SOFT_REVIEW_REWARD_DELAY_DAYS = 3"
definition REFERRAL_CODE_GENERATION_RETRIES :: nat where "REFERRAL_CODE_GENERATION_RETRIES = 20"

definition days :: "int \<Rightarrow> int" where "days n = n * 86400"

section \<open>Invite codes\<close>

text \<open>The empty string is false in Python's tests of \<open>platform_user_id\<close> and \<open>reward_ledger_id\<close>.\<close>

definition nonempty :: "string option \<Rightarrow> string option" where
  "nonempty v = (case v of None \<Rightarrow> None | Some s \<Rightarrow> if s = [] then None else Some s)"

definition code_open :: "int \<Rightarrow> string \<Rightarrow> referral_code \<Rightarrow> bool" where
  "code_open now app c = (rc_app c = app \<and> rc_status c = ''active'' \<and>
     (case rc_expires c of None \<Rightarrow> True | Some t \<Rightarrow> now < t) \<and>
     (case rc_max c of None \<Rightarrow> True | Some n \<Rightarrow> rc_used c < n))"

definition get_usable_referral_code ::
  "int \<Rightarrow> string \<Rightarrow> string \<Rightarrow> 'a referral_db_scheme \<Rightarrow> referral_code option" where
  "get_usable_referral_code now code app db =
     find_row (\<lambda>c. rc_code c = code \<and> code_open now app c \<and>
       (case rc_user c of None \<Rightarrow> True | Some u \<Rightarrow>
          list_ex (\<lambda>m. m_user m = u \<and> m_app m = rc_app c \<and> m_status m = MActive) (memberships db))) (codes db)"

definition referral_code_unavailable_reason :: "referral_code option \<Rightarrow> string" where
  "referral_code_unavailable_reason row = (case row of None \<Rightarrow> ''invalid''
     | Some c \<Rightarrow> if rc_status c \<noteq> ''active'' then ''disabled''
         else if (case rc_max c of None \<Rightarrow> False | Some n \<Rightarrow> n \<le> rc_used c) then ''max_uses_exceeded''
         else ''invalid'')"

record code_check =
  cc_valid :: bool
  cc_reason :: "string option"
  cc_code :: "string option"
  cc_row :: "referral_code option"

definition validate_referral_code ::
  "registry \<Rightarrow> int \<Rightarrow> string option \<Rightarrow> string \<Rightarrow> 'a referral_db_scheme \<Rightarrow> code_check res" where
  "validate_referral_code reg now code expected_app_id db =
     and_then (registered_app_id reg expected_app_id) (\<lambda>app.
       case nonempty (normalize_referral_code code) of
         None \<Rightarrow> Inr \<lparr>cc_valid = False, cc_reason = Some ''missing'', cc_code = None, cc_row = None\<rparr>
       | Some normalized \<Rightarrow>
         let any_row = find_row (\<lambda>c. rc_code c = normalized \<and> rc_app c = app) (codes db)
         in (case get_usable_referral_code now normalized app db of
           None \<Rightarrow>
             let reason = (case any_row of None \<Rightarrow> ''invalid''
               | Some c \<Rightarrow> if rc_status c \<noteq> ''active'' then ''disabled''
                   else (case rc_expires c of
                       Some t \<Rightarrow> if t \<le> now then ''expired'' else referral_code_unavailable_reason any_row
                     | None \<Rightarrow> if (case rc_max c of None \<Rightarrow> False | Some n \<Rightarrow> n \<le> rc_used c)
                               then ''max_uses_exceeded'' else ''invalid''))
             in Inr \<lparr>cc_valid = False, cc_reason = Some reason, cc_code = Some normalized, cc_row = None\<rparr>
         | Some c \<Rightarrow> Inr \<lparr>cc_valid = True, cc_reason = None, cc_code = Some normalized, cc_row = Some c\<rparr>))"

record code_preview =
  cp_code :: string
  cp_type :: string
  cp_app :: string
  cp_inviter :: "string option"

text \<open>
  The inviter's display name: the user's, or that of the account of the user's first active
  binding in the product (the left joins leave it empty when there is none).
\<close>

definition inviter_name :: "string \<Rightarrow> string \<Rightarrow> 'a identity_db_scheme \<Rightarrow> string option" where
  "inviter_name app u db = (case find_row (\<lambda>x. u_id x = u) (users db) of None \<Rightarrow> None
     | Some user \<Rightarrow> (case nonempty (u_name user) of Some n \<Rightarrow> Some n
         | None \<Rightarrow> (case first_by (\<lambda>b. (b_created b, b_id b))
               (filter (\<lambda>b. b_user b = u \<and> b_status b = ''active'' \<and> b_app b = app) (bindings db)) of
             None \<Rightarrow> None
           | Some b \<Rightarrow> (case find_row (\<lambda>a. a_id a = b_account b \<and> a_app a = app) (accounts db) of
               None \<Rightarrow> None | Some a \<Rightarrow> nonempty (a_name a)))))"

definition preview_referral_code ::
  "registry \<Rightarrow> int \<Rightarrow> string option \<Rightarrow> string \<Rightarrow> 'a referral_db_scheme \<Rightarrow> (code_check + code_preview) res" where
  "preview_referral_code reg now code expected_app_id db =
     and_then (registered_app_id reg expected_app_id) (\<lambda>app.
       and_then (validate_referral_code reg now code app db) (\<lambda>v.
         case (cc_valid v, cc_row v) of
           (True, Some c) \<Rightarrow> Inr (Inr \<lparr>cp_code = rc_code c, cp_type = rc_type c, cp_app = app,
             cp_inviter = (case nonempty (rc_user c) of None \<Rightarrow> None | Some u \<Rightarrow> inviter_name app u db)\<rparr>)
         | _ \<Rightarrow> Inr (Inl v)))"

definition personal :: "string \<Rightarrow> string \<Rightarrow> referral_code \<Rightarrow> bool" where
  "personal u app c = (rc_user c = Some u \<and> rc_app c = app \<and> rc_type c = ''personal'')"

definition insert_code :: "referral_code \<Rightarrow> 'a referral_db_scheme \<Rightarrow> 'a referral_db_scheme res" where
  "insert_code c db =
     (if rc_id c \<in> rc_id ` set (codes db) then Inl (IntegrityError ''referral_codes_pkey'')
      else if rc_code c \<in> rc_code ` set (codes db) then Inl (IntegrityError ''referral_codes_code_key'')
      else if (case rc_user c of None \<Rightarrow> False
               | Some u \<Rightarrow> rc_type c = ''personal'' \<and> list_ex (personal u (rc_app c)) (codes db))
      then Inl (IntegrityError ''ux_referral_codes_personal_user_app'')
      else Inr (db\<lparr>codes := codes db @ [c]\<rparr>))"

definition get_personal_code :: "string \<Rightarrow> string \<Rightarrow> 'a referral_db_scheme \<Rightarrow> referral_code option" where
  "get_personal_code u app db =
     first_by (\<lambda>c. (rc_created c, rc_id c)) (filter (personal u app) (codes db))"

text \<open>
  The retry loop: each attempt runs in a savepoint with a fresh id and code, an
  \<open>IntegrityError\<close> rolls it back and, when no concurrent writer has made the row, tries again.
\<close>

fun insert_code_attempts ::
  "(int \<times> int \<Rightarrow> referral_code) \<Rightarrow> (int \<times> int) list \<Rightarrow> 'a referral_db_scheme \<Rightarrow>
     'a referral_db_scheme res" where
  "insert_code_attempts mk [] db = Inl (RuntimeError ''failed to generate a unique referral code'')"
| "insert_code_attempts mk (a # as) db =
     (case insert_code (mk a) db of
        Inr db' \<Rightarrow> Inr db'
      | Inl (IntegrityError _) \<Rightarrow>
          (case get_personal_code (the (rc_user (mk a))) (rc_app (mk a)) db of
             Some _ \<Rightarrow> Inr db | None \<Rightarrow> insert_code_attempts mk as db)
      | Inl e \<Rightarrow> Inl e)"

definition get_or_create_personal_referral_code_for_user ::
  "registry \<Rightarrow> int \<Rightarrow> (nat \<Rightarrow> int \<times> int) \<Rightarrow> string \<Rightarrow> string \<Rightarrow> 'a referral_db_scheme \<Rightarrow>
     (referral_code \<times> 'a referral_db_scheme) res" where
  "get_or_create_personal_referral_code_for_user reg now gen u app_id db =
     and_then (registered_app_id reg app_id) (\<lambda>app.
       if find_row (\<lambda>x. u_id x = u) (users db) = None then Inl (ValueError ''platform_user not found'')
       else and_then (require_active_product_membership reg db u app) (\<lambda>_.
         case get_personal_code u app db of
           Some c \<Rightarrow> Inr (c, db)
         | None \<Rightarrow> and_then (insert_code_attempts
             (\<lambda>(i, j). \<lparr>rc_id = new_id ''refcode'' i, rc_user = Some u, rc_app = app, rc_code = new_referral_code j, rc_type = ''personal'',
                rc_status = ''active'', rc_max = None, rc_used = 0, rc_expires = None, rc_meta = Some [],
                rc_created = now\<rparr>)
             (map gen [0..<REFERRAL_CODE_GENERATION_RETRIES]) db) (\<lambda>db1.
               case get_personal_code u app db1 of
                 None \<Rightarrow> Inl (RuntimeError ''referral_code was not created'')
               | Some c \<Rightarrow> Inr (c, db1))))"

section \<open>Relationships\<close>

definition load_referral_metadata :: "relationship \<Rightarrow> dict" where
  "load_referral_metadata r = load_json (rr_meta r)"

definition get_rel :: "string \<Rightarrow> string \<Rightarrow> 'a referral_db_scheme \<Rightarrow> relationship option" where
  "get_rel rid app db = find_row (\<lambda>r. rr_id r = rid \<and> rr_app r = app) (relationships db)"

definition set_rels ::
  "(relationship \<Rightarrow> bool) \<Rightarrow> (relationship \<Rightarrow> relationship) \<Rightarrow> 'a referral_db_scheme \<Rightarrow> 'a referral_db_scheme" where
  "set_rels p f db = db\<lparr>relationships := update_where p f (relationships db)\<rparr>"

text \<open>Of a found row, or the \<open>TypeError\<close> of subscripting \<open>None\<close>.\<close>

definition the_row :: "'r option \<Rightarrow> 'r res" where
  "the_row r = (case r of None \<Rightarrow> Inl (RuntimeError ''NoneType is not subscriptable'') | Some x \<Rightarrow> Inr x)"

definition insert_relationship :: "relationship \<Rightarrow> 'a referral_db_scheme \<Rightarrow> 'a referral_db_scheme res" where
  "insert_relationship r db =
     (if rr_id r \<in> rr_id ` set (relationships db) then Inl (IntegrityError ''referral_relationships_pkey'')
      else if (rr_invitee r, rr_app r) \<in> (\<lambda>x. (rr_invitee x, rr_app x)) ` set (relationships db)
      then Inl (IntegrityError ''ux_referral_relationships_invitee_app'')
      else Inr (db\<lparr>relationships := relationships db @ [r]\<rparr>))"

definition mark_referral_soft_review_if_needed ::
  "int \<Rightarrow> string \<Rightarrow> string \<Rightarrow> string \<Rightarrow> 'a referral_db_scheme \<Rightarrow> 'a referral_db_scheme" where
  "mark_referral_soft_review_if_needed now rid inviter app db =
     (let recent_count = count_where (\<lambda>r. rr_inviter r = inviter \<and> rr_app r = app \<and>
            rr_status r \<in> {Registered, Bound, Qualified, Rewarded} \<and> rr_review r \<noteq> RFailed \<and>
            now - days REFERRAL_SOFT_REVIEW_WINDOW_DAYS \<le> rr_created r) (relationships db)
      in if recent_count \<le> REFERRAL_SOFT_REVIEW_REGISTRATION_LIMIT then db
         else (case get_rel rid app db of
           None \<Rightarrow> db
         | Some row \<Rightarrow>
             let metadata = dict_update (load_referral_metadata row)
               [(''soft_review_required'', JBool True),
                (''soft_review_reason'', JStr ''inviter_recent_registration_limit''),
                (''soft_review_window_days'', JInt REFERRAL_SOFT_REVIEW_WINDOW_DAYS),
                (''soft_review_registration_limit'', JInt (int REFERRAL_SOFT_REVIEW_REGISTRATION_LIMIT)),
                (''inviter_recent_registration_count'', JInt (int recent_count))]
             in set_rels (\<lambda>r. rr_id r = rid \<and> rr_app r = app)
                  (\<lambda>r. r\<lparr>rr_meta := Some metadata, rr_updated := now\<rparr>) db))"

section \<open>Registration\<close>

definition consume_verified_token ::
  "int \<Rightarrow> string \<Rightarrow> string \<Rightarrow> 'a referral_db_scheme \<Rightarrow> 'a referral_db_scheme res" where
  "consume_verified_token now token phone db =
     (let p = (\<lambda>v. pv_token v = Some token \<and> pv_phone v = phone \<and> pv_consumed v = None \<and>
                (case pv_expires v of None \<Rightarrow> False | Some t \<Rightarrow> now < t))
      in if count_where p (verifications db) = 0 then Inl (ValueError ''invalid_otp_token'')
         else Inr (db\<lparr>verifications := update_where p (\<lambda>v. v\<lparr>pv_consumed := Some now\<rparr>) (verifications db)\<rparr>))"

text \<open>\<open>INSERT ... ON CONFLICT(phone) DO NOTHING\<close> and whether it inserted.\<close>

definition insert_user :: "platform_user \<Rightarrow> 'a identity_db_scheme \<Rightarrow> (bool \<times> 'a identity_db_scheme) res" where
  "insert_user u db =
     (if u_phone u \<in> u_phone ` set (users db) then Inr (False, db)
      else if u_id u \<in> u_id ` set (users db) then Inl (IntegrityError ''platform_users_pkey'')
      else Inr (True, db\<lparr>users := users db @ [u]\<rparr>))"

definition last4 :: "string \<Rightarrow> string" where
  "last4 s = drop (length s - 4) s"

text \<open>
  The use of an invite code by a new membership: the relationship with its inviter, when the
  code has one, and the guarded increment of \<open>used_count\<close>.
\<close>

definition use_invite_code ::
  "int \<Rightarrow> int \<Rightarrow> string \<Rightarrow> string \<Rightarrow> string \<Rightarrow> string \<Rightarrow> 'a referral_db_scheme \<Rightarrow>
     (relationship option \<times> 'a referral_db_scheme) res" where
  "use_invite_code now uuid u phone code app db = (let rid = new_id ''refrel'' uuid in
     case get_usable_referral_code now code app db of
        None \<Rightarrow> Inl (ValueError ''invalid_invite_code'')
      | Some c \<Rightarrow> and_then
          (case nonempty (rc_user c) of
             None \<Rightarrow> Inr db
           | Some inviter \<Rightarrow>
               if inviter = u then Inl (ValueError ''cannot_self_invite'')
               else and_then (insert_relationship
                 \<lparr>rr_id = rid, rr_inviter = inviter, rr_invitee = u, rr_code = rc_id c, rr_app = app,
                  rr_status = Registered, rr_count = 0, rr_review = RPending, rr_reward = None,
                  rr_meta = Some [(''invite_code'', JStr code), (''registration_phone_last4'', JStr (last4 phone))],
                  rr_created = now, rr_updated = now, rr_rewarded = None\<rparr> db)
                 (\<lambda>db1. Inr (mark_referral_soft_review_if_needed now rid inviter app db1)))
          (\<lambda>db2. let p = (\<lambda>x. rc_id x = rc_id c \<and> code_open now app x)
             in if count_where p (codes db2) = 0 then Inl (ValueError ''invalid_invite_code'')
                else let db3 = db2\<lparr>codes := update_where p (\<lambda>x. x\<lparr>rc_used := rc_used x + 1\<rparr>) (codes db2)\<rparr>
                in Inr (if nonempty (rc_user c) = None then None else get_rel rid app db3, db3)))"

record registration =
  rg_user :: platform_user
  rg_new_user :: bool
  rg_new_membership :: bool
  rg_relationship :: "relationship option"

definition register_platform_user_with_referral ::
  "registry \<Rightarrow> int \<Rightarrow> int \<Rightarrow> int \<Rightarrow> string \<Rightarrow> string option \<Rightarrow> string option \<Rightarrow> string option \<Rightarrow> string \<Rightarrow>
     'a referral_db_scheme \<Rightarrow> (registration \<times> 'a referral_db_scheme) res" where
  "register_platform_user_with_referral reg now user_uuid rel_uuid phone display_name invite_code verified_token app_id db =
     and_then (normalize_phone phone) (\<lambda>normalized_phone.
       and_then (registered_app_id reg app_id) (\<lambda>app.
         and_then (case verified_token of None \<Rightarrow> Inr db
             | Some token \<Rightarrow> consume_verified_token now token normalized_phone db) (\<lambda>db1.
           and_then (insert_user \<lparr>u_id = new_id ''user'' user_uuid, u_phone = normalized_phone, u_name = clean_text display_name,
               u_avatar = None, u_status = ''active''\<rparr> db1) (\<lambda>(is_new_user, db2).
             case find_row (\<lambda>x. u_phone x = normalized_phone) (users db2) of
               None \<Rightarrow> Inl (RuntimeError ''platform_user upsert failed'')
             | Some identity \<Rightarrow>
                 let u = u_id identity;
                     db3 = (if is_new_user then db2 else db2\<lparr>users := update_where (\<lambda>x. u_id x = u)
                       (\<lambda>x. x\<lparr>u_name := (case clean_text display_name of None \<Rightarrow> u_name x | Some n \<Rightarrow> Some n)\<rparr>)
                       (users db2)\<rparr>)
                 in and_then (ensure_product_membership reg now u app db3) (\<lambda>((m, is_new), db4).
                   if m_status m \<noteq> MActive then Inl (ValueError ''product_membership_disabled'')
                   else and_then (case nonempty (normalize_referral_code invite_code) of
                       Some code \<Rightarrow> if is_new then use_invite_code now rel_uuid u normalized_phone code app db4
                                    else Inr (None, db4)
                     | None \<Rightarrow> Inr (None, db4)) (\<lambda>(rel, db5).
                       and_then (the_row (find_row (\<lambda>x. u_id x = u) (users db5))) (\<lambda>user.
                         Inr (\<lparr>rg_user = user, rg_new_user = is_new_user, rg_new_membership = is_new,
                               rg_relationship = rel\<rparr>, db5))))))))"

section \<open>Meaningful messages\<close>

text \<open>
  \<open>_is_meaningful_referral_message\<close> on code points. \<open>u_space\<close> is \<open>\s\<close> of \<open>re\<close>, \<open>u_lower\<close>
  agrees with \<open>str.lower()\<close> on every comparison made here: besides A to Z only U+212A becomes
  an ASCII letter of the word list. The test for digits needs only the ASCII ones: a string of
  other decimal digits has no letter and fails the next test.
\<close>

definition u_space :: "int \<Rightarrow> bool" where
  "u_space n = ((9 \<le> n \<and> n \<le> 13) \<or> (28 \<le> n \<and> n \<le> 32) \<or> n = 133 \<or> n = 160 \<or> n = 5760 \<or>
     (8192 \<le> n \<and> n \<le> 8202) \<or> n = 8232 \<or> n = 8233 \<or> n = 8239 \<or> n = 8287 \<or> n = 12288)"

definition u_lower :: "int \<Rightarrow> int" where
  "u_lower n = (if 65 \<le> n \<and> n \<le> 90 then n + 32 else if n = 8490 then 107 else n)"

definition u_text :: "string \<Rightarrow> ustr" where
  "u_text s = map of_char s"

definition u_letter :: "int \<Rightarrow> bool" where
  "u_letter n = ((65 \<le> n \<and> n \<le> 90) \<or> (97 \<le> n \<and> n \<le> 122) \<or> (19968 \<le> n \<and> n \<le> 40959))"

definition small_talk :: "ustr list" where
  "small_talk = [u_text ''[voice message]'', [91, 22270, 29255, 93], [20320, 22909], [24744, 22909],
     [22312, 21527], u_text ''hello'', u_text ''hi'', u_text ''ok'', [22909, 30340], [35874, 35874],
     [21704, 21704], [21704, 21704, 21704]]"

definition u_starts :: "string \<Rightarrow> ustr \<Rightarrow> bool" where
  "u_starts p s = (take (length p) s = u_text p)"

definition is_meaningful_referral_message :: "ustr option \<Rightarrow> string \<Rightarrow> bool" where
  "is_meaningful_referral_message content message_type =
     (if message_type = ''image'' then True
      else if message_type \<notin> {''text'', ''voice''} then False
      else let compact = filter (\<lambda>n. \<not> u_space n) (case content of None \<Rightarrow> [] | Some s \<Rightarrow> s);
               lowered = map u_lower compact
      in if compact = [] then False
         else if lowered \<in> set small_talk then False
         else if length compact < 3 then False
         else if u_starts ''http://'' lowered \<or> u_starts ''https://'' lowered then False
         else if list_all (\<lambda>n. 48 \<le> n \<and> n \<le> 57) compact then False
         else if \<not> list_ex u_letter compact then False
         else if length (remdups compact) = 1 then False
         else True)"

section \<open>Binding\<close>

definition mark_referral_relationship_bound ::
  "int \<Rightarrow> string \<Rightarrow> string \<Rightarrow> 'a referral_db_scheme \<Rightarrow> relationship option \<times> 'a referral_db_scheme" where
  "mark_referral_relationship_bound now invitee acc db =
     (case find_account db acc of
        None \<Rightarrow> (None, db)
      | Some account \<Rightarrow>
        let app = a_app account
        in (case get_product_membership db invitee app of
          None \<Rightarrow> (None, db)
        | Some m \<Rightarrow> if m_status m \<noteq> MActive then (None, db) else
          (case find_row (\<lambda>r. rr_invitee r = invitee \<and> rr_app r = app) (relationships db) of
            None \<Rightarrow> (None, db)
          | Some row \<Rightarrow>
              if rr_status row \<in> {PendingRegistration, Registered}
              then let metadata = dict_setdefault ''bound_account_id'' (JStr acc) (load_referral_metadata row);
                       db1 = set_rels (\<lambda>r. rr_id r = rr_id row \<and> rr_app r = app \<and>
                                 rr_status r \<in> {PendingRegistration, Registered})
                               (\<lambda>r. r\<lparr>rr_status := Bound, rr_meta := Some metadata, rr_updated := now\<rparr>) db
                   in (get_rel (rr_id row) app db1, db1)
              else (Some row, db))))"

section \<open>The reward\<close>

definition first_rewardable_account :: "string \<Rightarrow> string \<Rightarrow> 'a identity_db_scheme \<Rightarrow> string option" where
  "first_rewardable_account u app db = map_option b_account
     (first_by (\<lambda>b. (b_created b, b_id b))
        (filter (\<lambda>b. b_user b = u \<and> b_status b = ''active'' \<and> b_app b = app \<and>
             list_ex (\<lambda>a. a_id a = b_account b \<and> a_app a = app \<and> a_status a = ''active'') (accounts db))
           (bindings db)))"

definition reward_posting :: "relationship \<Rightarrow> string \<Rightarrow> posting" where
  "reward_posting r acc = \<lparr>po_account = acc, po_user = rr_inviter r,
     po_amount = REFERRAL_REWARD_SHELL_MICROS, po_entry = ''credit'', po_source_type = ''referral_reward'',
     po_source = Some (rr_id r), po_key = ''referral-reward-'' @ rr_id r,
     po_meta = [(''referral_relationship_id'', JStr (rr_id r)),
       (''invitee_platform_user_id'', JStr (rr_invitee r)), (''app_id'', JStr (rr_app r)),
       (''grant_shells'', JInt REFERRAL_REWARD_SHELLS)]\<rparr>"

text \<open>\<open>fresh\<close> gives the uuids of the wallet, ledger and review rows made for a relationship.\<close>

type_synonym fresh = "string \<Rightarrow> int \<times> int \<times> int"

definition fresh_wallet :: "fresh \<Rightarrow> string \<Rightarrow> string" where
  "fresh_wallet fresh rid = new_id ''wallet'' (fst (fresh rid))"

definition fresh_ledger :: "fresh \<Rightarrow> string \<Rightarrow> string" where
  "fresh_ledger fresh rid = new_id ''ledger'' (fst (snd (fresh rid)))"

definition fresh_review :: "fresh \<Rightarrow> string \<Rightarrow> string" where
  "fresh_review fresh rid = new_id ''review'' (snd (snd (fresh rid)))"

definition unpaid :: "string \<Rightarrow> string \<Rightarrow> relationship \<Rightarrow> bool" where
  "unpaid rid app r = (rr_id r = rid \<and> rr_app r = app \<and> rr_reward r = None)"

definition mark_paid :: "int \<Rightarrow> ledger_row \<Rightarrow> relationship \<Rightarrow> relationship" where
  "mark_paid now l x = x\<lparr>rr_status := Rewarded, rr_review := RPassed, rr_reward := Some (l_id l),
     rr_rewarded := (case rr_rewarded x of None \<Rightarrow> Some now | Some t \<Rightarrow> Some t), rr_updated := now\<rparr>"

definition apply_referral_reward ::
  "registry \<Rightarrow> int \<Rightarrow> fresh \<Rightarrow> string \<Rightarrow> 'a referral_db_scheme \<Rightarrow>
     (ledger_row option \<times> 'a referral_db_scheme) res" where
  "apply_referral_reward reg now fresh rid db =
     (case find_row (\<lambda>r. rr_id r = rid) (relationships db) of
        None \<Rightarrow> Inr (None, db)
      | Some r \<Rightarrow>
        if nonempty (rr_reward r) \<noteq> None then Inr (None, db)
        else (case first_rewardable_account (rr_inviter r) (rr_app r) db of
          None \<Rightarrow>
            let metadata = dict_set ''reward_blocked_reason'' (JStr ''inviter_has_no_active_account'')
                             (load_referral_metadata r)
            in Inr (None, set_rels (unpaid rid (rr_app r))
                 (\<lambda>x. x\<lparr>rr_status := Qualified, rr_review := RPassed, rr_meta := Some metadata,
                        rr_updated := now\<rparr>) db)
        | Some acc \<Rightarrow>
            and_then (apply_wallet_ledger reg now (fresh_wallet fresh rid) (fresh_ledger fresh rid)
                (reward_posting r acc) db) (\<lambda>(l, db1).
              Inr (Some l, set_rels (unpaid rid (rr_app r)) (mark_paid now l) db1))))"

section \<open>Reviews and the delayed release\<close>

definition get_review :: "string \<Rightarrow> string \<Rightarrow> 'a referral_db_scheme \<Rightarrow> message_review option" where
  "get_review rid app db =
     find_row (\<lambda>v. mr_rel v = rid \<and> mr_app v = app \<and> mr_reviewer v = ''ai'') (reviews db)"

definition insert_review :: "message_review \<Rightarrow> 'a referral_db_scheme \<Rightarrow> 'a referral_db_scheme res" where
  "insert_review v db =
     (if mr_id v \<in> mr_id ` set (reviews db) then Inl (IntegrityError ''meaningful_message_reviews_pkey'')
      else if (mr_rel v, mr_reviewer v) \<in> (\<lambda>x. (mr_rel x, mr_reviewer x)) ` set (reviews db)
      then Inl (IntegrityError ''ux_meaningful_reviews_relationship_reviewer'')
      else Inr (db\<lparr>reviews := reviews db @ [v]\<rparr>))"

text \<open>\<open>INSERT ... ON CONFLICT DO NOTHING\<close>: a conflict with any constraint drops the row.\<close>

definition insert_review_or_skip :: "message_review \<Rightarrow> 'a referral_db_scheme \<Rightarrow> 'a referral_db_scheme" where
  "insert_review_or_skip v db = (case insert_review v db of Inl _ \<Rightarrow> db | Inr db' \<Rightarrow> db')"

definition stamp_of :: "json option \<Rightarrow> int option" where
  "stamp_of v = (case v of Some (JInt t) \<Rightarrow> Some t | _ \<Rightarrow> None)"

definition text_of :: "json option \<Rightarrow> string option" where
  "text_of v = (case v of Some (JStr s) \<Rightarrow> clean_text (Some s) | _ \<Rightarrow> None)"

definition candidates :: "dict \<Rightarrow> json list" where
  "candidates metadata = (case map_of metadata ''candidate_message_ids'' of Some (JList xs) \<Rightarrow> xs | _ \<Rightarrow> [])"

definition ensure_referral_soft_review_hold ::
  "int \<Rightarrow> fresh \<Rightarrow> relationship \<Rightarrow> string \<Rightarrow> string \<Rightarrow> json list \<Rightarrow> message_review option \<Rightarrow>
     'a referral_db_scheme \<Rightarrow> 'a referral_db_scheme" where
  "ensure_referral_soft_review_hold now fresh r invitee acc candidate_ids review_row db =
     (if rr_review r \<noteq> RPending then db
      else let md1 = dict_setdefault ''qualified_at'' (JInt now) (load_referral_metadata r);
               md2 = dict_setdefault ''reward_release_after''
                       (JInt (now + days REFERRAL_SOFT_REVIEW_REWARD_DELAY_DAYS)) md1;
               md3 = dict_set ''reward_delay_days'' (JInt REFERRAL_SOFT_REVIEW_REWARD_DELAY_DAYS) md2;
               metadata = dict_set ''reward_pending_reason'' (JStr ''soft_review_delayed_release'') md3;
               db1 = set_rels (unpaid (rr_id r) (rr_app r))
                 (\<lambda>x. x\<lparr>rr_status := Qualified, rr_review := RPending, rr_meta := Some metadata,
                        rr_updated := now\<rparr>) db
           in (case review_row of Some _ \<Rightarrow> db1
             | None \<Rightarrow> insert_review_or_skip
                 \<lparr>mr_id = fresh_review fresh (rr_id r), mr_rel = rr_id r, mr_invitee = invitee, mr_account = acc,
                  mr_app = rr_app r, mr_messages = take REFERRAL_QUALIFYING_MESSAGE_COUNT candidate_ids,
                  mr_reviewer = ''ai'', mr_status = RPending,
                  mr_reason = ''soft review delayed referral reward release'',
                  mr_meta = Some [(''review_method'', JStr ''phase1_heuristic''),
                    (''soft_review_required'', JBool True),
                    (''reward_release_after'', the (map_of metadata ''reward_release_after''))]\<rparr> db1))"

text \<open>
  The review of a released relationship: the existing one passes, a missing one is written when
  the invitee has an account to name.
\<close>

definition pass_review ::
  "int \<Rightarrow> fresh \<Rightarrow> relationship \<Rightarrow> dict \<Rightarrow> 'a referral_db_scheme \<Rightarrow> 'a referral_db_scheme res" where
  "pass_review now fresh r metadata db =
     (let review_metadata = Some [(''review_method'', JStr ''phase1_heuristic''),
            (''soft_review_required'', JBool True), (''soft_review_released_at'', JInt now)];
          review_account = (case text_of (map_of metadata ''bound_account_id'') of Some a \<Rightarrow> Some a
            | None \<Rightarrow> nonempty (first_rewardable_account (rr_invitee r) (rr_app r) db))
      in case get_review (rr_id r) (rr_app r) db of
           Some v \<Rightarrow> Inr (db\<lparr>reviews := update_where (\<lambda>x. mr_id x = mr_id v \<and> mr_app x = rr_app r)
               (\<lambda>x. x\<lparr>mr_status := RPassed, mr_reason := ''soft review delay elapsed'',
                      mr_meta := review_metadata\<rparr>) (reviews db)\<rparr>)
         | None \<Rightarrow> (case review_account of
             None \<Rightarrow> Inr db
           | Some acc \<Rightarrow> insert_review
               \<lparr>mr_id = fresh_review fresh (rr_id r), mr_rel = rr_id r, mr_invitee = rr_invitee r,
                mr_account = acc, mr_app = rr_app r, mr_messages = candidates metadata, mr_reviewer = ''ai'',
                mr_status = RPassed, mr_reason = ''soft review delay elapsed'',
                mr_meta = review_metadata\<rparr> db))"

text \<open>
  The release up to the reward: \<open>None\<close> when the hold is not due, otherwise the state with the
  relationship and its review marked as passed.
\<close>

definition release_due :: "int \<Rightarrow> relationship \<Rightarrow> bool" where
  "release_due now r = (nonempty (rr_reward r) = None \<and> rr_status r = Qualified \<and> rr_review r = RPending \<and>
     truthy (map_of (load_referral_metadata r) ''soft_review_required'') \<and>
     (case stamp_of (map_of (load_referral_metadata r) ''reward_release_after'') of
        None \<Rightarrow> False | Some release_after \<Rightarrow> release_after \<le> now))"

definition release_delayed_mark ::
  "int \<Rightarrow> fresh \<Rightarrow> string \<Rightarrow> 'a referral_db_scheme \<Rightarrow> 'a referral_db_scheme option res" where
  "release_delayed_mark now fresh rid db =
     (case find_row (\<lambda>r. rr_id r = rid) (relationships db) of
        None \<Rightarrow> Inr None
      | Some r \<Rightarrow>
        if \<not> release_due now r then Inr None
        else let metadata = dict_set ''soft_review_release_method'' (JStr ''delay_elapsed'')
                   (dict_set ''soft_review_released_at'' (JInt now) (load_referral_metadata r));
                 db1 = set_rels (\<lambda>x. unpaid rid (rr_app r) x \<and> rr_review x = RPending)
                   (\<lambda>x. x\<lparr>rr_review := RPassed, rr_meta := Some metadata, rr_updated := now\<rparr>) db
             in and_then (pass_review now fresh r metadata db1) (\<lambda>db2. Inr (Some db2)))"

definition release_delayed_referral_reward ::
  "registry \<Rightarrow> int \<Rightarrow> fresh \<Rightarrow> string \<Rightarrow> 'a referral_db_scheme \<Rightarrow>
     (ledger_row option \<times> 'a referral_db_scheme) res" where
  "release_delayed_referral_reward reg now fresh rid db =
     and_then (release_delayed_mark now fresh rid db) (\<lambda>m. case m of
       None \<Rightarrow> Inr (None, db) | Some db1 \<Rightarrow> apply_referral_reward reg now fresh rid db1)"

text \<open>
  The loop of the releases catches every exception of one relationship and goes on with the
  next. What an exception leaves depends on where it comes from: after one that Python raises
  the writes made before it stay in the transaction, after one that PostgreSQL raises the
  transaction is aborted, every further statement raises as well, and the commit at the end
  rolls back: \<open>None\<close>.
\<close>

definition sql_error :: "err \<Rightarrow> bool" where
  "sql_error e = (case e of IntegrityError _ \<Rightarrow> True | DataError _ \<Rightarrow> True | _ \<Rightarrow> False)"

definition opt_list :: "'x option \<Rightarrow> 'x list" where
  "opt_list v = (case v of None \<Rightarrow> [] | Some x \<Rightarrow> [x])"

fun release_loop ::
  "registry \<Rightarrow> int \<Rightarrow> fresh \<Rightarrow> string list \<Rightarrow> ledger_row list \<Rightarrow> 'a referral_db_scheme \<Rightarrow>
     ledger_row list \<times> 'a referral_db_scheme option" where
  "release_loop reg now fresh [] ledgers db = (ledgers, Some db)"
| "release_loop reg now fresh (rid # rids) ledgers db =
     (case release_delayed_mark now fresh rid db of
        Inl e \<Rightarrow> if sql_error e then (ledgers, None) else release_loop reg now fresh rids ledgers db
      | Inr None \<Rightarrow> release_loop reg now fresh rids ledgers db
      | Inr (Some db1) \<Rightarrow>
          (case apply_referral_reward reg now fresh rid db1 of
             Inl e \<Rightarrow> if sql_error e then (ledgers, None) else release_loop reg now fresh rids ledgers db1
           | Inr (l, db2) \<Rightarrow> release_loop reg now fresh rids (ledgers @ opt_list l) db2))"

definition due_ids ::
  "(relationship \<Rightarrow> bool) \<Rightarrow> 'a referral_db_scheme \<Rightarrow> string list" where
  "due_ids p db = map rr_id (sort_key (\<lambda>r. (rr_updated r, rr_id r)) (filter p (relationships db)))"

definition clamp :: "int \<Rightarrow> int \<Rightarrow> nat" where
  "clamp limit most = nat (max 1 (min limit most))"

definition release_due_for_inviter ::
  "registry \<Rightarrow> int \<Rightarrow> fresh \<Rightarrow> string \<Rightarrow> string \<Rightarrow> int \<Rightarrow> 'a referral_db_scheme \<Rightarrow>
     ledger_row list \<times> 'a referral_db_scheme option" where
  "release_due_for_inviter reg now fresh inviter app limit db =
     release_loop reg now fresh (take (clamp limit 500) (due_ids
       (\<lambda>r. rr_inviter r = inviter \<and> rr_app r = app \<and> rr_status r = Qualified \<and>
            rr_review r = RPending \<and> rr_reward r = None) db)) [] db"

text \<open>The commit of an aborted transaction is a rollback; the rows already collected are returned.\<close>

definition committed :: "'s \<Rightarrow> ledger_row list \<times> 's option \<Rightarrow> ledger_view list \<times> 's" where
  "committed db r = (map decode_ledger_row (fst r), case snd r of None \<Rightarrow> db | Some db' \<Rightarrow> db')"

definition release_due_referral_rewards_for_user ::
  "registry \<Rightarrow> int \<Rightarrow> fresh \<Rightarrow> string \<Rightarrow> string \<Rightarrow> int \<Rightarrow> 'a referral_db_scheme \<Rightarrow>
     (ledger_view list \<times> 'a referral_db_scheme) res" where
  "release_due_referral_rewards_for_user reg now fresh u app_id limit db =
     and_then (registered_app_id reg app_id) (\<lambda>app.
       Inr (committed db (release_due_for_inviter reg now fresh u app limit db)))"

definition release_due_referral_rewards ::
  "registry \<Rightarrow> int \<Rightarrow> fresh \<Rightarrow> int \<Rightarrow> string \<Rightarrow> 'a referral_db_scheme \<Rightarrow>
     (ledger_view list \<times> 'a referral_db_scheme) res" where
  "release_due_referral_rewards reg now fresh limit app_id db =
     and_then (registered_app_id reg app_id) (\<lambda>app.
       Inr (committed db (release_loop reg now fresh (take (clamp limit 1000) (due_ids
         (\<lambda>r. rr_app r = app \<and> rr_status r = Qualified \<and> rr_review r = RPending \<and> rr_reward r = None) db)) [] db)))"

fun retry_loop ::
  "registry \<Rightarrow> int \<Rightarrow> fresh \<Rightarrow> string list \<Rightarrow> ledger_row list \<Rightarrow> 'a referral_db_scheme \<Rightarrow>
     (ledger_row list \<times> 'a referral_db_scheme) res" where
  "retry_loop reg now fresh [] ledgers db = Inr (ledgers, db)"
| "retry_loop reg now fresh (rid # rids) ledgers db =
     and_then (apply_referral_reward reg now fresh rid db)
       (\<lambda>(l, db1). retry_loop reg now fresh rids (ledgers @ opt_list l) db1)"

definition retry_qualified_referral_rewards_for_user ::
  "registry \<Rightarrow> int \<Rightarrow> fresh \<Rightarrow> string \<Rightarrow> string \<Rightarrow> 'a referral_db_scheme \<Rightarrow>
     (ledger_view list \<times> 'a referral_db_scheme) res" where
  "retry_qualified_referral_rewards_for_user reg now fresh u app_id db =
     and_then (registered_app_id reg app_id) (\<lambda>app.
       case release_due_for_inviter reg now fresh u app 100 db of
         (_, None) \<Rightarrow> Inl (RuntimeError ''InFailedSqlTransaction'')
       | (ledgers, Some db1) \<Rightarrow>
           and_then (retry_loop reg now fresh (due_ids
             (\<lambda>r. rr_inviter r = u \<and> rr_app r = app \<and> rr_status r = Qualified \<and>
                  rr_review r = RPassed \<and> rr_reward r = None) db1) ledgers db1)
             (\<lambda>(ls, db2). Inr (map decode_ledger_row ls, db2)))"

section \<open>A message of an invitee\<close>

record referral_result =
  rf_relationship :: relationship
  rf_review :: "message_review option"
  rf_ledger :: "ledger_view option"

definition message_owner :: "string \<Rightarrow> 'a identity_db_scheme \<Rightarrow> (string \<times> string) option" where
  "message_owner acc db = (case find_account db acc of None \<Rightarrow> None
     | Some a \<Rightarrow> map_option (\<lambda>b. (b_user b, a_app a)) (first_by (\<lambda>b. (b_created b, b_id b))
         (filter (\<lambda>b. b_account b = acc \<and> b_status b = ''active'' \<and> b_app b = a_app a) (bindings db))))"

text \<open>The message is counted: it is the user's own, meaningful, and not among the candidates yet.\<close>

definition count_message ::
  "int \<Rightarrow> string \<Rightarrow> int \<Rightarrow> relationship \<Rightarrow> 'a referral_db_scheme \<Rightarrow> json list \<times> 'a referral_db_scheme" where
  "count_message now acc mid r db =
     (let metadata = load_referral_metadata r; ids = candidates metadata
      in case find_row (\<lambda>m. mg_id m = mid \<and> mg_account m = acc \<and> mg_direction m = ''inbound'' \<and>
                            mg_role m = ''user'') (messages db) of
           None \<Rightarrow> (ids, db)
         | Some m \<Rightarrow>
             if rr_status r \<in> {Bound, Qualified} \<and> JInt mid \<notin> set ids \<and>
                is_meaningful_referral_message (mg_content m) (mg_type m)
             then let ids' = ids @ [JInt mid];
                      status = (if REFERRAL_QUALIFYING_MESSAGE_COUNT \<le> length ids' then Qualified else Bound)
                  in (ids', set_rels (unpaid (rr_id r) (rr_app r))
                       (\<lambda>x. x\<lparr>rr_count := int (length ids'), rr_status := status,
                              rr_meta := Some (dict_set ''candidate_message_ids'' (JList ids') metadata),
                              rr_updated := now\<rparr>) db)
             else (ids, db))"

text \<open>What follows at the threshold: the hold and its release for a suspicious relationship, the
  review and the reward for any other.\<close>

definition reach_threshold ::
  "registry \<Rightarrow> int \<Rightarrow> fresh \<Rightarrow> string \<Rightarrow> string \<Rightarrow> json list \<Rightarrow> relationship \<Rightarrow> message_review option \<Rightarrow>
     'a referral_db_scheme \<Rightarrow> (ledger_row option \<times> 'a referral_db_scheme) res" where
  "reach_threshold reg now fresh invitee acc ids r review_row db =
     (let rid = rr_id r; app = rr_app r
      in if truthy (map_of (load_referral_metadata r) ''soft_review_required'') then
           (case rr_review r of
              RPassed \<Rightarrow> apply_referral_reward reg now fresh rid db
            | RPending \<Rightarrow> release_delayed_referral_reward reg now fresh rid
                (ensure_referral_soft_review_hold now fresh r invitee acc ids review_row db)
            | RFailed \<Rightarrow> Inr (None, db))
         else
           let db1 = (case review_row of Some _ \<Rightarrow> db
             | None \<Rightarrow> insert_review_or_skip
                 \<lparr>mr_id = fresh_review fresh rid, mr_rel = rid, mr_invitee = invitee, mr_account = acc,
                  mr_app = app, mr_messages = take REFERRAL_QUALIFYING_MESSAGE_COUNT ids,
                  mr_reviewer = ''ai'', mr_status = RPassed,
                  mr_reason = ''phase1 heuristic accepted 3 meaningful inbound messages'',
                  mr_meta = Some [(''review_method'', JStr ''phase1_heuristic''),
                    (''qualifying_message_count'', JInt (int REFERRAL_QUALIFYING_MESSAGE_COUNT))]\<rparr> db);
               review1 = (case review_row of Some v \<Rightarrow> Some v | None \<Rightarrow> get_review rid app db1)
           in (case review1 of
                Some v \<Rightarrow> if mr_status v = RPassed
                  then apply_referral_reward reg now fresh rid (set_rels (unpaid rid app)
                    (\<lambda>x. x\<lparr>rr_status := Qualified, rr_review := RPassed, rr_updated := now\<rparr>) db1)
                  else Inr (None, db1)
              | None \<Rightarrow> Inr (None, db1)))"

definition process_referral_message_for_account ::
  "registry \<Rightarrow> int \<Rightarrow> fresh \<Rightarrow> string \<Rightarrow> int \<Rightarrow> 'a referral_db_scheme \<Rightarrow>
     (referral_result option \<times> 'a referral_db_scheme) res" where
  "process_referral_message_for_account reg now fresh acc mid db =
     (case message_owner acc db of
        None \<Rightarrow> Inr (None, db)
      | Some (invitee, owner_app) \<Rightarrow> and_then (require_enabled reg owner_app) (\<lambda>p.
        let app = p_app p
        in if find_row (\<lambda>r. rr_invitee r = invitee \<and> rr_app r = app) (relationships db) = None
        then Inr (None, db)
        else (case mark_referral_relationship_bound now invitee acc db of
          (None, db1) \<Rightarrow> Inr (None, db1)
        | (Some row, db1) \<Rightarrow> (case get_rel (rr_id row) app db1 of
            None \<Rightarrow> Inr (None, db1)
          | Some r \<Rightarrow>
              let review_row = get_review (rr_id r) app db1
              in if nonempty (rr_reward r) \<noteq> None
              then Inr (Some \<lparr>rf_relationship = r, rf_review = review_row, rf_ledger = None\<rparr>, db1)
              else let (ids, db2) = count_message now acc mid r db1
              in and_then (the_row (get_rel (rr_id r) app db2)) (\<lambda>r2.
                if rr_count r2 < int REFERRAL_QUALIFYING_MESSAGE_COUNT
                then Inr (Some \<lparr>rf_relationship = r2, rf_review = review_row, rf_ledger = None\<rparr>, db2)
                else and_then (reach_threshold reg now fresh invitee acc ids r2 review_row db2) (\<lambda>(l, db3).
                  and_then (the_row (get_rel (rr_id r) app db3)) (\<lambda>r3.
                    Inr (Some \<lparr>rf_relationship = r3, rf_review = get_review (rr_id r) app db3,
                           rf_ledger = map_option decode_ledger_row l\<rparr>, db3))))))))"

definition list_referral_relationships ::
  "registry \<Rightarrow> int \<Rightarrow> string option \<Rightarrow> string option \<Rightarrow> string \<Rightarrow> 'a referral_db_scheme \<Rightarrow> relationship list res" where
  "list_referral_relationships reg limit inviter invitee app_id db =
     and_then (registered_app_id reg app_id) (\<lambda>app.
       Inr (take (clamp limit 200) (order_desc (\<lambda>r. (rr_created r, rr_id r))
         (filter (\<lambda>r. rr_app r = app \<and>
             (case nonempty inviter of None \<Rightarrow> True | Some u \<Rightarrow> rr_inviter r = u) \<and>
             (case nonempty invitee of None \<Rightarrow> True | Some u \<Rightarrow> rr_invitee r = u)) (relationships db)))))"

end
