(* ===== verification/Referral_Laws.thy ===== *)
theory Referral_Laws
imports Referral Wallet_Book
begin

text \<open>
  The invariant of the invitations and its preservation: unique keys, every relationship with its
  code, members, candidates, status and reward row, every review with its relationship and account,
  and one ledger row per reward that was paid. \<open>referral_contract_violation_counts\<close> is the
  migration's check of the same tables.
\<close>

section \<open>The migration's counts\<close>

definition referral_contract_violation_counts :: "'a referral_db_scheme \<Rightarrow> (string \<times> nat) list" where
  "referral_contract_violation_counts db =
     [(''referral_null_app_id'',
         count_where (\<lambda>c. rc_app c = []) (codes db) + count_where (\<lambda>r. rr_app r = []) (relationships db) +
         count_where (\<lambda>v. mr_app v = []) (reviews db)),
      (''duplicate_personal_code'', dup_groups (\<lambda>c. (rc_user c, rc_app c, rc_type c))
         (filter (\<lambda>c. rc_type c = ''personal'' \<and> rc_user c \<noteq> None) (codes db))),
      (''duplicate_invitee_membership'', dup_groups (\<lambda>r. (rr_invitee r, rr_app r)) (relationships db)),
      (''referral_code_scope_drift'', count_where
         (\<lambda>c. case rc_user c of None \<Rightarrow> False
            | Some u \<Rightarrow> get_product_membership db u (rc_app c) = None) (codes db)),
      (''referral_relationship_scope_drift'', count_where
         (\<lambda>r. (case find_row (\<lambda>c. rc_id c = rr_code r) (codes db) of
                 None \<Rightarrow> True | Some c \<Rightarrow> rc_app c \<noteq> rr_app r) \<or>
              get_product_membership db (rr_inviter r) (rr_app r) = None \<or>
              get_product_membership db (rr_invitee r) (rr_app r) = None \<or>
              rr_inviter r = rr_invitee r \<or>
              (case rr_reward r of None \<Rightarrow> False
               | Some i \<Rightarrow> (case find_row (\<lambda>l. l_id l = i) (ledger db) of
                   None \<Rightarrow> True | Some l \<Rightarrow> l_app l \<noteq> rr_app r))) (relationships db)),
      (''meaningful_review_scope_drift'', count_where
         (\<lambda>v. case (find_row (\<lambda>r. rr_id r = mr_rel v) (relationships db), find_account db (mr_account v)) of
              (Some r, Some a) \<Rightarrow> mr_app v \<noteq> rr_app r \<or> mr_app v \<noteq> a_app a \<or> mr_invitee v \<noteq> rr_invitee r
            | _ \<Rightarrow> True) (reviews db))]"

section \<open>The invariant\<close>

definition referral_keys_ok :: "'a referral_db_scheme \<Rightarrow> bool" where
  "referral_keys_ok db =
     (unique_on (\<lambda>_. True) rc_id (codes db) \<and> unique_on (\<lambda>_. True) rc_code (codes db) \<and>
      unique_on (\<lambda>c. rc_type c = ''personal'' \<and> rc_user c \<noteq> None) (\<lambda>c. (rc_user c, rc_app c, rc_type c)) (codes db) \<and>
      unique_on (\<lambda>_. True) rr_id (relationships db) \<and>
      unique_on (\<lambda>_. True) (\<lambda>r. (rr_invitee r, rr_app r)) (relationships db) \<and>
      unique_on (\<lambda>_. True) mr_id (reviews db) \<and>
      unique_on (\<lambda>_. True) (\<lambda>v. (mr_rel v, mr_reviewer v)) (reviews db))"

definition has_member :: "'a identity_db_scheme \<Rightarrow> string \<Rightarrow> string \<Rightarrow> bool" where
  "has_member db u app = list_ex (\<lambda>m. m_user m = u \<and> m_app m = app) (memberships db)"

definition account_in :: "'a identity_db_scheme \<Rightarrow> string \<Rightarrow> string \<Rightarrow> bool" where
  "account_in db acc app = list_ex (\<lambda>a. a_id a = acc \<and> a_app a = app) (accounts db)"

definition code_ok :: "'a identity_db_scheme \<Rightarrow> referral_code \<Rightarrow> bool" where
  "code_ok db c = (rc_app c \<noteq> [] \<and>
     opt_all (\<lambda>u. has_member db u (rc_app c)) (rc_user c) \<and>
     opt_all (\<lambda>n. rc_used c \<le> n) (rc_max c))"

definition reward_key :: "string \<Rightarrow> string" where
  "reward_key rid = ''referral-reward-'' @ rid"

definition is_reward :: "ledger_row \<Rightarrow> bool" where
  "is_reward l = (l_source_type l = ''referral_reward'')"

text \<open>\<open>pays r l\<close>: the ledger row \<open>l\<close> is the reward of the relationship \<open>r\<close>.\<close>

definition pays :: "relationship \<Rightarrow> ledger_row \<Rightarrow> bool" where
  "pays r l = (rr_reward r = Some (l_id l) \<and> is_reward l \<and> l_key l = reward_key (rr_id r) \<and>
     l_source l = Some (rr_id r) \<and> l_app l = rr_app r \<and> l_user l = rr_inviter r \<and>
     l_amount l = REFERRAL_REWARD_SHELL_MICROS)"

text \<open>The part of a relationship that a change of its own columns can affect.\<close>

definition rel_local_ok :: "'a identity_db_scheme \<Rightarrow> relationship \<Rightarrow> bool" where
  "rel_local_ok db r = (rr_meta r \<noteq> None \<and>
     rr_count r = int (length (candidates (load_referral_metadata r))) \<and>
     distinct (candidates (load_referral_metadata r)) \<and>
     (rr_status r \<in> {Qualified, Rewarded} \<longrightarrow> int REFERRAL_QUALIFYING_MESSAGE_COUNT \<le> rr_count r) \<and>
     (rr_status r = Rewarded) = (rr_reward r \<noteq> None) \<and>
     opt_all (\<lambda>acc. account_in db acc (rr_app r))
       (text_of (map_of (load_referral_metadata r) ''bound_account_id'')))"

definition rel_scope_ok :: "'a referral_db_scheme \<Rightarrow> relationship \<Rightarrow> bool" where
  "rel_scope_ok db r = (rr_app r \<noteq> [] \<and> rr_inviter r \<noteq> rr_invitee r \<and>
     list_ex (\<lambda>c. rc_id c = rr_code r \<and> rc_app c = rr_app r) (codes db) \<and>
     has_member db (rr_inviter r) (rr_app r) \<and> has_member db (rr_invitee r) (rr_app r) \<and>
     clean_text (Some (rr_id r)) = Some (rr_id r))"

definition rel_paid_ok :: "'a wallet_db_scheme \<Rightarrow> relationship \<Rightarrow> bool" where
  "rel_paid_ok db r = (rr_reward r = None \<or> list_ex (pays r) (ledger db))"

definition review_ok :: "'a referral_db_scheme \<Rightarrow> message_review \<Rightarrow> bool" where
  "review_ok db v = (list_ex (\<lambda>r. rr_id r = mr_rel v \<and> rr_app r = mr_app v \<and> rr_invitee r = mr_invitee v)
       (relationships db) \<and> account_in db (mr_account v) (mr_app v))"

definition reward_row_ok :: "'a referral_db_scheme \<Rightarrow> ledger_row \<Rightarrow> bool" where
  "reward_row_ok db l = (is_reward l = starts_with ''referral-reward-'' (l_key l) \<and> l_id l \<noteq> [] \<and>
     (is_reward l \<longrightarrow> list_ex (\<lambda>r. pays r l) (relationships db)))"

definition account_ids_ok :: "'a identity_db_scheme \<Rightarrow> bool" where
  "account_ids_ok db = list_all (\<lambda>a. clean_text (Some (a_id a)) = Some (a_id a)) (accounts db)"

definition referral_ok :: "'a referral_db_scheme \<Rightarrow> bool" where
  "referral_ok db = (referral_keys_ok db \<and> account_ids_ok db \<and> list_all (code_ok db) (codes db) \<and>
     list_all (rel_local_ok db) (relationships db) \<and> list_all (rel_scope_ok db) (relationships db) \<and>
     list_all (rel_paid_ok db) (relationships db) \<and> list_all (review_ok db) (reviews db) \<and>
     list_all (reward_row_ok db) (ledger db))"

text \<open>All that the components promise of a state.\<close>

definition good :: "registry \<Rightarrow> 'a referral_db_scheme \<Rightarrow> bool" where
  "good reg db = (registry_ok reg \<and> identity_ok db \<and> billing_ok db \<and> referral_ok db)"

lemma goodD:
  assumes "good reg db"
  shows "registry_ok reg" "identity_ok db" "billing_ok db" "referral_ok db" "wallet_keys_ok db"
    "referral_keys_ok db"
  using assms by (simp_all add: good_def referral_ok_def billing_ok_def)

lemma get_membership_has: "has_member db u app \<Longrightarrow> get_product_membership db u app \<noteq> None"
  by (auto simp: has_member_def get_product_membership_def list_ex_iff find_row_None)

lemma account_in_found:
  assumes "identity_ok db" and "account_in db acc app"
  shows "\<exists>a. find_account db acc = Some a \<and> a_app a = app"
proof -
  from assms(2) obtain a where a: "a \<in> set (accounts db)" "a_id a = acc" "a_app a = app"
    by (auto simp: account_in_def list_ex_iff)
  have "find_row (\<lambda>a. a_id a = acc) (accounts db) = Some a"
    using assms(1) a unique_onD [of "\<lambda>_. True" a_id "accounts db"]
    by (intro find_row_unique) (auto simp: identity_ok_def)
  with a(3) show ?thesis by (simp add: find_account_def)
qed

lemma unique_find:
  "unique_on (\<lambda>_. True) k rs \<Longrightarrow> r \<in> set rs \<Longrightarrow> find_row (\<lambda>x. k x = k r) rs = Some r"
  using unique_onD [of "\<lambda>_. True" k rs] by (intro find_row_unique) auto

text \<open>A good state has no violation.\<close>

lemma good_counts:
  assumes g: "good reg db"
  shows "\<forall>n \<in> snd ` set (referral_contract_violation_counts db). n = 0"
proof -
  note gd = goodD [OF g]
  have c: "rc_app c \<noteq> []" "\<And>u. rc_user c = Some u \<Longrightarrow> get_product_membership db u (rc_app c) \<noteq> None"
    if "c \<in> set (codes db)" for c
  proof -
    from gd(4) that have "code_ok db c" by (simp add: referral_ok_def list_all_iff)
    then show "rc_app c \<noteq> []" "\<And>u. rc_user c = Some u \<Longrightarrow> get_product_membership db u (rc_app c) \<noteq> None"
      using get_membership_has [of db _ "rc_app c"] by (simp_all add: code_ok_def)
  qed
  have r: "rr_app r \<noteq> []" "rr_inviter r \<noteq> rr_invitee r"
    "get_product_membership db (rr_inviter r) (rr_app r) \<noteq> None"
    "get_product_membership db (rr_invitee r) (rr_app r) \<noteq> None"
    "\<exists>c. find_row (\<lambda>c. rc_id c = rr_code r) (codes db) = Some c \<and> rc_app c = rr_app r"
    "\<And>i. rr_reward r = Some i \<Longrightarrow> \<exists>l. find_row (\<lambda>l. l_id l = i) (ledger db) = Some l \<and> l_app l = rr_app r"
    if "r \<in> set (relationships db)" for r
  proof -
    from gd(4) that have s: "rel_scope_ok db r" and p: "rel_paid_ok db r"
      by (simp_all add: referral_ok_def list_all_iff)
    from s get_membership_has [of db] show "rr_app r \<noteq> []" "rr_inviter r \<noteq> rr_invitee r"
      "get_product_membership db (rr_inviter r) (rr_app r) \<noteq> None"
      "get_product_membership db (rr_invitee r) (rr_app r) \<noteq> None"
      by (simp_all add: rel_scope_ok_def)
    from s obtain c where c: "c \<in> set (codes db)" "rc_id c = rr_code r" "rc_app c = rr_app r"
      by (auto simp: rel_scope_ok_def list_ex_iff)
    with unique_find [of rc_id "codes db" c] gd(6)
    show "\<exists>c. find_row (\<lambda>c. rc_id c = rr_code r) (codes db) = Some c \<and> rc_app c = rr_app r"
      by (auto simp: referral_keys_ok_def)
    show "\<exists>l. find_row (\<lambda>l. l_id l = i) (ledger db) = Some l \<and> l_app l = rr_app r" if "rr_reward r = Some i" for i
    proof -
      from p that obtain l where l: "l \<in> set (ledger db)" "l_id l = i" "l_app l = rr_app r"
        by (auto simp: rel_paid_ok_def list_ex_iff pays_def)
      with ledger_by_id_unique [OF gd(5) l(1)] show ?thesis by auto
    qed
  qed
  have v: "mr_app v \<noteq> []" "\<exists>r a. find_row (\<lambda>r. rr_id r = mr_rel v) (relationships db) = Some r \<and>
      find_account db (mr_account v) = Some a \<and> mr_app v = rr_app r \<and> mr_app v = a_app a \<and>
      mr_invitee v = rr_invitee r" if "v \<in> set (reviews db)" for v
  proof -
    from gd(4) that have "review_ok db v" by (simp add: referral_ok_def list_all_iff)
    then obtain x where x: "x \<in> set (relationships db)" "rr_id x = mr_rel v" "rr_app x = mr_app v"
        "rr_invitee x = mr_invitee v" and a: "account_in db (mr_account v) (mr_app v)"
      by (auto simp: review_ok_def list_ex_iff)
    from r(1) [OF x(1)] x(3) show "mr_app v \<noteq> []" by simp
    from unique_find [of rr_id "relationships db" x] gd(6) x
    have "find_row (\<lambda>r. rr_id r = mr_rel v) (relationships db) = Some x"
      by (simp add: referral_keys_ok_def)
    with account_in_found [OF gd(2) a] x show "\<exists>r a. find_row (\<lambda>r. rr_id r = mr_rel v) (relationships db) = Some r \<and>
      find_account db (mr_account v) = Some a \<and> mr_app v = rr_app r \<and> mr_app v = a_app a \<and>
      mr_invitee v = rr_invitee r" by auto
  qed
  have 1: "count_where (\<lambda>c. rc_app c = []) (codes db) + count_where (\<lambda>r. rr_app r = []) (relationships db) +
         count_where (\<lambda>v. mr_app v = []) (reviews db) = 0"
    using c(1) r(1) v(1) by (simp add: count_where_0)
  have 2: "dup_groups (\<lambda>c. (rc_user c, rc_app c, rc_type c))
         (filter (\<lambda>c. rc_type c = ''personal'' \<and> rc_user c \<noteq> None) (codes db)) = 0"
    "dup_groups (\<lambda>r. (rr_invitee r, rr_app r)) (relationships db) = 0"
    using gd(6) by (auto intro!: dup_groups_0 simp: referral_keys_ok_def unique_on_def)
  have 3: "count_where (\<lambda>c. case rc_user c of None \<Rightarrow> False
            | Some u \<Rightarrow> get_product_membership db u (rc_app c) = None) (codes db) = 0"
    unfolding count_where_0 using c(2) by (auto split: option.splits)
  have 4: "count_where
         (\<lambda>r. (case find_row (\<lambda>c. rc_id c = rr_code r) (codes db) of
                 None \<Rightarrow> True | Some c \<Rightarrow> rc_app c \<noteq> rr_app r) \<or>
              get_product_membership db (rr_inviter r) (rr_app r) = None \<or>
              get_product_membership db (rr_invitee r) (rr_app r) = None \<or>
              rr_inviter r = rr_invitee r \<or>
              (case rr_reward r of None \<Rightarrow> False
               | Some i \<Rightarrow> (case find_row (\<lambda>l. l_id l = i) (ledger db) of
                   None \<Rightarrow> True | Some l \<Rightarrow> l_app l \<noteq> rr_app r))) (relationships db) = 0"
    unfolding count_where_0 using r(2-6) by (fastforce split: option.splits)
  have 5: "count_where
         (\<lambda>v. case (find_row (\<lambda>r. rr_id r = mr_rel v) (relationships db), find_account db (mr_account v)) of
              (Some r, Some a) \<Rightarrow> mr_app v \<noteq> rr_app r \<or> mr_app v \<noteq> a_app a \<or> mr_invitee v \<noteq> rr_invitee r
            | _ \<Rightarrow> True) (reviews db) = 0"
    unfolding count_where_0 using v(2) by fastforce
  from 1 2 3 4 5 show ?thesis by (simp add: referral_contract_violation_counts_def)
qed

section \<open>Changes of relationships\<close>

lemma set_rels_frame [simp]:
  "relationships (set_rels p f db) = update_where p f (relationships db)"
  "codes (set_rels p f db) = codes db" "reviews (set_rels p f db) = reviews db"
  "messages (set_rels p f db) = messages db" "verifications (set_rels p f db) = verifications db"
  "ledger (set_rels p f db) = ledger db" "wallets (set_rels p f db) = wallets db"
  "users (set_rels p f db) = users db" "memberships (set_rels p f db) = memberships db"
  "accounts (set_rels p f db) = accounts db" "bindings (set_rels p f db) = bindings db"
  by (simp_all add: set_rels_def)

lemma set_rels_identity [simp]: "same_identity db (set_rels p f db)"
  by (simp add: set_rels_def same_identity_def)

lemma set_rels_billing [simp]: "billing_ok (set_rels p f db) = billing_ok db"
  by (rule billing_ok_frame) (simp_all add: set_rels_def same_identity_def)

lemma set_rels_identity_ok [simp]: "identity_ok (set_rels p f db) = identity_ok db"
  by (rule same_identity_ok) simp

lemma set_rels_balance [simp]: "wallet_balance (set_rels p f db) = wallet_balance db"
  by (simp add: fun_eq_iff wallet_balance_def active_wallet_def)

lemma local_ok_accounts: "accounts s = accounts t \<Longrightarrow> rel_local_ok s = rel_local_ok t"
proof (rule ext)
  fix r
  assume "accounts s = accounts t"
  then have "account_in s acc app = account_in t acc app" for acc app by (simp add: account_in_def)
  then show "rel_local_ok s r = rel_local_ok t r" by (simp only: rel_local_ok_def)
qed

lemma code_ok_members: "memberships s = memberships t \<Longrightarrow> code_ok s = code_ok t"
proof (rule ext)
  fix c
  assume "memberships s = memberships t"
  then have "has_member s u app = has_member t u app" for u app by (simp add: has_member_def)
  then show "code_ok s c = code_ok t c" by (simp only: code_ok_def)
qed

text \<open>Two versions of a relationship that agree on everything other rows refer to.\<close>

definition same_rel :: "relationship \<Rightarrow> relationship \<Rightarrow> bool" where
  "same_rel r s = (rr_id s = rr_id r \<and> rr_inviter s = rr_inviter r \<and> rr_invitee s = rr_invitee r \<and>
     rr_code s = rr_code r \<and> rr_app s = rr_app r)"

lemma set_rels_keys:
  assumes "referral_keys_ok db" and "\<And>r. same_rel r (f r)"
  shows "referral_keys_ok (set_rels p f db)"
  using assms by (simp add: referral_keys_ok_def unique_on_update same_rel_def)

lemma set_rels_scope:
  assumes "list_all (rel_scope_ok db) (relationships db)" and "\<And>r. same_rel r (f r)"
  shows "list_all (rel_scope_ok (set_rels p f db)) (update_where p f (relationships db))"
proof -
  have "rel_scope_ok (set_rels p f db) (f r) = rel_scope_ok db r"
    "rel_scope_ok (set_rels p f db) r = rel_scope_ok db r" for r
    using assms(2) [of r] by (simp_all add: rel_scope_ok_def has_member_def same_rel_def)
  with assms(1) show ?thesis by (auto simp: list_all_iff set_update_where)
qed

lemma set_rels_reviews:
  assumes "list_all (review_ok db) (reviews db)" and f: "\<And>r. same_rel r (f r)"
  shows "list_all (review_ok (set_rels p f db)) (reviews db)"
proof -
  have "list_ex q (update_where p f rs)" if "list_ex q rs" and "\<And>r. q r \<Longrightarrow> q (f r)" for q rs
    using that by (auto simp: list_ex_iff set_update_where)
  moreover have "rr_id (f r) = rr_id r \<and> rr_app (f r) = rr_app r \<and> rr_invitee (f r) = rr_invitee r" for r
    using f [of r] by (simp add: same_rel_def)
  ultimately show ?thesis using assms(1)
    by (simp add: list_all_iff review_ok_def account_in_def)
qed

text \<open>A change that pays nothing keeps a good state good.\<close>

lemma set_rels_good:
  assumes g: "good reg db" and f: "\<And>r. same_rel r (f r)" and w: "\<And>r. rr_reward (f r) = rr_reward r"
    and l: "\<And>r. r \<in> set (relationships db) \<Longrightarrow> p r \<Longrightarrow> rel_local_ok db (f r)"
  shows "good reg (set_rels p f db)"
proof -
  let ?db = "set_rels p f db"
  from g have ok: "referral_ok db" by (simp add: good_def)
  have pf: "pays (f r) x = pays r x" for r x
    using f [of r] w [of r] by (simp add: pays_def same_rel_def)
  have ex: "list_ex (\<lambda>r. pays r x) (update_where p f rs) = list_ex (\<lambda>r. pays r x) rs" for x rs
    by (induction rs) (simp_all add: pf)
  have "list_all (rel_local_ok ?db) (relationships ?db)"
    using ok l local_ok_accounts [of ?db db] by (auto simp: referral_ok_def list_all_iff set_update_where)
  moreover have "list_all (rel_paid_ok ?db) (relationships ?db)"
    using ok by (auto simp: referral_ok_def list_all_iff set_update_where rel_paid_ok_def list_ex_iff pf w)
  moreover have "list_all (reward_row_ok ?db) (ledger ?db)"
    using ok by (simp add: referral_ok_def list_all_iff reward_row_ok_def ex)
  moreover have "list_all (code_ok ?db) (codes ?db)" "account_ids_ok ?db"
    using ok code_ok_members [of ?db db] by (simp_all add: referral_ok_def account_ids_ok_def)
  ultimately have "referral_ok ?db"
    using ok set_rels_keys [of db f p, OF _ f] set_rels_scope [of db f p, OF _ f] set_rels_reviews [of db f p, OF _ f]
    by (simp add: referral_ok_def)
  with g show ?thesis by (simp add: good_def)
qed

section \<open>Reviews\<close>

lemma reviews_good:
  assumes g: "good reg db" and k: "unique_on (\<lambda>_. True) mr_id vs" "unique_on (\<lambda>_. True) (\<lambda>v. (mr_rel v, mr_reviewer v)) vs"
    and r: "\<And>v. v \<in> set vs \<Longrightarrow> review_ok db v"
  shows "good reg (db\<lparr>reviews := vs\<rparr>)"
proof -
  let ?db = "db\<lparr>reviews := vs\<rparr>"
  have "billing_ok ?db = billing_ok db" by (rule billing_ok_frame) (simp_all add: same_identity_def)
  moreover have "identity_ok ?db = identity_ok db" by (rule same_identity_ok) (simp add: same_identity_def)
  moreover have "rel_local_ok ?db = rel_local_ok db" by (rule local_ok_accounts) simp
  moreover have "code_ok ?db = code_ok db" by (rule code_ok_members) simp
  moreover have "rel_scope_ok ?db = rel_scope_ok db" "rel_paid_ok ?db = rel_paid_ok db"
    "reward_row_ok ?db = reward_row_ok db" "review_ok ?db = review_ok db"
    by (simp_all add: fun_eq_iff rel_scope_ok_def rel_paid_ok_def reward_row_ok_def review_ok_def
        has_member_def account_in_def)
  moreover have "list_all (review_ok db) vs" using r by (simp add: list_all_iff)
  ultimately show ?thesis
    using g k by (simp add: good_def referral_ok_def referral_keys_ok_def account_ids_ok_def)
qed

lemma insert_review_good:
  assumes g: "good reg db" and i: "insert_review v db = Inr db'" and v: "review_ok db v"
  shows "good reg db'" "db' = db\<lparr>reviews := reviews db @ [v]\<rparr>"
proof -
  from i have n: "mr_id v \<notin> mr_id ` set (reviews db)"
    "(mr_rel v, mr_reviewer v) \<notin> (\<lambda>x. (mr_rel x, mr_reviewer x)) ` set (reviews db)"
    and db': "db' = db\<lparr>reviews := reviews db @ [v]\<rparr>"
    by (simp_all add: insert_review_def split: if_splits)
  show "db' = db\<lparr>reviews := reviews db @ [v]\<rparr>" by (rule db')
  from goodD(4,6) [OF g] have "list_all (review_ok db) (reviews db)"
    and "unique_on (\<lambda>_. True) mr_id (reviews db)" "unique_on (\<lambda>_. True) (\<lambda>v. (mr_rel v, mr_reviewer v)) (reviews db)"
    by (simp_all add: referral_ok_def referral_keys_ok_def)
  then show "good reg db'"
    using n v unfolding db' by (intro reviews_good [OF g]) (auto simp: unique_on_snoc image_iff list_all_iff)
qed

lemma insert_review_or_skip_good:
  assumes "good reg db" and "review_ok db v"
  shows "good reg (insert_review_or_skip v db)"
    and "\<exists>vs. insert_review_or_skip v db = db\<lparr>reviews := vs\<rparr>"
proof -
  show "good reg (insert_review_or_skip v db)"
    using assms insert_review_good(1) [OF assms(1)] by (auto simp: insert_review_or_skip_def split: sum.splits)
  show "\<exists>vs. insert_review_or_skip v db = db\<lparr>reviews := vs\<rparr>"
  proof (cases "insert_review v db")
    case (Inl e)
    then have "insert_review_or_skip v db = db\<lparr>reviews := reviews db\<rparr>"
      by (simp add: insert_review_or_skip_def)
    then show ?thesis ..
  next
    case (Inr db')
    with insert_review_good(2) [OF assms(1) Inr assms(2)] show ?thesis
      by (simp add: insert_review_or_skip_def) blast
  qed
qed

section \<open>The reward\<close>

lemma referral_more:
  assumes "wallet_db.more s = wallet_db.more t"
  shows "relationships s = relationships t" "codes s = codes t" "reviews s = reviews t"
    "messages s = messages t" "verifications s = verifications t"
  using assms by (cases s, cases t, simp)+

lemma reward_scope:
  assumes g: "good reg db" and f: "first_rewardable_account u app db = Some acc"
    and sc: "require_billing_scope reg db acc (Some u') = Inr sc"
  shows "sc_app sc = app"
proof -
  from f obtain b where "first_by (\<lambda>b. (b_created b, b_id b))
        (filter (\<lambda>b. b_user b = u \<and> b_status b = ''active'' \<and> b_app b = app \<and>
             list_ex (\<lambda>a. a_id a = b_account b \<and> a_app a = app \<and> a_status a = ''active'') (accounts db))
           (bindings db)) = Some b" and acc: "acc = b_account b"
    by (auto simp: first_rewardable_account_def)
  from first_by_Some [OF this(1)] obtain a where a: "a \<in> set (accounts db)" "a_id a = acc" "a_app a = app"
    by (auto simp: acc list_ex_iff)
  from sc obtain a' where a': "a' \<in> set (accounts db)" "a_id a' = acc" "py_strip (a_app a') = sc_app sc"
    using resolve_scope_Some(1,2) [of reg db acc "Some u'" False sc]
    by (auto simp: require_scope_Inr scope_ok_def)
  from goodD(2) [OF g] have u: "unique_on (\<lambda>_. True) a_id (accounts db)"
    and st: "list_all (\<lambda>a. py_strip (a_app a) = a_app a) (accounts db)" by (simp_all add: identity_ok_def)
  from unique_onD [OF u a(1) a'(1)] a a' have "a = a'" by simp
  with a a' st show ?thesis by (auto simp: list_all_iff)
qed

lemma starts_reward_key [simp]: "starts_with ''referral-reward-'' (reward_key rid)"
  by (simp add: starts_with_def reward_key_def)

lemma reward_key_inj [simp]: "reward_key a = reward_key b \<longleftrightarrow> a = b"
  by (simp add: reward_key_def)

text \<open>An unpaid relationship has no row under its key, so the posting is a new row.\<close>

lemma unpaid_no_row:
  assumes g: "good reg db" and r: "r \<in> set (relationships db)" "rr_reward r = None"
  shows "find_ledger app (reward_key (rr_id r)) db = None"
proof (rule ccontr)
  assume "find_ledger app (reward_key (rr_id r)) db \<noteq> None"
  then obtain l where "find_ledger app (reward_key (rr_id r)) db = Some l" by blast
  then have l: "l \<in> set (ledger db)" "l_key l = reward_key (rr_id r)" by (auto dest: find_ledger_Some)
  from goodD(4) [OF g] l(1) have "reward_row_ok db l" by (simp add: referral_ok_def list_all_iff)
  with l(2) obtain r' where r': "r' \<in> set (relationships db)" "pays r' l"
    by (auto simp: reward_row_ok_def list_ex_iff)
  with l(2) have "rr_id r' = rr_id r" by (simp add: pays_def)
  with r r' goodD(6) [OF g] unique_onD [of "\<lambda>_. True" rr_id "relationships db" r' r] have "r' = r"
    by (simp add: referral_keys_ok_def)
  with r r' show False by (simp add: pays_def)
qed

definition rewards_to :: "relationship \<Rightarrow> 'a wallet_db_scheme \<Rightarrow> string \<times> string \<Rightarrow> int" where
  "rewards_to r db = (wallet_balance db)((rr_inviter r, rr_app r) :=
     wallet_balance db (rr_inviter r, rr_app r) + REFERRAL_REWARD_SHELL_MICROS)"

lemma reward_posted:
  assumes g: "good reg db" and r: "r \<in> set (relationships db)" "rr_reward r = None"
    and f: "first_rewardable_account (rr_inviter r) (rr_app r) db = Some acc"
    and a: "apply_wallet_ledger reg now wid lid (reward_posting r acc) db = Inr (l, db1)"
  shows "ledger db1 = ledger db @ [l]" "l_id l = lid" "is_reward l" "l_key l = reward_key (rr_id r)"
    "l_source l = Some (rr_id r)" "l_app l = rr_app r" "l_user l = rr_inviter r"
    "l_amount l = REFERRAL_REWARD_SHELL_MICROS" "l_id l \<notin> l_id ` set (ledger db)"
    "wallet_balance db1 = rewards_to r db"
    "billing_ok db1" "same_identity db db1" "wallet_db.more db1 = wallet_db.more db"
proof -
  note gd = goodD [OF g]
  from gd(4) r(1) have clean: "clean_text (Some (rr_id r)) = Some (rr_id r)"
    by (simp add: referral_ok_def list_all_iff rel_scope_ok_def)
  then have key: "clean_text (Some (po_key (reward_posting r acc))) = Some (reward_key (rr_id r))"
    using clean_text_prefix [OF clean, of "''referral-reward-''"]
    by (simp add: reward_posting_def reward_key_def py_space_def)
  have st: "clean_text (Some (po_source_type (reward_posting r acc))) = Some ''referral_reward''"
    by (simp add: reward_posting_def) code_simp
  from keepsD [OF apply_wallet_ledger_keeps gd(1-3) a]
  show "billing_ok db1" "same_identity db db1" "wallet_db.more db1 = wallet_db.more db"
    by (simp_all add: append_only_def)
  have "ledger db1 = ledger db @ [l] \<and> l_id l = lid \<and> is_reward l \<and> l_key l = reward_key (rr_id r) \<and>
    l_source l = Some (rr_id r) \<and> l_app l = rr_app r \<and> l_user l = rr_inviter r \<and>
    l_amount l = REFERRAL_REWARD_SHELL_MICROS \<and> l_id l \<notin> l_id ` set (ledger db) \<and>
    wallet_balance db1 = rewards_to r db"
    using a gd(5)
  proof (rule apply_wallet_ledger_effect)
    fix sc k
    assume "clean_text (Some (po_key (reward_posting r acc))) = Some k"
      and "find_ledger (sc_app sc) k db = Some l"
    with key unpaid_no_row [OF g r] show ?thesis by simp
  next
    fix sc k w db0
    assume sc: "require_billing_scope reg db (po_account (reward_posting r acc)) (Some (po_user (reward_posting r acc))) = Inr sc"
      and k: "clean_text (Some (po_key (reward_posting r acc))) = Some k"
      and e: "ensure_wallet reg now wid (po_account (reward_posting r acc)) (po_user (reward_posting r acc)) db = Inr (w, db0)"
      and p: "postable l w db0" and db1: "db1 = posted l db0"
      and l: "l_id l = lid" "l_user l = po_user (reward_posting r acc)" "l_app l = sc_app sc" "l_key l = k"
        "l_amount l = po_amount (reward_posting r acc)"
        "clean_text (Some (po_source_type (reward_posting r acc))) = Some (l_source_type l)"
      and src: "l_source l = clean_text (po_source (reward_posting r acc))"
    from reward_scope [OF g f, of "rr_inviter r" sc] sc have app: "sc_app sc = rr_app r"
      by (simp add: reward_posting_def)
    note fr = ensure_wallet_frame [OF e]
    from posting_book [OF a gd(5) sc key]
    have "book_post (rr_inviter r) (rr_app r) (reward_key (rr_id r)) REFERRAL_REWARD_SHELL_MICROS (book_of db) = Some (book_of db1)"
      by (simp add: app reward_posting_def)
    from book_post_cases(2) [OF this] unpaid_no_row [OF g r]
    have "wallet_balance db1 = rewards_to r db" by (simp add: book_of_def rewards_to_def)
    moreover have "l_id l \<notin> l_id ` set (ledger db)" using p fr(2) by (simp add: postable_def)
    ultimately show ?thesis
      using l k key app st clean src fr(2) by (simp add: db1 is_reward_def reward_posting_def)
  qed
  then show "ledger db1 = ledger db @ [l]" "l_id l = lid" "is_reward l" "l_key l = reward_key (rr_id r)"
    "l_source l = Some (rr_id r)" "l_app l = rr_app r" "l_user l = rr_inviter r"
    "l_amount l = REFERRAL_REWARD_SHELL_MICROS" "l_id l \<notin> l_id ` set (ledger db)"
    "wallet_balance db1 = rewards_to r db" by blast+
qed

text \<open>The posting and the mark together keep a good state good: the relationship and the row name
  each other.\<close>

lemma rel_unique:
  assumes "referral_keys_ok db" and "r \<in> set (relationships db)" and "x \<in> set (relationships db)"
    and "rr_id x = rr_id r"
  shows "x = r"
  using assms unique_onD [of "\<lambda>_. True" rr_id "relationships db" x r] by (simp add: referral_keys_ok_def)

lemma mark_paid_good:
  assumes g: "good reg db" and r: "r \<in> set (relationships db)" "rr_reward r = None"
    and c: "int REFERRAL_QUALIFYING_MESSAGE_COUNT \<le> rr_count r"
    and f: "first_rewardable_account (rr_inviter r) (rr_app r) db = Some acc"
    and a: "apply_wallet_ledger reg now wid lid (reward_posting r acc) db = Inr (l, db1)" and lid: "lid \<noteq> []"
  shows "good reg (set_rels (unpaid (rr_id r) (rr_app r)) (mark_paid now l) db1)"
proof -
  let ?p = "unpaid (rr_id r) (rr_app r)" and ?m = "mark_paid now l"
  let ?db = "set_rels ?p ?m db1"
  note gd = goodD [OF g] and P = reward_posted [OF g r f a]
  note more = referral_more [OF P(13)]
  have only: "x = r" if "x \<in> set (relationships db)" "?p x" for x
    using rel_unique [OF gd(6) r(1) that(1)] that(2) by (simp add: unpaid_def)
  have new: "x = ?m r \<or> x \<in> set (relationships db) \<and> \<not> ?p x"
    if "x \<in> set (relationships ?db)" for x
    using that only by (auto simp: set_update_where more)
  have m: "same_rel x (?m x)" for x by (simp add: mark_paid_def same_rel_def)
  have in_new: "?m r \<in> set (relationships ?db)"
    using r by (auto simp: set_update_where more unpaid_def intro!: image_eqI [of _ _ r])
  have pays: "pays (?m r) l" using P by (simp add: pays_def mark_paid_def)
  have old: "list_ex (\<lambda>x. pays x k) (relationships ?db)"
    if "x \<in> set (relationships db)" "pays x k" for x k
    using that by (auto simp: list_ex_iff set_update_where more unpaid_def pays_def intro!: bexI [of _ x] image_eqI [of _ _ x])
  from gd(4) have ok: "referral_keys_ok db" "account_ids_ok db" "list_all (code_ok db) (codes db)"
     "list_all (rel_local_ok db) (relationships db)" "list_all (rel_scope_ok db) (relationships db)"
     "list_all (rel_paid_ok db) (relationships db)" "list_all (review_ok db) (reviews db)"
     "list_all (reward_row_ok db) (ledger db)" by (simp_all add: referral_ok_def)
  have same: "accounts db1 = accounts db" "memberships db1 = memberships db"
    using P(12) by (simp_all add: same_identity_def)
  have 1: "referral_keys_ok ?db"
    by (rule set_rels_keys [OF _ m]) (use ok(1) in \<open>simp add: referral_keys_ok_def more\<close>)
  have "rel_scope_ok db1 = rel_scope_ok db" by (simp add: fun_eq_iff rel_scope_ok_def has_member_def more same)
  then have 2: "list_all (rel_scope_ok ?db) (relationships ?db)"
    using set_rels_scope [of db1 ?m ?p, OF _ m] ok(5) by (simp add: more)
  have "review_ok db1 = review_ok db" by (simp add: fun_eq_iff review_ok_def account_in_def more same)
  then have 3: "list_all (review_ok ?db) (reviews ?db)"
    using set_rels_reviews [of db1 ?m ?p, OF _ m] ok(7) by (simp add: more)
  have "rel_local_ok ?db = rel_local_ok db" by (rule local_ok_accounts) (simp add: same)
  moreover have "rel_local_ok db (?m r)"
    using ok(4) r(1) c by (simp add: list_all_iff rel_local_ok_def mark_paid_def load_referral_metadata_def)
  ultimately have 4: "list_all (rel_local_ok ?db) (relationships ?db)"
    using ok(4) new by (fastforce simp: list_all_iff)
  have "rel_paid_ok ?db x" if "x \<in> set (relationships ?db)" for x
  proof (cases "x = ?m r")
    case True
    then show ?thesis using pays by (simp add: rel_paid_ok_def P(1))
  next
    case False
    with new [OF that] ok(6) have "rel_paid_ok db x" by (auto simp: list_all_iff)
    then show ?thesis by (auto simp: rel_paid_ok_def P(1))
  qed
  then have 5: "list_all (rel_paid_ok ?db) (relationships ?db)" by (simp add: list_all_iff)
  have "reward_row_ok ?db k" if "k \<in> set (ledger ?db)" for k
  proof (cases "k = l")
    case True
    have "list_ex (\<lambda>x. pays x l) (relationships ?db)" using in_new pays unfolding list_ex_iff by blast
    with True P(2-4) lid show ?thesis by (simp add: reward_row_ok_def)
  next
    case False
    with that have k: "k \<in> set (ledger db)" by (simp add: P(1))
    with ok(8) have "reward_row_ok db k" by (simp add: list_all_iff)
    then show ?thesis using old unfolding reward_row_ok_def list_ex_iff by blast
  qed
  then have 6: "list_all (reward_row_ok ?db) (ledger ?db)" by (simp add: list_all_iff)
  have "code_ok ?db = code_ok db" by (rule code_ok_members) (simp add: same)
  then have 7: "list_all (code_ok ?db) (codes ?db)" "account_ids_ok ?db"
    using ok(2,3) by (simp_all add: more same account_ids_ok_def)
  from 1 2 3 4 5 6 7 have "referral_ok ?db" by (simp add: referral_ok_def)
  moreover have "identity_ok db1" using gd(2) same_identity_ok [OF P(12)] by simp
  ultimately show ?thesis using gd(1) P(11) by (simp add: good_def)
qed

text \<open>What the reward does: nothing, a note that it is blocked, or one posting.\<close>

lemma no_reward: "good reg db \<Longrightarrow> r \<in> set (relationships db) \<Longrightarrow> nonempty (rr_reward r) = None \<longleftrightarrow> rr_reward r = None"
proof
  assume g: "good reg db" and r: "r \<in> set (relationships db)" and n: "nonempty (rr_reward r) = None"
  show "rr_reward r = None"
  proof (rule ccontr)
    assume "rr_reward r \<noteq> None"
    with goodD(4) [OF g] r obtain l where l: "l \<in> set (ledger db)" "pays r l"
      by (auto simp: referral_ok_def list_all_iff rel_paid_ok_def list_ex_iff)
    with goodD(4) [OF g] have "l_id l \<noteq> []" by (simp add: referral_ok_def list_all_iff reward_row_ok_def)
    with l(2) n show False by (simp add: pays_def nonempty_def)
  qed
qed (simp add: nonempty_def)

lemma fresh_ledger_ne [simp]: "fresh_ledger fresh rid \<noteq> []"
  by (simp add: fresh_ledger_def new_id_def)

lemma apply_referral_reward_effect:
  assumes g: "good reg db" and e: "apply_referral_reward reg now fresh rid db = Inr (ol, db')"
    and c: "\<And>r. r \<in> set (relationships db) \<Longrightarrow> rr_id r = rid \<Longrightarrow> int REFERRAL_QUALIFYING_MESSAGE_COUNT \<le> rr_count r"
  shows "good reg db' \<and> same_identity db db' \<and>
    (ol = None \<longrightarrow> ledger db' = ledger db \<and> wallet_balance db' = wallet_balance db) \<and>
    (\<forall>l. ol = Some l \<longrightarrow> (\<exists>r \<in> set (relationships db). rr_id r = rid \<and> rr_reward r = None \<and>
       mark_paid now l r \<in> set (relationships db') \<and> pays (mark_paid now l r) l \<and>
       ledger db' = ledger db @ [l] \<and> wallet_balance db' = rewards_to r db))"
proof (cases "find_row (\<lambda>r. rr_id r = rid) (relationships db)")
  case None
  with e g show ?thesis by (simp add: apply_referral_reward_def)
next
  case (Some r)
  note r = find_row_Some [OF Some]
  show ?thesis
  proof (cases "rr_reward r = None")
    case False
    with e g Some no_reward [OF g conjunct1 [OF r]] show ?thesis by (simp add: apply_referral_reward_def)
  next
    case True
    show ?thesis
    proof (cases "first_rewardable_account (rr_inviter r) (rr_app r) db")
      case None
      define fn where "fn = (\<lambda>x. x\<lparr>rr_status := Qualified, rr_review := RPassed,
          rr_meta := Some (dict_set ''reward_blocked_reason'' (JStr ''inviter_has_no_active_account'')
                             (load_referral_metadata r)), rr_updated := now\<rparr> :: relationship)"
      from e Some True None have d: "ol = None" "db' = set_rels (unpaid rid (rr_app r)) fn db"
        by (simp_all add: apply_referral_reward_def nonempty_def fn_def)
      have "good reg (set_rels (unpaid rid (rr_app r)) fn db)"
      proof (rule set_rels_good [OF g])
        fix x assume x: "x \<in> set (relationships db)" "unpaid rid (rr_app r) x"
        with rel_unique [OF goodD(6) [OF g] conjunct1 [OF r]] r have "x = r" by (simp add: unpaid_def)
        moreover have "rel_local_ok db r" using goodD(4) [OF g] r by (simp add: referral_ok_def list_all_iff)
        ultimately show "rel_local_ok db (fn x)"
          using c [of r] r True
          by (simp add: fn_def rel_local_ok_def load_referral_metadata_def load_json_def candidates_def)
      qed (simp_all add: fn_def same_rel_def)
      then show ?thesis by (simp add: d)
    next
      case acc: (Some acc)
      from e Some True acc obtain l db1 where
        a: "apply_wallet_ledger reg now (fresh_wallet fresh rid) (fresh_ledger fresh rid) (reward_posting r acc) db = Inr (l, db1)"
        and d: "ol = Some l" "db' = set_rels (unpaid rid (rr_app r)) (mark_paid now l) db1"
        by (auto simp: apply_referral_reward_def nonempty_def and_then_Inr)
      note rr = conjunct1 [OF r] and P = reward_posted [OF g conjunct1 [OF r] True acc a]
      have "good reg db'"
        using mark_paid_good [OF g rr True c [OF rr] acc a] r d(2) by simp
      moreover have "mark_paid now l r \<in> set (relationships db')"
        using r True by (auto simp: d set_update_where referral_more [OF P(13)] unpaid_def intro!: image_eqI [of _ _ r])
      moreover have "same_identity db db'"
        unfolding d(2) by (rule same_identity_trans [OF P(12) set_rels_identity])
      moreover have "pays (mark_paid now l r) l" using P by (simp add: pays_def mark_paid_def)
      ultimately show ?thesis using r True P(1,10) by (auto simp: d)
    qed
  qed
qed

end
