(* ===== verification/Referral_Ops.thy ===== *)
theory Referral_Ops
imports Referral_Laws
begin

text \<open>
  Every operation of the invitations keeps a good state good, and what it does to the ledger and
  the balances: nothing, or one reward (\<open>outcome\<close>). The lemmas follow the operations through
  binding, counting, hold, release and registration.
\<close>

section \<open>Outcomes\<close>

definition quiet :: "'a referral_db_scheme \<Rightarrow> 'a referral_db_scheme \<Rightarrow> bool" where
  "quiet db db' = (ledger db' = ledger db \<and> wallet_balance db' = wallet_balance db)"

definition reward_of :: "'a referral_db_scheme \<Rightarrow> ledger_row \<Rightarrow> 'a referral_db_scheme \<Rightarrow> bool" where
  "reward_of db l db' = (\<exists>r \<in> set (relationships db'). pays r l \<and>
     int REFERRAL_QUALIFYING_MESSAGE_COUNT \<le> rr_count r \<and> ledger db' = ledger db @ [l] \<and>
     wallet_balance db' = rewards_to r db)"

definition outcome :: "'a referral_db_scheme \<Rightarrow> ledger_row option \<Rightarrow> 'a referral_db_scheme \<Rightarrow> bool" where
  "outcome db ol db' = (case ol of None \<Rightarrow> quiet db db' | Some l \<Rightarrow> reward_of db l db')"

lemma outcome_simps [simp]: "outcome db None db' = quiet db db'" "outcome db (Some l) db' = reward_of db l db'"
  by (simp_all add: outcome_def)

lemma quiet_refl [simp]: "quiet db db"
  by (simp add: quiet_def)

lemma quiet_trans: "quiet a b \<Longrightarrow> quiet b c \<Longrightarrow> quiet a c"
  by (simp add: quiet_def)

lemma quiet_outcome: "quiet a b \<Longrightarrow> outcome b ol c \<Longrightarrow> outcome a ol c"
  by (cases ol) (auto simp: quiet_def reward_of_def rewards_to_def)

lemma quiet_set_rels [simp]: "quiet db (set_rels p f db)"
  by (simp add: quiet_def)

lemma quiet_reviews [simp]: "quiet db (db\<lparr>reviews := vs\<rparr>)"
  by (simp add: quiet_def fun_eq_iff wallet_balance_def active_wallet_def)

lemma good_local: "good reg db \<Longrightarrow> r \<in> set (relationships db) \<Longrightarrow> rel_local_ok db r"
  by (simp add: good_def referral_ok_def list_all_iff)

lemma get_rel_Some: "get_rel rid app db = Some r \<Longrightarrow> r \<in> set (relationships db) \<and> rr_id r = rid \<and> rr_app r = app"
  unfolding get_rel_def by (drule find_row_Some) simp

lemma unpaid_only:
  assumes "good reg db" and "r \<in> set (relationships db)" and "x \<in> set (relationships db)" "unpaid (rr_id r) app x"
  shows "x = r"
  using rel_unique [OF goodD(6) [OF assms(1)] assms(2,3)] assms(4) by (simp add: unpaid_def)

text \<open>An update of one unpaid relationship, by a function whose result for it is sound.\<close>

lemma set_unpaid_good:
  assumes g: "good reg db" and r: "r \<in> set (relationships db)" and f: "\<And>x. same_rel x (f x)" "\<And>x. rr_reward (f x) = rr_reward x"
    and p: "\<And>x. p x \<Longrightarrow> unpaid (rr_id r) (rr_app r) x"
    and l: "rr_reward r = None \<Longrightarrow> p r \<Longrightarrow> rel_local_ok db (f r)"
  shows "good reg (set_rels p f db)"
proof (rule set_rels_good [OF g f])
  fix x assume x: "x \<in> set (relationships db)" "p x"
  from unpaid_only [OF g r x(1) p [OF x(2)]] p [OF x(2)] x(2) l show "rel_local_ok db (f x)"
    by (simp add: unpaid_def)
qed

lemma apply_referral_reward_outcome:
  assumes g: "good reg db" and e: "apply_referral_reward reg now fresh rid db = Inr (ol, db')"
    and c: "\<And>r. r \<in> set (relationships db) \<Longrightarrow> rr_id r = rid \<Longrightarrow> int REFERRAL_QUALIFYING_MESSAGE_COUNT \<le> rr_count r"
  shows "good reg db' \<and> same_identity db db' \<and> outcome db ol db'"
proof -
  note E = apply_referral_reward_effect [OF g e c]
  show ?thesis
  proof (cases ol)
    case None
    with E show ?thesis by (simp add: quiet_def)
  next
    case (Some l)
    with E obtain r where r: "r \<in> set (relationships db)" "rr_id r = rid" "mark_paid now l r \<in> set (relationships db')"
      "pays (mark_paid now l r) l" "ledger db' = ledger db @ [l]" "wallet_balance db' = rewards_to r db" by blast
    have "rewards_to (mark_paid now l r) db = rewards_to r db" "rr_count (mark_paid now l r) = rr_count r"
      by (simp_all add: rewards_to_def mark_paid_def)
    with r c [OF r(1,2)] have "reward_of db l db'" unfolding reward_of_def by metis
    with E Some show ?thesis by simp
  qed
qed

section \<open>Binding and counting\<close>

lemma found_account_in: "find_account db acc = Some a \<Longrightarrow> account_in db acc (a_app a)"
  by (auto simp: find_account_def account_in_def list_ex_iff dest: find_row_Some)

lemma found_account_clean:
  "good reg db \<Longrightarrow> find_account db acc = Some a \<Longrightarrow> clean_text (Some acc) = Some acc"
  using goodD(4) [of reg db]
  by (auto simp: referral_ok_def account_ids_ok_def list_all_iff find_account_def dest!: find_row_Some)

lemma candidates_set [simp]:
  "k \<noteq> ''candidate_message_ids'' \<Longrightarrow> candidates (dict_set k v d) = candidates d"
  "k \<noteq> ''candidate_message_ids'' \<Longrightarrow> candidates (dict_setdefault k v d) = candidates d"
  by (simp_all add: candidates_def)

lemma load_metadata_update [simp]: "load_referral_metadata (r\<lparr>rr_meta := Some d\<rparr>) = d"
  by (simp add: load_referral_metadata_def load_json_def)

lemma mark_bound_good:
  assumes g: "good reg db" and m: "mark_referral_relationship_bound now invitee acc db = (o1, db')"
  shows "good reg db'" "quiet db db'" "same_identity db db'"
    "o1 = Some r \<Longrightarrow> r \<in> set (relationships db') \<and> rr_invitee r = invitee \<and>
       (\<exists>a. find_account db acc = Some a \<and> rr_app r = a_app a)"
proof -
  have "good reg db' \<and> quiet db db' \<and> same_identity db db' \<and>
      (\<forall>r. o1 = Some r \<longrightarrow> r \<in> set (relationships db') \<and> rr_invitee r = invitee \<and>
       (\<exists>a. find_account db acc = Some a \<and> rr_app r = a_app a))"
  proof (cases "o1 = None \<and> db' = db")
    case True
    with g show ?thesis by simp
  next
    case False
    with m obtain a row where a: "find_account db acc = Some a"
      and row: "find_row (\<lambda>r. rr_invitee r = invitee \<and> rr_app r = a_app a) (relationships db) = Some row"
      by (fastforce simp: mark_referral_relationship_bound_def Let_def split: option.splits if_splits)
    note r = find_row_Some [OF row]
    let ?st = "rr_status row \<in> {PendingRegistration, Registered}"
    show ?thesis
    proof (cases ?st)
      case False
      with m a row \<open>\<not> (o1 = None \<and> db' = db)\<close> have "o1 = Some row" "db' = db"
        by (auto simp: mark_referral_relationship_bound_def Let_def split: option.splits if_splits)
      with g r a show ?thesis by auto
    next
      case True
      define meta where "meta = dict_setdefault ''bound_account_id'' (JStr acc) (load_referral_metadata row)"
      define fn where "fn = (\<lambda>r. r\<lparr>rr_status := Bound, rr_meta := Some meta, rr_updated := now\<rparr> :: relationship)"
      define p where "p = (\<lambda>r :: relationship. rr_id r = rr_id row \<and> rr_app r = a_app a \<and> rr_status r \<in> {PendingRegistration, Registered})"
      from m a row True \<open>\<not> (o1 = None \<and> db' = db)\<close>
      have d: "db' = set_rels p fn db" "o1 = get_rel (rr_id row) (a_app a) db'"
        unfolding mark_referral_relationship_bound_def Let_def p_def fn_def meta_def
        by (auto split: option.splits if_splits)
      have l: "rel_local_ok db row" using good_local [OF g] r by blast
      have "good reg db'" unfolding d(1)
      proof (rule set_rels_good [OF g])
        fix x assume "x \<in> set (relationships db)" "p x"
        with rel_unique [OF goodD(6) [OF g] conjunct1 [OF r]] have x: "x = row" by (simp add: p_def)
        have "text_of (map_of meta ''bound_account_id'') = Some acc \<or>
            text_of (map_of meta ''bound_account_id'') = text_of (map_of (load_referral_metadata row) ''bound_account_id'')"
          using found_account_clean [OF g a] by (simp add: meta_def text_of_def)
        moreover have "account_in db acc (rr_app row)" using found_account_in [OF a] r by simp
        ultimately show "rel_local_ok db (fn x)"
          using l True unfolding x
          by (auto simp: rel_local_ok_def fn_def load_referral_metadata_def load_json_def meta_def)
      qed (simp_all add: fn_def same_rel_def)
      moreover have "r' \<in> set (relationships db') \<and> rr_invitee r' = invitee \<and> rr_app r' = a_app a" if "o1 = Some r'" for r'
      proof -
        from that d have r': "r' \<in> set (relationships db')" "rr_id r' = rr_id row" "rr_app r' = a_app a"
          by (auto dest: get_rel_Some)
        then obtain x where x: "x \<in> set (relationships db)" "r' = (if p x then fn x else x)"
          by (auto simp: d(1) set_update_where)
        then have "rr_id x = rr_id r'" "rr_invitee r' = rr_invitee x" by (simp_all add: fn_def)
        with rel_unique [OF goodD(6) [OF g] conjunct1 [OF r] x(1)] r' r show ?thesis by simp
      qed
      ultimately show ?thesis using a by (auto simp: d(1))
    qed
  qed
  then show "good reg db'" "quiet db db'" "same_identity db db'"
    "o1 = Some r \<Longrightarrow> r \<in> set (relationships db') \<and> rr_invitee r = invitee \<and>
       (\<exists>a. find_account db acc = Some a \<and> rr_app r = a_app a)" by blast+
qed

lemma count_message_good:
  assumes g: "good reg db" and r: "r \<in> set (relationships db)" and c: "count_message now acc mid r db = (ids, db')"
  shows "good reg db' \<and> quiet db db' \<and> same_identity db db'"
proof (cases "db' = db")
  case True
  with g show ?thesis by simp
next
  case False
  define old where "old = candidates (load_referral_metadata r)"
  define ids' where "ids' = old @ [JInt mid]"
  define fn where "fn = (\<lambda>x. x\<lparr>rr_count := int (length ids'),
      rr_status := (if REFERRAL_QUALIFYING_MESSAGE_COUNT \<le> length ids' then Qualified else Bound),
      rr_meta := Some (dict_set ''candidate_message_ids'' (JList ids') (load_referral_metadata r)),
      rr_updated := now\<rparr> :: relationship)"
  from False c have n: "JInt mid \<notin> set old" and d: "db' = set_rels (unpaid (rr_id r) (rr_app r)) fn db"
    by (auto simp: count_message_def Let_def old_def ids'_def fn_def split: option.splits if_splits)
  have l: "rel_local_ok db r" by (rule good_local [OF g r])
  have cand: "candidates (load_referral_metadata (fn r)) = ids'"
    by (simp add: fn_def candidates_def load_referral_metadata_def load_json_def)
  have "good reg db'" unfolding d
  proof (rule set_unpaid_good [OF g r])
    assume u: "rr_reward r = None"
    have "distinct ids'" using l n by (simp add: ids'_def old_def rel_local_ok_def)
    moreover have "map_of (load_referral_metadata (fn r)) ''bound_account_id'' = map_of (load_referral_metadata r) ''bound_account_id''"
      by (simp add: fn_def load_referral_metadata_def load_json_def)
    ultimately show "rel_local_ok db (fn r)"
      using l u cand unfolding rel_local_ok_def by (simp add: fn_def)
  qed (simp_all add: fn_def same_rel_def)
  then show ?thesis by (simp add: d)
qed

lemma count_message_rel:
  assumes "count_message now acc mid r db = (ids, db')" and "r \<in> set (relationships db)"
  shows "\<exists>y \<in> set (relationships db'). rr_id y = rr_id r \<and> rr_invitee y = rr_invitee r"
proof (cases "db' = db")
  case True
  with assms(2) show ?thesis by blast
next
  case False
  with assms(1) obtain p f where d: "db' = set_rels p f db" and f: "\<And>x. rr_id (f x) = rr_id x \<and> rr_invitee (f x) = rr_invitee x"
    by (auto simp: count_message_def Let_def split: option.splits if_splits)
  show ?thesis using assms(2) f [of r] unfolding d
    by (intro bexI [of _ "if p r then f r else r"]) (auto simp: set_update_where)
qed

section \<open>Hold and release\<close>

lemma review_for:
  assumes "r \<in> set (relationships db)" and "mr_rel v = rr_id r" "mr_app v = rr_app r" "mr_invitee v = rr_invitee r"
    and "account_in db (mr_account v) (rr_app r)"
  shows "review_ok db v"
  using assms unfolding review_ok_def list_ex_iff by metis

lemma same_identity_account_in: "same_identity db db' \<Longrightarrow> account_in db' acc app = account_in db acc app"
  by (simp add: same_identity_def account_in_def)

text \<open>A row whose update leaves its own id, product and invitee alone is still there for its review.\<close>

lemma kept_rel:
  assumes "r \<in> set (relationships db)" and "\<And>x. same_rel x (f x)"
  shows "\<exists>x \<in> set (relationships (set_rels p f db)). rr_id x = rr_id r \<and> rr_app x = rr_app r \<and> rr_invitee x = rr_invitee r"
  using assms(1) assms(2) [of r]
  by (intro bexI [of _ "if p r then f r else r"]) (auto simp: set_update_where same_rel_def)

lemma hold_good:
  assumes g: "good reg db" and r: "r \<in> set (relationships db)" and c: "int REFERRAL_QUALIFYING_MESSAGE_COUNT \<le> rr_count r"
    and acc: "account_in db acc (rr_app r)" and inv: "rr_invitee r = invitee"
    and d: "db' = ensure_referral_soft_review_hold now fresh r invitee acc ids review_row db"
  shows "good reg db' \<and> quiet db db' \<and> same_identity db db'"
proof (cases "rr_review r = RPending")
  case False
  with g d show ?thesis by (simp add: ensure_referral_soft_review_hold_def)
next
  case True
  define meta where "meta = dict_set ''reward_pending_reason'' (JStr ''soft_review_delayed_release'')
    (dict_set ''reward_delay_days'' (JInt REFERRAL_SOFT_REVIEW_REWARD_DELAY_DAYS)
      (dict_setdefault ''reward_release_after'' (JInt (now + days REFERRAL_SOFT_REVIEW_REWARD_DELAY_DAYS))
        (dict_setdefault ''qualified_at'' (JInt now) (load_referral_metadata r))))"
  define fn where "fn = (\<lambda>x. x\<lparr>rr_status := Qualified, rr_review := RPending, rr_meta := Some meta,
                        rr_updated := now\<rparr> :: relationship)"
  define db1 where "db1 = set_rels (unpaid (rr_id r) (rr_app r)) fn db"
  define v where "v = \<lparr>mr_id = fresh_review fresh (rr_id r), mr_rel = rr_id r, mr_invitee = invitee, mr_account = acc,
                  mr_app = rr_app r, mr_messages = take REFERRAL_QUALIFYING_MESSAGE_COUNT ids,
                  mr_reviewer = ''ai'', mr_status = RPending,
                  mr_reason = ''soft review delayed referral reward release'',
                  mr_meta = Some [(''review_method'', JStr ''phase1_heuristic''),
                    (''soft_review_required'', JBool True),
                    (''reward_release_after'', the (map_of meta ''reward_release_after''))]\<rparr>"
  have d': "db' = db1 \<or> db' = insert_review_or_skip v db1"
    using d True by (auto simp: ensure_referral_soft_review_hold_def Let_def db1_def fn_def meta_def v_def
        split: option.splits)
  have fr: "same_rel x (fn x)" for x by (simp add: fn_def same_rel_def)
  have m: "candidates meta = candidates (load_referral_metadata r)"
    "map_of meta ''bound_account_id'' = map_of (load_referral_metadata r) ''bound_account_id''"
    by (simp_all add: meta_def)
  have g1: "good reg db1" unfolding db1_def
  proof (rule set_unpaid_good [OF g r fr])
    assume "rr_reward r = None"
    with good_local [OF g r] c show "rel_local_ok db (fn r)"
      by (simp add: rel_local_ok_def fn_def load_referral_metadata_def load_json_def m)
  qed (simp_all add: fn_def)
  from kept_rel [OF r fr, of "unpaid (rr_id r) (rr_app r)"] obtain x where
    x: "x \<in> set (relationships db1)" "rr_id x = rr_id r" "rr_app x = rr_app r" "rr_invitee x = rr_invitee r"
    unfolding db1_def by blast
  have "account_in db1 acc (rr_app x)"
    using acc x(3) by (simp add: db1_def account_in_def)
  then have v: "review_ok db1 v" using x inv by (intro review_for [OF x(1)]) (simp_all add: v_def)
  have q1: "quiet db db1" "same_identity db db1" by (simp_all add: db1_def)
  from insert_review_or_skip_good [OF g1 v] obtain vs where
    i: "good reg (insert_review_or_skip v db1)" "insert_review_or_skip v db1 = db1\<lparr>reviews := vs\<rparr>" by blast
  have "quiet db (db1\<lparr>reviews := vs\<rparr>)" by (rule quiet_trans [OF q1(1) quiet_reviews])
  moreover have "same_identity db (db1\<lparr>reviews := vs\<rparr>)" using q1(2) by (simp add: same_identity_def)
  ultimately show ?thesis using d' g1 q1 i by auto
qed

lemma first_rewardable_in:
  "first_rewardable_account u app db = Some acc \<Longrightarrow> account_in db acc app"
  unfolding first_rewardable_account_def account_in_def
  by (auto dest!: first_by_Some simp: list_ex_iff)

lemma pass_review_good:
  assumes g: "good reg db" and e: "pass_review now fresh r metadata db = Inr db'"
    and y: "y \<in> set (relationships db)" "rr_id y = rr_id r" "rr_app y = rr_app r" "rr_invitee y = rr_invitee r"
    and b: "opt_all (\<lambda>acc. account_in db acc (rr_app r)) (text_of (map_of metadata ''bound_account_id''))"
  shows "good reg db' \<and> (\<exists>vs. db' = db\<lparr>reviews := vs\<rparr>)"
proof -
  define rmeta where "rmeta = Some [(''review_method'', JStr ''phase1_heuristic''),
            (''soft_review_required'', JBool True), (''soft_review_released_at'', JInt now)]"
  define acco where "acco = (case text_of (map_of metadata ''bound_account_id'') of Some a \<Rightarrow> Some a
            | None \<Rightarrow> nonempty (first_rewardable_account (rr_invitee r) (rr_app r) db))"
  show ?thesis
  proof (cases "get_review (rr_id r) (rr_app r) db")
    case (Some w)
    define fv where "fv = (\<lambda>x. x\<lparr>mr_status := RPassed, mr_reason := ''soft review delay elapsed'', mr_meta := rmeta\<rparr> :: message_review)"
    define p where "p = (\<lambda>x :: message_review. mr_id x = mr_id w \<and> mr_app x = rr_app r)"
    from e Some have d: "db' = db\<lparr>reviews := update_where p fv (reviews db)\<rparr>"
      by (simp add: pass_review_def Let_def rmeta_def fv_def p_def)
    have "good reg db'" unfolding d
    proof (rule reviews_good [OF g])
      show "unique_on (\<lambda>_. True) mr_id (update_where p fv (reviews db))"
        "unique_on (\<lambda>_. True) (\<lambda>v. (mr_rel v, mr_reviewer v)) (update_where p fv (reviews db))"
        using goodD(6) [OF g] by (simp_all add: referral_keys_ok_def unique_on_update fv_def)
      have "review_ok db (fv z) = review_ok db z" for z by (simp add: review_ok_def fv_def)
      moreover have "list_all (review_ok db) (reviews db)" using goodD(4) [OF g] by (simp add: referral_ok_def)
      ultimately show "review_ok db z" if "z \<in> set (update_where p fv (reviews db))" for z
        using that by (auto simp: set_update_where list_all_iff)
    qed
    with d show ?thesis by blast
  next
    case None
    show ?thesis
    proof (cases acco)
      case no: None
      with e None have "db' = db" by (simp add: pass_review_def Let_def acco_def)
      with g show ?thesis by (intro conjI exI [of _ "reviews db"]) simp_all
    next
      case (Some acc)
      with e None have i: "insert_review
               \<lparr>mr_id = fresh_review fresh (rr_id r), mr_rel = rr_id r, mr_invitee = rr_invitee r,
                mr_account = acc, mr_app = rr_app r, mr_messages = candidates metadata, mr_reviewer = ''ai'',
                mr_status = RPassed, mr_reason = ''soft review delay elapsed'', mr_meta = rmeta\<rparr> db = Inr db'"
        unfolding pass_review_def Let_def acco_def [symmetric] rmeta_def by simp
      have "account_in db acc (rr_app y)"
      proof (cases "text_of (map_of metadata ''bound_account_id'')")
        case (Some a)
        with b \<open>acco = Some acc\<close> y(3) show ?thesis by (simp add: acco_def)
      next
        case None
        with \<open>acco = Some acc\<close> have "first_rewardable_account (rr_invitee r) (rr_app r) db = Some acc"
          by (simp add: acco_def nonempty_def split: option.splits if_splits)
        from first_rewardable_in [OF this] y(3) show ?thesis by simp
      qed
      then have "review_ok db \<lparr>mr_id = fresh_review fresh (rr_id r), mr_rel = rr_id r, mr_invitee = rr_invitee r,
                mr_account = acc, mr_app = rr_app r, mr_messages = candidates metadata, mr_reviewer = ''ai'',
                mr_status = RPassed, mr_reason = ''soft review delay elapsed'', mr_meta = rmeta\<rparr>"
        using y by (intro review_for [OF y(1)]) simp_all
      from insert_review_good [OF g i this] show ?thesis by blast
    qed
  qed
qed

lemma release_mark_good:
  assumes g: "good reg db" and m: "release_delayed_mark now fresh rid db = Inr (Some db')"
  shows "good reg db'" "quiet db db'" "same_identity db db'"
    "x \<in> set (relationships db') \<Longrightarrow> rr_id x = rid \<Longrightarrow> int REFERRAL_QUALIFYING_MESSAGE_COUNT \<le> rr_count x"
proof -
  from m obtain r where row: "find_row (\<lambda>r. rr_id r = rid) (relationships db) = Some r" and due: "release_due now r"
    by (auto simp: release_delayed_mark_def split: option.splits if_splits)
  from due have q: "rr_status r = Qualified" by (simp add: release_due_def)
  note r = find_row_Some [OF row]
  define meta where "meta = dict_set ''soft_review_release_method'' (JStr ''delay_elapsed'')
                  (dict_set ''soft_review_released_at'' (JInt now) (load_referral_metadata r))"
  define p where "p = (\<lambda>x. unpaid rid (rr_app r) x \<and> rr_review x = RPending)"
  define fn where "fn = (\<lambda>x. x\<lparr>rr_review := RPassed, rr_meta := Some meta, rr_updated := now\<rparr> :: relationship)"
  define db1 where "db1 = set_rels p fn db"
  have e: "pass_review now fresh r meta db1 = Inr db'"
    using m row due by (simp add: release_delayed_mark_def meta_def p_def fn_def db1_def and_then_Inr Let_def)
  have fr: "same_rel x (fn x)" for x by (simp add: fn_def same_rel_def)
  have mm: "candidates meta = candidates (load_referral_metadata r)"
    "map_of meta ''bound_account_id'' = map_of (load_referral_metadata r) ''bound_account_id''"
    by (simp_all add: meta_def)
  have lr: "rel_local_ok db r" using good_local [OF g] r by blast
  have g1: "good reg db1" unfolding db1_def
  proof (rule set_unpaid_good [OF g conjunct1 [OF r] fr])
    assume "rr_reward r = None"
    with lr show "rel_local_ok db (fn r)"
      by (auto simp: rel_local_ok_def fn_def load_referral_metadata_def load_json_def mm)
  qed (use r in \<open>simp_all add: fn_def p_def\<close>)
  have q1: "quiet db db1" "same_identity db db1" by (simp_all add: db1_def)
  have c1: "int REFERRAL_QUALIFYING_MESSAGE_COUNT \<le> rr_count x" if "x \<in> set (relationships db1)" "rr_id x = rid" for x
  proof -
    from that obtain y where y: "y \<in> set (relationships db)" "x = (if p y then fn y else y)"
      by (auto simp: db1_def set_update_where)
    then have "rr_id y = rr_id x" "rr_count x = rr_count y" by (simp_all add: fn_def)
    with rel_unique [OF goodD(6) [OF g] conjunct1 [OF r] y(1)] that(2) r q lr show ?thesis
      by (simp add: rel_local_ok_def)
  qed
  from kept_rel [OF conjunct1 [OF r] fr, of p] obtain y where
    y: "y \<in> set (relationships db1)" "rr_id y = rr_id r" "rr_app y = rr_app r" "rr_invitee y = rr_invitee r"
    unfolding db1_def by blast
  have "opt_all (\<lambda>acc. account_in db1 acc (rr_app r)) (text_of (map_of meta ''bound_account_id''))"
    using lr by (simp add: rel_local_ok_def mm same_identity_account_in [OF q1(2)])
  from pass_review_good [OF g1 e y this]
  obtain vs where g': "good reg db'" and vs: "db' = db1\<lparr>reviews := vs\<rparr>" by blast
  show "good reg db'" by (rule g')
  show "quiet db db'" unfolding vs by (rule quiet_trans [OF q1(1) quiet_reviews])
  show "same_identity db db'" using q1(2) unfolding vs by (simp add: same_identity_def)
  show "int REFERRAL_QUALIFYING_MESSAGE_COUNT \<le> rr_count x" if "x \<in> set (relationships db')" "rr_id x = rid"
    using c1 that unfolding vs by simp
qed

lemma release_delayed_outcome:
  assumes g: "good reg db" and e: "release_delayed_referral_reward reg now fresh rid db = Inr (ol, db')"
  shows "good reg db' \<and> same_identity db db' \<and> outcome db ol db'"
proof -
  from e obtain m where m: "release_delayed_mark now fresh rid db = Inr m"
    and k: "(case m of None \<Rightarrow> Inr (None, db) | Some db1 \<Rightarrow> apply_referral_reward reg now fresh rid db1) = Inr (ol, db')"
    by (auto simp: release_delayed_referral_reward_def and_then_Inr)
  show ?thesis
  proof (cases m)
    case None
    with k g show ?thesis by simp
  next
    case (Some db1)
    note M = release_mark_good [OF g m [unfolded Some]]
    from k Some have "apply_referral_reward reg now fresh rid db1 = Inr (ol, db')" by simp
    from apply_referral_reward_outcome [OF M(1) this M(4)] M(2,3) show ?thesis
      using quiet_outcome same_identity_trans by blast
  qed
qed

section \<open>A message\<close>

lemma reach_threshold_outcome:
  assumes g: "good reg db" and r: "r \<in> set (relationships db)" and c: "int REFERRAL_QUALIFYING_MESSAGE_COUNT \<le> rr_count r"
    and acc: "account_in db acc (rr_app r)" and inv: "rr_invitee r = invitee"
    and e: "reach_threshold reg now fresh invitee acc ids r review_row db = Inr (ol, db')"
  shows "good reg db' \<and> same_identity db db' \<and> outcome db ol db'"
proof -
  have cnt: "int REFERRAL_QUALIFYING_MESSAGE_COUNT \<le> rr_count x" if "x \<in> set (relationships db)" "rr_id x = rr_id r" for x
    using rel_unique [OF goodD(6) [OF g] r that] c by simp
  show ?thesis
  proof (cases "truthy (map_of (load_referral_metadata r) ''soft_review_required'')")
    case True
    show ?thesis
    proof (cases "rr_review r")
      case RPassed
      with e True have "apply_referral_reward reg now fresh (rr_id r) db = Inr (ol, db')"
        by (simp add: reach_threshold_def)
      from apply_referral_reward_outcome [OF g this cnt] show ?thesis .
    next
      case RFailed
      with e True g show ?thesis by (simp add: reach_threshold_def)
    next
      case RPending
      define db1 where "db1 = ensure_referral_soft_review_hold now fresh r invitee acc ids review_row db"
      note h = hold_good [OF g r c acc inv db1_def]
      from e True RPending have "release_delayed_referral_reward reg now fresh (rr_id r) db1 = Inr (ol, db')"
        by (simp add: reach_threshold_def db1_def)
      from release_delayed_outcome [OF conjunct1 [OF h] this] h show ?thesis
        using quiet_outcome same_identity_trans by blast
    qed
  next
    case False
    define v where "v = \<lparr>mr_id = fresh_review fresh (rr_id r), mr_rel = rr_id r, mr_invitee = invitee, mr_account = acc,
                  mr_app = rr_app r, mr_messages = take REFERRAL_QUALIFYING_MESSAGE_COUNT ids,
                  mr_reviewer = ''ai'', mr_status = RPassed,
                  mr_reason = ''phase1 heuristic accepted 3 meaningful inbound messages'',
                  mr_meta = Some [(''review_method'', JStr ''phase1_heuristic''),
                    (''qualifying_message_count'', JInt (int REFERRAL_QUALIFYING_MESSAGE_COUNT))]\<rparr>"
    define db1 where "db1 = (case review_row of Some _ \<Rightarrow> db | None \<Rightarrow> insert_review_or_skip v db)"
    define fn where "fn = (\<lambda>x. x\<lparr>rr_status := Qualified, rr_review := RPassed, rr_updated := now\<rparr> :: relationship)"
    have v: "review_ok db v" using acc inv by (intro review_for [OF r]) (simp_all add: v_def)
    from insert_review_or_skip_good [OF g v] obtain vs where
      i: "good reg (insert_review_or_skip v db)" "insert_review_or_skip v db = db\<lparr>reviews := vs\<rparr>" by blast
    have g1: "good reg db1" using g i(1) by (simp add: db1_def split: option.split)
    have "db1 = db \<or> db1 = db\<lparr>reviews := vs\<rparr>" using i(2) by (simp add: db1_def split: option.split)
    then have q1: "quiet db db1" "same_identity db db1" "relationships db1 = relationships db"
      by (auto simp: same_identity_def)
    from e False have "Inr (ol, db') = (Inr (None, db1) :: (ledger_row option \<times> 'a referral_db_scheme) res) \<or>
        apply_referral_reward reg now fresh (rr_id r) (set_rels (unpaid (rr_id r) (rr_app r)) fn db1) = Inr (ol, db')"
      unfolding reach_threshold_def Let_def v_def [symmetric] db1_def [symmetric] fn_def [symmetric]
      by (auto split: option.splits if_splits)
    then show ?thesis
    proof
      assume "Inr (ol, db') = (Inr (None, db1) :: (ledger_row option \<times> 'a referral_db_scheme) res)"
      with g1 q1 show ?thesis by simp
    next
      define db2 where "db2 = set_rels (unpaid (rr_id r) (rr_app r)) fn db1"
      assume "apply_referral_reward reg now fresh (rr_id r) (set_rels (unpaid (rr_id r) (rr_app r)) fn db1) = Inr (ol, db')"
      then have a: "apply_referral_reward reg now fresh (rr_id r) db2 = Inr (ol, db')" by (simp add: db2_def)
      have r1: "r \<in> set (relationships db1)" using r q1 by simp
      have g2: "good reg db2" unfolding db2_def
      proof (rule set_unpaid_good [OF g1 r1])
        assume "rr_reward r = None"
        with good_local [OF g1 r1] c show "rel_local_ok db1 (fn r)"
          by (simp add: rel_local_ok_def fn_def load_referral_metadata_def)
      qed (simp_all add: fn_def same_rel_def)
      have cnt2: "int REFERRAL_QUALIFYING_MESSAGE_COUNT \<le> rr_count x" if "x \<in> set (relationships db2)" "rr_id x = rr_id r" for x
        using that cnt q1(3) by (auto simp: db2_def set_update_where fn_def split: if_splits)
      have q2: "quiet db db2" "same_identity db db2"
        using q1 quiet_trans [OF q1(1), of db2] same_identity_trans [OF q1(2), of db2] by (simp_all add: db2_def)
      from apply_referral_reward_outcome [OF g2 a cnt2] q2 show ?thesis
        using quiet_outcome same_identity_trans by blast
    qed
  qed
qed

lemma process_message_outcome:
  assumes g: "good reg db" and e: "process_referral_message_for_account reg now fresh acc mid db = Inr (res, db')"
  shows "good reg db' \<and> same_identity db db' \<and>
    (\<exists>ol. outcome db ol db' \<and> (case res of None \<Rightarrow> ol = None
       | Some f \<Rightarrow> rf_ledger f = map_option decode_ledger_row ol \<and> rf_relationship f \<in> set (relationships db')))"
proof (cases "message_owner acc db")
  case None
  with e g show ?thesis by (simp add: process_referral_message_for_account_def)
next
  case (Some o1)
  obtain invitee oapp where o: "o1 = (invitee, oapp)" by (cases o1)
  from e Some o obtain p where p: "require_enabled reg oapp = Inr p"
    by (auto simp: process_referral_message_for_account_def and_then_Inr)
  obtain a where a: "find_account db acc = Some a" "oapp = a_app a"
    using Some o by (auto simp: message_owner_def split: option.splits)
  then have "a \<in> set (accounts db)" by (auto simp: find_account_def dest: find_row_Some)
  with goodD(2) [OF g] have "py_strip (a_app a) = a_app a" by (simp add: identity_ok_def list_all_iff)
  with require_enabled_app [OF p] a have app: "p_app p = a_app a" by simp
  obtain orow db1 where m: "mark_referral_relationship_bound now invitee acc db = (orow, db1)"
    by (cases "mark_referral_relationship_bound now invitee acc db")
  note M = mark_bound_good [OF g m]
  have fin: ?thesis if "res = None" "db' = db \<or> db' = db1"
    using that M(1-3) g by (intro conjI exI [of _ None]) auto
  show ?thesis
  proof (cases "find_row (\<lambda>r. rr_invitee r = invitee \<and> rr_app r = p_app p) (relationships db) = None \<or> orow = None")
    case True
    with e Some o p m have "res = None \<and> (db' = db \<or> db' = db1)"
      by (auto simp: process_referral_message_for_account_def Let_def split: if_splits)
    with fin show ?thesis by blast
  next
    case False
    then obtain row where row: "orow = Some row" by blast
    note Mr = M(4) [OF row]
    show ?thesis
    proof (cases "get_rel (rr_id row) (p_app p) db1")
      case None
      with e Some o p m row False have "res = None \<and> (db' = db \<or> db' = db1)"
        by (auto simp: process_referral_message_for_account_def Let_def split: if_splits)
      with fin show ?thesis by blast
    next
      case (Some r)
      note rr = get_rel_Some [OF this]
      have r1: "r \<in> set (relationships db1)" using rr by simp
      from rel_unique [OF goodD(6) [OF M(1)] _ r1, of row] rr Mr have "r = row" by simp
      then have inv: "rr_invitee r = invitee" and rapp: "rr_app r = a_app a" using Mr a by auto
      show ?thesis
      proof (cases "nonempty (rr_reward r) = None")
        case False
        with e \<open>message_owner acc db = Some o1\<close> o p m row \<open>\<not> (_ \<or> _)\<close> Some
        have "res = Some \<lparr>rf_relationship = r, rf_review = get_review (rr_id r) (p_app p) db1, rf_ledger = None\<rparr>" "db' = db1"
          by (auto simp: process_referral_message_for_account_def Let_def split: if_splits)
        with M(1-3) r1 show ?thesis by (intro conjI exI [of _ None]) auto
      next
        case True
        obtain ids db2 where cm: "count_message now acc mid r db1 = (ids, db2)"
          by (cases "count_message now acc mid r db1")
        note C = count_message_good [OF M(1) r1 cm]
        from e \<open>message_owner acc db = Some o1\<close> o p m row \<open>\<not> (_ \<or> _)\<close> Some True cm
        obtain r2 where r2: "get_rel (rr_id r) (p_app p) db2 = Some r2"
          and k: "(if rr_count r2 < int REFERRAL_QUALIFYING_MESSAGE_COUNT
                then Inr (Some \<lparr>rf_relationship = r2, rf_review = get_review (rr_id r) (p_app p) db1, rf_ledger = None\<rparr>, db2)
                else and_then (reach_threshold reg now fresh invitee acc ids r2 (get_review (rr_id r) (p_app p) db1) db2) (\<lambda>(l, db3).
                  and_then (the_row (get_rel (rr_id r) (p_app p) db3)) (\<lambda>r3.
                    Inr (Some \<lparr>rf_relationship = r3, rf_review = get_review (rr_id r) (p_app p) db3,
                           rf_ledger = map_option decode_ledger_row l\<rparr>, db3)))) = Inr (res, db')"
          by (auto simp: process_referral_message_for_account_def Let_def the_row_def and_then_Inr split: option.splits)
        note R2 = get_rel_Some [OF r2]
        have q2: "quiet db db2" "same_identity db db2"
          using M(2,3) C quiet_trans same_identity_trans by blast+
        show ?thesis
        proof (cases "rr_count r2 < int REFERRAL_QUALIFYING_MESSAGE_COUNT")
          case True
          with k have "res = Some \<lparr>rf_relationship = r2, rf_review = get_review (rr_id r) (p_app p) db1, rf_ledger = None\<rparr>" "db' = db2"
            by auto
          with C q2 R2 show ?thesis by (intro conjI exI [of _ None]) auto
        next
          case False
          with k obtain l r3 where t: "reach_threshold reg now fresh invitee acc ids r2 (get_review (rr_id r) (p_app p) db1) db2 = Inr (l, db')"
            and r3: "get_rel (rr_id r) (p_app p) db' = Some r3"
            and res: "res = Some \<lparr>rf_relationship = r3, rf_review = get_review (rr_id r) (p_app p) db',
                           rf_ledger = map_option decode_ledger_row l\<rparr>"
            by (auto simp: and_then_Inr the_row_def split: option.splits)
          obtain y where y: "y \<in> set (relationships db2)" "rr_id y = rr_id r" "rr_invitee y = invitee"
            using count_message_rel [OF cm r1] inv by blast
          have r2i: "rr_invitee r2 = invitee"
            using rel_unique [OF goodD(6) [OF conjunct1 [OF C]] _ y(1), of r2] R2 y by simp
          have "account_in db2 acc (rr_app r2)"
            using found_account_in [OF a(1)] R2 app same_identity_account_in [OF q2(2)] by simp
          from reach_threshold_outcome [OF conjunct1 [OF C] conjunct1 [OF R2] _ this r2i t] False
          have T: "good reg db'" "same_identity db2 db'" "outcome db2 l db'" by auto
          have "outcome db l db'" "same_identity db db'"
            using quiet_outcome [OF q2(1) T(3)] same_identity_trans [OF q2(2) T(2)] .
          moreover have "r3 \<in> set (relationships db')" using get_rel_Some [OF r3] by simp
          ultimately show ?thesis using T(1) res by (intro conjI exI [of _ l]) auto
        qed
      qed
    qed
  qed
qed

section \<open>Loops\<close>

lemma release_loop_good:
  assumes "good reg db" and "release_loop reg now fresh rids ledgers db = (ls, Some db')"
  shows "good reg db' \<and> same_identity db db' \<and>
    (\<exists>new. ls = ledgers @ new \<and> ledger db' = ledger db @ new \<and> list_all is_reward new)"
  using assms
proof (induction rids arbitrary: ledgers db)
  case Nil
  then show ?case by simp
next
  case (Cons rid rids)
  note g = Cons.prems(1) and e = Cons.prems(2)
  show ?case
  proof (cases "release_delayed_mark now fresh rid db")
    case (Inl x)
    with e have "release_loop reg now fresh rids ledgers db = (ls, Some db')" by (simp split: if_splits)
    from Cons.IH [OF g this] show ?thesis .
  next
    case (Inr m)
    show ?thesis
    proof (cases m)
      case None
      with e Inr have "release_loop reg now fresh rids ledgers db = (ls, Some db')" by simp
      from Cons.IH [OF g this] show ?thesis .
    next
      case (Some db1)
      note M = release_mark_good [OF g Inr [unfolded Some]]
      show ?thesis
      proof (cases "apply_referral_reward reg now fresh rid db1")
        case (Inl x)
        with e \<open>_ = Inr m\<close> Some have "release_loop reg now fresh rids ledgers db1 = (ls, Some db')"
          by (simp split: if_splits)
        from Cons.IH [OF M(1) this] M(2,3) show ?thesis
          by (auto simp: quiet_def intro: same_identity_trans)
      next
        case a: (Inr r)
        obtain l db2 where r: "r = (l, db2)" by (cases r)
        from e \<open>_ = Inr m\<close> Some a r have k: "release_loop reg now fresh rids (ledgers @ opt_list l) db2 = (ls, Some db')"
          by simp
        from apply_referral_reward_outcome [OF M(1) a [unfolded r] M(4)]
        have A: "good reg db2" "same_identity db1 db2" "outcome db1 l db2" by auto
        have "ledger db2 = ledger db @ opt_list l \<and> list_all is_reward (opt_list l)"
          using A(3) M(2) by (cases l) (auto simp: quiet_def reward_of_def opt_list_def pays_def)
        moreover from Cons.IH [OF A(1) k] obtain new where "good reg db'" "same_identity db2 db'"
          "ls = (ledgers @ opt_list l) @ new" "ledger db' = ledger db2 @ new" "list_all is_reward new" by blast
        moreover have "same_identity db db2" using M(3) A(2) by (rule same_identity_trans)
        ultimately show ?thesis
          by (intro conjI exI [of _ "opt_list l @ new"]) (auto intro: same_identity_trans)
      qed
    qed
  qed
qed

text \<open>The reward changes neither the ids nor the counts of the relationships.\<close>

definition rel_counts :: "'a referral_db_scheme \<Rightarrow> (string \<times> int) list" where
  "rel_counts db = map (\<lambda>r. (rr_id r, rr_count r)) (relationships db)"

lemma set_rels_counts:
  "(\<And>r. rr_id (f r) = rr_id r) \<Longrightarrow> (\<And>r. rr_count (f r) = rr_count r) \<Longrightarrow> rel_counts (set_rels p f db) = rel_counts db"
  by (simp add: rel_counts_def map_update_where)

lemma apply_reward_counts:
  assumes g: "good reg db" and e: "apply_referral_reward reg now fresh rid db = Inr (ol, db')"
  shows "rel_counts db' = rel_counts db"
proof (cases "db' = db")
  case True
  then show ?thesis by simp
next
  case False
  with e obtain r where f: "find_row (\<lambda>r. rr_id r = rid) (relationships db) = Some r" "nonempty (rr_reward r) = None"
    by (auto simp: apply_referral_reward_def split: option.splits if_splits)
  show ?thesis
  proof (cases "first_rewardable_account (rr_inviter r) (rr_app r) db")
    case None
    with e f show ?thesis by (clarsimp simp: apply_referral_reward_def Let_def) (rule set_rels_counts; simp)
  next
    case (Some acc)
    with e f obtain l db1 where a: "apply_wallet_ledger reg now (fresh_wallet fresh rid) (fresh_ledger fresh rid)
        (reward_posting r acc) db = Inr (l, db1)" and d: "db' = set_rels (unpaid rid (rr_app r)) (mark_paid now l) db1"
      by (auto simp: apply_referral_reward_def and_then_Inr)
    have m: "wallet_db.more db1 = wallet_db.more db"
      using keepsD [OF apply_wallet_ledger_keeps goodD(1-3) [OF g] a] by (simp add: append_only_def)
    have "rel_counts db1 = rel_counts db" by (simp add: rel_counts_def referral_more(1) [OF m])
    then show ?thesis unfolding d by (subst set_rels_counts) (simp_all add: mark_paid_def)
  qed
qed

definition enough :: "string list \<Rightarrow> 'a referral_db_scheme \<Rightarrow> bool" where
  "enough rids db = (\<forall>(rid, n) \<in> set (rel_counts db). rid \<in> set rids \<longrightarrow> int REFERRAL_QUALIFYING_MESSAGE_COUNT \<le> n)"

lemma retry_loop_good:
  assumes "good reg db" and "enough rids db" and "retry_loop reg now fresh rids ledgers db = Inr (ls, db')"
  shows "good reg db' \<and> same_identity db db' \<and>
    (\<exists>new. ls = ledgers @ new \<and> ledger db' = ledger db @ new \<and> list_all is_reward new)"
  using assms
proof (induction rids arbitrary: ledgers db)
  case Nil
  then show ?case by simp
next
  case (Cons rid rids)
  note g = Cons.prems(1)
  from Cons.prems(3) obtain l db1 where a: "apply_referral_reward reg now fresh rid db = Inr (l, db1)"
    and k: "retry_loop reg now fresh rids (ledgers @ opt_list l) db1 = Inr (ls, db')"
    by (auto simp: and_then_Inr)
  have "int REFERRAL_QUALIFYING_MESSAGE_COUNT \<le> rr_count r" if "r \<in> set (relationships db)" "rr_id r = rid" for r
    using Cons.prems(2) that by (fastforce simp: enough_def rel_counts_def)
  from apply_referral_reward_outcome [OF g a this]
  have A: "good reg db1" "same_identity db db1" "outcome db l db1" by auto
  have "enough rids db1" using Cons.prems(2) unfolding enough_def apply_reward_counts [OF g a] by auto
  from Cons.IH [OF A(1) this k] obtain new where "good reg db'" "same_identity db1 db'"
    "ls = (ledgers @ opt_list l) @ new" "ledger db' = ledger db1 @ new" "list_all is_reward new" by blast
  moreover have "ledger db1 = ledger db @ opt_list l \<and> list_all is_reward (opt_list l)"
    using A(3) by (cases l) (auto simp: quiet_def reward_of_def opt_list_def pays_def)
  ultimately show ?case using A(2)
    by (intro conjI exI [of _ "opt_list l @ new"]) (auto intro: same_identity_trans)
qed

lemma qualified_enough:
  assumes g: "good reg db" and p: "\<And>r. p r \<Longrightarrow> rr_status r = Qualified"
  shows "enough (due_ids p db) db"
  unfolding enough_def
proof (clarify)
  fix rid n
  assume "(rid, n) \<in> set (rel_counts db)" and "rid \<in> set (due_ids p db)"
  then obtain r x where r: "r \<in> set (relationships db)" "rr_id r = rid" "rr_count r = n"
    and x: "x \<in> set (relationships db)" "rr_id x = rid" "p x"
    by (auto simp: rel_counts_def due_ids_def)
  with rel_unique [OF goodD(6) [OF g] r(1) x(1)] have "x = r" by simp
  with p [OF x(3)] good_local [OF g r(1)] r(3) show "int REFERRAL_QUALIFYING_MESSAGE_COUNT \<le> n"
    by (simp add: rel_local_ok_def)
qed

lemma release_due_good:
  assumes g: "good reg db" and e: "release_due_referral_rewards reg now fresh limit app_id db = Inr (vs, db') \<or>
     release_due_referral_rewards_for_user reg now fresh u app_id limit db = Inr (vs, db')"
  shows "good reg db' \<and> same_identity db db' \<and> (\<exists>new. ledger db' = ledger db @ new \<and> list_all is_reward new)"
proof -
  from e obtain rids where c: "committed db (release_loop reg now fresh rids [] db) = (vs, db')"
    by (auto simp: release_due_referral_rewards_def release_due_referral_rewards_for_user_def
        release_due_for_inviter_def and_then_Inr)
  obtain ls o1 where l: "release_loop reg now fresh rids [] db = (ls, o1)"
    by (cases "release_loop reg now fresh rids [] db")
  with c have d: "db' = (case o1 of None \<Rightarrow> db | Some x \<Rightarrow> x)" by (simp add: committed_def)
  show ?thesis
  proof (cases o1)
    case None
    with d g show ?thesis by simp
  next
    case (Some x)
    with release_loop_good [OF g l [unfolded Some]] d show ?thesis by auto
  qed
qed

lemma retry_qualified_good:
  assumes g: "good reg db" and e: "retry_qualified_referral_rewards_for_user reg now fresh u app_id db = Inr (vs, db')"
  shows "good reg db' \<and> same_identity db db' \<and> (\<exists>new. ledger db' = ledger db @ new \<and> list_all is_reward new)"
proof -
  from e obtain app where b: "(case release_due_for_inviter reg now fresh u app 100 db of
         (_, None) \<Rightarrow> Inl (RuntimeError ''InFailedSqlTransaction'')
       | (ledgers, Some db1) \<Rightarrow>
           and_then (retry_loop reg now fresh (due_ids
             (\<lambda>r. rr_inviter r = u \<and> rr_app r = app \<and> rr_status r = Qualified \<and>
                  rr_review r = RPassed \<and> rr_reward r = None) db1) ledgers db1)
             (\<lambda>(ls, db2). Inr (map decode_ledger_row ls, db2))) = Inr (vs, db')"
    by (auto simp: retry_qualified_referral_rewards_for_user_def and_then_Inr)
  obtain ls1 o1 where l1: "release_due_for_inviter reg now fresh u app 100 db = (ls1, o1)"
    by (cases "release_due_for_inviter reg now fresh u app 100 db")
  with b obtain db1 where o1: "o1 = Some db1" by (cases o1) auto
  note l = l1 [unfolded o1]
  from b l obtain ls where r: "retry_loop reg now fresh (due_ids
             (\<lambda>r. rr_inviter r = u \<and> rr_app r = app \<and> rr_status r = Qualified \<and>
                  rr_review r = RPassed \<and> rr_reward r = None) db1) ls1 db1 = Inr (ls, db')"
    by (auto simp: and_then_Inr)
  from release_loop_good [OF g l [unfolded release_due_for_inviter_def]]
  obtain new where L: "good reg db1" "same_identity db db1" "ledger db1 = ledger db @ new" "list_all is_reward new"
    by auto
  have "enough (due_ids (\<lambda>r. rr_inviter r = u \<and> rr_app r = app \<and> rr_status r = Qualified \<and>
                  rr_review r = RPassed \<and> rr_reward r = None) db1) db1"
    by (rule qualified_enough [OF L(1)]) simp
  from retry_loop_good [OF L(1) this r] L show ?thesis by (auto intro: same_identity_trans)
qed

section \<open>Memberships\<close>

text \<open>The invariants look at memberships only to find one, so they survive any change that keeps
  each user a member of each product he was in.\<close>

definition members_grow :: "'a identity_db_scheme \<Rightarrow> 'a identity_db_scheme \<Rightarrow> bool" where
  "members_grow db db' = (accounts db' = accounts db \<and> memberships_ok db' \<and>
     (\<forall>m \<in> set (memberships db). \<exists>m' \<in> set (memberships db'). m_user m' = m_user m \<and> m_app m' = m_app m))"

lemma members_grow_has: "members_grow db db' \<Longrightarrow> has_member db u app \<Longrightarrow> has_member db' u app"
  unfolding members_grow_def has_member_def list_ex_iff by metis

lemma members_grow_scope: "members_grow db db' \<Longrightarrow> in_scope db acc u app \<Longrightarrow> in_scope db' acc u app"
  unfolding members_grow_def in_scope_def list_ex_iff by metis

lemma members_grow_billing:
  assumes m: "members_grow db db'" and b: "billing_ok db"
    and s: "wallets db' = wallets db" "ledger db' = ledger db" "costs db' = costs db" "subscriptions db' = subscriptions db"
  shows "billing_ok db'"
proof -
  note sc = members_grow_scope [OF m]
  have "wallet_keys_ok db'" "subscription_keys_ok db'" "balances_ok db'" "trail_ok (ledger db')"
    using b by (simp_all add: billing_ok_def wallet_keys_ok_def subscription_keys_ok_def balances_ok_def s)
  moreover have "wallet_rows_ok db'" "ledger_rows_ok db'"
    using b sc by (simp_all add: billing_ok_def wallet_rows_ok_def ledger_rows_ok_def s)
  moreover have "cost_rows_ok db'"
    unfolding cost_rows_ok_iff s
  proof (intro ballI)
    fix c assume "c \<in> set (costs db)"
    with b have "(\<exists>u. c_user c = Some u \<and> in_scope db (c_account c) u (c_app c)) \<and>
     (\<forall>i. c_wallet c = Some i \<longrightarrow> (\<exists>w \<in> set (wallets db). w_id w = i \<and> w_app w = c_app c)) \<and>
     (\<forall>i. c_ledger c = Some i \<longrightarrow> (\<exists>l \<in> set (ledger db). l_id l = i \<and> l_app l = c_app c))"
      unfolding billing_ok_def cost_rows_ok_iff by blast
    with sc show "(\<exists>u. c_user c = Some u \<and> in_scope db' (c_account c) u (c_app c)) \<and>
     (\<forall>i. c_wallet c = Some i \<longrightarrow> (\<exists>w \<in> set (wallets db). w_id w = i \<and> w_app w = c_app c)) \<and>
     (\<forall>i. c_ledger c = Some i \<longrightarrow> (\<exists>l \<in> set (ledger db). l_id l = i \<and> l_app l = c_app c))" by blast
  qed
  moreover have "subscription_rows_ok db'"
    unfolding subscription_rows_ok_def s
  proof (intro ballI)
    fix x assume "x \<in> set (subscriptions db)"
    with b obtain m' where "sb_app x \<noteq> []" "m' \<in> set (memberships db)" "m_user m' = sb_user x" "m_app m' = sb_app x"
      unfolding billing_ok_def subscription_rows_ok_def by blast
    with m show "sb_app x \<noteq> [] \<and> (\<exists>m \<in> set (memberships db'). m_user m = sb_user x \<and> m_app m = sb_app x)"
      unfolding members_grow_def by metis
  qed
  ultimately show ?thesis by (simp add: billing_ok_def)
qed

lemma members_good:
  assumes g: "good reg db" and m: "members_grow db db'"
    and s: "wallets db' = wallets db" "ledger db' = ledger db" "costs db' = costs db" "subscriptions db' = subscriptions db"
    and r: "codes db' = codes db" "relationships db' = relationships db" "reviews db' = reviews db"
  shows "good reg db'"
proof -
  have acc: "accounts db' = accounts db" using m by (simp add: members_grow_def)
  have "identity_ok db'" using goodD(2) [OF g] m by (simp add: identity_ok_def members_grow_def)
  moreover have "billing_ok db'" by (rule members_grow_billing [OF m goodD(3) [OF g] s])
  moreover have "code_ok db' c" if "code_ok db c" for c
    using that members_grow_has [OF m] by (auto simp: code_ok_def opt_all_iff)
  moreover have "rel_scope_ok db' x" if "rel_scope_ok db x" for x
    using that members_grow_has [OF m] by (simp add: rel_scope_ok_def r)
  moreover have "rel_local_ok db' = rel_local_ok db" by (rule local_ok_accounts [OF acc])
  moreover have "rel_paid_ok db' = rel_paid_ok db" "review_ok db' = review_ok db" "reward_row_ok db' = reward_row_ok db"
    by (simp_all add: fun_eq_iff rel_paid_ok_def review_ok_def reward_row_ok_def account_in_def s r acc)
  ultimately show ?thesis
    using g by (simp add: good_def referral_ok_def referral_keys_ok_def account_ids_ok_def list_all_iff s r acc)
qed

lemma update_membership_grow:
  assumes "memberships_ok db" and "update_product_membership_status reg u app st db = Inr (m, db')"
  shows "members_grow db db' \<and> (\<exists>ms. db' = db\<lparr>memberships := ms\<rparr>)"
proof -
  from assms(2) obtain a s where d: "db' = db\<lparr>memberships := update_where (\<lambda>m. m_user m = u \<and> m_app m = a)
      (\<lambda>m. m\<lparr>m_status := s\<rparr>) (memberships db)\<rparr>"
    by (auto simp: update_product_membership_status_def and_then_Inr Let_def split: option.splits)
  have "\<exists>m' \<in> set (memberships db'). m_user m' = m_user x \<and> m_app m' = m_app x" if "x \<in> set (memberships db)" for x
    using that unfolding d
    by (intro bexI [of _ "if m_user x = u \<and> m_app x = a then x\<lparr>m_status := s\<rparr> else x"])
      (auto simp: set_update_where)
  with update_membership_ok [OF assms] show ?thesis unfolding members_grow_def by (auto simp: d)
qed

lemma ensure_membership_grow:
  assumes "memberships_ok db" and "ensure_product_membership reg now u app db = Inr ((m, new), db')"
  shows "members_grow db db' \<and> (\<exists>ms. db' = db\<lparr>memberships := ms\<rparr>) \<and> has_member db' u (py_strip app)"
proof -
  from assms(2) have d: "db' = db\<lparr>memberships := memberships db\<rparr> \<or> (\<exists>m. db' = db\<lparr>memberships := memberships db @ [m]\<rparr>)"
    by (auto simp: ensure_product_membership_def and_then_Inr Let_def split: option.splits)
  have "find_row (\<lambda>m. m_user m = u \<and> m_app m = py_strip app) (memberships db') = Some m"
    using ensure_membership_get [OF assms(2)] by (simp add: get_product_membership_def)
  from find_row_Some [OF this] have "has_member db' u (py_strip app)"
    by (auto simp: has_member_def list_ex_iff)
  moreover have "members_grow db db'"
    using ensure_membership_ok [OF assms] d unfolding members_grow_def by auto
  ultimately show ?thesis using d by blast
qed

section \<open>Registration\<close>

lemma users_good:
  assumes g: "good reg db"
  shows "good reg (db\<lparr>users := us\<rparr>)" "good reg (db\<lparr>verifications := vs\<rparr>)"
proof -
  from goodD(2) [OF g] have m: "memberships_ok db" by (simp add: identity_ok_def)
  show "good reg (db\<lparr>users := us\<rparr>)"
    by (rule members_good [OF g]) (use m in \<open>auto simp: members_grow_def memberships_ok_def\<close>)
  show "good reg (db\<lparr>verifications := vs\<rparr>)"
    by (rule members_good [OF g]) (use m in \<open>auto simp: members_grow_def memberships_ok_def\<close>)
qed

lemma code_open_max: "code_open now app c \<Longrightarrow> rc_max c = Some n \<Longrightarrow> rc_used c < n"
  by (simp add: code_open_def)

lemma codes_good:
  assumes g: "good reg db" and k: "referral_keys_ok (db\<lparr>codes := cs\<rparr>)" and c: "\<And>c. c \<in> set cs \<Longrightarrow> code_ok db c"
    and s: "\<And>c. c \<in> set (codes db) \<Longrightarrow> \<exists>c' \<in> set cs. rc_id c' = rc_id c \<and> rc_app c' = rc_app c"
  shows "good reg (db\<lparr>codes := cs\<rparr>)"
proof -
  let ?db = "db\<lparr>codes := cs\<rparr>"
  have "billing_ok ?db = billing_ok db" by (rule billing_ok_frame) (simp_all add: same_identity_def)
  moreover have "identity_ok ?db = identity_ok db" by (rule same_identity_ok) (simp add: same_identity_def)
  moreover have "rel_local_ok ?db = rel_local_ok db" by (rule local_ok_accounts) simp
  moreover have "code_ok ?db = code_ok db" by (rule code_ok_members) simp
  moreover have "rel_scope_ok ?db x" if "rel_scope_ok db x" for x
    using that s unfolding rel_scope_ok_def has_member_def list_ex_iff by (simp, metis)
  moreover have "rel_paid_ok ?db = rel_paid_ok db" "review_ok ?db = review_ok db" "reward_row_ok ?db = reward_row_ok db"
    by (simp_all add: fun_eq_iff rel_paid_ok_def review_ok_def reward_row_ok_def account_in_def)
  ultimately show ?thesis using g k c
    by (simp add: good_def referral_ok_def account_ids_ok_def list_all_iff)
qed

lemma use_code_good:
  assumes g: "good reg db" and p: "\<And>x. p x \<Longrightarrow> code_open now app x"
  shows "good reg (db\<lparr>codes := update_where p (\<lambda>x. x\<lparr>rc_used := rc_used x + 1\<rparr>) (codes db)\<rparr>)"
proof (rule codes_good [OF g])
  let ?f = "\<lambda>x. x\<lparr>rc_used := rc_used x + 1\<rparr> :: referral_code"
  show "referral_keys_ok (db\<lparr>codes := update_where p ?f (codes db)\<rparr>)"
    using goodD(6) [OF g] by (simp add: referral_keys_ok_def unique_on_update)
  show "code_ok db c" if "c \<in> set (update_where p ?f (codes db))" for c
  proof -
    from that obtain x where x: "x \<in> set (codes db)" "c = (if p x then ?f x else x)"
      by (auto simp: set_update_where)
    with goodD(4) [OF g] have "code_ok db x" by (simp add: referral_ok_def list_all_iff)
    with x(2) p [of x] code_open_max [of now app x] show ?thesis
      by (auto simp: code_ok_def opt_all_iff)
  qed
  show "\<exists>c' \<in> set (update_where p ?f (codes db)). rc_id c' = rc_id c \<and> rc_app c' = rc_app c" if "c \<in> set (codes db)" for c
    using that by (intro bexI [of _ "if p c then ?f c else c"]) (auto simp: set_update_where)
qed

lemma insert_relationship_good:
  assumes g: "good reg db" and i: "insert_relationship r db = Inr db'" and sc: "rel_scope_ok db r" and l: "rel_local_ok db r"
    and n: "rr_reward r = None"
  shows "good reg db' \<and> quiet db db' \<and> same_identity db db' \<and> codes db' = codes db"
proof -
  from i have k: "rr_id r \<notin> rr_id ` set (relationships db)"
    "(rr_invitee r, rr_app r) \<notin> (\<lambda>x. (rr_invitee x, rr_app x)) ` set (relationships db)"
    and d: "db' = db\<lparr>relationships := relationships db @ [r]\<rparr>"
    by (simp_all add: insert_relationship_def split: if_splits)
  let ?db = "db\<lparr>relationships := relationships db @ [r]\<rparr>"
  have "billing_ok ?db = billing_ok db" by (rule billing_ok_frame) (simp_all add: same_identity_def)
  moreover have "identity_ok ?db = identity_ok db" by (rule same_identity_ok) (simp add: same_identity_def)
  moreover have "rel_local_ok ?db = rel_local_ok db" by (rule local_ok_accounts) simp
  moreover have "code_ok ?db = code_ok db" by (rule code_ok_members) simp
  moreover have "rel_scope_ok ?db = rel_scope_ok db" "rel_paid_ok ?db = rel_paid_ok db"
    by (simp_all add: fun_eq_iff rel_scope_ok_def rel_paid_ok_def has_member_def)
  moreover have "review_ok ?db v" if "review_ok db v" for v using that by (auto simp: review_ok_def account_in_def)
  moreover have "reward_row_ok ?db x" if "reward_row_ok db x" for x using that by (auto simp: reward_row_ok_def)
  moreover have "referral_keys_ok ?db"
    using goodD(6) [OF g] k by (auto simp: referral_keys_ok_def unique_on_snoc image_iff)
  ultimately have "good reg ?db"
    using g sc l n by (simp add: good_def referral_ok_def account_ids_ok_def list_all_iff rel_paid_ok_def)
  then show ?thesis unfolding d
    by (simp add: same_identity_def quiet_def fun_eq_iff wallet_balance_def active_wallet_def)
qed

lemma mark_soft_review_good:
  assumes g: "good reg db"
  shows "good reg (mark_referral_soft_review_if_needed now rid inviter app db) \<and>
     quiet db (mark_referral_soft_review_if_needed now rid inviter app db) \<and>
     same_identity db (mark_referral_soft_review_if_needed now rid inviter app db) \<and>
     codes (mark_referral_soft_review_if_needed now rid inviter app db) = codes db"
proof (cases "mark_referral_soft_review_if_needed now rid inviter app db = db")
  case True
  with g show ?thesis by simp
next
  case False
  then obtain row kvs where row: "get_rel rid app db = Some row"
    and d: "mark_referral_soft_review_if_needed now rid inviter app db =
      set_rels (\<lambda>r. rr_id r = rid \<and> rr_app r = app)
        (\<lambda>r. r\<lparr>rr_meta := Some (dict_update (load_referral_metadata row)
           [(''soft_review_required'', JBool True),
            (''soft_review_reason'', JStr ''inviter_recent_registration_limit''),
            (''soft_review_window_days'', JInt REFERRAL_SOFT_REVIEW_WINDOW_DAYS),
            (''soft_review_registration_limit'', JInt (int REFERRAL_SOFT_REVIEW_REGISTRATION_LIMIT)),
            (''inviter_recent_registration_count'', JInt kvs)]), rr_updated := now\<rparr>) db"
    by (auto simp: mark_referral_soft_review_if_needed_def Let_def split: option.splits if_splits)
  note r = get_rel_Some [OF row]
  show ?thesis unfolding d
  proof (intro conjI set_rels_good [OF g])
    fix x assume x: "x \<in> set (relationships db)" "rr_id x = rid \<and> rr_app x = app"
    with rel_unique [OF goodD(6) [OF g] _ x(1), of row] r have "x = row" by simp
    with good_local [OF g x(1)]
    show "rel_local_ok db (x\<lparr>rr_meta := Some (dict_update (load_referral_metadata row)
           [(''soft_review_required'', JBool True),
            (''soft_review_reason'', JStr ''inviter_recent_registration_limit''),
            (''soft_review_window_days'', JInt REFERRAL_SOFT_REVIEW_WINDOW_DAYS),
            (''soft_review_registration_limit'', JInt (int REFERRAL_SOFT_REVIEW_REGISTRATION_LIMIT)),
            (''inviter_recent_registration_count'', JInt kvs)]), rr_updated := now\<rparr>)"
      by (auto simp: rel_local_ok_def load_referral_metadata_def load_json_def)
  qed (simp_all add: same_rel_def)
qed

lemma get_usable_Some:
  assumes "get_usable_referral_code now code app db = Some c"
  shows "c \<in> set (codes db)" "rc_code c = code" "code_open now app c"
    "rc_user c = Some u \<Longrightarrow> has_member db u (rc_app c)"
proof -
  from assms have c: "c \<in> set (codes db) \<and> rc_code c = code \<and> code_open now app c \<and>
       (case rc_user c of None \<Rightarrow> True | Some u \<Rightarrow>
          list_ex (\<lambda>m. m_user m = u \<and> m_app m = rc_app c \<and> m_status m = MActive) (memberships db))"
    using find_row_Some [OF assms [unfolded get_usable_referral_code_def]] by simp
  then show "c \<in> set (codes db)" "rc_code c = code" "code_open now app c" by simp_all
  show "has_member db u (rc_app c)" if "rc_user c = Some u"
    using c that by (auto simp: has_member_def list_ex_iff)
qed

lemma use_invite_code_good:
  assumes g: "good reg db" and u: "has_member db u app"
    and e: "use_invite_code now uuid u phone code app db = Inr (rel, db')"
  shows "good reg db' \<and> quiet db db' \<and> same_identity db db'"
proof -
  define rid where "rid = new_id ''refrel'' uuid"
  from e obtain c where c: "get_usable_referral_code now code app db = Some c"
    by (auto simp: use_invite_code_def Let_def split: option.splits)
  note C = get_usable_Some [OF c]
  then have app: "rc_app c = app" by (simp add: code_open_def)
  define new where "new = (\<lambda>inviter. \<lparr>rr_id = rid, rr_inviter = inviter, rr_invitee = u, rr_code = rc_id c, rr_app = app,
                  rr_status = Registered, rr_count = 0, rr_review = RPending, rr_reward = None,
                  rr_meta = Some [(''invite_code'', JStr code), (''registration_phone_last4'', JStr (last4 phone))],
                  rr_created = now, rr_updated = now, rr_rewarded = None\<rparr>)"
  define p where "p = (\<lambda>x. rc_id x = rc_id c \<and> code_open now app x)"
  from e c obtain db2 where s: "(case nonempty (rc_user c) of
             None \<Rightarrow> Inr db
           | Some inviter \<Rightarrow>
               if inviter = u then Inl (ValueError ''cannot_self_invite'')
               else and_then (insert_relationship (new inviter) db)
                 (\<lambda>db1. Inr (mark_referral_soft_review_if_needed now rid inviter app db1))) = Inr db2"
    and d: "db' = db2\<lparr>codes := update_where p (\<lambda>x. x\<lparr>rc_used := rc_used x + 1\<rparr>) (codes db2)\<rparr>"
    unfolding new_def rid_def p_def
    by (auto simp: use_invite_code_def Let_def and_then_Inr split: if_splits)
  have "good reg db2 \<and> quiet db db2 \<and> same_identity db db2"
  proof (cases "nonempty (rc_user c)")
    case None
    with s g show ?thesis by simp
  next
    case (Some inviter)
    with s obtain db1 where ne: "inviter \<noteq> u" and i: "insert_relationship (new inviter) db = Inr db1"
      and d2: "db2 = mark_referral_soft_review_if_needed now rid inviter app db1"
      by (auto simp: and_then_Inr split: if_splits)
    from Some have iu: "rc_user c = Some inviter" by (auto simp: nonempty_def split: option.splits if_splits)
    have "code_ok db c" using goodD(4) [OF g] C(1) by (simp add: referral_ok_def list_all_iff)
    then have "app \<noteq> []" using app by (simp add: code_ok_def)
    moreover have "list_ex (\<lambda>x. rc_id x = rc_id c \<and> rc_app x = app) (codes db)"
      using C(1) app by (auto simp: list_ex_iff)
    moreover have "clean_text (Some rid) = Some rid"
      unfolding rid_def by (rule new_id_clean) (simp_all add: py_space_def)
    ultimately have sc: "rel_scope_ok db (new inviter)"
      using ne u C(4) [OF iu] app by (simp add: rel_scope_ok_def new_def)
    have lc: "rel_local_ok db (new inviter)"
      by (simp add: rel_local_ok_def new_def load_referral_metadata_def load_json_def candidates_def text_of_def)
    have I: "good reg db1 \<and> quiet db db1 \<and> same_identity db db1 \<and> codes db1 = codes db"
      by (rule insert_relationship_good [OF g i sc lc]) (simp add: new_def)
    with mark_soft_review_good [OF conjunct1 [OF I], of now rid inviter app] show ?thesis
      unfolding d2 by (blast intro: quiet_trans same_identity_trans)
  qed
  moreover from this have "good reg db'" unfolding d by (intro use_code_good) (auto simp: p_def)
  ultimately show ?thesis unfolding d
    by (simp add: same_identity_def quiet_def fun_eq_iff wallet_balance_def active_wallet_def)
qed

lemma token_frame:
  assumes "(case token of None \<Rightarrow> Inr db | Some t \<Rightarrow> consume_verified_token now t ph db) = Inr db1"
  shows "\<exists>vs. db1 = db\<lparr>verifications := vs\<rparr>"
proof (cases token)
  case None
  with assms have "db1 = db\<lparr>verifications := verifications db\<rparr>" by simp
  then show ?thesis ..
next
  case (Some t)
  with assms show ?thesis by (auto simp: consume_verified_token_def Let_def split: if_splits)
qed

lemma register_good:
  assumes g: "good reg db" and e: "register_platform_user_with_referral reg now uu ru phone name code token app_id db = Inr (r, db')"
  shows "good reg db' \<and> quiet db db' \<and> accounts db' = accounts db"
proof -
  from e obtain ph app where ph: "normalize_phone phone = Inr ph" and app: "registered_app_id reg app_id = Inr app"
    by (auto simp: register_platform_user_with_referral_def and_then_Inr)
  with e obtain db1 new db2 identity where
    1: "(case token of None \<Rightarrow> Inr db | Some t \<Rightarrow> consume_verified_token now t ph db) = Inr db1"
    and 2: "insert_user \<lparr>u_id = new_id ''user'' uu, u_phone = ph, u_name = clean_text name, u_avatar = None,
              u_status = ''active''\<rparr> db1 = Inr (new, db2)"
    and idn: "find_row (\<lambda>x. u_phone x = ph) (users db2) = Some identity"
    by (fastforce simp: register_platform_user_with_referral_def and_then_Inr split: option.splits)
  define u where "u = u_id identity"
  define db3 where "db3 = (if new then db2 else db2\<lparr>users := update_where (\<lambda>x. u_id x = u)
                       (\<lambda>x. x\<lparr>u_name := (case clean_text name of None \<Rightarrow> u_name x | Some n \<Rightarrow> Some n)\<rparr>) (users db2)\<rparr>)"
  from e ph app 1 2 idn obtain m isnew db4 rel db5 where
    3: "ensure_product_membership reg now u app db3 = Inr ((m, isnew), db4)"
    and 4: "(case nonempty (normalize_referral_code code) of
                       Some k \<Rightarrow> if isnew then use_invite_code now ru u ph k app db4 else Inr (None, db4)
                     | None \<Rightarrow> Inr (None, db4)) = Inr (rel, db5)"
    and 5: "db' = db5"
    unfolding register_platform_user_with_referral_def
    by (auto simp: and_then_Inr Let_def db3_def [symmetric] u_def [symmetric] split: if_split_asm)
  from token_frame [OF 1] obtain vs where d1: "db1 = db\<lparr>verifications := vs\<rparr>" by blast
  then have g1: "good reg db1" using users_good(2) [OF g] by simp
  obtain us where d2: "db2 = db1\<lparr>users := us\<rparr>"
  proof (cases new)
    case True
    with 2 that show thesis by (auto simp: insert_user_def split: if_splits)
  next
    case False
    with 2 that [of "users db1"] show thesis by (auto simp: insert_user_def split: if_splits)
  qed
  then have g2: "good reg db2" using users_good(1) [OF g1] by simp
  obtain us' where d3: "db3 = db2\<lparr>users := us'\<rparr>"
    using that [of "users db2"] that by (cases new) (auto simp: db3_def)
  then have g3: "good reg db3" using users_good(1) [OF g2] by simp
  have mo: "memberships_ok db3" using goodD(2) [OF g3] by (simp add: identity_ok_def)
  from ensure_membership_grow [OF mo 3] obtain ms where gr: "members_grow db3 db4"
    and d4: "db4 = db3\<lparr>memberships := ms\<rparr>" and hm: "has_member db4 u (py_strip app)" by blast
  have g4: "good reg db4" by (rule members_good [OF g3 gr]) (simp_all add: d4)
  have q: "quiet db db4" "accounts db4 = accounts db"
    by (simp_all add: d4 d3 d2 d1 quiet_def fun_eq_iff wallet_balance_def active_wallet_def)
  from registered_app_id_Inr [OF app] obtain p where p: "require_enabled reg app_id = Inr p" "app = p_app p" by blast
  with goodD(1) [OF g] have "py_strip app = app"
    using registered_app_strip by (auto simp: require_enabled_Inr dest!: find_row_Some)
  with hm have hm': "has_member db4 u app" by simp
  have "good reg db5 \<and> quiet db4 db5 \<and> same_identity db4 db5"
  proof (cases "db5 = db4")
    case True
    with g4 show ?thesis by simp
  next
    case False
    with 4 obtain k where "use_invite_code now ru u ph k app db4 = Inr (rel, db5)"
      by (auto split: option.splits if_splits)
    from use_invite_code_good [OF g4 hm' this] show ?thesis .
  qed
  with q 5 show ?thesis by (auto simp: same_identity_def intro: quiet_trans)
qed

section \<open>Personal codes\<close>

lemma insert_code_good:
  assumes g: "good reg db" and i: "insert_code c db = Inr db'" and c: "code_ok db c"
  shows "good reg db' \<and> quiet db db' \<and> same_identity db db'"
proof -
  from i have k: "rc_id c \<notin> rc_id ` set (codes db)" "rc_code c \<notin> rc_code ` set (codes db)"
    "\<And>u. rc_user c = Some u \<Longrightarrow> rc_type c = ''personal'' \<Longrightarrow> \<not> list_ex (personal u (rc_app c)) (codes db)"
    and d: "db' = db\<lparr>codes := codes db @ [c]\<rparr>"
    by (auto simp: insert_code_def split: if_splits)
  have "good reg db'" unfolding d
  proof (rule codes_good [OF g])
    show "referral_keys_ok (db\<lparr>codes := codes db @ [c]\<rparr>)"
      using goodD(6) [OF g] k
      by (fastforce simp: referral_keys_ok_def unique_on_snoc image_iff list_ex_iff personal_def)
    show "code_ok db x" if "x \<in> set (codes db @ [c])" for x
      using that c goodD(4) [OF g] by (auto simp: referral_ok_def list_all_iff)
  qed auto
  then show ?thesis unfolding d
    by (simp add: same_identity_def quiet_def fun_eq_iff wallet_balance_def active_wallet_def)
qed

lemma insert_code_attempts_good:
  assumes g: "good reg db" and "\<And>a. code_ok db (mk a)" and "insert_code_attempts mk as db = Inr db'"
  shows "good reg db' \<and> quiet db db' \<and> same_identity db db'"
  using assms(3)
proof (induction as)
  case Nil
  then show ?case by simp
next
  case (Cons a as)
  show ?case
  proof (cases "insert_code (mk a) db")
    case (Inr x)
    with Cons.prems have "insert_code (mk a) db = Inr db'" by simp
    from insert_code_good [OF g this assms(2)] show ?thesis .
  next
    case (Inl x)
    then obtain k where x: "x = IntegrityError k" by (auto simp: insert_code_def split: if_splits)
    with Cons.prems Inl Cons.IH g show ?thesis
      by (cases "get_personal_code (the (rc_user (mk a))) (rc_app (mk a)) db") simp_all
  qed
qed

lemma personal_code_good:
  assumes g: "good reg db" and e: "get_or_create_personal_referral_code_for_user reg now gen u app_id db = Inr (c, db')"
  shows "good reg db' \<and> quiet db db' \<and> same_identity db db'"
proof -
  from e obtain app m where app: "registered_app_id reg app_id = Inr app"
    and m: "require_active_product_membership reg db u app = Inr m"
    by (auto simp: get_or_create_personal_referral_code_for_user_def and_then_Inr split: if_splits)
  define mk where "mk = (\<lambda>(i, j). \<lparr>rc_id = new_id ''refcode'' i, rc_user = Some u, rc_app = app,
     rc_code = new_referral_code j, rc_type = ''personal'', rc_status = ''active'', rc_max = None, rc_used = 0,
     rc_expires = None, rc_meta = Some [], rc_created = now\<rparr>)"
  from registered_app_id_Inr [OF app] obtain p where p: "require_enabled reg app_id = Inr p" "app = p_app p" by blast
  with goodD(1) [OF g] have st: "py_strip app = app"
    using registered_app_strip by (auto simp: require_enabled_Inr dest!: find_row_Some)
  have "app \<noteq> []" using registered_app_ne [OF goodD(1) [OF g] p(1)] p(2) by simp
  moreover have "has_member db u app"
    using require_active_Inr [OF m] st by (auto simp: has_member_def list_ex_iff)
  ultimately have mk: "code_ok db (mk a)" for a by (cases a) (simp add: mk_def code_ok_def)
  from e app m have "db' = db \<or> insert_code_attempts mk (map gen [0..<REFERRAL_CODE_GENERATION_RETRIES]) db = Inr db'"
    unfolding mk_def
    by (auto simp: get_or_create_personal_referral_code_for_user_def and_then_Inr split: if_splits option.splits)
  with g insert_code_attempts_good [OF g mk] show ?thesis by auto
qed

end
