(* ===== verification/Referral_Properties.thy ===== *)
theory Referral_Properties
imports Referral_Ops Samples
begin

text \<open>
  What the invitations guarantee in every history of registrations, bindings, messages, retries,
  releases, membership changes and billing transactions, and two places where the code departs from
  what it means to do. A sample history (an invitee registers with a code and sends three messages)
  is the witness.
\<close>

section \<open>Histories\<close>

text \<open>
  A ledger row of another component: the reward's source type and key prefix are its own, and row
  ids are not empty (\<open>_new_id\<close>).
\<close>

definition foreign_row :: "ledger_row \<Rightarrow> bool" where
  "foreign_row l = (\<not> is_reward l \<and> \<not> starts_with ''referral-reward-'' (l_key l) \<and> l_id l \<noteq> [])"

inductive referral_step :: "registry \<Rightarrow> 'a referral_db_scheme \<Rightarrow> 'a referral_db_scheme \<Rightarrow> bool" for reg where
  Register: "register_platform_user_with_referral reg now uu ru phone name code token app db = Inr (r, db') \<Longrightarrow>
    referral_step reg db db'"
| PersonalCode: "get_or_create_personal_referral_code_for_user reg now gen u app db = Inr (c, db') \<Longrightarrow>
    referral_step reg db db'"
| Binding: "mark_referral_relationship_bound now invitee acc db = (o1, db') \<Longrightarrow> referral_step reg db db'"
| Message: "process_referral_message_for_account reg now fresh acc mid db = Inr (res, db') \<Longrightarrow>
    referral_step reg db db'"
| Retry: "retry_qualified_referral_rewards_for_user reg now fresh u app db = Inr (vs, db') \<Longrightarrow>
    referral_step reg db db'"
| ReleaseUser: "release_due_referral_rewards_for_user reg now fresh u app limit db = Inr (vs, db') \<Longrightarrow>
    referral_step reg db db'"
| Release: "release_due_referral_rewards reg now fresh limit app db = Inr (vs, db') \<Longrightarrow>
    referral_step reg db db'"
| Membership: "update_product_membership_status reg u app st db = Inr (m, db') \<Longrightarrow> referral_step reg db db'"
| Billing: "billing_step reg db db' \<Longrightarrow> list_all foreign_row (drop (length (ledger db)) (ledger db')) \<Longrightarrow>
    referral_step reg db db'"

inductive_cases referral_stepE: "referral_step reg db db'"

lemma billing_good:
  assumes g: "good reg db" and b: "billing_step reg db db'"
    and f: "list_all foreign_row (drop (length (ledger db)) (ledger db'))"
  shows "good reg db'"
proof -
  from billing_step_ok [OF b goodD(1-3) [OF g]] have ok: "billing_ok db'" "identity_ok db'" and a: "append_only db db'"
    by simp_all
  from a obtain ls where l: "ledger db' = ledger db @ ls" by (auto simp: append_only_def)
  with f have f: "list_all foreign_row ls" by simp
  from a have m: "wallet_db.more db' = wallet_db.more db" by (simp add: append_only_def)
  note same = referral_more [OF m]
  have sm: "accounts db' = accounts db" "memberships db' = memberships db"
    using append_only_identity [OF a] by (simp_all add: same_identity_def)
  have "rel_local_ok db' = rel_local_ok db" by (rule local_ok_accounts [OF sm(1)])
  moreover have "code_ok db' = code_ok db" by (rule code_ok_members [OF sm(2)])
  moreover have "rel_scope_ok db' = rel_scope_ok db" "review_ok db' = review_ok db"
    by (simp_all add: fun_eq_iff rel_scope_ok_def review_ok_def has_member_def account_in_def same sm)
  moreover have "rel_paid_ok db' x" if "rel_paid_ok db x" for x using that by (auto simp: rel_paid_ok_def l)
  moreover have "reward_row_ok db' x" if "x \<in> set (ledger db')" for x
    using that f goodD(4) [OF g] by (auto simp: l referral_ok_def list_all_iff reward_row_ok_def foreign_row_def same)
  ultimately have "referral_ok db'"
    using goodD(4) [OF g] by (simp add: referral_ok_def referral_keys_ok_def account_ids_ok_def list_all_iff same sm)
  with ok g show ?thesis by (simp add: good_def)
qed

lemma membership_good:
  assumes g: "good reg db" and e: "update_product_membership_status reg u app st db = Inr (m, db')"
  shows "good reg db'"
proof -
  from goodD(2) [OF g] have "memberships_ok db" by (simp add: identity_ok_def)
  from update_membership_grow [OF this e] obtain ms where gr: "members_grow db db'"
    and d: "db' = db\<lparr>memberships := ms\<rparr>" by blast
  show ?thesis by (rule members_good [OF g gr]) (simp_all add: d)
qed

lemma referral_step_good: "referral_step reg db db' \<Longrightarrow> good reg db \<Longrightarrow> good reg db'"
  by (erule referral_stepE)
    (blast dest: register_good personal_code_good mark_bound_good(1) process_message_outcome
       retry_qualified_good release_due_good membership_good billing_good)+

lemma referral_run_good: "(referral_step reg)\<^sup>*\<^sup>* db db' \<Longrightarrow> good reg db \<Longrightarrow> good reg db'"
  by (induction rule: rtranclp_induct) (auto intro: referral_step_good)

section \<open>A sample history\<close>

definition sample_invitee :: string where "sample_invitee = new_id ''user'' 2"

definition sample_code :: referral_code where
  "sample_code = \<lparr>rc_id = ''refcode_1'', rc_user = Some ''user_1'', rc_app = ''zhaoxi'', rc_code = ''AB12CD34'',
     rc_type = ''personal'', rc_status = ''active'', rc_max = Some 2, rc_used = 0, rc_expires = None,
     rc_meta = Some [], rc_created = 0\<rparr>"

definition sample_message :: "int \<Rightarrow> message_row" where
  "sample_message i = \<lparr>mg_id = i, mg_account = ''acc_5'', mg_direction = ''inbound'', mg_role = ''user'',
     mg_type = ''text'', mg_content = Some [20170, 22825, 22825, 27668]\<rparr>"

definition referral_db0 :: referral_db where
  "referral_db0 = \<lparr>users = [sample_user], memberships = [sample_membership ''zhaoxi'', sample_membership ''plum''],
     accounts = [sample_account ''acc_1'' ''zhaoxi'', sample_account ''acc_2'' ''plum'', sample_account ''acc_5'' ''zhaoxi''],
     bindings = [sample_binding 1 ''acc_1'' ''zhaoxi'', sample_binding 2 ''acc_2'' ''plum'',
       (sample_binding 5 ''acc_5'' ''zhaoxi'')\<lparr>b_user := sample_invitee\<rparr>],
     ownerships = [], universes = [], residents = [],
     subscriptions = [], wallets = [], ledger = [], costs = [],
     verifications = [], messages = map sample_message [1, 2, 3], codes = [sample_code],
     relationships = [], reviews = []\<rparr>"

definition sample_fresh :: fresh where "sample_fresh rid = (1, 2, 3)"

definition sample_register :: "referral_db \<Rightarrow> (registration \<times> referral_db) res" where
  "sample_register db = register_platform_user_with_referral production_products 100 2 7 ''138 0000 0002'' (Some ''Li'')
     (Some '' ab12cd34 '') None ''zhaoxi'' db"

definition sample_send :: "int \<Rightarrow> referral_db \<Rightarrow> (referral_result option \<times> referral_db) res" where
  "sample_send mid db = process_referral_message_for_account production_products (100 + mid) sample_fresh ''acc_5'' mid db"

definition after :: "('r \<times> referral_db) res \<Rightarrow> referral_db" where
  "after r = (case r of Inl _ \<Rightarrow> referral_db0 | Inr (_, db) \<Rightarrow> db)"

definition referral_db1 :: referral_db where "referral_db1 = after (sample_register referral_db0)"
definition referral_db2 :: referral_db where "referral_db2 = after (sample_send 2 (after (sample_send 1 referral_db1)))"
definition referral_db3 :: referral_db where "referral_db3 = after (sample_send 3 referral_db2)"

lemma good_db0: "good production_products referral_db0"
  unfolding good_def using production_products_ok by (intro conjI) (assumption | code_simp)+

definition is_ok :: "'a res \<Rightarrow> bool" where "is_ok r = (case r of Inl _ \<Rightarrow> False | Inr _ \<Rightarrow> True)"

lemma is_ok_after: "is_ok r \<Longrightarrow> \<exists>x. r = Inr (x, after r)"
  by (auto simp: is_ok_def after_def split: sum.splits prod.splits)

lemma sample_run1: "(referral_step production_products)\<^sup>*\<^sup>* referral_db0 referral_db1"
proof -
  have "is_ok (sample_register referral_db0)" by code_simp
  from is_ok_after [OF this] have "referral_step production_products referral_db0 referral_db1"
    unfolding referral_db1_def sample_register_def using referral_step.Register by blast
  then show ?thesis by blast
qed

lemma sample_send_step: "is_ok (sample_send mid db) \<Longrightarrow> referral_step production_products db (after (sample_send mid db))"
  using is_ok_after [of "sample_send mid db"] referral_step.Message unfolding sample_send_def by blast

lemma sample_run2: "(referral_step production_products)\<^sup>*\<^sup>* referral_db0 referral_db2"
proof -
  have 1: "is_ok (sample_send 1 referral_db1)" by code_simp
  have 2: "is_ok (sample_send 2 (after (sample_send 1 referral_db1)))" by code_simp
  from sample_run1 sample_send_step [OF 1] sample_send_step [OF 2] show ?thesis
    unfolding referral_db2_def by (meson rtranclp.rtrancl_into_rtrancl)
qed

lemma sample_run3: "(referral_step production_products)\<^sup>*\<^sup>* referral_db0 referral_db3"
proof -
  have 1: "is_ok (sample_send 3 referral_db2)" by code_simp
  from sample_run2 sample_send_step [OF 1] show ?thesis
    unfolding referral_db3_def by (meson rtranclp.rtrancl_into_rtrancl)
qed

lemma sample_paid: "length (relationships referral_db3) = 1" "rr_status (hd (relationships referral_db3)) = Rewarded"
  by code_simp+

section \<open>Every history\<close>

text \<open>C24: in every state that any history of invitations and billing reaches, the migration's
  checks of the invitation tables and of the billing tables all count zero violations: no row
  without product, one personal code and one relationship per user and product, nobody invites
  himself, codes, members, reviews and reward rows exist and agree on the product.\<close>

theorem referral_contract_reachable:
  assumes "(referral_step reg)\<^sup>*\<^sup>* db db'" and "good reg db"
  shows "list_all (\<lambda>(check, n). n = 0) (referral_contract_violation_counts db' @
           billing_contract_violation_counts db' @ billing_idempotency_contract_violation_counts db')"
proof -
  note g = referral_run_good [OF assms]
  from good_counts [OF g] billing_ok_counts [OF goodD(2,3) [OF g]] show ?thesis by (auto simp: list_all_iff)
qed

theorem referral_contract_reachable_witness:
  "list_all (\<lambda>(check, n). n = 0) (referral_contract_violation_counts referral_db3 @
     billing_contract_violation_counts referral_db3 @ billing_idempotency_contract_violation_counts referral_db3)"
  by (rule referral_contract_reachable [OF sample_run3 good_db0])

lemma reward_count:
  assumes g: "good reg db" and r: "r \<in> set (relationships db)"
  shows "count_where (\<lambda>l. is_reward l \<and> l_source l = Some (rr_id r)) (ledger db) = (if rr_status r = Rewarded then 1 else 0)"
proof -
  have own: "rr_reward r = Some (l_id l)" if "l \<in> set (ledger db)" "is_reward l \<and> l_source l = Some (rr_id r)" for l
  proof -
    from goodD(4) [OF g] that obtain x where x: "x \<in> set (relationships db)" "pays x l"
      by (auto simp: referral_ok_def list_all_iff reward_row_ok_def list_ex_iff)
    with that(2) rel_unique [OF goodD(6) [OF g] r x(1)] have "x = r" by (simp add: pays_def)
    with x show ?thesis by (simp add: pays_def)
  qed
  have st: "(rr_status r = Rewarded) = (rr_reward r \<noteq> None)"
    using good_local [OF g r] by (simp add: rel_local_ok_def)
  show ?thesis
  proof (cases "rr_reward r")
    case None
    with own st show ?thesis by (auto simp: count_where_0)
  next
    case (Some i)
    with goodD(4) [OF g] r obtain l where l: "l \<in> set (ledger db)" "pays r l"
      by (auto simp: referral_ok_def list_all_iff rel_paid_ok_def list_ex_iff)
    have u: "unique_on (\<lambda>_. True) l_id (ledger db)" using goodD(5) [OF g] by (simp add: wallet_keys_ok_def)
    have "(is_reward x \<and> l_source x = Some (rr_id r)) = (l_id x = l_id l)" if x: "x \<in> set (ledger db)" for x
    proof
      assume "is_reward x \<and> l_source x = Some (rr_id r)"
      from own [OF x this] l(2) show "l_id x = l_id l" by (simp add: pays_def)
    next
      assume "l_id x = l_id l"
      with unique_onD [OF u x l(1)] have "x = l" by simp
      with l(2) show "is_reward x \<and> l_source x = Some (rr_id r)" by (simp add: pays_def)
    qed
    then have "count_where (\<lambda>l. is_reward l \<and> l_source l = Some (rr_id r)) (ledger db) =
        count_where (\<lambda>x. l_id x = l_id l) (ledger db)"
      by (simp add: count_where_def cong: filter_cong)
    also have "\<dots> = 1"
      using count_where_key [of l_id "ledger db" l "\<lambda>x. l_id x = l_id l"] l(1) goodD(5) [OF g]
      by (simp add: wallet_keys_ok_def)
    finally show ?thesis using st Some by simp
  qed
qed

text \<open>C25: a relationship is paid exactly once. In every reachable state the ledger holds one reward
  row for each relationship in state \<open>rewarded\<close> and none for any other, however often its messages,
  retries and releases were processed.\<close>

theorem reward_paid_once:
  assumes "(referral_step reg)\<^sup>*\<^sup>* db db'" and "good reg db" and "r \<in> set (relationships db')"
  shows "count_where (\<lambda>l. is_reward l \<and> l_source l = Some (rr_id r)) (ledger db') =
    (if rr_status r = Rewarded then 1 else 0)"
  by (rule reward_count [OF referral_run_good [OF assms(1,2)] assms(3)])

theorem reward_paid_once_witness:
  "relationships referral_db3 \<noteq> [] \<and> count_where (\<lambda>l. is_reward l \<and>
     l_source l = Some (rr_id (hd (relationships referral_db3)))) (ledger referral_db3) = 1"
proof -
  have "relationships referral_db3 \<noteq> []" using sample_paid(1) by auto
  with reward_paid_once [OF sample_run3 good_db0 hd_in_set [OF this]] sample_paid(2) show ?thesis by simp
qed

text \<open>A reward is earned. In every reachable state a rewarded relationship has at least three
  different meaningful messages among its candidates, and its counter is their number.\<close>

theorem reward_needs_three_messages:
  assumes "(referral_step reg)\<^sup>*\<^sup>* db db'" and "good reg db" and "r \<in> set (relationships db')"
    and "rr_status r = Rewarded"
  shows "3 \<le> length (remdups (candidates (load_referral_metadata r))) \<and>
    rr_count r = int (length (candidates (load_referral_metadata r)))"
  using good_local [OF referral_run_good [OF assms(1,2)] assms(3)] assms(4)
  by (simp_all add: rel_local_ok_def REFERRAL_QUALIFYING_MESSAGE_COUNT_def distinct_remdups_id)

theorem reward_needs_three_messages_witness:
  "3 \<le> length (remdups (candidates (load_referral_metadata (hd (relationships referral_db3))))) \<and>
   rr_status (hd (relationships referral_db3)) = Rewarded"
proof -
  have "relationships referral_db3 \<noteq> []" using sample_paid(1) by auto
  from reward_needs_three_messages [OF sample_run3 good_db0 hd_in_set [OF this] sample_paid(2)] sample_paid(2)
  show ?thesis by simp
qed

text \<open>C26: what one message pays. Processing a message either leaves every balance as it is and
  returns no ledger row, or returns the row of one reward and moves one balance, the inviter's in
  the relationship's product, by the reward.\<close>

theorem message_pays_exactly:
  assumes "good reg db" and "process_referral_message_for_account reg now fresh acc mid db = Inr (Some f, db')"
  shows "(case rf_ledger f of
     None \<Rightarrow> wallet_balance db' = wallet_balance db \<and> ledger db' = ledger db
   | Some v \<Rightarrow> ledger db' = ledger db @ [lv_row v] \<and>
       list_ex (\<lambda>r. pays r (lv_row v) \<and> 3 \<le> rr_count r \<and> wallet_balance db' = rewards_to r db) (relationships db'))"
proof -
  from process_message_outcome [OF assms] obtain ol where o: "outcome db ol db'"
    "rf_ledger f = map_option decode_ledger_row ol" by auto
  show ?thesis
  proof (cases ol)
    case None
    with o show ?thesis by (simp add: quiet_def)
  next
    case (Some l)
    with o show ?thesis
      by (auto simp: reward_of_def list_ex_iff decode_ledger_row_def REFERRAL_QUALIFYING_MESSAGE_COUNT_def)
  qed
qed

theorem message_pays_exactly_witness:
  "\<exists>f v. sample_send 3 referral_db2 = Inr (Some f, referral_db3) \<and> rf_ledger f = Some v \<and>
     ledger referral_db3 = ledger referral_db2 @ [lv_row v] \<and>
     wallet_balance referral_db3 (''user_1'', ''zhaoxi'') = 1000000000"
proof -
  have "case sample_send 3 referral_db2 of Inr (Some f, _) \<Rightarrow> rf_ledger f \<noteq> None | _ \<Rightarrow> False" by code_simp
  then obtain f db' v where s: "sample_send 3 referral_db2 = Inr (Some f, db')" and v: "rf_ledger f = Some v"
    by (auto split: sum.splits option.splits)
  then have d: "db' = referral_db3" by (simp add: referral_db3_def after_def)
  have g: "good production_products referral_db2" by (rule referral_run_good [OF sample_run2 good_db0])
  from message_pays_exactly [OF g s [unfolded sample_send_def d]] v
  have "ledger referral_db3 = ledger referral_db2 @ [lv_row v]" by simp
  moreover have "wallet_balance referral_db3 (''user_1'', ''zhaoxi'') = 1000000000" by code_simp
  ultimately show ?thesis using s v d by blast
qed

text \<open>An invite code is never used more often than it allows, in any history.\<close>

theorem code_uses_bounded:
  assumes "(referral_step reg)\<^sup>*\<^sup>* db db'" and "good reg db" and "c \<in> set (codes db')" and "rc_max c = Some n"
  shows "rc_used c \<le> n"
  using goodD(4) [OF referral_run_good [OF assms(1,2)]] assms(3,4)
  by (auto simp: referral_ok_def list_all_iff code_ok_def)

theorem code_uses_bounded_witness:
  "map rc_used (codes referral_db3) = [1] \<and> rc_used (hd (codes referral_db3)) \<le> 2"
proof -
  have "codes referral_db3 \<noteq> [] \<and> rc_max (hd (codes referral_db3)) = Some 2 \<and> map rc_used (codes referral_db3) = [1]"
    by code_simp
  with code_uses_bounded [OF sample_run3 good_db0, of "hd (codes referral_db3)" 2] show ?thesis by auto
qed

section \<open>Registration\<close>

text \<open>An invite code is used for a new membership only. When the phone's user is already a member
  of the product, registering again changes no relationship, no code and no membership, whatever
  code is sent.\<close>

theorem register_member_again:
  assumes "register_platform_user_with_referral reg now uu ru phone name code token app_id db = Inr (r, db')"
    and "normalize_phone phone = Inr ph" and "find_row (\<lambda>x. u_phone x = ph) (users db) = Some user"
    and "registry_ok reg" and "get_product_membership db (u_id user) (py_strip app_id) = Some m"
  shows "relationships db' = relationships db \<and> codes db' = codes db \<and> memberships db' = memberships db \<and>
    \<not> rg_new_membership r \<and> rg_relationship r = None"
proof -
  from assms(1,2) obtain app where app: "registered_app_id reg app_id = Inr app"
    by (auto simp: register_platform_user_with_referral_def and_then_Inr)
  from registered_app_id_Inr [OF app] have appS: "app = py_strip app_id" by blast
  then have app2: "py_strip app = app" by simp
  from assms(1,2) app obtain db1 where
    1: "(case token of None \<Rightarrow> Inr db | Some t \<Rightarrow> consume_verified_token now t ph db) = Inr db1"
    by (auto simp: register_platform_user_with_referral_def and_then_Inr)
  from token_frame [OF 1] obtain vs where d1: "db1 = db\<lparr>verifications := vs\<rparr>" by blast
  have "u_phone user = ph" "user \<in> set (users db)" using find_row_Some [OF assms(3)] by simp_all
  then have i: "insert_user \<lparr>u_id = new_id ''user'' uu, u_phone = ph, u_name = clean_text name, u_avatar = None,
      u_status = ''active''\<rparr> db1 = Inr (False, db1)"
    by (auto simp: insert_user_def d1)
  define db3 where "db3 = db1\<lparr>users := update_where (\<lambda>x. u_id x = u_id user)
     (\<lambda>x. x\<lparr>u_name := (case clean_text name of None \<Rightarrow> u_name x | Some n \<Rightarrow> Some n)\<rparr>) (users db1)\<rparr>"
  have f: "find_row (\<lambda>x. u_phone x = ph) (users db1) = Some user" using assms(3) by (simp add: d1)
  from assms(1,2) app 1 i f obtain m2 isnew db4 rel db5 user' where
    3: "ensure_product_membership reg now (u_id user) app db3 = Inr ((m2, isnew), db4)"
    and 4: "(case nonempty (normalize_referral_code code) of
                       Some k \<Rightarrow> if isnew then use_invite_code now ru (u_id user) ph k app db4 else Inr (None, db4)
                     | None \<Rightarrow> Inr (None, db4)) = Inr (rel, db5)"
    and 5: "db' = db5" "r = \<lparr>rg_user = user', rg_new_user = False, rg_new_membership = isnew, rg_relationship = rel\<rparr>"
    unfolding register_platform_user_with_referral_def
    by (auto simp: and_then_Inr Let_def db3_def [symmetric] split: if_split_asm)
  have "get_product_membership db3 (u_id user) app = Some m"
    using assms(5) by (simp add: db3_def d1 appS get_product_membership_def)
  then have "\<not> isnew" "db4 = db3"
    using 3 app2 by (auto simp: ensure_product_membership_def and_then_Inr Let_def
        dest!: require_enabled_app split: option.splits)
  with 4 have "rel = None" "db5 = db3" by (auto split: option.splits)
  with 5 \<open>\<not> isnew\<close> show ?thesis by (simp add: db3_def d1)
qed

theorem register_member_again_witness:
  "\<exists>r db'. sample_register referral_db3 = Inr (r, db') \<and> relationships db' = relationships referral_db3 \<and>
     codes db' = codes referral_db3"
proof -
  have "is_ok (sample_register referral_db3)" by code_simp
  from is_ok_after [OF this] obtain r where r: "sample_register referral_db3 = Inr (r, after (sample_register referral_db3))"
    by blast
  have ph: "normalize_phone ''138 0000 0002'' = Inr ''13800000002''" by code_simp
  have "find_row (\<lambda>x. u_phone x = ''13800000002'') (users referral_db3) \<noteq> None \<and>
    get_product_membership referral_db3 (u_id (the (find_row (\<lambda>x. u_phone x = ''13800000002'') (users referral_db3))))
      (py_strip ''zhaoxi'') \<noteq> None"
    by code_simp
  then obtain user m where "find_row (\<lambda>x. u_phone x = ''13800000002'') (users referral_db3) = Some user"
    "get_product_membership referral_db3 (u_id user) (py_strip ''zhaoxi'') = Some m" by auto
  from register_member_again [OF r [unfolded sample_register_def] ph this(1) production_products_ok this(2)] r
  show ?thesis unfolding sample_register_def by blast
qed

section \<open>Two departures\<close>

text \<open>The word list means to exclude the placeholder of a voice message without transcript, but
  the list holds it with its space and the test removes the spaces first: of all its entries the
  placeholder alone is counted as a meaningful message.\<close>

theorem voice_placeholder_counts:
  "filter (\<lambda>s. is_meaningful_referral_message (Some s) ''voice'') small_talk = [u_text ''[voice message]'']"
  by code_simp

text \<open>
  A batch of two due rewards. The second inviter's account still has the wallet of its former owner
  (\<open>UNIQUE(account_id)\<close>), so his posting raises in PostgreSQL after the first one went through.
\<close>

definition due_rel :: "string \<Rightarrow> string \<Rightarrow> string \<Rightarrow> int \<Rightarrow> relationship" where
  "due_rel i inviter invitee t = \<lparr>rr_id = i, rr_inviter = inviter, rr_invitee = invitee, rr_code = ''refcode_1'',
     rr_app = ''zhaoxi'', rr_status = Qualified, rr_count = 3, rr_review = RPending, rr_reward = None,
     rr_meta = Some [(''soft_review_required'', JBool True), (''candidate_message_ids'', JList [JInt 1, JInt 2, JInt 3]),
       (''reward_release_after'', JInt 50)], rr_created = t, rr_updated = t, rr_rewarded = None\<rparr>"

definition due_db :: referral_db where
  "due_db = referral_db0\<lparr>memberships := [sample_membership ''zhaoxi'', (sample_membership ''zhaoxi'')\<lparr>m_user := ''user_2''\<rparr>],
     accounts := [sample_account ''acc_1'' ''zhaoxi'', sample_account ''acc_3'' ''zhaoxi''],
     bindings := [sample_binding 1 ''acc_1'' ''zhaoxi'', (sample_binding 3 ''acc_3'' ''zhaoxi'')\<lparr>b_user := ''user_2''\<rparr>],
     wallets := [sample_wallet\<lparr>w_account := ''acc_3'', w_user := ''user_9'', w_balance := 0\<rparr>],
     relationships := [due_rel ''refrel_1'' ''user_1'' ''user_7'' 1, due_rel ''refrel_2'' ''user_2'' ''user_8'' 2]\<rparr>"

lemma release_loop_append:
  "release_loop reg now fresh rids ls db = (ls1, Some db1) \<Longrightarrow>
     release_loop reg now fresh (rids @ tail) ls db = release_loop reg now fresh tail ls1 db1"
proof (induction rids arbitrary: ls db)
  case (Cons r rids)
  then show ?case by (auto split: sum.splits option.splits if_splits prod.splits)
qed simp

text \<open>C27: the batch release reports rewards it has not kept. It catches the exception of one relationship
  and goes on, but a database error has aborted the transaction: when the batch rewards the
  relationships \<open>paid\<close> and the posting of the next one \<open>rid\<close> raises in PostgreSQL, for whatever state and
  whatever relationships come after it, the call returns the ledger rows of \<open>paid\<close> as released and the
  database stays exactly as it was.\<close>

theorem release_reports_uncommitted:
  assumes "registered_app_id reg app_id = Inr app"
    and "take (clamp limit 1000) (due_ids (\<lambda>r. rr_app r = app \<and> rr_status r = Qualified \<and> rr_review r = RPending \<and>
      rr_reward r = None) db) = paid @ rid # later"
    and "release_loop reg now fresh paid [] db = (rewards, Some db1)"
    and "release_delayed_mark now fresh rid db1 = Inr (Some db2)"
    and "apply_referral_reward reg now fresh rid db2 = Inl e" and "sql_error e"
  shows "release_due_referral_rewards reg now fresh limit app_id db = Inr (map decode_ledger_row rewards, db)"
proof -
  have "release_loop reg now fresh (paid @ rid # later) [] db = (rewards, None)"
    using assms(4-6) by (simp add: release_loop_append [OF assms(3)])
  then show ?thesis by (simp add: release_due_referral_rewards_def assms(1,2) committed_def)
qed

definition due_fresh :: fresh where
  "due_fresh rid = (if rid = ''refrel_1'' then (1, 2, 3) else (4, 5, 6))"

definition due_loop :: "ledger_row list \<times> referral_db option" where
  "due_loop = release_loop production_products 100 due_fresh [''refrel_1''] [] due_db"

definition due_marked :: referral_db where
  "due_marked = (case release_delayed_mark 100 due_fresh ''refrel_2'' (the (snd due_loop)) of
     Inr (Some db2) \<Rightarrow> db2 | _ \<Rightarrow> due_db)"

theorem release_reports_uncommitted_witness:
  "\<exists>rows. release_due_referral_rewards production_products 100 due_fresh 200 ''zhaoxi'' due_db = Inr (rows, due_db) \<and>
     map (\<lambda>v. l_user (lv_row v)) rows = [''user_1'']"
proof -
  have l: "due_loop = (fst due_loop, Some (the (snd due_loop)))"
  proof -
    have "snd due_loop \<noteq> None" by code_simp
    then show ?thesis by (metis option.collapse prod.collapse)
  qed
  have m: "release_delayed_mark 100 due_fresh ''refrel_2'' (the (snd due_loop)) = Inr (Some due_marked)"
  proof -
    have "case release_delayed_mark 100 due_fresh ''refrel_2'' (the (snd due_loop)) of Inr (Some _) \<Rightarrow> True | _ \<Rightarrow> False"
      by code_simp
    then show ?thesis by (auto simp: due_marked_def split: sum.splits option.splits)
  qed
  have l': "release_loop production_products 100 due_fresh [''refrel_1''] [] due_db = (fst due_loop, Some (the (snd due_loop)))"
    using l by (simp only: due_loop_def [symmetric])
  obtain e where e: "apply_referral_reward production_products 100 due_fresh ''refrel_2'' due_marked = Inl e" "sql_error e"
  proof -
    have "case apply_referral_reward production_products 100 due_fresh ''refrel_2'' due_marked of Inl e \<Rightarrow> sql_error e | _ \<Rightarrow> False"
      by code_simp
    then show ?thesis using that by (auto split: sum.splits)
  qed
  have "due_ids (\<lambda>r. rr_app r = ''zhaoxi'' \<and> rr_status r = Qualified \<and> rr_review r = RPending \<and> rr_reward r = None) due_db =
      [''refrel_1''] @ ''refrel_2'' # []" by code_simp
  then have d: "take (clamp 200 1000) (due_ids (\<lambda>r. rr_app r = ''zhaoxi'' \<and> rr_status r = Qualified \<and> rr_review r = RPending \<and>
      rr_reward r = None) due_db) = [''refrel_1''] @ ''refrel_2'' # []" by (simp add: clamp_def)
  have a: "registered_app_id production_products ''zhaoxi'' = Inr ''zhaoxi''" by code_simp
  have "release_due_referral_rewards production_products 100 due_fresh 200 ''zhaoxi'' due_db =
      Inr (map decode_ledger_row (fst due_loop), due_db)"
    by (rule release_reports_uncommitted [OF a d l' m e])
  moreover have "map (\<lambda>v. l_user (lv_row v)) (map decode_ledger_row (fst due_loop)) = [''user_1'']" by code_simp
  ultimately show ?thesis by (intro exI [of _ "map decode_ledger_row (fst due_loop)"] conjI)
qed

end
