(* ===== verification/Lifecycle.thy ===== *)
theory Lifecycle
imports Prelude
begin

text \<open>
  The contract of a table of rows with a life cycle: rows are found by a key, are never removed,
  move through stages in one direction only and are frozen once final. \<open>lifecycle\<close> states it over
  a step relation; what follows for every history (final rows stay, the observed column changes a
  bounded number of times) is proved once here and interpreted on the tables that have it.
\<close>

section \<open>Histories\<close>

text \<open>
  \<open>chain step ss\<close>: each state of the history \<open>ss\<close> follows from the one before it.
  \<open>changes f ss\<close> counts the places of the history at which \<open>f\<close> changes its value.
\<close>

fun chain :: "('s \<Rightarrow> 's \<Rightarrow> bool) \<Rightarrow> 's list \<Rightarrow> bool" where
  "chain step [] = True"
| "chain step [s] = True"
| "chain step (s # s' # ss) = (step s s' \<and> chain step (s' # ss))"

fun changes :: "('s \<Rightarrow> 'v) \<Rightarrow> 's list \<Rightarrow> nat" where
  "changes f [] = 0"
| "changes f [s] = 0"
| "changes f (s # s' # ss) = (if f s = f s' then 0 else 1) + changes f (s' # ss)"

lemma chain_reaches: "chain step (s # ss) \<Longrightarrow> s' \<in> set (s # ss) \<Longrightarrow> step\<^sup>*\<^sup>* s s'"
proof (induction ss arbitrary: s)
  case Nil
  then show ?case by simp
next
  case (Cons t ts)
  then have "step s t" and "s' = s \<or> step\<^sup>*\<^sup>* t s'" by auto
  then show ?case by (auto intro: converse_rtranclp_into_rtranclp)
qed

section \<open>The contract\<close>

locale lifecycle =
  fixes inv :: "'s \<Rightarrow> bool"
    and step :: "'s \<Rightarrow> 's \<Rightarrow> bool"
    and look :: "'k \<Rightarrow> 's \<Rightarrow> 'r option"
    and view :: "'r \<Rightarrow> 'v"
    and stage :: "'r \<Rightarrow> nat"
    and last_stage :: nat
  assumes inv_step: "inv s \<Longrightarrow> step s s' \<Longrightarrow> inv s'"
    and kept: "inv s \<Longrightarrow> step s s' \<Longrightarrow> look k s = Some r \<Longrightarrow>
      \<exists>r'. look k s' = Some r' \<and> (view r' = view r \<and> stage r' = stage r \<or> stage r < stage r')"
    and frozen: "inv s \<Longrightarrow> step s s' \<Longrightarrow> look k s = Some r \<Longrightarrow> stage r = last_stage \<Longrightarrow> look k s' = Some r"
    and staged: "inv s \<Longrightarrow> look k s = Some r \<Longrightarrow> stage r \<le> last_stage"
begin

lemma reach_inv: "step\<^sup>*\<^sup>* s s' \<Longrightarrow> inv s \<Longrightarrow> inv s'"
  by (induction rule: rtranclp_induct) (auto intro: inv_step)

lemma reach_kept:
  "step\<^sup>*\<^sup>* s s' \<Longrightarrow> inv s \<Longrightarrow> look k s = Some r \<Longrightarrow> \<exists>r'. look k s' = Some r' \<and> stage r \<le> stage r'"
proof (induction rule: rtranclp_induct)
  case base
  then show ?case by simp
next
  case (step t u)
  then obtain r' where "look k t = Some r'" "stage r \<le> stage r'" by blast
  moreover have "inv t" using step.hyps(1) step.prems(1) by (rule reach_inv)
  ultimately show ?case using kept [OF _ step.hyps(2)] by fastforce
qed

lemma reach_frozen:
  "step\<^sup>*\<^sup>* s s' \<Longrightarrow> inv s \<Longrightarrow> look k s = Some r \<Longrightarrow> stage r = last_stage \<Longrightarrow> look k s' = Some r"
  by (induction rule: rtranclp_induct) (auto intro: frozen reach_inv)

text \<open>The observed column of a row takes at most one new value per stage that is left.\<close>

lemma changes_bounded:
  "chain step (s # ss) \<Longrightarrow> inv s \<Longrightarrow> look k s = Some r \<Longrightarrow>
     changes (\<lambda>t. map_option view (look k t)) (s # ss) \<le> last_stage - stage r"
proof (induction ss arbitrary: s r)
  case Nil
  then show ?case by simp
next
  case (Cons t ts)
  then have st: "step s t" and ch: "chain step (t # ts)" by simp_all
  have it: "inv t" using inv_step [OF Cons.prems(2) st] .
  obtain r' where r': "look k t = Some r'"
    and o: "view r' = view r \<and> stage r' = stage r \<or> stage r < stage r'"
    using kept [OF Cons.prems(2) st Cons.prems(3)] by blast
  have "stage r' \<le> last_stage" using staged [OF it r'] .
  with Cons.IH [OF ch it r'] o r' Cons.prems(3) show ?case by auto
qed

end

end
