(* ===== verification/Turn_Runs.thy ===== *)
theory Turn_Runs
imports Wallet Lifecycle
begin

text \<open>
  The streaming turn runs of \<^verbatim>\<open>app/db/runtime_turn_runs.py\<close>: the table
  \<^verbatim>\<open>runtime_turn_runs\<close> with its primary key, its idempotency index and its partial
  index of active sessions (migrations 68 and 69 of \<^verbatim>\<open>app/db/migrations/shared.py\<close>), and
  every operation of the module. Times are seconds of the Asia/Shanghai clock: the columns hold
  them as fixed-width text, whose order is the order of the numbers. Each \<open>connect()\<close> block is
  one transaction; \<open>turn_step\<close> lets the transactions of any number of workers follow each other
  in any order.
\<close>

section \<open>The table\<close>

record turn_run =
  tr_id :: string
  tr_app :: string
  tr_account :: string
  tr_session :: int
  tr_client_message :: string
  tr_idempotency :: string
  tr_status :: string
  tr_provider :: "string option"
  tr_model :: "string option"
  tr_assistant_message :: "string option"
  tr_first_delta :: "int option"
  tr_finish_reason :: "string option"
  tr_error :: "string option"
  tr_created :: int
  tr_updated :: int
  tr_completed :: "int option"
  tr_cancel_requested :: "int option"

record turn_db = wallet_db +
  turn_runs :: "turn_run list"

definition active_statuses :: "string list" where
  "active_statuses = [''accepted'', ''running'']"

definition terminal_statuses :: "string list" where
  "terminal_statuses = [''completed'', ''cancelled'', ''failed'', ''abandoned'']"

definition run_active :: "turn_run \<Rightarrow> bool" where
  "run_active r = (tr_status r \<in> set active_statuses)"

definition idempotency_index :: "turn_run \<Rightarrow> string \<times> string \<times> string" where
  "idempotency_index r = (tr_app r, tr_account r, tr_idempotency r)"

definition session_index :: "turn_run \<Rightarrow> string \<times> string \<times> int" where
  "session_index r = (tr_app r, tr_account r, tr_session r)"

text \<open>The \<open>INSERT\<close>, with the range of the \<open>BIGINT\<close> column and the three unique indexes.\<close>

definition insert_turn_run :: "turn_run \<Rightarrow> 'a turn_db_scheme \<Rightarrow> 'a turn_db_scheme res" where
  "insert_turn_run r db =
     and_then (bigint (tr_session r)) (\<lambda>_.
       if tr_id r \<in> tr_id ` set (turn_runs db) then Inl (IntegrityError ''runtime_turn_runs_pkey'')
       else if idempotency_index r \<in> idempotency_index ` set (turn_runs db)
         then Inl (IntegrityError ''ux_runtime_turn_runs_idempotency'')
       else if run_active r \<and> session_index r \<in> session_index ` set (filter run_active (turn_runs db))
         then Inl (IntegrityError ''ux_runtime_turn_runs_active_session'')
       else Inr (db\<lparr>turn_runs := turn_runs db @ [r]\<rparr>))"

text \<open>An \<open>UPDATE\<close> by primary key, with the test \<open>cursor.rowcount == 1\<close> its callers make.\<close>

definition update_turn_runs ::
  "(turn_run \<Rightarrow> bool) \<Rightarrow> (turn_run \<Rightarrow> turn_run) \<Rightarrow> 'a turn_db_scheme \<Rightarrow> bool \<times> 'a turn_db_scheme" where
  "update_turn_runs p f db =
     (count_where p (turn_runs db) = 1, db\<lparr>turn_runs := update_where p f (turn_runs db)\<rparr>)"

section \<open>The operations\<close>

definition get_runtime_turn_run :: "string \<Rightarrow> 'a turn_db_scheme \<Rightarrow> turn_run option" where
  "get_runtime_turn_run turn_id db = find_row (\<lambda>r. tr_id r = turn_id) (turn_runs db)"

definition get_runtime_turn_run_by_idempotency ::
  "string \<Rightarrow> string \<Rightarrow> string \<Rightarrow> 'a turn_db_scheme \<Rightarrow> turn_run option" where
  "get_runtime_turn_run_by_idempotency app_id account_id idempotency_key db =
     find_row (\<lambda>r. tr_app r = app_id \<and> tr_account r = account_id \<and> tr_idempotency r = idempotency_key)
       (turn_runs db)"

definition accepted_run ::
  "int \<Rightarrow> string \<Rightarrow> string \<Rightarrow> string \<Rightarrow> int \<Rightarrow> string \<Rightarrow> string \<Rightarrow> string option \<Rightarrow> string option \<Rightarrow> turn_run" where
  "accepted_run now turn_id app_id account_id session_id client_message_id idempotency_key provider_id model_ref =
     \<lparr>tr_id = turn_id, tr_app = app_id, tr_account = account_id, tr_session = session_id,
      tr_client_message = client_message_id, tr_idempotency = idempotency_key, tr_status = ''accepted'',
      tr_provider = provider_id, tr_model = model_ref, tr_assistant_message = None, tr_first_delta = None,
      tr_finish_reason = None, tr_error = None, tr_created = now, tr_updated = now, tr_completed = None,
      tr_cancel_requested = None\<rparr>"

text \<open>
  \<open>create_runtime_turn_run\<close> on the row to insert. An \<open>IntegrityError\<close> of any of the indexes is
  answered by the row under the idempotency key, and is an active turn when there is none; every
  other error propagates.
\<close>

definition create_runtime_turn_run ::
  "turn_run \<Rightarrow> 'a turn_db_scheme \<Rightarrow> (turn_run \<times> bool) res \<times> 'a turn_db_scheme" where
  "create_runtime_turn_run r db =
     (case insert_turn_run r db of
        Inr db' \<Rightarrow> (case get_runtime_turn_run (tr_id r) db' of
            None \<Rightarrow> (Inl (RuntimeError ''runtime_turn_create_lost''), db')
          | Some created \<Rightarrow> (Inr (created, True), db'))
      | Inl (IntegrityError c) \<Rightarrow>
          (case get_runtime_turn_run_by_idempotency (tr_app r) (tr_account r) (tr_idempotency r) db of
             Some existing \<Rightarrow> (Inr (existing, False), db)
           | None \<Rightarrow> (Inl ActiveRuntimeTurnError, db))
      | Inl e \<Rightarrow> (Inl e, db))"

definition mark_runtime_turn_running :: "int \<Rightarrow> string \<Rightarrow> 'a turn_db_scheme \<Rightarrow> bool \<times> 'a turn_db_scheme" where
  "mark_runtime_turn_running now turn_id =
     update_turn_runs (\<lambda>r. tr_id r = turn_id \<and> tr_status r = ''accepted'')
       (\<lambda>r. r\<lparr>tr_status := ''running'', tr_updated := now\<rparr>)"

definition coalesce :: "'v option \<Rightarrow> 'v \<Rightarrow> 'v option" where
  "coalesce v d = (case v of None \<Rightarrow> Some d | Some x \<Rightarrow> Some x)"

definition mark_runtime_turn_first_delta :: "int \<Rightarrow> string \<Rightarrow> 'a turn_db_scheme \<Rightarrow> bool \<times> 'a turn_db_scheme" where
  "mark_runtime_turn_first_delta now turn_id =
     update_turn_runs (\<lambda>r. tr_id r = turn_id \<and> run_active r \<and> tr_cancel_requested r = None)
       (\<lambda>r. r\<lparr>tr_first_delta := coalesce (tr_first_delta r) now, tr_updated := now\<rparr>)"

definition request_runtime_turn_cancel ::
  "int \<Rightarrow> string \<Rightarrow> string \<Rightarrow> string \<Rightarrow> int \<Rightarrow> 'a turn_db_scheme \<Rightarrow> bool \<times> 'a turn_db_scheme" where
  "request_runtime_turn_cancel now turn_id app_id account_id session_id =
     update_turn_runs (\<lambda>r. tr_id r = turn_id \<and> tr_app r = app_id \<and> tr_account r = account_id \<and>
         tr_session r = session_id \<and> run_active r)
       (\<lambda>r. r\<lparr>tr_cancel_requested := coalesce (tr_cancel_requested r) now, tr_updated := now\<rparr>)"

definition runtime_turn_cancel_requested :: "string \<Rightarrow> 'a turn_db_scheme \<Rightarrow> bool" where
  "runtime_turn_cancel_requested turn_id db =
     (case find_row (\<lambda>r. tr_id r = turn_id \<and> run_active r) (turn_runs db) of
        None \<Rightarrow> False | Some r \<Rightarrow> tr_cancel_requested r \<noteq> None)"

definition finish_runtime_turn_run ::
  "int \<Rightarrow> string \<Rightarrow> string \<Rightarrow> string option \<Rightarrow> string option \<Rightarrow> string option \<Rightarrow> 'a turn_db_scheme \<Rightarrow>
     bool res \<times> 'a turn_db_scheme" where
  "finish_runtime_turn_run now turn_id status assistant_message_id finish_reason error_code db =
     (if status \<notin> set terminal_statuses
      then (Inl (ValueError (''invalid runtime turn terminal status: '' @ status)), db)
      else case update_turn_runs (\<lambda>r. tr_id r = turn_id \<and> run_active r)
          (\<lambda>r. r\<lparr>tr_status := status, tr_assistant_message := assistant_message_id,
                 tr_finish_reason := finish_reason, tr_error := error_code,
                 tr_updated := now, tr_completed := Some now\<rparr>) db of
        (done, db') \<Rightarrow> (Inr done, db'))"

text \<open>
  \<open>reclaim_stale_runtime_turn_runs\<close>: the ids are selected first, and each update tests the
  status and the age of its row again. The returned rows are read after the commit.
\<close>

definition stale_run :: "int \<Rightarrow> int \<Rightarrow> turn_run \<Rightarrow> bool" where
  "stale_run now ttl_seconds r = (run_active r \<and> tr_updated r < now - max 1 ttl_seconds)"

definition reclaim_scope :: "string option \<Rightarrow> string option \<Rightarrow> int option \<Rightarrow> turn_run \<Rightarrow> bool" where
  "reclaim_scope app_id account_id session_id r =
     (opt_all (\<lambda>a. tr_app r = a) app_id \<and> opt_all (\<lambda>a. tr_account r = a) account_id \<and>
      opt_all (\<lambda>s. tr_session r = s) session_id)"

definition abandon :: "int \<Rightarrow> turn_run \<Rightarrow> turn_run" where
  "abandon now r = r\<lparr>tr_status := ''abandoned'', tr_error := Some ''runtime_turn_timeout'',
     tr_updated := now, tr_completed := Some now\<rparr>"

definition reclaim_run :: "int \<Rightarrow> int \<Rightarrow> string \<Rightarrow> 'a turn_db_scheme \<Rightarrow> bool \<times> 'a turn_db_scheme" where
  "reclaim_run now ttl_seconds turn_id =
     update_turn_runs (\<lambda>r. tr_id r = turn_id \<and> stale_run now ttl_seconds r) (abandon now)"

fun reclaim_runs :: "int \<Rightarrow> int \<Rightarrow> string list \<Rightarrow> 'a turn_db_scheme \<Rightarrow> string list \<times> 'a turn_db_scheme" where
  "reclaim_runs now ttl_seconds [] db = ([], db)"
| "reclaim_runs now ttl_seconds (turn_id # ids) db =
     (case reclaim_run now ttl_seconds turn_id db of (hit, db1) \<Rightarrow>
        (case reclaim_runs now ttl_seconds ids db1 of (reclaimed, db2) \<Rightarrow>
           ((if hit then turn_id # reclaimed else reclaimed), db2)))"

definition reclaim_stale_runtime_turn_runs ::
  "int \<Rightarrow> int \<Rightarrow> string option \<Rightarrow> string option \<Rightarrow> int option \<Rightarrow> 'a turn_db_scheme \<Rightarrow>
     turn_run list \<times> 'a turn_db_scheme" where
  "reclaim_stale_runtime_turn_runs now ttl_seconds app_id account_id session_id db =
     (let ids = map tr_id (filter (\<lambda>r. stale_run now ttl_seconds r \<and>
            reclaim_scope app_id account_id session_id r) (turn_runs db))
      in case reclaim_runs now ttl_seconds ids db of (reclaimed_ids, db') \<Rightarrow>
        (List.map_filter (\<lambda>turn_id. get_runtime_turn_run turn_id db') reclaimed_ids, db'))"

section \<open>The invariant\<close>

text \<open>
  \<open>run_typed\<close> is the type of a row: its status is one of the six, the session fits its column,
  and the completion time is set exactly on terminal rows. \<open>runs_ok\<close> adds the three indexes.
\<close>

definition run_typed :: "turn_run \<Rightarrow> bool" where
  "run_typed r =
     (tr_status r \<in> set (active_statuses @ terminal_statuses) \<and>
      (tr_completed r \<noteq> None) = (tr_status r \<in> set terminal_statuses) \<and>
      - (2 ^ 63) \<le> tr_session r \<and> tr_session r < 2 ^ 63)"

definition runs_ok :: "turn_run list \<Rightarrow> bool" where
  "runs_ok rs =
     (unique_on (\<lambda>_. True) tr_id rs \<and> unique_on (\<lambda>_. True) idempotency_index rs \<and>
      unique_on run_active session_index rs \<and> list_all run_typed rs)"

lemmas status_lists = active_statuses_def terminal_statuses_def

lemma runs_ok_Nil [simp]: "runs_ok []"
  by (simp add: runs_ok_def)

lemma runs_ok_ids: "runs_ok rs \<Longrightarrow> r \<in> set rs \<Longrightarrow> r' \<in> set rs \<Longrightarrow> tr_id r = tr_id r' \<Longrightarrow> r = r'"
  unfolding runs_ok_def using unique_onD [of "\<lambda>_. True" tr_id rs r r'] by simp

lemma active_not_terminal: "run_active r \<Longrightarrow> tr_status r \<notin> set terminal_statuses"
  by (auto simp: run_active_def status_lists)

lemma insert_turn_run_Inr:
  "insert_turn_run r db = Inr db' \<longleftrightarrow>
     - (2 ^ 63) \<le> tr_session r \<and> tr_session r < 2 ^ 63 \<and>
     tr_id r \<notin> tr_id ` set (turn_runs db) \<and>
     idempotency_index r \<notin> idempotency_index ` set (turn_runs db) \<and>
     (run_active r \<longrightarrow> session_index r \<notin> session_index ` set (filter run_active (turn_runs db))) \<and>
     db' = db\<lparr>turn_runs := turn_runs db @ [r]\<rparr>"
  by (auto simp: insert_turn_run_def tx_simps)

lemma runs_ok_insert:
  assumes "runs_ok (turn_runs db)" and "insert_turn_run r db = Inr db'" and "run_typed r"
  shows "runs_ok (turn_runs db')"
  using assms by (auto simp: insert_turn_run_Inr runs_ok_def unique_on_snoc image_iff)

text \<open>
  Every update of the module leaves the indexed columns as they are, moves no terminal row, and
  keeps the types.
\<close>

definition run_stage :: "turn_run \<Rightarrow> nat" where
  "run_stage r = (if tr_status r = ''accepted'' then 0 else if tr_status r = ''running'' then 1 else 2)"

definition run_update :: "(turn_run \<Rightarrow> turn_run) \<Rightarrow> bool" where
  "run_update f =
     (\<forall>r. tr_id (f r) = tr_id r \<and> idempotency_index (f r) = idempotency_index r \<and>
        session_index (f r) = session_index r \<and> (run_active r \<longrightarrow> run_typed r \<longrightarrow> run_typed (f r)) \<and>
        (run_active r \<longrightarrow> tr_status (f r) = tr_status r \<or> run_stage r < run_stage (f r)) \<and>
        (tr_cancel_requested r \<noteq> None \<longrightarrow> tr_cancel_requested (f r) \<noteq> None))"

lemma runs_ok_update:
  assumes ok: "runs_ok rs" and f: "run_update f" and p: "\<And>r. p r \<Longrightarrow> run_active r"
  shows "runs_ok (update_where p f rs)"
proof -
  have "unique_on (\<lambda>_. True) tr_id (update_where p f rs)"
    "unique_on (\<lambda>_. True) idempotency_index (update_where p f rs)"
    using ok f by (simp_all add: runs_ok_def run_update_def unique_on_update)
  moreover have "unique_on run_active session_index (update_where p f rs)"
    using ok f p by (intro unique_on_update_weaken) (auto simp: runs_ok_def run_update_def)
  moreover have "list_all run_typed (update_where p f rs)"
    using ok f p by (auto simp: runs_ok_def run_update_def list_all_iff set_update_where)
  ultimately show ?thesis by (simp add: runs_ok_def)
qed

section \<open>Any order of transactions\<close>

text \<open>
  One committed statement of some worker. \<open>reclaim\<close> is one update of a reclaiming transaction,
  whatever ids it selected before; \<open>other\<close> is a transaction that leaves the table alone.
\<close>

inductive turn_step :: "'a turn_db_scheme \<Rightarrow> 'a turn_db_scheme \<Rightarrow> bool" where
  insert: "insert_turn_run (accepted_run now t app acc sess cm ik prov mref) db = Inr db' \<Longrightarrow> turn_step db db'"
| running: "turn_step db (snd (mark_runtime_turn_running now t db))"
| first_delta: "turn_step db (snd (mark_runtime_turn_first_delta now t db))"
| cancel: "turn_step db (snd (request_runtime_turn_cancel now t app acc sess db))"
| finish: "turn_step db (snd (finish_runtime_turn_run now t status mid reason code db))"
| reclaim: "turn_step db (snd (reclaim_run now ttl t db))"
| other: "turn_runs db' = turn_runs db \<Longrightarrow> turn_step db db'"

text \<open>Each step appends a new accepted run, or is an update of active rows, or does nothing.\<close>

lemma update_turn_runs_rows [simp]:
  "turn_runs (snd (update_turn_runs p f db)) = update_where p f (turn_runs db)"
  "fst (update_turn_runs p f db) = (count_where p (turn_runs db) = 1)"
  by (simp_all add: update_turn_runs_def)

lemmas turn_update_defs = mark_runtime_turn_running_def mark_runtime_turn_first_delta_def
  request_runtime_turn_cancel_def reclaim_run_def

lemmas run_update_simps = run_update_def run_stage_def run_active_def run_typed_def status_lists
  idempotency_index_def session_index_def

definition active_update :: "(turn_run \<Rightarrow> bool) \<Rightarrow> (turn_run \<Rightarrow> turn_run) \<Rightarrow> bool" where
  "active_update p f = (run_update f \<and> (\<forall>r. p r \<longrightarrow> run_active r))"

lemma active_updates:
  "active_update (\<lambda>r. tr_id r = t \<and> tr_status r = ''accepted'') (\<lambda>r. r\<lparr>tr_status := ''running'', tr_updated := now\<rparr>)"
  "active_update (\<lambda>r. tr_id r = t \<and> run_active r \<and> tr_cancel_requested r = None)
     (\<lambda>r. r\<lparr>tr_first_delta := coalesce (tr_first_delta r) now, tr_updated := now\<rparr>)"
  "active_update (\<lambda>r. tr_id r = t \<and> tr_app r = app \<and> tr_account r = acc \<and> tr_session r = sess \<and> run_active r)
     (\<lambda>r. r\<lparr>tr_cancel_requested := coalesce (tr_cancel_requested r) now, tr_updated := now\<rparr>)"
  "active_update (\<lambda>r. tr_id r = t \<and> stale_run now ttl r) (abandon now)"
  "status \<in> set terminal_statuses \<Longrightarrow> active_update (\<lambda>r. tr_id r = t \<and> run_active r)
     (\<lambda>r. r\<lparr>tr_status := status, tr_assistant_message := mid, tr_finish_reason := reason, tr_error := code,
            tr_updated := now, tr_completed := Some now\<rparr>)"
  by (auto simp: active_update_def run_update_simps stale_run_def abandon_def coalesce_def split: option.splits)

lemma finish_rows:
  "turn_runs (snd (finish_runtime_turn_run now t status mid reason code db)) =
     (if status \<in> set terminal_statuses then update_where (\<lambda>r. tr_id r = t \<and> run_active r)
        (\<lambda>r. r\<lparr>tr_status := status, tr_assistant_message := mid, tr_finish_reason := reason, tr_error := code,
               tr_updated := now, tr_completed := Some now\<rparr>) (turn_runs db)
      else turn_runs db)"
  by (simp add: finish_runtime_turn_run_def update_turn_runs_def)

lemma turn_step_forms:
  assumes "turn_step db db'"
  obtains (new) now t app acc sess cm ik prov mref
      where "insert_turn_run (accepted_run now t app acc sess cm ik prov mref) db = Inr db'"
    | (upd) p f where "active_update p f" and "turn_runs db' = update_where p f (turn_runs db)"
    | (same) "turn_runs db' = turn_runs db"
  using assms
proof cases
  case insert
  then show ?thesis by (rule new)
next
  case (running now t)
  then show ?thesis by (intro upd [OF active_updates(1)]) (simp add: turn_update_defs)
next
  case (first_delta now t)
  then show ?thesis by (intro upd [OF active_updates(2)]) (simp add: turn_update_defs)
next
  case (cancel now t app acc sess)
  then show ?thesis by (intro upd [OF active_updates(3)]) (simp add: turn_update_defs)
next
  case (finish now t status mid reason code)
  show ?thesis
  proof (cases "status \<in> set terminal_statuses")
    case True
    with finish show ?thesis by (intro upd [OF active_updates(5)]) (simp_all add: finish_rows)
  next
    case False
    with finish show ?thesis by (intro same) (simp add: finish_rows)
  qed
next
  case (reclaim now ttl t)
  then show ?thesis by (intro upd [OF active_updates(4)]) (simp add: turn_update_defs)
next
  case other
  then show ?thesis by (rule same)
qed

lemma accepted_run_typed:
  "- (2 ^ 63) \<le> sess \<Longrightarrow> sess < 2 ^ 63 \<Longrightarrow> run_typed (accepted_run now t app acc sess cm ik prov mref)"
  by (simp add: run_typed_def accepted_run_def status_lists)

lemma turn_step_ok:
  assumes "runs_ok (turn_runs db)" and "turn_step db db'"
  shows "runs_ok (turn_runs db')"
  using assms(2)
proof (cases rule: turn_step_forms)
  case (new now t app acc sess cm ik prov mref)
  then have "run_typed (accepted_run now t app acc sess cm ik prov mref)"
    by (auto simp: insert_turn_run_Inr accepted_run_def [of now] intro: accepted_run_typed [unfolded accepted_run_def])
  then show ?thesis using runs_ok_insert [OF assms(1) new] by simp
next
  case (upd p f)
  then show ?thesis using runs_ok_update [OF assms(1)] by (simp add: active_update_def)
next
  case same
  then show ?thesis using assms(1) by simp
qed

lemma find_row_update:
  "(\<And>r. k (f r) = k r) \<Longrightarrow>
     find_row (\<lambda>r. k r = x) (update_where p f rs) =
     map_option (\<lambda>r. if p r then f r else r) (find_row (\<lambda>r. k r = x) rs)"
  by (induction rs) auto

lemma turn_step_look:
  assumes "turn_step db db'" and "get_runtime_turn_run t db = Some r"
  obtains "get_runtime_turn_run t db' = Some r"
    | f where "run_update f" and "run_active r" and "get_runtime_turn_run t db' = Some (f r)"
  using assms(1)
proof (cases rule: turn_step_forms)
  case new
  then show ?thesis using assms(2) that(1)
    by (auto simp: insert_turn_run_Inr get_runtime_turn_run_def find_row_append)
next
  case (upd p f)
  then have f: "run_update f" by (simp add: active_update_def)
  then have "get_runtime_turn_run t db' = Some (if p r then f r else r)"
    using assms(2) upd(2) by (simp add: get_runtime_turn_run_def find_row_update run_update_def)
  then show ?thesis using that upd(1) f by (cases "p r") (auto simp: active_update_def)
next
  case same
  then show ?thesis using assms(2) that(1) by (simp add: get_runtime_turn_run_def)
qed

lemma run_stage_active: "run_active r \<longleftrightarrow> run_stage r < 2"
  by (auto simp: run_stage_def run_active_def status_lists)

lemma run_stage_status: "tr_status r' = tr_status r \<Longrightarrow> run_stage r' = run_stage r"
  by (simp add: run_stage_def)

interpretation turns: lifecycle "\<lambda>db. runs_ok (turn_runs db)" turn_step get_runtime_turn_run tr_status run_stage 2
proof unfold_locales
  fix db db' :: "'a turn_db_scheme"
  assume "runs_ok (turn_runs db)" and "turn_step db db'"
  then show "runs_ok (turn_runs db')" by (rule turn_step_ok)
next
  fix db db' :: "'a turn_db_scheme" and t r
  assume st: "turn_step db db'" and l: "get_runtime_turn_run t db = Some r"
  from st l show "\<exists>r'. get_runtime_turn_run t db' = Some r' \<and>
      (tr_status r' = tr_status r \<and> run_stage r' = run_stage r \<or> run_stage r < run_stage r')"
  proof (cases rule: turn_step_look)
    case (2 f)
    then have "tr_status (f r) = tr_status r \<or> run_stage r < run_stage (f r)" by (simp add: run_update_def)
    then have "tr_status (f r) = tr_status r \<and> run_stage (f r) = run_stage r \<or> run_stage r < run_stage (f r)"
      using run_stage_status [of "f r" r] by blast
    with 2(3) show ?thesis by simp
  qed simp
  assume "run_stage r = 2"
  with st l show "get_runtime_turn_run t db' = Some r"
    by (cases rule: turn_step_look) (simp_all add: run_stage_active)
qed (simp add: run_stage_def)

section \<open>What the operations do\<close>

lemma get_run_iff:
  assumes "runs_ok (turn_runs db)"
  shows "get_runtime_turn_run t db = Some r \<longleftrightarrow> r \<in> set (turn_runs db) \<and> tr_id r = t"
proof
  assume "get_runtime_turn_run t db = Some r"
  then show "r \<in> set (turn_runs db) \<and> tr_id r = t"
    unfolding get_runtime_turn_run_def by (rule find_row_Some)
next
  assume r: "r \<in> set (turn_runs db) \<and> tr_id r = t"
  then show "get_runtime_turn_run t db = Some r"
    unfolding get_runtime_turn_run_def using runs_ok_ids [OF assms]
    by (intro find_row_unique) blast+
qed

text \<open>An update by primary key hits exactly when the row is there and meets the condition.\<close>

lemma count_by_id:
  assumes "runs_ok rs"
  shows "count_where (\<lambda>r. tr_id r = t \<and> q r) rs = (if list_ex (\<lambda>r. tr_id r = t \<and> q r) rs then 1 else 0)"
proof -
  have "unique_on (\<lambda>_. True) tr_id rs" using assms by (simp add: runs_ok_def)
  then show ?thesis
  proof (induction rs)
    case Nil
    show ?case by simp
  next
    case (Cons r rs)
    then have u: "\<forall>r' \<in> set rs. tr_id r' \<noteq> tr_id r" and IH: "count_where (\<lambda>r. tr_id r = t \<and> q r) rs =
        (if list_ex (\<lambda>r. tr_id r = t \<and> q r) rs then 1 else 0)"
      by (simp_all add: unique_on_Cons)
    have "tr_id r = t \<Longrightarrow> \<not> list_ex (\<lambda>r. tr_id r = t \<and> q r) rs" using u by (auto simp: list_ex_iff)
    with IH show ?case by auto
  qed
qed

lemma abandon_not_stale [simp]: "\<not> stale_run now ttl (abandon now' r)" "tr_id (abandon now r) = tr_id r"
  by (simp_all add: stale_run_def abandon_def run_active_def status_lists)

lemma update_where_or:
  "(\<And>r. q r \<Longrightarrow> \<not> p (f r)) \<Longrightarrow>
     update_where p f (update_where q f rs) = update_where (\<lambda>r. q r \<or> p r) f rs"
  by (induction rs) auto

lemma reclaim_runs_effect:
  "runs_ok (turn_runs db) \<Longrightarrow> distinct ids \<Longrightarrow>
     reclaim_runs now ttl ids db =
       (filter (\<lambda>i. list_ex (\<lambda>r. tr_id r = i \<and> stale_run now ttl r) (turn_runs db)) ids,
        db\<lparr>turn_runs := update_where (\<lambda>r. tr_id r \<in> set ids \<and> stale_run now ttl r) (abandon now) (turn_runs db)\<rparr>)"
proof (induction ids arbitrary: db)
  case Nil
  have "update_where (\<lambda>r. False) (abandon now) rs = rs" for rs by (induction rs) auto
  then show ?case by simp
next
  case (Cons t ids)
  let ?p = "\<lambda>r. tr_id r = t \<and> stale_run now ttl r"
  define db1 where "db1 = db\<lparr>turn_runs := update_where ?p (abandon now) (turn_runs db)\<rparr>"
  have rec: "reclaim_run now ttl t db = (list_ex ?p (turn_runs db), db1)"
    using count_by_id [OF Cons.prems(1), of t "stale_run now ttl"]
    by (simp add: reclaim_run_def update_turn_runs_def db1_def)
  have ok: "runs_ok (turn_runs db1)"
    using turn_step_ok [OF Cons.prems(1) turn_step.reclaim [of db now ttl t]] by (simp add: rec)
  have keep: "list_ex (\<lambda>r. tr_id r = i \<and> stale_run now ttl r) (turn_runs db1) =
      list_ex (\<lambda>r. tr_id r = i \<and> stale_run now ttl r) (turn_runs db)" if "i \<in> set ids" for i
  proof -
    have "i \<noteq> t" using that Cons.prems(2) by auto
    then show ?thesis by (auto simp: list_ex_iff db1_def set_update_where image_iff)
  qed
  have "update_where (\<lambda>r. tr_id r \<in> set ids \<and> stale_run now ttl r) (abandon now) (turn_runs db1) =
      update_where (\<lambda>r. tr_id r \<in> set (t # ids) \<and> stale_run now ttl r) (abandon now) (turn_runs db)"
    unfolding db1_def by (simp add: update_where_or) (simp add: conj_disj_distribR)
  then have upd: "db1\<lparr>turn_runs := update_where (\<lambda>r. tr_id r \<in> set ids \<and> stale_run now ttl r) (abandon now) (turn_runs db1)\<rparr> =
      db\<lparr>turn_runs := update_where (\<lambda>r. tr_id r \<in> set (t # ids) \<and> stale_run now ttl r) (abandon now) (turn_runs db)\<rparr>"
    by (simp add: db1_def)
  have "filter (\<lambda>i. list_ex (\<lambda>r. tr_id r = i \<and> stale_run now ttl r) (turn_runs db1)) ids =
      filter (\<lambda>i. list_ex (\<lambda>r. tr_id r = i \<and> stale_run now ttl r) (turn_runs db)) ids"
    by (rule filter_cong [OF refl]) (rule keep)
  then show ?case
    using Cons.IH [OF ok] Cons.prems(2) upd by (simp add: rec)
qed

lemma update_where_cong: "(\<And>r. r \<in> set rs \<Longrightarrow> p r = q r) \<Longrightarrow> update_where p f rs = update_where q f rs"
  by (simp add: update_where_def)

lemma map_filter_map: "(\<And>x. x \<in> set xs \<Longrightarrow> f (g x) = Some (h x)) \<Longrightarrow> List.map_filter f (map g xs) = map h xs"
  by (induction xs) (simp_all add: List.map_filter_simps)

text \<open>A reclaim abandons exactly the stale active runs of its scope and returns them.\<close>

lemma reclaim_stale_effect:
  assumes ok: "runs_ok (turn_runs db)"
    and p_def: "p = (\<lambda>r. stale_run now ttl r \<and> reclaim_scope app acc sess r)"
  shows "reclaim_stale_runtime_turn_runs now ttl app acc sess db =
    (map (abandon now) (filter p (turn_runs db)),
     db\<lparr>turn_runs := update_where p (abandon now) (turn_runs db)\<rparr>)"
proof -
  let ?rs = "turn_runs db" and ?ids = "map tr_id (filter p (turn_runs db))"
  define db' where "db' = db\<lparr>turn_runs := update_where p (abandon now) ?rs\<rparr>"
  have u: "unique_on (\<lambda>_. True) tr_id ?rs" using ok by (simp add: runs_ok_def)
  then have dist: "distinct ?ids" unfolding unique_on_def by (simp add: distinct_map_filter)
  have "update_where (\<lambda>r. tr_id r \<in> set ?ids \<and> stale_run now ttl r) (abandon now) ?rs = update_where p (abandon now) ?rs"
    by (rule update_where_cong) (auto simp: p_def dest: runs_ok_ids [OF ok])
  moreover have "filter (\<lambda>i. list_ex (\<lambda>r. tr_id r = i \<and> stale_run now ttl r) ?rs) ?ids = ?ids"
    by (auto simp: filter_id_conv list_ex_iff p_def)
  ultimately have run: "reclaim_runs now ttl ?ids db = (?ids, db')"
    using reclaim_runs_effect [OF ok dist, of now ttl] by (simp add: db'_def)
  have "get_runtime_turn_run (tr_id r) db' = Some (abandon now r)" if "r \<in> set (filter p ?rs)" for r
  proof -
    have "get_runtime_turn_run (tr_id r) db = Some r" using that by (simp add: get_run_iff [OF ok])
    then show ?thesis using that by (simp add: get_runtime_turn_run_def db'_def find_row_update)
  qed
  then have "List.map_filter (\<lambda>t. get_runtime_turn_run t db') ?ids = map (abandon now) (filter p ?rs)"
    by (rule map_filter_map)
  with run show ?thesis
    by (simp add: reclaim_stale_runtime_turn_runs_def p_def [symmetric] db'_def [symmetric])
qed

lemma create_fresh:
  assumes "insert_turn_run r db = Inr db'"
  shows "create_runtime_turn_run r db = (Inr (r, True), db')"
proof -
  have "find_row (\<lambda>x. tr_id x = tr_id r) (turn_runs db) = None"
    using assms unfolding insert_turn_run_Inr find_row_None by (metis imageI)
  then have "get_runtime_turn_run (tr_id r) db' = Some r"
    using assms by (auto simp: insert_turn_run_Inr get_runtime_turn_run_def find_row_append)
  with assms show ?thesis by (simp add: create_runtime_turn_run_def)
qed

text \<open>What a run still tells its workers once its cancellation is requested.\<close>

lemma cancel_kept:
  assumes "turn_step\<^sup>*\<^sup>* db db'" and "runs_ok (turn_runs db)" and "get_runtime_turn_run t db = Some r"
    and "tr_cancel_requested r \<noteq> None"
  shows "\<exists>r'. get_runtime_turn_run t db' = Some r' \<and> tr_cancel_requested r' \<noteq> None"
  using assms(1)
proof (induction rule: rtranclp_induct)
  case base
  then show ?case using assms(3,4) by blast
next
  case (step y z)
  then obtain r' where r': "get_runtime_turn_run t y = Some r'" "tr_cancel_requested r' \<noteq> None" by blast
  from step.hyps(2) r'(1) show ?case
  proof (cases rule: turn_step_look)
    case (2 f)
    then show ?thesis using r'(2) by (simp add: run_update_def)
  qed (use r' in blast)
qed

lemma cancel_requested_row:
  assumes ok: "runs_ok (turn_runs db)" and c: "request_runtime_turn_cancel now t app acc sess db = (True, db1)"
  obtains r where "get_runtime_turn_run t db1 = Some r" and "tr_cancel_requested r \<noteq> None"
proof -
  let ?q = "\<lambda>r. tr_app r = app \<and> tr_account r = acc \<and> tr_session r = sess \<and> run_active r"
  have c1: "count_where (\<lambda>r. tr_id r = t \<and> ?q r) (turn_runs db) = 1"
    and rows: "turn_runs db1 = update_where (\<lambda>r. tr_id r = t \<and> ?q r)
      (\<lambda>r. r\<lparr>tr_cancel_requested := coalesce (tr_cancel_requested r) now, tr_updated := now\<rparr>) (turn_runs db)"
    using c by (auto simp: request_runtime_turn_cancel_def update_turn_runs_def)
  from count_where_one [OF c1] obtain r where r: "r \<in> set (turn_runs db)" "tr_id r = t" "?q r" by blast
  then have "get_runtime_turn_run t db = Some r" by (simp add: get_run_iff [OF ok])
  then have "get_runtime_turn_run t db1 =
      Some (r\<lparr>tr_cancel_requested := coalesce (tr_cancel_requested r) now, tr_updated := now\<rparr>)"
    using r(2,3) by (simp add: get_runtime_turn_run_def rows find_row_update)
  then show ?thesis by (rule that) (simp add: coalesce_def split: option.splits)
qed

end
