(* ===== verification/Plum_Turns.thy ===== *)
theory Plum_Turns
imports Turn_Runs Reservations
begin

text \<open>
  The paid streaming turn of Plum (\<^verbatim>\<open>app/products/plum/api/app.py\<close>): the request reserves
  the price of a turn, creates a turn run, and streams the runtime's events to the client; each way
  the stream can end settles the run and keeps or gives back the reservation. The wallet, the turn
  runs and the Plum tables are one database. The language model and its configuration are outside
  the model: a provider is an argument, and the events the runtime yields are the input of the
  stream.
\<close>

section \<open>The Plum tables\<close>

record conversation =
  pc_id :: string
  pc_user :: string
  pc_character :: string
  pc_account :: string
  pc_session :: int
  pc_model :: string
  pc_status :: string
  pc_updated :: int

record model_profile =
  mp_profile :: string
  mp_provider :: string
  mp_cost :: int
  mp_enabled :: int
  mp_version :: int

record plum_db = turn_db +
  characters :: "string list"
  conversations :: "conversation list"
  model_profiles :: "model_profile list"

definition get_conversation :: "string \<Rightarrow> string \<Rightarrow> 'a plum_db_scheme \<Rightarrow> conversation option" where
  "get_conversation conversation_id u db =
     find_row (\<lambda>c. pc_id c = conversation_id \<and> pc_user c = u \<and> pc_status c = ''active'' \<and>
       pc_character c \<in> set (characters db)) (conversations db)"

definition get_model_profile :: "string \<Rightarrow> 'a plum_db_scheme \<Rightarrow> model_profile option" where
  "get_model_profile profile db =
     find_row (\<lambda>p. mp_profile p = profile \<and> mp_enabled p = 1) (model_profiles db)"

definition touch_conversation :: "int \<Rightarrow> string \<Rightarrow> string \<Rightarrow> 'a plum_db_scheme \<Rightarrow> 'a plum_db_scheme" where
  "touch_conversation now conversation_id u db = db\<lparr>conversations := update_where
     (\<lambda>c. pc_id c = conversation_id \<and> pc_user c = u \<and> pc_status c = ''active'')
     (\<lambda>c. c\<lparr>pc_updated := now\<rparr>) (conversations db)\<rparr>"

definition get_entry_account_id :: "string \<Rightarrow> 'a identity_db_scheme \<Rightarrow> string res" where
  "get_entry_account_id u db =
     (case find_row (\<lambda>x. ro_user x = u \<and> ro_app x = PLUM_APP_ID \<and> ro_source_type x = ''product_entry'' \<and>
          ro_source x = u \<and> ro_status x = ''active'') (ownerships db) of
        None \<Rightarrow> Inl (ValueError ''plum user setup required'')
      | Some x \<Rightarrow> Inr (ro_account x))"

text \<open>The wallet shown to the client: whole coins and micros. It only reads.\<close>

definition plum_wallet :: "registry \<Rightarrow> string \<Rightarrow> 'a wallet_db_scheme \<Rightarrow> (int \<times> int) res" where
  "plum_wallet reg u db = and_then (get_entry_account_id u db) (\<lambda>acc.
     and_then (get_wallet_summary reg 0 [] [] acc False False db) (\<lambda>(summary, _).
       case summary of None \<Rightarrow> Inl (DomainError ''503 wallet_not_found'')
       | Some s \<Rightarrow> let b = w_balance (wv_row (ws_wallet s)) in Inr (b div 1000000, b)))"

section \<open>Requests\<close>

text \<open>
  The time and the fresh row ids of the transactions made at one point of a request; a failed
  transaction uses none of its ids up.
\<close>

record stamp =
  st_now :: int
  st_wallet :: string
  st_ledger :: string

text \<open>What the closures of the stream refer to.\<close>

record turn_ctx =
  tc_conversation :: string
  tc_account :: string
  tc_user :: string
  tc_session :: int
  tc_turn :: string
  tc_key :: string
  tc_cost :: int

definition release_stream_reservation ::
  "registry \<Rightarrow> stamp \<Rightarrow> string \<Rightarrow> string \<Rightarrow> string \<Rightarrow> 'a wallet_db_scheme \<Rightarrow>
     ledger_view res \<times> 'a wallet_db_scheme" where
  "release_stream_reservation reg s acc u key =
     run_tx (release_fixed_shell_reservation reg (st_now s) (st_wallet s) (st_ledger s) acc u key)"

definition reservation_key_of :: "string \<Rightarrow> string \<Rightarrow> string" where
  "reservation_key_of conversation_id request_id = ''plum-turn:'' @ conversation_id @ '':'' @ request_id"

text \<open>
  \<open>_reclaim_stale_stream_runs\<close>: runs that showed nothing to the client are refunded. A
  \<open>ValueError\<close> of the refund is logged and passed over, any other error stops the request.
\<close>

fun refund_reclaimed ::
  "registry \<Rightarrow> (nat \<Rightarrow> stamp) \<Rightarrow> string \<Rightarrow> string \<Rightarrow> string \<Rightarrow> turn_run list \<Rightarrow> 'a wallet_db_scheme \<Rightarrow>
     unit res \<times> 'a wallet_db_scheme" where
  "refund_reclaimed reg stamps conversation_id acc u [] db = (Inr (), db)"
| "refund_reclaimed reg stamps conversation_id acc u (r # rs) db =
     (if tr_first_delta r \<noteq> None then refund_reclaimed reg stamps conversation_id acc u rs db
      else case release_stream_reservation reg (stamps (length rs)) acc u
          (reservation_key_of conversation_id (tr_idempotency r)) db of
        (Inl e, db') \<Rightarrow> (case e of
            ValueError m \<Rightarrow> refund_reclaimed reg stamps conversation_id acc u rs db'
          | _ \<Rightarrow> (Inl e, db'))
      | (Inr _, db') \<Rightarrow> refund_reclaimed reg stamps conversation_id acc u rs db')"

definition reclaim_stale_stream_runs ::
  "registry \<Rightarrow> int \<Rightarrow> (nat \<Rightarrow> stamp) \<Rightarrow> conversation \<Rightarrow> string \<Rightarrow> 'a turn_db_scheme \<Rightarrow>
     unit res \<times> 'a turn_db_scheme" where
  "reclaim_stale_stream_runs reg now stamps c u db =
     (case reclaim_stale_runtime_turn_runs now 600 (Some PLUM_APP_ID) (Some (pc_account c))
         (Some (pc_session c)) db of
        (reclaimed, db1) \<Rightarrow> refund_reclaimed reg stamps (pc_id c) (pc_account c) u reclaimed db1)"

text \<open>
  The outcome of a request: an HTTP error, the replay of a completed turn, an exception, or an open
  stream. Status codes are the code's.
\<close>

datatype 'c answer = Http nat string | Replay turn_run | Raised err | Open 'c

text \<open>
  \<open>create_turn_stream\<close> up to the creation of the run, from the conversation's row on: reclaim,
  answer a known request id, reserve, create. \<open>provider\<close> is the configured provider of the model
  profile (\<open>None\<close> when there is none or it is disabled) with its id and model; \<open>replayable\<close> is whether the
  reply of the message is on record.
\<close>

definition reserve_metadata :: "model_profile \<Rightarrow> dict" where
  "reserve_metadata p = [(''model_profile'', JStr (mp_profile p)), (''provider_id'', JStr (mp_provider p)),
     (''config_version'', JInt (mp_version p)), (''transport'', JStr ''sse'')]"

definition start_run ::
  "registry \<Rightarrow> stamp \<Rightarrow> string \<Rightarrow> string \<Rightarrow> string option \<Rightarrow> string option \<Rightarrow> string \<Rightarrow> turn_ctx \<Rightarrow>
     'a turn_db_scheme \<Rightarrow> turn_ctx answer \<times> 'a turn_db_scheme" where
  "start_run reg s request_id client_message_id provider_id model_ref app c db =
     (case create_runtime_turn_run (accepted_run (st_now s) (tc_turn c) app (tc_account c)
         (tc_session c) client_message_id request_id provider_id model_ref) db of
        (Inl ActiveRuntimeTurnError, db1) \<Rightarrow>
          (case release_stream_reservation reg s (tc_account c) (tc_user c) (tc_key c) db1 of
             (Inl e, db2) \<Rightarrow> (Raised e, db2)
           | (Inr _, db2) \<Rightarrow> (Http 409 ''conversation_turn_active'', db2))
      | (Inl _, db1) \<Rightarrow>
          (case finish_runtime_turn_run (st_now s) (tc_turn c) ''failed'' None None
              (Some ''runtime_turn_initialization_failed'') db1 of (_, db2) \<Rightarrow>
            (case release_stream_reservation reg s (tc_account c) (tc_user c) (tc_key c) db2 of
               (Inl e, db3) \<Rightarrow> (Raised e, db3)
             | (Inr _, db3) \<Rightarrow> (Http 503 ''runtime_turn_unavailable'', db3)))
      | (Inr (_, created), db1) \<Rightarrow>
          (if created then (Open c, db1) else (Http 409 ''turn_idempotency_conflict'', db1)))"

definition create_turn_stream ::
  "registry \<Rightarrow> bool \<Rightarrow> (nat \<Rightarrow> stamp) \<Rightarrow> stamp \<Rightarrow> stamp \<Rightarrow> (string \<Rightarrow> (string \<times> string) option) \<Rightarrow>
     (string \<Rightarrow> string \<Rightarrow> bool) \<Rightarrow> string \<Rightarrow> string \<Rightarrow> string \<Rightarrow> string \<Rightarrow> string \<Rightarrow> string \<Rightarrow>
     'a plum_db_scheme \<Rightarrow> turn_ctx answer \<times> 'a plum_db_scheme" where
  "create_turn_stream reg streaming_enabled stamps s1 s2 provider replayable turn_id conversation_id u
     text idempotency_key client_message db =
     (if \<not> streaming_enabled then (Http 503 ''chat_streaming_disabled'', db)
      else if py_strip text = [] then (Http 422 ''message_empty'', db)
      else let request_id = py_strip idempotency_key; client_message_id = py_strip client_message in
      case get_conversation conversation_id u db of
        None \<Rightarrow> (Http 404 ''conversation_not_found'', db)
      | Some c \<Rightarrow> (case get_model_profile (pc_model c) db of
          None \<Rightarrow> (Http 503 ''model_profile_unavailable'', db)
        | Some p \<Rightarrow> (case provider (mp_provider p) of
            None \<Rightarrow> (Http 503 ''model_provider_unavailable'', db)
          | Some (pid, pmodel) \<Rightarrow>
            (case reclaim_stale_stream_runs reg (st_now s1) stamps c u db of
              (Inl e, db1) \<Rightarrow> (Raised e, db1)
            | (Inr _, db1) \<Rightarrow>
              (case get_runtime_turn_run_by_idempotency PLUM_APP_ID (pc_account c) request_id db1 of
                Some r \<Rightarrow>
                  (if tr_status r \<noteq> ''completed'' then (Http 409 ''turn_idempotency_conflict'', db1)
                   else if \<not> replayable (pc_account c) client_message_id
                     then (Http 409 ''turn_replay_unavailable'', db1)
                   else (Replay r, db1))
              | None \<Rightarrow>
                (let key = reservation_key_of conversation_id request_id
                 in case run_tx (reserve_fixed_shells reg (st_now s1) (st_wallet s1) (st_ledger s1)
                     (pc_account c) u (mp_cost p) key (Some conversation_id) (reserve_metadata p)) db1 of
                  (Inl InsufficientWalletBalance, db2) \<Rightarrow> (Http 402 ''insufficient_coins'', db2)
                | (Inl FixedShellReservationReleased, db2) \<Rightarrow>
                    (Http 409 ''idempotency_key_already_released'', db2)
                | (Inl e, db2) \<Rightarrow> (Raised e, db2)
                | (Inr _, db2) \<Rightarrow> start_run reg s2 request_id client_message_id (Some pid) (Some pmodel) PLUM_APP_ID
                    \<lparr>tc_conversation = conversation_id, tc_account = pc_account c, tc_user = u,
                     tc_session = pc_session c, tc_turn = turn_id, tc_key = key, tc_cost = mp_cost p\<rparr> db2))))))"

section \<open>The stream\<close>

text \<open>
  The events of \<open>run_product_turn_stream\<close> the handler tells apart, and the messages it sends with
  the coins they show as charged. \<open>deduplicated\<close> is handled as \<open>failed\<close>.
\<close>

datatype turn_event =
    EvAccepted
  | EvDelta string
  | EvCompleted "string option"
  | EvCancelled "string option"
  | EvFailed "string option"
  | EvOther

datatype sse = SAccepted | SDelta string | SCompleted int | SCancelled int | SFailed string int

text \<open>
  The local variables of the generator; \<open>sm_refund\<close> is the outcome of its last call of
  \<open>_release_stream_reservation\<close>.
\<close>

record stream_state =
  sm_saw :: bool
  sm_settled :: bool
  sm_refund :: "ledger_view res option"
  sm_out :: "sse list"

definition stream_init :: stream_state where
  "stream_init = \<lparr>sm_saw = False, sm_settled = False, sm_refund = None, sm_out = []\<rparr>"

definition stream_release ::
  "registry \<Rightarrow> stamp \<Rightarrow> turn_ctx \<Rightarrow> stream_state \<Rightarrow> 'a wallet_db_scheme \<Rightarrow>
     err option \<times> stream_state \<times> 'a wallet_db_scheme" where
  "stream_release reg s c st db =
     (case release_stream_reservation reg s (tc_account c) (tc_user c) (tc_key c) db of
        (Inl e, db') \<Rightarrow> (Some e, st\<lparr>sm_refund := Some (Inl e)\<rparr>, db')
      | (Inr v, db') \<Rightarrow> (None, st\<lparr>sm_refund := Some (Inr v)\<rparr>, db'))"

definition stream_finish ::
  "stamp \<Rightarrow> turn_ctx \<Rightarrow> string \<Rightarrow> string option \<Rightarrow> string option \<Rightarrow> string option \<Rightarrow>
     'a turn_db_scheme \<Rightarrow> 'a turn_db_scheme" where
  "stream_finish s c status message_id reason code db =
     snd (finish_runtime_turn_run (st_now s) (tc_turn c) status message_id reason code db)"

text \<open>A message that carries the wallet: reading it may raise, after the turn has been settled.\<close>

definition stream_show ::
  "registry \<Rightarrow> turn_ctx \<Rightarrow> sse \<Rightarrow> stream_state \<Rightarrow> 'a wallet_db_scheme \<Rightarrow>
     err option \<times> stream_state \<times> 'a wallet_db_scheme" where
  "stream_show reg c msg st db = (case plum_wallet reg (tc_user c) db of
     Inl e \<Rightarrow> (Some e, st, db) | Inr _ \<Rightarrow> (None, st\<lparr>sm_out := sm_out st @ [msg]\<rparr>, db))"

definition charged_coins :: "turn_ctx \<Rightarrow> int" where
  "charged_coins c = tc_cost c div 1000000"

text \<open>The body of the loop for one event: an exception it raises, or none.\<close>

fun stream_event ::
  "registry \<Rightarrow> stamp \<Rightarrow> turn_ctx \<Rightarrow> turn_event \<Rightarrow> stream_state \<Rightarrow> 'a plum_db_scheme \<Rightarrow>
     err option \<times> stream_state \<times> 'a plum_db_scheme" where
  "stream_event reg s c EvAccepted st db = (None, st\<lparr>sm_out := sm_out st @ [SAccepted]\<rparr>, db)"
| "stream_event reg s c (EvDelta text) st db =
     (None, st\<lparr>sm_saw := True, sm_out := sm_out st @ [SDelta text]\<rparr>, db)"
| "stream_event reg s c (EvCompleted message_id) st db =
     stream_show reg c (SCompleted (charged_coins c)) (st\<lparr>sm_settled := True\<rparr>)
       (touch_conversation (st_now s) (tc_conversation c) (tc_user c)
         (stream_finish s c ''completed'' message_id (Some ''stop'') None db))"
| "stream_event reg s c (EvCancelled message_id) st db =
     (let db1 = stream_finish s c ''cancelled'' message_id (Some ''client_cancelled'') None db
      in case (if \<not> sm_saw st then stream_release reg s c st db1
               else (None, st, touch_conversation (st_now s) (tc_conversation c) (tc_user c) db1)) of
        (Some e, st1, db2) \<Rightarrow> (Some e, st1, db2)
      | (None, st1, db2) \<Rightarrow> stream_show reg c (SCancelled (if sm_saw st then charged_coins c else 0))
          (st1\<lparr>sm_settled := True\<rparr>) db2)"
| "stream_event reg s c (EvFailed code) st db =
     (let error_code = (case code of None \<Rightarrow> ''runtime_stream_failed''
            | Some t \<Rightarrow> if t = [] then ''runtime_stream_failed'' else t);
          db1 = stream_finish s c ''failed'' None None (Some error_code) db
      in case stream_release reg s c st db1 of
        (Some e, st1, db2) \<Rightarrow> (Some e, st1, db2)
      | (None, st1, db2) \<Rightarrow> stream_show reg c (SFailed error_code 0) (st1\<lparr>sm_settled := True\<rparr>) db2)"
| "stream_event reg s c EvOther st db = (None, st, db)"

text \<open>The \<open>except Exception\<close> clause, which may itself raise.\<close>

definition stream_except ::
  "registry \<Rightarrow> stamp \<Rightarrow> turn_ctx \<Rightarrow> stream_state \<Rightarrow> 'a plum_db_scheme \<Rightarrow>
     err option \<times> stream_state \<times> 'a plum_db_scheme" where
  "stream_except reg s c st db =
     (case (if \<not> sm_settled st
            then (case stream_release reg s c st
                (stream_finish s c ''failed'' None None (Some ''stream_internal_error'') db) of
              (Some e, st1, db1) \<Rightarrow> (Some e, st1, db1)
            | (None, st1, db1) \<Rightarrow> (None, st1\<lparr>sm_settled := True\<rparr>, db1))
            else (None, st, db)) of
        (Some e, st1, db1) \<Rightarrow> (Some e, st1, db1)
      | (None, st1, db1) \<Rightarrow> stream_show reg c (SFailed ''stream_internal_error'' 0) st1 db1)"

text \<open>
  The \<open>finally\<close> clause. \<open>closing\<close> is what the runtime commits when its generator is closed.
\<close>

definition stream_finally ::
  "registry \<Rightarrow> stamp \<Rightarrow> turn_ctx \<Rightarrow> ('a plum_db_scheme \<Rightarrow> 'a plum_db_scheme) \<Rightarrow> stream_state \<Rightarrow> 'a plum_db_scheme \<Rightarrow>
     stream_state \<times> 'a plum_db_scheme" where
  "stream_finally reg s c closing st db =
     (let db0 = closing db
      in if sm_settled st then (st, db0)
      else let db1 = (case get_runtime_turn_run (tc_turn c) db0 of
              None \<Rightarrow> db0
            | Some r \<Rightarrow> if run_active r
                then stream_finish s c ''cancelled'' None (Some ''client_disconnected'') None db0 else db0)
      in if sm_saw st then (st, touch_conversation (st_now s) (tc_conversation c) (tc_user c) db1)
         else snd (stream_release reg s c st db1))"

text \<open>An exception in the loop: the \<open>except\<close> clause, then the \<open>finally\<close> clause, whether or not the former raised.\<close>

definition stream_recover ::
  "registry \<Rightarrow> stamp \<Rightarrow> turn_ctx \<Rightarrow> ('a plum_db_scheme \<Rightarrow> 'a plum_db_scheme) \<Rightarrow> stream_state \<Rightarrow> 'a plum_db_scheme \<Rightarrow> stream_state \<times> 'a plum_db_scheme" where
  "stream_recover reg s c closing st db =
     (case stream_except reg s c st db of (_, st1, db1) \<Rightarrow> stream_finally reg s c closing st1 db1)"

text \<open>
  What the generator meets, in order: an event, the transactions of other workers (the runtime that
  produces the events among them), an exception of the runtime, or the client going away, which
  raises \<open>GeneratorExit\<close> at a \<open>yield\<close> and so passes the \<open>except\<close> clause by. When the inputs are used up
  the runtime has ended. The transactions at \<open>n\<close> inputs from the end carry the stamp \<open>stamps n\<close>.
\<close>

datatype 'db stream_input = Event turn_event | Others "'db \<Rightarrow> 'db" | Crash | Disconnect

fun run_stream ::
  "registry \<Rightarrow> (nat \<Rightarrow> stamp) \<Rightarrow> turn_ctx \<Rightarrow> ('a plum_db_scheme \<Rightarrow> 'a plum_db_scheme) \<Rightarrow>
     'a plum_db_scheme stream_input list \<Rightarrow> stream_state \<Rightarrow>
     'a plum_db_scheme \<Rightarrow> stream_state \<times> 'a plum_db_scheme" where
  "run_stream reg stamps c closing [] st db = stream_finally reg (stamps 0) c closing st db"
| "run_stream reg stamps c closing (x # xs) st db =
     (let s = stamps (Suc (length xs))
      in case x of
        Others f \<Rightarrow> run_stream reg stamps c closing xs st (f db)
      | Disconnect \<Rightarrow> stream_finally reg s c closing st db
      | Crash \<Rightarrow> stream_recover reg s c closing st db
      | Event ev \<Rightarrow> (case stream_event reg s c ev st db of
            (None, st1, db1) \<Rightarrow> run_stream reg stamps c closing xs st1 db1
          | (Some _, st1, db1) \<Rightarrow> stream_recover reg s c closing st1 db1))"

text \<open>
  The generator starts when the server asks for its first message. A client that goes away before that
  closes a generator that has not started: Python runs none of its code, the \<open>finally\<close> clause neither.
\<close>

fun serve_stream ::
  "registry \<Rightarrow> (nat \<Rightarrow> stamp) \<Rightarrow> turn_ctx \<Rightarrow> ('a plum_db_scheme \<Rightarrow> 'a plum_db_scheme) \<Rightarrow>
     'a plum_db_scheme stream_input list \<Rightarrow> 'a plum_db_scheme \<Rightarrow> stream_state \<times> 'a plum_db_scheme" where
  "serve_stream reg stamps c closing (Disconnect # xs) db = (stream_init, db)"
| "serve_stream reg stamps c closing (Others f # xs) db = serve_stream reg stamps c closing xs (f db)"
| "serve_stream reg stamps c closing xs db = run_stream reg stamps c closing xs stream_init db"

section \<open>Cancelling\<close>

record cancel_answer =
  ca_turn :: string
  ca_requested :: bool
  ca_status :: string

definition cancel_turn_stream ::
  "registry \<Rightarrow> int \<Rightarrow> string \<Rightarrow> string \<Rightarrow> string \<Rightarrow> 'a plum_db_scheme \<Rightarrow>
     cancel_answer answer \<times> 'a plum_db_scheme" where
  "cancel_turn_stream reg now conversation_id request_id u db =
     (case get_conversation conversation_id u db of
        None \<Rightarrow> (Http 404 ''conversation_not_found'', db)
      | Some c \<Rightarrow>
          (case get_runtime_turn_run_by_idempotency PLUM_APP_ID (pc_account c) request_id db of
             None \<Rightarrow> (Http 404 ''turn_not_found'', db)
           | Some r \<Rightarrow> if tr_session r \<noteq> pc_session c then (Http 404 ''turn_not_found'', db)
               else (case request_runtime_turn_cancel now (tr_id r) PLUM_APP_ID (pc_account c) (pc_session c) db of
                 (requested, db1) \<Rightarrow>
                   (let current = (case get_runtime_turn_run (tr_id r) db1 of None \<Rightarrow> r | Some x \<Rightarrow> x)
                    in case plum_wallet reg u db1 of
                         Inl e \<Rightarrow> (Raised e, db1)
                       | Inr _ \<Rightarrow> (Open \<lparr>ca_turn = tr_id r,
                           ca_requested = (requested \<or> tr_cancel_requested current \<noteq> None),
                           ca_status = tr_status current\<rparr>, db1)))))"

end
