(* ===== verification/Plum_Laws.thy ===== *)
theory Plum_Laws
imports Plum_Turns
begin

text \<open>
  What the paths of the Plum stream do to the run and to the reservation: the wallet operations
  leave the turn runs alone, each clause of the stream is a history of turn-run transactions, a
  settled stream has a finished run, and the release is called exactly on the paths that owe one.
\<close>

section \<open>Wallet operations leave the runs alone\<close>

lemma add_balance_more: "add_balance p amt now db = Inr db' \<Longrightarrow> wallet_db.more db' = wallet_db.more db"
  by (auto simp: add_balance_def split: if_splits)

lemma insert_ledger_more: "insert_ledger l db = Inr db' \<Longrightarrow> wallet_db.more db' = wallet_db.more db"
  by (auto simp: insert_ledger_def and_then_Inr split: if_splits)

definition more_kept :: "'a wallet_db_scheme \<Rightarrow> 'b \<times> 'a wallet_db_scheme \<Rightarrow> bool" where
  "more_kept db r = (wallet_db.more (snd r) = wallet_db.more db)"

lemma apply_more: "res_all (more_kept db) (apply_wallet_ledger reg now wid lid po db)"
  unfolding apply_wallet_ledger_def Let_def
  by (auto simp: more_kept_def intro!: res_all_bind split: option.split
      dest!: ensure_wallet_frame(5) add_balance_more insert_ledger_more)

lemma release_more: "res_all (more_kept db) (release_fixed_shell_reservation reg now wid lid acc u key db)"
  unfolding release_fixed_shell_reservation_def
  by (auto simp: more_kept_def intro!: res_all_bind split: option.split dest!: res_allD [OF apply_more])

lemma turn_more: "wallet_db.more s = wallet_db.more t \<Longrightarrow> turn_runs s = turn_runs t"
  by (cases s, cases t) simp

lemma release_stream_runs:
  "turn_runs (snd (release_stream_reservation reg s acc u key db)) = turn_runs db"
  using release_more [of db reg "st_now s" "st_wallet s" "st_ledger s" acc u key]
  by (cases "release_fixed_shell_reservation reg (st_now s) (st_wallet s) (st_ledger s) acc u key db")
    (auto simp: release_stream_reservation_def run_tx_def more_kept_def intro: turn_more)

section \<open>A settled stream has a finished run\<close>

definition run_idle :: "string \<Rightarrow> 'a turn_db_scheme \<Rightarrow> bool" where
  "run_idle t db = (case get_runtime_turn_run t db of None \<Rightarrow> False | Some r \<Rightarrow> \<not> run_active r)"

lemma run_idle_cong: "turn_runs s = turn_runs t \<Longrightarrow> run_idle k s = run_idle k t"
  by (simp add: run_idle_def get_runtime_turn_run_def)

lemma run_idle_iff: "run_idle t db \<longleftrightarrow> (\<exists>r. get_runtime_turn_run t db = Some r \<and> run_stage r = 2)"
  by (auto simp: run_idle_def run_stage_active run_stage_def split: option.splits)

lemma reach_idle:
  "turn_step\<^sup>*\<^sup>* db db' \<Longrightarrow> runs_ok (turn_runs db) \<Longrightarrow> run_idle t db \<Longrightarrow> run_idle t db'"
  unfolding run_idle_iff using turns.reach_frozen by blast

lemma reach_present:
  "turn_step\<^sup>*\<^sup>* db db' \<Longrightarrow> runs_ok (turn_runs db) \<Longrightarrow> get_runtime_turn_run t db \<noteq> None \<Longrightarrow>
     get_runtime_turn_run t db' \<noteq> None"
  using turns.reach_kept by fastforce

lemma finish_idle:
  assumes "get_runtime_turn_run (tc_turn c) db \<noteq> None" and "status \<in> set terminal_statuses"
  shows "run_idle (tc_turn c) (stream_finish s c status mid reason code db)"
proof -
  obtain r where r: "get_runtime_turn_run (tc_turn c) db = Some r" using assms(1) by blast
  then have "tr_id r = tc_turn c" using find_row_Some by (fastforce simp: get_runtime_turn_run_def)
  moreover have "run_active (r\<lparr>tr_status := status, tr_assistant_message := mid, tr_finish_reason := reason,
      tr_error := code, tr_updated := st_now s, tr_completed := Some (st_now s)\<rparr>) = False"
    using assms(2) by (auto simp: run_active_def status_lists)
  ultimately show ?thesis using r assms(2)
    by (simp add: run_idle_def stream_finish_def get_runtime_turn_run_def finish_rows find_row_update)
qed

text \<open>
  The invariant of the generator: its run exists in a table in order, and is finished once the
  stream is settled. \<open>calm\<close> collects what a clause does to it.
\<close>

definition stream_inv :: "turn_ctx \<Rightarrow> stream_state \<Rightarrow> 'a turn_db_scheme \<Rightarrow> bool" where
  "stream_inv c st db = (runs_ok (turn_runs db) \<and> get_runtime_turn_run (tc_turn c) db \<noteq> None \<and>
     (sm_settled st \<longrightarrow> run_idle (tc_turn c) db))"

lemma stream_inv_cong:
  "turn_runs s = turn_runs t \<Longrightarrow> stream_inv c st s = stream_inv c st t"
  by (simp add: stream_inv_def get_runtime_turn_run_def run_idle_def)

lemma stream_inv_reach: "turn_step\<^sup>*\<^sup>* db db' \<Longrightarrow> stream_inv c st db \<Longrightarrow> stream_inv c st db'"
  unfolding stream_inv_def using reach_idle reach_present turns.reach_inv by blast

lemma stream_inv_finish:
  assumes "stream_inv c st db" and "status \<in> set terminal_statuses"
  shows "stream_inv c st' (stream_finish s c status mid reason code db)"
    and "run_idle (tc_turn c) (stream_finish s c status mid reason code db)"
proof -
  show i: "run_idle (tc_turn c) (stream_finish s c status mid reason code db)"
    using assms by (intro finish_idle) (simp_all add: stream_inv_def)
  have "turn_step db (stream_finish s c status mid reason code db)"
    unfolding stream_finish_def by (rule turn_step.finish)
  then have "turn_step\<^sup>*\<^sup>* db (stream_finish s c status mid reason code db)" by blast
  from stream_inv_reach [OF this assms(1)] show "stream_inv c st' (stream_finish s c status mid reason code db)"
    using i by (simp add: stream_inv_def)
qed

lemma touch_runs [simp]: "turn_runs (touch_conversation now cid u db) = turn_runs db"
  by (simp add: touch_conversation_def)

lemma stream_release_eq:
  obtains e v db' where "stream_release reg s c st db = (e, st\<lparr>sm_refund := Some v\<rparr>, db')"
    and "turn_runs db' = turn_runs db"
proof -
  obtain v db' where v: "release_stream_reservation reg s (tc_account c) (tc_user c) (tc_key c) db = (v, db')"
    by (cases "release_stream_reservation reg s (tc_account c) (tc_user c) (tc_key c) db")
  then have "turn_runs db' = turn_runs db"
    using release_stream_runs [of reg s "tc_account c" "tc_user c" "tc_key c" db] by simp
  with v show ?thesis using that by (cases v) (simp_all add: stream_release_def)
qed

lemma stream_showD:
  assumes "stream_show reg c msg st db = (e, st', db')"
  shows "db' = db" "\<exists>out. st' = st\<lparr>sm_out := out\<rparr>"
  using assms by (cases "plum_wallet reg (tc_user c) db"; auto simp: stream_show_def intro: exI [of _ "sm_out st"])+

lemma terminals [simp]:
  "''completed'' \<in> set terminal_statuses" "''cancelled'' \<in> set terminal_statuses"
  "''failed'' \<in> set terminal_statuses"
  by (simp_all add: terminal_statuses_def)

lemma stream_event_inv:
  assumes i: "stream_inv c st db" and ev: "stream_event reg s c ev st db = (e, st', db')"
  shows "stream_inv c st' db'"
proof (cases ev)
  case EvAccepted
  then show ?thesis using i ev by (auto simp: stream_inv_def)
next
  case EvDelta
  then show ?thesis using i ev by (auto simp: stream_inv_def)
next
  case EvOther
  then show ?thesis using i ev by simp
next
  case (EvCompleted mid)
  let ?db = "touch_conversation (st_now s) (tc_conversation c) (tc_user c)
    (stream_finish s c ''completed'' mid (Some ''stop'') None db)"
  from ev EvCompleted have "db' = ?db" by (auto dest: stream_showD)
  moreover have "stream_inv c st'' ?db" for st''
    using stream_inv_finish(1) [OF i, of "''completed''" st''] by (subst stream_inv_cong [OF touch_runs]) simp
  ultimately show ?thesis by simp
next
  case (EvCancelled mid)
  define db1 where "db1 = stream_finish s c ''cancelled'' mid (Some ''client_cancelled'') None db"
  have f: "stream_inv c st'' db1" for st''
    unfolding db1_def by (rule stream_inv_finish(1) [OF i]) simp
  have "stream_inv c st'' db'"
    if "turn_runs db' = turn_runs db1" for st'' using f stream_inv_cong [OF that] by simp
  moreover have "turn_runs db' = turn_runs db1"
  proof (cases "sm_saw st")
    case True
    then show ?thesis using ev EvCancelled by (auto simp: db1_def [symmetric] dest: stream_showD)
  next
    case False
    obtain e1 v db2 where r: "stream_release reg s c st db1 = (e1, st\<lparr>sm_refund := Some v\<rparr>, db2)"
      and d2: "turn_runs db2 = turn_runs db1" by (rule stream_release_eq)
    show ?thesis
      using ev EvCancelled False r d2 by (cases e1) (auto simp: db1_def [symmetric] dest: stream_showD)
  qed
  ultimately show ?thesis by blast
next
  case (EvFailed code)
  define ec where "ec = (case code of None \<Rightarrow> ''runtime_stream_failed''
    | Some t \<Rightarrow> if t = [] then ''runtime_stream_failed'' else t)"
  define db1 where "db1 = stream_finish s c ''failed'' None None (Some ec) db"
  have f: "stream_inv c st'' db1" for st''
    unfolding db1_def by (rule stream_inv_finish(1) [OF i]) simp
  obtain e1 v db2 where r: "stream_release reg s c st db1 = (e1, st\<lparr>sm_refund := Some v\<rparr>, db2)"
    and d2: "turn_runs db2 = turn_runs db1" by (rule stream_release_eq)
  have "turn_runs db' = turn_runs db1"
    using ev EvFailed r d2
    by (cases e1) (auto simp: Let_def ec_def [symmetric] db1_def [symmetric] dest: stream_showD)
  then show ?thesis using f stream_inv_cong by blast
qed

lemma stream_except_inv:
  assumes i: "stream_inv c st db" and ev: "stream_except reg s c st db = (e, st', db')"
  shows "stream_inv c st' db'"
proof (cases "sm_settled st")
  case True
  then show ?thesis
    using i ev by (auto simp: stream_except_def stream_inv_def dest: stream_showD)
next
  case False
  define db1 where "db1 = stream_finish s c ''failed'' None None (Some ''stream_internal_error'') db"
  have f: "stream_inv c st'' db1" for st''
    unfolding db1_def by (rule stream_inv_finish(1) [OF i]) simp
  obtain e1 v db2 where r: "stream_release reg s c st db1 = (e1, st\<lparr>sm_refund := Some v\<rparr>, db2)"
    and d2: "turn_runs db2 = turn_runs db1" by (rule stream_release_eq)
  have "turn_runs db' = turn_runs db1"
    using ev False r d2 by (cases e1) (auto simp: stream_except_def db1_def [symmetric] dest: stream_showD)
  then show ?thesis using f stream_inv_cong by blast
qed

lemma stream_finally_idle:
  assumes i0: "stream_inv c st db" and cl: "turn_step\<^sup>*\<^sup>* db (closing db)"
  shows "run_idle (tc_turn c) (snd (stream_finally reg s c closing st db))"
proof (cases "sm_settled st")
  case True
  then show ?thesis using stream_inv_reach [OF cl i0] by (simp add: stream_inv_def stream_finally_def)
next
  case False
  define db0 where "db0 = closing db"
  have i: "stream_inv c st db0" unfolding db0_def by (rule stream_inv_reach [OF cl i0])
  define db1 where "db1 = (case get_runtime_turn_run (tc_turn c) db0 of
              None \<Rightarrow> db0
            | Some r \<Rightarrow> if run_active r
                then stream_finish s c ''cancelled'' None (Some ''client_disconnected'') None db0 else db0)"
  have idle: "run_idle (tc_turn c) db1"
  proof -
    obtain r where r: "get_runtime_turn_run (tc_turn c) db0 = Some r" using i by (auto simp: stream_inv_def)
    show ?thesis
    proof (cases "run_active r")
      case True
      then show ?thesis unfolding db1_def using r stream_inv_finish(2) [OF i] by simp
    next
      case False
      then show ?thesis unfolding db1_def using r by (simp add: run_idle_def)
    qed
  qed
  obtain e1 v db2 where r: "stream_release reg s c st db1 = (e1, st\<lparr>sm_refund := Some v\<rparr>, db2)"
    and d2: "turn_runs db2 = turn_runs db1" by (rule stream_release_eq)
  have "turn_runs (snd (stream_finally reg s c closing st db)) = turn_runs db1"
    using False r d2 by (simp add: stream_finally_def db0_def [symmetric] db1_def [symmetric])
  then show ?thesis using idle run_idle_cong by blast
qed

definition turn_traffic :: "'a plum_db_scheme stream_input \<Rightarrow> bool" where
  "turn_traffic x = (case x of Others f \<Rightarrow> (\<forall>db. turn_step\<^sup>*\<^sup>* db (f db)) | _ \<Rightarrow> True)"

lemma run_stream_idle:
  "list_all turn_traffic xs \<Longrightarrow> turn_traffic (Others closing) \<Longrightarrow> stream_inv c st db \<Longrightarrow>
     run_idle (tc_turn c) (snd (run_stream reg stamps c closing xs st db))"
proof (induction xs arbitrary: st db)
  case Nil
  then show ?case by (simp add: stream_finally_idle turn_traffic_def)
next
  case (Cons x xs)
  let ?s = "stamps (Suc (length xs))"
  have cl: "turn_step\<^sup>*\<^sup>* d (closing d)" for d using Cons.prems(2) by (simp add: turn_traffic_def)
  have stop: "run_idle (tc_turn c) (snd (stream_recover reg ?s c closing st' db'))" if "stream_inv c st' db'" for st' db'
    using stream_except_inv [OF that, of reg ?s] stream_finally_idle cl
    by (cases "stream_except reg ?s c st' db'") (fastforce simp: stream_recover_def)
  show ?case
  proof (cases x)
    case (Event ev)
    obtain e st' db' where ev: "stream_event reg ?s c ev st db = (e, st', db')"
      by (cases "stream_event reg ?s c ev st db")
    note i = stream_event_inv [OF Cons.prems(3) ev]
    show ?thesis
      using Event ev Cons.IH [OF _ Cons.prems(2) i] Cons.prems(1) stop [OF i] by (cases e) (simp_all add: Let_def)
  next
    case (Others f)
    then have "turn_step\<^sup>*\<^sup>* db (f db)" using Cons.prems(1) by (simp add: turn_traffic_def)
    from stream_inv_reach [OF this Cons.prems(3)] show ?thesis
      using Others Cons.IH Cons.prems(1,2) by simp
  next
    case Crash
    then show ?thesis using stop [OF Cons.prems(3)] by (simp add: Let_def)
  next
    case Disconnect
    then show ?thesis using stream_finally_idle [OF Cons.prems(3), of closing reg ?s] cl by (simp add: Let_def)
  qed
qed

text \<open>Whether the generator starts; the turn of one that does not is left to the reclaim of its session.\<close>

fun started :: "'db stream_input list \<Rightarrow> bool" where
  "started (Disconnect # xs) = False"
| "started (Others f # xs) = started xs"
| "started xs = True"

lemma serve_stream_idle:
  "started xs \<Longrightarrow> list_all turn_traffic xs \<Longrightarrow> turn_traffic (Others closing) \<Longrightarrow> stream_inv c stream_init db \<Longrightarrow>
     run_idle (tc_turn c) (snd (serve_stream reg stamps c closing xs db))"
proof (induction reg stamps c closing xs db rule: serve_stream.induct)
  case (2 reg stamps c closing f xs db)
  then have "turn_step\<^sup>*\<^sup>* db (f db)" by (simp add: turn_traffic_def)
  from stream_inv_reach [OF this "2.prems"(4)] show ?case using "2.IH" "2.prems" by simp
qed (simp_all add: run_stream_idle del: run_stream.simps)

lemma serve_stream_unstarted:
  "\<not> started xs \<Longrightarrow> list_all turn_traffic xs \<Longrightarrow>
     fst (serve_stream reg stamps c closing xs db) = stream_init \<and> turn_step\<^sup>*\<^sup>* db (snd (serve_stream reg stamps c closing xs db))"
proof (induction reg stamps c closing xs db rule: serve_stream.induct)
  case (2 reg stamps c closing f xs db)
  then have "turn_step\<^sup>*\<^sup>* db (f db)" by (simp add: turn_traffic_def)
  with 2 show ?case by (auto intro: rtranclp_trans)
qed simp_all

lemma refund_reclaimed_runs: "turn_runs (snd (refund_reclaimed reg stamps conv acc u rs db)) = turn_runs db"
proof (induction rs arbitrary: db)
  case (Cons r rs)
  then show ?case
    using release_stream_runs [of reg "stamps (length rs)" acc u "reservation_key_of conv (tr_idempotency r)" db]
    by (auto split: prod.split sum.split err.split)
qed simp

lemma reclaimed_idle:
  assumes ok: "runs_ok (turn_runs db)" and r: "get_runtime_turn_run t db = Some r"
    and sc: "tr_app r = PLUM_APP_ID" "tr_account r = pc_account conv" "tr_session r = pc_session conv"
    and old: "tr_updated r + 600 < now"
  shows "run_idle t (snd (reclaim_stale_stream_runs reg now stamps conv u db))"
proof -
  define p where "p = (\<lambda>r. stale_run now 600 r \<and> reclaim_scope (Some PLUM_APP_ID) (Some (pc_account conv)) (Some (pc_session conv)) r)"
  let ?d = "db\<lparr>turn_runs := update_where p (abandon now) (turn_runs db)\<rparr>"
  have "get_runtime_turn_run t ?d = Some (if p r then abandon now r else r)"
    using r by (simp add: get_runtime_turn_run_def find_row_update_where abandon_def)
  moreover have "\<not> run_active (if p r then abandon now r else r)"
    using sc old by (auto simp: p_def stale_run_def reclaim_scope_def abandon_def run_active_def status_lists)
  ultimately have "run_idle t ?d" by (simp add: run_idle_def)
  then show ?thesis
    unfolding reclaim_stale_stream_runs_def reclaim_stale_effect [OF ok p_def]
    by (simp add: run_idle_cong [OF refund_reclaimed_runs])
qed

section \<open>When the charge is kept\<close>

text \<open>
  The contract, over the inputs alone: a completed turn is charged, a failed one or an exception is
  not, and a turn that is cancelled or whose client goes away is charged when some text was shown.
\<close>

fun keeps_charge :: "bool \<Rightarrow> 'db stream_input list \<Rightarrow> bool" where
  "keeps_charge saw [] = saw"
| "keeps_charge saw (Others f # xs) = keeps_charge saw xs"
| "keeps_charge saw (Crash # xs) = False"
| "keeps_charge saw (Disconnect # xs) = saw"
| "keeps_charge saw (Event (EvDelta t) # xs) = keeps_charge True xs"
| "keeps_charge saw (Event (EvCompleted m) # xs) = True"
| "keeps_charge saw (Event (EvCancelled m) # xs) = saw"
| "keeps_charge saw (Event (EvFailed e) # xs) = False"
| "keeps_charge saw (Event EvAccepted # xs) = keeps_charge saw xs"
| "keeps_charge saw (Event EvOther # xs) = keeps_charge saw xs"

text \<open>\<open>run_product_turn_stream\<close> returns after its terminal event.\<close>

definition is_event :: "'db stream_input \<Rightarrow> bool" where
  "is_event x = (case x of Event _ \<Rightarrow> True | _ \<Rightarrow> False)"

definition terminal_event :: "turn_event \<Rightarrow> bool" where
  "terminal_event ev = (case ev of EvCompleted _ \<Rightarrow> True | EvCancelled _ \<Rightarrow> True | EvFailed _ \<Rightarrow> True | _ \<Rightarrow> False)"

fun ends_once :: "'db stream_input list \<Rightarrow> bool" where
  "ends_once [] = True"
| "ends_once (x # xs) = (case x of
     Event ev \<Rightarrow> if terminal_event ev then list_all (\<lambda>y. \<not> is_event y) xs else ends_once xs
   | _ \<Rightarrow> ends_once xs)"

lemma stream_releaseD:
  assumes "stream_release reg s c st db = (e, st', db')"
  shows "sm_refund st' \<noteq> None" "sm_settled st' = sm_settled st" "sm_saw st' = sm_saw st"
  using assms by (cases "fst (release_stream_reservation reg s (tc_account c) (tc_user c) (tc_key c) db)";
    auto simp: stream_release_def split: prod.splits sum.splits)+

lemma finally_settled [simp]: "sm_settled st \<Longrightarrow> stream_finally reg s c closing st db = (st, closing db)"
  by (simp add: stream_finally_def)

lemma finally_saw [simp]: "\<not> sm_settled st \<Longrightarrow> sm_saw st \<Longrightarrow> fst (stream_finally reg s c closing st db) = st"
  by (simp add: stream_finally_def Let_def)

lemma finally_release:
  assumes "\<not> sm_settled st" and "\<not> sm_saw st"
  shows "sm_refund (fst (stream_finally reg s c closing st db)) \<noteq> None"
proof -
  define db0 where "db0 = closing db"
  define db1 where "db1 = (case get_runtime_turn_run (tc_turn c) db0 of
              None \<Rightarrow> db0
            | Some r \<Rightarrow> if run_active r
                then stream_finish s c ''cancelled'' None (Some ''client_disconnected'') None db0 else db0)"
  obtain e st' db' where r: "stream_release reg s c st db1 = (e, st', db')"
    by (cases "stream_release reg s c st db1")
  with assms have "fst (stream_finally reg s c closing st db) = st'"
    by (simp add: stream_finally_def db0_def [symmetric] db1_def [symmetric])
  with stream_releaseD(1) [OF r] show ?thesis by simp
qed

lemma finally_keeps_refund:
  "sm_refund st \<noteq> None \<Longrightarrow> sm_refund (fst (stream_finally reg s c closing st db)) \<noteq> None"
  using finally_release [of st] by (cases "sm_settled st"; cases "sm_saw st") simp_all

lemma except_settled:
  assumes "stream_except reg s c st db = (e, st', db')" and "sm_settled st"
  shows "sm_settled st'" "sm_refund st' = sm_refund st"
  using assms stream_showD(2) [of reg c "SFailed ''stream_internal_error'' 0" st db e st' db']
  by (auto simp: stream_except_def)

lemma except_refund:
  assumes "stream_except reg s c st db = (e, st', db')" and "\<not> sm_settled st"
  shows "sm_refund st' \<noteq> None"
proof -
  define db1 where "db1 = stream_finish s c ''failed'' None None (Some ''stream_internal_error'') db"
  obtain e1 st1 db2 where r: "stream_release reg s c st db1 = (e1, st1, db2)"
    by (cases "stream_release reg s c st db1")
  note r1 = stream_releaseD(1) [OF r]
  show ?thesis
  proof (cases e1)
    case None
    then have "stream_show reg c (SFailed ''stream_internal_error'' 0) (st1\<lparr>sm_settled := True\<rparr>) db2 = (e, st', db')"
      using assms r by (simp add: stream_except_def db1_def [symmetric])
    from stream_showD(2) [OF this] r1 show ?thesis by auto
  next
    case (Some e2)
    then show ?thesis using assms r r1 by (simp add: stream_except_def db1_def [symmetric])
  qed
qed

lemma recover_settled:
  assumes "sm_settled st"
  shows "sm_refund (fst (stream_recover reg s c closing st db)) = sm_refund st"
proof -
  obtain e st' db' where e: "stream_except reg s c st db = (e, st', db')"
    by (cases "stream_except reg s c st db")
  with except_settled [OF e assms] show ?thesis by (simp add: stream_recover_def)
qed

lemma recover_refund:
  assumes "\<not> sm_settled st"
  shows "sm_refund (fst (stream_recover reg s c closing st db)) \<noteq> None"
proof -
  obtain e st' db' where e: "stream_except reg s c st db = (e, st', db')"
    by (cases "stream_except reg s c st db")
  with finally_keeps_refund [OF except_refund [OF e assms]] show ?thesis by (simp add: stream_recover_def)
qed

lemma recover_keeps_refund:
  "sm_refund st \<noteq> None \<Longrightarrow> sm_refund (fst (stream_recover reg s c closing st db)) \<noteq> None"
  by (cases "sm_settled st") (simp only: recover_settled simp_thms, rule recover_refund)

lemma settled_refund:
  "list_all (\<lambda>y. \<not> is_event y) xs \<Longrightarrow> sm_settled st \<Longrightarrow>
     sm_refund (fst (run_stream reg stamps c closing xs st db)) = sm_refund st"
proof (induction xs arbitrary: db)
  case Nil
  then show ?case by simp
next
  case (Cons x xs)
  then show ?case by (cases x) (simp_all add: Let_def is_event_def recover_settled)
qed

text \<open>The release is called exactly on the inputs that do not keep the charge.\<close>

lemma event_refund:
  assumes ev: "stream_event reg s c ev st db = (e, st', db')" and n: "\<not> sm_settled st" "sm_refund st = None"
  shows "\<not> terminal_event ev \<Longrightarrow> e = None \<and> \<not> sm_settled st' \<and> sm_refund st' = None \<and>
      sm_saw st' = (sm_saw st \<or> (case ev of EvDelta _ \<Rightarrow> True | _ \<Rightarrow> False))"
    and "terminal_event ev \<Longrightarrow>
      (if keeps_charge (sm_saw st) [Event ev] then sm_settled st' \<and> sm_refund st' = None
       else sm_refund st' \<noteq> None \<and> (e = None \<longrightarrow> sm_settled st'))"
proof -
  show "e = None \<and> \<not> sm_settled st' \<and> sm_refund st' = None \<and>
      sm_saw st' = (sm_saw st \<or> (case ev of EvDelta _ \<Rightarrow> True | _ \<Rightarrow> False))" if "\<not> terminal_event ev"
    using that ev n by (cases ev) (auto simp: terminal_event_def)
  have release: "sm_refund st' \<noteq> None \<and> (e = None \<longrightarrow> sm_settled st')"
    if "(case stream_release reg s c st db1 of (Some e, st1, db2) \<Rightarrow> (Some e, st1, db2)
       | (None, st1, db2) \<Rightarrow> stream_show reg c msg (st1\<lparr>sm_settled := True\<rparr>) db2) = (e, st', db')" for db1 msg
  proof -
    obtain e1 st1 db2 where r: "stream_release reg s c st db1 = (e1, st1, db2)"
      by (cases "stream_release reg s c st db1")
    note r1 = stream_releaseD(1) [OF r]
    show ?thesis
    proof (cases e1)
      case None
      with that r have "stream_show reg c msg (st1\<lparr>sm_settled := True\<rparr>) db2 = (e, st', db')" by simp
      from stream_showD(2) [OF this] r1 show ?thesis by auto
    next
      case (Some e2)
      with that r r1 show ?thesis by auto
    qed
  qed
  show "if keeps_charge (sm_saw st) [Event ev] then sm_settled st' \<and> sm_refund st' = None
       else sm_refund st' \<noteq> None \<and> (e = None \<longrightarrow> sm_settled st')" if t: "terminal_event ev"
  proof (cases ev)
    case (EvCompleted m)
    with ev n show ?thesis by (auto dest!: stream_showD(2))
  next
    case (EvCancelled m)
    show ?thesis
    proof (cases "sm_saw st")
      case True
      with ev n EvCancelled show ?thesis by (auto simp: Let_def dest!: stream_showD(2))
    next
      case False
      with ev EvCancelled show ?thesis
        using release [of "SCancelled (if sm_saw st then charged_coins c else 0)"
            "stream_finish s c ''cancelled'' m (Some ''client_cancelled'') None db"] by (simp add: Let_def)
    qed
  next
    case (EvFailed code)
    define ec where "ec = (case code of None \<Rightarrow> ''runtime_stream_failed''
      | Some t \<Rightarrow> if t = [] then ''runtime_stream_failed'' else t)"
    from ev EvFailed show ?thesis
      using release [of "SFailed ec 0" "stream_finish s c ''failed'' None None (Some ec) db"]
      by (simp add: Let_def ec_def [symmetric])
  qed (use t in \<open>simp_all add: terminal_event_def\<close>)
qed

lemma keeps_charge_event:
  "\<not> terminal_event ev \<Longrightarrow>
     keeps_charge saw (Event ev # xs) = keeps_charge (saw \<or> (case ev of EvDelta _ \<Rightarrow> True | _ \<Rightarrow> False)) xs"
  "terminal_event ev \<Longrightarrow> keeps_charge saw (Event ev # xs) = keeps_charge saw [Event ev]"
  by (cases ev; simp add: terminal_event_def)+

lemma run_stream_refund:
  "ends_once xs \<Longrightarrow> \<not> sm_settled st \<Longrightarrow> sm_refund st = None \<Longrightarrow>
     (sm_refund (fst (run_stream reg stamps c closing xs st db)) = None) = keeps_charge (sm_saw st) xs"
proof (induction xs arbitrary: st db)
  case Nil
  then show ?case using finally_release [of st] by (cases "sm_saw st") simp_all
next
  case (Cons x xs)
  let ?s = "stamps (Suc (length xs))"
  show ?case
  proof (cases x)
    case (Event ev)
    obtain e st' db' where ev: "stream_event reg ?s c ev st db = (e, st', db')"
      by (cases "stream_event reg ?s c ev st db")
    note E = event_refund [OF ev Cons.prems(2,3)]
    show ?thesis
    proof (cases "terminal_event ev")
      case False
      with E(1) have "e = None" "\<not> sm_settled st'" "sm_refund st' = None"
        "sm_saw st' = (sm_saw st \<or> (case ev of EvDelta _ \<Rightarrow> True | _ \<Rightarrow> False))" by blast+
      with Cons.IH [of st' db'] Cons.prems(1) False ev Event show ?thesis
        by (simp add: Let_def keeps_charge_event(1))
    next
      case True
      have rest: "list_all (\<lambda>y. \<not> is_event y) xs" using Cons.prems(1) Event True by simp
      have run: "run_stream reg stamps c closing (x # xs) st db =
          (if e = None then run_stream reg stamps c closing xs st' db' else stream_recover reg ?s c closing st' db')"
        using ev Event by (cases e) (simp_all add: Let_def)
      have "(sm_refund (fst (run_stream reg stamps c closing (x # xs) st db)) = None) = keeps_charge (sm_saw st) [Event ev]"
        using E(2) [OF True] settled_refund [OF rest, of st' reg stamps c closing db']
          recover_settled [of st' reg ?s c closing db'] recover_keeps_refund [of st' reg ?s c closing db']
        unfolding run by (auto split: if_splits)
      then show ?thesis unfolding Event by (rule trans [OF _ keeps_charge_event(2) [OF True, symmetric]])
    qed
  next
    case (Others f)
    then show ?thesis using Cons by simp
  next
    case Crash
    then show ?thesis using recover_refund [OF Cons.prems(2)] by (simp add: Let_def)
  next
    case Disconnect
    then show ?thesis using finally_release [of st] Cons.prems by (cases "sm_saw st") (simp_all add: Let_def)
  qed
qed

section \<open>The refused turn\<close>

lemma create_refused:
  "create_runtime_turn_run r db = (Inl e, db') \<Longrightarrow> e = ActiveRuntimeTurnError \<Longrightarrow> db' = db"
  by (auto simp: create_runtime_turn_run_def split: sum.splits option.splits err.splits)

lemma start_run_refused:
  assumes cr: "create_runtime_turn_run (accepted_run (st_now s) (tc_turn c) app (tc_account c)
         (tc_session c) cm request_id prov mref) db = (a, d)"
    and st: "fst (start_run reg s request_id cm prov mref app c db) = Http 409 ''conversation_turn_active''"
  shows "a = Inl ActiveRuntimeTurnError"
proof (cases a)
  case (Inr x)
  then show ?thesis using st by (cases x; cases "snd x") (simp_all add: start_run_def cr)
next
  case (Inl e)
  show ?thesis
  proof (rule ccontr)
    assume n: "a \<noteq> Inl ActiveRuntimeTurnError"
    obtain b d2 where f: "finish_runtime_turn_run (st_now s) (tc_turn c) ''failed'' None None
              (Some ''runtime_turn_initialization_failed'') d = (b, d2)"
      by (cases "finish_runtime_turn_run (st_now s) (tc_turn c) ''failed'' None None
              (Some ''runtime_turn_initialization_failed'') d")
    obtain v d3 where v: "release_stream_reservation reg s (tc_account c) (tc_user c) (tc_key c) d2 = (v, d3)"
      by (cases "release_stream_reservation reg s (tc_account c) (tc_user c) (tc_key c) d2")
    have "start_run reg s request_id cm prov mref app c db =
        (case v of Inl e \<Rightarrow> (Raised e, d3) | Inr _ \<Rightarrow> (Http 503 ''runtime_turn_unavailable'', d3))"
      using n Inl v f by (cases e) (simp_all add: start_run_def cr)
    then show False using st by (cases v) simp_all
  qed
qed

end
