(* ===== verification/Turn_Properties.thy ===== *)
theory Turn_Properties
imports Plum_Laws Samples
begin

text \<open>
  What turn runs and the paid stream guarantee, with the witnesses on a small Plum database: the
  shape of the table in every history, the life of a run, reclaiming and cancelling, and how each
  way a paid stream ends settles the run and the charge.
\<close>

section \<open>A sample\<close>

definition plum_account :: string where "plum_account = ''acc_2''"

definition plum_wallet_row :: wallet where
  "plum_wallet_row = \<lparr>w_id = ''wallet_2'', w_account = ''acc_2'', w_user = ''user_1'', w_app = ''plum'',
     w_balance = 5000000, w_status = ''active'', w_created = 10, w_updated = 10\<rparr>"

definition plum_grant_row :: ledger_row where
  "plum_grant_row = \<lparr>l_id = ''ledger_2'', l_wallet = ''wallet_2'', l_account = ''acc_2'', l_user = ''user_1'',
     l_app = ''plum'', l_entry = ''credit'', l_source_type = ''manual'', l_source = None,
     l_amount = 5000000, l_after = 5000000, l_key = ''grant-2'', l_meta = Some [], l_created = 10\<rparr>"

definition plum_sample :: plum_db where
  "plum_sample = \<lparr>users = [sample_user], memberships = [sample_membership ''zhaoxi'', sample_membership ''plum''],
     accounts = [sample_account ''acc_1'' ''zhaoxi'', sample_account ''acc_2'' ''plum''],
     bindings = [sample_binding 1 ''acc_1'' ''zhaoxi'', sample_binding 2 ''acc_2'' ''plum''],
     ownerships = [], universes = [], residents = [],
     subscriptions = [], wallets = [plum_wallet_row], ledger = [plum_grant_row], costs = [],
     turn_runs = [], characters = [''ch_1''],
     conversations = [\<lparr>pc_id = ''fconv_1'', pc_user = ''user_1'', pc_character = ''ch_1'', pc_account = ''acc_2'',
       pc_session = 7, pc_model = ''standard'', pc_status = ''active'', pc_updated = 10\<rparr>],
     model_profiles = [\<lparr>mp_profile = ''standard'', mp_provider = ''p'', mp_cost = 2000000, mp_enabled = 1,
       mp_version = 1\<rparr>]\<rparr>"

definition sample_run :: "int \<Rightarrow> string \<Rightarrow> string \<Rightarrow> turn_run" where
  "sample_run now t ik = accepted_run now t ''plum'' ''acc_2'' 7 ik ik (Some ''p'') (Some ''m'')"

definition plum_open :: plum_db where
  "plum_open = plum_sample\<lparr>turn_runs := [sample_run 100 ''turn_1'' ''request-1'']\<rparr>"

definition sample_ctx :: turn_ctx where
  "sample_ctx = \<lparr>tc_conversation = ''fconv_1'', tc_account = ''acc_2'', tc_user = ''user_1'', tc_session = 7,
     tc_turn = ''turn_1'', tc_key = ''plum-turn:fconv_1:request-1'', tc_cost = 2000000\<rparr>"

definition sample_stamps :: "nat \<Rightarrow> stamp" where
  "sample_stamps n = \<lparr>st_now = 200, st_wallet = ''wallet_9'', st_ledger = ''ledger_9''\<rparr>"

lemma plum_open_step: "turn_step plum_sample plum_open"
proof -
  have "insert_turn_run (sample_run 100 ''turn_1'' ''request-1'') plum_sample = Inr plum_open"
    by (simp add: insert_turn_run_Inr plum_open_def plum_sample_def sample_run_def accepted_run_def)
  then show ?thesis unfolding sample_run_def by (rule turn_step.insert)
qed

lemma plum_open_ok: "runs_ok (turn_runs plum_open)"
  by code_simp

section \<open>The table of runs\<close>

text \<open>C39: in every state reached from an empty table by any interleaving of the transactions of
  any number of workers, the rows are well typed (status one of the six, completion time exactly on
  finished runs, session within its column), ids and idempotency keys are unique, and no session
  has two active runs.\<close>

theorem turn_runs_well_formed:
  assumes "turn_runs db0 = []" and "turn_step\<^sup>*\<^sup>* db0 db"
  shows "list_all run_typed (turn_runs db) \<and> unique_on (\<lambda>_. True) tr_id (turn_runs db) \<and>
    unique_on (\<lambda>_. True) idempotency_index (turn_runs db) \<and> unique_on run_active session_index (turn_runs db)"
  using turns.reach_inv [OF assms(2)] assms(1) by (simp add: runs_ok_def)

theorem turn_runs_well_formed_witness:
  "list_all run_typed (turn_runs plum_open) \<and> length (turn_runs plum_open) = 1"
proof -
  have "turn_runs plum_sample = []" by (simp add: plum_sample_def)
  from turn_runs_well_formed [OF this r_into_rtranclp, OF plum_open_step]
  show ?thesis by (simp add: plum_open_def)
qed

text \<open>A finished run is final: whatever transactions follow, in any order, its row stays exactly
  as it was when it finished.\<close>

theorem finished_run_final:
  assumes "runs_ok (turn_runs db)" and "get_runtime_turn_run t db = Some r" and "\<not> run_active r"
    and "turn_step\<^sup>*\<^sup>* db db'"
  shows "get_runtime_turn_run t db' = Some r"
proof -
  have "run_stage r = 2" using assms(3) by (auto simp: run_stage_active run_stage_def split: if_splits)
  with assms show ?thesis using turns.reach_frozen by blast
qed

definition plum_done :: plum_db where
  "plum_done = snd (finish_runtime_turn_run 150 ''turn_1'' ''completed'' (Some ''msg_1'') (Some ''stop'') None plum_open)"

definition plum_late :: plum_db where
  "plum_late = snd (mark_runtime_turn_running 160 ''turn_1'' plum_done)"

theorem finished_run_final_witness:
  "map_option tr_status (get_runtime_turn_run ''turn_1'' plum_late) = Some ''completed''"
proof -
  have ok: "runs_ok (turn_runs plum_done)" by code_simp
  obtain r where r: "get_runtime_turn_run ''turn_1'' plum_done = Some r" and n: "\<not> run_active r"
    and st: "tr_status r = ''completed''"
  proof -
    have "case get_runtime_turn_run ''turn_1'' plum_done of None \<Rightarrow> False
      | Some r \<Rightarrow> \<not> run_active r \<and> tr_status r = ''completed''" by code_simp
    then show thesis using that by (auto split: option.splits)
  qed
  have "turn_step\<^sup>*\<^sup>* plum_done plum_late" unfolding plum_late_def by (rule r_into_rtranclp, rule turn_step.running)
  from finished_run_final [OF ok r n this] st show ?thesis by simp
qed

text \<open>C40: the life of a run ends: in any history of transactions, however long, the status of a run
  changes at most twice, and at most once more when it is running already.\<close>

theorem run_status_changes_bounded:
  assumes "runs_ok (turn_runs db)" and "get_runtime_turn_run t db = Some r" and "chain turn_step (db # dbs)"
  shows "changes (\<lambda>d. map_option tr_status (get_runtime_turn_run t d)) (db # dbs) \<le> 2 - run_stage r"
  by (rule turns.changes_bounded [OF assms(3,1,2)])

theorem run_status_changes_bounded_witness:
  "changes (\<lambda>d. map_option tr_status (get_runtime_turn_run ''turn_1'' d)) [plum_open, plum_done, plum_late] \<le> 2 \<and>
   changes (\<lambda>d. map_option tr_status (get_runtime_turn_run ''turn_1'' d)) [plum_open, plum_done, plum_late] = 1"
proof -
  obtain r where r: "get_runtime_turn_run ''turn_1'' plum_open = Some r"
    by (simp add: get_runtime_turn_run_def plum_open_def sample_run_def accepted_run_def)
  have "chain turn_step [plum_open, plum_done, plum_late]"
    unfolding plum_late_def plum_done_def by (auto intro: turn_step.running turn_step.finish)
  from run_status_changes_bounded [OF plum_open_ok r this] have
    "changes (\<lambda>d. map_option tr_status (get_runtime_turn_run ''turn_1'' d)) [plum_open, plum_done, plum_late] \<le> 2"
    by simp
  moreover have
    "changes (\<lambda>d. map_option tr_status (get_runtime_turn_run ''turn_1'' d)) [plum_open, plum_done, plum_late] = 1"
    by code_simp
  ultimately show ?thesis by blast
qed

text \<open>A reclaim abandons exactly the active runs of its scope whose last update is older than the
  time limit (at least one second), returns exactly those rows as they are after it, in order, and
  changes no other row.\<close>

theorem reclaim_exactly_stale:
  assumes "runs_ok (turn_runs db)"
  shows "reclaim_stale_runtime_turn_runs now ttl app acc sess db =
    (map (abandon now) (filter (\<lambda>r. stale_run now ttl r \<and> reclaim_scope app acc sess r) (turn_runs db)),
     db\<lparr>turn_runs := update_where (\<lambda>r. stale_run now ttl r \<and> reclaim_scope app acc sess r) (abandon now) (turn_runs db)\<rparr>)"
  by (rule reclaim_stale_effect [OF assms refl])

theorem reclaim_exactly_stale_witness:
  "fst (reclaim_stale_runtime_turn_runs 701 600 (Some ''plum'') None None plum_open) =
     [abandon 701 (sample_run 100 ''turn_1'' ''request-1'')] \<and>
   fst (reclaim_stale_runtime_turn_runs 700 600 (Some ''plum'') None None plum_open) = []"
proof -
  have "run_active (sample_run 100 ''turn_1'' ''request-1'')" "tr_app (sample_run 100 ''turn_1'' ''request-1'') = ''plum''"
    "tr_updated (sample_run 100 ''turn_1'' ''request-1'') = 100"
    by (simp_all add: run_active_def sample_run_def accepted_run_def status_lists)
  then show ?thesis
    unfolding reclaim_exactly_stale [OF plum_open_ok]
    by (simp add: plum_open_def stale_run_def reclaim_scope_def)
qed

text \<open>No session is blocked for longer than the time limit: when every active run of the session
  was last updated more than the limit ago, a new turn after a reclaim of that session is created,
  whatever else the table holds.\<close>

theorem stale_session_unblocked:
  assumes ok: "runs_ok (turn_runs db)"
    and stale: "list_all (\<lambda>r. session_index r \<noteq> (app, acc, sess) \<or> \<not> run_active r \<or>
      tr_updated r < now - max 1 ttl) (turn_runs db)"
    and rng: "- (2 ^ 63) \<le> sess" "sess < 2 ^ 63"
    and new: "t \<notin> tr_id ` set (turn_runs db)" "(app, acc, ik) \<notin> idempotency_index ` set (turn_runs db)"
    and r: "r = accepted_run now' t app acc sess cm ik prov mref"
  shows "fst (create_runtime_turn_run r (snd (reclaim_stale_runtime_turn_runs now ttl (Some app) (Some acc) (Some sess) db)))
    = Inr (r, True)"
proof -
  define p where "p = (\<lambda>r. stale_run now ttl r \<and> reclaim_scope (Some app) (Some acc) (Some sess) r)"
  define db' where "db' = db\<lparr>turn_runs := update_where p (abandon now) (turn_runs db)\<rparr>"
  have rec: "snd (reclaim_stale_runtime_turn_runs now ttl (Some app) (Some acc) (Some sess) db) = db'"
    by (simp add: reclaim_stale_effect [OF ok p_def] db'_def)
  have idx: "tr_id (abandon now x) = tr_id x" "idempotency_index (abandon now x) = idempotency_index x"
    "\<not> run_active (abandon now x)" for x
    by (simp_all add: abandon_def idempotency_index_def run_active_def status_lists)
  have free: "\<not> (run_active x \<and> session_index x = (app, acc, sess))" if "x \<in> set (turn_runs db')" for x
  proof -
    obtain y where y: "y \<in> set (turn_runs db)" "x = (if p y then abandon now y else y)"
      using \<open>x \<in> set (turn_runs db')\<close> by (auto simp: db'_def set_update_where)
    have "p y" if "run_active y" "session_index y = (app, acc, sess)"
      using stale y(1) that unfolding p_def
      by (auto simp: list_all_iff stale_run_def reclaim_scope_def session_index_def)
    then show ?thesis using y(2) idx(3) by (cases "p y") auto
  qed
  have "map tr_id (turn_runs db') = map tr_id (turn_runs db)"
    "map idempotency_index (turn_runs db') = map idempotency_index (turn_runs db)"
    by (simp_all add: db'_def map_update_where idx)
  then have ids: "tr_id ` set (turn_runs db') = tr_id ` set (turn_runs db)"
    "idempotency_index ` set (turn_runs db') = idempotency_index ` set (turn_runs db)"
    by (metis set_map)+
  have "insert_turn_run r db' = Inr (db'\<lparr>turn_runs := turn_runs db' @ [r]\<rparr>)"
    unfolding insert_turn_run_Inr ids using rng new free
    by (auto simp: r accepted_run_def idempotency_index_def session_index_def)
  then show ?thesis by (simp add: rec create_fresh)
qed

theorem stale_session_unblocked_witness:
  "fst (create_runtime_turn_run (sample_run 701 ''turn_2'' ''request-2'')
     (snd (reclaim_stale_runtime_turn_runs 701 600 (Some ''plum'') (Some ''acc_2'') (Some 7) plum_open)))
   = Inr (sample_run 701 ''turn_2'' ''request-2'', True) \<and>
   fst (create_runtime_turn_run (sample_run 701 ''turn_2'' ''request-2'') plum_open) = Inl ActiveRuntimeTurnError"
proof
  show "fst (create_runtime_turn_run (sample_run 701 ''turn_2'' ''request-2'')
     (snd (reclaim_stale_runtime_turn_runs 701 600 (Some ''plum'') (Some ''acc_2'') (Some 7) plum_open)))
   = Inr (sample_run 701 ''turn_2'' ''request-2'', True)"
    by (rule stale_session_unblocked [OF plum_open_ok _ _ _ _ _ sample_run_def])
      (simp_all add: plum_open_def sample_run_def accepted_run_def idempotency_index_def)
  show "fst (create_runtime_turn_run (sample_run 701 ''turn_2'' ''request-2'') plum_open) = Inl ActiveRuntimeTurnError"
    by code_simp
qed

text \<open>A cancellation is never lost: once a cancel request has been accepted, no later transaction
  of any worker lets a text delta of that run through, and every worker that asks sees the request
  for as long as the run is active.\<close>

theorem cancelled_run_shows_no_more:
  assumes ok: "runs_ok (turn_runs db)"
    and c: "request_runtime_turn_cancel now t app acc sess db = (True, db1)"
    and run: "turn_step\<^sup>*\<^sup>* db1 db2"
  shows "fst (mark_runtime_turn_first_delta now' t db2) = False \<and>
    (runtime_turn_cancel_requested t db2 \<or> run_idle t db2)"
proof -
  have st: "turn_step db db1" using turn_step.cancel [of db now t app acc sess] c by simp
  have ok1: "runs_ok (turn_runs db1)" by (rule turn_step_ok [OF ok st])
  have ok2: "runs_ok (turn_runs db2)" by (rule turns.reach_inv [OF run ok1])
  obtain r where r: "get_runtime_turn_run t db1 = Some r" "tr_cancel_requested r \<noteq> None"
    by (rule cancel_requested_row [OF ok c])
  from cancel_kept [OF run ok1 r] obtain r2 where r2: "get_runtime_turn_run t db2 = Some r2"
    and cr: "tr_cancel_requested r2 \<noteq> None" by blast
  then have r2': "r2 \<in> set (turn_runs db2)" "tr_id r2 = t" by (simp_all add: get_run_iff [OF ok2])
  have only: "x = r2" if "x \<in> set (turn_runs db2)" "tr_id x = t" for x
    using runs_ok_ids [OF ok2 that(1) r2'(1)] that(2) r2'(2) by simp
  have "count_where (\<lambda>x. tr_id x = t \<and> run_active x \<and> tr_cancel_requested x = None) (turn_runs db2) = 0"
    unfolding count_where_0
  proof
    fix x
    assume "x \<in> set (turn_runs db2)"
    then show "\<not> (tr_id x = t \<and> run_active x \<and> tr_cancel_requested x = None)"
      using only cr by (cases "tr_id x = t") metis+
  qed
  moreover have "runtime_turn_cancel_requested t db2 \<or> run_idle t db2"
  proof (cases "run_active r2")
    case True
    then have "find_row (\<lambda>x. tr_id x = t \<and> run_active x) (turn_runs db2) = Some r2"
      using r2' by (intro find_row_unique) (simp_all only: simp_thms only)
    then show ?thesis using cr by (simp add: runtime_turn_cancel_requested_def)
  next
    case False
    then show ?thesis using r2 by (simp add: run_idle_def)
  qed
  ultimately show ?thesis by (simp add: mark_runtime_turn_first_delta_def)
qed

theorem cancelled_run_shows_no_more_witness:
  "fst (mark_runtime_turn_first_delta 130 ''turn_1'' (snd (mark_runtime_turn_running 125 ''turn_1''
     (snd (request_runtime_turn_cancel 120 ''turn_1'' ''plum'' ''acc_2'' 7 plum_open))))) = False \<and>
   fst (mark_runtime_turn_first_delta 130 ''turn_1'' plum_open)"
proof -
  have "fst (request_runtime_turn_cancel 120 ''turn_1'' ''plum'' ''acc_2'' 7 plum_open)" by code_simp
  then have "request_runtime_turn_cancel 120 ''turn_1'' ''plum'' ''acc_2'' 7 plum_open =
      (True, snd (request_runtime_turn_cancel 120 ''turn_1'' ''plum'' ''acc_2'' 7 plum_open))"
    by (metis (full_types) prod.collapse)
  from cancelled_run_shows_no_more [OF plum_open_ok this r_into_rtranclp, OF turn_step.running]
  have "fst (mark_runtime_turn_first_delta 130 ''turn_1'' (snd (mark_runtime_turn_running 125 ''turn_1''
     (snd (request_runtime_turn_cancel 120 ''turn_1'' ''plum'' ''acc_2'' 7 plum_open))))) = False" by blast
  moreover have "fst (mark_runtime_turn_first_delta 130 ''turn_1'' plum_open)" by code_simp
  ultimately show ?thesis by blast
qed

section \<open>The paid stream\<close>

text \<open>C37: a stream that has started never leaves its run behind: whatever the runtime yields, in whatever
  order, with the transactions of other workers in between, and however it stops (it ends, it raises, the
  client goes away, a refund or a read raises inside a handler), the run of the turn is finished when the
  generator is. When the client is gone before the server asks for the first message the generator never
  starts: nothing is released, and the run stays with its charge until a request of the same session comes
  more than ten minutes after the run's last update; the reclaim of that request finishes it.\<close>

theorem stream_settles_run:
  assumes "runs_ok (turn_runs db)" and "get_runtime_turn_run (tc_turn c) db \<noteq> None"
    and "list_all turn_traffic xs" and "turn_traffic (Others closing)"
    and "serve_stream reg stamps c closing xs db = (st, db')"
  shows "(started xs \<longrightarrow> run_idle (tc_turn c) db') \<and>
    (\<not> started xs \<longrightarrow> sm_refund st = None \<and>
      (\<exists>r. get_runtime_turn_run (tc_turn c) db' = Some r \<and>
        (tr_app r = PLUM_APP_ID \<and> tr_account r = pc_account conv \<and> tr_session r = pc_session conv \<and> tr_updated r + 600 < now \<longrightarrow>
          run_idle (tc_turn c) (snd (reclaim_stale_stream_runs reg now stamps' conv u db')))))"
proof (cases "started xs")
  case True
  have "stream_inv c stream_init db" using assms(1,2) by (simp add: stream_inv_def stream_init_def)
  from serve_stream_idle [OF True assms(3,4) this, of reg stamps] show ?thesis using True assms(5) by simp
next
  case False
  from serve_stream_unstarted [OF this assms(3), of reg stamps c closing db]
  have st: "st = stream_init" and run: "turn_step\<^sup>*\<^sup>* db db'" using assms(5) by simp_all
  have "stream_inv c stream_init db'"
    using assms(1,2) by (intro stream_inv_reach [OF run]) (simp add: stream_inv_def stream_init_def)
  then obtain r where "runs_ok (turn_runs db')" "get_runtime_turn_run (tc_turn c) db' = Some r"
    by (auto simp: stream_inv_def)
  then show ?thesis using False st reclaimed_idle by (auto simp: stream_init_def)
qed

definition plum_conversation :: conversation where
  "plum_conversation = hd (conversations plum_sample)"

definition stream_inputs :: "plum_db stream_input list" where
  "stream_inputs = [Event EvAccepted, Others (\<lambda>db. snd (mark_runtime_turn_running 110 ''turn_1'' db)), Event (EvDelta ''hi''), Crash]"

theorem stream_settles_run_witness:
  "run_idle ''turn_1'' (snd (serve_stream production_products sample_stamps sample_ctx id stream_inputs plum_open)) \<and>
   \<not> run_idle ''turn_1'' (snd (serve_stream production_products sample_stamps sample_ctx id [Disconnect] plum_open)) \<and>
   run_idle ''turn_1'' (snd (reclaim_stale_stream_runs production_products 701 sample_stamps plum_conversation ''user_1''
     (snd (serve_stream production_products sample_stamps sample_ctx id [Disconnect] plum_open))))"
proof (intro conjI)
  have t: "tc_turn sample_ctx = ''turn_1''" by (simp add: sample_ctx_def)
  have r: "get_runtime_turn_run ''turn_1'' plum_open = Some (sample_run 100 ''turn_1'' ''request-1'')"
    by (simp add: get_runtime_turn_run_def plum_open_def sample_run_def accepted_run_def)
  have i: "turn_traffic (Others (id :: plum_db \<Rightarrow> plum_db))" by (simp add: turn_traffic_def)
  have xs: "list_all turn_traffic stream_inputs" "started stream_inputs"
    by (auto simp: turn_traffic_def stream_inputs_def intro: turn_step.running)
  note s = stream_settles_run [OF plum_open_ok _ _ i prod.collapse [symmetric], of sample_ctx, unfolded t r]
  show "run_idle ''turn_1'' (snd (serve_stream production_products sample_stamps sample_ctx id stream_inputs plum_open))"
    using s [OF _ xs(1)] xs(2) by simp
  have "sample_run 100 ''turn_1'' ''request-1'' = accepted_run 100 ''turn_1'' ''plum'' ''acc_2'' 7 ''request-1'' ''request-1'' (Some ''p'') (Some ''m'')"
    by (simp add: sample_run_def)
  then have a: "tr_app (sample_run 100 ''turn_1'' ''request-1'') = PLUM_APP_ID"
    "tr_account (sample_run 100 ''turn_1'' ''request-1'') = pc_account plum_conversation"
    "tr_session (sample_run 100 ''turn_1'' ''request-1'') = pc_session plum_conversation"
    "tr_updated (sample_run 100 ''turn_1'' ''request-1'') + 600 < 701"
    by (simp_all add: accepted_run_def plum_conversation_def plum_sample_def PLUM_APP_ID_def)
  show "run_idle ''turn_1'' (snd (reclaim_stale_stream_runs production_products 701 sample_stamps plum_conversation ''user_1''
     (snd (serve_stream production_products sample_stamps sample_ctx id [Disconnect] plum_open))))"
    using s [of "[Disconnect]" production_products sample_stamps plum_conversation 701 sample_stamps "''user_1''"] a
    by (simp add: turn_traffic_def r)
  show "\<not> run_idle ''turn_1'' (snd (serve_stream production_products sample_stamps sample_ctx id [Disconnect] plum_open))"
    by code_simp
qed

text \<open>The charge of a streamed turn follows one rule, whatever happens inside the handlers: the
  reservation is left alone exactly when the turn completed, or when it was cancelled or its client
  went away after some text was shown; on every other path the release is called.\<close>

theorem stream_charge_rule:
  assumes "ends_once xs"
  shows "(sm_refund (fst (run_stream reg stamps c closing xs stream_init db)) = None) = keeps_charge False xs"
  using run_stream_refund [OF assms, of stream_init] by (simp add: stream_init_def)

definition sample_reservation :: "string \<Rightarrow> ledger_row" where
  "sample_reservation key = reservation_row 90 ''ledger_5'' ''acc_2'' ''user_1'' ''plum'' 2000000 key (Some ''fconv_1'') []
     plum_wallet_row"

definition plum_reserved :: plum_db where
  "plum_reserved = posted (sample_reservation ''plum-turn:fconv_1:request-1'') plum_open"

definition stream_balance :: "plum_db stream_input list \<Rightarrow> int" where
  "stream_balance xs = wallet_balance (snd (run_stream production_products sample_stamps sample_ctx id xs
     stream_init plum_reserved)) (''user_1'', ''plum'')"

theorem stream_charge_rule_witness:
  "sm_refund (fst (run_stream production_products sample_stamps sample_ctx id
     [Event EvAccepted, Event (EvDelta ''hi''), Disconnect] stream_init plum_reserved)) = None \<and>
   sm_refund (fst (run_stream production_products sample_stamps sample_ctx id
     [Event EvAccepted, Disconnect] stream_init plum_reserved)) \<noteq> None \<and>
   stream_balance [Event EvAccepted, Event (EvDelta ''hi''), Disconnect] = 3000000 \<and>
   stream_balance [Event EvAccepted, Disconnect] = 5000000"
proof -
  have "ends_once [Event EvAccepted, Event (EvDelta ''hi''), Disconnect :: plum_db stream_input]"
    "ends_once [Event EvAccepted, Disconnect :: plum_db stream_input]"
    by (simp_all add: terminal_event_def)
  from this [THEN stream_charge_rule, of production_products sample_stamps sample_ctx id plum_reserved]
  have "sm_refund (fst (run_stream production_products sample_stamps sample_ctx id
     [Event EvAccepted, Event (EvDelta ''hi''), Disconnect] stream_init plum_reserved)) = None"
    "sm_refund (fst (run_stream production_products sample_stamps sample_ctx id
     [Event EvAccepted, Disconnect] stream_init plum_reserved)) \<noteq> None"
    by (simp_all only: keeps_charge.simps) simp_all
  moreover have "stream_balance [Event EvAccepted, Event (EvDelta ''hi''), Disconnect] = 3000000" by code_simp
  moreover have "stream_balance [Event EvAccepted, Disconnect] = 5000000" by code_simp
  ultimately show ?thesis by blast
qed

text \<open>C38: a request that is refused because another turn of the session is running costs nothing:
  after the reservation just made and the refused creation, every balance is what it was before,
  and the turn runs are untouched.\<close>

theorem refused_turn_costs_nothing:
  assumes reg: "registry_ok reg" and id: "identity_ok db" and ok: "billing_ok db"
    and sc: "require_billing_scope reg db (tc_account c) (Some (tc_user c)) = Inr sc"
    and act: "active_wallet (tc_user c) (sc_app sc) db = Some w"
    and pos: "0 < tc_cost c" and enough: "tc_cost c \<le> w_balance w"
    and key: "clean_text (Some (tc_key c)) = Some key" and fresh: "find_ledger (sc_app sc) key db = None"
    and rfresh: "find_ledger (sc_app sc) (release_key key) db = None"
    and lid: "lid \<notin> l_id ` set (ledger db)" and lid2: "st_ledger s \<notin> l_id ` set (ledger db)" "st_ledger s \<noteq> lid"
    and db1: "db1 = posted (reservation_row now lid (tc_account c) (tc_user c) (sc_app sc) (tc_cost c) key src meta w) db"
    and st: "start_run reg s request_id cm prov mref app c db1 = (Http 409 ''conversation_turn_active'', db2)"
  shows "wallet_balance db2 = wallet_balance db \<and> turn_runs db2 = turn_runs db"
proof -
  obtain a d where cr: "create_runtime_turn_run (accepted_run (st_now s) (tc_turn c) app (tc_account c)
         (tc_session c) cm request_id prov mref) db1 = (a, d)"
    by (cases "create_runtime_turn_run (accepted_run (st_now s) (tc_turn c) app (tc_account c)
         (tc_session c) cm request_id prov mref) db1")
  have a: "a = Inl ActiveRuntimeTurnError"
    using start_run_refused [OF cr, of reg] st by simp
  with create_refused [OF cr [unfolded a]] have d: "d = db1" by simp
  obtain r db3 where rel: "release_fixed_shell_reservation reg (st_now s) (st_wallet s) (st_ledger s)
      (tc_account c) (tc_user c) (tc_key c) db1 = Inr (decode_ledger_row r, db3)"
    and bal: "wallet_balance db3 = wallet_balance db"
    unfolding db1 using release_after_reserve [OF reg id ok sc act pos enough key fresh rfresh lid lid2 refl] by metis
  have "turn_runs db3 = turn_runs db1"
    using res_allD [OF release_more rel] by (intro turn_more) (simp add: more_kept_def)
  moreover have "turn_runs db1 = turn_runs db" by (intro turn_more) (simp add: db1)
  moreover have "db2 = db3"
    using st by (simp add: start_run_def cr a d release_stream_reservation_def rel)
  ultimately show ?thesis using bal by simp
qed

definition second_ctx :: turn_ctx where
  "second_ctx = sample_ctx\<lparr>tc_turn := ''turn_2'', tc_key := ''plum-turn:fconv_1:request-2''\<rparr>"

definition refused :: "turn_ctx answer \<times> plum_db" where
  "refused = start_run production_products (sample_stamps 0) ''request-2'' ''request-2'' (Some ''p'') (Some ''m'') ''plum''
     second_ctx (posted (sample_reservation ''plum-turn:fconv_1:request-2'') plum_open)"

theorem refused_turn_costs_nothing_witness:
  "fst refused = Http 409 ''conversation_turn_active'' \<and> wallet_balance (snd refused) = wallet_balance plum_open"
proof -
  have r: "refused = (Http 409 ''conversation_turn_active'', snd refused)"
  proof -
    have "fst refused = Http 409 ''conversation_turn_active''" by code_simp
    then show ?thesis by (metis prod.collapse)
  qed
  have id: "identity_ok plum_open" and ok: "billing_ok plum_open" by code_simp+
  have sc: "require_billing_scope production_products plum_open (tc_account second_ctx) (Some (tc_user second_ctx)) =
      Inr \<lparr>sc_account = ''acc_2'', sc_user = ''user_1'', sc_app = ''plum''\<rparr>" by code_simp
  have act: "active_wallet ''user_1'' ''plum'' plum_open = Some plum_wallet_row" by code_simp
  have k: "clean_text (Some (tc_key second_ctx)) = Some ''plum-turn:fconv_1:request-2''" by code_simp
  have f: "find_ledger ''plum'' ''plum-turn:fconv_1:request-2'' plum_open = None"
    "find_ledger ''plum'' (release_key ''plum-turn:fconv_1:request-2'') plum_open = None" by code_simp+
  have ids: "''ledger_5'' \<notin> l_id ` set (ledger plum_open)"
    "st_ledger (sample_stamps 0) \<notin> l_id ` set (ledger plum_open)" "st_ledger (sample_stamps 0) \<noteq> ''ledger_5''"
    by code_simp+
  have c: "tc_account second_ctx = ''acc_2''" "tc_user second_ctx = ''user_1''" "tc_cost second_ctx = 2000000"
    by (simp_all add: second_ctx_def sample_ctx_def)
  have w: "(2000000 :: int) \<le> w_balance plum_wallet_row" by (simp add: plum_wallet_row_def)
  have st: "start_run production_products (sample_stamps 0) ''request-2'' ''request-2'' (Some ''p'') (Some ''m'') ''plum''
     second_ctx (posted (sample_reservation ''plum-turn:fconv_1:request-2'') plum_open) =
     (Http 409 ''conversation_turn_active'', snd refused)"
    using r unfolding refused_def .
  have "wallet_balance (snd refused) = wallet_balance plum_open \<and> turn_runs (snd refused) = turn_runs plum_open"
    by (rule refused_turn_costs_nothing [OF production_products_ok id ok sc _ _ _ k _ _ ids _ st])
      (simp_all add: c act f w sample_reservation_def)
  with r show ?thesis by (metis fst_conv)
qed

end
