(* ===== verification/World.thy ===== *)
theory World
imports Identity Lifecycle
begin

text \<open>
  The companion world of Mingchan: the tables that \<^verbatim>\<open>app/db/migrations/mingchan.py\<close> adds to
  the identity tables (templates, conversations, posts and their media, the outbox, lifecycle events
  and their audit actions), and the pure rules of \<^verbatim>\<open>domain/companion_world/lifecycle.py\<close>: the
  policy, the categories, the evidence tests. JSON columns hold the parsed value.


  A \<open>datetime\<close> is an \<open>int\<close>, the microseconds of the Beijing clock; a time column is the number of
  its whole seconds, as the fixed-width text orders them. \<open>db_time\<close> and \<open>parse_time\<close> convert.
\<close>

section \<open>Tables\<close>

text \<open>The text of a JSON column: missing or empty, not JSON, or the value it parses to.\<close>

datatype json_text = NoText | BadText | Parsed json

record character_template =
  ct_id :: string
  ct_app :: string
  ct_source_type :: string
  ct_owner :: "string option"
  ct_name :: string
  ct_avatar :: "string option"
  ct_summary :: "string option"
  ct_tags :: "string list"
  ct_seed :: json_text
  ct_version :: string
  ct_status :: string
  ct_rank :: "int option"
  ct_persona_key :: "string option"
  ct_name_pool :: "string list"
  ct_pool_version :: "string option"

record profile_row =
  pf_account :: string
  pf_name :: string
  pf_prompt :: "string option"

record profile_file =
  pff_account :: string
  pff_filename :: string
  pff_content :: string
  pff_version :: int

record ai_conversation =
  ac_id :: string
  ac_world :: string
  ac_resident :: string
  ac_owner :: string
  ac_runtime :: string
  ac_state :: string
  ac_updated :: int

record world_post =
  wp_id :: string
  wp_world :: string
  wp_author :: string
  wp_user :: "string option"
  wp_resident :: "string option"
  wp_source_type :: string
  wp_content_type :: string
  wp_text :: "string option"
  wp_status :: string
  wp_request :: "string option"
  wp_fingerprint :: "string option"
  wp_date :: "string option"
  wp_slot :: "string option"
  wp_window_end :: "int option"
  wp_attempts :: int
  wp_claimed :: "int option"
  wp_token :: "string option"
  wp_next :: "int option"
  wp_reason :: "string option"
  wp_published :: "int option"
  wp_deleted :: "int option"
  wp_type :: string
  wp_departure :: "string option"
  wp_created :: int
  wp_updated :: int

record post_media_row =
  pm_post :: string
  pm_media :: string
  pm_position :: nat

record media_asset =
  md_id :: string
  md_owner :: string
  md_kind :: string
  md_status :: string
  md_moderation :: string
  md_expires :: "int option"

text \<open>The payload is kept with sorted keys, as \<open>json.dumps(..., sort_keys=True)\<close> writes it.\<close>

record outbox_row =
  ob_id :: string
  ob_world :: string
  ob_post :: string
  ob_type :: string
  ob_key :: string
  ob_payload :: dict
  ob_status :: string
  ob_attempts :: int
  ob_available :: int
  ob_claimed :: "int option"
  ob_token :: "string option"
  ob_error :: "string option"
  ob_delivered :: "int option"
  ob_created :: int

record lifecycle_event =
  le_id :: string
  le_owner :: string
  le_world :: string
  le_resident :: string
  le_type :: string
  le_status :: string
  le_policy :: string
  le_start :: int
  le_end :: int
  le_count :: int
  le_refs :: "dict list"
  le_cooldown :: "int option"
  le_freeze :: "int option"
  le_exception :: int
  le_key :: string
  le_fingerprint :: string
  le_farewell :: "string option"
  le_reviewed_by :: "string option"
  le_reviewed :: "int option"
  le_reason :: "string option"
  le_committed :: "int option"
  le_post :: "string option"
  le_correction :: string
  le_corrected_by :: "string option"
  le_corrected :: "int option"
  le_correction_reason :: "string option"
  le_created :: int
  le_updated :: int

record lifecycle_action =
  la_id :: string
  la_event :: string
  la_action :: string
  la_actor_type :: string
  la_actor :: "string option"
  la_meta :: dict
  la_created :: int

text \<open>
  The columns of \<^verbatim>\<open>messages\<close>, \<^verbatim>\<open>sessions\<close> and \<^verbatim>\<open>content_moderation_tasks\<close> the world uses;
  \<open>mt_observations\<close> are the mappings in the metadata's list \<open>lifecycle_observations\<close>.
\<close>

record app_session =
  as_id :: int
  as_account :: string
  as_key :: string

record app_message =
  im_id :: int
  im_account :: string
  im_session :: int
  im_message_id :: "string option"
  im_direction :: string
  im_role :: string
  im_content :: string
  im_created :: int

record raw_observation =
  ro_confirmed :: bool
  ro_resident :: "string option"
  ro_category :: "string option"
  ro_policy :: "string option"

record moderation_task =
  mt_id :: string
  mt_account :: string
  mt_direction :: string
  mt_status :: "string option"
  mt_risk :: "string option"
  mt_categories :: "string list"
  mt_policy :: "string option"
  mt_observations :: "raw_observation list"
  mt_created :: int

record world_db = identity_db +
  templates :: "character_template list"
  profiles :: "profile_row list"
  profile_files :: "profile_file list"
  ai_conversations :: "ai_conversation list"
  world_posts :: "world_post list"
  post_media :: "post_media_row list"
  media_assets :: "media_asset list"
  outbox :: "outbox_row list"
  lifecycle_events :: "lifecycle_event list"
  lifecycle_actions :: "lifecycle_action list"
  app_sessions :: "app_session list"
  world_messages :: "app_message list"
  moderation_tasks :: "moderation_task list"

section \<open>Times\<close>

definition db_time :: "int \<Rightarrow> int" where "db_time t = t div 1000000"
definition parse_time :: "int option \<Rightarrow> int option" where "parse_time = map_option (\<lambda>s. s * 1000000)"
definition days :: "int \<Rightarrow> int" where "days n = n * 86400000000"

section \<open>Status words and transitions\<close>

definition EVENT_TYPES :: "string list" where
  "EVENT_TYPES = [''inactivity'', ''value_misalignment'', ''severe_abuse'']"
definition OPEN_STATUSES :: "string list" where
  "OPEN_STATUSES = [''cooling_down'', ''review_pending'']"
definition TERMINAL_STATUSES :: "string list" where
  "TERMINAL_STATUSES = [''cancelled'', ''rejected'']"
definition ACTOR_TYPES :: "string list" where
  "ACTOR_TYPES = [''scheduler'', ''admin'', ''system'']"
definition CRISIS_CATEGORIES :: "string list" where
  "CRISIS_CATEGORIES = [''crisis'', ''high_vulnerability'', ''self_harm'']"
definition SEVERE_ABUSE_CATEGORIES :: "string list" where
  "SEVERE_ABUSE_CATEGORIES = [''credible_threat'', ''hate_harassment'', ''severe_abuse'']"

text \<open>
  \<open>lifecycle_transition_allowed\<close> is the domain's table; the repository's \<open>_ALLOWED_TRANSITIONS\<close>
  leaves out \<open>committed\<close>.
\<close>

definition lifecycle_transition_allowed :: "string \<Rightarrow> string \<Rightarrow> bool" where
  "lifecycle_transition_allowed current target =
     (if current = ''cooling_down'' then target \<in> set [''review_pending'', ''cancelled'', ''rejected'']
      else if current = ''review_pending'' then target \<in> set [''committed'', ''cancelled'', ''rejected'']
      else False)"

definition repository_transition_allowed :: "string \<Rightarrow> string \<Rightarrow> bool" where
  "repository_transition_allowed expected target =
     (if expected = ''cooling_down'' then target \<in> set [''review_pending'', ''cancelled'', ''rejected'']
      else if expected = ''review_pending'' then target \<in> set [''cancelled'', ''rejected'']
      else False)"

section \<open>The policy\<close>

record lifecycle_policy =
  lp_version :: string
  lp_inactivity :: int
  lp_window :: int
  lp_min_events :: int
  lp_min_span :: int
  lp_cooldown :: int
  lp_freeze :: int

definition LIFECYCLE_POLICY_FAMILY :: string where
  "LIFECYCLE_POLICY_FAMILY = ''companion_world_lifecycle_v1''"

definition validate_lifecycle_policy :: "lifecycle_policy \<Rightarrow> lifecycle_policy res" where
  "validate_lifecycle_policy p =
     (if \<not> (1 \<le> lp_inactivity p \<and> lp_inactivity p \<le> 365)
      then Inl (ValueError ''lifecycle inactivity_days must be between 1 and 365'')
      else if \<not> (1 \<le> lp_window p \<and> lp_window p \<le> 180)
      then Inl (ValueError ''lifecycle evidence_window_days must be between 1 and 180'')
      else if \<not> (1 \<le> lp_min_events p \<and> lp_min_events p \<le> 100)
      then Inl (ValueError ''lifecycle mismatch_min_events must be between 1 and 100'')
      else if \<not> (0 \<le> lp_min_span p \<and> lp_min_span p \<le> lp_window p)
      then Inl (ValueError ''lifecycle mismatch span must fit evidence window'')
      else if \<not> (1 \<le> lp_cooldown p \<and> lp_cooldown p \<le> 90)
      then Inl (ValueError ''lifecycle cooldown_days must be between 1 and 90'')
      else if \<not> (1 \<le> lp_freeze p \<and> lp_freeze p \<le> 180)
      then Inl (ValueError ''lifecycle crisis_freeze_days must be between 1 and 180'')
      else Inr p)"

definition int_str :: "int \<Rightarrow> string" where
  "int_str i = (if i < 0 then CHR ''-'' # nat_str (nat (- i)) else nat_str (nat i))"

definition policy_version :: "lifecycle_policy \<Rightarrow> string" where
  "policy_version p = LIFECYCLE_POLICY_FAMILY @ '':i'' @ int_str (lp_inactivity p) @ '':w'' @ int_str (lp_window p) @
     '':n'' @ int_str (lp_min_events p) @ '':s'' @ int_str (lp_min_span p) @ '':c'' @ int_str (lp_cooldown p) @
     '':f'' @ int_str (lp_freeze p)"

text \<open>The configured thresholds are the six numbers of the argument; its version is not read.\<close>

definition build_lifecycle_policy :: "lifecycle_policy \<Rightarrow> lifecycle_policy res" where
  "build_lifecycle_policy config = and_then (validate_lifecycle_policy (config\<lparr>lp_version := []\<rparr>))
     (\<lambda>p. Inr (p\<lparr>lp_version := policy_version p\<rparr>))"

text \<open>
  \<open>_LIFECYCLE_POLICY_VERSION_RE.fullmatch\<close>: each group is a prefix followed by one or more digits,
  and no prefix starts with a digit, so the match is deterministic.
\<close>

definition scan_field :: "string \<Rightarrow> string \<Rightarrow> (int \<times> string) option" where
  "scan_field prefix s =
     (if starts_with prefix s
      then let t = drop (length prefix) s; ds = takeWhile is_digit t
        in if ds = [] then None else Some (int (str_nat ds), dropWhile is_digit t)
      else None)"

fun scan_fields :: "string list \<Rightarrow> string \<Rightarrow> (int list \<times> string) option" where
  "scan_fields [] s = Some ([], s)"
| "scan_fields (p # ps) s = (case scan_field p s of None \<Rightarrow> None
     | Some (n, t) \<Rightarrow> (case scan_fields ps t of None \<Rightarrow> None | Some (ns, u) \<Rightarrow> Some (n # ns, u)))"

definition policy_prefixes :: "string list" where
  "policy_prefixes = [LIFECYCLE_POLICY_FAMILY @ '':i'', '':w'', '':n'', '':s'', '':c'', '':f'']"

definition policy_from_event_version :: "string \<Rightarrow> lifecycle_policy res" where
  "policy_from_event_version version =
     (case scan_fields policy_prefixes version of
        Some ([i, w, n, s, c, f], []) \<Rightarrow> validate_lifecycle_policy
          \<lparr>lp_version = version, lp_inactivity = i, lp_window = w, lp_min_events = n, lp_min_span = s,
           lp_cooldown = c, lp_freeze = f\<rparr>
      | _ \<Rightarrow> Inl (DomainError ''lifecycle_policy_invalid''))"

section \<open>Evidence\<close>

text \<open>The confidence of an observation is carried along by the code and never tested; it is left out.\<close>

record evidence_ref =
  er_source_type :: string
  er_source :: string
  er_category :: string
  er_observed :: int
  er_policy :: "string option"

definition as_mapping :: "evidence_ref \<Rightarrow> dict" where
  "as_mapping r = [(''source_type'', JStr (er_source_type r)), (''source_id'', JStr (er_source r)),
     (''category'', JStr (er_category r)), (''observed_at'', JInt (db_time (er_observed r)))] @
     (case er_policy r of None \<Rightarrow> [] | Some v \<Rightarrow> if v = [] then [] else [(''policy_version'', JStr v)])"

definition py_lower_char :: "char \<Rightarrow> char" where
  "py_lower_char c = (let n = (of_char c :: int) in
     if 65 \<le> n \<and> n \<le> 90 \<or> 192 \<le> n \<and> n \<le> 222 \<and> n \<noteq> 215 then char_of (n + 32) else c)"

definition strip_prefix :: "string \<Rightarrow> string \<Rightarrow> string" where
  "strip_prefix p s = (if starts_with p s then drop (length p) s else s)"

definition normalize_lifecycle_category :: "string option \<Rightarrow> string" where
  "normalize_lifecycle_category value =
     strip_prefix ''cat:'' (strip_prefix ''lifecycle:''
       (map py_lower_char (py_strip (case value of None \<Rightarrow> [] | Some v \<Rightarrow> v))))"

definition inactivity_is_due :: "int \<Rightarrow> int \<Rightarrow> lifecycle_policy \<Rightarrow> bool" where
  "inactivity_is_due now anchor p = (anchor + days (lp_inactivity p) \<le> now)"

definition in_window :: "int \<Rightarrow> lifecycle_policy \<Rightarrow> evidence_ref \<Rightarrow> bool" where
  "in_window now p r = (now - days (lp_window p) \<le> er_observed r \<and> er_observed r \<le> now)"

definition category_in :: "string list \<Rightarrow> evidence_ref \<Rightarrow> bool" where
  "category_in cs r = (normalize_lifecycle_category (Some (er_category r)) \<in> set cs)"

text \<open>A dict comprehension over rows: a later row replaces an earlier one under its key, in place.\<close>

definition dict_values :: "('r \<Rightarrow> 'k) \<Rightarrow> 'r list \<Rightarrow> 'r list" where
  "dict_values k rs = map snd (fold (\<lambda>r d. AList.update (k r) r d) rs [])"

definition value_misalignment_evidence :: "int \<Rightarrow> evidence_ref list \<Rightarrow> lifecycle_policy \<Rightarrow> evidence_ref list" where
  "value_misalignment_evidence now obs p =
     (let ordered = sort_key (\<lambda>r. (er_observed r, er_source r))
            (dict_values (\<lambda>r. (er_source_type r, er_source r))
              (filter (\<lambda>r. category_in [''value_misalignment''] r \<and> in_window now p r) obs))
      in if int (length ordered) < lp_min_events p then []
         else if ordered \<noteq> [] \<and> er_observed (last ordered) - er_observed (hd ordered) < days (lp_min_span p) then []
         else ordered)"

definition latest_crisis_freeze_until :: "int \<Rightarrow> evidence_ref list \<Rightarrow> lifecycle_policy \<Rightarrow> int option" where
  "latest_crisis_freeze_until now obs p =
     (case filter (\<lambda>r. category_in CRISIS_CATEGORIES r \<and> er_observed r \<le> now) obs of
        [] \<Rightarrow> None
      | r # rs \<Rightarrow>
          (let latest = fold (\<lambda>x m. max m (er_observed x)) rs (er_observed r);
               until = latest + days (lp_freeze p)
           in if now < until then Some until else None))"

definition severe_abuse_evidence :: "int \<Rightarrow> evidence_ref list \<Rightarrow> lifecycle_policy \<Rightarrow> evidence_ref list" where
  "severe_abuse_evidence now obs p =
     sort_key (\<lambda>r. (er_observed r, er_source r))
       (filter (\<lambda>r. category_in SEVERE_ABUSE_CATEGORIES r \<and> in_window now p r) obs)"

text \<open>The projection shown to staff.\<close>

definition redact_lifecycle_evidence_refs :: "dict list \<Rightarrow> dict list" where
  "redact_lifecycle_evidence_refs refs = map (filter (\<lambda>(k, _). k \<in> set [''source_type'', ''source_id'',
     ''category'', ''observed_at'', ''confidence'', ''policy_version''])) refs"

section \<open>Fingerprints\<close>

text \<open>
  \<open>json.dumps(..., ensure_ascii=False, sort_keys=True, separators=(',', ':'))\<close>. Times are written
  as the code writes them into the object.
\<close>

definition json_escape_char :: "char \<Rightarrow> string" where
  "json_escape_char c = (let n = (of_char c :: int) in
     if c = CHR 0x22 then [CHR 0x5C, CHR 0x22]
     else if c = CHR 0x5C then [CHR 0x5C, CHR 0x5C]
     else if n = 10 then [CHR 0x5C, CHR ''n'']
     else if n = 13 then [CHR 0x5C, CHR ''r'']
     else if n = 9 then [CHR 0x5C, CHR ''t'']
     else if n = 8 then [CHR 0x5C, CHR ''b'']
     else if n = 12 then [CHR 0x5C, CHR ''f'']
     else if n < 32 then [CHR 0x5C] @ ''u'' @ hex_digits 4 n
     else [c])"

definition json_quote :: "string \<Rightarrow> string" where
  "json_quote s = CHR 0x22 # concat (map json_escape_char s) @ [CHR 0x22]"

definition comma_join :: "string list \<Rightarrow> string" where
  "comma_join ss = (case ss of [] \<Rightarrow> [] | s # rest \<Rightarrow> s @ concat (map (\<lambda>x. CHR '','' # x) rest))"

fun json_dumps :: "json \<Rightarrow> string"
  and json_dumps_items :: "json list \<Rightarrow> string list"
  and json_dumps_fields :: "(string \<times> json) list \<Rightarrow> (string \<times> string) list" where
  "json_dumps JNull = ''null''"
| "json_dumps (JBool b) = (if b then ''true'' else ''false'')"
| "json_dumps (JInt i) = int_str i"
| "json_dumps (JStr s) = json_quote s"
| "json_dumps (JList xs) = ''['' @ comma_join (json_dumps_items xs) @ '']''"
| "json_dumps (JDict d) = ''{'' @ comma_join (map (\<lambda>(k, v). json_quote k @ '':'' @ v)
     (sort_key fst (json_dumps_fields d))) @ ''}''"
| "json_dumps_items [] = []"
| "json_dumps_items (x # xs) = json_dumps x # json_dumps_items xs"
| "json_dumps_fields [] = []"
| "json_dumps_fields ((k, v) # d) = (k, json_dumps v) # json_dumps_fields d"

end
