(* ===== verification/World_Lifecycle.thy ===== *)
theory World_Lifecycle
imports World
begin

text \<open>
  The departure of a resident: the audited event table of
  \<^verbatim>\<open>infrastructure/persistence/companion_world_lifecycle.py\<close>, the evidence adapter of
  \<^verbatim>\<open>jobs/world_lifecycle/evidence.py\<close>, and the service of
  \<^verbatim>\<open>application/lifecycle.py\<close> (the scheduled evaluation, the approval that takes a resident
  offline, the correction afterwards). The hash of a fingerprint is the argument \<open>sha\<close>, the ids
  that \<open>_new_id\<close> draws are the argument \<open>ids\<close>, and whether the conversation's advisory lock is
  free is the argument \<open>lock_free\<close> of the approval.
\<close>

record fresh_ids =
  fi_event :: string
  fi_action :: string
  fi_post :: string
  fi_outbox :: string

section \<open>The repository\<close>

definition clean_required :: "string \<Rightarrow> string \<Rightarrow> string res" where
  "clean_required value field = (let c = py_strip value in
     if c = [] then Inl (ValueError (field @ '' is required'')) else Inr c)"

definition validate_actor :: "string \<Rightarrow> string res" where
  "validate_actor actor_type = and_then (clean_required actor_type ''actor_type'') (\<lambda>c.
     if c \<notin> set ACTOR_TYPES then Inl (ValueError ''invalid lifecycle actor_type'') else Inr c)"

text \<open>\<open>str(x).strip() if x else None\<close>\<close>

definition strip_opt :: "string option \<Rightarrow> string option" where
  "strip_opt x = (case x of None \<Rightarrow> None | Some s \<Rightarrow> if s = [] then None else Some (py_strip s))"

definition append_action ::
  "string \<Rightarrow> string \<Rightarrow> string \<Rightarrow> string \<Rightarrow> string option \<Rightarrow> dict \<Rightarrow> int \<Rightarrow> world_db \<Rightarrow> world_db res" where
  "append_action aid event_id action actor_type actor_id meta created db =
     and_then (clean_required action ''action'') (\<lambda>a. and_then (validate_actor actor_type) (\<lambda>t.
       if aid \<in> la_id ` set (lifecycle_actions db)
       then Inl (IntegrityError ''resident_lifecycle_event_actions_pkey'')
       else Inr (db\<lparr>lifecycle_actions := lifecycle_actions db @ [\<lparr>la_id = aid, la_event = event_id,
         la_action = a, la_actor_type = t, la_actor = strip_opt actor_id, la_meta = meta,
         la_created = created\<rparr>]\<rparr>)))"

definition find_event :: "string \<Rightarrow> world_db \<Rightarrow> lifecycle_event option" where
  "find_event event_id db = find_row (\<lambda>e. le_id e = event_id) (lifecycle_events db)"

definition find_by_key :: "string \<Rightarrow> world_db \<Rightarrow> lifecycle_event option" where
  "find_by_key key db = find_row (\<lambda>e. le_key e = key) (lifecycle_events db)"

definition event_open :: "lifecycle_event \<Rightarrow> bool" where
  "event_open e = (le_status e \<in> set OPEN_STATUSES)"

definition find_open_event :: "string \<Rightarrow> world_db \<Rightarrow> lifecycle_event option" where
  "find_open_event resident_id db =
     find_row (\<lambda>e. le_resident e = resident_id \<and> event_open e) (lifecycle_events db)"

definition lock_resident_scope ::
  "string \<Rightarrow> string \<Rightarrow> string \<Rightarrow> world_db \<Rightarrow> resident res" where
  "lock_resident_scope owner world_id resident_id db =
     (case find_row (\<lambda>w. uv_id w = world_id \<and> uv_owner w = owner \<and> uv_app w = MINGCHAN_APP_ID \<and>
         uv_status w = ''active'') (universes db) of
        None \<Rightarrow> Inl (ValueError ''lifecycle universe ownership mismatch'')
      | Some _ \<Rightarrow> (case find_row (\<lambda>r. rs_id r = resident_id \<and> rs_universe r = world_id) (residents db) of
          None \<Rightarrow> Inl (ValueError ''lifecycle resident ownership mismatch'')
        | Some r \<Rightarrow> Inr r))"

text \<open>The keyword arguments of \<open>create_resident_lifecycle_event\<close>.\<close>

record new_event =
  ne_owner :: string
  ne_world :: string
  ne_resident :: string
  ne_type :: string
  ne_status :: string
  ne_policy :: string
  ne_start :: int
  ne_end :: int
  ne_refs :: "dict list"
  ne_count :: int
  ne_cooldown :: "int option"
  ne_freeze :: "int option"
  ne_exception :: bool
  ne_key :: string
  ne_fingerprint :: string
  ne_actor_type :: string
  ne_actor :: "string option"
  ne_created :: int

definition same_request :: "string \<Rightarrow> string \<Rightarrow> string \<Rightarrow> string \<Rightarrow> lifecycle_event \<Rightarrow> bool" where
  "same_request owner world_id resident_id fingerprint e =
     (le_owner e = owner \<and> le_world e = world_id \<and> le_resident e = resident_id \<and> le_fingerprint e = fingerprint)"

definition event_row ::
  "fresh_ids \<Rightarrow> new_event \<Rightarrow> string \<Rightarrow> string \<Rightarrow> string \<Rightarrow> string \<Rightarrow> string \<Rightarrow> string \<Rightarrow> string \<Rightarrow> string \<Rightarrow> lifecycle_event" where
  "event_row ids n owner world_id resident_id typ status policy key fingerprint =
     \<lparr>le_id = fi_event ids, le_owner = owner, le_world = world_id, le_resident = resident_id, le_type = typ,
      le_status = status, le_policy = policy, le_start = ne_start n, le_end = ne_end n, le_count = ne_count n,
      le_refs = ne_refs n, le_cooldown = ne_cooldown n, le_freeze = ne_freeze n,
      le_exception = (if ne_exception n then 1 else 0), le_key = key, le_fingerprint = fingerprint,
      le_farewell = None, le_reviewed_by = None, le_reviewed = None, le_reason = None, le_committed = None,
      le_post = None, le_correction = ''none'', le_corrected_by = None, le_corrected = None,
      le_correction_reason = None, le_created = ne_created n, le_updated = ne_created n\<rparr>"

text \<open>
  The \<open>INSERT ... ON CONFLICT DO NOTHING\<close> is dropped by a conflict on the primary key, the
  idempotency key or the index of open events (a new row is never committed).
\<close>

definition insert_event :: "lifecycle_event \<Rightarrow> world_db \<Rightarrow> bool \<times> world_db" where
  "insert_event e db =
     (if le_id e \<in> le_id ` set (lifecycle_events db) \<or> le_key e \<in> le_key ` set (lifecycle_events db) \<or>
         (event_open e \<and> le_resident e \<in> le_resident ` set (filter event_open (lifecycle_events db)))
      then (False, db) else (True, db\<lparr>lifecycle_events := lifecycle_events db @ [e]\<rparr>))"

definition create_resident_lifecycle_event ::
  "fresh_ids \<Rightarrow> new_event \<Rightarrow> world_db \<Rightarrow> ((lifecycle_event \<times> bool) \<times> world_db) res" where
  "create_resident_lifecycle_event ids n db =
     and_then (clean_required (ne_type n) ''event_type'') (\<lambda>typ.
     and_then (clean_required (ne_status n) ''status'') (\<lambda>status.
     if typ \<notin> set EVENT_TYPES then Inl (ValueError ''invalid lifecycle event_type'')
     else if status \<notin> set OPEN_STATUSES then Inl (ValueError ''invalid lifecycle initial status'')
     else if ne_count n < 1 then Inl (ValueError ''evidence_count must be positive'')
     else and_then (clean_required (ne_owner n) ''owner_platform_user_id'') (\<lambda>owner.
     and_then (clean_required (ne_world n) ''universe_id'') (\<lambda>world_id.
     and_then (clean_required (ne_resident n) ''resident_id'') (\<lambda>resident_id.
     and_then (clean_required (ne_key n) ''idempotency_key'') (\<lambda>key.
     and_then (clean_required (ne_fingerprint n) ''request_fingerprint'') (\<lambda>fingerprint.
     and_then (lock_resident_scope owner world_id resident_id db) (\<lambda>resident.
       if rs_origin resident = ''legacy'' then Inl (ValueError ''legacy resident departure forbidden'')
       else if rs_status resident \<noteq> ''active'' then Inl (ValueError ''lifecycle resident is not active'')
       else (case find_by_key key db of
         Some e \<Rightarrow> if \<not> same_request owner world_id resident_id fingerprint e
                   then Inl (ValueError ''lifecycle idempotency conflict'') else Inr ((e, False), db)
       | None \<Rightarrow>
           (if find_open_event resident_id db \<noteq> None then Inl (ValueError ''lifecycle event already open'')
            else and_then (clean_required (ne_policy n) ''policy_version'') (\<lambda>policy.
              and_then (bigint (ne_count n)) (\<lambda>_.
              let row = event_row ids n owner world_id resident_id typ status policy key fingerprint
              in (case insert_event row db of
                (False, db1) \<Rightarrow> (case find_by_key key db1 of
                    Some e \<Rightarrow> if \<not> same_request owner world_id resident_id fingerprint e
                              then Inl (ValueError ''lifecycle idempotency conflict'') else Inr ((e, False), db1)
                  | None \<Rightarrow> Inl (ValueError ''lifecycle event already open''))
              | (True, db1) \<Rightarrow> and_then (append_action (fi_action ids) (fi_event ids) ''candidate_created''
                    (ne_actor_type n) (ne_actor n) [(''status'', JStr status), (''event_type'', JStr typ)]
                    (ne_created n) db1) (\<lambda>db2.
                  case find_event (fi_event ids) db2 of
                    None \<Rightarrow> Inl (RuntimeError ''lifecycle event insert failed'')
                  | Some e \<Rightarrow> Inr ((e, True), db2)))))))))))))))"

text \<open>The snapshot an approval or a correction works on, under the locks event, world, resident.\<close>

record commit_scope =
  cs_event :: lifecycle_event
  cs_world :: universe
  cs_resident :: resident
  cs_conversation :: ai_conversation
  cs_active_count :: int
  cs_last_inbound :: "(int \<times> int) option"

definition active_residents :: "string \<Rightarrow> world_db \<Rightarrow> nat" where
  "active_residents world_id db =
     count_where (\<lambda>r. rs_universe r = world_id \<and> rs_status r = ''active'') (residents db)"

definition last_inbound :: "string option \<Rightarrow> world_db \<Rightarrow> (int \<times> int) option" where
  "last_inbound acc db =
     (case order_desc (\<lambda>m. (im_created m, im_id m)) (filter (\<lambda>m. Some (im_account m) = acc \<and>
        im_direction m = ''inbound'' \<and> im_role m = ''user'') (world_messages db)) of
        [] \<Rightarrow> None | m # _ \<Rightarrow> Some (im_id m, im_created m))"

definition lock_resident_lifecycle_commit_scope ::
  "string \<Rightarrow> world_db \<Rightarrow> commit_scope option res" where
  "lock_resident_lifecycle_commit_scope event_id db =
     and_then (clean_required event_id ''event_id'') (\<lambda>eid. case find_event eid db of
       None \<Rightarrow> Inr None
     | Some e \<Rightarrow> (case find_row (\<lambda>w. uv_id w = le_world e \<and> uv_owner w = le_owner e \<and>
           uv_app w = MINGCHAN_APP_ID) (universes db) of
         None \<Rightarrow> Inl (ValueError ''lifecycle universe ownership mismatch'')
       | Some w \<Rightarrow> (case find_row (\<lambda>r. rs_id r = le_resident e \<and> rs_universe r = le_world e) (residents db) of
           None \<Rightarrow> Inl (ValueError ''lifecycle resident ownership mismatch'')
         | Some r \<Rightarrow> (case find_row (\<lambda>c. ac_resident c = le_resident e \<and> ac_world c = le_world e \<and>
               ac_owner c = le_owner e) (ai_conversations db) of
             None \<Rightarrow> Inl (ValueError ''lifecycle conversation ownership mismatch'')
           | Some c \<Rightarrow> Inr (Some \<lparr>cs_event = e, cs_world = w, cs_resident = r, cs_conversation = c,
               cs_active_count = int (active_residents (le_world e) db),
               cs_last_inbound = last_inbound (rs_runtime r) db\<rparr>)))))"

definition insert_post :: "world_post \<Rightarrow> world_db \<Rightarrow> world_db res" where
  "insert_post p db =
     (if wp_id p \<in> wp_id ` set (world_posts db) then Inl (IntegrityError ''universe_posts_pkey'')
      else if wp_departure p \<noteq> None \<and> wp_departure p \<in> wp_departure ` set (world_posts db)
      then Inl (IntegrityError ''ux_universe_posts_departure_event'')
      else Inr (db\<lparr>world_posts := world_posts db @ [p]\<rparr>))"

text \<open>A new event of the outbox; then \<open>INSERT ... ON CONFLICT(idempotency_key) DO NOTHING\<close> and the row under the key.\<close>

definition outbox_pending ::
  "string \<Rightarrow> string \<Rightarrow> string \<Rightarrow> string \<Rightarrow> string \<Rightarrow> dict \<Rightarrow> int \<Rightarrow> outbox_row" where
  "outbox_pending oid wid post typ key payload now = \<lparr>ob_id = oid, ob_world = wid, ob_post = post, ob_type = typ,
     ob_key = key, ob_payload = payload, ob_status = ''pending'', ob_attempts = 0, ob_available = now,
     ob_claimed = None, ob_token = None, ob_error = None, ob_delivered = None, ob_created = now\<rparr>"

definition insert_outbox :: "outbox_row \<Rightarrow> world_db \<Rightarrow> (outbox_row option \<times> world_db) res" where
  "insert_outbox o1 db = and_then
     (if ob_key o1 \<in> ob_key ` set (outbox db) then Inr db
      else if ob_id o1 \<in> ob_id ` set (outbox db) then Inl (IntegrityError ''companion_world_outbox_pkey'')
      else Inr (db\<lparr>outbox := outbox db @ [o1]\<rparr>))
     (\<lambda>db1. Inr (find_row (\<lambda>x. ob_key x = ob_key o1) (outbox db1), db1))"

definition update_one ::
  "('r \<Rightarrow> bool) \<Rightarrow> 'r list \<Rightarrow> string \<Rightarrow> unit res" where
  "update_one p rs msg = (if count_where p rs \<noteq> 1 then Inl (ValueError msg) else Inr ())"

text \<open>
  \<open>commit_locked_resident_offline\<close>: the farewell post, its outbox row, the resident, the
  conversation and the event, each update with its row count, then the audit action. First the
  \<open>WHERE\<close> and \<open>SET\<close> clauses of its statements.
\<close>

definition leaving :: "string \<Rightarrow> string \<Rightarrow> resident \<Rightarrow> bool" where
  "leaving rid wid r = (rs_id r = rid \<and> rs_universe r = wid \<and> rs_status r = ''active'' \<and> rs_origin r \<noteq> ''legacy'')"

definition gone :: "string \<Rightarrow> int \<Rightarrow> resident \<Rightarrow> resident" where
  "gone eid now r = r\<lparr>rs_status := ''offline'', rs_offline := Some now, rs_departure := Some eid, rs_updated := now\<rparr>"

definition talking :: "string \<Rightarrow> string \<Rightarrow> string \<Rightarrow> ai_conversation \<Rightarrow> bool" where
  "talking cid rid owner c = (ac_id c = cid \<and> ac_resident c = rid \<and> ac_owner c = owner \<and> ac_state c = ''active'')"

definition silenced :: "int \<Rightarrow> ai_conversation \<Rightarrow> ai_conversation" where
  "silenced now c = c\<lparr>ac_state := ''read_only'', ac_updated := now\<rparr>"

definition pending_event :: "string \<Rightarrow> string \<Rightarrow> string \<Rightarrow> lifecycle_event \<Rightarrow> bool" where
  "pending_event eid wid rid e =
     (le_id e = eid \<and> le_world e = wid \<and> le_resident e = rid \<and> le_status e = ''review_pending'')"

definition committed_by ::
  "string \<Rightarrow> string \<Rightarrow> string \<Rightarrow> string \<Rightarrow> int \<Rightarrow> lifecycle_event \<Rightarrow> lifecycle_event" where
  "committed_by post_id text admin reason now e = e\<lparr>le_status := ''committed'', le_farewell := Some text,
     le_reviewed_by := Some admin, le_reviewed := Some now, le_reason := Some reason, le_committed := Some now,
     le_post := Some post_id, le_updated := now\<rparr>"

definition farewell_post :: "string \<Rightarrow> string \<Rightarrow> string \<Rightarrow> string \<Rightarrow> string \<Rightarrow> int \<Rightarrow> world_post" where
  "farewell_post post_id eid wid rid text now = \<lparr>wp_id = post_id, wp_world = wid, wp_author = ''resident'',
     wp_user = None, wp_resident = Some rid, wp_source_type = ''lifecycle_farewell'', wp_content_type = ''text'',
     wp_text = Some text, wp_status = ''published'', wp_request = None, wp_fingerprint = None, wp_date = None,
     wp_slot = None, wp_window_end = None, wp_attempts = 0, wp_claimed = None, wp_token = None, wp_next = None,
     wp_reason = None, wp_published = Some now, wp_deleted = None, wp_type = ''farewell'',
     wp_departure = Some eid, wp_created = now, wp_updated = now\<rparr>"

definition farewell_payload :: "string \<Rightarrow> string \<Rightarrow> int \<Rightarrow> dict" where
  "farewell_payload post_id wid now = [(''post_id'', JStr post_id), (''post_type'', JStr ''farewell''),
     (''published_at'', JInt now), (''source_type'', JStr ''lifecycle_farewell''), (''universe_id'', JStr wid),
     (''v'', JInt 1)]"

definition commit_locked_resident_offline ::
  "fresh_ids \<Rightarrow> string \<Rightarrow> string \<Rightarrow> string \<Rightarrow> string \<Rightarrow> string \<Rightarrow> string \<Rightarrow> string \<Rightarrow> string \<Rightarrow> bool \<Rightarrow> int \<Rightarrow>
     world_db \<Rightarrow> ((lifecycle_event \<times> world_post) \<times> world_db) res" where
  "commit_locked_resident_offline ids eid wid rid cid owner farewell admin reason last_exception now db =
     and_then (clean_required farewell ''farewell_text'') (\<lambda>text.
     and_then (insert_post (farewell_post (fi_post ids) eid wid rid text now) db) (\<lambda>db1.
     and_then (insert_outbox (outbox_pending (fi_outbox ids) wid (fi_post ids) ''universe_post.published.v1''
            (''departure-farewell:v1:'' @ eid) (farewell_payload (fi_post ids) wid now) now) db1)
       (\<lambda>(ob, db2). case ob of None \<Rightarrow> Inl (ValueError ''lifecycle farewell outbox conflict'')
     | Some x \<Rightarrow>
       if ob_post x \<noteq> fi_post ids \<or> ob_payload x \<noteq> farewell_payload (fi_post ids) wid now
       then Inl (ValueError ''lifecycle farewell outbox conflict'')
       else and_then (update_one (leaving rid wid) (residents db2) ''lifecycle resident state changed'') (\<lambda>_.
       let db3 = db2\<lparr>residents := update_where (leaving rid wid) (gone eid now) (residents db2)\<rparr>
       in and_then (update_one (talking cid rid owner) (ai_conversations db3) ''lifecycle conversation state changed'') (\<lambda>_.
       let db4 = db3\<lparr>ai_conversations := update_where (talking cid rid owner) (silenced now) (ai_conversations db3)\<rparr>
       in and_then (clean_required admin ''reviewed_by'') (\<lambda>by1.
       and_then (clean_required reason ''review_reason'') (\<lambda>reason1.
       and_then (update_one (pending_event eid wid rid) (lifecycle_events db4) ''lifecycle event state changed'') (\<lambda>_.
       let db5 = db4\<lparr>lifecycle_events := update_where (pending_event eid wid rid)
              (committed_by (fi_post ids) text by1 reason1 now) (lifecycle_events db4)\<rparr>
       in and_then (append_action (fi_action ids) eid ''admin_committed_offline'' ''admin'' (Some admin)
              [(''farewell_post_id'', JStr (fi_post ids)), (''last_resident_exception'', JBool last_exception)]
              now db5) (\<lambda>db6.
       case (find_event eid db6, find_row (\<lambda>p. wp_id p = fi_post ids) (world_posts db6)) of
         (Some e, Some p) \<Rightarrow> Inr ((e, p), db6)
       | _ \<Rightarrow> Inl (RuntimeError ''lifecycle offline commit disappeared''))))))))))"

text \<open>\<open>transition_resident_lifecycle_event\<close>: a compare and swap of the status that never commits.\<close>

definition transition_resident_lifecycle_event ::
  "fresh_ids \<Rightarrow> string \<Rightarrow> string \<Rightarrow> string \<Rightarrow> string \<Rightarrow> string \<Rightarrow> string option \<Rightarrow> int \<Rightarrow> string option \<Rightarrow> dict \<Rightarrow>
     world_db \<Rightarrow> (lifecycle_event option \<times> world_db) res" where
  "transition_resident_lifecycle_event ids event_id expected_status new_status action actor_type actor_id now
       terminal_reason meta db =
     and_then (clean_required expected_status ''expected_status'') (\<lambda>expected.
     and_then (clean_required new_status ''new_status'') (\<lambda>target.
     if target = ''committed'' then Inl (ValueError ''committed requires atomic offline transaction'')
     else if \<not> repository_transition_allowed expected target then Inl (ValueError ''invalid lifecycle transition'')
     else if target \<in> set TERMINAL_STATUSES \<and>
             py_strip (case terminal_reason of None \<Rightarrow> [] | Some r \<Rightarrow> r) = []
     then Inl (ValueError ''terminal_reason is required'')
     else let p = (\<lambda>e. le_id e = event_id \<and> le_status e = expected);
              db1 = db\<lparr>lifecycle_events := update_where p (\<lambda>e. e\<lparr>le_status := target,
                le_reason := strip_opt terminal_reason, le_updated := now\<rparr>) (lifecycle_events db)\<rparr>
     in if count_where p (lifecycle_events db) \<noteq> 1 then Inr (None, db1)
        else and_then (append_action (fi_action ids) event_id action actor_type actor_id
            (dict_update [(''from'', JStr expected), (''to'', JStr target)] meta) now db1) (\<lambda>db2.
          Inr (find_event event_id db2, db2))))"

definition hide_farewell_post ::
  "fresh_ids \<Rightarrow> string \<Rightarrow> string \<Rightarrow> string \<Rightarrow> int \<Rightarrow> world_db \<Rightarrow> world_db res" where
  "hide_farewell_post ids event_id world_id post_id now db =
     (let db1 = db\<lparr>world_posts := update_where (\<lambda>p. wp_id p = post_id \<and> wp_departure p = Some event_id \<and>
            wp_status p = ''published'') (\<lambda>p. p\<lparr>wp_status := ''deleted'', wp_reason := Some ''admin_correction'',
            wp_deleted := Some now, wp_updated := now\<rparr>) (world_posts db)\<rparr>;
          payload = [(''deleted_at'', JInt now), (''post_id'', JStr post_id),
            (''reason_code'', JStr ''admin_correction''), (''universe_id'', JStr world_id), (''v'', JInt 1)]
      in and_then (insert_outbox (outbox_pending (fi_outbox ids) world_id post_id ''universe_post.deleted.v1''
           (''departure-farewell-hidden:v1:'' @ event_id) payload now) db1) (\<lambda>(ob, db2).
         case ob of None \<Rightarrow> Inl (ValueError ''lifecycle correction outbox conflict'')
         | Some x \<Rightarrow> if ob_payload x \<noteq> payload then Inl (ValueError ''lifecycle correction outbox conflict'')
             else Inr db2))"

definition correct_committed_resident_lifecycle_event ::
  "fresh_ids \<Rightarrow> string \<Rightarrow> string \<Rightarrow> string \<Rightarrow> bool \<Rightarrow> int \<Rightarrow> world_db \<Rightarrow>
     (lifecycle_event option \<times> world_db) res" where
  "correct_committed_resident_lifecycle_event ids event_id corrected_by correction_reason hide_farewell now db =
     and_then (lock_resident_lifecycle_commit_scope event_id db) (\<lambda>scope. case scope of
       None \<Rightarrow> Inr (None, db)
     | Some sc \<Rightarrow>
       let e = cs_event sc in
       if le_status e \<noteq> ''committed'' then Inl (ValueError ''lifecycle event is not committed'')
       else let current = (if le_correction e = [] then ''none'' else le_correction e);
                target = (if hide_farewell \<or> current = ''farewell_hidden'' then ''farewell_hidden'' else ''acknowledged'')
       in (case le_post e of None \<Rightarrow> Inl (RuntimeError ''committed lifecycle event is missing farewell'')
         | Some post_id \<Rightarrow>
           if post_id = [] then Inl (RuntimeError ''committed lifecycle event is missing farewell'')
           else and_then
             (if hide_farewell \<and> current \<noteq> ''farewell_hidden''
              then hide_farewell_post ids event_id (le_world e) post_id now db
              else Inr db) (\<lambda>db2.
           and_then (clean_required corrected_by ''corrected_by'') (\<lambda>by1.
           and_then (clean_required correction_reason ''correction_reason'') (\<lambda>reason1.
             let db3 = db2\<lparr>lifecycle_events := update_where (\<lambda>x. le_id x = event_id \<and> le_status x = ''committed'')
                   (\<lambda>x. x\<lparr>le_correction := target, le_corrected_by := Some by1, le_corrected := Some now,
                          le_correction_reason := Some reason1, le_updated := now\<rparr>) (lifecycle_events db2)\<rparr>
             in and_then (append_action (fi_action ids) event_id
                   (if hide_farewell then ''admin_hid_farewell'' else ''admin_corrected'') ''admin'' (Some corrected_by)
                   [(''correction_status'', JStr target)] now db3) (\<lambda>db4.
                 Inr (find_event event_id db4, db4)))))))"

end
