(* ===== verification/World_Service.thy ===== *)
theory World_Service
imports World_Lifecycle
begin

text \<open>
  The lifecycle service of Mingchan: the evidence adapter, the scheduled evaluation of
  \<^verbatim>\<open>CompanionWorldLifecycleService\<close>, and the staff decisions \<open>approve_lifecycle_event\<close> and
  \<open>correct_lifecycle_event\<close> of \<^verbatim>\<open>application/lifecycle.py\<close>.
\<close>

section \<open>The evidence adapter\<close>

definition list_evidence_tasks :: "string \<Rightarrow> int \<Rightarrow> int \<Rightarrow> int \<Rightarrow> world_db \<Rightarrow> moderation_task list res" where
  "list_evidence_tasks runtime since until limit db =
     and_then (clean_required runtime ''runtime_account_id'') (\<lambda>acc.
       Inr (sql_limit (max 1 (min limit 2000)) (sort_key (\<lambda>t. (mt_created t, mt_id t))
         (filter (\<lambda>t. mt_account t = acc \<and> mt_direction t = ''inbound'' \<and> since \<le> mt_created t \<and>
            mt_created t \<le> until) (moderation_tasks db)))))"

definition or_none :: "string option \<Rightarrow> string option" where
  "or_none v = (case v of None \<Rightarrow> None | Some s \<Rightarrow> if s = [] then None else Some s)"

definition explicit_observations :: "string \<Rightarrow> moderation_task \<Rightarrow> evidence_ref list" where
  "explicit_observations resident_id t = List.map_filter (\<lambda>raw.
     let scoped = py_strip (case ro_resident raw of None \<Rightarrow> [] | Some s \<Rightarrow> s);
         category = normalize_lifecycle_category (ro_category raw)
     in if \<not> ro_confirmed raw \<or> (scoped \<noteq> [] \<and> scoped \<noteq> resident_id) \<or>
           category \<notin> set (''value_misalignment'' # CRISIS_CATEGORIES @ SEVERE_ABUSE_CATEGORIES)
        then None
        else Some \<lparr>er_source_type = ''moderation_task'', er_source = mt_id t, er_category = category,
          er_observed = mt_created t * 1000000,
          er_policy = (case or_none (ro_policy raw) of Some v \<Rightarrow> Some v | None \<Rightarrow> or_none (mt_policy t))\<rparr>)
     (mt_observations t)"

definition moderation_confirmed :: "moderation_task \<Rightarrow> bool" where
  "moderation_confirmed t =
     (let word = (\<lambda>v. map py_lower_char (py_strip (case v of None \<Rightarrow> [] | Some s \<Rightarrow> s)))
      in word (mt_risk t) \<in> set [''block'', ''escalate''] \<or>
         word (mt_status t) \<in> set [''blocked'', ''escalated'', ''risk_confirmed''])"

definition category_observations :: "moderation_task \<Rightarrow> evidence_ref list" where
  "category_observations t =
     (let cats = map (\<lambda>c. normalize_lifecycle_category (Some c)) (mt_categories t);
          obs = (\<lambda>c. \<lparr>er_source_type = ''moderation_task'', er_source = mt_id t, er_category = c,
            er_observed = mt_created t * 1000000, er_policy = or_none (mt_policy t)\<rparr>)
      in map obs (filter (\<lambda>c. c \<in> set cats) CRISIS_CATEGORIES) @
         (if moderation_confirmed t then map obs (filter (\<lambda>c. c \<in> set cats) SEVERE_ABUSE_CATEGORIES) else []))"

definition observations_for_resident ::
  "string \<Rightarrow> string \<Rightarrow> int \<Rightarrow> lifecycle_policy \<Rightarrow> world_db \<Rightarrow> evidence_ref list res" where
  "observations_for_resident resident_id runtime now p db =
     and_then (list_evidence_tasks runtime (db_time (now - days (max (lp_window p) (lp_freeze p)))) (db_time now) 500 db)
       (\<lambda>tasks. Inr (sort_key (\<lambda>r. (er_observed r, er_source r, er_category r))
          (dict_values (\<lambda>r. (er_source_type r, er_source r, er_category r))
            (concat (map (\<lambda>t. explicit_observations resident_id t @ category_observations t) tasks)))))"

section \<open>The scheduled evaluation\<close>

record life_scope =
  sp_resident :: resident
  sp_owner :: string
  sp_event :: "lifecycle_event option"
  sp_last_inbound :: "(int \<times> int) option"
  sp_active_count :: int

definition list_resident_lifecycle_scopes :: "string option \<Rightarrow> int \<Rightarrow> world_db \<Rightarrow> life_scope list" where
  "list_resident_lifecycle_scopes after_id limit db =
     sql_limit (max 1 (min limit 500))
       (concat (map (\<lambda>r. concat (map (\<lambda>u. concat (map (\<lambda>c.
           let row = (\<lambda>e. \<lparr>sp_resident = r, sp_owner = uv_owner u, sp_event = e,
                 sp_last_inbound = last_inbound (rs_runtime r) db,
                 sp_active_count = int (active_residents (rs_universe r) db)\<rparr>);
               open_events = filter (\<lambda>e. le_resident e = rs_id r \<and> event_open e) (lifecycle_events db)
           in if open_events = [] then [row None] else map (\<lambda>e. row (Some e)) open_events)
         (filter (\<lambda>c. ac_resident c = rs_id r) (ai_conversations db))))
         (filter (\<lambda>u. uv_id u = rs_universe r \<and> uv_app u = MINGCHAN_APP_ID \<and> uv_status u = ''active'' \<and>
            uv_onboarding u = ''confirmed'') (universes db))))
         (sort_key rs_id (filter (\<lambda>r. rs_status r = ''active'' \<and>
            (case or_none after_id of None \<Rightarrow> True | Some a \<Rightarrow> a < rs_id r)) (residents db)))))"

record metrics =
  mx_scanned :: int
  mx_created :: int
  mx_advanced :: int
  mx_cancelled :: int
  mx_frozen :: int
  mx_last_blocked :: int
  mx_legacy :: int
  mx_review :: int

definition no_metrics :: metrics where
  "no_metrics = \<lparr>mx_scanned = 0, mx_created = 0, mx_advanced = 0, mx_cancelled = 0, mx_frozen = 0,
     mx_last_blocked = 0, mx_legacy = 0, mx_review = 0\<rparr>"

definition first_some :: "'v option \<Rightarrow> 'v option \<Rightarrow> 'v option" where
  "first_some a b = (case a of None \<Rightarrow> b | Some x \<Rightarrow> Some x)"

definition inactivity_evidence :: "lifecycle_policy \<Rightarrow> life_scope \<Rightarrow> int \<Rightarrow> evidence_ref list" where
  "inactivity_evidence p sp now =
     (let inbound = parse_time (map_option snd (sp_last_inbound sp));
          joined = first_some (parse_time (rs_joined (sp_resident sp))) (parse_time (Some (rs_created (sp_resident sp))))
      in case first_some inbound joined of
           None \<Rightarrow> []
         | Some anchor \<Rightarrow> if \<not> inactivity_is_due now anchor p then []
             else [\<lparr>er_source_type = (if inbound \<noteq> None then ''message'' else ''resident_joined''),
               er_source = (case sp_last_inbound sp of
                   Some (i, _) \<Rightarrow> if i = 0 then rs_id (sp_resident sp) else int_str i
                 | None \<Rightarrow> rs_id (sp_resident sp)),
               er_category = ''inactivity'', er_observed = anchor, er_policy = Some (lp_version p)\<rparr>])"

definition opt_int :: "int option \<Rightarrow> json" where
  "opt_int v = (case v of None \<Rightarrow> JNull | Some i \<Rightarrow> JInt i)"

definition lifecycle_event_fingerprint :: "(string \<Rightarrow> string) \<Rightarrow> new_event \<Rightarrow> string" where
  "lifecycle_event_fingerprint sha n = sha (json_dumps (JDict
     [(''resident_id'', JStr (ne_resident n)), (''event_type'', JStr (ne_type n)),
      (''policy_version'', JStr (ne_policy n)), (''evidence_window_start'', JInt (ne_start n)),
      (''evidence_window_end'', JInt (ne_end n)), (''evidence_count'', JInt (ne_count n)),
      (''evidence_refs'', JList (map JDict (ne_refs n))), (''cooldown_until'', opt_int (ne_cooldown n)),
      (''crisis_freeze_until'', opt_int (ne_freeze n)),
      (''last_resident_exception_requested'', JBool (ne_exception n))]))"

definition candidate ::
  "(string \<Rightarrow> string) \<Rightarrow> lifecycle_policy \<Rightarrow> life_scope \<Rightarrow> int \<Rightarrow> string \<Rightarrow> evidence_ref list \<Rightarrow> string \<Rightarrow>
     int option \<Rightarrow> bool \<Rightarrow> new_event" where
  "candidate sha p sp now event_type evidence status crisis_until last_exception =
     (let n = \<lparr>ne_owner = sp_owner sp, ne_world = rs_universe (sp_resident sp), ne_resident = rs_id (sp_resident sp),
            ne_type = event_type, ne_status = status, ne_policy = lp_version p,
            ne_start = db_time (if event_type \<noteq> ''inactivity'' then now - days (lp_window p)
                                else er_observed (hd evidence)),
            ne_end = db_time now, ne_refs = map as_mapping evidence, ne_count = int (length evidence),
            ne_cooldown = (if status = ''cooling_down'' then Some (db_time (now + days (lp_cooldown p))) else None),
            ne_freeze = map_option db_time crisis_until, ne_exception = last_exception,
            ne_key = [], ne_fingerprint = [], ne_actor_type = ''scheduler'', ne_actor = Some ''world-lifecycle'',
            ne_created = db_time now\<rparr>;
          fp = lifecycle_event_fingerprint sha n
      in n\<lparr>ne_key := ''lifecycle:v1:'' @ ne_resident n @ '':'' @ event_type @ '':'' @ take 24 fp,
           ne_fingerprint := fp\<rparr>)"

text \<open>Each repository call of the evaluation is a transaction of its own.\<close>

definition create_candidate ::
  "(string \<Rightarrow> string) \<Rightarrow> fresh_ids \<Rightarrow> lifecycle_policy \<Rightarrow> life_scope \<Rightarrow> int \<Rightarrow> string \<Rightarrow> evidence_ref list \<Rightarrow>
     string \<Rightarrow> int option \<Rightarrow> bool \<Rightarrow> metrics \<Rightarrow> world_db \<Rightarrow> (string \<times> metrics) res \<times> world_db" where
  "create_candidate sha ids p sp now event_type evidence status crisis_until last_exception mx db =
     (case run_tx (create_resident_lifecycle_event ids
          (candidate sha p sp now event_type evidence status crisis_until last_exception)) db of
        (Inl (ValueError m), db1) \<Rightarrow>
          (if m = ''lifecycle event already open'' then (Inr (''state_changed'', mx), db1) else (Inl (ValueError m), db1))
      | (Inl e, db1) \<Rightarrow> (Inl e, db1)
      | (Inr (e, created), db1) \<Rightarrow>
          (let mx1 = (if created then mx\<lparr>mx_created := mx_created mx + 1\<rparr> else mx);
               mx2 = (if le_status e = ''review_pending'' then mx1\<lparr>mx_review := mx_review mx1 + 1\<rparr> else mx1)
           in (Inr (le_status e, mx2), db1)))"

definition revalidate_open_event ::
  "fresh_ids \<Rightarrow> life_scope \<Rightarrow> lifecycle_event \<Rightarrow> int \<Rightarrow> evidence_ref list \<Rightarrow> evidence_ref list \<Rightarrow>
     evidence_ref list \<Rightarrow> int option \<Rightarrow> metrics \<Rightarrow> world_db \<Rightarrow> (string \<times> metrics) res \<times> world_db" where
  "revalidate_open_event ids sp e now severe mismatch inactivity crisis_until mx db =
     (let typ = le_type e;
          current = (if typ = ''severe_abuse'' then severe else if typ = ''value_misalignment'' then mismatch
             else if typ = ''inactivity'' then inactivity else []);
          (reason, action, mx1) =
            (if typ \<noteq> ''severe_abuse'' \<and> crisis_until \<noteq> None
             then (Some ''crisis_freeze_active'', ''crisis_freeze_cancelled'', mx\<lparr>mx_frozen := mx_frozen mx + 1\<rparr>)
             else if typ \<noteq> ''severe_abuse'' \<and> sp_active_count sp \<le> 1
             then (Some ''last_resident_protected'', ''last_resident_cancelled'',
                   mx\<lparr>mx_last_blocked := mx_last_blocked mx + 1\<rparr>)
             else if current = [] then (Some ''evidence_no_longer_qualifies'', ''evidence_recovery_cancelled'', mx)
             else (None, ''evidence_recovery_cancelled'', mx))
      in case reason of
        Some why \<Rightarrow>
          (case run_tx (transition_resident_lifecycle_event ids (le_id e) (le_status e) ''cancelled'' action
              ''scheduler'' (Some ''world-lifecycle'') (db_time now) (Some why)
              [(''crisis_freeze_until'', opt_int (map_option db_time crisis_until))]) db of
             (Inl x, db1) \<Rightarrow> (Inl x, db1)
           | (Inr None, db1) \<Rightarrow> (Inr (''state_changed'', mx1), db1)
           | (Inr (Some _), db1) \<Rightarrow> (Inr (''cancelled'', mx1\<lparr>mx_cancelled := mx_cancelled mx1 + 1\<rparr>), db1))
      | None \<Rightarrow>
          (if le_status e = ''review_pending''
           then (Inr (''review_pending'', mx1\<lparr>mx_review := mx_review mx1 + 1\<rparr>), db)
           else case parse_time (le_cooldown e) of
             None \<Rightarrow> (Inr (''cooling_down'', mx1), db)
           | Some until \<Rightarrow>
               if now < until then (Inr (''cooling_down'', mx1), db)
               else (case run_tx (transition_resident_lifecycle_event ids (le_id e) ''cooling_down'' ''review_pending''
                   ''cooldown_revalidated'' ''scheduler'' (Some ''world-lifecycle'') (db_time now) None
                   [(''evidence_count'', JInt (int (length current)))]) db of
                  (Inl x, db1) \<Rightarrow> (Inl x, db1)
                | (Inr None, db1) \<Rightarrow> (Inr (''state_changed'', mx1), db1)
                | (Inr (Some _), db1) \<Rightarrow> (Inr (''review_pending'',
                    mx1\<lparr>mx_advanced := mx_advanced mx1 + 1, mx_review := mx_review mx1 + 1\<rparr>), db1))))"

definition evaluate_scope ::
  "(string \<Rightarrow> string) \<Rightarrow> fresh_ids \<Rightarrow> lifecycle_policy \<Rightarrow> int \<Rightarrow> life_scope \<Rightarrow> metrics \<Rightarrow> world_db \<Rightarrow>
     (string \<times> metrics) res \<times> world_db" where
  "evaluate_scope sha ids p now sp mx db =
     (let r = sp_resident sp; runtime = py_strip (case rs_runtime r of None \<Rightarrow> [] | Some s \<Rightarrow> s)
      in if rs_origin r = ''legacy'' then (Inr (''legacy_skipped'', mx\<lparr>mx_legacy := mx_legacy mx + 1\<rparr>), db)
      else if runtime = [] then (Inr (''runtime_missing'', mx), db)
      else case observations_for_resident (rs_id r) runtime now p db of
        Inl e \<Rightarrow> (Inl e, db)
      | Inr obs \<Rightarrow>
          (let severe = severe_abuse_evidence now obs p;
               crisis_until = latest_crisis_freeze_until now obs p;
               mismatch = value_misalignment_evidence now obs p;
               inactivity = inactivity_evidence p sp now
           in case sp_event sp of
             Some e \<Rightarrow> revalidate_open_event ids sp e now severe mismatch inactivity crisis_until mx db
           | None \<Rightarrow>
              (if severe \<noteq> [] then create_candidate sha ids p sp now ''severe_abuse'' severe ''review_pending''
                  crisis_until (sp_active_count sp \<le> 1) mx db
               else if crisis_until \<noteq> None then (Inr (''crisis_frozen'', mx\<lparr>mx_frozen := mx_frozen mx + 1\<rparr>), db)
               else if sp_active_count sp \<le> 1
               then (Inr (''last_resident_blocked'', mx\<lparr>mx_last_blocked := mx_last_blocked mx + 1\<rparr>), db)
               else if mismatch \<noteq> [] then create_candidate sha ids p sp now ''value_misalignment'' mismatch
                  ''cooling_down'' None False mx db
               else if inactivity \<noteq> [] then create_candidate sha ids p sp now ''inactivity'' inactivity
                  ''cooling_down'' None False mx db
               else (Inr (''not_eligible'', mx), db))))"

text \<open>\<open>evaluate_batch\<close>: the scopes are read once; an exception ends the batch.\<close>

fun evaluate_scopes ::
  "(string \<Rightarrow> string) \<Rightarrow> (nat \<Rightarrow> fresh_ids) \<Rightarrow> lifecycle_policy \<Rightarrow> int \<Rightarrow> life_scope list \<Rightarrow> metrics \<Rightarrow>
     world_db \<Rightarrow> ((string \<times> string) list \<times> metrics) res \<times> world_db" where
  "evaluate_scopes sha ids p now [] mx db = (Inr ([], mx), db)"
| "evaluate_scopes sha ids p now (sp # sps) mx db =
     (case evaluate_scope sha (ids (length sps)) p now sp (mx\<lparr>mx_scanned := mx_scanned mx + 1\<rparr>) db of
        (Inl e, db1) \<Rightarrow> (Inl e, db1)
      | (Inr (status, mx1), db1) \<Rightarrow> (case evaluate_scopes sha ids p now sps mx1 db1 of
          (Inl e, db2) \<Rightarrow> (Inl e, db2)
        | (Inr (rest, mx2), db2) \<Rightarrow> (Inr ((rs_id (sp_resident sp), status) # rest, mx2), db2)))"

definition evaluate_batch ::
  "(string \<Rightarrow> string) \<Rightarrow> (nat \<Rightarrow> fresh_ids) \<Rightarrow> lifecycle_policy \<Rightarrow> int \<Rightarrow> string option \<Rightarrow> int \<Rightarrow> world_db \<Rightarrow>
     ((string \<times> string) list \<times> metrics \<times> string option) res \<times> world_db" where
  "evaluate_batch sha ids p now after_id batch_size db =
     (let scopes = list_resident_lifecycle_scopes after_id batch_size db
      in case evaluate_scopes sha ids p now scopes no_metrics db of
        (Inl e, db1) \<Rightarrow> (Inl e, db1)
      | (Inr (results, mx), db1) \<Rightarrow>
          (if int (length scopes) < batch_size then (Inr (results, mx, None), db1)
           else if scopes = [] then (Inl (DomainError ''IndexError''), db1)
           else (Inr (results, mx, Some (rs_id (sp_resident (last scopes)))), db1)))"

section \<open>The staff decision\<close>

record farewell =
  fw_event :: lifecycle_event
  fw_post :: world_post
  fw_replayed :: bool

definition evidence_valid ::
  "lifecycle_policy \<Rightarrow> int \<Rightarrow> commit_scope \<Rightarrow> evidence_ref list \<Rightarrow> bool" where
  "evidence_valid p now sc obs =
     (let typ = le_type (cs_event sc) in
      if typ = ''severe_abuse'' then severe_abuse_evidence now obs p \<noteq> []
      else if typ = ''value_misalignment'' then value_misalignment_evidence now obs p \<noteq> []
      else if typ = ''inactivity''
      then (case first_some (parse_time (map_option snd (cs_last_inbound sc)))
              (first_some (parse_time (rs_joined (cs_resident sc))) (parse_time (Some (rs_created (cs_resident sc))))) of
              None \<Rightarrow> False | Some anchor \<Rightarrow> inactivity_is_due now anchor p)
      else False)"

definition commit_error :: "string \<Rightarrow> 'x res" where
  "commit_error code = Inl (DomainError code)"

text \<open>
  The body of the transaction of \<open>approve_lifecycle_event\<close>. \<open>LifecycleCommitError\<close> is
  \<open>DomainError\<close>.
\<close>

definition approve_tx ::
  "fresh_ids \<Rightarrow> bool \<Rightarrow> string \<Rightarrow> string \<Rightarrow> string \<Rightarrow> bool \<Rightarrow> string \<Rightarrow> int \<Rightarrow> lifecycle_policy option \<Rightarrow>
     world_db \<Rightarrow> (farewell \<times> world_db) res" where
  "approve_tx ids lock_free event_id text reason allow_exception admin now policy db =
     and_then (lock_resident_lifecycle_commit_scope event_id db) (\<lambda>scope. case scope of
       None \<Rightarrow> commit_error ''lifecycle_event_not_found''
     | Some sc \<Rightarrow>
       let e = cs_event sc in
       if le_status e = ''committed''
       then (case find_row (\<lambda>p. Some (wp_id p) = le_post e) (world_posts db) of
           None \<Rightarrow> Inl (RuntimeError ''committed lifecycle event is missing farewell'')
         | Some post \<Rightarrow> (case find_event event_id db of
             None \<Rightarrow> Inl (RuntimeError ''committed lifecycle event disappeared'')
           | Some e1 \<Rightarrow> Inr (\<lparr>fw_event = e1, fw_post = post, fw_replayed = True\<rparr>, db)))
       else if le_status e \<noteq> ''review_pending'' then commit_error ''lifecycle_event_not_reviewable''
       else if uv_status (cs_world sc) \<noteq> ''active'' \<or> uv_onboarding (cs_world sc) \<noteq> ''confirmed''
       then commit_error ''lifecycle_event_not_reviewable''
       else if rs_origin (cs_resident sc) = ''legacy'' then commit_error ''legacy_resident_departure_forbidden''
       else if rs_status (cs_resident sc) \<noteq> ''active'' \<or> or_none (rs_runtime (cs_resident sc)) = None
       then commit_error ''lifecycle_event_not_reviewable''
       else (case policy_from_event_version (le_policy e) of
         Inl (ValueError _) \<Rightarrow> commit_error ''lifecycle_policy_invalid''
       | Inl x \<Rightarrow> Inl x
       | Inr p \<Rightarrow>
         if opt_all (\<lambda>q. lp_version p = lp_version q) policy
         then and_then (observations_for_resident (rs_id (cs_resident sc)) (the (rs_runtime (cs_resident sc))) now p db)
           (\<lambda>obs.
             let typ = le_type e; cooldown = parse_time (le_cooldown e);
                 last_exception = (typ = ''severe_abuse'' \<and> allow_exception)
             in if typ \<noteq> ''severe_abuse'' \<and> (cooldown = None \<or> now < the cooldown)
             then commit_error ''lifecycle_event_not_reviewable''
             else if typ \<noteq> ''severe_abuse'' \<and> latest_crisis_freeze_until now obs p \<noteq> None
             then commit_error ''crisis_freeze_active''
             else if cs_active_count sc \<le> 1 \<and> \<not> last_exception then commit_error ''last_resident_protected''
             else if \<not> evidence_valid p now sc obs then commit_error ''lifecycle_evidence_invalid''
             else if \<not> lock_free then commit_error ''conversation_busy''
             else (case find_row (\<lambda>c. ac_id c = ac_id (cs_conversation sc)) (ai_conversations db) of
                 None \<Rightarrow> commit_error ''lifecycle_event_not_reviewable''
               | Some c \<Rightarrow> if ac_state c \<noteq> ''active'' then commit_error ''lifecycle_event_not_reviewable''
                   else and_then (commit_locked_resident_offline ids (le_id e) (le_world e) (le_resident e)
                       (ac_id (cs_conversation sc)) (le_owner e) text admin reason last_exception (db_time now) db)
                     (\<lambda>((e1, post), db1). Inr (\<lparr>fw_event = e1, fw_post = post, fw_replayed = False\<rparr>, db1))))
         else commit_error ''lifecycle_policy_invalid''))"

definition value_error_as :: "string \<Rightarrow> 'x res \<Rightarrow> 'x res" where
  "value_error_as code m = (case m of Inl (ValueError _) \<Rightarrow> commit_error code | x \<Rightarrow> x)"

definition approve_lifecycle_event ::
  "fresh_ids \<Rightarrow> bool \<Rightarrow> string \<Rightarrow> string \<Rightarrow> string \<Rightarrow> bool \<Rightarrow> string \<Rightarrow> int \<Rightarrow> lifecycle_policy option \<Rightarrow>
     world_db \<Rightarrow> (farewell \<times> world_db) res" where
  "approve_lifecycle_event ids lock_free event_id farewell_text reason allow_exception admin now policy db =
     (let text = py_strip farewell_text; why = py_strip reason
      in if text = [] \<or> 2000 < int (length text) \<or> CHR 0x00 \<in> set text then commit_error ''farewell_invalid''
         else if why = [] then commit_error ''lifecycle_event_not_reviewable''
         else value_error_as ''lifecycle_commit_conflict''
           (approve_tx ids lock_free event_id text why allow_exception admin now policy db))"

text \<open>\<open>None\<close> is answered as \<open>lifecycle_event_not_found\<close>, after the transaction.\<close>

definition correct_lifecycle_event ::
  "fresh_ids \<Rightarrow> string \<Rightarrow> string \<Rightarrow> bool \<Rightarrow> string \<Rightarrow> int \<Rightarrow> world_db \<Rightarrow> (lifecycle_event option \<times> world_db) res" where
  "correct_lifecycle_event ids event_id reason hide_farewell admin now db =
     value_error_as ''lifecycle_event_not_correctable''
       (correct_committed_resident_lifecycle_event ids event_id admin reason hide_farewell (db_time now) db)"

end
