(* ===== verification/World_Laws.thy ===== *)
theory World_Laws
imports World_Service
begin

text \<open>
  The invariant of departures and its preservation. A state is \<open>audited\<close> when every offline
  resident has its committed event, its farewell post, its read-only conversation and the staff's
  audit action, and every committed event has its offline resident. Every operation but the
  approval is \<open>mild\<close>: it leaves all of that alone.
\<close>

section \<open>What departures consist of\<close>

definition committed_view :: "world_db \<Rightarrow> (string \<times> string \<times> string \<times> string option) list" where
  "committed_view db = map (\<lambda>e. (le_id e, le_resident e, le_world e, le_post e))
     (filter (\<lambda>e. le_status e = ''committed'') (lifecycle_events db))"

definition farewell_view :: "world_db \<Rightarrow> (string \<times> string option \<times> string option \<times> string) list" where
  "farewell_view db = map (\<lambda>p. (wp_id p, wp_departure p, wp_resident p, wp_world p))
     (filter (\<lambda>p. wp_departure p \<noteq> None) (world_posts db))"

definition departure_ok :: "world_db \<Rightarrow> resident \<Rightarrow> bool" where
  "departure_ok db r = list_ex (\<lambda>(eid, rid, wid, post).
     rs_departure r = Some eid \<and> rid = rs_id r \<and> wid = rs_universe r \<and> post \<noteq> None \<and>
     list_ex (\<lambda>x. x = (the post, Some eid, Some rid, wid)) (farewell_view db) \<and>
     list_ex (\<lambda>a. la_event a = eid \<and> la_action a = ''admin_committed_offline'' \<and> la_actor_type a = ''admin'')
       (lifecycle_actions db) \<and>
     list_all (\<lambda>c. ac_resident c \<noteq> rid \<or> ac_state c = ''read_only'') (ai_conversations db)) (committed_view db)"

definition departed :: "world_db \<Rightarrow> string \<times> string \<times> string \<times> string option \<Rightarrow> bool" where
  "departed db v = (case v of (eid, rid, wid, post) \<Rightarrow>
     list_ex (\<lambda>r. rs_id r = rid \<and> rs_status r = ''offline'' \<and> rs_departure r = Some eid) (residents db))"

definition world_keys_ok :: "world_db \<Rightarrow> bool" where
  "world_keys_ok db = (unique_on (\<lambda>_. True) rs_id (residents db) \<and>
     unique_on (\<lambda>_. True) ac_resident (ai_conversations db) \<and>
     unique_on (\<lambda>_. True) le_id (lifecycle_events db))"

definition audited :: "world_db \<Rightarrow> bool" where
  "audited db = (world_keys_ok db \<and>
     list_all (\<lambda>r. rs_status r \<noteq> ''offline'' \<or> departure_ok db r) (residents db) \<and>
     list_all (departed db) (committed_view db))"

definition mild :: "world_db \<Rightarrow> world_db \<Rightarrow> bool" where
  "mild db db' = (residents db' = residents db \<and> ai_conversations db' = ai_conversations db \<and>
     committed_view db' = committed_view db \<and> farewell_view db' = farewell_view db \<and>
     set (lifecycle_actions db) \<subseteq> set (lifecycle_actions db') \<and>
     (unique_on (\<lambda>_. True) le_id (lifecycle_events db) \<longrightarrow> unique_on (\<lambda>_. True) le_id (lifecycle_events db')))"

lemma mild_refl [simp]: "mild db db"
  by (simp add: mild_def)

lemma mild_trans: "mild a b \<Longrightarrow> mild b c \<Longrightarrow> mild a c"
  by (auto simp: mild_def)

lemma mild_audited:
  assumes "mild db db'" and "audited db"
  shows "audited db'"
proof -
  have "departure_ok db' r" if "departure_ok db r" for r
    using that assms(1) unfolding departure_ok_def mild_def by (fastforce simp: list_ex_iff)
  then show ?thesis
    using assms unfolding audited_def by (auto simp: mild_def world_keys_ok_def departed_def list_all_iff)
qed

lemma mild_active: "mild db db' \<Longrightarrow> active_residents w db' = active_residents w db"
  by (simp add: mild_def active_residents_def)

section \<open>Effects of the repository\<close>

lemma append_action_effect:
  assumes "append_action aid eid action actor_type actor meta created db = Inr db'"
  obtains a where "db' = db\<lparr>lifecycle_actions := lifecycle_actions db @ [a]\<rparr>" and "la_event a = eid"
    and "la_action a = py_strip action" and "la_actor_type a = py_strip actor_type"
proof -
  from assms obtain t where t: "validate_actor actor_type = Inr t" and
    d: "db' = db\<lparr>lifecycle_actions := lifecycle_actions db @ [\<lparr>la_id = aid, la_event = eid,
         la_action = py_strip action, la_actor_type = t, la_actor = strip_opt actor, la_meta = meta,
         la_created = created\<rparr>]\<rparr>"
    by (auto simp: append_action_def and_then_Inr clean_required_def Let_def split: if_splits)
  have "t = py_strip actor_type"
    using t by (auto simp: validate_actor_def and_then_Inr clean_required_def Let_def split: if_splits)
  with d show thesis by (intro that [of "\<lparr>la_id = aid, la_event = eid, la_action = py_strip action,
      la_actor_type = t, la_actor = strip_opt actor, la_meta = meta, la_created = created\<rparr>"]) simp_all
qed

lemma committed_view_update:
  assumes "\<And>e. p e \<Longrightarrow> le_status e \<noteq> ''committed'' \<and> le_status (f e) \<noteq> ''committed''"
  shows "committed_view (db\<lparr>lifecycle_events := update_where p f (lifecycle_events db)\<rparr>) = committed_view db"
proof -
  have "map v (filter (\<lambda>e. le_status e = ''committed'') (update_where p f es)) =
      map v (filter (\<lambda>e. le_status e = ''committed'') es)" for v :: "lifecycle_event \<Rightarrow> 'v" and es
    using assms by (induction es) auto
  then show ?thesis by (simp add: committed_view_def)
qed

lemma committed_view_same:
  assumes "\<And>e. le_status (f e) = le_status e \<and> le_id (f e) = le_id e \<and> le_resident (f e) = le_resident e \<and>
    le_world (f e) = le_world e \<and> le_post (f e) = le_post e"
  shows "committed_view (db\<lparr>lifecycle_events := update_where p f (lifecycle_events db)\<rparr>) = committed_view db"
proof -
  have "map (\<lambda>e. (le_id e, le_resident e, le_world e, le_post e))
      (filter (\<lambda>e. le_status e = ''committed'') (update_where p f es)) =
      map (\<lambda>e. (le_id e, le_resident e, le_world e, le_post e)) (filter (\<lambda>e. le_status e = ''committed'') es)" for es
    using assms by (induction es) auto
  then show ?thesis by (simp add: committed_view_def)
qed

lemma committed_view_frame [simp]:
  "committed_view (db\<lparr>lifecycle_actions := x1\<rparr>) = committed_view db"
  "committed_view (db\<lparr>world_posts := x2\<rparr>) = committed_view db"
  "committed_view (db\<lparr>outbox := x3\<rparr>) = committed_view db"
  "committed_view (db\<lparr>residents := x4\<rparr>) = committed_view db"
  "committed_view (db\<lparr>ai_conversations := x5\<rparr>) = committed_view db"
  by (simp_all add: committed_view_def)

lemma farewell_view_frame [simp]:
  "farewell_view (db\<lparr>lifecycle_actions := x1\<rparr>) = farewell_view db"
  "farewell_view (db\<lparr>lifecycle_events := x2\<rparr>) = farewell_view db"
  "farewell_view (db\<lparr>outbox := x3\<rparr>) = farewell_view db"
  "farewell_view (db\<lparr>residents := x4\<rparr>) = farewell_view db"
  "farewell_view (db\<lparr>ai_conversations := x5\<rparr>) = farewell_view db"
  by (simp_all add: farewell_view_def)

lemma open_not_committed: "s \<in> set OPEN_STATUSES \<Longrightarrow> s \<noteq> ''committed''"
  by (auto simp: OPEN_STATUSES_def)

lemma append_action_mild:
  assumes "append_action aid eid action actor_type actor meta created db = Inr db'"
  shows "mild db db'"
  using assms by (rule append_action_effect) (auto simp: mild_def)

lemma insert_event_mild: "insert_event e db = (b, db1) \<Longrightarrow> event_open e \<Longrightarrow> mild db db1"
  using open_not_committed [of "le_status e"]
  by (auto simp: insert_event_def mild_def committed_view_def event_open_def farewell_view_def unique_on_snoc image_iff
      split: if_splits) metis

lemma event_row_open: "status \<in> set OPEN_STATUSES \<Longrightarrow> event_open (event_row ids n ow w r t status p k f)"
  by (simp add: event_open_def event_row_def)

definition mild_from :: "world_db \<Rightarrow> 'x \<times> world_db \<Rightarrow> bool" where
  "mild_from db r = mild db (snd r)"

lemma create_mild: "res_all (mild_from db) (create_resident_lifecycle_event ids n db)"
  unfolding create_resident_lifecycle_event_def Let_def mild_from_def
  by (auto intro!: res_all_bind event_row_open split: option.split prod.split bool.split
      dest!: append_action_mild insert_event_mild) (blast intro: mild_trans)+

lemma repository_target: "repository_transition_allowed expected target \<Longrightarrow> expected \<noteq> ''committed''"
  by (auto simp: repository_transition_allowed_def split: if_splits)

lemma transition_mild: "res_all (mild_from db)
  (transition_resident_lifecycle_event ids eid expected target action actor_type actor now reason meta db)"
proof -
  have upd: "mild db (db\<lparr>lifecycle_events := update_where (\<lambda>e. le_id e = eid \<and> le_status e = ex)
      (\<lambda>e. e\<lparr>le_status := tg, le_reason := r, le_updated := t\<rparr>) (lifecycle_events db)\<rparr>)"
    if "tg \<noteq> ''committed''" "repository_transition_allowed ex tg" for ex tg r t
    using that repository_target [OF that(2)]
    by (simp add: mild_def unique_on_update) (rule committed_view_update, simp)
  show ?thesis
    unfolding transition_resident_lifecycle_event_def Let_def mild_from_def
    by (auto intro!: res_all_bind upd dest!: append_action_mild) (blast intro: mild_trans upd)+
qed

lemma insert_outbox_effect:
  "insert_outbox o1 db = Inr (x, db') \<Longrightarrow> \<exists>rows. db' = db\<lparr>outbox := rows\<rparr>"
  by (auto simp: insert_outbox_def and_then_Inr split: if_splits intro: exI [of _ "outbox db"])

lemma mild_outbox [simp]: "mild db (db\<lparr>outbox := rows\<rparr>)"
  by (simp add: mild_def)

lemma farewell_view_same:
  assumes "\<And>p. wp_id (f p) = wp_id p \<and> wp_departure (f p) = wp_departure p \<and> wp_resident (f p) = wp_resident p \<and>
    wp_world (f p) = wp_world p"
  shows "farewell_view (db\<lparr>world_posts := update_where q f (world_posts db)\<rparr>) = farewell_view db"
proof -
  have "map (\<lambda>p. (wp_id p, wp_departure p, wp_resident p, wp_world p)) (filter (\<lambda>p. wp_departure p \<noteq> None) (update_where q f ps)) =
      map (\<lambda>p. (wp_id p, wp_departure p, wp_resident p, wp_world p)) (filter (\<lambda>p. wp_departure p \<noteq> None) ps)" for ps
    using assms by (induction ps) auto
  then show ?thesis by (simp add: farewell_view_def)
qed

text \<open>The two updates of a correction keep what departures consist of.\<close>

lemma hide_post_mild: "mild db (db\<lparr>world_posts := update_where q
    (\<lambda>p. p\<lparr>wp_status := s, wp_reason := x, wp_deleted := y, wp_updated := z\<rparr>) (world_posts db)\<rparr>)"
  by (simp add: mild_def farewell_view_same)

lemma correction_mild: "mild db (db\<lparr>lifecycle_events := update_where q
    (\<lambda>e. e\<lparr>le_correction := a, le_corrected_by := b, le_corrected := c, le_correction_reason := d, le_updated := u\<rparr>)
    (lifecycle_events db)\<rparr>)"
  by (simp add: mild_def committed_view_same unique_on_update)

lemma hide_farewell_mild: "hide_farewell_post ids eid w post now db = Inr db' \<Longrightarrow> mild db db'"
  unfolding hide_farewell_post_def Let_def and_then_Inr
  by (auto split: option.splits if_splits dest!: insert_outbox_effect intro: mild_trans [OF hide_post_mild mild_outbox])

lemma correct_mild: "res_all (mild_from db)
  (correct_committed_resident_lifecycle_event ids eid who why hide now db)"
proof -
  have fin: "mild db db4" if "mild db db2" "append_action aid ev act at ac m t (db2\<lparr>lifecycle_events := update_where q
      (\<lambda>e. e\<lparr>le_correction := a, le_corrected_by := b, le_corrected := c, le_correction_reason := d, le_updated := u\<rparr>)
      (lifecycle_events db2)\<rparr>) = Inr db4" for db2 aid ev act at ac m t q a b c d u db4
    using mild_trans [OF mild_trans [OF that(1) correction_mild] append_action_mild [OF that(2)]] .
  show ?thesis
    unfolding correct_committed_resident_lifecycle_event_def Let_def mild_from_def
    by (auto intro!: res_all_bind split: option.split dest!: hide_farewell_mild) (blast intro: fin mild_refl)+
qed

section \<open>The commit\<close>

text \<open>What a commit writes, as one update of the database.\<close>

definition committed_state ::
  "fresh_ids \<Rightarrow> string \<Rightarrow> string \<Rightarrow> string \<Rightarrow> string \<Rightarrow> string \<Rightarrow> int \<Rightarrow> string \<Rightarrow> string \<Rightarrow> string \<Rightarrow>
     outbox_row list \<Rightarrow> lifecycle_action \<Rightarrow> world_db \<Rightarrow> world_db" where
  "committed_state ids eid wid rid cid owner now text admin reason rows a db =
     db\<lparr>world_posts := world_posts db @ [farewell_post (fi_post ids) eid wid rid text now], outbox := rows,
       residents := update_where (leaving rid wid) (gone eid now) (residents db),
       ai_conversations := update_where (talking cid rid owner) (silenced now) (ai_conversations db),
       lifecycle_events := update_where (pending_event eid wid rid)
         (committed_by (fi_post ids) text admin reason now) (lifecycle_events db),
       lifecycle_actions := lifecycle_actions db @ [a]\<rparr>"

definition commit_result ::
  "fresh_ids \<Rightarrow> string \<Rightarrow> string \<Rightarrow> string \<Rightarrow> string \<Rightarrow> string \<Rightarrow> int \<Rightarrow> world_db \<Rightarrow> world_db \<Rightarrow> bool" where
  "commit_result ids eid wid rid cid owner now db db' =
     (count_where (leaving rid wid) (residents db) = 1 \<and>
      count_where (talking cid rid owner) (ai_conversations db) = 1 \<and>
      count_where (pending_event eid wid rid) (lifecycle_events db) = 1 \<and>
      (\<exists>text admin reason rows a. la_event a = eid \<and> la_action a = ''admin_committed_offline'' \<and>
        la_actor_type a = ''admin'' \<and>
        db' = committed_state ids eid wid rid cid owner now text admin reason rows a db))"

lemma update_one_Inr: "update_one p rs msg = Inr u \<longleftrightarrow> count_where p rs = 1"
  by (simp add: update_one_def)

lemma commit_parts:
  assumes "insert_post (farewell_post (fi_post ids) eid wid rid text now) db = Inr db1"
    and "insert_outbox o1 db1 = Inr (w, db2)"
    and "update_one (leaving rid wid) (residents db2) m1 = Inr u1"
    and "update_one (talking cid rid owner) (ai_conversations db2) m2 = Inr u2"
    and "update_one (pending_event eid wid rid) (lifecycle_events db2) m3 = Inr u3"
    and "append_action aid eid ''admin_committed_offline'' ''admin'' actor meta now
      (db2\<lparr>residents := update_where (leaving rid wid) (gone eid now) (residents db2),
           ai_conversations := update_where (talking cid rid owner) (silenced now) (ai_conversations db2),
           lifecycle_events := update_where (pending_event eid wid rid)
             (committed_by (fi_post ids) text admin reason now) (lifecycle_events db2)\<rparr>) = Inr db'"
  shows "commit_result ids eid wid rid cid owner now db db'"
proof -
  have d1: "db1 = db\<lparr>world_posts := world_posts db @ [farewell_post (fi_post ids) eid wid rid text now]\<rparr>"
    using assms(1) by (simp add: insert_post_def split: if_splits)
  from insert_outbox_effect [OF assms(2)] obtain rows where d2: "db2 = db1\<lparr>outbox := rows\<rparr>" by blast
  from assms(6) obtain a where a: "la_event a = eid" "la_action a = py_strip ''admin_committed_offline''"
    "la_actor_type a = py_strip ''admin''"
    and d: "db' = committed_state ids eid wid rid cid owner now text admin reason rows a db"
    by (rule append_action_effect) (simp add: d1 d2 committed_state_def)
  have s: "py_strip ''admin_committed_offline'' = ''admin_committed_offline''" "py_strip ''admin'' = ''admin''"
    by code_simp+
  from d a have "\<exists>text admin reason rows a. la_event a = eid \<and> la_action a = ''admin_committed_offline'' \<and>
        la_actor_type a = ''admin'' \<and>
        db' = committed_state ids eid wid rid cid owner now text admin reason rows a db"
    unfolding s by blast
  with assms(3-5) show ?thesis
    unfolding commit_result_def by (simp add: update_one_Inr d1 d2)
qed

lemma commit_effect:
  "res_all (\<lambda>r. commit_result ids eid wid rid cid owner now db (snd r))
     (commit_locked_resident_offline ids eid wid rid cid owner text admin reason exc now db)"
  unfolding commit_locked_resident_offline_def Let_def
  by (auto intro!: res_all_bind split: option.split) (rule commit_parts; assumption)

lemma committed_state_views:
  assumes "count_where (pending_event eid wid rid) (lifecycle_events db) = 1"
  shows "set (committed_view (committed_state ids eid wid rid cid owner now text admin reason rows a db)) =
      insert (eid, rid, wid, Some (fi_post ids)) (set (committed_view db))"
    and "set (farewell_view (committed_state ids eid wid rid cid owner now text admin reason rows a db)) =
      insert (fi_post ids, Some eid, Some rid, wid) (set (farewell_view db))"
proof -
  obtain e0 where e0: "e0 \<in> set (lifecycle_events db)" "pending_event eid wid rid e0"
    using count_where_one [OF assms] by blast
  let ?v = "\<lambda>e. (le_id e, le_resident e, le_world e, le_post e)"
  let ?f = "committed_by (fi_post ids) text admin reason now"
  have f: "le_status (?f e) = ''committed''" "?v (?f e) = (le_id e, le_resident e, le_world e, Some (fi_post ids))" for e
    by (simp_all add: committed_by_def)
  have p: "le_status e \<noteq> ''committed''" "?v (?f e) = (eid, rid, wid, Some (fi_post ids))"
    if "pending_event eid wid rid e" for e
    using that by (simp_all add: pending_event_def committed_by_def)
  let ?t = "(eid, rid, wid, Some (fi_post ids))"
  have one: "(le_status (if pending_event eid wid rid e then ?f e else e) = ''committed'' \<and>
      v = ?v (if pending_event eid wid rid e then ?f e else e)) \<longleftrightarrow>
      (pending_event eid wid rid e \<and> v = ?t \<or> le_status e = ''committed'' \<and> v = ?v e)" for e v
    by (cases "pending_event eid wid rid e") (simp_all only: if_True if_False f(1) p simp_thms)
  show "set (committed_view (committed_state ids eid wid rid cid owner now text admin reason rows a db)) =
      insert ?t (set (committed_view db))"
  proof (rule set_eqI)
    fix v
    have "v \<in> set (committed_view (committed_state ids eid wid rid cid owner now text admin reason rows a db)) \<longleftrightarrow>
        (\<exists>e \<in> set (lifecycle_events db). le_status (if pending_event eid wid rid e then ?f e else e) = ''committed'' \<and>
          v = ?v (if pending_event eid wid rid e then ?f e else e))"
      by (auto simp: committed_view_def committed_state_def set_update_where)
    also have "\<dots> \<longleftrightarrow> v = ?t \<or> (\<exists>e \<in> set (lifecycle_events db). le_status e = ''committed'' \<and> v = ?v e)"
      unfolding one using e0 by blast
    also have "\<dots> \<longleftrightarrow> v \<in> insert ?t (set (committed_view db))"
      by (auto simp: committed_view_def)
    finally show "v \<in> set (committed_view (committed_state ids eid wid rid cid owner now text admin reason rows a db)) \<longleftrightarrow>
        v \<in> insert ?t (set (committed_view db))" .
  qed
  show "set (farewell_view (committed_state ids eid wid rid cid owner now text admin reason rows a db)) =
      insert (fi_post ids, Some eid, Some rid, wid) (set (farewell_view db))"
    by (simp add: farewell_view_def committed_state_def farewell_post_def)
qed

lemma departure_ok_iff:
  "departure_ok db r \<longleftrightarrow> (\<exists>eid post. rs_departure r = Some eid \<and>
     (eid, rs_id r, rs_universe r, Some post) \<in> set (committed_view db) \<and>
     (post, Some eid, Some (rs_id r), rs_universe r) \<in> set (farewell_view db) \<and>
     (\<exists>a \<in> set (lifecycle_actions db). la_event a = eid \<and> la_action a = ''admin_committed_offline'' \<and>
        la_actor_type a = ''admin'') \<and>
     (\<forall>c \<in> set (ai_conversations db). ac_resident c \<noteq> rs_id r \<or> ac_state c = ''read_only''))"
    (is "_ = (\<exists>eid post. ?P eid post)")
proof
  assume "departure_ok db r"
  then obtain eid rid wid post where "(eid, rid, wid, post) \<in> set (committed_view db)"
    and "rs_departure r = Some eid \<and> rid = rs_id r \<and> wid = rs_universe r \<and> post \<noteq> None \<and>
     list_ex (\<lambda>x. x = (the post, Some eid, Some rid, wid)) (farewell_view db) \<and>
     list_ex (\<lambda>a. la_event a = eid \<and> la_action a = ''admin_committed_offline'' \<and> la_actor_type a = ''admin'')
       (lifecycle_actions db) \<and>
     list_all (\<lambda>c. ac_resident c \<noteq> rid \<or> ac_state c = ''read_only'') (ai_conversations db)"
    unfolding departure_ok_def list_ex_iff by fast
  then have "?P eid (the post)" unfolding list_ex_iff list_all_iff by auto
  then show "\<exists>eid post. ?P eid post" by blast
next
  assume "\<exists>eid post. ?P eid post"
  then obtain eid post where p: "?P eid post" by blast
  show "departure_ok db r"
    unfolding departure_ok_def list_ex_iff
    by (rule bexI [of _ "(eid, rs_id r, rs_universe r, Some post)"]) (use p in \<open>simp_all add: list_ex_iff list_all_iff\<close>)
qed

lemma audited_commit:
  assumes aud: "audited db" and c: "commit_result ids eid wid rid cid owner now db db'"
  shows "audited db'"
proof -
  from c obtain msg admin reason rows a where n: "count_where (leaving rid wid) (residents db) = 1"
      "count_where (talking cid rid owner) (ai_conversations db) = 1"
      "count_where (pending_event eid wid rid) (lifecycle_events db) = 1"
    and a: "la_event a = eid" "la_action a = ''admin_committed_offline''" "la_actor_type a = ''admin''"
    and d: "db' = committed_state ids eid wid rid cid owner now msg admin reason rows a db"
    unfolding commit_result_def by blast
  note views = committed_state_views [OF n(3), of ids cid owner now msg admin reason rows a, folded d]
  have res: "residents db' = update_where (leaving rid wid) (gone eid now) (residents db)"
    and conv: "ai_conversations db' = update_where (talking cid rid owner) (silenced now) (ai_conversations db)"
    and act: "lifecycle_actions db' = lifecycle_actions db @ [a]"
    and evs: "lifecycle_events db' = update_where (pending_event eid wid rid)
      (committed_by (fi_post ids) msg admin reason now) (lifecycle_events db)"
    by (simp_all add: d committed_state_def)
  have keys: "world_keys_ok db" and off: "\<And>r. r \<in> set (residents db) \<Longrightarrow> rs_status r = ''offline'' \<Longrightarrow> departure_ok db r"
    and dep: "\<And>v. v \<in> set (committed_view db) \<Longrightarrow> departed db v"
    using aud by (auto simp: audited_def list_all_iff)
  from count_where_one [OF n(1)] obtain r0 where r0: "r0 \<in> set (residents db)" "leaving rid wid r0" by blast
  from count_where_one [OF n(2)] obtain c0 where c0: "c0 \<in> set (ai_conversations db)" "talking cid rid owner c0" by blast
  have quiet: "list_all (\<lambda>c. ac_resident c \<noteq> rid \<or> ac_state c = ''read_only'') (ai_conversations db')"
    unfolding list_all_iff
  proof
    fix x
    assume "x \<in> set (ai_conversations db')"
    then obtain y where y: "y \<in> set (ai_conversations db)" "x = (if talking cid rid owner y then silenced now y else y)"
      by (auto simp: conv set_update_where)
    have "y = c0" if "ac_resident y = rid"
      using keys y(1) c0 that unique_onD [of "\<lambda>_. True" ac_resident "ai_conversations db" y c0]
      by (simp add: world_keys_ok_def talking_def)
    then show "ac_resident x \<noteq> rid \<or> ac_state x = ''read_only''"
      using y(2) c0(2) by (cases "talking cid rid owner y") (auto simp: silenced_def)
  qed
  have mono: "departure_ok db' r" if "departure_ok db r" for r
  proof -
    from that obtain e p where "rs_departure r = Some e" "(e, rs_id r, rs_universe r, Some p) \<in> set (committed_view db)"
        "(p, Some e, Some (rs_id r), rs_universe r) \<in> set (farewell_view db)"
        "\<exists>a \<in> set (lifecycle_actions db). la_event a = e \<and> la_action a = ''admin_committed_offline'' \<and>
          la_actor_type a = ''admin''"
      and q: "\<forall>c \<in> set (ai_conversations db). ac_resident c \<noteq> rs_id r \<or> ac_state c = ''read_only''"
      unfolding departure_ok_iff by blast
    moreover have "\<forall>c \<in> set (ai_conversations db'). ac_resident c \<noteq> rs_id r \<or> ac_state c = ''read_only''"
      using q by (auto simp: conv set_update_where silenced_def)
    ultimately show ?thesis unfolding departure_ok_iff views act by auto
  qed
  have new: "departure_ok db' (gone eid now r)" if "leaving rid wid r" for r
  proof -
    have g: "rs_departure (gone eid now r) = Some eid" "rs_id (gone eid now r) = rid" "rs_universe (gone eid now r) = wid"
      using that by (simp_all add: gone_def leaving_def)
    show ?thesis
      unfolding departure_ok_iff views act g using a quiet
      by (intro exI [of _ eid] exI [of _ "fi_post ids"]) (simp add: list_all_iff)
  qed
  have "rs_status r \<noteq> ''offline'' \<or> departure_ok db' r" if "r \<in> set (residents db')" for r
    using that off mono new by (auto simp: res set_update_where)
  moreover have "departed db' v" if "v \<in> set (committed_view db')" for v
  proof (cases "v = (eid, rid, wid, Some (fi_post ids))")
    case True
    have "gone eid now r0 \<in> set (residents db')"
      using r0 by (auto simp: res set_update_where intro!: image_eqI [of _ _ r0])
    with True r0(2) show ?thesis
      by (auto simp: departed_def list_ex_iff gone_def leaving_def intro!: bexI [of _ "gone eid now r0"])
  next
    case False
    then have "v \<in> set (committed_view db)" using that by (simp add: views)
    from dep [OF this] obtain r where r: "r \<in> set (residents db)" "rs_id r = fst (snd v)"
      "rs_status r = ''offline''" "rs_departure r = Some (fst v)"
      by (auto simp: departed_def list_ex_iff split: prod.splits)
    then have "r \<in> set (residents db')"
      by (auto simp: res set_update_where leaving_def intro!: image_eqI [of _ _ r])
    with r(2-4) show ?thesis by (auto simp: departed_def list_ex_iff split: prod.splits)
  qed
  moreover have "world_keys_ok db'"
    using keys unfolding world_keys_ok_def res conv evs
    by (subst (1 2 3) unique_on_update) (simp_all add: gone_def silenced_def committed_by_def)
  ultimately show ?thesis unfolding audited_def list_all_iff by blast
qed

lemma count_where_update:
  "count_where q (update_where p f rs) = count_where (\<lambda>r. if p r then q (f r) else q r) rs"
  by (induction rs) auto

lemma count_where_split: "count_where q rs = count_where (\<lambda>r. q r \<and> p r) rs + count_where (\<lambda>r. q r \<and> \<not> p r) rs"
  by (induction rs) auto

text \<open>A commit takes exactly one active resident from its world and none from any other.\<close>

lemma commit_active:
  assumes c: "commit_result ids eid wid rid cid owner now db db'"
  shows "active_residents w db = active_residents w db' + (if w = wid then 1 else 0)"
proof -
  have n: "count_where (leaving rid wid) (residents db) = 1"
    and res: "residents db' = update_where (leaving rid wid) (gone eid now) (residents db)"
    using c by (auto simp: commit_result_def committed_state_def)
  let ?q = "\<lambda>r. rs_universe r = w \<and> rs_status r = ''active''"
  have "(\<lambda>r. if leaving rid wid r then ?q (gone eid now r) else ?q r) = (\<lambda>r. ?q r \<and> \<not> leaving rid wid r)"
    by (auto simp: gone_def)
  then have "active_residents w db' = count_where (\<lambda>r. ?q r \<and> \<not> leaving rid wid r) (residents db)"
    by (simp add: active_residents_def res count_where_update)
  moreover have "count_where (\<lambda>r. ?q r \<and> leaving rid wid r) (residents db) = (if w = wid then 1 else 0)"
  proof (cases "w = wid")
    case True
    then have "(\<lambda>r. ?q r \<and> leaving rid wid r) = leaving rid wid" by (auto simp: leaving_def)
    then show ?thesis using n True by simp
  next
    case False
    then have "(\<lambda>r. ?q r \<and> leaving rid wid r) = (\<lambda>_. False)" by (auto simp: leaving_def)
    moreover have "count_where (\<lambda>_ :: resident. False) rs = 0" for rs by (simp add: count_where_0)
    ultimately show ?thesis using False by simp
  qed
  ultimately show ?thesis
    using count_where_split [of ?q "residents db" "leaving rid wid"] by (simp add: active_residents_def)
qed

section \<open>The approval\<close>

lemma value_error_as_Inr [simp]: "value_error_as code m = Inr x \<longleftrightarrow> m = Inr x"
  by (auto simp: value_error_as_def commit_error_def split: sum.splits err.splits)

lemma res_all_value_error: "res_all P (value_error_as code m) \<longleftrightarrow> res_all P m"
  by (auto simp: value_error_as_def commit_error_def split: sum.splits err.splits)

lemma commit_error_res_all [simp]: "res_all P (commit_error code)"
  by (simp add: commit_error_def)

lemma scope_count:
  assumes "lock_resident_lifecycle_commit_scope eid db = Inr (Some sc)"
  shows "cs_active_count sc = int (active_residents (le_world (cs_event sc)) db)"
proof -
  have "res_all (\<lambda>s. opt_all (\<lambda>sc. cs_active_count sc = int (active_residents (le_world (cs_event sc)) db)) s)
      (lock_resident_lifecycle_commit_scope eid db)"
    unfolding lock_resident_lifecycle_commit_scope_def by (intro res_all_rules) simp_all
  with assms show ?thesis by simp
qed

text \<open>
  What an approval does to the database: nothing (a replay), or the commit of a departure from a
  world with another active resident, unless staff allowed the exception of severe abuse.
\<close>

definition approval_result :: "bool \<Rightarrow> world_db \<Rightarrow> world_db \<Rightarrow> bool" where
  "approval_result exc db db' = (db' = db \<or> (\<exists>ids eid wid rid cid owner now.
     commit_result ids eid wid rid cid owner now db db' \<and> (1 < active_residents wid db \<or> exc)))"

lemma approve_tx_effect:
  "res_all (\<lambda>r. approval_result exc db (snd r)) (approve_tx ids free eid text why exc admin now policy db)"
proof -
  have com: "approval_result exc db db1"
    if "lock_resident_lifecycle_commit_scope eid db = Inr (Some sc)"
      "1 < cs_active_count sc \<or> exc"
      "commit_locked_resident_offline ids e (le_world (cs_event sc)) rid cid owner text admin why x t db = Inr (v, db1)"
    for sc e rid cid owner x t v db1
  proof -
    have "1 < active_residents (le_world (cs_event sc)) db \<or> exc" using scope_count [OF that(1)] that(2) by simp
    with res_allD [OF commit_effect that(3)] show ?thesis unfolding approval_result_def snd_conv by blast
  qed
  have rep: "approval_result exc db db" by (simp add: approval_result_def)
  show ?thesis
    unfolding approve_tx_def Let_def
    by (intro res_all_rules commit_error_res_all)
      (simp add: rep, simp split: err.split, simp only: snd_conv, rule com, assumption, linarith, simp)
qed

lemma approve_effect:
  "approve_lifecycle_event ids free eid text why exc admin now policy db = Inr (f, db') \<Longrightarrow>
     approval_result exc db db'"
  using res_allD [OF approve_tx_effect]
  by (fastforce simp: approve_lifecycle_event_def Let_def commit_error_def split: if_splits)

lemma correct_effect:
  "correct_lifecycle_event ids eid why hide admin now db = Inr (x, db') \<Longrightarrow> mild db db'"
  unfolding correct_lifecycle_event_def value_error_as_Inr
  by (drule res_allD [OF correct_mild]) (simp add: mild_from_def)

section \<open>The scheduler\<close>

lemma run_tx_mild: "(\<And>d. res_all (mild_from d) (f d)) \<Longrightarrow> run_tx f db = (r, db') \<Longrightarrow> mild db db'"
  using res_allD [of "mild_from db" "f db"] by (fastforce simp: run_tx_def mild_from_def split: sum.splits)

lemma create_candidate_mild:
  "mild db (snd (create_candidate sha ids p sp now typ ev st cr exc mx db))"
proof -
  obtain r d where r: "run_tx (create_resident_lifecycle_event ids
      (candidate sha p sp now typ ev st cr exc)) db = (r, d)" by fastforce
  from run_tx_mild [OF create_mild r] show ?thesis
    by (simp add: create_candidate_def r Let_def split: prod.split sum.split err.split)
qed

lemma revalidate_mild:
  "mild db (snd (revalidate_open_event ids sp e now severe mismatch inactivity cr mx db))"
proof -
  have t: "mild db d" if "run_tx (transition_resident_lifecycle_event ids i f t a at ac n r m) db = (x, d)"
    for i f t a at ac n r m x d using run_tx_mild [OF transition_mild that] .
  have "out_all (mild db) (revalidate_open_event ids sp e now severe mismatch inactivity cr mx db)"
    unfolding revalidate_open_event_def Let_def by (intro out_all_rules) (simp_all add: t)
  then show ?thesis by (simp add: out_all_def)
qed

lemma evaluate_scope_mild: "mild db (snd (evaluate_scope sha ids p now sp mx db))"
  unfolding evaluate_scope_def Let_def
  by (auto split: sum.split option.split simp: create_candidate_mild revalidate_mild)

lemma evaluate_scopes_mild: "mild db (snd (evaluate_scopes sha ids p now sps mx db))"
proof (induction sps arbitrary: mx db)
  case Nil
  then show ?case by simp
next
  case (Cons sp sps)
  have s: "mild db db1" if "evaluate_scope sha (ids (length sps)) p now sp (mx\<lparr>mx_scanned := mx_scanned mx + 1\<rparr>) db = (r, db1)"
    for r db1 using evaluate_scope_mild [of db sha "ids (length sps)" p now sp "mx\<lparr>mx_scanned := mx_scanned mx + 1\<rparr>"] that
    by simp
  have t: "mild db1 db2" if "evaluate_scopes sha ids p now sps mx1 db1 = (r, db2)" for r mx1 db1 db2
    using Cons.IH [of db1 mx1] that by simp
  show ?case by (auto split: prod.split sum.split dest!: s t intro: mild_trans)
qed

lemma evaluate_batch_mild: "mild db (snd (evaluate_batch sha ids p now after n db))"
  using evaluate_scopes_mild [of db sha ids p now "list_resident_lifecycle_scopes after n db" no_metrics]
  unfolding evaluate_batch_def Let_def by (auto split: prod.split sum.split)

end
