(* ===== verification/World_Home.thy ===== *)
theory World_Home
imports World_Service
begin

text \<open>
  The home world of a Mingchan user: bootstrap, the choice of residents and their activation
  (\<^verbatim>\<open>domain/companion_world/onboarding.py\<close> over
  \<^verbatim>\<open>infrastructure/world_onboarding.py\<close>), adding a resident later
  (\<^verbatim>\<open>domain/companion_world/service.py\<close> over
  \<^verbatim>\<open>infrastructure/world_repository.py\<close>), the primitives of
  \<^verbatim>\<open>infrastructure/persistence/companion_world.py\<close> they use, and what the deletion of an
  account does to the world. Every operation runs in one transaction: an error rolls it back.

  The ids drawn are arguments (\<open>home_ids\<close>; a loop takes one record per round), \<open>digest\<close> is the
  number read from the first eight bytes of the SHA-256 of its text, and \<open>intro\<close> is the table of
  welcome texts, by persona key.
\<close>

record home_ids =
  hi_world :: string
  hi_template :: string
  hi_resident :: string
  hi_accounts :: "string list"
  hi_conversation :: string
  hi_session :: int
  hi_message :: int
  hi_post :: string
  hi_outbox :: string

section \<open>Worlds and templates\<close>

definition get_or_create_home_universe ::
  "home_ids \<Rightarrow> string \<Rightarrow> string \<Rightarrow> world_db \<Rightarrow> (universe \<times> world_db) res" where
  "get_or_create_home_universe ids user app db =
     (if app \<noteq> MINGCHAN_APP_ID then Inl (ValueError ''Mingchan persistence only accepts app_id=mingchan'')
      else let mine = (\<lambda>u. uv_owner u = user \<and> uv_app u = app)
      in and_then
        (if find_row mine (universes db) \<noteq> None then Inr db
         else if hi_world ids \<in> uv_id ` set (universes db) then Inl (IntegrityError ''universes_pkey'')
         else Inr (db\<lparr>universes := universes db @ [\<lparr>uv_id = hi_world ids, uv_owner = user, uv_app = app,
           uv_status = ''active'', uv_onboarding = ''preparing''\<rparr>]\<rparr>))
        (\<lambda>db1. case find_row mine (universes db1) of
           None \<Rightarrow> Inl (RuntimeError ''home universe was not created'') | Some u \<Rightarrow> Inr (u, db1)))"

definition get_universe :: "string option \<Rightarrow> string option \<Rightarrow> world_db \<Rightarrow> universe option res" where
  "get_universe world_id owner db =
     (case (or_none world_id, or_none owner) of
        (None, None) \<Rightarrow> Inl (ValueError ''need universe_id or owner_platform_user_id'')
      | (Some i, _) \<Rightarrow> Inr (find_row (\<lambda>u. uv_id u = i \<and> uv_app u = MINGCHAN_APP_ID) (universes db))
      | (None, Some o') \<Rightarrow> Inr (find_row (\<lambda>u. uv_owner u = o' \<and> uv_app u = MINGCHAN_APP_ID) (universes db)))"

definition lock_universe :: "string \<Rightarrow> world_db \<Rightarrow> universe res" where
  "lock_universe world_id db =
     (case find_row (\<lambda>u. uv_id u = world_id \<and> uv_app u = MINGCHAN_APP_ID) (universes db) of
        None \<Rightarrow> Inl (RuntimeError ''universe disappeared while locking'') | Some u \<Rightarrow> Inr u)"

definition set_universe_onboarding_state ::
  "string \<Rightarrow> string \<Rightarrow> world_db \<Rightarrow> (universe \<times> world_db) res" where
  "set_universe_onboarding_state world_id state db =
     (let mine = (\<lambda>u. uv_id u = world_id \<and> uv_app u = MINGCHAN_APP_ID);
          db1 = db\<lparr>universes := update_where mine (\<lambda>u. u\<lparr>uv_onboarding := state\<rparr>) (universes db)\<rparr>
      in case find_row mine (universes db1) of
           None \<Rightarrow> Inl (RuntimeError ''universe not found'') | Some u \<Rightarrow> Inr (u, db1))"

definition list_initial_templates :: "world_db \<Rightarrow> character_template list" where
  "list_initial_templates db = sort_key (\<lambda>t. (the (ct_rank t), ct_id t))
     (filter (\<lambda>t. ct_app t = MINGCHAN_APP_ID \<and> ct_status t = ''active'' \<and> ct_rank t \<noteq> None) (templates db))"

definition get_template_for_owner :: "string \<Rightarrow> string \<Rightarrow> world_db \<Rightarrow> character_template option" where
  "get_template_for_owner template_id owner db =
     find_row (\<lambda>t. ct_id t = template_id \<and> ct_app t = MINGCHAN_APP_ID \<and>
       (ct_owner t = None \<or> ct_owner t = Some owner)) (templates db)"

record template_draft =
  td_name :: string
  td_seed :: json_text
  td_avatar :: "string option"
  td_summary :: "string option"
  td_tags :: "string list"
  td_version :: string

definition create_custom_template ::
  "home_ids \<Rightarrow> string \<Rightarrow> template_draft \<Rightarrow> world_db \<Rightarrow> (character_template \<times> world_db) res" where
  "create_custom_template ids owner d db =
     (if hi_template ids \<in> ct_id ` set (templates db) then Inl (IntegrityError ''character_templates_pkey'')
      else let t = \<lparr>ct_id = hi_template ids, ct_app = MINGCHAN_APP_ID, ct_source_type = ''user_created'',
             ct_owner = Some owner, ct_name = td_name d, ct_avatar = td_avatar d, ct_summary = td_summary d,
             ct_tags = List.map_filter (\<lambda>x. let c = py_strip x in if c = [] then None else Some c) (td_tags d),
             ct_seed = td_seed d, ct_version = td_version d, ct_status = ''active'', ct_rank = None,
             ct_persona_key = None, ct_name_pool = [], ct_pool_version = None\<rparr>
        in Inr (t, db\<lparr>templates := templates db @ [t]\<rparr>))"

section \<open>Candidates\<close>

record candidate_record =
  cd_row :: resident
  cd_template :: character_template
  cd_conversation :: "ai_conversation option"

definition not_legacy :: "resident \<Rightarrow> bool" where
  "not_legacy r = (rs_origin r \<noteq> ''legacy'')"

definition list_candidates :: "string \<Rightarrow> string list \<Rightarrow> world_db \<Rightarrow> candidate_record list" where
  "list_candidates world_id statuses db =
     sort_key (\<lambda>c. (case ct_rank (cd_template c) of None \<Rightarrow> 999999 | Some k \<Rightarrow> k, rs_created (cd_row c), rs_id (cd_row c)))
       (concat (map (\<lambda>r. map (\<lambda>t. \<lparr>cd_row = r, cd_template = t,
           cd_conversation = find_row (\<lambda>c. ac_resident c = rs_id r) (ai_conversations db)\<rparr>)
         (filter (\<lambda>t. ct_id t = rs_template r) (templates db)))
         (filter (\<lambda>r. rs_universe r = world_id \<and> not_legacy r \<and> rs_status r \<in> set statuses) (residents db))))"

text \<open>
  \<open>get_or_create_candidate_resident\<close>: \<open>INSERT ... ON CONFLICT DO NOTHING\<close>, then the row of the
  template, whatever its status.
\<close>

definition candidate_of :: "string \<Rightarrow> string \<Rightarrow> resident \<Rightarrow> bool" where
  "candidate_of world_id template_id r = (rs_universe r = world_id \<and> rs_template r = template_id \<and> not_legacy r)"

definition new_candidate ::
  "home_ids \<Rightarrow> int \<Rightarrow> string \<Rightarrow> character_template \<Rightarrow> string \<Rightarrow> string option \<Rightarrow> string option \<Rightarrow> resident" where
  "new_candidate ids now world_id t origin name naming = \<lparr>rs_id = hi_resident ids, rs_universe = world_id,
     rs_template = ct_id t, rs_version = ct_version t, rs_runtime = None, rs_origin = origin,
     rs_status = ''candidate'', rs_joined = None, rs_offline = None, rs_departure = None, rs_name = name,
     rs_naming = naming, rs_created = now, rs_updated = now\<rparr>"

definition get_or_create_candidate_resident ::
  "home_ids \<Rightarrow> int \<Rightarrow> string \<Rightarrow> character_template \<Rightarrow> string \<Rightarrow> string option \<Rightarrow> string option \<Rightarrow> world_db \<Rightarrow>
     (resident \<times> world_db) res" where
  "get_or_create_candidate_resident ids now world_id t origin name naming db =
     (if origin = ''legacy'' then Inl (ValueError ''legacy origin is not a candidate'')
      else let db1 = (if hi_resident ids \<in> rs_id ` set (residents db) \<or>
                 find_row (candidate_of world_id (ct_id t)) (residents db) \<noteq> None then db
               else db\<lparr>residents := residents db @ [new_candidate ids now world_id t origin name naming]\<rparr>)
      in case find_row (candidate_of world_id (ct_id t)) (residents db1) of
           None \<Rightarrow> Inl (RuntimeError ''candidate resident was not created'') | Some r \<Rightarrow> Inr (r, db1))"

definition ensure_candidate ::
  "home_ids \<Rightarrow> int \<Rightarrow> string \<Rightarrow> character_template \<Rightarrow> string \<Rightarrow> string option \<Rightarrow> string option \<Rightarrow> world_db \<Rightarrow>
     (candidate_record \<times> world_db) res" where
  "ensure_candidate ids now world_id t origin name naming db =
     and_then (get_or_create_candidate_resident ids now world_id t origin name naming db) (\<lambda>(r, db1).
       case find_row (\<lambda>c. rs_id (cd_row c) = rs_id r) (list_candidates world_id [rs_status r] db1) of
         None \<Rightarrow> Inl (RuntimeError ''candidate details were not found'') | Some c \<Rightarrow> Inr (c, db1))"

definition unselected :: "string \<Rightarrow> string list \<Rightarrow> resident \<Rightarrow> bool" where
  "unselected world_id selected r = (rs_universe r = world_id \<and> rs_status r = ''candidate'' \<and> not_legacy r \<and>
     rs_template r \<notin> set selected)"

definition dismiss_unselected_candidate_residents :: "int \<Rightarrow> string \<Rightarrow> string list \<Rightarrow> world_db \<Rightarrow> world_db" where
  "dismiss_unselected_candidate_residents now world_id selected db =
     db\<lparr>residents := update_where (unselected world_id selected)
       (\<lambda>r. r\<lparr>rs_status := ''dismissed'', rs_updated := now\<rparr>) (residents db)\<rparr>"

section \<open>The runtime account of a resident\<close>

definition json_get :: "string \<Rightarrow> json \<Rightarrow> dict \<Rightarrow> json" where
  "json_get k other d = (case map_of d k of None \<Rightarrow> other | Some v \<Rightarrow> v)"

definition persona_parts :: "json_text \<Rightarrow> (string \<times> string \<times> string) res" where
  "persona_parts t = (case t of
     Parsed (JDict d) \<Rightarrow>
       (case (json_get ''SOUL.md'' (json_get ''soul'' (JStr []) d) d,
              json_get ''IDENTITY.md'' (json_get ''identity'' (JStr []) d) d,
              json_get ''system_prompt'' (JStr []) d) of
          (JStr soul, JStr identity, JStr prompt) \<Rightarrow> Inr (py_strip soul, py_strip identity, py_strip prompt)
        | _ \<Rightarrow> Inl (ValueError ''invalid persona_seed_json''))
   | _ \<Rightarrow> Inl (ValueError ''invalid persona_seed_json''))"

text \<open>\<open>world_repository\<close> reads a missing seed as three empty texts.\<close>

definition persona_parts_or_empty :: "json_text \<Rightarrow> (string \<times> string \<times> string) res" where
  "persona_parts_or_empty t = (if t = NoText then Inr ([], [], []) else persona_parts t)"

text \<open>The text of PostgreSQL's error for a duplicate key; the detail line names the column and the value.\<close>

definition unique_violation_text :: "string \<Rightarrow> string \<Rightarrow> string" where
  "unique_violation_text index detail =
     ''duplicate key value violates unique constraint '' @ [CHR 0x22] @ index @ [CHR 0x22] @ [CHR 0x0A] @
     ''DETAIL:  Key (id)=('' @ detail @ '') already exists.''"

fun contains :: "string \<Rightarrow> string \<Rightarrow> bool" where
  "contains pat [] = (pat = [])"
| "contains pat (c # s) = (starts_with pat (c # s) \<or> contains pat s)"

text \<open>The loop over drawn ids: an \<open>IntegrityError\<close> is retried when its text has \<^verbatim>\<open>accounts.id\<close>.\<close>

fun insert_account_row :: "string list \<Rightarrow> (string \<Rightarrow> account) \<Rightarrow> world_db \<Rightarrow> (account \<times> world_db) res" where
  "insert_account_row [] row db = Inl (RuntimeError ''failed to generate a unique account_id'')"
| "insert_account_row (i # is) row db =
     (if i \<in> a_id ` set (accounts db)
      then if contains ''accounts.id'' (unique_violation_text ''accounts_pkey'' i) then insert_account_row is row db
           else Inl (IntegrityError ''accounts_pkey'')
      else Inr (row i, db\<lparr>accounts := accounts db @ [row i]\<rparr>))"

definition write_file :: "string \<Rightarrow> string \<Rightarrow> string \<Rightarrow> world_db \<Rightarrow> world_db" where
  "write_file acc filename content db =
     (let mine = (\<lambda>f. pff_account f = acc \<and> pff_filename f = filename)
      in db\<lparr>profile_files := (if find_row mine (profile_files db) = None
           then profile_files db @ [\<lparr>pff_account = acc, pff_filename = filename, pff_content = content, pff_version = 1\<rparr>]
           else update_where mine (\<lambda>f. f\<lparr>pff_content := content, pff_version := pff_version f + 1\<rparr>) (profile_files db))\<rparr>)"

definition seed_file :: "string \<Rightarrow> string \<Rightarrow> string \<Rightarrow> world_db \<Rightarrow> world_db" where
  "seed_file acc filename seed db = (case clean_text (Some seed) of
     None \<Rightarrow> db | Some content \<Rightarrow> write_file acc filename (content @ [CHR 0x0A]) db)"

definition insert_resident_runtime_account ::
  "registry \<Rightarrow> home_ids \<Rightarrow> string \<Rightarrow> string \<Rightarrow> string \<Rightarrow> string \<Rightarrow> string \<Rightarrow> string \<Rightarrow> world_db \<Rightarrow>
     (account \<times> world_db) res" where
  "insert_resident_runtime_account reg ids user display_name prompt soul identity app_id db =
     (case clean_text (Some display_name) of
        None \<Rightarrow> Inl (ValueError ''display_name is required'')
      | Some name \<Rightarrow>
        and_then (registered_app_id reg app_id) (\<lambda>app.
        and_then (require_active_product_membership reg db user app) (\<lambda>_.
        and_then (insert_account_row (take 20 (hi_accounts ids)) (\<lambda>i. \<lparr>a_id = i, a_channel = Some ''native'',
             a_name = Some name, a_status = ''active'', a_app = app, a_daily_limit = None, a_rpm_limit = None\<rparr>) db)
          (\<lambda>(acc, db1).
        if a_id acc \<in> pf_account ` set (profiles db1) then Inl (IntegrityError ''profiles_pkey'')
        else let db2 = db1\<lparr>profiles := profiles db1 @ [\<lparr>pf_account = a_id acc, pf_name = name,
               pf_prompt = clean_text (Some prompt)\<rparr>]\<rparr>
        in Inr (acc, seed_file (a_id acc) ''IDENTITY.md'' identity (seed_file (a_id acc) ''SOUL.md'' soul db2))))))"

definition activate_candidate_resident ::
  "int \<Rightarrow> string \<Rightarrow> string \<Rightarrow> string \<Rightarrow> world_db \<Rightarrow> (resident option \<times> world_db) res" where
  "activate_candidate_resident now world_id resident_id runtime db =
     (let p = (\<lambda>r. rs_id r = resident_id \<and> rs_universe r = world_id \<and> rs_status r = ''candidate'' \<and> rs_runtime r = None)
      in if list_ex p (residents db) \<and> list_ex (\<lambda>r. rs_runtime r = Some runtime) (residents db)
         then Inl (IntegrityError ''ux_universe_residents_runtime'')
         else let db1 = db\<lparr>residents := update_where p (\<lambda>r. r\<lparr>rs_runtime := Some runtime, rs_status := ''active'',
                rs_joined := (case rs_joined r of None \<Rightarrow> Some now | Some j \<Rightarrow> Some j), rs_updated := now\<rparr>) (residents db)\<rparr>
         in Inr (case find_row (\<lambda>r. rs_id r = resident_id \<and> rs_universe r = world_id) (residents db1) of
              None \<Rightarrow> None
            | Some r \<Rightarrow> if rs_status r \<noteq> ''active'' \<or> rs_runtime r \<noteq> Some runtime then None else Some r, db1))"

text \<open>\<open>INSERT ... ON CONFLICT(resident_id) DO NOTHING\<close>, then the row of the resident, which must be the caller's.\<close>

definition create_ai_conversation ::
  "home_ids \<Rightarrow> int \<Rightarrow> string \<Rightarrow> string \<Rightarrow> string \<Rightarrow> string \<Rightarrow> world_db \<Rightarrow> (ai_conversation \<times> world_db) res" where
  "create_ai_conversation ids now world_id resident_id owner runtime db = and_then
     (if list_ex (\<lambda>c. ac_resident c = resident_id) (ai_conversations db) then Inr db
      else if hi_conversation ids \<in> ac_id ` set (ai_conversations db) then Inl (IntegrityError ''ai_conversations_pkey'')
      else Inr (db\<lparr>ai_conversations := ai_conversations db @ [\<lparr>ac_id = hi_conversation ids, ac_world = world_id,
        ac_resident = resident_id, ac_owner = owner, ac_runtime = runtime, ac_state = ''active'', ac_updated = now\<rparr>]\<rparr>))
     (\<lambda>db1. case find_row (\<lambda>c. ac_resident c = resident_id) (ai_conversations db1) of
        None \<Rightarrow> Inl (RuntimeError ''ai_conversation was not created'')
      | Some c \<Rightarrow> if ac_world c \<noteq> world_id \<or> ac_owner c \<noteq> owner \<or> ac_runtime c \<noteq> runtime
                 then Inl (ValueError ''resident conversation ownership mismatch'') else Inr (c, db1))"

section \<open>The residents of an owner\<close>

record resident_record =
  rd_resident :: string
  rd_world :: string
  rd_template :: string
  rd_version :: string
  rd_runtime :: string
  rd_origin :: string
  rd_status :: string
  rd_name :: string
  rd_avatar :: "string option"
  rd_conversation :: string
  rd_conversation_state :: string
  rd_persona_key :: "string option"

text \<open>The rows of \<open>list_resident_details_for_owner\<close>: resident, template, profile, conversation.\<close>

type_synonym resident_details = "resident \<times> character_template \<times> profile_row option \<times> ai_conversation"

definition list_resident_details_for_owner :: "string \<Rightarrow> string list \<Rightarrow> world_db \<Rightarrow> resident_details list" where
  "list_resident_details_for_owner owner statuses db =
     sort_key (\<lambda>(r, _). (rs_created r, rs_id r))
       (concat (map (\<lambda>r. concat (map (\<lambda>u. concat (map (\<lambda>t. map (\<lambda>c.
           (r, t, find_row (\<lambda>p. Some (pf_account p) = rs_runtime r) (profiles db), c))
         (filter (\<lambda>c. ac_resident c = rs_id r) (ai_conversations db)))
         (filter (\<lambda>t. ct_id t = rs_template r) (templates db))))
         (filter (\<lambda>u. uv_id u = rs_universe r \<and> uv_owner u = owner \<and> uv_app u = MINGCHAN_APP_ID) (universes db))))
         (filter (\<lambda>r. rs_status r \<in> set statuses) (residents db))))"

definition resident_dto :: "resident_details \<Rightarrow> resident_record res" where
  "resident_dto d = (case d of (r, t, p, c) \<Rightarrow>
     (case or_none (rs_runtime r) of
        None \<Rightarrow> Inl (RuntimeError ''active resident is missing runtime/conversation'')
      | Some runtime \<Rightarrow> if ac_id c = [] then Inl (RuntimeError ''active resident is missing runtime/conversation'')
          else Inr \<lparr>rd_resident = rs_id r, rd_world = rs_universe r, rd_template = rs_template r,
            rd_version = rs_version r, rd_runtime = runtime, rd_origin = rs_origin r, rd_status = rs_status r,
            rd_name = (case p of None \<Rightarrow> ct_name t | Some x \<Rightarrow> pf_name x), rd_avatar = ct_avatar t,
            rd_conversation = ac_id c, rd_conversation_state = (if ac_state c = [] then ''active'' else ac_state c),
            rd_persona_key = ct_persona_key t\<rparr>))"

fun each :: "('a \<Rightarrow> 'b res) \<Rightarrow> 'a list \<Rightarrow> 'b list res" where
  "each f [] = Inr []"
| "each f (x # xs) = and_then (f x) (\<lambda>y. and_then (each f xs) (\<lambda>ys. Inr (y # ys)))"

definition world_residents_for_owner :: "string \<Rightarrow> string list \<Rightarrow> world_db \<Rightarrow> resident_record list res" where
  "world_residents_for_owner owner statuses db = each resident_dto (list_resident_details_for_owner owner statuses db)"

text \<open>The onboarding repository also checks the membership and the product of each runtime account.\<close>

definition list_residents_for_owner ::
  "registry \<Rightarrow> string \<Rightarrow> string list \<Rightarrow> world_db \<Rightarrow> resident_record list res" where
  "list_residents_for_owner reg owner statuses db =
     and_then (require_active_product_membership reg db owner MINGCHAN_APP_ID) (\<lambda>_.
       each (\<lambda>d. case find_row (\<lambda>a. Some (a_id a) = rs_runtime (fst d)) (accounts db) of
           None \<Rightarrow> Inl (DomainError ''resident_product_mismatch'')
         | Some a \<Rightarrow> if a_app a \<noteq> MINGCHAN_APP_ID then Inl (DomainError ''resident_product_mismatch'')
                    else resident_dto d)
         (list_resident_details_for_owner owner statuses db))"

definition require_resident :: "string \<Rightarrow> resident_record list \<Rightarrow> resident_record res" where
  "require_resident resident_id rs = (case find_row (\<lambda>r. rd_resident r = resident_id) rs of
     None \<Rightarrow> Inl (RuntimeError ''activated resident details were not found'') | Some r \<Rightarrow> Inr r)"

text \<open>The steps both repositories share: the runtime account, the activation, the conversation.\<close>

definition bring_to_life ::
  "registry \<Rightarrow> home_ids \<Rightarrow> int \<Rightarrow> candidate_record \<Rightarrow> string \<Rightarrow> string \<Rightarrow> (string \<times> string \<times> string) res \<Rightarrow>
     world_db \<Rightarrow> world_db res" where
  "bring_to_life reg ids now c owner name parts db =
     (let r = cd_row c in
      and_then parts (\<lambda>(soul, identity, prompt).
      and_then (insert_resident_runtime_account reg ids owner name prompt soul identity MINGCHAN_APP_ID db) (\<lambda>(acc, db1).
      and_then (activate_candidate_resident now (rs_universe r) (rs_id r) (a_id acc) db1) (\<lambda>(activated, db2).
        if activated = None then Inl (RuntimeError ''candidate activation failed'')
        else and_then (create_ai_conversation ids now (rs_universe r) (rs_id r) owner (a_id acc) db2)
          (\<lambda>(_, db3). Inr db3)))))"

definition activate_candidate_with_runtime ::
  "registry \<Rightarrow> home_ids \<Rightarrow> int \<Rightarrow> candidate_record \<Rightarrow> string \<Rightarrow> string \<Rightarrow> world_db \<Rightarrow> (resident_record \<times> world_db) res" where
  "activate_candidate_with_runtime reg ids now c owner name db =
     and_then (require_active_product_membership reg db owner MINGCHAN_APP_ID) (\<lambda>_.
     and_then (get_universe (Some (rs_universe (cd_row c))) None db) (\<lambda>world.
       if map_option uv_owner world \<noteq> Some owner then Inl (DomainError ''unauthorized'')
       else and_then (bring_to_life reg ids now c owner name (persona_parts (ct_seed (cd_template c))) db) (\<lambda>db1.
         and_then (list_residents_for_owner reg owner [''active'', ''offline''] db1) (\<lambda>rs.
         and_then (require_resident (rs_id (cd_row c)) rs) (\<lambda>r. Inr (r, db1))))))"

definition activate_world_candidate ::
  "registry \<Rightarrow> home_ids \<Rightarrow> int \<Rightarrow> candidate_record \<Rightarrow> string \<Rightarrow> string \<Rightarrow> world_db \<Rightarrow> (resident_record \<times> world_db) res" where
  "activate_world_candidate reg ids now c owner name db =
     and_then (get_universe (Some (rs_universe (cd_row c))) None db) (\<lambda>world.
       if map_option uv_owner world \<noteq> Some owner then Inl (ValueError ''candidate universe ownership mismatch'')
       else and_then (bring_to_life reg ids now c owner name (persona_parts_or_empty (ct_seed (cd_template c))) db) (\<lambda>db1.
         and_then (world_residents_for_owner owner [''active'', ''offline''] db1) (\<lambda>rs.
         and_then (require_resident (rs_id (cd_row c)) rs) (\<lambda>r. Inr (r, db1)))))"

section \<open>The first message and the first post of a resident\<close>

definition APP_ACTIVE_SESSION_KEY :: string where "APP_ACTIVE_SESSION_KEY = ''__app_active__''"

definition insert_message :: "app_message \<Rightarrow> world_db \<Rightarrow> int option \<times> world_db" where
  "insert_message m db =
     (if im_id m \<in> im_id ` set (world_messages db) \<or>
         (or_none (im_message_id m) \<noteq> None \<and>
          list_ex (\<lambda>x. im_account x = im_account m \<and> im_message_id x = im_message_id m) (world_messages db))
      then (None, db) else (Some (im_id m), db\<lparr>world_messages := world_messages db @ [m]\<rparr>))"

definition insert_resident_welcome_message ::
  "home_ids \<Rightarrow> int \<Rightarrow> string \<Rightarrow> string \<Rightarrow> string \<Rightarrow> world_db \<Rightarrow> (bool \<times> world_db) res" where
  "insert_resident_welcome_message ids now runtime resident_id text db =
     (let content = py_strip text; mine = (\<lambda>s. as_account s = runtime \<and> as_key s = APP_ACTIVE_SESSION_KEY) in
      if content = [] then Inr (False, db)
      else let db1 = (if find_row mine (app_sessions db) \<noteq> None then db
             else db\<lparr>app_sessions := app_sessions db @ [\<lparr>as_id = hi_session ids, as_account = runtime,
               as_key = APP_ACTIVE_SESSION_KEY\<rparr>]\<rparr>)
      in (case find_row mine (app_sessions db1) of
            None \<Rightarrow> Inl (RuntimeError ''app active session was not created'')
          | Some s \<Rightarrow> (case insert_message \<lparr>im_id = hi_message ids, im_account = runtime, im_session = as_id s,
                im_message_id = Some (''welcome-'' @ resident_id), im_direction = ''outbound'', im_role = ''assistant'',
                im_content = content, im_created = now\<rparr> db1 of
              (written, db2) \<Rightarrow> Inr (written \<noteq> None, db2))))"

text \<open>
  The unique indexes of \<^verbatim>\<open>universe_posts\<close>: the key, the departure event, the owner's request, the
  slot of a day, one introduction per resident.
\<close>

definition post_conflict :: "world_post \<Rightarrow> world_post \<Rightarrow> bool" where
  "post_conflict p q =
     (wp_id p = wp_id q \<or>
      (wp_departure p \<noteq> None \<and> wp_departure p = wp_departure q) \<or>
      (wp_source_type p = ''user_post'' \<and> wp_source_type q = ''user_post'' \<and> wp_world p = wp_world q \<and>
       wp_user p \<noteq> None \<and> wp_user p = wp_user q \<and> wp_request p \<noteq> None \<and> wp_request p = wp_request q) \<or>
      (wp_source_type p = ''ai_feed'' \<and> wp_source_type q = ''ai_feed'' \<and> wp_world p = wp_world q \<and>
       wp_date p \<noteq> None \<and> wp_date p = wp_date q \<and> wp_slot p \<noteq> None \<and> wp_slot p = wp_slot q) \<or>
      (wp_source_type p = ''resident_intro'' \<and> wp_source_type q = ''resident_intro'' \<and> wp_world p = wp_world q \<and>
       wp_resident p \<noteq> None \<and> wp_resident p = wp_resident q))"

definition add_post :: "world_post \<Rightarrow> world_db \<Rightarrow> world_db" where
  "add_post p db = (if list_ex (post_conflict p) (world_posts db) then db
     else db\<lparr>world_posts := world_posts db @ [p]\<rparr>)"

definition plain_post :: "string \<Rightarrow> string \<Rightarrow> string \<Rightarrow> string \<Rightarrow> int \<Rightarrow> world_post" where
  "plain_post post_id world_id author source now = \<lparr>wp_id = post_id, wp_world = world_id, wp_author = author,
     wp_user = None, wp_resident = None, wp_source_type = source, wp_content_type = ''text'',
     wp_text = None, wp_status = ''published'', wp_request = None, wp_fingerprint = None, wp_date = None,
     wp_slot = None, wp_window_end = None, wp_attempts = 0, wp_claimed = None, wp_token = None, wp_next = None,
     wp_reason = None, wp_published = None, wp_deleted = None, wp_type = ''normal'',
     wp_departure = None, wp_created = now, wp_updated = now\<rparr>"

definition published_payload :: "world_post \<Rightarrow> dict" where
  "published_payload p = [(''post_id'', JStr (wp_id p)), (''published_at'', opt_int (wp_published p)),
     (''source_type'', JStr (wp_source_type p)), (''universe_id'', JStr (wp_world p)), (''v'', JInt 1)]"

definition published_key :: "string \<Rightarrow> string" where
  "published_key post_id = ''world-post-published:v1:'' @ post_id"

definition intro_of :: "string \<Rightarrow> string \<Rightarrow> world_post \<Rightarrow> bool" where
  "intro_of world_id resident_id p = (wp_world p = world_id \<and> wp_resident p = Some resident_id \<and>
     wp_source_type p = ''resident_intro'')"

definition publish_resident_intro_post_with_outbox ::
  "home_ids \<Rightarrow> string \<Rightarrow> string \<Rightarrow> string \<Rightarrow> int \<Rightarrow> world_db \<Rightarrow> ((world_post option \<times> bool) \<times> world_db) res" where
  "publish_resident_intro_post_with_outbox ids world_id resident_id text now db =
     (let content = py_strip text in
      if content = [] then Inl (ValueError ''text is required'')
      else let eligible = list_ex (\<lambda>u. uv_id u = world_id \<and> uv_app u = MINGCHAN_APP_ID \<and> uv_status u = ''active'' \<and>
             list_ex (\<lambda>r. rs_universe r = uv_id u \<and> rs_id r = resident_id \<and> rs_status r = ''active'') (residents db))
             (universes db);
           db1 = (if eligible then add_post ((plain_post (hi_post ids) world_id ''resident'' ''resident_intro'' now)
             \<lparr>wp_resident := Some resident_id, wp_text := Some content, wp_published := Some now\<rparr>) db else db)
      in (case find_row (intro_of world_id resident_id) (world_posts db1) of
            None \<Rightarrow> Inr ((None, False), db1)
          | Some p \<Rightarrow> and_then (insert_outbox (outbox_pending (hi_outbox ids) (wp_world p) (wp_id p)
                ''universe_post.published.v1'' (published_key (wp_id p)) (published_payload p) (the (wp_published p))) db1)
              (\<lambda>(_, db2). Inr ((Some p, wp_id p = hi_post ids), db2))))"

definition seed_resident_intro ::
  "(string option \<Rightarrow> (string \<times> string) option) \<Rightarrow> home_ids \<Rightarrow> int \<Rightarrow> resident_record \<Rightarrow> string option \<Rightarrow>
     world_db \<Rightarrow> world_db res" where
  "seed_resident_intro intro ids now r persona_key db =
     (case intro persona_key of
        None \<Rightarrow> Inr db
      | Some (welcome, post) \<Rightarrow>
          and_then (insert_resident_welcome_message ids now (rd_runtime r) (rd_resident r) welcome db) (\<lambda>(_, db1).
          and_then (publish_resident_intro_post_with_outbox ids (rd_world r) (rd_resident r) post now db1)
            (\<lambda>(_, db2). Inr db2)))"

section \<open>Onboarding\<close>

definition MAX_ACTIVE_RESIDENTS :: int where "MAX_ACTIVE_RESIDENTS = 10"
definition MIN_INITIAL_CANDIDATES :: nat where "MIN_INITIAL_CANDIDATES = 4"
definition MAX_DISPLAY_NAME_CHARS :: nat where "MAX_DISPLAY_NAME_CHARS = 20"

definition display_name_char :: "char \<Rightarrow> bool" where
  "display_name_char c = (let n = (of_char c :: int) in
     97 \<le> n \<and> n \<le> 122 \<or> 65 \<le> n \<and> n \<le> 90 \<or> 48 \<le> n \<and> n \<le> 57 \<or> n \<in> set [95, 45, 46, 32, 183] \<or>
     list_ex (\<lambda>(low, high). low \<le> n \<and> n \<le> high)
       [(0x4E00, 0x9FFF), (0x3400, 0x4DBF), (0x3040, 0x30FF), (0xAC00, 0xD7A3)])"

definition is_valid_display_name :: "string \<Rightarrow> bool" where
  "is_valid_display_name value = (let text = py_strip value in
     text \<noteq> [] \<and> length text \<le> MAX_DISPLAY_NAME_CHARS \<and> list_all display_name_char text)"

definition select_suggested_name ::
  "(string \<Rightarrow> nat) \<Rightarrow> string \<Rightarrow> string \<Rightarrow> string list \<Rightarrow> string \<Rightarrow> string option" where
  "select_suggested_name digest world_id template_id name_pool version =
     (let pool = filter (\<lambda>n. n \<noteq> []) name_pool
      in if pool = [] then None
         else Some (pool ! (digest (world_id @ [CHR 0x1F] @ template_id @ [CHR 0x1F] @ version) mod length pool)))"

definition persona_seed_ready :: "json_text \<Rightarrow> bool" where
  "persona_seed_ready t = (case t of
     Parsed (JDict d) \<Rightarrow>
       (case (json_get ''SOUL.md'' (json_get ''soul'' JNull d) d, json_get ''IDENTITY.md'' (json_get ''identity'' JNull d) d) of
          (JStr soul, JStr identity) \<Rightarrow> py_strip soul \<noteq> [] \<and> py_strip identity \<noteq> [] | _ \<Rightarrow> False)
   | _ \<Rightarrow> False)"

definition has_text :: "string option \<Rightarrow> bool" where
  "has_text v = (case v of None \<Rightarrow> False | Some s \<Rightarrow> py_strip s \<noteq> [])"

definition validate_initial_catalog :: "character_template list \<Rightarrow> character_template list res" where
  "validate_initial_catalog ts =
     (let ordered = sort_key (\<lambda>t. case ct_rank t of None \<Rightarrow> 0 | Some k \<Rightarrow> k) ts;
          ready = list_all (\<lambda>t. ct_status t = ''active'' \<and> py_strip (ct_name t) \<noteq> [] \<and> has_text (ct_avatar t) \<and>
            has_text (ct_summary t) \<and> length (ct_tags t) = 3 \<and> persona_seed_ready (ct_seed t) \<and>
            py_strip (ct_version t) \<noteq> []) ordered
      in if length ordered < MIN_INITIAL_CANDIDATES \<or>
            map ct_rank ordered \<noteq> map (\<lambda>k. Some (int k)) [1..<length ordered + 1] \<or> \<not> ready
         then Inl (DomainError ''preset_catalog_not_ready'') else Inr ordered)"

definition suggested ::
  "(string \<Rightarrow> nat) \<Rightarrow> string \<Rightarrow> character_template \<Rightarrow> string option \<times> string option" where
  "suggested digest world_id t =
     (let name = select_suggested_name digest world_id (ct_id t) (ct_name_pool t)
            (case ct_pool_version t of None \<Rightarrow> [] | Some v \<Rightarrow> v)
      in (name, if or_none name = None then None else ct_pool_version t))"

fun ensure_candidates ::
  "(string \<Rightarrow> nat) \<Rightarrow> (nat \<Rightarrow> home_ids) \<Rightarrow> int \<Rightarrow> string \<Rightarrow> character_template list \<Rightarrow> world_db \<Rightarrow> world_db res" where
  "ensure_candidates digest ids now world_id [] db = Inr db"
| "ensure_candidates digest ids now world_id (t # ts) db =
     and_then (ensure_candidate (ids (length ts)) now world_id t ''preset'' (fst (suggested digest world_id t))
        (snd (suggested digest world_id t)) db)
       (\<lambda>(_, db1). ensure_candidates digest ids now world_id ts db1)"

definition bootstrap_home ::
  "registry \<Rightarrow> (string \<Rightarrow> nat) \<Rightarrow> (nat \<Rightarrow> home_ids) \<Rightarrow> int \<Rightarrow> string \<Rightarrow> world_db \<Rightarrow>
     ((universe \<times> candidate_record list \<times> resident_record list) \<times> world_db) res" where
  "bootstrap_home reg digest ids now user db =
     and_then (require_active_product_membership reg db user MINGCHAN_APP_ID) (\<lambda>_.
     and_then (get_or_create_home_universe (ids 0) user MINGCHAN_APP_ID db) (\<lambda>(w0, db1).
       if uv_status w0 \<noteq> ''active'' then Inl (DomainError ''world_disabled'')
       else and_then (lock_universe (uv_id w0) db1) (\<lambda>w1.
       and_then
         (if uv_onboarding w1 = ''preparing''
          then and_then (validate_initial_catalog (list_initial_templates db1)) (\<lambda>ts.
               and_then (ensure_candidates digest ids now (uv_id w1) ts db1) (\<lambda>db2.
                 set_universe_onboarding_state (uv_id w1) ''selecting'' db2))
          else Inr (w1, db1)) (\<lambda>(w, db3).
       and_then (list_residents_for_owner reg user [''active''] db3) (\<lambda>rs.
         Inr ((w, list_candidates (uv_id w) [''candidate''] db3, rs), db3))))))"

definition home_universe :: "registry \<Rightarrow> string \<Rightarrow> world_db \<Rightarrow> universe option res" where
  "home_universe reg user db =
     and_then (require_active_product_membership reg db user MINGCHAN_APP_ID) (\<lambda>_.
       get_universe None (Some user) db)"

definition list_home_candidates :: "registry \<Rightarrow> string \<Rightarrow> world_db \<Rightarrow> candidate_record list res" where
  "list_home_candidates reg user db = and_then (home_universe reg user db) (\<lambda>world. case world of
     None \<Rightarrow> Inl (DomainError ''world_not_ready'')
   | Some w \<Rightarrow> if uv_onboarding w = ''preparing'' then Inl (DomainError ''world_not_ready'')
              else if uv_status w \<noteq> ''active'' then Inl (DomainError ''world_disabled'')
              else Inr (list_candidates (uv_id w) [''candidate''] db))"

definition list_home_residents :: "registry \<Rightarrow> string \<Rightarrow> world_db \<Rightarrow> resident_record list res" where
  "list_home_residents reg user db = and_then (home_universe reg user db) (\<lambda>world. case world of
     None \<Rightarrow> Inl (DomainError ''world_not_ready'')
   | Some w \<Rightarrow> if uv_status w \<noteq> ''active'' then Inl (DomainError ''world_disabled'')
              else list_residents_for_owner reg user [''active'', ''offline''] db)"

text \<open>A selection is the template's id and the name the user gives, if any.\<close>

type_synonym selection = "string \<times> string option"

fun normalize_selections :: "selection list \<Rightarrow> string list \<Rightarrow> selection list res" where
  "normalize_selections [] seen = Inr []"
| "normalize_selections ((t, name) # ss) seen = (let i = py_strip t in
     if i = [] \<or> i \<in> set seen then Inl (DomainError ''resident_selection_invalid'')
     else and_then (normalize_selections ss (i # seen)) (\<lambda>rest. Inr ((i, name) # rest)))"

text \<open>\<open>by_template\<close> is a dict comprehension: the last candidate of a template stands.\<close>

definition choose_candidate :: "candidate_record list \<Rightarrow> selection \<Rightarrow> (candidate_record \<times> string option) res" where
  "choose_candidate cs s = (case find_row (\<lambda>c. ct_id (cd_template c) = fst s) (rev cs) of
     None \<Rightarrow> Inl (DomainError ''resident_not_found'')
   | Some c \<Rightarrow> if rs_status (cd_row c) = ''dismissed'' then Inl (DomainError ''resident_not_found'')
              else Inr (c, snd s))"

definition chosen_name :: "candidate_record \<Rightarrow> string option \<Rightarrow> string res" where
  "chosen_name c given =
     (let name = py_strip (case or_none given of Some n \<Rightarrow> n | None \<Rightarrow>
            (case or_none (rs_name (cd_row c)) of Some n \<Rightarrow> n | None \<Rightarrow> ct_name (cd_template c)))
      in if name = [] then Inl (DomainError ''resident_selection_invalid'')
         else if or_none given \<noteq> None \<and> \<not> is_valid_display_name name then Inl (DomainError ''display_name_invalid'')
         else Inr name)"

fun activate_chosen ::
  "registry \<Rightarrow> (string option \<Rightarrow> (string \<times> string) option) \<Rightarrow> (nat \<Rightarrow> home_ids) \<Rightarrow> int \<Rightarrow> string \<Rightarrow>
     (candidate_record \<times> string option) list \<Rightarrow> world_db \<Rightarrow> world_db res" where
  "activate_chosen reg intro ids now user [] db = Inr db"
| "activate_chosen reg intro ids now user ((c, given) # cs) db =
     (if rs_status (cd_row c) = ''active'' then activate_chosen reg intro ids now user cs db
      else and_then (chosen_name c given) (\<lambda>name.
           and_then (activate_candidate_with_runtime reg (ids (length cs)) now c user name db) (\<lambda>(r, db1).
           and_then (seed_resident_intro intro (ids (length cs)) now r (ct_persona_key (cd_template c)) db1) (\<lambda>db2.
             activate_chosen reg intro ids now user cs db2))))"

definition confirm_residents ::
  "registry \<Rightarrow> (string option \<Rightarrow> (string \<times> string) option) \<Rightarrow> (nat \<Rightarrow> home_ids) \<Rightarrow> int \<Rightarrow> string \<Rightarrow>
     selection list \<Rightarrow> world_db \<Rightarrow> (resident_record list \<times> world_db) res" where
  "confirm_residents reg intro ids now user selections db =
     and_then (normalize_selections selections []) (\<lambda>sel.
     and_then (home_universe reg user db) (\<lambda>world. case world of
       None \<Rightarrow> Inl (DomainError ''world_not_ready'')
     | Some w0 \<Rightarrow>
       if uv_status w0 \<noteq> ''active'' then Inl (DomainError ''world_disabled'')
       else and_then (lock_universe (uv_id w0) db) (\<lambda>w.
       and_then (each (choose_candidate (list_candidates (uv_id w) [''candidate'', ''active'', ''dismissed''] db)) sel) (\<lambda>chosen.
       let joining = length (filter (\<lambda>c. rs_status (cd_row (fst c)) = ''candidate'') chosen);
           total = int (active_residents (uv_id w) db) + int joining
       in if total \<le> 0 then Inl (DomainError ''resident_capacity_empty'')
          else if total > MAX_ACTIVE_RESIDENTS then Inl (DomainError ''resident_capacity_exceeded'')
          else and_then (activate_chosen reg intro ids now user chosen db) (\<lambda>db1.
            let db2 = dismiss_unselected_candidate_residents now (uv_id w) (map fst sel) db1
            in and_then (set_universe_onboarding_state (uv_id w) ''confirmed'' db2) (\<lambda>(_, db3).
               and_then (list_residents_for_owner reg user [''active''] db3) (\<lambda>rs. Inr (rs, db3))))))))"

section \<open>Adding a resident\<close>

text \<open>
  \<open>_create_resident_locked\<close>: a template of the catalog or a custom one. The answer is the candidate
  while the user still selects, the resident once the world is confirmed.
\<close>

datatype created_resident = Candidate candidate_record | Resident resident_record

definition resident_template ::
  "home_ids \<Rightarrow> string \<Rightarrow> universe \<Rightarrow> string + template_draft \<Rightarrow> world_db \<Rightarrow>
     ((character_template \<times> string) \<times> world_db) res" where
  "resident_template ids user w source db =
     (case source of
        Inr d \<Rightarrow>
          (if py_strip (td_name d) = [] \<or> py_strip (td_version d) = [] \<or> \<not> persona_seed_ready (td_seed d)
           then Inl (DomainError ''resident_selection_invalid'')
           else if uv_onboarding w = ''selecting'' \<and> list_ex (\<lambda>c. rs_origin (cd_row c) = ''custom'')
                     (list_candidates (uv_id w) [''candidate'', ''active'', ''dismissed''] db)
           then Inl (DomainError ''custom_candidate_limit_exceeded'')
           else and_then (create_custom_template ids user d db) (\<lambda>(t, db1). Inr ((t, ''custom''), db1)))
      | Inl template_id \<Rightarrow>
          (case get_template_for_owner template_id user db of
             None \<Rightarrow> Inl (DomainError ''template_not_found'')
           | Some t \<Rightarrow> if ct_status t \<noteq> ''active'' then Inl (DomainError ''template_not_available'')
                      else Inr ((t, ''preset''), db)))"

definition create_resident_locked ::
  "registry \<Rightarrow> (string \<Rightarrow> nat) \<Rightarrow> (string option \<Rightarrow> (string \<times> string) option) \<Rightarrow> home_ids \<Rightarrow> int \<Rightarrow> string \<Rightarrow>
     string + template_draft \<Rightarrow> world_db \<Rightarrow> (created_resident \<times> world_db) res" where
  "create_resident_locked reg digest intro ids now user source db =
     and_then (get_universe None (Some user) db) (\<lambda>world. case world of
       None \<Rightarrow> Inl (DomainError ''world_not_ready'')
     | Some w0 \<Rightarrow>
       if uv_status w0 \<noteq> ''active'' then Inl (DomainError ''world_disabled'')
       else and_then (lock_universe (uv_id w0) db) (\<lambda>w.
       and_then (resident_template ids user w source db) (\<lambda>((t, origin), db1).
       and_then (ensure_candidate ids now (uv_id w) t origin (fst (suggested digest (uv_id w) t))
          (snd (suggested digest (uv_id w) t)) db1) (\<lambda>(c, db2).
       if rs_status (cd_row c) = ''active'' then Inl (DomainError ''resident_already_exists'')
       else if rs_status (cd_row c) \<noteq> ''candidate'' then Inl (DomainError ''template_not_available'')
       else if uv_onboarding w = ''selecting'' then Inr (Candidate c, db2)
       else if uv_onboarding w \<noteq> ''confirmed'' then Inl (DomainError ''world_not_ready'')
       else if int (active_residents (uv_id w) db2) \<ge> MAX_ACTIVE_RESIDENTS
       then Inl (DomainError ''resident_capacity_exceeded'')
       else and_then (activate_world_candidate reg ids now c user
            (case or_none (rs_name (cd_row c)) of Some n \<Rightarrow> n | None \<Rightarrow> ct_name t) db2) (\<lambda>(r, db3).
         and_then (seed_resident_intro intro ids now r (ct_persona_key t) db3) (\<lambda>db4. Inr (Resident r, db4)))))))"

definition create_resident ::
  "registry \<Rightarrow> (string \<Rightarrow> nat) \<Rightarrow> (string option \<Rightarrow> (string \<times> string) option) \<Rightarrow> home_ids \<Rightarrow> int \<Rightarrow> string \<Rightarrow>
     string option \<Rightarrow> template_draft option \<Rightarrow> world_db \<Rightarrow> (created_resident \<times> world_db) res" where
  "create_resident reg digest intro ids now user template_id custom db =
     (case (or_none template_id, custom) of
        (Some i, None) \<Rightarrow> create_resident_locked reg digest intro ids now user (Inl i) db
      | (None, Some d) \<Rightarrow> create_resident_locked reg digest intro ids now user (Inr d) db
      | _ \<Rightarrow> Inl (DomainError ''resident_selection_invalid''))"

section \<open>The deletion of an account\<close>

text \<open>
  The world's part of \<open>execute_account_deletion\<close>, in its transaction: the tables of the world that
  are not modelled here (wishes and their letters, notifications, login sessions) are emptied beside it.
\<close>

definition delete_world_data :: "int \<Rightarrow> string \<Rightarrow> world_db \<Rightarrow> world_db" where
  "delete_world_data now wid db =
     (let dead = (\<lambda>p. wp_world p = wid); gone_events = le_id ` set (filter (\<lambda>e. le_world e = wid) (lifecycle_events db));
          gone_posts = wp_id ` set (filter dead (world_posts db))
      in db\<lparr>ai_conversations := delete_where (\<lambda>c. ac_world c = wid) (ai_conversations db),
            residents := update_where (\<lambda>r. rs_universe r = wid \<and> rs_status r \<noteq> ''dismissed'')
              (\<lambda>r. r\<lparr>rs_status := ''dismissed'', rs_updated := now\<rparr>) (residents db),
            post_media := delete_where (\<lambda>m. pm_post m \<in> gone_posts) (post_media db),
            outbox := delete_where (\<lambda>o1. ob_world o1 = wid) (outbox db),
            lifecycle_actions := delete_where (\<lambda>a. la_event a \<in> gone_events) (lifecycle_actions db),
            lifecycle_events := delete_where (\<lambda>e. le_world e = wid) (lifecycle_events db),
            world_posts := delete_where dead (world_posts db),
            universes := update_where (\<lambda>u. uv_id u = wid) (\<lambda>u. u\<lparr>uv_onboarding := ''preparing''\<rparr>) (universes db)\<rparr>)"

definition execute_account_deletion :: "registry \<Rightarrow> int \<Rightarrow> string \<Rightarrow> world_db \<Rightarrow> world_db res" where
  "execute_account_deletion reg now user db =
     and_then (require_enabled reg MINGCHAN_APP_ID) (\<lambda>_.
       let db0 = db\<lparr>templates := delete_where (\<lambda>t. ct_owner t = Some user \<and> ct_app t = MINGCHAN_APP_ID \<and>
             ct_source_type t = ''generated'' \<and> \<not> list_ex (\<lambda>r. rs_template r = ct_id t) (residents db)) (templates db)\<rparr>;
           db1 = (case find_row (\<lambda>u. uv_owner u = user \<and> uv_app u = MINGCHAN_APP_ID) (universes db0) of
             None \<Rightarrow> db0 | Some u \<Rightarrow> delete_world_data now (uv_id u) db0)
       in Inr (db1\<lparr>memberships := delete_where (\<lambda>m. m_user m = user \<and> m_app m = MINGCHAN_APP_ID) (memberships db1)\<rparr>))"

end
