(* ===== verification/World_Home_Laws.thy ===== *)
theory World_Home_Laws
imports World_Laws World_Home
begin

text \<open>
  What the operations of the home world do to residents: \<open>homely k\<close> relates the states of an
  operation that keeps everything departures consist of and brings at most \<open>k\<close> residents of a
  world to life. It composes by adding, so the capacity rules follow from the guards.
\<close>

section \<open>The relation\<close>

definition gone_residents :: "world_db \<Rightarrow> resident set" where
  "gone_residents db = {r \<in> set (residents db). rs_status r = ''offline''}"

definition homely :: "nat \<Rightarrow> world_db \<Rightarrow> world_db \<Rightarrow> bool" where
  "homely k db db' = (world_keys_ok db \<longrightarrow>
     world_keys_ok db' \<and> committed_view db' = committed_view db \<and> farewell_view db' = farewell_view db \<and>
     set (lifecycle_actions db) \<subseteq> set (lifecycle_actions db') \<and> gone_residents db' = gone_residents db \<and>
     (\<forall>c \<in> set (ai_conversations db'). c \<in> set (ai_conversations db) \<or> (\<forall>r \<in> gone_residents db. ac_resident c \<noteq> rs_id r)) \<and>
     (\<forall>w. active_residents w db \<le> active_residents w db' \<and> active_residents w db' \<le> active_residents w db + k))"

lemma homely_mild: "mild db db' \<Longrightarrow> homely 0 db db'"
  by (auto simp: homely_def mild_def world_keys_ok_def gone_residents_def active_residents_def)

lemma homely_refl: "homely k db db"
  by (auto simp: homely_def)

lemma homely_more: "homely j db db' \<Longrightarrow> j \<le> k \<Longrightarrow> homely k db db'"
  unfolding homely_def by (meson add_left_mono order_trans)

lemma homely_trans:
  assumes ab: "homely j a b" and bc: "homely k b c" and n: "n = j + k"
  shows "homely n a c"
  unfolding homely_def
proof
  assume "world_keys_ok a"
  note A = ab [unfolded homely_def, rule_format, OF this]
  note B = bc [unfolded homely_def, rule_format, OF A [THEN conjunct1]]
  have "active_residents w a \<le> active_residents w c \<and> active_residents w c \<le> active_residents w a + n" for w
  proof -
    have "active_residents w a \<le> active_residents w b" "active_residents w b \<le> active_residents w a + j"
      "active_residents w b \<le> active_residents w c" "active_residents w c \<le> active_residents w b + k"
      using A B by blast+
    then show ?thesis using n by linarith
  qed
  moreover have "\<forall>x \<in> set (ai_conversations c). x \<in> set (ai_conversations a) \<or> (\<forall>r \<in> gone_residents a. ac_resident x \<noteq> rs_id r)"
    using A B by metis
  moreover have "set (lifecycle_actions a) \<subseteq> set (lifecycle_actions c)" using A B by blast
  ultimately show "world_keys_ok c \<and> committed_view c = committed_view a \<and> farewell_view c = farewell_view a \<and>
     set (lifecycle_actions a) \<subseteq> set (lifecycle_actions c) \<and> gone_residents c = gone_residents a \<and>
     (\<forall>x \<in> set (ai_conversations c). x \<in> set (ai_conversations a) \<or> (\<forall>r \<in> gone_residents a. ac_resident x \<noteq> rs_id r)) \<and>
     (\<forall>w. active_residents w a \<le> active_residents w c \<and> active_residents w c \<le> active_residents w a + n)"
    using A B by simp
qed

lemma homely_trans0: "homely 0 a b \<Longrightarrow> homely k b c \<Longrightarrow> homely k a c"
  "homely k a b \<Longrightarrow> homely 0 b c \<Longrightarrow> homely k a c"
  by (auto intro: homely_trans)

lemma homely_audited:
  assumes h: "homely k db db'" and a: "audited db"
  shows "audited db'"
proof -
  have keys: "world_keys_ok db" using a by (simp add: audited_def)
  note H = h [unfolded homely_def, rule_format, OF keys]
  have dep: "departure_ok db' r" if "departure_ok db r" and r: "r \<in> gone_residents db" for r
  proof -
    from that(1) obtain e p where "rs_departure r = Some e" "(e, rs_id r, rs_universe r, Some p) \<in> set (committed_view db)"
        "(p, Some e, Some (rs_id r), rs_universe r) \<in> set (farewell_view db)"
        "\<exists>x \<in> set (lifecycle_actions db). la_event x = e \<and> la_action x = ''admin_committed_offline'' \<and>
          la_actor_type x = ''admin''"
      and q: "\<forall>c \<in> set (ai_conversations db). ac_resident c \<noteq> rs_id r \<or> ac_state c = ''read_only''"
      unfolding departure_ok_iff by blast
    moreover have "\<forall>c \<in> set (ai_conversations db'). ac_resident c \<noteq> rs_id r \<or> ac_state c = ''read_only''"
      using q H r by metis
    ultimately show ?thesis unfolding departure_ok_iff using H by (intro exI [of _ e] exI [of _ p]) auto
  qed
  have "rs_status r \<noteq> ''offline'' \<or> departure_ok db' r" if "r \<in> set (residents db')" for r
  proof (cases "rs_status r = ''offline''")
    case True
    then have "r \<in> gone_residents db" using H that by (auto simp: gone_residents_def)
    moreover from this have "departure_ok db r" using a by (auto simp: audited_def list_all_iff gone_residents_def)
    ultimately show ?thesis using dep by simp
  qed simp
  moreover have "departed db' v" if "v \<in> set (committed_view db')" for v
  proof -
    from that have "departed db v" using a H by (auto simp: audited_def list_all_iff)
    then obtain r where r: "r \<in> set (residents db)" "rs_id r = fst (snd v)" "rs_status r = ''offline''"
      "rs_departure r = Some (fst v)" by (auto simp: departed_def list_ex_iff split: prod.splits)
    then have "r \<in> gone_residents db'" using H by (simp add: gone_residents_def)
    with r show ?thesis by (auto simp: departed_def list_ex_iff gone_residents_def split: prod.splits)
  qed
  ultimately show ?thesis using H by (simp add: audited_def list_all_iff)
qed

section \<open>The primitives\<close>

text \<open>What an operation that leaves residents, conversations, events and farewells alone does.\<close>

lemma homely_frame:
  assumes "residents db' = residents db" "ai_conversations db' = ai_conversations db"
    "lifecycle_events db' = lifecycle_events db" "lifecycle_actions db' = lifecycle_actions db"
    "farewell_view db' = farewell_view db"
  shows "homely 0 db db'"
  using assms by (intro homely_mild) (simp add: mild_def committed_view_def)

lemma farewell_view_other [simp]:
  "farewell_view (db\<lparr>universes := x1\<rparr>) = farewell_view db"
  "farewell_view (db\<lparr>templates := x2\<rparr>) = farewell_view db"
  "farewell_view (db\<lparr>accounts := x3\<rparr>) = farewell_view db"
  "farewell_view (db\<lparr>profiles := x4\<rparr>) = farewell_view db"
  "farewell_view (db\<lparr>profile_files := x5\<rparr>) = farewell_view db"
  "farewell_view (db\<lparr>app_sessions := x6\<rparr>) = farewell_view db"
  "farewell_view (db\<lparr>world_messages := x7\<rparr>) = farewell_view db"
  "farewell_view (db\<lparr>memberships := x8\<rparr>) = farewell_view db"
  by (simp_all add: farewell_view_def)

lemma committed_view_cong: "lifecycle_events db' = lifecycle_events db \<Longrightarrow> committed_view db' = committed_view db"
  by (simp add: committed_view_def)

text \<open>A change of residents that leaves the departed alone and brings at most \<open>k\<close> to life.\<close>

lemma homely_residents:
  assumes "db' = db\<lparr>residents := rs\<rparr>"
    and "unique_on (\<lambda>_. True) rs_id (residents db) \<Longrightarrow> unique_on (\<lambda>_. True) rs_id rs"
    and "{r \<in> set rs. rs_status r = ''offline''} = gone_residents db"
    and "\<And>w. world_keys_ok db \<Longrightarrow> active_residents w db \<le> active_residents w db' \<and>
      active_residents w db' \<le> active_residents w db + k"
  shows "homely k db db'"
  unfolding homely_def
proof
  assume k: "world_keys_ok db"
  have "farewell_view db' = farewell_view db" "committed_view db' = committed_view db"
    by (simp_all add: assms(1) farewell_view_def committed_view_def)
  with assms(2-4) k show "world_keys_ok db' \<and> committed_view db' = committed_view db \<and> farewell_view db' = farewell_view db \<and>
     set (lifecycle_actions db) \<subseteq> set (lifecycle_actions db') \<and> gone_residents db' = gone_residents db \<and>
     (\<forall>c \<in> set (ai_conversations db'). c \<in> set (ai_conversations db) \<or> (\<forall>r \<in> gone_residents db. ac_resident c \<noteq> rs_id r)) \<and>
     (\<forall>w. active_residents w db \<le> active_residents w db' \<and> active_residents w db' \<le> active_residents w db + k)"
    by (simp add: assms(1) world_keys_ok_def gone_residents_def)
qed

lemma universe_homely: "get_or_create_home_universe ids user app db = Inr (u, db') \<Longrightarrow> homely 0 db db'"
  by (rule homely_frame) (auto simp: get_or_create_home_universe_def Let_def and_then_Inr split: if_splits option.splits)

lemma onboarding_homely: "set_universe_onboarding_state w s db = Inr (u, db') \<Longrightarrow> homely 0 db db'"
  by (rule homely_frame) (auto simp: set_universe_onboarding_state_def Let_def split: option.splits)

lemma custom_template_homely: "create_custom_template ids ow d db = Inr (t, db') \<Longrightarrow> homely 0 db db'"
  by (rule homely_frame) (auto simp: create_custom_template_def Let_def split: if_splits)

lemma candidate_homely:
  assumes "get_or_create_candidate_resident ids now w t origin name naming db = Inr (r, db')"
  shows "homely 0 db db'"
proof -
  let ?n = "new_candidate ids now w t origin name naming"
  have n: "rs_status ?n = ''candidate''" "rs_id ?n = hi_resident ids" by (simp_all add: new_candidate_def)
  from assms consider "db' = db" | "db' = db\<lparr>residents := residents db @ [?n]\<rparr>" "hi_resident ids \<notin> rs_id ` set (residents db)"
    by (auto simp: get_or_create_candidate_resident_def Let_def split: if_splits option.splits)
  then show ?thesis
  proof cases
    case 1
    then show ?thesis by (simp add: homely_refl)
  next
    case 2
    from 2(2) have "rs_id r' \<noteq> rs_id ?n" if "r' \<in> set (residents db)" for r'
      unfolding n(2) using that imageI [OF that, of rs_id] by metis
    then show ?thesis
      by (rule_tac homely_residents [OF 2(1)])
        (auto simp: unique_on_snoc n(1) gone_residents_def active_residents_def 2(1))
  qed
qed

lemma ensure_homely: "ensure_candidate ids now w t origin name naming db = Inr (c, db') \<Longrightarrow> homely 0 db db'"
  by (auto simp: ensure_candidate_def and_then_Inr split: option.splits dest: candidate_homely)

lemma ensure_all_homely: "ensure_candidates digest ids now w ts db = Inr db' \<Longrightarrow> homely 0 db db'"
proof (induction ts arbitrary: db)
  case Nil
  then show ?case by (simp add: homely_refl)
next
  case (Cons t ts)
  then show ?case by (auto simp: and_then_Inr dest!: ensure_homely intro: homely_trans0(1))
qed

lemma dismiss_homely: "homely 0 db (dismiss_unselected_candidate_residents now w sel db)"
  unfolding dismiss_unselected_candidate_residents_def
proof (rule homely_residents [OF refl])
  let ?p = "unselected w sel" and ?f = "\<lambda>r. r\<lparr>rs_status := ''dismissed'', rs_updated := now\<rparr>"
  show "unique_on (\<lambda>_. True) rs_id (update_where ?p ?f (residents db))" if "unique_on (\<lambda>_. True) rs_id (residents db)"
    using that by (simp add: unique_on_update)
  show "{r \<in> set (update_where ?p ?f (residents db)). rs_status r = ''offline''} = gone_residents db"
    by (auto simp: set_update_where gone_residents_def unselected_def image_iff)
  have "(\<lambda>r. if ?p r then rs_universe (?f r) = x \<and> rs_status (?f r) = ''active''
      else rs_universe r = x \<and> rs_status r = ''active'') = (\<lambda>r. rs_universe r = x \<and> rs_status r = ''active'')" for x
    by (auto simp: unselected_def)
  then show "active_residents x db \<le> active_residents x (db\<lparr>residents := update_where ?p ?f (residents db)\<rparr>) \<and>
      active_residents x (db\<lparr>residents := update_where ?p ?f (residents db)\<rparr>) \<le> active_residents x db + 0" for x
    by (simp add: active_residents_def count_where_update)
qed

section \<open>Bringing a resident to life\<close>

lemma account_row_frame:
  "insert_account_row is row db = Inr (a, db') \<Longrightarrow> \<exists>rows. db' = db\<lparr>accounts := rows\<rparr>"
proof (induction "is")
  case Nil
  then show ?case by simp
next
  case (Cons i "is")
  then show ?case by (auto split: if_splits)
qed

lemma seed_file_frame: "\<exists>rows. seed_file acc name seed db = db\<lparr>profile_files := rows\<rparr>"
proof (cases "clean_text (Some seed)")
  case None
  then show ?thesis by (intro exI [of _ "profile_files db"]) (simp add: seed_file_def)
next
  case (Some c)
  then show ?thesis by (auto simp: seed_file_def write_file_def Let_def)
qed

lemma runtime_frame:
  assumes "insert_resident_runtime_account reg ids user name prompt soul identity app db = Inr (a, db')"
  obtains r rows y where "db' = db\<lparr>accounts := r, profiles := rows, profile_files := y\<rparr>"
proof -
  from assms obtain db1 rows where "\<exists>r. db1 = db\<lparr>accounts := r\<rparr>"
    and d: "db' = seed_file (a_id a) ''IDENTITY.md'' identity (seed_file (a_id a) ''SOUL.md'' soul (db1\<lparr>profiles := rows\<rparr>))"
    by (auto simp: insert_resident_runtime_account_def and_then_Inr Let_def split: option.splits if_splits
        dest!: account_row_frame)
  then obtain r where r: "db1 = db\<lparr>accounts := r\<rparr>" by blast
  obtain x y where "seed_file (a_id a) ''SOUL.md'' soul (db1\<lparr>profiles := rows\<rparr>) = db1\<lparr>profiles := rows, profile_files := x\<rparr>"
    and "seed_file (a_id a) ''IDENTITY.md'' identity (db1\<lparr>profiles := rows, profile_files := x\<rparr>) =
      db1\<lparr>profiles := rows, profile_files := y\<rparr>"
    using seed_file_frame [of "a_id a" "''SOUL.md''" soul "db1\<lparr>profiles := rows\<rparr>"]
      seed_file_frame [of "a_id a" "''IDENTITY.md''" identity "db1\<lparr>profiles := rows, profile_files := x\<rparr>" for x]
    by force
  then have "db' = db\<lparr>accounts := r, profiles := rows, profile_files := y\<rparr>" by (simp add: d r)
  then show ?thesis by (rule that)
qed

lemma runtime_homely:
  assumes "insert_resident_runtime_account reg ids user name prompt soul identity app db = Inr (a, db')"
  shows "homely 0 db db'"
  by (rule runtime_frame [OF assms]) (simp add: homely_frame)

lemma activation_homely:
  assumes "activate_candidate_resident now w rid runtime db = Inr (x, db')"
  shows "homely 1 db db'" and "x \<noteq> None \<Longrightarrow> \<exists>r \<in> set (residents db'). rs_id r = rid \<and> rs_status r \<noteq> ''offline''"
proof -
  define p :: "resident \<Rightarrow> bool" where "p = (\<lambda>r. rs_id r = rid \<and> rs_universe r = w \<and> rs_status r = ''candidate'' \<and> rs_runtime r = None)"
  define f :: "resident \<Rightarrow> resident" where "f = (\<lambda>r. r\<lparr>rs_runtime := Some runtime, rs_status := ''active'',
      rs_joined := (case rs_joined r of None \<Rightarrow> Some now | Some j \<Rightarrow> Some j), rs_updated := now\<rparr>)"
  have d: "db' = db\<lparr>residents := update_where p f (residents db)\<rparr>"
    and x: "x = (case find_row (\<lambda>r. rs_id r = rid \<and> rs_universe r = w) (residents db') of
              None \<Rightarrow> None | Some r \<Rightarrow> if rs_status r \<noteq> ''active'' \<or> rs_runtime r \<noteq> Some runtime then None else Some r)"
    using assms unfolding activate_candidate_resident_def Let_def p_def [symmetric] f_def [symmetric]
    by (clarify | (simp only: prod.inject sum.inject sum.distinct split: if_splits))+
  have p: "rs_status r = ''candidate''" "rs_id r = rid" if "p r" for r using that by (simp_all add: p_def)
  have f: "rs_status (f r) = ''active''" "rs_id (f r) = rs_id r" "rs_universe (f r) = rs_universe r" for r
    by (simp_all add: f_def)
  show "homely 1 db db'"
  proof (rule homely_residents [OF d])
    show "unique_on (\<lambda>_. True) rs_id (update_where p f (residents db))" if "unique_on (\<lambda>_. True) rs_id (residents db)"
      using that by (simp add: unique_on_update f)
    show "{r \<in> set (update_where p f (residents db)). rs_status r = ''offline''} = gone_residents db"
      using p f by (auto simp: set_update_where gone_residents_def image_iff)
    fix y
    assume k: "world_keys_ok db"
    let ?q = "\<lambda>r. rs_universe r = y \<and> rs_status r = ''active''"
    have "active_residents y db' = count_where (\<lambda>r. rs_universe r = y \<and> p r \<or> ?q r \<and> \<not> p r) (residents db)"
      unfolding active_residents_def d by (simp add: count_where_update) (rule arg_cong [of _ _ "\<lambda>q. count_where q _"], auto simp: f)
    also have "\<dots> = count_where (\<lambda>r. rs_universe r = y \<and> p r) (residents db) + count_where ?q (residents db)"
    proof (subst count_where_split [of _ _ p], intro arg_cong2 [of _ _ _ _ "(+)"])
      show "count_where (\<lambda>r. (rs_universe r = y \<and> p r \<or> ?q r \<and> \<not> p r) \<and> p r) (residents db) =
          count_where (\<lambda>r. rs_universe r = y \<and> p r) (residents db)"
        by (rule arg_cong [of _ _ "\<lambda>q. count_where q _"]) auto
      show "count_where (\<lambda>r. (rs_universe r = y \<and> p r \<or> ?q r \<and> \<not> p r) \<and> \<not> p r) (residents db) =
          count_where ?q (residents db)"
      proof (rule arg_cong [of _ _ "\<lambda>q. count_where q _"], rule ext)
        fix r
        show "((rs_universe r = y \<and> p r \<or> ?q r \<and> \<not> p r) \<and> \<not> p r) = ?q r"
          using p(1) [of r] by (cases "p r") auto
      qed
    qed
    finally have c: "active_residents y db' =
        count_where (\<lambda>r. rs_universe r = y \<and> p r) (residents db) + active_residents y db" by (simp add: active_residents_def)
    have "count_where p (residents db) \<le> 1"
    proof (cases "\<exists>r \<in> set (residents db). p r")
      case True
      then obtain r where "r \<in> set (residents db)" "p r" by blast
      then show ?thesis
        using count_where_key [of rs_id "residents db" r p] k p(2) by (auto simp: world_keys_ok_def)
    next
      case False
      then have "count_where p (residents db) = 0" by (simp add: count_where_0)
      then show ?thesis by simp
    qed
    moreover have "count_where (\<lambda>r. rs_universe r = y \<and> p r) (residents db) \<le> count_where p (residents db)"
      by (rule count_where_mono) simp
    ultimately show "active_residents y db \<le> active_residents y db' \<and> active_residents y db' \<le> active_residents y db + 1"
      using c by simp
  qed
  show "\<exists>r \<in> set (residents db'). rs_id r = rid \<and> rs_status r \<noteq> ''offline''" if "x \<noteq> None"
  proof -
    from that x obtain r where "find_row (\<lambda>r. rs_id r = rid \<and> rs_universe r = w) (residents db') = Some r" "rs_status r = ''active''"
      by (auto split: option.splits if_splits)
    moreover from this(1) have "r \<in> set (residents db') \<and> rs_id r = rid \<and> rs_universe r = w" by (rule find_row_Some)
    ultimately show ?thesis by (intro bexI [of _ r]) auto
  qed
qed

lemma conversation_homely:
  assumes c: "create_ai_conversation ids now w rid owner runtime db = Inr (x, db')"
    and r: "r \<in> set (residents db)" "rs_id r = rid" "rs_status r \<noteq> ''offline''"
  shows "homely 0 db db'"
proof -
  from c consider "db' = db" | n where "db' = db\<lparr>ai_conversations := ai_conversations db @ [n]\<rparr>" "ac_resident n = rid"
      "\<not> list_ex (\<lambda>c. ac_resident c = rid) (ai_conversations db)"
    by (auto simp: create_ai_conversation_def and_then_Inr split: if_splits option.splits)
  then show ?thesis
  proof cases
    case 1
    then show ?thesis by (simp add: homely_refl)
  next
    case 2
    have "rs_id y \<noteq> rid" if "y \<in> gone_residents db" "world_keys_ok db" for y
      using that r unique_onD [of "\<lambda>_. True" rs_id "residents db" y r]
      by (auto simp: gone_residents_def world_keys_ok_def)
    then have "\<forall>r \<in> gone_residents db. ac_resident n \<noteq> rs_id r" if "world_keys_ok db" using that 2(2) by metis
    moreover have "world_keys_ok db'" if "world_keys_ok db"
      using that 2 by (auto simp: world_keys_ok_def unique_on_snoc list_ex_iff)
    moreover have "gone_residents db' = gone_residents db" "active_residents y db' = active_residents y db" for y
      by (simp_all add: 2 gone_residents_def active_residents_def)
    ultimately show ?thesis using 2(1) by (simp add: homely_def)
  qed
qed

lemma bring_to_life_homely:
  assumes "bring_to_life reg ids now c owner name parts db = Inr db'"
  shows "homely 1 db db'"
proof -
  from assms obtain soul identity prompt acc db1 x db2 y where
    1: "insert_resident_runtime_account reg ids owner name prompt soul identity MINGCHAN_APP_ID db = Inr (acc, db1)"
    and 2: "activate_candidate_resident now (rs_universe (cd_row c)) (rs_id (cd_row c)) (a_id acc) db1 = Inr (x, db2)"
    and x: "x \<noteq> None"
    and 3: "create_ai_conversation ids now (rs_universe (cd_row c)) (rs_id (cd_row c)) owner (a_id acc) db2 = Inr (y, db')"
    by (auto simp: bring_to_life_def and_then_Inr Let_def split: if_splits)
  from activation_homely(2) [OF 2 x] obtain r where "r \<in> set (residents db2)" "rs_id r = rs_id (cd_row c)"
    "rs_status r \<noteq> ''offline''" by blast
  from conversation_homely [OF 3 this] activation_homely(1) [OF 2] runtime_homely [OF 1]
  show ?thesis by (blast intro: homely_trans0)
qed

text \<open>Activation happens in the world of the candidate only.\<close>

definition elsewhere :: "string \<Rightarrow> world_db \<Rightarrow> world_db \<Rightarrow> bool" where
  "elsewhere w db db' = (world_keys_ok db \<longrightarrow>
     world_keys_ok db' \<and> (\<forall>v. v \<noteq> w \<longrightarrow> active_residents v db' = active_residents v db))"

lemma elsewhere_quiet: "homely 0 db db' \<Longrightarrow> elsewhere w db db'"
  by (simp add: homely_def elsewhere_def) (meson le_antisym)

lemma elsewhere_trans: "elsewhere w a b \<Longrightarrow> elsewhere w b c \<Longrightarrow> elsewhere w a c"
  by (simp add: elsewhere_def)

lemma activation_elsewhere:
  assumes "activate_candidate_resident now w rid runtime db = Inr (x, db')"
  shows "elsewhere w db db'"
proof -
  define p :: "resident \<Rightarrow> bool" where "p = (\<lambda>r. rs_id r = rid \<and> rs_universe r = w \<and> rs_status r = ''candidate'' \<and> rs_runtime r = None)"
  define f :: "resident \<Rightarrow> resident" where "f = (\<lambda>r. r\<lparr>rs_runtime := Some runtime, rs_status := ''active'',
      rs_joined := (case rs_joined r of None \<Rightarrow> Some now | Some j \<Rightarrow> Some j), rs_updated := now\<rparr>)"
  have d: "db' = db\<lparr>residents := update_where p f (residents db)\<rparr>"
    using assms unfolding activate_candidate_resident_def Let_def p_def [symmetric] f_def [symmetric]
    by (simp split: if_splits)
  have "(\<lambda>r. if p r then rs_universe (f r) = v \<and> rs_status (f r) = ''active'' else rs_universe r = v \<and> rs_status r = ''active'') =
      (\<lambda>r. rs_universe r = v \<and> rs_status r = ''active'')" if "v \<noteq> w" for v
    using that by (auto simp: p_def f_def)
  moreover have "world_keys_ok db'" if "world_keys_ok db"
    using that by (simp add: d world_keys_ok_def unique_on_update f_def)
  ultimately show ?thesis by (simp add: elsewhere_def active_residents_def d count_where_update)
qed

lemma bring_to_life_elsewhere:
  assumes "bring_to_life reg ids now c owner name parts db = Inr db'"
  shows "elsewhere (rs_universe (cd_row c)) db db'"
proof -
  from assms obtain soul identity prompt acc db1 x db2 y where
    1: "insert_resident_runtime_account reg ids owner name prompt soul identity MINGCHAN_APP_ID db = Inr (acc, db1)"
    and 2: "activate_candidate_resident now (rs_universe (cd_row c)) (rs_id (cd_row c)) (a_id acc) db1 = Inr (x, db2)"
    and x: "x \<noteq> None"
    and 3: "create_ai_conversation ids now (rs_universe (cd_row c)) (rs_id (cd_row c)) owner (a_id acc) db2 = Inr (y, db')"
    by (auto simp: bring_to_life_def and_then_Inr Let_def split: if_splits)
  from activation_homely(2) [OF 2 x] obtain r where "r \<in> set (residents db2)" "rs_id r = rs_id (cd_row c)"
    "rs_status r \<noteq> ''offline''" by blast
  from elsewhere_quiet [OF conversation_homely [OF 3 this]] activation_elsewhere [OF 2] elsewhere_quiet [OF runtime_homely [OF 1]]
  show ?thesis by (blast intro: elsewhere_trans)
qed

lemma list_candidates_world: "c \<in> set (list_candidates w ss db) \<Longrightarrow> rs_universe (cd_row c) = w"
  by (auto simp: list_candidates_def)

lemma ensure_world: "res_all (\<lambda>r. rs_universe (cd_row (fst r)) = w) (ensure_candidate ids now w t origin name naming db)"
  unfolding ensure_candidate_def
  by (intro res_all_rules) (auto dest!: find_row_Some list_candidates_world)

section \<open>The services\<close>

lemma activate_elsewhere:
  "activate_candidate_with_runtime reg ids now c owner name db = Inr (r, db') \<Longrightarrow> elsewhere (rs_universe (cd_row c)) db db'"
  by (auto simp: activate_candidate_with_runtime_def and_then_Inr split: if_splits dest: bring_to_life_elsewhere)

lemma activate_world_elsewhere:
  "activate_world_candidate reg ids now c owner name db = Inr (r, db') \<Longrightarrow> elsewhere (rs_universe (cd_row c)) db db'"
  by (auto simp: activate_world_candidate_def and_then_Inr split: if_splits dest: bring_to_life_elsewhere)

lemma activate_homely:
  "activate_candidate_with_runtime reg ids now c owner name db = Inr (r, db') \<Longrightarrow> homely 1 db db'"
  by (auto simp: activate_candidate_with_runtime_def and_then_Inr split: if_splits dest: bring_to_life_homely)

lemma activate_world_homely:
  "activate_world_candidate reg ids now c owner name db = Inr (r, db') \<Longrightarrow> homely 1 db db'"
  by (auto simp: activate_world_candidate_def and_then_Inr split: if_splits dest: bring_to_life_homely)

lemma welcome_homely:
  assumes "insert_resident_welcome_message ids now runtime rid txt db = Inr (b, db')"
  shows "homely 0 db db'"
proof -
  from assms obtain s m where "db' = db\<lparr>app_sessions := s, world_messages := m\<rparr> \<or> db' = db"
  proof -
    have "\<exists>s m. db' = db\<lparr>app_sessions := s, world_messages := m\<rparr> \<or> db' = db"
      using assms unfolding insert_resident_welcome_message_def Let_def insert_message_def
      by (cases db; auto split: if_splits option.splits)
    then show thesis using that by blast
  qed
  then show ?thesis by (elim disjE) (simp_all add: homely_frame homely_refl)
qed

lemma farewell_view_add [simp]: "wp_departure p = None \<Longrightarrow> farewell_view (add_post p db) = farewell_view db"
  by (simp add: farewell_view_def add_post_def)

lemma add_post_homely: "wp_departure p = None \<Longrightarrow> homely 0 db (add_post p db)"
  by (rule homely_frame) (simp_all, simp_all add: add_post_def)

lemma outbox_homely: "insert_outbox o1 db = Inr (x, db') \<Longrightarrow> homely 0 db db'"
  by (drule insert_outbox_effect) (auto intro: homely_mild)

lemma intro_post_homely:
  assumes "publish_resident_intro_post_with_outbox ids w rid txt now db = Inr (x, db')"
  shows "homely 0 db db'"
proof -
  have post: "homely 0 db (if b then add_post p db else db)" if "wp_departure p = None" for b p
    using that by (simp add: add_post_homely homely_refl)
  have out: "homely 0 db d" if "homely 0 db d1" "insert_outbox o1 d1 = Inr (y, d)" for d1 d y o1
    using homely_trans0(1) [OF that(1) outbox_homely [OF that(2)]] .
  have "res_all (\<lambda>r. homely 0 db (snd r)) (publish_resident_intro_post_with_outbox ids w rid txt now db)"
    unfolding publish_resident_intro_post_with_outbox_def Let_def
    by (intro res_all_rules; simp only: snd_conv; (erule out [rotated])?; rule post) (simp_all add: plain_post_def)
  then show ?thesis using assms by simp
qed

lemma intro_homely: "seed_resident_intro intro ids now r k db = Inr db' \<Longrightarrow> homely 0 db db'"
  by (auto simp: seed_resident_intro_def and_then_Inr homely_refl split: option.splits
      dest!: welcome_homely intro_post_homely intro: homely_trans0)

lemma bootstrap_homely: "bootstrap_home reg digest ids now user db = Inr (x, db') \<Longrightarrow> homely 0 db db'"
  unfolding bootstrap_home_def
  by (auto simp: and_then_Inr split: if_splits dest!: universe_homely ensure_all_homely onboarding_homely)
    (blast intro: homely_trans0)+

text \<open>Confirming brings to life exactly the chosen residents that are not active yet.\<close>

lemma activate_chosen_homely:
  "activate_chosen reg intro ids now user cs db = Inr db' \<Longrightarrow>
     homely (length (filter (\<lambda>c. rs_status (cd_row (fst c)) \<noteq> ''active'') cs)) db db'"
proof (induction cs arbitrary: db)
  case Nil
  then show ?case by (simp add: homely_refl)
next
  case (Cons x cs)
  obtain c given where x: "x = (c, given)" by (cases x)
  show ?case
  proof (cases "rs_status (cd_row c) = ''active''")
    case True
    then show ?thesis using Cons by (simp add: x)
  next
    case False
    then obtain r name db1 db2 where
      1: "activate_candidate_with_runtime reg (ids (length cs)) now c user name db = Inr (r, db1)"
      and 2: "seed_resident_intro intro (ids (length cs)) now r (ct_persona_key (cd_template c)) db1 = Inr db2"
      and 3: "activate_chosen reg intro ids now user cs db2 = Inr db'"
      using Cons.prems by (auto simp: x and_then_Inr)
    have "homely 1 db db2" using homely_trans0(2) [OF activate_homely [OF 1] intro_homely [OF 2]] .
    from homely_trans [OF this Cons.IH [OF 3]] False show ?thesis by (simp add: x)
  qed
qed

lemma activate_chosen_elsewhere:
  "activate_chosen reg intro ids now user cs db = Inr db' \<Longrightarrow>
     list_all (\<lambda>c. rs_universe (cd_row (fst c)) = w) cs \<Longrightarrow> elsewhere w db db'"
proof (induction cs arbitrary: db)
  case Nil
  then show ?case by (simp add: elsewhere_def)
next
  case (Cons x cs)
  obtain c given where x: "x = (c, given)" by (cases x)
  show ?case
  proof (cases "rs_status (cd_row c) = ''active''")
    case True
    then show ?thesis using Cons by (simp add: x)
  next
    case False
    then obtain r name db1 db2 where
      1: "activate_candidate_with_runtime reg (ids (length cs)) now c user name db = Inr (r, db1)"
      and 2: "seed_resident_intro intro (ids (length cs)) now r (ct_persona_key (cd_template c)) db1 = Inr db2"
      and 3: "activate_chosen reg intro ids now user cs db2 = Inr db'"
      using Cons.prems(1) by (auto simp: x and_then_Inr)
    have w: "rs_universe (cd_row c) = w" "list_all (\<lambda>c. rs_universe (cd_row (fst c)) = w) cs"
      using Cons.prems(2) by (simp_all add: x)
    have "elsewhere w db db2"
      using elsewhere_trans [OF activate_elsewhere [OF 1] elsewhere_quiet [OF intro_homely [OF 2]]] w(1) by simp
    then show ?thesis using Cons.IH [OF 3 w(2)] by (rule elsewhere_trans)
  qed
qed

lemma choose_each:
  "each (choose_candidate cs) sel = Inr chosen \<Longrightarrow>
     \<forall>c \<in> set chosen. fst c \<in> set cs \<and> rs_status (cd_row (fst c)) \<noteq> ''dismissed''"
proof (induction sel arbitrary: chosen)
  case Nil
  then show ?case by simp
next
  case (Cons s sel)
  then obtain y ys where y: "choose_candidate cs s = Inr y" and ys: "each (choose_candidate cs) sel = Inr ys"
    and c: "chosen = y # ys" by (auto simp: and_then_Inr)
  from y have "fst y \<in> set cs \<and> rs_status (cd_row (fst y)) \<noteq> ''dismissed''"
    by (auto simp: choose_candidate_def split: option.splits if_splits dest: find_row_Some)
  with Cons.IH [OF ys] show ?case by (simp add: c)
qed

lemma list_candidates_status: "c \<in> set (list_candidates w ss db) \<Longrightarrow> rs_status (cd_row c) \<in> set ss"
  by (auto simp: list_candidates_def)

text \<open>What a confirmation and an addition do: within the capacity of the user's world.\<close>

definition joined :: "string \<Rightarrow> world_db \<Rightarrow> world_db \<Rightarrow> bool" where
  "joined user db db' = (\<exists>w0 k. get_universe None (Some user) db = Inr (Some w0) \<and> homely k db db' \<and>
     elsewhere (uv_id w0) db db' \<and>
     0 < int (active_residents (uv_id w0) db) + int k \<and>
     int (active_residents (uv_id w0) db) + int k \<le> MAX_ACTIVE_RESIDENTS)"

lemma lock_universe_id: "lock_universe i db = Inr w \<Longrightarrow> uv_id w = i"
  by (auto simp: lock_universe_def split: option.splits dest: find_row_Some)

lemma confirmed_joined:
  assumes "get_universe None (Some user) db = Inr (Some w0)" and "lock_universe (uv_id w0) db = Inr w"
    and ch: "each (choose_candidate (list_candidates (uv_id w) [''candidate'', ''active'', ''dismissed''] db)) sel = Inr chosen"
    and cap: "\<not> int (active_residents (uv_id w) db) + int (length (filter (\<lambda>c. rs_status (cd_row (fst c)) = ''candidate'') chosen)) \<le> 0"
      "\<not> MAX_ACTIVE_RESIDENTS < int (active_residents (uv_id w) db) + int (length (filter (\<lambda>c. rs_status (cd_row (fst c)) = ''candidate'') chosen))"
    and act: "activate_chosen reg intro ids now user chosen db = Inr db1"
    and fin: "set_universe_onboarding_state (uv_id w) ''confirmed''
      (dismiss_unselected_candidate_residents now (uv_id w) (map fst sel) db1) = Inr (x, db')"
  shows "joined user db db'"
proof -
  have "filter (\<lambda>c. rs_status (cd_row (fst c)) \<noteq> ''active'') chosen =
      filter (\<lambda>c. rs_status (cd_row (fst c)) = ''candidate'') chosen"
    using choose_each [OF ch] by (auto intro!: filter_cong dest!: list_candidates_status)
  with activate_chosen_homely [OF act]
  have 1: "homely (length (filter (\<lambda>c. rs_status (cd_row (fst c)) = ''candidate'') chosen)) db db1" by simp
  have q: "homely 0 db1 db'" using homely_trans0(1) [OF dismiss_homely onboarding_homely [OF fin]] .
  have "list_all (\<lambda>c. rs_universe (cd_row (fst c)) = uv_id w) chosen"
    using choose_each [OF ch] list_candidates_world unfolding list_all_iff by blast
  then have e: "elsewhere (uv_id w) db db'"
    using elsewhere_trans [OF activate_chosen_elsewhere [OF act] elsewhere_quiet [OF q]] by simp
  from 1 q have "homely (length (filter (\<lambda>c. rs_status (cd_row (fst c)) = ''candidate'') chosen)) db db'"
    by (rule homely_trans0(2))
  then show ?thesis
    using assms(1) lock_universe_id [OF assms(2)] cap e unfolding joined_def by (metis not_less)
qed

lemma confirm_joined: "res_all (\<lambda>r. joined user db (snd r)) (confirm_residents reg intro ids now user selections db)"
  unfolding confirm_residents_def home_universe_def Let_def
  by (intro res_all_rules; simp only: snd_conv; (elim conjE exE)?)
    (auto simp: and_then_Inr dest: confirmed_joined)

text \<open>An addition brings nobody to life, or one resident into a world that has room.\<close>

definition added :: "world_db \<Rightarrow> world_db \<Rightarrow> bool" where
  "added db db' = (homely 0 db db' \<or> (\<exists>w. homely 1 db db' \<and> elsewhere w db db' \<and>
     (world_keys_ok db \<longrightarrow> int (active_residents w db) < MAX_ACTIVE_RESIDENTS)))"

lemma template_homely: "resident_template ids user w source db = Inr (x, db') \<Longrightarrow> homely 0 db db'"
  by (auto simp: resident_template_def and_then_Inr homely_refl split: sum.splits if_splits option.splits
      dest: custom_template_homely)

lemma activated_added:
  assumes 1: "resident_template ids user w source db = Inr (t, db1)"
    and 2: "ensure_candidate ids now (uv_id w) tm origin nm nv db1 = Inr (c, db2)"
    and room: "\<not> MAX_ACTIVE_RESIDENTS \<le> int (active_residents (uv_id w) db2)"
    and 3: "activate_world_candidate reg ids now c user name db2 = Inr (r, db3)"
    and 4: "seed_resident_intro intro ids now r k db3 = Inr db'"
  shows "added db db'"
proof -
  have a: "homely 0 db db2" using homely_trans0(1) [OF template_homely [OF 1] ensure_homely [OF 2]] .
  have b: "homely 1 db2 db'" using homely_trans0(2) [OF activate_world_homely [OF 3] intro_homely [OF 4]] .
  have "rs_universe (cd_row c) = uv_id w"
    using res_allD [OF ensure_world 2] by simp
  then have e: "elsewhere (uv_id w) db db'"
    using elsewhere_trans [OF elsewhere_quiet [OF a] elsewhere_trans [OF activate_world_elsewhere [OF 3]
      elsewhere_quiet [OF intro_homely [OF 4]]]] by simp
  have "active_residents (uv_id w) db \<le> active_residents (uv_id w) db2" if "world_keys_ok db"
    using a that unfolding homely_def by blast
  with room have "world_keys_ok db \<longrightarrow> int (active_residents (uv_id w) db) < MAX_ACTIVE_RESIDENTS" by fastforce
  then show ?thesis
    using homely_trans0(1) [OF a b] e unfolding added_def by blast
qed

lemma create_added:
  "res_all (\<lambda>r. added db (snd r)) (create_resident_locked reg digest intro ids now user source db)"
proof -
  have cand: "added db db2" if "resident_template ids user w source db = Inr (t, db1)"
    "ensure_candidate ids now i tm origin nm nv db1 = Inr (c, db2)" for w t db1 i tm origin nm nv c db2
    using homely_trans0(1) [OF template_homely [OF that(1)] ensure_homely [OF that(2)]] by (simp add: added_def)
  show ?thesis
    unfolding create_resident_locked_def Let_def
    by (intro res_all_rules; simp only: snd_conv; (elim conjE exE)?) (auto dest: cand activated_added)
qed

lemma create_effect:
  "create_resident reg digest intro ids now user template_id custom db = Inr (x, db') \<Longrightarrow> added db db'"
  using res_allD [OF create_added] by (auto simp: create_resident_def split: option.splits)

section \<open>The deletion\<close>

text \<open>Deleting the world of an account leaves the departures of every other world audited.\<close>

lemma committed_view_key:
  assumes "world_keys_ok db" and "v \<in> set (committed_view db)" and "v' \<in> set (committed_view db)" and "fst v = fst v'"
  shows "v = v'"
proof -
  from assms(2,3) obtain e e' where "e \<in> set (lifecycle_events db)" "v = (le_id e, le_resident e, le_world e, le_post e)"
    "e' \<in> set (lifecycle_events db)" "v' = (le_id e', le_resident e', le_world e', le_post e')"
    by (auto simp: committed_view_def)
  moreover from this assms(1,4) have "e = e'" using unique_onD [of "\<lambda>_. True" le_id "lifecycle_events db" e e']
    by (simp add: world_keys_ok_def)
  ultimately show ?thesis by simp
qed

lemma delete_world_audited:
  assumes a: "audited db"
  shows "audited (delete_world_data now wid db)"
proof -
  let ?d = "delete_world_data now wid db"
  have keys: "world_keys_ok db" using a by (simp add: audited_def)
  have res: "residents ?d = update_where (\<lambda>r. rs_universe r = wid \<and> rs_status r \<noteq> ''dismissed'')
      (\<lambda>r. r\<lparr>rs_status := ''dismissed'', rs_updated := now\<rparr>) (residents db)"
    and conv: "ai_conversations ?d = delete_where (\<lambda>c. ac_world c = wid) (ai_conversations db)"
    and ev: "lifecycle_events ?d = delete_where (\<lambda>e. le_world e = wid) (lifecycle_events db)"
    and act: "lifecycle_actions ?d = delete_where (\<lambda>a. la_event a \<in> le_id ` set (filter (\<lambda>e. le_world e = wid)
      (lifecycle_events db))) (lifecycle_actions db)"
    and posts: "world_posts ?d = delete_where (\<lambda>p. wp_world p = wid) (world_posts db)"
    by (simp_all add: delete_world_data_def Let_def)
  have gone: "gone_residents ?d = {r \<in> gone_residents db. rs_universe r \<noteq> wid}"
    by (auto simp: gone_residents_def res set_update_where image_iff)
  have views: "set (committed_view ?d) = {v \<in> set (committed_view db). fst (snd (snd v)) \<noteq> wid}"
    "set (farewell_view ?d) = {v \<in> set (farewell_view db). snd (snd (snd v)) \<noteq> wid}"
    by (auto simp: committed_view_def farewell_view_def ev posts delete_where_def image_iff)
  have dep: "departure_ok ?d r" if r: "r \<in> gone_residents ?d" for r
  proof -
    from r have r': "r \<in> gone_residents db" "rs_universe r \<noteq> wid" by (simp_all add: gone)
    then have "departure_ok db r" using a by (auto simp: audited_def list_all_iff gone_residents_def)
    then obtain e p x where e: "rs_departure r = Some e" "(e, rs_id r, rs_universe r, Some p) \<in> set (committed_view db)"
        "(p, Some e, Some (rs_id r), rs_universe r) \<in> set (farewell_view db)"
      and x: "x \<in> set (lifecycle_actions db)" "la_event x = e" "la_action x = ''admin_committed_offline''"
        "la_actor_type x = ''admin''"
      and q: "\<forall>c \<in> set (ai_conversations db). ac_resident c \<noteq> rs_id r \<or> ac_state c = ''read_only''"
      unfolding departure_ok_iff by blast
    from e(2) obtain ev where "ev \<in> set (lifecycle_events db)" "le_id ev = e" "le_world ev = rs_universe r"
      by (auto simp: committed_view_def)
    then have other: "le_world y \<noteq> wid" if "y \<in> set (lifecycle_events db)" "le_id y = e" for y
      using keys unique_onD [of "\<lambda>_. True" le_id "lifecycle_events db" y ev] that r'(2)
      by (simp add: world_keys_ok_def)
    have "e \<notin> le_id ` set (filter (\<lambda>e. le_world e = wid) (lifecycle_events db))"
      unfolding image_iff set_filter using other by blast
    then have "x \<in> set (lifecycle_actions ?d)" using x by (simp add: act delete_where_def)
    moreover have "\<forall>c \<in> set (ai_conversations ?d). ac_resident c \<noteq> rs_id r \<or> ac_state c = ''read_only''"
      using q by (simp add: conv delete_where_def)
    ultimately show ?thesis
      unfolding departure_ok_iff views using e r'(2) x(2-4) by (intro exI [of _ e] exI [of _ p]) auto
  qed
  have "rs_status r \<noteq> ''offline'' \<or> departure_ok ?d r" if "r \<in> set (residents ?d)" for r
    using dep [of r] that by (auto simp: gone_residents_def)
  moreover have "departed ?d v" if "v \<in> set (committed_view ?d)" for v
  proof -
    from that have v: "v \<in> set (committed_view db)" "fst (snd (snd v)) \<noteq> wid" by (simp_all add: views)
    obtain v1 v2 v3 v4 where vv: "v = (v1, v2, v3, v4)" by (cases v)
    from v(1) have "departed db v" using a unfolding audited_def list_all_iff by blast
    then obtain r where r: "r \<in> gone_residents db" "rs_id r = fst (snd v)" "rs_departure r = Some (fst v)"
      by (auto simp: departed_def list_ex_iff gone_residents_def vv)
    then have "departure_ok db r" using a by (auto simp: audited_def list_all_iff gone_residents_def)
    then obtain p where p: "(v1, rs_id r, rs_universe r, Some p) \<in> set (committed_view db)"
      using r(3) unfolding departure_ok_iff vv by auto
    have "rs_universe r = fst (snd (snd v))" using committed_view_key [OF keys v(1) p] by (simp add: vv)
    with r v(2) have "r \<in> gone_residents ?d" by (simp add: gone)
    with r show ?thesis by (auto simp: departed_def list_ex_iff gone_residents_def split: prod.splits)
  qed
  moreover have "world_keys_ok ?d"
    using keys unfolding world_keys_ok_def res conv ev by (simp add: unique_on_update unique_on_delete)
  ultimately show ?thesis by (simp add: audited_def list_all_iff)
qed

text \<open>It leaves every other world alone.\<close>

lemma delete_world_active: "w \<noteq> wid \<Longrightarrow> active_residents w (delete_world_data now wid db) = active_residents w db"
proof -
  assume w: "w \<noteq> wid"
  have "(\<lambda>r :: resident. if rs_universe r = wid \<and> rs_status r \<noteq> ''dismissed''
      then rs_universe (r\<lparr>rs_status := ''dismissed'', rs_updated := now\<rparr>) = w \<and>
        rs_status (r\<lparr>rs_status := ''dismissed'', rs_updated := now\<rparr>) = ''active''
      else rs_universe r = w \<and> rs_status r = ''active'') = (\<lambda>r. rs_universe r = w \<and> rs_status r = ''active'')"
    using w by auto
  moreover have "residents (delete_world_data now wid db) =
      update_where (\<lambda>r. rs_universe r = wid \<and> rs_status r \<noteq> ''dismissed'')
        (\<lambda>r. r\<lparr>rs_status := ''dismissed'', rs_updated := now\<rparr>) (residents db)"
    by (simp add: delete_world_data_def Let_def)
  ultimately show ?thesis unfolding active_residents_def by (simp only: count_where_update)
qed

lemma deletion_cases:
  assumes "execute_account_deletion reg now user db = Inr db'"
  obtains (none) "homely 0 db db'" | (world) u db1 where "u \<in> set (universes db)" and "uv_owner u = user"
    and "homely 0 db db1" and "homely 0 (delete_world_data now (uv_id u) db1) db'"
proof -
  define db1 where "db1 = db\<lparr>templates := delete_where (\<lambda>t. ct_owner t = Some user \<and> ct_app t = MINGCHAN_APP_ID \<and>
             ct_source_type t = ''generated'' \<and> \<not> list_ex (\<lambda>r. rs_template r = ct_id t) (residents db)) (templates db)\<rparr>"
  have h: "homely 0 db db1" by (rule homely_frame) (simp_all add: db1_def)
  have m: "homely 0 d (d\<lparr>memberships := ms\<rparr>)" for d ms by (rule homely_frame) simp_all
  show thesis
  proof (cases "find_row (\<lambda>u. uv_owner u = user \<and> uv_app u = MINGCHAN_APP_ID) (universes db1)")
    case None
    then have "db' = db1\<lparr>memberships := delete_where (\<lambda>m. m_user m = user \<and> m_app m = MINGCHAN_APP_ID) (memberships db1)\<rparr>"
      using assms by (auto simp: execute_account_deletion_def and_then_Inr Let_def db1_def [symmetric])
    then show thesis using none homely_trans0(1) [OF h m] by simp
  next
    case (Some u)
    then have "u \<in> set (universes db1) \<and> uv_owner u = user" by (auto dest: find_row_Some)
    then have "u \<in> set (universes db)" "uv_owner u = user" by (simp_all add: db1_def)
    moreover from Some have "db' = (delete_world_data now (uv_id u) db1)
        \<lparr>memberships := delete_where (\<lambda>m. m_user m = user \<and> m_app m = MINGCHAN_APP_ID)
          (memberships (delete_world_data now (uv_id u) db1))\<rparr>"
      using assms by (auto simp: execute_account_deletion_def and_then_Inr Let_def db1_def [symmetric])
    ultimately show thesis using world h m by simp
  qed
qed

end
