(* ===== verification/World_Feed.thy ===== *)
theory World_Feed
imports World_Home
begin

text \<open>
  The feed of a world and its outbox (\<^verbatim>\<open>infrastructure/persistence/companion_world.py\<close>): the
  posts of users with their media, the slots of the residents' posts (claimed, deferred, skipped,
  published), retiring a post, listing, and the outbox worker's claim, completion and failure. A
  resident's post and its event are written in one transaction; the claim token fences the workers.
\<close>

section \<open>Slots\<close>

text \<open>A comparison with a nullable column: \<open>NULL\<close> satisfies none.\<close>

definition known :: "('a \<Rightarrow> bool) \<Rightarrow> 'a option \<Rightarrow> bool" where
  "known p v = (case v of None \<Rightarrow> False | Some x \<Rightarrow> p x)"

definition can_author :: "string \<Rightarrow> string \<Rightarrow> world_db \<Rightarrow> bool" where
  "can_author world_id resident_id db = list_ex (\<lambda>u. uv_id u = world_id \<and> uv_app u = MINGCHAN_APP_ID \<and>
     uv_status u = ''active'' \<and> uv_onboarding u = ''confirmed'' \<and>
     list_ex (\<lambda>r. rs_universe r = uv_id u \<and> rs_id r = resident_id \<and> rs_status r = ''active'') (residents db))
     (universes db)"

definition slot_post :: "string \<Rightarrow> string \<Rightarrow> string \<Rightarrow> world_post \<Rightarrow> bool" where
  "slot_post world_id date slot p = (wp_world p = world_id \<and> wp_source_type p = ''ai_feed'' \<and>
     wp_date p = Some date \<and> wp_slot p = Some slot)"

definition reclaimable :: "string \<Rightarrow> int \<Rightarrow> int \<Rightarrow> int \<Rightarrow> world_post \<Rightarrow> bool" where
  "reclaimable post_id now stale_before max_attempts p = (wp_id p = post_id \<and> wp_status p = ''generating'' \<and>
     known (\<lambda>e. now < e) (wp_window_end p) \<and>
     (wp_token p = None \<or> known (\<lambda>c. c \<le> stale_before) (wp_claimed p)) \<and>
     opt_all (\<lambda>n. n \<le> now) (wp_next p) \<and> wp_attempts p < max 1 max_attempts)"

definition reclaimed :: "int \<Rightarrow> string \<Rightarrow> world_post \<Rightarrow> world_post" where
  "reclaimed now token p = p\<lparr>wp_claimed := Some now, wp_token := Some token, wp_next := None,
     wp_attempts := wp_attempts p + 1, wp_updated := now\<rparr>"

definition claim_ai_feed_slot ::
  "string \<Rightarrow> string \<Rightarrow> string \<Rightarrow> string \<Rightarrow> string \<Rightarrow> int \<Rightarrow> string \<Rightarrow> int \<Rightarrow> int option \<Rightarrow> (int \<times> int) option \<Rightarrow>
     world_db \<Rightarrow> ((world_post option \<times> bool) \<times> world_db) res" where
  "claim_ai_feed_slot post_id world_id author date slot window_end token now next_attempt lease db =
     (if slot \<notin> set [''morning'', ''evening''] then Inl (ValueError ''invalid ai_slot'')
      else if \<not> can_author world_id author db then Inr ((None, False), db)
      else let db1 = add_post ((plain_post post_id world_id ''resident'' ''ai_feed'' now)
                \<lparr>wp_resident := Some author, wp_status := ''generating'', wp_date := Some date, wp_slot := Some slot,
                 wp_window_end := Some window_end, wp_attempts := 1, wp_claimed := Some now, wp_token := Some token,
                 wp_next := next_attempt\<rparr>) db
      in (case find_row (slot_post world_id date slot) (world_posts db1) of
            None \<Rightarrow> Inr ((None, False), db1)
          | Some p \<Rightarrow> if wp_id p = post_id then Inr ((Some p, True), db1)
              else (case lease of
                None \<Rightarrow> Inr ((Some p, False), db1)
              | Some (stale_before, max_attempts) \<Rightarrow>
                  (let q = reclaimable (wp_id p) now stale_before max_attempts;
                       db2 = db1\<lparr>world_posts := update_where q (reclaimed now token) (world_posts db1)\<rparr>
                   in if count_where q (world_posts db1) = 0 then Inr ((Some p, False), db2)
                      else (case find_row (\<lambda>x. wp_id x = wp_id p) (world_posts db2) of
                        None \<Rightarrow> Inl (RuntimeError ''reclaimed AI feed post disappeared'')
                      | Some x \<Rightarrow> Inr ((Some x, True), db2))))))"

text \<open>\<open>lease\<close> is the pair of the optional arguments \<open>stale_before\<close> and \<open>max_attempts\<close>: both or none.\<close>

definition find_post :: "string \<Rightarrow> world_db \<Rightarrow> world_post option" where
  "find_post post_id db = find_row (\<lambda>p. wp_id p = post_id) (world_posts db)"

definition holds :: "string \<Rightarrow> string \<Rightarrow> world_post \<Rightarrow> bool" where
  "holds post_id token p = (wp_id p = post_id \<and> wp_status p = ''generating'' \<and> wp_token p = Some token)"

definition skipped :: "string \<Rightarrow> int \<Rightarrow> world_post \<Rightarrow> world_post" where
  "skipped reason now p = p\<lparr>wp_status := ''skipped'', wp_reason := Some reason, wp_token := None,
     wp_next := None, wp_updated := now\<rparr>"

definition deferred :: "int \<Rightarrow> int \<Rightarrow> world_post \<Rightarrow> world_post" where
  "deferred next_attempt now p = p\<lparr>wp_claimed := None, wp_token := None, wp_next := Some next_attempt,
     wp_updated := now\<rparr>"

definition defer_ai_feed_post ::
  "string \<Rightarrow> string \<Rightarrow> int \<Rightarrow> int \<Rightarrow> int \<Rightarrow> world_db \<Rightarrow> world_post option \<times> world_db" where
  "defer_ai_feed_post post_id token next_attempt max_attempts now db =
     (case find_row (\<lambda>p. wp_id p = post_id \<and> wp_source_type p = ''ai_feed'') (world_posts db) of
        None \<Rightarrow> (None, db)
      | Some p \<Rightarrow>
          if wp_status p \<noteq> ''generating'' \<or> (case wp_token p of None \<Rightarrow> [] | Some t \<Rightarrow> t) \<noteq> token then (Some p, db)
          else let db1 = db\<lparr>world_posts := update_where (holds post_id token)
                 (if max 1 max_attempts \<le> wp_attempts p then skipped ''retry_exhausted'' now else deferred next_attempt now)
                 (world_posts db)\<rparr>
          in (find_post post_id db1, db1))"

definition skip_ai_feed_post :: "string \<Rightarrow> string \<Rightarrow> string option \<Rightarrow> int \<Rightarrow> world_db \<Rightarrow> world_post option \<times> world_db" where
  "skip_ai_feed_post post_id reason token now db =
     (let db1 = db\<lparr>world_posts := update_where
            (\<lambda>p. wp_id p = post_id \<and> wp_status p = ''generating'' \<and> (token = None \<or> wp_token p = token))
            (skipped reason now) (world_posts db)\<rparr>
      in (find_post post_id db1, db1))"

definition in_app :: "string \<Rightarrow> world_db \<Rightarrow> bool" where
  "in_app world_id db = list_ex (\<lambda>u. uv_id u = world_id \<and> uv_app u = MINGCHAN_APP_ID) (universes db)"

definition close_expired_ai_feed_slots :: "int \<Rightarrow> int \<Rightarrow> world_db \<Rightarrow> int \<times> world_db" where
  "close_expired_ai_feed_slots now limit db =
     (let rows = sql_limit (max 1 (min limit 1000)) (sort_key (\<lambda>p. (the (wp_window_end p), wp_id p))
            (filter (\<lambda>p. in_app (wp_world p) db \<and> wp_source_type p = ''ai_feed'' \<and> wp_status p = ''generating'' \<and>
               known (\<lambda>e. e \<le> now) (wp_window_end p)) (world_posts db)));
          q = (\<lambda>p. wp_status p = ''generating'' \<and> wp_id p \<in> wp_id ` set rows)
      in if rows = [] then (0, db)
         else (int (count_where q (world_posts db)),
               db\<lparr>world_posts := update_where q (skipped ''window_closed'' now) (world_posts db)\<rparr>))"

section \<open>Publishing\<close>

definition publish_ai_feed_post_with_outbox ::
  "string \<Rightarrow> string \<Rightarrow> string \<Rightarrow> string \<Rightarrow> int \<Rightarrow> string \<Rightarrow> dict \<Rightarrow> world_db \<Rightarrow>
     ((world_post \<times> outbox_row) \<times> world_db) res" where
  "publish_ai_feed_post_with_outbox outbox_id post_id token text published_at key payload db =
     (let content = py_strip text; body = sort_key fst payload in
      if content = [] then Inl (ValueError ''text is required'')
      else (case find_row (\<lambda>p. wp_id p = post_id \<and> wp_source_type p = ''ai_feed'' \<and>
               list_ex (\<lambda>r. wp_resident p = Some (rs_id r) \<and> rs_universe r = wp_world p) (residents db)) (world_posts db) of
        None \<Rightarrow> Inl (ValueError ''ai feed post not found'')
      | Some p \<Rightarrow>
          let author = find_row (\<lambda>r. wp_resident p = Some (rs_id r) \<and> rs_universe r = wp_world p) (residents db)
          in and_then
            (if wp_status p = ''generating''
             then if (case wp_token p of None \<Rightarrow> [] | Some t \<Rightarrow> t) \<noteq> token then Inl (ValueError ''claim token mismatch'')
                  else if map_option rs_status author \<noteq> Some ''active'' then Inl (ValueError ''author is not active'')
                  else if known (\<lambda>e. e \<le> published_at) (wp_window_end p) then Inl (ValueError ''slot window closed'')
                  else Inr (db\<lparr>world_posts := update_where (holds post_id token)
                    (\<lambda>x. x\<lparr>wp_text := Some content, wp_status := ''published'', wp_published := Some published_at,
                           wp_updated := published_at\<rparr>) (world_posts db)\<rparr>)
             else if wp_status p = ''published''
             then if (case wp_text p of None \<Rightarrow> [] | Some t \<Rightarrow> t) \<noteq> content
                  then Inl (ValueError ''published post content mismatch'') else Inr db
             else Inl (ValueError ''ai feed post is not publishable'')) (\<lambda>db1.
          and_then (insert_outbox (outbox_pending outbox_id (wp_world p) post_id ''universe_post.published.v1'' key body
             published_at) db1) (\<lambda>(ob, db2). case ob of
            None \<Rightarrow> Inl (RuntimeError ''published outbox was not created'')
          | Some x \<Rightarrow> if ob_post x \<noteq> post_id \<or> ob_world x \<noteq> wp_world p \<or> ob_payload x \<noteq> body
              then Inl (ValueError ''outbox idempotency conflict'')
              else (case find_post post_id db2 of
                None \<Rightarrow> Inl (RuntimeError ''published post disappeared'')
              | Some y \<Rightarrow> Inr ((y, x), db2))))))"

text \<open>The row with the projections the feed shows: the author's name and avatar, the media in order.\<close>

record feed_post =
  fp_row :: world_post
  fp_name :: "string option"
  fp_avatar :: "string option"
  fp_media :: "string list"

definition list_post_media_ids :: "string \<Rightarrow> world_db \<Rightarrow> string list" where
  "list_post_media_ids post_id db =
     map pm_media (sort_key pm_position (filter (\<lambda>m. pm_post m = post_id) (post_media db)))"

definition project_post :: "world_db \<Rightarrow> world_post \<Rightarrow> feed_post" where
  "project_post db p =
     (let author = (case wp_resident p of None \<Rightarrow> None | Some i \<Rightarrow> find_row (\<lambda>r. rs_id r = i) (residents db));
          template = (case author of None \<Rightarrow> None | Some r \<Rightarrow> find_row (\<lambda>t. ct_id t = rs_template r) (templates db));
          profile = (case author of None \<Rightarrow> None | Some r \<Rightarrow> find_row (\<lambda>x. Some (pf_account x) = rs_runtime r) (profiles db));
          human = (case wp_user p of None \<Rightarrow> None | Some i \<Rightarrow> find_row (\<lambda>u. u_id u = i) (users db))
      in \<lparr>fp_row = p,
          fp_name = (if wp_author p = ''human'' then Option.bind human u_name
                     else first_some (map_option pf_name profile) (map_option ct_name template)),
          fp_avatar = (if wp_author p = ''resident'' then Option.bind template ct_avatar else None),
          fp_media = (if wp_content_type p = ''image'' then list_post_media_ids (wp_id p) db else [])\<rparr>)"

definition owned_world :: "string \<Rightarrow> string \<Rightarrow> world_db \<Rightarrow> bool" where
  "owned_world owner world_id db =
     list_ex (\<lambda>u. uv_id u = world_id \<and> uv_owner u = owner \<and> uv_app u = MINGCHAN_APP_ID) (universes db)"

definition get_universe_post_for_owner :: "string \<Rightarrow> string \<Rightarrow> world_db \<Rightarrow> feed_post option" where
  "get_universe_post_for_owner post_id owner db =
     map_option (project_post db)
       (find_row (\<lambda>p. wp_id p = post_id \<and> owned_world owner (wp_world p) db) (world_posts db))"

text \<open>
  \<open>mark_media_assets_referenced\<close>: every asset is the owner's, pending, and claimed once; \<open>review\<close>
  is whether the review of images can run.
\<close>

definition claimable_media :: "string \<Rightarrow> string \<Rightarrow> media_asset \<Rightarrow> bool" where
  "claimable_media owner i m = (md_id m = i \<and> md_owner m = owner \<and> md_status m = ''pending'')"

fun reference_media :: "bool \<Rightarrow> string \<Rightarrow> string list \<Rightarrow> world_db \<Rightarrow> world_db res" where
  "reference_media review owner [] db = Inr db"
| "reference_media review owner (i # is) db =
     (if count_where (claimable_media owner i) (media_assets db) \<noteq> 1
      then Inl (ValueError (''media_ref is not claimable: '' @ i))
      else reference_media review owner is (db\<lparr>media_assets := update_where (claimable_media owner i)
        (\<lambda>m. m\<lparr>md_status := ''referenced'', md_expires := None,
          md_moderation := (if md_kind m = ''image'' then (if review then ''pending'' else ''skipped'')
                            else md_moderation m)\<rparr>) (media_assets db)\<rparr>))"

definition mark_media_assets_referenced ::
  "bool \<Rightarrow> string list \<Rightarrow> string \<Rightarrow> world_db \<Rightarrow> world_db res" where
  "mark_media_assets_referenced review media_ids owner db =
     (let o1 = py_strip owner; cleaned = map py_strip media_ids in
      if o1 = [] then Inl (ValueError ''owner_platform_user_id is required'')
      else if [] \<in> set cleaned then Inl (ValueError ''media_ref is required'')
      else if \<not> distinct cleaned then Inl (ValueError ''duplicated media_ref'')
      else reference_media review o1 cleaned db)"

fun attach_media :: "string \<Rightarrow> nat \<Rightarrow> string list \<Rightarrow> world_db \<Rightarrow> world_db res" where
  "attach_media post_id n [] db = Inr db"
| "attach_media post_id n (i # is) db =
     (if list_ex (\<lambda>m. pm_media m = i \<or> (pm_post m = post_id \<and> pm_position m = n)) (post_media db)
      then Inl (ValueError ''media_ref_invalid'')
      else attach_media post_id (Suc n) is
        (db\<lparr>post_media := post_media db @ [\<lparr>pm_post = post_id, pm_media = i, pm_position = n\<rparr>]\<rparr>))"

definition has_active_resident :: "string \<Rightarrow> world_db \<Rightarrow> bool" where
  "has_active_resident world_id db = list_ex (\<lambda>r. rs_universe r = world_id \<and> rs_status r = ''active'') (residents db)"

definition request_of :: "string \<Rightarrow> string \<Rightarrow> string \<Rightarrow> world_post \<Rightarrow> bool" where
  "request_of world_id owner request p = (wp_world p = world_id \<and> wp_user p = Some owner \<and>
     wp_source_type p = ''user_post'' \<and> wp_request p = Some request)"

definition publish_user_feed_post_with_outbox ::
  "home_ids \<Rightarrow> bool \<Rightarrow> string \<Rightarrow> string \<Rightarrow> string \<Rightarrow> string \<Rightarrow> int \<Rightarrow> string list \<Rightarrow> world_db \<Rightarrow>
     ((feed_post \<times> bool) \<times> world_db) res" where
  "publish_user_feed_post_with_outbox ids review owner request text fingerprint now media_ids db =
     (case find_row (\<lambda>u. uv_owner u = owner \<and> uv_app u = MINGCHAN_APP_ID) (universes db) of
        None \<Rightarrow> Inl (ValueError ''world_not_ready'')
      | Some w \<Rightarrow>
        if uv_status w \<noteq> ''active'' then Inl (ValueError ''world_disabled'')
        else if uv_onboarding w \<noteq> ''confirmed'' \<or> \<not> has_active_resident (uv_id w) db
        then Inl (ValueError ''world_not_ready'')
        else let media = map py_strip media_ids;
                 db1 = add_post ((plain_post (hi_post ids) (uv_id w) ''human'' ''user_post'' now)
                   \<lparr>wp_user := Some owner, wp_content_type := (if media = [] then ''text'' else ''image''),
                    wp_text := Some text, wp_request := Some request, wp_fingerprint := Some fingerprint,
                    wp_published := Some now\<rparr>) db
        in (case find_row (request_of (uv_id w) owner request) (world_posts db1) of
          None \<Rightarrow> Inl (RuntimeError ''user feed post was not created'')
        | Some p \<Rightarrow>
          if (case wp_fingerprint p of None \<Rightarrow> [] | Some f \<Rightarrow> f) \<noteq> fingerprint
          then Inl (ValueError ''idempotency_conflict'')
          else let created = (wp_id p = hi_post ids)
          in and_then
            (if created \<and> media \<noteq> []
             then and_then (case mark_media_assets_referenced review media owner db1 of
                      Inl (ValueError _) \<Rightarrow> Inl (ValueError ''media_ref_invalid'') | x \<Rightarrow> x)
                    (attach_media (wp_id p) 0 media)
             else Inr db1) (\<lambda>db2.
          and_then (insert_outbox (outbox_pending (hi_outbox ids) (wp_world p) (wp_id p) ''universe_post.published.v1''
             (published_key (wp_id p)) (published_payload p) (the (wp_published p))) db2) (\<lambda>(ob, db3). case ob of
            None \<Rightarrow> Inl (RuntimeError ''user feed published outbox was not created'')
          | Some x \<Rightarrow> if ob_post x \<noteq> wp_id p \<or> ob_payload x \<noteq> published_payload p
              then Inl (ValueError ''outbox idempotency conflict'')
              else (case get_universe_post_for_owner (wp_id p) owner db3 of
                None \<Rightarrow> Inl (RuntimeError ''published user post disappeared'')
              | Some y \<Rightarrow> Inr ((y, created), db3))))))"

section \<open>Listing and retiring\<close>

definition after_cursor :: "(int \<times> string) option \<Rightarrow> world_post \<Rightarrow> bool" where
  "after_cursor cursor p = (case cursor of
     None \<Rightarrow> True
   | Some (at, i) \<Rightarrow> known (\<lambda>t. t < at \<or> (t = at \<and> wp_id p < i)) (wp_published p))"

definition visible :: "string \<Rightarrow> (int \<times> string) option \<Rightarrow> world_db \<Rightarrow> world_post \<Rightarrow> bool" where
  "visible owner cursor db p =
     (owned_world owner (wp_world p) db \<and> wp_status p = ''published'' \<and> after_cursor cursor p)"

definition list_published_feed_posts_for_owner ::
  "string \<Rightarrow> int option \<Rightarrow> string option \<Rightarrow> int \<Rightarrow> world_db \<Rightarrow> feed_post list res" where
  "list_published_feed_posts_for_owner owner cursor_at cursor_id limit db =
     (let cid = or_none cursor_id in
      if (cursor_at \<noteq> None) \<noteq> (cid \<noteq> None) then Inl (ValueError ''invalid_cursor'')
      else (case find_row (\<lambda>u. uv_owner u = owner \<and> uv_app u = MINGCHAN_APP_ID) (universes db) of
        None \<Rightarrow> Inl (ValueError ''world_not_ready'')
      | Some w \<Rightarrow>
        if uv_status w \<noteq> ''active'' then Inl (ValueError ''world_disabled'')
        else if uv_onboarding w \<noteq> ''confirmed'' \<or> \<not> (has_active_resident (uv_id w) db \<or>
            list_ex (\<lambda>p. wp_world p = uv_id w \<and> wp_type p = ''farewell'' \<and> wp_status p = ''published'') (world_posts db))
        then Inl (ValueError ''world_not_ready'')
        else let cursor = (case (cursor_at, cid) of (Some a, Some i) \<Rightarrow> Some (a, i) | _ \<Rightarrow> None)
        in Inr (map (project_post db) (sql_limit (max 1 (min limit 51))
             (order_desc (\<lambda>p. (the (wp_published p), wp_id p)) (filter (visible owner cursor db) (world_posts db)))))))"

definition deleted_key :: "string \<Rightarrow> string" where
  "deleted_key post_id = ''world-post-deleted:v1:'' @ post_id"

definition retire_feed_post_with_outbox ::
  "string \<Rightarrow> string \<Rightarrow> string \<Rightarrow> string \<Rightarrow> int \<Rightarrow> string option \<Rightarrow> string list \<Rightarrow> world_db \<Rightarrow>
     ((feed_post \<times> bool) \<times> world_db) res" where
  "retire_feed_post_with_outbox outbox_id owner post_id reason now expected_author forbidden db =
     (case find_row (\<lambda>p. wp_id p = post_id \<and> owned_world owner (wp_world p) db) (world_posts db) of
        None \<Rightarrow> Inl (ValueError ''post_not_found'')
      | Some p \<Rightarrow>
        if wp_status p \<notin> set [''published'', ''deleted''] then Inl (ValueError ''post_not_found'')
        else if \<not> opt_all (\<lambda>a. wp_author p = a) expected_author then Inl (ValueError ''post_not_found'')
        else if wp_type p \<in> set forbidden then Inl (ValueError ''post_not_hideable'')
        else let changed = (wp_status p = ''published'');
                 at = (if changed then now else case wp_deleted p of None \<Rightarrow> now | Some t \<Rightarrow> t);
                 why = (if changed then reason else case or_none (wp_reason p) of None \<Rightarrow> reason | Some r \<Rightarrow> r);
                 db1 = (if changed then db\<lparr>world_posts := update_where
                     (\<lambda>x. wp_id x = post_id \<and> wp_world x = wp_world p \<and> wp_status x = ''published'')
                     (\<lambda>x. x\<lparr>wp_status := ''deleted'', wp_reason := Some reason, wp_deleted := Some now,
                            wp_updated := now\<rparr>) (world_posts db)\<rparr> else db)
        in and_then (insert_outbox (outbox_pending outbox_id (wp_world p) post_id ''universe_post.deleted.v1''
             (deleted_key post_id) [(''deleted_at'', JInt at), (''post_id'', JStr post_id), (''reason_code'', JStr why)] at)
             db1) (\<lambda>(ob, db2).
           if map_option ob_post ob \<noteq> Some post_id then Inl (ValueError ''outbox idempotency conflict'')
           else (case get_universe_post_for_owner post_id owner db2 of
             None \<Rightarrow> Inl (RuntimeError ''retired post disappeared'')
           | Some y \<Rightarrow> Inr ((y, changed), db2))))"

section \<open>The outbox worker\<close>

definition due :: "int \<Rightarrow> int option \<Rightarrow> outbox_row \<Rightarrow> bool" where
  "due now stale_before x = ((ob_status x = ''pending'' \<and> ob_available x \<le> now) \<or>
     (case stale_before of None \<Rightarrow> False
      | Some s \<Rightarrow> ob_status x = ''processing'' \<and> known (\<lambda>c. c \<le> s) (ob_claimed x)))"

definition still_due :: "int option \<Rightarrow> string list \<Rightarrow> outbox_row \<Rightarrow> bool" where
  "still_due stale_before ids x = (ob_id x \<in> set ids \<and> (ob_status x = ''pending'' \<or>
     (case stale_before of None \<Rightarrow> False
      | Some s \<Rightarrow> ob_status x = ''processing'' \<and> known (\<lambda>c. c \<le> s) (ob_claimed x))))"

definition leased :: "int \<Rightarrow> string \<Rightarrow> outbox_row \<Rightarrow> outbox_row" where
  "leased now token x = x\<lparr>ob_status := ''processing'', ob_attempts := ob_attempts x + 1,
     ob_claimed := Some now, ob_token := Some token\<rparr>"

definition claim_companion_world_outbox ::
  "int \<Rightarrow> int \<Rightarrow> string \<Rightarrow> int option \<Rightarrow> world_db \<Rightarrow> outbox_row list \<times> world_db" where
  "claim_companion_world_outbox batch_size now token stale_before db =
     (let ids = map ob_id (sql_limit (max 1 batch_size) (sort_key (\<lambda>x. (ob_available x, ob_id x))
            (filter (\<lambda>x. in_app (ob_world x) db \<and> due now stale_before x) (outbox db))))
      in if ids = [] then ([], db)
         else let db1 = db\<lparr>outbox := update_where (still_due stale_before ids) (leased now token) (outbox db)\<rparr>
         in (sort_key (\<lambda>x. (ob_available x, ob_id x))
               (filter (\<lambda>x. ob_token x = Some token \<and> ob_status x = ''processing'' \<and> ob_id x \<in> set ids) (outbox db1)), db1))"

definition lease_of :: "string \<Rightarrow> string \<Rightarrow> outbox_row \<Rightarrow> bool" where
  "lease_of outbox_id token x = (ob_id x = outbox_id \<and> ob_status x = ''processing'' \<and> ob_token x = Some token)"

definition find_outbox :: "string \<Rightarrow> world_db \<Rightarrow> outbox_row option" where
  "find_outbox outbox_id db = find_row (\<lambda>x. ob_id x = outbox_id) (outbox db)"

definition complete_companion_world_outbox ::
  "string \<Rightarrow> string \<Rightarrow> int \<Rightarrow> world_db \<Rightarrow> outbox_row option \<times> world_db" where
  "complete_companion_world_outbox outbox_id token now db =
     (let db1 = db\<lparr>outbox := update_where (lease_of outbox_id token)
            (\<lambda>x. x\<lparr>ob_status := ''delivered'', ob_delivered := Some now, ob_token := None, ob_error := None\<rparr>) (outbox db)\<rparr>
      in (find_outbox outbox_id db1, db1))"

definition fail_companion_world_outbox ::
  "string \<Rightarrow> string \<Rightarrow> string \<Rightarrow> int \<Rightarrow> int \<Rightarrow> world_db \<Rightarrow> outbox_row option \<times> world_db" where
  "fail_companion_world_outbox outbox_id token error next_attempt max_attempts db =
     (let db1 = db\<lparr>outbox := update_where (lease_of outbox_id token)
            (\<lambda>x. x\<lparr>ob_status := (if max 1 max_attempts \<le> ob_attempts x then ''dead'' else ''pending''),
                   ob_available := next_attempt, ob_token := None, ob_claimed := None,
                   ob_error := Some (take 1000 error)\<rparr>) (outbox db)\<rparr>
      in (find_outbox outbox_id db1, db1))"

definition get_companion_world_outbox_metrics :: "int \<Rightarrow> world_db \<Rightarrow> (string \<times> int) list \<times> int" where
  "get_companion_world_outbox_metrics now db =
     (let rows = filter (\<lambda>x. in_app (ob_world x) db) (outbox db);
          live = filter (\<lambda>x. ob_status x \<in> set [''pending'', ''processing'']) rows
      in (map (\<lambda>s. (s, int (count_where (\<lambda>x. ob_status x = s) rows))) [''pending'', ''processing'', ''delivered'', ''dead''],
          case sort (map ob_created live) of [] \<Rightarrow> 0 | oldest # _ \<Rightarrow> max 0 (now - oldest)))"

end
