(* ===== verification/World_Feed_Laws.thy ===== *)
theory World_Feed_Laws
imports World_Home_Laws World_Feed
begin

text \<open>
  The laws of the feed: its operations leave residents and their departures alone, every post shown
  or withdrawn has its event in the outbox (the transactional outbox), and posts and events have a
  life cycle that ends.
\<close>

section \<open>Departures\<close>

lemma farewell_view_posts [simp]:
  "farewell_view (db\<lparr>post_media := x1\<rparr>) = farewell_view db"
  "farewell_view (db\<lparr>media_assets := x2\<rparr>) = farewell_view db"
  by (simp_all add: farewell_view_def)

text \<open>The updates of the feed change no column a departure consists of.\<close>

lemma posts_update_homely:
  assumes "\<And>p. wp_id (f p) = wp_id p \<and> wp_departure (f p) = wp_departure p \<and> wp_resident (f p) = wp_resident p \<and>
    wp_world (f p) = wp_world p"
  shows "homely 0 db (db\<lparr>world_posts := update_where q f (world_posts db)\<rparr>)"
  by (rule homely_frame) (simp_all add: farewell_view_same assms)

lemma retire_update_homely: "homely 0 db (db\<lparr>world_posts := update_where q
    (\<lambda>p. p\<lparr>wp_status := s, wp_reason := x, wp_deleted := y, wp_updated := z\<rparr>) (world_posts db)\<rparr>)"
  by (rule posts_update_homely) simp

lemma publish_update_homely: "homely 0 db (db\<lparr>world_posts := update_where q
    (\<lambda>p. p\<lparr>wp_text := a, wp_status := s, wp_published := y, wp_updated := z\<rparr>) (world_posts db)\<rparr>)"
  by (rule posts_update_homely) simp

lemma slot_update_homely:
  "homely 0 db (db\<lparr>world_posts := update_where q (reclaimed now token) (world_posts db)\<rparr>)"
  "homely 0 db (db\<lparr>world_posts := update_where q (skipped reason now) (world_posts db)\<rparr>)"
  "homely 0 db (db\<lparr>world_posts := update_where q (if b then skipped reason now else deferred next now) (world_posts db)\<rparr>)"
  by (rule posts_update_homely, simp add: reclaimed_def skipped_def deferred_def)+

lemmas feed_updates_homely = retire_update_homely publish_update_homely slot_update_homely homely_refl

lemma outbox_after: "homely 0 a b \<Longrightarrow> insert_outbox o1 b = Inr (x, c) \<Longrightarrow> homely 0 a c"
  using homely_trans0(1) outbox_homely by blast

lemma add_then: "homely 0 (add_post p db) db' \<Longrightarrow> wp_departure p = None \<Longrightarrow> homely 0 db db'"
  using homely_trans0(1) add_post_homely by blast

lemma claim_slot_homely:
  "res_all (\<lambda>r. homely 0 db (snd r)) (claim_ai_feed_slot i w a d s e t now nx lease db)"
  unfolding claim_ai_feed_slot_def Let_def
  by (intro res_all_rules; simp only: snd_conv;
      (rule homely_refl | rule add_then, rule feed_updates_homely, simp add: plain_post_def))

lemma defer_homely: "out_all (homely 0 db) (defer_ai_feed_post i t nx m now db)"
  unfolding defer_ai_feed_post_def Let_def by (intro out_all_rules feed_updates_homely)

lemma skip_homely: "out_all (homely 0 db) (skip_ai_feed_post i r t now db)"
  unfolding skip_ai_feed_post_def Let_def by (intro out_all_rules feed_updates_homely)

lemma close_homely: "out_all (homely 0 db) (close_expired_ai_feed_slots now n db)"
  unfolding close_expired_ai_feed_slots_def Let_def by (intro out_all_rules feed_updates_homely)

lemma publish_ai_homely:
  "res_all (\<lambda>r. homely 0 db (snd r)) (publish_ai_feed_post_with_outbox oid i t txt at key payload db)"
proof -
  have a: "homely 0 db d" if "(if b1 then if b2 then Inl e2 else if b3 then Inl e3 else if b4 then Inl e4 else
      Inr (db\<lparr>world_posts := update_where q (\<lambda>p. p\<lparr>wp_text := a, wp_status := s, wp_published := y, wp_updated := z\<rparr>)
        (world_posts db)\<rparr>) else if b5 then if b6 then Inl e6 else Inr db else Inl e7) = Inr d"
    for b1 b2 b3 b4 b5 b6 e2 e3 e4 e6 e7 q a s y z d
    using that by (auto split: if_splits intro: feed_updates_homely)
  show ?thesis
    unfolding publish_ai_feed_post_with_outbox_def Let_def
    by (intro res_all_rules; simp only: snd_conv) (rule outbox_after, rule a, assumption+)
qed

lemma reference_homely: "reference_media review ow is db = Inr db' \<Longrightarrow> homely 0 db db'"
proof (induction "is" arbitrary: db)
  case Nil
  then show ?case by (simp add: homely_refl)
next
  case (Cons i "is")
  have "homely 0 db (db\<lparr>media_assets := ms\<rparr>)" for ms by (rule homely_frame) simp_all
  with Cons show ?case by (auto split: if_splits intro: homely_trans0(1))
qed

lemma mark_media_homely: "mark_media_assets_referenced review ids ow db = Inr db' \<Longrightarrow> homely 0 db db'"
  by (auto simp: mark_media_assets_referenced_def Let_def split: if_splits dest: reference_homely)

lemma attach_homely: "attach_media p n is db = Inr db' \<Longrightarrow> homely 0 db db'"
proof (induction "is" arbitrary: n db)
  case Nil
  then show ?case by (simp add: homely_refl)
next
  case (Cons i "is")
  have "homely 0 db (db\<lparr>post_media := ms\<rparr>)" for ms by (rule homely_frame) simp_all
  with Cons show ?case by (auto split: if_splits intro: homely_trans0(1))
qed

lemma media_homely:
  assumes "(if b then and_then (case mark_media_assets_referenced review media ow db of
      Inl (ValueError _) \<Rightarrow> Inl (ValueError ''media_ref_invalid'') | x \<Rightarrow> x) (attach_media p 0 media) else Inr db) = Inr db'"
  shows "homely 0 db db'"
  using assms
  by (auto simp: and_then_Inr homely_refl split: if_splits sum.splits err.splits dest!: mark_media_homely attach_homely
      intro: homely_trans0(1))

lemma publish_user_homely:
  "res_all (\<lambda>r. homely 0 db (snd r)) (publish_user_feed_post_with_outbox ids review ow rq txt fp now ms db)"
  unfolding publish_user_feed_post_with_outbox_def Let_def
  by (intro res_all_rules; simp only: snd_conv)
    (rule add_then, erule outbox_after [OF media_homely], simp_all add: plain_post_def)

lemma retire_homely:
  "res_all (\<lambda>r. homely 0 db (snd r)) (retire_feed_post_with_outbox oid ow i reason now author forbidden db)"
proof -
  have "homely 0 db (if b then db\<lparr>world_posts := update_where q
    (\<lambda>p. p\<lparr>wp_status := s, wp_reason := x, wp_deleted := y, wp_updated := z\<rparr>) (world_posts db)\<rparr> else db)" for b q s x y z
    by (simp add: feed_updates_homely)
  then show ?thesis
    unfolding retire_feed_post_with_outbox_def Let_def
    by (intro res_all_rules; simp only: snd_conv) (rule outbox_after)
qed

lemma outbox_update_homely: "homely 0 db (db\<lparr>outbox := rows\<rparr>)"
  by (rule homely_frame) simp_all

lemma claim_outbox_homely: "out_all (homely 0 db) (claim_companion_world_outbox n now t s db)"
  unfolding claim_companion_world_outbox_def Let_def by (intro out_all_rules outbox_update_homely homely_refl)

lemma complete_homely: "out_all (homely 0 db) (complete_companion_world_outbox i t now db)"
  unfolding complete_companion_world_outbox_def Let_def by (intro out_all_rules outbox_update_homely)

lemma fail_homely: "out_all (homely 0 db) (fail_companion_world_outbox i t e nx m db)"
  unfolding fail_companion_world_outbox_def Let_def by (intro out_all_rules outbox_update_homely)

end
