(* ===== verification/World_Mailbox.thy ===== *)
theory World_Mailbox
imports World_Feed
begin

text \<open>
  The mailbox of a Mingchan user: \<^verbatim>\<open>infrastructure/persistence/companion_world_mailbox.py\<close> over the tables
  \<^verbatim>\<open>character_letter_catalog\<close> and \<^verbatim>\<open>character_letters\<close> beside the companion world. Of the wishes the
  mailbox only closes the row of a letter. \<open>json_dumps\<close> sorts the keys of a dictionary as
  \<^verbatim>\<open>sort_keys=True\<close> does; new ids are arguments.
\<close>

section \<open>Tables\<close>

record catalog_entry =
  lc_id :: string
  lc_key :: string
  lc_template :: string
  lc_version :: string
  lc_body :: string
  lc_policy :: string
  lc_priority :: int
  lc_status :: string
  lc_from :: "int option"
  lc_until :: "int option"
  lc_created_by :: string
  lc_retired_by :: "string option"
  lc_retired :: "int option"
  lc_source :: string

record letter =
  lt_id :: string
  lt_owner :: string
  lt_world :: string
  lt_catalog :: string
  lt_key :: string
  lt_template :: string
  lt_version :: string
  lt_body :: string
  lt_status :: string
  lt_idem :: string
  lt_fingerprint :: string
  lt_snapshot :: dict
  lt_policy :: string
  lt_delivered :: int
  lt_read :: "int option"
  lt_deferred :: "int option"
  lt_handled :: "int option"
  lt_expires :: int
  lt_resident :: "string option"
  lt_reason :: "string option"
  lt_source :: string
  lt_wish :: "string option"

record wish =
  ws_id :: string
  ws_world :: string
  ws_letter :: "string option"
  ws_closed :: "int option"
  ws_reason :: "string option"
  ws_text :: "string option"

record mail_db =
  ml_world :: world_db
  ml_catalog :: "catalog_entry list"
  ml_letters :: "letter list"
  ml_wishes :: "wish list"

definition LETTER_OPEN_STATUSES :: "string list" where
  "LETTER_OPEN_STATUSES = [''unread'', ''read'', ''deferred'']"
definition LETTER_TERMINAL_STATUSES :: "string list" where
  "LETTER_TERMINAL_STATUSES = [''accepted'', ''declined'', ''expired'']"

definition letter_is_open :: "string \<Rightarrow> bool" where
  "letter_is_open status = (status \<in> set LETTER_OPEN_STATUSES)"

definition letter_transition_allowed :: "string \<Rightarrow> string \<Rightarrow> bool" where
  "letter_transition_allowed current target =
     (if current \<notin> set LETTER_OPEN_STATUSES then current = target
      else if target = ''read'' then current \<in> set [''unread'', ''read'']
      else target \<in> set [''deferred'', ''declined'', ''expired'', ''accepted''])"

abbreviation open_letter :: "letter \<Rightarrow> bool" where
  "open_letter l \<equiv> letter_is_open (lt_status l)"

section \<open>The catalog\<close>

definition entry_conflict :: "catalog_entry \<Rightarrow> catalog_entry \<Rightarrow> bool" where
  "entry_conflict c x = (lc_id c = lc_id x \<or> (lc_key c = lc_key x \<and> lc_version c = lc_version x) \<or>
     (lc_status c = ''active'' \<and> lc_status x = ''active'' \<and> lc_key c = lc_key x) \<or> lc_template c = lc_template x)"

definition create_character_letter_catalog_entry ::
  "string \<Rightarrow> string \<Rightarrow> string \<Rightarrow> string \<Rightarrow> string \<Rightarrow> string \<Rightarrow> int \<Rightarrow> string \<Rightarrow> int option \<Rightarrow> int option \<Rightarrow> mail_db \<Rightarrow>
     ((catalog_entry \<times> bool) \<times> mail_db) res" where
  "create_character_letter_catalog_entry entry_id character_key template_id version body policy priority created_by from until s =
     and_then (clean_required character_key ''character_key'') (\<lambda>k.
     and_then (clean_required template_id ''character_template_id'') (\<lambda>t.
     and_then (clean_required version ''template_version'') (\<lambda>v.
     and_then (clean_required body ''letter_body'') (\<lambda>b.
     and_then (clean_required policy ''policy_version'') (\<lambda>p.
     and_then (clean_required created_by ''created_by'') (\<lambda>actor.
       case find_row (\<lambda>x. ct_id x = t \<and> ct_app x = MINGCHAN_APP_ID) (templates (ml_world s)) of
         None \<Rightarrow> Inl (ValueError ''letter catalog template not found'')
       | Some x \<Rightarrow>
         if ct_status x \<noteq> ''active'' \<or> ct_source_type x \<notin> set [''official'', ''operations'']
         then Inl (ValueError ''letter catalog template unavailable'')
         else if ct_version x \<noteq> v then Inl (ValueError ''letter catalog template version mismatch'')
         else (case find_row (\<lambda>c. lc_key c = k \<and> lc_version c = v) (ml_catalog s) of
           Some c \<Rightarrow>
             if lc_template c \<noteq> t \<or> lc_body c \<noteq> b \<or> lc_policy c \<noteq> p \<or> lc_priority c \<noteq> priority \<or>
                lc_from c \<noteq> from \<or> lc_until c \<noteq> until
             then Inl (ValueError ''letter catalog version conflict'') else Inr ((c, False), s)
         | None \<Rightarrow>
             let c = \<lparr>lc_id = py_strip entry_id, lc_key = k, lc_template = t, lc_version = v, lc_body = b, lc_policy = p,
               lc_priority = priority, lc_status = ''active'', lc_from = from, lc_until = until,
               lc_created_by = actor, lc_retired_by = None, lc_retired = None, lc_source = ''organic''\<rparr>
             in if list_ex (entry_conflict c) (ml_catalog s) then Inl (IntegrityError ''character_letter_catalog'')
             else Inr ((c, True), s\<lparr>ml_catalog := ml_catalog s @ [c]\<rparr>))))))))"

definition retire_character_letter_catalog_entry ::
  "string \<Rightarrow> string \<Rightarrow> int \<Rightarrow> mail_db \<Rightarrow> (catalog_entry option \<times> mail_db) res" where
  "retire_character_letter_catalog_entry catalog_id retired_by now s =
     (case find_row (\<lambda>c. lc_id c = catalog_id) (ml_catalog s) of
        None \<Rightarrow> Inr (None, s)
      | Some c \<Rightarrow>
          and_then (if lc_status c = ''active''
             then and_then (clean_required retired_by ''retired_by'') (\<lambda>actor.
               Inr (s\<lparr>ml_catalog := update_where (\<lambda>x. lc_id x = catalog_id \<and> lc_status x = ''active'')
                 (\<lambda>x. x\<lparr>lc_status := ''retired'', lc_retired_by := Some actor, lc_retired := Some now\<rparr>) (ml_catalog s)\<rparr>))
             else Inr s)
          (\<lambda>s1. Inr (find_row (\<lambda>x. lc_id x = catalog_id) (ml_catalog s1), s1)))"

definition list_character_letter_catalog :: "string list \<Rightarrow> int \<Rightarrow> mail_db \<Rightarrow> catalog_entry list res" where
  "list_character_letter_catalog statuses limit s =
     (let cleaned = filter (\<lambda>x. x \<noteq> []) (map py_strip statuses)
      in if cleaned = [] then Inr []
         else if list_ex (\<lambda>x. x \<notin> set [''active'', ''retired'']) cleaned then Inl (ValueError ''invalid letter catalog status'')
         else Inr (sql_limit (max 1 (min limit 500)) (sort_key (\<lambda>c. (- lc_priority c, lc_id c))
           (filter (\<lambda>c. lc_status c \<in> set cleaned \<and>
              list_ex (\<lambda>t. ct_id t = lc_template c \<and> ct_app t = MINGCHAN_APP_ID) (templates (ml_world s))) (ml_catalog s)))))"

section \<open>Delivery\<close>

definition confirmed_home :: "universe \<Rightarrow> bool" where
  "confirmed_home u = (uv_app u = MINGCHAN_APP_ID \<and> uv_status u = ''active'' \<and> uv_onboarding u = ''confirmed'')"

definition list_mailbox_delivery_worlds :: "string option \<Rightarrow> int \<Rightarrow> mail_db \<Rightarrow> universe list" where
  "list_mailbox_delivery_worlds after limit s =
     sql_limit (max 1 (min limit 500)) (sort_key uv_id
       (filter (\<lambda>u. confirmed_home u \<and> (case or_none after of None \<Rightarrow> True | Some i \<Rightarrow> i < uv_id u))
         (universes (ml_world s))))"

text \<open>The row of a wish whose letter is in \<open>ids\<close> closes, once.\<close>

definition close_wishes :: "(wish \<Rightarrow> bool) \<Rightarrow> (string option \<Rightarrow> string) \<Rightarrow> int \<Rightarrow> mail_db \<Rightarrow> mail_db" where
  "close_wishes q reason now s = s\<lparr>ml_wishes := update_where (\<lambda>w. ws_closed w = None \<and> q w)
     (\<lambda>w. w\<lparr>ws_closed := Some now, ws_reason := Some (reason (ws_reason w)), ws_text := None\<rparr>) (ml_wishes s)\<rparr>"

definition scoped :: "string option \<Rightarrow> string option \<Rightarrow> letter \<Rightarrow> bool" where
  "scoped owner world_id l = ((case owner of None \<Rightarrow> True | Some u \<Rightarrow> lt_owner l = u) \<and>
     (case world_id of None \<Rightarrow> True | Some w \<Rightarrow> lt_world l = w))"

definition opt_required :: "string option \<Rightarrow> string \<Rightarrow> string option res" where
  "opt_required v field = (case v of None \<Rightarrow> Inr None | Some x \<Rightarrow> and_then (clean_required x field) (\<lambda>c. Inr (Some c)))"

definition expire_due_character_letters ::
  "int \<Rightarrow> string option \<Rightarrow> string option \<Rightarrow> int option \<Rightarrow> mail_db \<Rightarrow> (nat \<times> mail_db) res" where
  "expire_due_character_letters now owner world_id limit s =
     and_then (opt_required owner ''owner_platform_user_id'') (\<lambda>o'.
     and_then (opt_required world_id ''universe_id'') (\<lambda>w.
       let due = sort_key (\<lambda>l. (lt_expires l, lt_id l))
             (filter (\<lambda>l. open_letter l \<and> lt_expires l \<le> now \<and> scoped o' w l) (ml_letters s));
           picked = map lt_id (case limit of None \<Rightarrow> due | Some n \<Rightarrow> sql_limit (max 1 (min n 2000)) due);
           q = (\<lambda>l. lt_id l \<in> set picked \<and> open_letter l \<and> lt_expires l \<le> now);
           s1 = s\<lparr>ml_letters := update_where q (\<lambda>l. l\<lparr>lt_status := ''expired'', lt_handled := Some now,
                lt_reason := Some ''ttl_expired''\<rparr>) (ml_letters s)\<rparr>;
           gone = map lt_id (filter (\<lambda>l. lt_source l = ''wish'' \<and> lt_status l = ''expired'' \<and> scoped owner world_id l)
                (ml_letters s1))
       in Inr (count_where q (ml_letters s),
            close_wishes (\<lambda>x. list_ex (\<lambda>i. ws_letter x = Some i) gone)
              (\<lambda>r. case r of None \<Rightarrow> ''letter_expired'' | Some x \<Rightarrow> x) now s1)))"

text \<open>What the delivery of a world finds: the status, the expired letters, and if eligible the entry.\<close>

record preparation =
  mp_status :: string
  mp_expired :: nat
  mp_owner :: "string option"
  mp_active :: nat
  mp_last :: "int option"
  mp_catalog :: "catalog_entry option"

definition known_character :: "string \<Rightarrow> catalog_entry \<Rightarrow> mail_db \<Rightarrow> bool" where
  "known_character world_id c s = list_ex (\<lambda>r. rs_universe r = world_id \<and> rs_origin r \<noteq> ''legacy'' \<and>
     (rs_template r = lc_template c \<or>
      list_ex (\<lambda>x. lc_template x = rs_template r \<and> lc_key x = lc_key c) (ml_catalog s))) (residents (ml_world s))"

definition offered :: "string \<Rightarrow> int \<Rightarrow> mail_db \<Rightarrow> catalog_entry \<Rightarrow> bool" where
  "offered world_id now s c = (lc_status c = ''active'' \<and> lc_source c = ''organic'' \<and>
     (case lc_from c of None \<Rightarrow> True | Some t \<Rightarrow> t \<le> now) \<and> (case lc_until c of None \<Rightarrow> True | Some t \<Rightarrow> now < t) \<and>
     list_ex (\<lambda>t. ct_id t = lc_template c \<and> ct_status t = ''active'' \<and> ct_source_type t \<in> set [''official'', ''operations''] \<and>
       ct_version t = lc_version c) (templates (ml_world s)) \<and>
     \<not> list_ex (\<lambda>l. lt_world l = world_id \<and> lt_key l = lc_key c) (ml_letters s) \<and> \<not> known_character world_id c s)"

definition organic_of :: "string \<Rightarrow> letter \<Rightarrow> bool" where
  "organic_of world_id l = (lt_world l = world_id \<and> lt_source l = ''organic'')"

definition prepare_character_letter_delivery ::
  "string \<Rightarrow> int \<Rightarrow> int \<Rightarrow> int \<Rightarrow> mail_db \<Rightarrow> (preparation \<times> mail_db) res" where
  "prepare_character_letter_delivery world_id now cooldown_since active_limit s =
     and_then (clean_required world_id ''universe_id'') (\<lambda>wid.
       case find_row (\<lambda>u. uv_id u = wid \<and> uv_app u = MINGCHAN_APP_ID) (universes (ml_world s)) of
         None \<Rightarrow> Inr (\<lparr>mp_status = ''world_ineligible'', mp_expired = 0, mp_owner = None, mp_active = 0, mp_last = None,
           mp_catalog = None\<rparr>, s)
       | Some w \<Rightarrow>
         if uv_status w \<noteq> ''active'' \<or> uv_onboarding w \<noteq> ''confirmed''
         then Inr (\<lparr>mp_status = ''world_ineligible'', mp_expired = 0, mp_owner = None, mp_active = 0, mp_last = None,
           mp_catalog = None\<rparr>, s)
         else and_then (expire_due_character_letters now None (Some world_id) None s) (\<lambda>(n, s1).
           let active = active_residents world_id (ml_world s1);
               base = \<lparr>mp_status = ''eligible'', mp_expired = n, mp_owner = Some (uv_owner w), mp_active = active,
                 mp_last = None, mp_catalog = None\<rparr>;
               last = find_row (\<lambda>_. True) (order_desc (\<lambda>l. (lt_delivered l, lt_id l))
                 (filter (organic_of world_id) (ml_letters s1)));
               best = first_by (\<lambda>c. (- lc_priority c, lc_id c)) (filter (offered world_id now s1) (ml_catalog s1))
           in Inr (if active_limit \<le> int active then base\<lparr>mp_status := ''blocked_capacity''\<rparr>
             else if list_ex (\<lambda>l. organic_of world_id l \<and> open_letter l) (ml_letters s1) then base\<lparr>mp_status := ''blocked_open''\<rparr>
             else if known (\<lambda>l. cooldown_since < lt_delivered l) last
             then base\<lparr>mp_status := ''blocked_cooldown'', mp_last := map_option lt_delivered last\<rparr>
             else if best = None then base\<lparr>mp_status := ''catalog_empty''\<rparr>
             else base\<lparr>mp_catalog := best\<rparr>, s1)))"

text \<open>
  The keys of \<^verbatim>\<open>character_letters\<close>, with \<^verbatim>\<open>ux_character_letters_open_world\<close> as migration 0058 left it.
\<close>

definition letter_conflict :: "letter \<Rightarrow> letter \<Rightarrow> bool" where
  "letter_conflict l x = (lt_id l = lt_id x \<or> lt_idem l = lt_idem x \<or> (lt_world l = lt_world x \<and> lt_key l = lt_key x) \<or>
     (lt_world l = lt_world x \<and> open_letter l \<and> open_letter x \<and> lt_source l = ''organic'' \<and> lt_source x = ''organic'') \<or>
     (lt_wish l \<noteq> None \<and> lt_wish l = lt_wish x))"

definition lock_world_for_owner :: "string \<Rightarrow> string \<Rightarrow> mail_db \<Rightarrow> unit res" where
  "lock_world_for_owner world_id owner s =
     (if list_ex (\<lambda>u. uv_id u = world_id \<and> uv_owner u = owner \<and> confirmed_home u) (universes (ml_world s)) then Inr ()
      else Inl (ValueError ''mailbox universe ownership mismatch''))"

definition insert_character_letter ::
  "string \<Rightarrow> string \<Rightarrow> string \<Rightarrow> string \<Rightarrow> string \<Rightarrow> string \<Rightarrow> dict \<Rightarrow> string \<Rightarrow> int \<Rightarrow> int \<Rightarrow> string \<Rightarrow> string option \<Rightarrow> mail_db \<Rightarrow>
     ((letter \<times> bool) \<times> mail_db) res" where
  "insert_character_letter letter_id owner world_id catalog_id idem fingerprint snapshot policy delivered expires source wish s =
     and_then (clean_required owner ''owner_platform_user_id'') (\<lambda>o'.
     and_then (clean_required world_id ''universe_id'') (\<lambda>w.
     and_then (clean_required catalog_id ''catalog_id'') (\<lambda>cid.
     and_then (clean_required idem ''idempotency_key'') (\<lambda>key.
     and_then (clean_required fingerprint ''request_fingerprint'') (\<lambda>fp.
       let src = py_strip (if source = [] then ''organic'' else source) in
       if src \<notin> set [''organic'', ''wish''] then Inl (ValueError ''invalid letter source'')
       else if (src = ''wish'') \<noteq> (or_none wish \<noteq> None) then Inl (ValueError ''wish letter source/id mismatch'')
       else if expires \<le> delivered then Inl (ValueError ''letter expires_at must be after delivered_at'')
       else and_then (lock_world_for_owner w o' s) (\<lambda>_.
         case find_row (\<lambda>l. lt_idem l = key) (ml_letters s) of
           Some l \<Rightarrow>
             if lt_owner l \<noteq> o' \<or> lt_world l \<noteq> w \<or> lt_catalog l \<noteq> cid \<or> lt_fingerprint l \<noteq> fp \<or> lt_source l \<noteq> src \<or>
                lt_wish l \<noteq> wish
             then Inl (ValueError ''letter idempotency conflict'') else Inr ((l, False), s)
         | None \<Rightarrow> (case find_row (\<lambda>c. lc_id c = cid \<and> lc_status c = ''active'') (ml_catalog s) of
             None \<Rightarrow> Inl (ValueError ''letter catalog unavailable'')
           | Some c \<Rightarrow>
             if lc_source c \<noteq> src then Inl (ValueError ''letter/catalog source mismatch'')
             else if known (\<lambda>t. delivered < t) (lc_from c) then Inl (ValueError ''letter catalog not started'')
             else if known (\<lambda>t. t \<le> delivered) (lc_until c) then Inl (ValueError ''letter catalog expired'')
             else and_then (clean_required policy ''policy_version'') (\<lambda>p.
               let l = \<lparr>lt_id = letter_id, lt_owner = o', lt_world = w, lt_catalog = cid, lt_key = lc_key c,
                 lt_template = lc_template c, lt_version = lc_version c, lt_body = lc_body c, lt_status = ''unread'',
                 lt_idem = key, lt_fingerprint = fp, lt_snapshot = snapshot, lt_policy = p, lt_delivered = delivered,
                 lt_read = None, lt_deferred = None, lt_handled = None, lt_expires = expires, lt_resident = None,
                 lt_reason = None, lt_source = src, lt_wish = wish\<rparr>
               in if list_ex (letter_conflict l) (ml_letters s) then Inl (IntegrityError ''character_letters'')
               else Inr ((l, True), s\<lparr>ml_letters := ml_letters s @ [l]\<rparr>)))))))))"

section \<open>Reading\<close>

text \<open>A letter with the public columns of its template.\<close>

record letter_view =
  lw_row :: letter
  lw_name :: string
  lw_avatar :: "string option"
  lw_summary :: "string option"
  lw_tags :: "string list"

definition letter_with :: "letter \<Rightarrow> character_template \<Rightarrow> letter_view" where
  "letter_with l t = \<lparr>lw_row = l, lw_name = ct_name t, lw_avatar = ct_avatar t, lw_summary = ct_summary t,
     lw_tags = filter (\<lambda>x. py_strip x \<noteq> []) (ct_tags t)\<rparr>"

definition letter_view_of :: "letter \<Rightarrow> mail_db \<Rightarrow> letter_view option" where
  "letter_view_of l s = map_option (letter_with l)
     (find_row (\<lambda>t. ct_id t = lt_template l) (templates (ml_world s)))"

definition find_letter :: "string \<Rightarrow> string \<Rightarrow> mail_db \<Rightarrow> letter option" where
  "find_letter letter_id owner s = find_row (\<lambda>l. lt_id l = letter_id \<and> lt_owner l = owner) (ml_letters s)"

definition get_character_letter_for_owner :: "string \<Rightarrow> string \<Rightarrow> mail_db \<Rightarrow> letter_view option" where
  "get_character_letter_for_owner letter_id owner s =
     (case find_letter letter_id owner s of None \<Rightarrow> None | Some l \<Rightarrow> letter_view_of l s)"

definition before_cursor :: "(int \<times> string) option \<Rightarrow> letter \<Rightarrow> bool" where
  "before_cursor cursor l = (case cursor of None \<Rightarrow> True | Some c \<Rightarrow> (lt_delivered l, lt_id l) < c)"

definition list_character_letters_for_owner ::
  "string \<Rightarrow> string list option \<Rightarrow> int option \<Rightarrow> string option \<Rightarrow> int \<Rightarrow> mail_db \<Rightarrow> letter_view list res" where
  "list_character_letters_for_owner owner statuses cursor_at cursor_id limit s =
     (let cid = or_none cursor_id; cleaned = map_option (\<lambda>xs. filter (\<lambda>x. x \<noteq> []) (map py_strip xs)) statuses
      in if (cursor_at \<noteq> None) \<noteq> (cid \<noteq> None) then Inl (ValueError ''invalid_cursor'')
      else if known (\<lambda>xs. xs = [] \<or> list_ex (\<lambda>x. x \<notin> set (LETTER_OPEN_STATUSES @ LETTER_TERMINAL_STATUSES)) xs) cleaned
      then Inl (ValueError ''invalid letter status'')
      else let cursor = (case (cursor_at, cid) of (Some a, Some i) \<Rightarrow> Some (a, i) | _ \<Rightarrow> None);
               rows = filter (\<lambda>l. lt_owner l = owner \<and> (case cleaned of None \<Rightarrow> True | Some xs \<Rightarrow> lt_status l \<in> set xs) \<and>
                 before_cursor cursor l \<and> letter_view_of l s \<noteq> None) (ml_letters s)
      in Inr (map (\<lambda>l. the (letter_view_of l s))
           (sql_limit (max 1 (min limit 101)) (order_desc (\<lambda>l. (lt_delivered l, lt_id l)) rows))))"

definition count_unread_character_letters :: "string \<Rightarrow> int \<Rightarrow> mail_db \<Rightarrow> nat" where
  "count_unread_character_letters owner now s =
     count_where (\<lambda>l. lt_owner l = owner \<and> lt_status l = ''unread'' \<and> now < lt_expires l) (ml_letters s)"

section \<open>Reading, deferring, declining\<close>

definition transition_open_character_letter ::
  "string \<Rightarrow> string \<Rightarrow> string \<Rightarrow> int \<Rightarrow> string option \<Rightarrow> mail_db \<Rightarrow> (letter option \<times> mail_db) res" where
  "transition_open_character_letter letter_id owner new_status now reason s =
     and_then (clean_required new_status ''new_status'') (\<lambda>target.
       if target = ''accepted'' then Inl (ValueError ''accepted requires atomic resident transaction'')
       else if target \<notin> set [''read'', ''deferred'', ''declined'', ''expired''] then Inl (ValueError ''invalid letter transition target'')
       else if target \<in> set [''declined'', ''expired''] \<and> (case reason of None \<Rightarrow> True | Some r \<Rightarrow> py_strip r = [])
       then Inl (ValueError ''terminal_reason is required'')
       else (case find_letter letter_id owner s of
         None \<Rightarrow> Inr (None, s)
       | Some l \<Rightarrow>
         if lt_status l = target then Inr (Some l, s)
         else if \<not> open_letter l then Inr (None, s)
         else if target = ''read'' \<and> lt_status l \<noteq> ''unread'' then Inr (Some l, s)
         else let q = (\<lambda>x. lt_id x = letter_id \<and> lt_owner x = owner \<and> open_letter x);
                s1 = s\<lparr>ml_letters := update_where q (\<lambda>x. x\<lparr>lt_status := target,
                   lt_read := (if target = ''read'' then Some now else lt_read l),
                   lt_deferred := (if target = ''deferred'' then Some now else lt_deferred l),
                   lt_handled := (if target \<in> set [''declined'', ''expired''] then Some now else None),
                   lt_reason := map_option py_strip (or_none reason)\<rparr>) (ml_letters s)\<rparr>
         in if count_where q (ml_letters s) \<noteq> 1 then Inr (None, s1)
            else let s2 = (if target \<in> set [''declined'', ''expired'']
                  then close_wishes (\<lambda>w. ws_letter w = Some letter_id)
                    (\<lambda>_. if target = ''declined'' then ''letter_declined'' else ''letter_expired'') now s1 else s1)
            in Inr (find_letter letter_id owner s2, s2)))"

section \<open>Accepting\<close>

text \<open>The locked letter with its catalog entry and its template.\<close>

record accept_scope =
  ap_letter :: letter
  ap_entry :: catalog_entry
  ap_template :: character_template

definition lock_character_letter_accept_scope :: "string \<Rightarrow> string \<Rightarrow> mail_db \<Rightarrow> accept_scope option" where
  "lock_character_letter_accept_scope letter_id owner s =
     (case find_row (\<lambda>u. uv_owner u = owner \<and> confirmed_home u) (universes (ml_world s)) of
        None \<Rightarrow> None
      | Some w \<Rightarrow> (case find_row (\<lambda>l. lt_id l = letter_id \<and> lt_owner l = owner \<and> lt_world l = uv_id w) (ml_letters s) of
          None \<Rightarrow> None
        | Some l \<Rightarrow> (case (find_row (\<lambda>c. lc_id c = lt_catalog l) (ml_catalog s),
                         find_row (\<lambda>t. ct_id t = lt_template l) (templates (ml_world s))) of
            (Some c, Some t) \<Rightarrow> Some \<lparr>ap_letter = l, ap_entry = c, ap_template = t\<rparr>
          | _ \<Rightarrow> None)))"

definition has_nonlegacy_resident_for_template :: "string \<Rightarrow> string \<Rightarrow> world_db \<Rightarrow> bool" where
  "has_nonlegacy_resident_for_template world_id template_id db = list_ex (candidate_of world_id template_id) (residents db)"

definition mark_locked_character_letter_expired :: "string \<Rightarrow> string \<Rightarrow> int \<Rightarrow> mail_db \<Rightarrow> bool \<times> mail_db" where
  "mark_locked_character_letter_expired letter_id owner now s =
     (let q = (\<lambda>l. lt_id l = letter_id \<and> lt_owner l = owner \<and> open_letter l \<and> lt_expires l \<le> now);
          s1 = s\<lparr>ml_letters := update_where q (\<lambda>l. l\<lparr>lt_status := ''expired'', lt_handled := Some now,
             lt_reason := Some ''ttl_expired''\<rparr>) (ml_letters s)\<rparr>
      in if count_where q (ml_letters s) = 1
         then (True, close_wishes (\<lambda>w. ws_letter w = Some letter_id) (\<lambda>_. ''letter_expired'') now s1) else (False, s1))"

definition mark_locked_character_letter_accepted ::
  "string \<Rightarrow> string \<Rightarrow> string \<Rightarrow> int \<Rightarrow> mail_db \<Rightarrow> bool \<times> mail_db" where
  "mark_locked_character_letter_accepted letter_id owner resident_id now s =
     (let q = (\<lambda>l. lt_id l = letter_id \<and> lt_owner l = owner \<and> open_letter l \<and> now < lt_expires l);
          s1 = s\<lparr>ml_letters := update_where q (\<lambda>l. l\<lparr>lt_status := ''accepted'', lt_resident := Some resident_id,
             lt_handled := Some now, lt_reason := None\<rparr>) (ml_letters s)\<rparr>
      in if count_where q (ml_letters s) = 1
         then (True, close_wishes (\<lambda>w. ws_letter w = Some letter_id) (\<lambda>_. ''letter_accepted'') now s1) else (False, s1))"

record accepted_resident =
  ar_resident :: string
  ar_origin :: string
  ar_status :: string
  ar_name :: string
  ar_avatar :: "string option"
  ar_conversation :: string
  ar_state :: string

definition get_accepted_character_letter_resident :: "string \<Rightarrow> string \<Rightarrow> mail_db \<Rightarrow> accepted_resident option" where
  "get_accepted_character_letter_resident letter_id owner s =
     (case find_row (\<lambda>l. lt_id l = letter_id \<and> lt_owner l = owner \<and> lt_status l = ''accepted'') (ml_letters s) of
        None \<Rightarrow> None
      | Some l \<Rightarrow> (case find_row (\<lambda>r. Some (rs_id r) = lt_resident l) (residents (ml_world s)) of
          None \<Rightarrow> None
        | Some r \<Rightarrow> (case (find_row (\<lambda>t. ct_id t = rs_template r) (templates (ml_world s)),
                         find_row (\<lambda>c. ac_resident c = rs_id r) (ai_conversations (ml_world s))) of
            (Some t, Some c) \<Rightarrow> Some \<lparr>ar_resident = rs_id r, ar_origin = rs_origin r, ar_status = rs_status r,
               ar_name = (case find_row (\<lambda>p. Some (pf_account p) = rs_runtime r) (profiles (ml_world s)) of
                 None \<Rightarrow> ct_name t | Some p \<Rightarrow> pf_name p),
               ar_avatar = ct_avatar t, ar_conversation = ac_id c, ar_state = ac_state c\<rparr>
          | _ \<Rightarrow> None)))"

text \<open>\<open>create_resident\<close> of \<^verbatim>\<open>companion_world.py\<close> with the unique indexes of the table.\<close>

definition insert_resident ::
  "string \<Rightarrow> string \<Rightarrow> string \<Rightarrow> string \<Rightarrow> string \<Rightarrow> string \<Rightarrow> string option \<Rightarrow> int option \<Rightarrow> int \<Rightarrow> world_db \<Rightarrow>
     (resident \<times> world_db) res" where
  "insert_resident resident_id world_id template_id version origin status runtime joined now db =
     (let r = \<lparr>rs_id = resident_id, rs_universe = world_id, rs_template = template_id, rs_version = version,
        rs_runtime = runtime, rs_origin = origin, rs_status = status, rs_joined = joined, rs_offline = None,
        rs_departure = None, rs_name = None, rs_naming = None, rs_created = now, rs_updated = now\<rparr>
      in if resident_id \<in> rs_id ` set (residents db) then Inl (IntegrityError ''universe_residents_pkey'')
         else if runtime \<noteq> None \<and> list_ex (\<lambda>x. rs_runtime x = runtime) (residents db)
         then Inl (IntegrityError ''ux_universe_residents_runtime'')
         else if not_legacy r \<and> list_ex (candidate_of world_id template_id) (residents db)
         then Inl (IntegrityError ''ux_universe_residents_template_nonlegacy'')
         else Inr (r, db\<lparr>residents := residents db @ [r]\<rparr>))"

end
