(* ===== verification/World_Mailbox_Service.thy ===== *)
theory World_Mailbox_Service
imports World_Mailbox
begin

text \<open>
  \<^verbatim>\<open>CompanionWorldMailboxService\<close> and the catalog functions of \<^verbatim>\<open>application/mailbox.py\<close>: the batch of
  expiry and delivery, the owner's view, and the acceptance of a letter, which brings its character to
  life. Clocks are the text times of the database (seconds), the ids of one transaction an argument.
\<close>

section \<open>The policy\<close>

record mailbox_policy =
  mb_version :: string
  mb_cooldown_days :: int
  mb_ttl_days :: int
  mb_active_limit :: int

definition MAILBOX_POLICY_FAMILY :: string where "MAILBOX_POLICY_FAMILY = ''companion_world_mailbox_v1''"

definition build_mailbox_policy :: "int \<Rightarrow> int \<Rightarrow> mailbox_policy res" where
  "build_mailbox_policy cooldown ttl =
     (if \<not> (1 \<le> cooldown \<and> cooldown \<le> 365) then Inl (ValueError ''mailbox delivery cooldown must be between 1 and 365 days'')
      else if \<not> (1 \<le> ttl \<and> ttl \<le> 365) then Inl (ValueError ''mailbox letter ttl must be between 1 and 365 days'')
      else Inr \<lparr>mb_version = MAILBOX_POLICY_FAMILY @ '':c'' @ int_str cooldown @ '':t'' @ int_str ttl @ '':a8'',
        mb_cooldown_days = cooldown, mb_ttl_days = ttl, mb_active_limit = 8\<rparr>)"

section \<open>Delivery\<close>

definition letter_delivery_fingerprint ::
  "(string \<Rightarrow> string) \<Rightarrow> string \<Rightarrow> catalog_entry \<Rightarrow> int \<Rightarrow> int \<Rightarrow> string \<Rightarrow> dict \<Rightarrow> string" where
  "letter_delivery_fingerprint sha world_id c delivered expires policy snapshot = sha (json_dumps (JDict
     [(''universe_id'', JStr world_id), (''catalog_id'', JStr (lc_id c)), (''character_key'', JStr (lc_key c)),
      (''template_version'', JStr (lc_version c)), (''delivered_at'', JInt delivered), (''expires_at'', JInt expires),
      (''policy_version'', JStr policy), (''eligibility_snapshot'', JDict snapshot)]))"

definition delivery_key :: "string \<Rightarrow> string \<Rightarrow> string" where
  "delivery_key world_id character_key = ''mailbox-delivery:v1:'' @ world_id @ '':'' @ character_key"

record delivery =
  dl_world :: string
  dl_status :: string
  dl_letter :: "string option"
  dl_expired :: nat

definition deliver_world ::
  "mailbox_policy \<Rightarrow> (string \<Rightarrow> string) \<Rightarrow> string \<Rightarrow> string \<Rightarrow> int \<Rightarrow> mail_db \<Rightarrow> (delivery \<times> mail_db) res" where
  "deliver_world pol sha letter_id world_id now s =
     and_then (prepare_character_letter_delivery world_id (db_time now)
        (db_time (now - days (mb_cooldown_days pol))) (mb_active_limit pol) s) (\<lambda>(p, s1).
       case mp_catalog p of
         None \<Rightarrow> Inr (\<lparr>dl_world = world_id, dl_status = mp_status p, dl_letter = None, dl_expired = mp_expired p\<rparr>, s1)
       | Some c \<Rightarrow>
         let expires = db_time (now + days (mb_ttl_days pol));
             snapshot = [(''active_count'', JInt (int (mp_active p))), (''active_limit'', JInt (mb_active_limit pol)),
               (''catalog_version'', JStr (lc_version c)), (''policy_version'', JStr (mb_version pol))];
             fp = letter_delivery_fingerprint sha world_id c (db_time now) expires (mb_version pol) snapshot
         in and_then (insert_character_letter letter_id (the (mp_owner p)) world_id (lc_id c)
              (delivery_key world_id (lc_key c)) fp snapshot (mb_version pol) (db_time now) expires ''organic'' None s1)
            (\<lambda>((l, created), s2). Inr (\<lparr>dl_world = world_id, dl_status = ''delivered'', dl_letter = Some (lt_id l),
               dl_expired = mp_expired p\<rparr>, s2)))"

text \<open>One transaction per world; an error ends the batch, the earlier worlds stay delivered.\<close>

fun deliver_each ::
  "mailbox_policy \<Rightarrow> (string \<Rightarrow> string) \<Rightarrow> (string \<Rightarrow> string) \<Rightarrow> int \<Rightarrow> universe list \<Rightarrow> mail_db \<Rightarrow> delivery list res \<times> mail_db" where
  "deliver_each pol sha ids now [] s = (Inr [], s)"
| "deliver_each pol sha ids now (w # ws) s =
     (case deliver_world pol sha (ids (uv_id w)) (uv_id w) now s of
        Inl e \<Rightarrow> (Inl e, s)
      | Inr (d, s1) \<Rightarrow> (case deliver_each pol sha ids now ws s1 of
          (Inl e, s2) \<Rightarrow> (Inl e, s2) | (Inr ds, s2) \<Rightarrow> (Inr (d # ds), s2)))"

record mailbox_batch =
  bt_scanned :: nat
  bt_counts :: "(string \<times> nat) list"
  bt_expired :: nat
  bt_results :: "delivery list"
  bt_next :: "string option"

definition DELIVERY_STATUSES :: "string list" where
  "DELIVERY_STATUSES = [''delivered'', ''blocked_open'', ''blocked_cooldown'', ''blocked_capacity'', ''catalog_empty'', ''world_ineligible'']"

definition maintain_batch ::
  "mailbox_policy \<Rightarrow> (string \<Rightarrow> string) \<Rightarrow> (string \<Rightarrow> string) \<Rightarrow> int \<Rightarrow> string option \<Rightarrow> int \<Rightarrow> mail_db \<Rightarrow> mailbox_batch res \<times> mail_db" where
  "maintain_batch pol sha ids now after batch s =
     (let clean = max 1 (min batch 500) in
      case expire_due_character_letters (db_time now) None None (Some clean) s of
        Inl e \<Rightarrow> (Inl e, s)
      | Inr (n, s1) \<Rightarrow>
        let worlds = list_mailbox_delivery_worlds after clean s1 in
        (case deliver_each pol sha ids now worlds s1 of
           (Inl e, s2) \<Rightarrow> (Inl e, s2)
         | (Inr ds, s2) \<Rightarrow> (Inr \<lparr>bt_scanned = length worlds,
             bt_counts = map (\<lambda>x. (x, count_where (\<lambda>d. dl_status d = x) ds)) DELIVERY_STATUSES,
             bt_expired = n + sum_list (map dl_expired ds), bt_results = ds,
             bt_next = (if clean \<le> int (length worlds) then Some (uv_id (last worlds)) else None)\<rparr>, s2)))"

section \<open>The owner's view\<close>

text \<open>Each request first expires the owner's letters, in a transaction of its own.\<close>

definition expire_owner :: "string \<Rightarrow> int \<Rightarrow> mail_db \<Rightarrow> unit res \<times> mail_db" where
  "expire_owner user now s = (case expire_due_character_letters now (Some user) None None s of
     Inl e \<Rightarrow> (Inl e, s) | Inr (n, s1) \<Rightarrow> (Inr (), s1))"

definition list_letters ::
  "string \<Rightarrow> int \<Rightarrow> string list option \<Rightarrow> int option \<Rightarrow> string option \<Rightarrow> int \<Rightarrow> mail_db \<Rightarrow> letter_view list res \<times> mail_db" where
  "list_letters user now statuses cursor_at cursor_id limit s =
     (case expire_owner user now s of
        (Inl e, s1) \<Rightarrow> (Inl e, s1)
      | (Inr _, s1) \<Rightarrow> (case list_character_letters_for_owner user statuses cursor_at cursor_id limit s1 of
          Inl (ValueError _) \<Rightarrow> (Inl (DomainError ''invalid_request''), s1)
        | r \<Rightarrow> (r, s1)))"

definition get_letter :: "string \<Rightarrow> string \<Rightarrow> int \<Rightarrow> mail_db \<Rightarrow> letter_view res \<times> mail_db" where
  "get_letter user letter_id now s =
     (case expire_owner user now s of
        (Inl e, s1) \<Rightarrow> (Inl e, s1)
      | (Inr _, s1) \<Rightarrow> (case get_character_letter_for_owner letter_id user s1 of
          None \<Rightarrow> (Inl (DomainError ''letter_not_found''), s1) | Some v \<Rightarrow> (Inr v, s1)))"

definition count_unread :: "string \<Rightarrow> int \<Rightarrow> mail_db \<Rightarrow> nat res \<times> mail_db" where
  "count_unread user now s =
     (case expire_owner user now s of
        (Inl e, s1) \<Rightarrow> (Inl e, s1) | (Inr _, s1) \<Rightarrow> (Inr (count_unread_character_letters user now s1), s1))"

definition letter_transition :: "string \<Rightarrow> string \<Rightarrow> string \<Rightarrow> int \<Rightarrow> mail_db \<Rightarrow> letter_view res \<times> mail_db" where
  "letter_transition user letter_id target now s =
     (case expire_owner user now s of
        (Inl e, s1) \<Rightarrow> (Inl e, s1)
      | (Inr _, s1) \<Rightarrow> (case get_character_letter_for_owner letter_id user s1 of
          None \<Rightarrow> (Inl (DomainError ''letter_not_found''), s1)
        | Some v \<Rightarrow>
          if lt_status (lw_row v) = target then (Inr v, s1)
          else if \<not> open_letter (lw_row v) then (Inl (DomainError ''letter_not_open''), s1)
          else (case transition_open_character_letter letter_id user target now
                  (if target = ''declined'' then Some ''owner_declined'' else None) s1 of
            Inl e \<Rightarrow> (Inl e, s1)
          | Inr (None, s2) \<Rightarrow> (Inl (DomainError ''letter_not_open''), s2)
          | Inr (Some l, s2) \<Rightarrow> (case get_character_letter_for_owner letter_id user s2 of
              None \<Rightarrow> (Inl (RuntimeError ''mailbox letter disappeared after transition''), s2) | Some v2 \<Rightarrow> (Inr v2, s2)))))"

section \<open>Accepting a letter\<close>

record acceptance =
  ax_letter :: letter_view
  ax_resident :: accepted_resident
  ax_replayed :: bool

definition letter_available :: "string \<Rightarrow> accept_scope \<Rightarrow> bool" where
  "letter_available user sc =
     (let l = ap_letter sc; c = ap_entry sc; t = ap_template sc in
      (lc_status c = ''active'' \<and> ct_status t = ''active'' \<and> lc_key c = lt_key l \<and> lc_template c = lt_template l \<and>
       lc_version c = lt_version l \<and> ct_version t = lt_version l) \<and>
      ((lt_source l = ''organic'' \<and> lc_source c = ''organic'' \<and> ct_source_type t \<in> set [''official'', ''operations'']) \<or>
       (lt_source l = ''wish'' \<and> lc_source c = ''wish'' \<and> ct_source_type t = ''generated'' \<and> ct_owner t = Some user)))"

text \<open>The character moves in: runtime account, active resident, conversation.\<close>

definition move_in ::
  "registry \<Rightarrow> home_ids \<Rightarrow> int \<Rightarrow> string \<Rightarrow> accept_scope \<Rightarrow> world_db \<Rightarrow> ((resident \<times> ai_conversation) \<times> world_db) res" where
  "move_in reg ids now user sc db =
     (let l = ap_letter sc; t = ap_template sc in
      if has_nonlegacy_resident_for_template (lt_world l) (lt_template l) db then Inl (DomainError ''letter_template_unavailable'')
      else if MAX_ACTIVE_RESIDENTS \<le> int (active_residents (lt_world l) db) then Inl (DomainError ''resident_capacity_exceeded'')
      else (case persona_parts_or_empty (ct_seed t) of
        Inl (ValueError _) \<Rightarrow> Inl (DomainError ''letter_template_unavailable'')
      | Inl e \<Rightarrow> Inl e
      | Inr (soul, identity, prompt) \<Rightarrow>
        and_then (insert_resident_runtime_account reg ids user (ct_name t) prompt soul identity MINGCHAN_APP_ID db) (\<lambda>(acc, db1).
        and_then (insert_resident (hi_resident ids) (lt_world l) (lt_template l) (lt_version l) ''mailbox'' ''active''
           (Some (a_id acc)) (Some now) now db1) (\<lambda>(r, db2).
        and_then (create_ai_conversation ids now (lt_world l) (rs_id r) user (a_id acc) db2) (\<lambda>(c, db3).
          Inr ((r, c), db3))))))"

text \<open>\<open>None\<close> when the letter is or turned out to be expired; that expiry is committed.\<close>

definition accept_locked_letter ::
  "registry \<Rightarrow> home_ids \<Rightarrow> string \<Rightarrow> string \<Rightarrow> int \<Rightarrow> mail_db \<Rightarrow> (acceptance option \<times> mail_db) res" where
  "accept_locked_letter reg ids user letter_id now s =
     (case lock_character_letter_accept_scope letter_id user s of
        None \<Rightarrow> Inl (DomainError ''letter_not_found'')
      | Some sc \<Rightarrow>
        let l = ap_letter sc in
        if lt_status l = ''accepted''
        then (case get_accepted_character_letter_resident letter_id user s of
            None \<Rightarrow> Inl (RuntimeError ''accepted mailbox letter is missing resident'')
          | Some r \<Rightarrow> Inr (Some \<lparr>ax_letter = letter_with l (ap_template sc), ax_resident = r, ax_replayed = True\<rparr>, s))
        else if lt_status l = ''expired'' then Inr (None, s)
        else if open_letter l \<and> lt_expires l \<le> now
        then (case mark_locked_character_letter_expired letter_id user now s of
            (ok, s1) \<Rightarrow> if ok then Inr (None, s1) else Inl (RuntimeError ''locked mailbox letter expiry CAS failed''))
        else if \<not> open_letter l then Inl (DomainError ''letter_not_open'')
        else if \<not> letter_available user sc then Inl (DomainError ''letter_template_unavailable'')
        else and_then (move_in reg ids now user sc (ml_world s)) (\<lambda>((r, c), w).
          case mark_locked_character_letter_accepted letter_id user (rs_id r) now (s\<lparr>ml_world := w\<rparr>) of
            (ok, s2) \<Rightarrow>
              if \<not> ok then Inl (RuntimeError ''locked mailbox letter accept CAS failed'')
              else (case get_character_letter_for_owner letter_id user s2 of
                None \<Rightarrow> Inl (RuntimeError ''mailbox letter disappeared after accept'')
              | Some v2 \<Rightarrow> Inr (Some \<lparr>ax_letter = v2, ax_resident = \<lparr>ar_resident = rs_id r, ar_origin = ''mailbox'',
                  ar_status = ''active'', ar_name = ct_name (ap_template sc), ar_avatar = ct_avatar (ap_template sc),
                  ar_conversation = ac_id c, ar_state = ac_state c\<rparr>, ax_replayed = False\<rparr>, s2))))"

definition accept_letter ::
  "registry \<Rightarrow> home_ids \<Rightarrow> string \<Rightarrow> string \<Rightarrow> int \<Rightarrow> mail_db \<Rightarrow> acceptance res \<times> mail_db" where
  "accept_letter reg ids user letter_id now s =
     (case accept_locked_letter reg ids user letter_id now s of
        Inl e \<Rightarrow> (Inl e, s)
      | Inr (None, s1) \<Rightarrow> (Inl (DomainError ''letter_expired''), s1)
      | Inr (Some a, s1) \<Rightarrow> (Inr a, s1))"

section \<open>The catalog of the staff\<close>

definition create_mailbox_catalog_entry ::
  "string \<Rightarrow> string \<Rightarrow> string \<Rightarrow> string \<Rightarrow> string \<Rightarrow> string \<Rightarrow> int \<Rightarrow> string \<Rightarrow> int option \<Rightarrow> int option \<Rightarrow> mail_db \<Rightarrow>
     ((catalog_entry \<times> bool) \<times> mail_db) res" where
  "create_mailbox_catalog_entry entry_id character_key template_id version body policy priority created_by from until s =
     (let clean = py_strip body in
      if clean = [] \<or> 2000 < length clean then Inl (DomainError ''mailbox_catalog_invalid'')
      else if \<not> (- 1000 \<le> priority \<and> priority \<le> 1000) then Inl (DomainError ''mailbox_catalog_invalid'')
      else if (case (from, until) of (Some a, Some b) \<Rightarrow> b \<le> a | _ \<Rightarrow> False) then Inl (DomainError ''mailbox_catalog_invalid'')
      else (case create_character_letter_catalog_entry entry_id character_key template_id version clean policy priority
                created_by from until s of
          Inl (ValueError _) \<Rightarrow> Inl (DomainError ''mailbox_catalog_invalid'')
        | r \<Rightarrow> r))"

definition list_mailbox_catalog :: "string list \<Rightarrow> int \<Rightarrow> mail_db \<Rightarrow> catalog_entry list res" where
  "list_mailbox_catalog statuses limit s = (case list_character_letter_catalog statuses limit s of
     Inl (ValueError _) \<Rightarrow> Inl (DomainError ''mailbox_catalog_invalid'') | r \<Rightarrow> r)"

definition retire_mailbox_catalog_entry :: "string \<Rightarrow> string \<Rightarrow> int \<Rightarrow> mail_db \<Rightarrow> (catalog_entry \<times> mail_db) res" where
  "retire_mailbox_catalog_entry catalog_id retired_by now s =
     and_then (retire_character_letter_catalog_entry catalog_id retired_by now s) (\<lambda>(c, s1). case c of
        None \<Rightarrow> Inl (DomainError ''mailbox_catalog_not_found'') | Some x \<Rightarrow> Inr (x, s1))"

section \<open>The deletion of an account\<close>

text \<open>
  \<open>execute_account_deletion\<close> on the letters, in its transaction: wishes, their letters and their entries go,
  before the templates do.
\<close>

definition delete_account_mail :: "registry \<Rightarrow> int \<Rightarrow> string \<Rightarrow> mail_db \<Rightarrow> mail_db res" where
  "delete_account_mail reg now user s =
     and_then (execute_account_deletion reg now user (ml_world s)) (\<lambda>w.
       let wid = map_option uv_id (find_row (\<lambda>u. uv_owner u = user \<and> uv_app u = MINGCHAN_APP_ID) (universes (ml_world s)));
           own = (\<lambda>c. lc_source c = ''wish'' \<and> list_ex (\<lambda>t. ct_id t = lc_template c \<and> ct_owner t = Some user \<and>
             ct_app t = MINGCHAN_APP_ID \<and> ct_source_type t = ''generated'') (templates (ml_world s)))
       in Inr (s\<lparr>ml_world := w, ml_letters := delete_where (\<lambda>l. Some (lt_world l) = wid \<and> lt_source l = ''wish'') (ml_letters s),
         ml_wishes := delete_where (\<lambda>x. Some (ws_world x) = wid) (ml_wishes s),
         ml_catalog := delete_where own (ml_catalog s)\<rparr>))"

end
