(* ===== verification/World_Mailbox_Laws.thy ===== *)
theory World_Mailbox_Laws
imports World_Home_Laws World_Mailbox_Service
begin

text \<open>
  What accepting a letter does to the companion world: nothing, or one more active resident in the
  letter's world, which had room for it.
\<close>

lemma insert_resident_effect:
  assumes "insert_resident rid w t v origin ''active'' (Some acc) j now db = Inr (r, db')"
  shows "homely 1 db db'" and "elsewhere w db db'" and "r \<in> set (residents db')" and "rs_id r = rid" and "rs_status r = ''active''"
    and "rs_universe r = w" and "active_residents w db' = active_residents w db + 1"
proof -
  from assms have r: "db' = db\<lparr>residents := residents db @ [r]\<rparr>" "rs_id r = rid" "rs_status r = ''active''" "rs_universe r = w"
    "\<forall>x \<in> set (residents db). rs_id x \<noteq> rid"
    by (auto simp: insert_resident_def Let_def split: if_splits)
  have n: "active_residents y db' = active_residents y db + (if y = w then 1 else 0)" for y
    by (simp add: active_residents_def r)
  show "homely 1 db db'"
  proof (rule homely_residents [OF r(1)])
    show "unique_on (\<lambda>_. True) rs_id (residents db @ [r])" if "unique_on (\<lambda>_. True) rs_id (residents db)"
      using that r(2,5) by (auto simp: unique_on_snoc)
    show "{x \<in> set (residents db @ [r]). rs_status x = ''offline''} = gone_residents db"
      using r(3) by (auto simp: gone_residents_def)
  qed (simp add: n)
  show "elsewhere w db db'" using n r by (auto simp: elsewhere_def world_keys_ok_def unique_on_snoc)
  show "r \<in> set (residents db')" "rs_id r = rid" "rs_status r = ''active''" "rs_universe r = w" using r by simp_all
  show "active_residents w db' = active_residents w db + 1" by (simp add: n)
qed

lemma move_in_cases:
  assumes "move_in reg ids now user sc db = Inr ((r, c), db')"
  obtains soul identity prompt acc db1 db2 where
    "\<not> has_nonlegacy_resident_for_template (lt_world (ap_letter sc)) (lt_template (ap_letter sc)) db"
    "int (active_residents (lt_world (ap_letter sc)) db) < MAX_ACTIVE_RESIDENTS"
    "insert_resident_runtime_account reg ids user (ct_name (ap_template sc)) prompt soul identity MINGCHAN_APP_ID db = Inr (acc, db1)"
    "insert_resident (hi_resident ids) (lt_world (ap_letter sc)) (lt_template (ap_letter sc)) (lt_version (ap_letter sc))
       ''mailbox'' ''active'' (Some (a_id acc)) (Some now) now db1 = Inr (r, db2)"
    "create_ai_conversation ids now (lt_world (ap_letter sc)) (rs_id r) user (a_id acc) db2 = Inr (c, db')"
  using assms unfolding move_in_def Let_def
  by (auto simp: and_then_Inr split: if_splits sum.splits prod.splits err.splits)

lemma move_in_added:
  assumes "move_in reg ids now user sc db = Inr ((r, c), db')"
  shows "added db db'"
  using assms
proof (cases rule: move_in_cases)
  case (1 soul identity prompt acc db1 db2)
  note i = insert_resident_effect [OF 1(4)]
  have "rs_status r \<noteq> ''offline''" by (simp add: i(5))
  note q = runtime_homely [OF 1(3)] conversation_homely [OF 1(5) i(3) refl this]
  have "homely 1 db db'" using homely_trans0(1) [OF q(1) homely_trans0(2) [OF i(1) q(2)]] .
  moreover have "elsewhere (lt_world (ap_letter sc)) db db'"
    using elsewhere_trans [OF elsewhere_quiet [OF q(1)] elsewhere_trans [OF i(2) elsewhere_quiet [OF q(2)]]] .
  ultimately show ?thesis using 1(2) unfolding added_def by blast
qed

lemma close_wishes_world [simp]:
  "ml_world (close_wishes q f now s) = ml_world s" "ml_letters (close_wishes q f now s) = ml_letters s"
  "ml_catalog (close_wishes q f now s) = ml_catalog s"
  by (simp_all add: close_wishes_def)

lemma mark_letter_world [simp]:
  "ml_world (snd (mark_locked_character_letter_expired k u now s)) = ml_world s"
  "ml_world (snd (mark_locked_character_letter_accepted k u r now s)) = ml_world s"
  by (simp_all add: mark_locked_character_letter_expired_def mark_locked_character_letter_accepted_def Let_def)

text \<open>The two ways an acceptance leaves the companion world.\<close>

lemma accept_world:
  assumes "accept_letter reg ids user k now s = (a, s')"
  obtains "ml_world s' = ml_world s" | sc r c where "move_in reg ids now user sc (ml_world s) = Inr ((r, c), ml_world s')"
proof -
  let ?P = "\<lambda>x. ml_world x = ml_world s \<or> (\<exists>sc r c. move_in reg ids now user sc (ml_world s) = Inr ((r, c), ml_world x))"
  have e: "ml_world s1 = ml_world s" if "mark_locked_character_letter_expired k user now s = (ok, s1)" for ok s1
    using mark_letter_world(1) [of k user now s] by (simp add: that)
  have m: "ml_world s2 = w" if "mark_locked_character_letter_accepted k user r now (s\<lparr>ml_world := w\<rparr>) = (ok, s2)" for ok s2 w r
    using mark_letter_world(2) [of k user r now "s\<lparr>ml_world := w\<rparr>"] by (simp add: that)
  have "res_all (\<lambda>r. ?P (snd r)) (accept_locked_letter reg ids user k now s)"
    unfolding accept_locked_letter_def Let_def by (intro res_all_rules) (auto dest: e m)
  then have "?P s'" using assms by (auto simp: accept_letter_def split: sum.splits prod.splits option.splits)
  then show ?thesis using that by blast
qed

lemma accept_added: "accept_letter reg ids user k now s = (a, s') \<Longrightarrow> added (ml_world s) (ml_world s')"
  by (erule accept_world) (auto simp: added_def homely_refl dest: move_in_added [unfolded added_def])

end
