(* ===== verification/World_Steps.thy ===== *)
theory World_Steps
imports World_Feed_Laws World_Mailbox_Laws
begin

text \<open>
  The histories of the companion worlds: one step is one transaction of any operation on any world,
  in any order, so every interleaving of the workers, the users and the staff is a history. \<open>exc\<close>
  says whether staff may approve the departure of a last resident, \<open>leavers\<close> lists the worlds whose
  owner deletes the account. The steps are all the transactions of the application that write
  residents, conversations with residents, lifecycle events, posts or the outbox.
  \<^verbatim>\<open>create_resident_runtime_account\<close> of \<^verbatim>\<open>app/db/billing.py\<close>, which would add an active resident
  without looking at the capacity, is called by tests only and is no step; neither is
  the cleaning of test data by \<^verbatim>\<open>scripts/cleanup_legacy_app_test_data.py\<close>.
\<close>

section \<open>One transaction\<close>

definition owner_leaves :: "string \<Rightarrow> string list \<Rightarrow> world_db \<Rightarrow> bool" where
  "owner_leaves user leavers db = list_all (\<lambda>u. uv_owner u \<noteq> user \<or> uv_id u \<in> set leavers) (universes db)"

inductive world_step :: "bool \<Rightarrow> string list \<Rightarrow> world_db \<Rightarrow> world_db \<Rightarrow> bool"
  for exc :: bool and leavers :: "string list" where
  create_event: "create_resident_lifecycle_event ids n db = Inr (x, db') \<Longrightarrow> world_step exc leavers db db'"
| transition: "transition_resident_lifecycle_event ids eid expected target action actor_type actor now reason meta db =
    Inr (e, db') \<Longrightarrow> world_step exc leavers db db'"
| evaluate: "evaluate_batch sha fids p now after n db = (r, db') \<Longrightarrow> world_step exc leavers db db'"
| approve: "approve_lifecycle_event ids free eid txt why allow admin now policy db = Inr (f, db') \<Longrightarrow>
    \<not> allow \<or> exc \<Longrightarrow> world_step exc leavers db db'"
| correct: "correct_lifecycle_event ids eid why hide admin now db = Inr (e, db') \<Longrightarrow> world_step exc leavers db db'"
| bootstrap: "bootstrap_home reg digest hids now user db = Inr (b, db') \<Longrightarrow> world_step exc leavers db db'"
| confirm: "confirm_residents reg intro hids now user selections db = Inr (rs, db') \<Longrightarrow> world_step exc leavers db db'"
| add: "create_resident reg digest intro hid now user template custom db = Inr (c, db') \<Longrightarrow> world_step exc leavers db db'"
| letter: "accept_letter reg hid user k now s = (a, s') \<Longrightarrow> world_step exc leavers (ml_world s) (ml_world s')"
| delete: "execute_account_deletion reg now user db = Inr db' \<Longrightarrow> owner_leaves user leavers db \<Longrightarrow>
    world_step exc leavers db db'"
| claim_slot: "claim_ai_feed_slot i w author date slot end token now next lease db = Inr (s, db') \<Longrightarrow>
    world_step exc leavers db db'"
| defer_slot: "defer_ai_feed_post i token next m now db = (p, db') \<Longrightarrow> world_step exc leavers db db'"
| skip_slot: "skip_ai_feed_post i reason tok now db = (p, db') \<Longrightarrow> world_step exc leavers db db'"
| close_slots: "close_expired_ai_feed_slots now limit db = (count, db') \<Longrightarrow> world_step exc leavers db db'"
| publish: "publish_ai_feed_post_with_outbox oid i token txt now (published_key i) payload db = Inr (po, db') \<Longrightarrow>
    map_of payload ''post_id'' = Some (JStr i) \<Longrightarrow> world_step exc leavers db db'"
| publish_user: "publish_user_feed_post_with_outbox hid review user request txt fingerprint now media db = Inr (po, db') \<Longrightarrow>
    world_step exc leavers db db'"
| retire: "retire_feed_post_with_outbox oid user i reason now author forbidden db = Inr (po, db') \<Longrightarrow>
    world_step exc leavers db db'"
| claim_outbox: "claim_companion_world_outbox batch now token stale db = (os, db') \<Longrightarrow> world_step exc leavers db db'"
| complete: "complete_companion_world_outbox i token now db = (x', db') \<Longrightarrow> world_step exc leavers db db'"
| fail: "fail_companion_world_outbox i token error next m db = (x', db') \<Longrightarrow> world_step exc leavers db db'"
| other: "residents db' = residents db \<Longrightarrow> ai_conversations db' = ai_conversations db \<Longrightarrow>
    lifecycle_events db' = lifecycle_events db \<Longrightarrow> lifecycle_actions db' = lifecycle_actions db \<Longrightarrow>
    world_posts db' = world_posts db \<Longrightarrow> outbox db' = outbox db \<Longrightarrow> world_step exc leavers db db'"

text \<open>
  \<open>other\<close> is every transaction on the remaining tables: messages, sessions, moderation tasks, media,
  profiles, templates, accounts, memberships.
\<close>

section \<open>What a transaction does to residents\<close>

lemma out_allD: "out_all P r \<Longrightarrow> r = (x, s) \<Longrightarrow> P s"
  by (simp add: out_all_def)

lemma mild_fromD: "res_all (mild_from db) m \<Longrightarrow> m = Inr (x, db') \<Longrightarrow> homely 0 db db'"
  by (rule homely_mild) (simp add: mild_from_def)

lemma homelyD: "res_all (\<lambda>r. homely 0 db (snd r)) m \<Longrightarrow> m = Inr (x, db') \<Longrightarrow> homely 0 db db'"
  by simp

lemma evaluate_homely: "evaluate_batch sha ids p now after n db = (r, db') \<Longrightarrow> homely 0 db db'"
  using evaluate_batch_mild [of db sha ids p now after n] by (simp add: homely_mild)

lemma other_homely:
  assumes "residents db' = residents db" "ai_conversations db' = ai_conversations db"
    "lifecycle_events db' = lifecycle_events db" "lifecycle_actions db' = lifecycle_actions db"
    "world_posts db' = world_posts db"
  shows "homely 0 db db'"
  by (rule homely_frame) (simp_all add: assms farewell_view_def)

lemmas quiet_homely = mild_fromD [OF create_mild] mild_fromD [OF transition_mild] evaluate_homely
  homely_mild [OF correct_effect] bootstrap_homely homelyD [OF claim_slot_homely] out_allD [OF defer_homely]
  out_allD [OF skip_homely] out_allD [OF close_homely] homelyD [OF publish_ai_homely] homelyD [OF publish_user_homely]
  homelyD [OF retire_homely] out_allD [OF claim_outbox_homely] out_allD [OF complete_homely] out_allD [OF fail_homely]

text \<open>The five kinds of transactions: quiet ones, approvals, confirmations, additions, deletions.\<close>

lemma world_step_cases:
  assumes "world_step exc leavers db db'"
  obtains (quiet) "homely 0 db db'"
  | (approve) "approval_result exc db db'"
  | (confirm) user where "joined user db db'"
  | (add) "added db db'"
  | (delete) reg now user where "execute_account_deletion reg now user db = Inr db'" "owner_leaves user leavers db"
  using assms
proof cases
  case (approve ids free eid msg why allow admin now policy f)
  have "approval_result exc db db'"
    using approve_effect [OF approve(1)] approve(2) unfolding approval_result_def by blast
  then show ?thesis by (rule that(2))
next
  case (confirm reg intro hids now user selections rs)
  from res_allD [OF confirm_joined confirm] have "joined user db db'" by simp
  then show ?thesis by (rule that(3))
next
  case (letter reg hid user k now s a s')
  from accept_added [OF letter(3)] letter(1,2) show ?thesis using that(4) by simp
next
  case (other)
  then show ?thesis using that(1) other_homely by blast
qed (erule (1) that(5) | erule that(4) [OF create_effect] | erule that(1) [OF quiet_homely(1)] |
  rule that(1), erule quiet_homely)+

lemma step_audited:
  assumes "world_step exc leavers db db'" and a: "audited db"
  shows "audited db'"
  using assms(1)
proof (cases rule: world_step_cases)
  case quiet
  then show ?thesis using a by (rule homely_audited)
next
  case approve
  then show ?thesis using a audited_commit unfolding approval_result_def by blast
next
  case (confirm user)
  then show ?thesis using a homely_audited unfolding joined_def by blast
next
  case add
  then show ?thesis using a homely_audited unfolding added_def by blast
next
  case (delete reg now user)
  from delete(1) show ?thesis
  proof (cases rule: deletion_cases)
    case none
    then show ?thesis using a by (rule homely_audited)
  next
    case (world u db1)
    from homely_audited [OF world(3) a] have "audited (delete_world_data now (uv_id u) db1)"
      by (rule delete_world_audited)
    then show ?thesis by (rule homely_audited [OF world(4)])
  qed
qed

lemma reach_audited: "(world_step exc leavers)\<^sup>*\<^sup>* db db' \<Longrightarrow> audited db \<Longrightarrow> audited db'"
  by (induction rule: rtranclp_induct) (auto intro: step_audited)

text \<open>Outside the deletion of its world no transaction takes the last resident, unless staff may.\<close>

lemma step_keeps_resident:
  assumes "world_step False leavers db db'" and keys: "world_keys_ok db" and w: "w \<notin> set leavers"
    and n: "0 < active_residents w db"
  shows "0 < active_residents w db'"
proof -
  have up: "0 < active_residents w b" if "homely k a b" "world_keys_ok a" "0 < active_residents w a" for k a b
    using that unfolding homely_def by (metis less_le_trans)
  have keys': "world_keys_ok b" if "homely k a b" "world_keys_ok a" for k a b
    using that unfolding homely_def by blast
  from assms(1) show ?thesis
  proof (cases rule: world_step_cases)
    case quiet
    then show ?thesis using up keys n by blast
  next
    case approve
    then consider "db' = db" | ids eid wid rid cid owner now where
        "commit_result ids eid wid rid cid owner now db db'" "1 < active_residents wid db"
      unfolding approval_result_def by blast
    then show ?thesis
    proof cases
      case 1
      then show ?thesis using n by simp
    next
      case 2
      then show ?thesis using commit_active [OF 2(1), of w] n by (auto split: if_splits)
    qed
  next
    case (confirm user)
    then show ?thesis using up keys n unfolding joined_def by blast
  next
    case add
    then show ?thesis using up keys n unfolding added_def by blast
  next
    case (delete reg now user)
    from delete(1) show ?thesis
    proof (cases rule: deletion_cases)
      case none
      then show ?thesis using up keys n by blast
    next
      case (world u db1)
      have "uv_id u \<in> set leavers" using delete(2) world(1,2) by (auto simp: owner_leaves_def list_all_iff)
      then have "w \<noteq> uv_id u" using w by auto
      then have "0 < active_residents w (delete_world_data now (uv_id u) db1)"
        using up [OF world(3) keys n] by (simp add: delete_world_active)
      moreover have "world_keys_ok (delete_world_data now (uv_id u) db1)"
        using keys' [OF world(3) keys] unfolding world_keys_ok_def delete_world_data_def Let_def
        by (simp add: unique_on_update unique_on_delete)
      ultimately show ?thesis by (rule up [OF world(4), rotated])
    qed
  qed
qed

section \<open>The capacity\<close>

definition capacity_ok :: "world_db \<Rightarrow> bool" where
  "capacity_ok db = list_all (\<lambda>r. int (active_residents (rs_universe r) db) \<le> MAX_ACTIVE_RESIDENTS) (residents db)"

lemma capacity_iff: "capacity_ok db \<longleftrightarrow> (\<forall>w. int (active_residents w db) \<le> MAX_ACTIVE_RESIDENTS)"
proof
  assume c: "capacity_ok db"
  show "\<forall>w. int (active_residents w db) \<le> MAX_ACTIVE_RESIDENTS"
  proof
    fix w
    show "int (active_residents w db) \<le> MAX_ACTIVE_RESIDENTS"
    proof (cases "\<exists>r \<in> set (residents db). rs_universe r = w")
      case True
      then show ?thesis using c by (auto simp: capacity_ok_def list_all_iff)
    next
      case False
      then have "active_residents w db = 0" by (auto simp: active_residents_def count_where_0)
      then show ?thesis by (simp add: MAX_ACTIVE_RESIDENTS_def)
    qed
  qed
qed (simp add: capacity_ok_def list_all_iff)

lemma quiet_active:
  assumes "homely 0 db db'" and "world_keys_ok db"
  shows "world_keys_ok db' \<and> active_residents w db' = active_residents w db"
proof -
  note H = assms(1) [unfolded homely_def, rule_format, OF assms(2)]
  from H have "active_residents w db \<le> active_residents w db'" "active_residents w db' \<le> active_residents w db + 0" by blast+
  then have "active_residents w db' = active_residents w db" by simp
  with H show ?thesis by blast
qed

lemma delete_world_zero: "active_residents wid (delete_world_data now wid db) = 0"
proof -
  have "(\<lambda>r :: resident. if rs_universe r = wid \<and> rs_status r \<noteq> ''dismissed''
      then rs_universe (r\<lparr>rs_status := ''dismissed'', rs_updated := now\<rparr>) = wid \<and>
        rs_status (r\<lparr>rs_status := ''dismissed'', rs_updated := now\<rparr>) = ''active''
      else rs_universe r = wid \<and> rs_status r = ''active'') = (\<lambda>_. False)"
    by auto
  then show ?thesis
    by (simp add: active_residents_def delete_world_data_def Let_def count_where_update) (simp add: count_where_0)
qed

lemma step_capacity:
  assumes "world_step exc leavers db db'" and keys: "world_keys_ok db"
    and c: "\<And>w. int (active_residents w db) \<le> MAX_ACTIVE_RESIDENTS"
  shows "int (active_residents w db') \<le> MAX_ACTIVE_RESIDENTS"
  using assms(1)
proof (cases rule: world_step_cases)
  case quiet
  then show ?thesis using quiet_active keys c by metis
next
  case approve
  have "active_residents w db' \<le> active_residents w db"
    using approve commit_active unfolding approval_result_def by (metis le_add1 order_refl)
  then show ?thesis using c [of w] by linarith
next
  case (confirm user)
  then obtain w0 :: universe and k where k: "homely k db db'" "elsewhere (uv_id w0) db db'"
      "int (active_residents (uv_id w0) db) + int k \<le> MAX_ACTIVE_RESIDENTS"
    unfolding joined_def by blast
  have "active_residents w db' \<le> active_residents w db + k" using k(1) keys unfolding homely_def by blast
  then show ?thesis using k(2,3) keys c [of w] unfolding elsewhere_def by (cases "w = uv_id w0") simp_all
next
  case add
  then consider "homely 0 db db'" | v where "homely 1 db db'" "elsewhere v db db'"
      "int (active_residents v db) < MAX_ACTIVE_RESIDENTS"
    using keys unfolding added_def by blast
  then show ?thesis
  proof cases
    case 1
    then show ?thesis using quiet_active keys c by metis
  next
    case 2
    have "active_residents w db' \<le> active_residents w db + 1" using 2(1) keys unfolding homely_def by blast
    then show ?thesis using 2(2,3) keys c [of w] unfolding elsewhere_def by (cases "w = v") simp_all
  qed
next
  case (delete reg now user)
  from delete(1) show ?thesis
  proof (cases rule: deletion_cases)
    case none
    then show ?thesis using quiet_active keys c by metis
  next
    case (world u db1)
    let ?d = "delete_world_data now (uv_id u) db1"
    note q = quiet_active [OF world(3) keys]
    have "int (active_residents w ?d) \<le> MAX_ACTIVE_RESIDENTS"
      using q c by (cases "w = uv_id u") (simp_all add: delete_world_zero delete_world_active MAX_ACTIVE_RESIDENTS_def)
    moreover have "world_keys_ok ?d"
      using q unfolding world_keys_ok_def delete_world_data_def Let_def by (simp add: unique_on_update unique_on_delete)
    ultimately show ?thesis using quiet_active [OF world(4)] by metis
  qed
qed

end
