(* ===== verification/World_Samples.thy ===== *)
theory World_Samples
imports World_Steps Samples
begin

text \<open>
  A small concrete world for the witnesses: one user, a confirmed world with two active residents,
  a departure of the first for severe abuse that waits for review, and its evidence.
\<close>

definition sample_policy :: lifecycle_policy where
  "sample_policy = \<lparr>lp_version = ''companion_world_lifecycle_v1:i30:w30:n3:s7:c7:f30'', lp_inactivity = 30,
     lp_window = 30, lp_min_events = 3, lp_min_span = 7, lp_cooldown = 7, lp_freeze = 30\<rparr>"

definition sample_template :: "string \<Rightarrow> character_template" where
  "sample_template i = \<lparr>ct_id = i, ct_app = ''mingchan'', ct_source_type = ''preset'', ct_owner = None,
     ct_name = i, ct_avatar = Some ''a.png'', ct_summary = Some ''s'', ct_tags = [''x'', ''y'', ''z''],
     ct_seed = Parsed (JDict [(''soul'', JStr ''kind''), (''identity'', JStr ''a friend'')]), ct_version = ''1'',
     ct_status = ''active'', ct_rank = None, ct_persona_key = None, ct_name_pool = [], ct_pool_version = None\<rparr>"

definition sample_resident :: "string \<Rightarrow> string \<Rightarrow> string \<Rightarrow> resident" where
  "sample_resident i t acc = \<lparr>rs_id = i, rs_universe = ''w1'', rs_template = t, rs_version = ''1'',
     rs_runtime = Some acc, rs_origin = ''preset'', rs_status = ''active'', rs_joined = Some 0, rs_offline = None,
     rs_departure = None, rs_name = None, rs_naming = None, rs_created = 0, rs_updated = 0\<rparr>"

definition sample_conversation :: "string \<Rightarrow> string \<Rightarrow> string \<Rightarrow> ai_conversation" where
  "sample_conversation i r acc = \<lparr>ac_id = i, ac_world = ''w1'', ac_resident = r, ac_owner = ''user_1'',
     ac_runtime = acc, ac_state = ''active'', ac_updated = 0\<rparr>"

definition sample_event :: lifecycle_event where
  "sample_event = \<lparr>le_id = ''e1'', le_owner = ''user_1'', le_world = ''w1'', le_resident = ''r1'',
     le_type = ''severe_abuse'', le_status = ''review_pending'', le_policy = lp_version sample_policy,
     le_start = 0, le_end = 100, le_count = 1, le_refs = [], le_cooldown = None, le_freeze = None,
     le_exception = 0, le_key = ''k1'', le_fingerprint = ''f1'', le_farewell = None, le_reviewed_by = None,
     le_reviewed = None, le_reason = None, le_committed = None, le_post = None, le_correction = ''none'',
     le_corrected_by = None, le_corrected = None, le_correction_reason = None, le_created = 100, le_updated = 100\<rparr>"

definition sample_task :: moderation_task where
  "sample_task = \<lparr>mt_id = ''t1'', mt_account = ''rt_1'', mt_direction = ''inbound'', mt_status = Some ''blocked'',
     mt_risk = Some ''block'', mt_categories = [''severe_abuse''], mt_policy = None, mt_observations = [], mt_created = 90\<rparr>"

definition sample_world :: world_db where
  "sample_world = \<lparr>users = [sample_user], memberships = [sample_membership ''mingchan''],
     accounts = [sample_account ''rt_1'' ''mingchan'', sample_account ''rt_2'' ''mingchan''], bindings = [], ownerships = [],
     universes = [\<lparr>uv_id = ''w1'', uv_owner = ''user_1'', uv_app = ''mingchan'', uv_status = ''active'',
       uv_onboarding = ''confirmed''\<rparr>],
     residents = [sample_resident ''r1'' ''t1'' ''rt_1'', sample_resident ''r2'' ''t2'' ''rt_2''],
     templates = [sample_template ''t1'', sample_template ''t2'', sample_template ''t3''], profiles = [], profile_files = [],
     ai_conversations = [sample_conversation ''c1'' ''r1'' ''rt_1'', sample_conversation ''c2'' ''r2'' ''rt_2''],
     world_posts = [], post_media = [], media_assets = [], outbox = [], lifecycle_events = [sample_event],
     lifecycle_actions = [], app_sessions = [], world_messages = [], moderation_tasks = [sample_task]\<rparr>"

definition sample_fresh :: fresh_ids where
  "sample_fresh = \<lparr>fi_event = ''e2'', fi_action = ''a1'', fi_post = ''p1'', fi_outbox = ''o1''\<rparr>"

definition sample_home_ids :: home_ids where
  "sample_home_ids = \<lparr>hi_world = ''w9'', hi_template = ''t9'', hi_resident = ''r9'', hi_accounts = [''rt_9''],
     hi_conversation = ''c9'', hi_session = 9, hi_message = 9, hi_post = ''p9'', hi_outbox = ''o9''\<rparr>"

text \<open>The world after the approval at second 200.\<close>

definition sample_approval :: "(farewell \<times> world_db) res" where
  "sample_approval = approve_lifecycle_event sample_fresh True ''e1'' '' farewell '' ''abuse'' False ''admin_1''
     200000000 (Some sample_policy) sample_world"

definition departed_world :: world_db where
  "departed_world = (case sample_approval of Inl _ \<Rightarrow> sample_world | Inr (_, db) \<Rightarrow> db)"

lemma sample_approved: "\<exists>f. sample_approval = Inr (f, departed_world) \<and> \<not> fw_replayed f"
proof -
  have "case sample_approval of Inl _ \<Rightarrow> False | Inr (f, db) \<Rightarrow> \<not> fw_replayed f" by code_simp
  then obtain f db where "sample_approval = Inr (f, db)" "\<not> fw_replayed f" by (auto split: sum.splits)
  moreover from this(1) have "departed_world = db" unfolding departed_world_def by (rule ssubst) simp
  ultimately show ?thesis by metis
qed

lemma sample_audited: "audited sample_world"
  by code_simp

end
