(* ===== verification/World_Decisions.thy ===== *)
theory World_Decisions
imports World_Laws
begin

text \<open>
  The staff's decisions in detail: what an approval returns and leaves in every table, and that
  asking for it again answers the same and changes nothing.
\<close>

section \<open>The scope of a decision\<close>

text \<open>\<open>scope_rows e db\<close>: the world, the resident and the conversation of the event are there.\<close>

definition scope_rows :: "lifecycle_event \<Rightarrow> world_db \<Rightarrow> bool" where
  "scope_rows e db =
     (find_row (\<lambda>w. uv_id w = le_world e \<and> uv_owner w = le_owner e \<and> uv_app w = MINGCHAN_APP_ID) (universes db) \<noteq> None \<and>
      find_row (\<lambda>r. rs_id r = le_resident e \<and> rs_universe r = le_world e) (residents db) \<noteq> None \<and>
      find_row (\<lambda>c. ac_resident c = le_resident e \<and> ac_world c = le_world e \<and> ac_owner c = le_owner e)
        (ai_conversations db) \<noteq> None)"

lemma lock_scope:
  assumes "lock_resident_lifecycle_commit_scope eid db = Inr (Some sc)"
  shows "py_strip eid \<noteq> []" and "find_event (py_strip eid) db = Some (cs_event sc)" and "scope_rows (cs_event sc) db"
proof -
  have "res_all (opt_all (\<lambda>sc. py_strip eid \<noteq> [] \<and> find_event (py_strip eid) db = Some (cs_event sc) \<and> scope_rows (cs_event sc) db))
      (lock_resident_lifecycle_commit_scope eid db)"
    unfolding lock_resident_lifecycle_commit_scope_def clean_required_def Let_def
    by (intro res_all_rules) (auto simp: scope_rows_def split: if_splits)
  with assms show "py_strip eid \<noteq> []" "find_event (py_strip eid) db = Some (cs_event sc)" "scope_rows (cs_event sc) db"
    by simp_all
qed

lemma scope_locked:
  assumes "py_strip eid \<noteq> []" and "find_event (py_strip eid) db = Some e" and "scope_rows e db"
  obtains sc where "lock_resident_lifecycle_commit_scope eid db = Inr (Some sc)" and "cs_event sc = e"
  using assms
  by (auto simp: lock_resident_lifecycle_commit_scope_def clean_required_def Let_def scope_rows_def)

section \<open>The commit\<close>

text \<open>What a commit returns: the event and the post as they are stored.\<close>

lemma commit_returns:
  "res_all (\<lambda>r. find_event eid (snd r) = Some (fst (fst r)) \<and>
       find_row (\<lambda>p. wp_id p = fi_post ids) (world_posts (snd r)) = Some (snd (fst r)))
     (commit_locked_resident_offline ids eid wid rid cid owner text admin reason exc now db)"
  unfolding commit_locked_resident_offline_def Let_def
  by (intro res_all_rules) simp_all

lemma commit_keeps_scope:
  assumes c: "commit_result ids eid wid rid cid owner now db db'"
    and e: "le_world e' = le_world e" "le_resident e' = le_resident e" "le_owner e' = le_owner e"
    and s: "scope_rows e db"
  shows "scope_rows e' db'"
proof -
  from c obtain msg admin reason rows a where
    d: "db' = committed_state ids eid wid rid cid owner now msg admin reason rows a db"
    unfolding commit_result_def by blast
  show ?thesis
    using s unfolding scope_rows_def e d committed_state_def
    by (simp add: find_row_update_where gone_def silenced_def)
qed

lemma commit_event:
  assumes c: "commit_result ids eid wid rid cid owner now db db'"
    and e: "find_event eid db = Some e" "le_status e = ''review_pending''" "le_world e = wid" "le_resident e = rid"
  obtains e' where "find_event eid db' = Some e'" and "le_status e' = ''committed''"
    and "le_post e' = Some (fi_post ids)" and "le_world e' = wid" and "le_resident e' = rid" and "le_owner e' = le_owner e"
proof -
  from c obtain msg admin reason rows a where
    d: "db' = committed_state ids eid wid rid cid owner now msg admin reason rows a db"
    unfolding commit_result_def by blast
  have i: "le_id e = eid" using e(1) by (auto simp: find_event_def dest: find_row_Some)
  have "find_event eid db' = Some (committed_by (fi_post ids) msg admin reason now e)"
    using e i by (simp add: find_event_def d committed_state_def find_row_update_where committed_by_def pending_event_def)
  then show thesis by (rule that) (simp_all add: committed_by_def e)
qed

section \<open>The approval and its replay\<close>

definition replays :: "string \<Rightarrow> farewell \<Rightarrow> world_db \<Rightarrow> bool" where
  "replays eid f db = (\<exists>e. py_strip eid \<noteq> [] \<and> find_event (py_strip eid) db = Some e \<and> scope_rows e db \<and>
     le_status e = ''committed'' \<and> find_event eid db = Some (fw_event f) \<and>
     find_row (\<lambda>p. Some (wp_id p) = le_post e) (world_posts db) = Some (fw_post f))"

lemma approve_tx_replay:
  assumes "replays eid f db"
  shows "approve_tx ids free eid txt why exc admin now policy db = Inr (f\<lparr>fw_replayed := True\<rparr>, db)"
proof -
  from assms obtain e where e: "py_strip eid \<noteq> []" "find_event (py_strip eid) db = Some e" "scope_rows e db"
      "le_status e = ''committed''" "find_event eid db = Some (fw_event f)"
      "find_row (\<lambda>p. Some (wp_id p) = le_post e) (world_posts db) = Some (fw_post f)"
    unfolding replays_def by blast
  from e(1-3) obtain sc where sc: "lock_resident_lifecycle_commit_scope eid db = Inr (Some sc)" "cs_event sc = e"
    by (rule scope_locked)
  show ?thesis using e sc by (simp add: approve_tx_def Let_def)
qed

text \<open>After an approval that committed, the event replays it.\<close>

lemma committed_replays:
  assumes l: "lock_resident_lifecycle_commit_scope eid db = Inr (Some sc)" and i: "py_strip eid = eid"
    and st: "le_status (cs_event sc) = ''review_pending''"
    and c: "commit_locked_resident_offline ids (le_id (cs_event sc)) (le_world (cs_event sc)) (le_resident (cs_event sc))
       cid (le_owner (cs_event sc)) text admin why x now db = Inr ((e1, post), db')"
    and f: "fw_event f = e1" "fw_post f = post"
  shows "replays eid f db'"
proof -
  let ?e = "cs_event sc"
  have e: "find_event eid db = Some ?e" using lock_scope(2) [OF l] i by simp
  then have id: "le_id ?e = eid" by (auto simp: find_event_def dest: find_row_Some)
  have r: "find_event eid db' = Some e1" "find_row (\<lambda>p. wp_id p = fi_post ids) (world_posts db') = Some post"
    using res_allD [OF commit_returns c] id by simp_all
  have com: "commit_result ids eid (le_world ?e) (le_resident ?e) cid (le_owner ?e) now db db'"
    using res_allD [OF commit_effect c] id by simp
  obtain e' where e': "find_event eid db' = Some e'" "le_status e' = ''committed''" "le_post e' = Some (fi_post ids)"
      "le_world e' = le_world ?e" "le_resident e' = le_resident ?e" "le_owner e' = le_owner ?e"
    by (rule commit_event [OF com e st refl refl])
  have "scope_rows e' db'" by (rule commit_keeps_scope [OF com e'(4-6) lock_scope(3) [OF l]])
  then show ?thesis
    using e' r f i lock_scope(1) [OF l] unfolding replays_def by (intro exI [of _ e']) simp
qed

lemma approve_tx_replays:
  assumes "py_strip eid = eid"
  shows "res_all (\<lambda>r. replays eid (fst r) (snd r)) (approve_tx ids free eid txt why exc admin now policy db)"
proof -
  have rep: "replays eid \<lparr>fw_event = e1, fw_post = post, fw_replayed = b\<rparr> db"
    if "lock_resident_lifecycle_commit_scope eid db = Inr (Some sc)" "le_status (cs_event sc) = ''committed''"
      "find_row (\<lambda>p. Some (wp_id p) = le_post (cs_event sc)) (world_posts db) = Some post"
      "find_event eid db = Some e1" for sc post e1 b
    using that lock_scope [OF that(1)] unfolding replays_def by auto
  show ?thesis
    unfolding approve_tx_def Let_def
    by (intro res_all_rules commit_error_res_all; (simp only: fst_conv snd_conv)?;
        ((erule (3) rep) | (rule committed_replays, assumption, rule assms, blast, assumption, simp, simp))?)
      (simp_all split: err.split)
qed

section \<open>The version of a policy\<close>

text \<open>A version is read back field by field: a prefix, digits, and then no further digit.\<close>

lemma starts_with_append [simp]: "starts_with p (p @ s)"
  by (simp add: starts_with_def)

lemma takeWhile_digits:
  assumes "t = [] \<or> \<not> is_digit (hd t)"
  shows "takeWhile is_digit (nat_str n @ t) = nat_str n" and "dropWhile is_digit (nat_str n @ t) = t"
proof -
  have d: "\<forall>c \<in> set (nat_str n). is_digit c" by (rule nat_str_digits)
  have t: "takeWhile is_digit t = []" "dropWhile is_digit t = t" using assms by (cases t; simp)+
  show "takeWhile is_digit (nat_str n @ t) = nat_str n" using d t(1) by (simp add: takeWhile_append2)
  show "dropWhile is_digit (nat_str n @ t) = t" using d t(2) by (simp add: dropWhile_append2)
qed

lemma scan_field_str:
  assumes "0 \<le> i" and "t = [] \<or> \<not> is_digit (hd t)"
  shows "scan_field p (p @ int_str i @ t) = Some (i, t)"
  using assms by (simp add: scan_field_def int_str_def takeWhile_digits Let_def)

lemma policy_scan:
  assumes "0 \<le> lp_inactivity p" "0 \<le> lp_window p" "0 \<le> lp_min_events p" "0 \<le> lp_min_span p" "0 \<le> lp_cooldown p"
    "0 \<le> lp_freeze p"
  shows "scan_fields policy_prefixes (policy_version p) =
    Some ([lp_inactivity p, lp_window p, lp_min_events p, lp_min_span p, lp_cooldown p, lp_freeze p], [])"
proof -
  have f: "scan_field (LIFECYCLE_POLICY_FAMILY @ '':i'') (LIFECYCLE_POLICY_FAMILY @ '':i'' @ int_str (lp_inactivity p) @ t) =
      Some (lp_inactivity p, t)" if "t = [] \<or> \<not> is_digit (hd t)" for t
    using scan_field_str [OF assms(1) that, of "LIFECYCLE_POLICY_FAMILY @ '':i''"] by simp
  have g: "scan_field q (q @ int_str i) = Some (i, [])" if "0 \<le> i" for q i
    using scan_field_str [OF that, of "[]" q] by simp
  have c: "\<not> is_digit (CHR '':'')" by (simp add: is_digit_def)
  show ?thesis
    unfolding policy_version_def policy_prefixes_def
    using assms scan_field_str [of _ _ "'':w''"] scan_field_str [of _ _ "'':n''"] scan_field_str [of _ _ "'':s''"]
      scan_field_str [of _ _ "'':c''"] g [of _ "'':f''"] f
    by (simp add: c)
qed

lemma validated_policy:
  "validate_lifecycle_policy p = Inr q \<longleftrightarrow> q = p \<and> 1 \<le> lp_inactivity p \<and> lp_inactivity p \<le> 365 \<and> 1 \<le> lp_window p \<and>
     lp_window p \<le> 180 \<and> 1 \<le> lp_min_events p \<and> lp_min_events p \<le> 100 \<and> 0 \<le> lp_min_span p \<and>
     lp_min_span p \<le> lp_window p \<and> 1 \<le> lp_cooldown p \<and> lp_cooldown p \<le> 90 \<and> 1 \<le> lp_freeze p \<and> lp_freeze p \<le> 180"
  by (auto simp: validate_lifecycle_policy_def)

lemma built_policy:
  assumes "build_lifecycle_policy config = Inr p"
  shows "lp_version p = policy_version p" and "validate_lifecycle_policy p = Inr p"
  using assms unfolding build_lifecycle_policy_def and_then_Inr validated_policy by (auto simp: policy_version_def)

lemma policy_read_back:
  assumes "build_lifecycle_policy config = Inr p"
  shows "policy_from_event_version (lp_version p) = Inr p"
proof -
  note v = built_policy [OF assms]
  have "scan_fields policy_prefixes (lp_version p) =
    Some ([lp_inactivity p, lp_window p, lp_min_events p, lp_min_span p, lp_cooldown p, lp_freeze p], [])"
    using v(2) unfolding v(1) by (intro policy_scan) (simp_all add: validated_policy)
  then have "policy_from_event_version (lp_version p) = validate_lifecycle_policy \<lparr>lp_version = lp_version p, lp_inactivity = lp_inactivity p, lp_window = lp_window p,
      lp_min_events = lp_min_events p, lp_min_span = lp_min_span p, lp_cooldown = lp_cooldown p, lp_freeze = lp_freeze p\<rparr>"
    by (simp add: policy_from_event_version_def)
  also have "\<dots> = Inr p" unfolding lifecycle_policy.surjective [of p, symmetric] by (cases p) (use v(2) in simp)
  finally show ?thesis .
qed

end
