(* ===== verification/World_Properties.thy ===== *)
theory World_Properties
imports World_Samples World_Decisions
begin

text \<open>
  What the companion worlds guarantee, with the witnesses on the small world of \<open>World_Samples\<close>:
  departures, the last resident, the capacity of a world, the staff's decision, the policy of an
  event, and what the deletion of an account leaves behind.
\<close>

section \<open>Departures\<close>

text \<open>C1: whatever the scheduler, the staff, the users and the workers do, in any order, every
  offline resident was taken offline by one committed event that names it, with a farewell post of
  that event in its world, an audit action of the staff and a read-only conversation; and every
  committed event has its offline resident.\<close>

theorem departures_audited:
  assumes "audited db0" and "(world_step exc leavers)\<^sup>*\<^sup>* db0 db"
  shows "list_all (\<lambda>r. rs_status r \<noteq> ''offline'' \<or> departure_ok db r) (residents db) \<and>
    list_all (departed db) (committed_view db)"
  using reach_audited [OF assms(2,1)] by (simp add: audited_def)

lemma sample_approve_step: "world_step False [] sample_world departed_world"
proof -
  obtain f where "sample_approval = Inr (f, departed_world)" using sample_approved by blast
  then show ?thesis unfolding sample_approval_def by (rule world_step.approve) simp
qed

theorem departures_audited_witness:
  "list_all (\<lambda>r. rs_status r \<noteq> ''offline'' \<or> departure_ok departed_world r) (residents departed_world) \<and>
    list_all (departed departed_world) (committed_view departed_world) \<and>
    map rs_status (residents departed_world) = [''offline'', ''active'']"
proof -
  have "map rs_status (residents departed_world) = [''offline'', ''active'']" by code_simp
  with departures_audited [OF sample_audited r_into_rtranclp, OF sample_approve_step] show ?thesis by simp
qed

text \<open>C2: as long as the staff grants no exception, a world that has an active resident keeps one,
  through any history in which its owner does not delete the account.\<close>

theorem world_keeps_a_resident:
  assumes "audited db0" and "(world_step False leavers)\<^sup>*\<^sup>* db0 db" and "w \<notin> set leavers"
    and "0 < active_residents w db0"
  shows "0 < active_residents w db"
  using assms(2)
proof (induction rule: rtranclp_induct)
  case base
  show ?case by (rule assms(4))
next
  case (step db1 db2)
  have "audited db1" using reach_audited [OF step.hyps(1) assms(1)] .
  then show ?case using step_keeps_resident [OF step.hyps(2) _ assms(3) step.IH] by (simp add: audited_def)
qed

theorem world_keeps_a_resident_witness: "0 < active_residents ''w1'' departed_world"
proof -
  have "0 < active_residents ''w1'' sample_world" by code_simp
  then show ?thesis
    using world_keeps_a_resident [OF sample_audited r_into_rtranclp, OF sample_approve_step] by simp
qed

text \<open>The scheduled evaluation decides nothing: whatever the evidence says, a batch leaves the
  residents, their conversations, the committed events and the farewell posts as they are.\<close>

theorem scheduler_cannot_depart:
  "residents (snd (evaluate_batch sha ids p now after n db)) = residents db \<and>
   ai_conversations (snd (evaluate_batch sha ids p now after n db)) = ai_conversations db \<and>
   committed_view (snd (evaluate_batch sha ids p now after n db)) = committed_view db \<and>
   farewell_view (snd (evaluate_batch sha ids p now after n db)) = farewell_view db"
  using evaluate_batch_mild [of db sha ids p now after n] by (simp add: mild_def)

text \<open>C3: no world ever has more than ten active residents: confirmations and additions on any
  worlds, with departures, corrections and deletions in between, keep every world within the
  capacity.\<close>

theorem world_capacity:
  assumes "audited db0" and "capacity_ok db0" and "(world_step exc leavers)\<^sup>*\<^sup>* db0 db"
  shows "int (active_residents w db) \<le> 10"
proof -
  have "\<forall>w. int (active_residents w db) \<le> MAX_ACTIVE_RESIDENTS"
    using assms(3)
  proof (induction rule: rtranclp_induct)
    case base
    show ?case using assms(2) by (simp add: capacity_iff)
  next
    case (step db1 db2)
    have "world_keys_ok db1" using reach_audited [OF step.hyps(1) assms(1)] by (simp add: audited_def)
    then show ?case using step_capacity [OF step.hyps(2)] step.IH by blast
  qed
  then show ?thesis by (simp add: MAX_ACTIVE_RESIDENTS_def)
qed

theorem world_capacity_witness:
  "int (active_residents ''w1'' departed_world) \<le> 10 \<and> active_residents ''w1'' sample_world = 2"
proof -
  have "capacity_ok sample_world" "active_residents ''w1'' sample_world = 2" by code_simp+
  then show ?thesis using world_capacity [OF sample_audited _ r_into_rtranclp, OF _ sample_approve_step] by simp
qed

section \<open>The staff's decision\<close>

text \<open>An approval is idempotent: once it has been answered, asking for the same event again, by
  anyone, at any time, under any policy and with any further arguments, answers the stored event and
  farewell as a replay and changes nothing.\<close>

theorem approval_idempotent:
  assumes "approve_lifecycle_event ids free eid msg why allow admin now policy db = Inr (f, db1)" and "py_strip eid = eid"
  shows "approve_lifecycle_event ids' free' eid msg why allow' admin' now' policy' db1 = Inr (f\<lparr>fw_replayed := True\<rparr>, db1)"
proof -
  from assms(1) have v: "py_strip msg \<noteq> []" "int (length (py_strip msg)) \<le> 2000" "CHR 0x00 \<notin> set (py_strip msg)"
      "py_strip why \<noteq> []"
    and tx: "approve_tx ids free eid (py_strip msg) (py_strip why) allow admin now policy db = Inr (f, db1)"
    by (auto simp: approve_lifecycle_event_def Let_def commit_error_def split: if_splits)
  have "replays eid f db1" using res_allD [OF approve_tx_replays [OF assms(2)] tx] by simp
  from approve_tx_replay [OF this] v show ?thesis by (simp add: approve_lifecycle_event_def Let_def)
qed

theorem approval_idempotent_witness:
  "\<exists>f. sample_approval = Inr (f, departed_world) \<and> \<not> fw_replayed f \<and>
     approve_lifecycle_event sample_fresh False ''e1'' '' farewell '' ''abuse'' True ''admin_2'' 900000000 None departed_world =
       Inr (f\<lparr>fw_replayed := True\<rparr>, departed_world)"
proof -
  obtain f where f: "sample_approval = Inr (f, departed_world)" "\<not> fw_replayed f" using sample_approved by blast
  have "py_strip ''e1'' = ''e1''" by code_simp
  from approval_idempotent [OF f(1) [unfolded sample_approval_def] this] f show ?thesis by blast
qed

text \<open>C11: the policy an event was opened under is frozen in its version: the text that a configured
  policy is stored as reads back as the same six thresholds.\<close>

theorem policy_version_roundtrip:
  assumes "build_lifecycle_policy config = Inr p"
  shows "policy_from_event_version (lp_version p) = Inr p"
  using assms by (rule policy_read_back)

theorem policy_version_roundtrip_witness:
  "policy_from_event_version ''companion_world_lifecycle_v1:i30:w30:n3:s7:c7:f30'' = Inr sample_policy"
proof -
  have "build_lifecycle_policy (sample_policy\<lparr>lp_version := []\<rparr>) = Inr sample_policy" by code_simp
  from policy_version_roundtrip [OF this] show ?thesis by (simp add: sample_policy_def)
qed

end
