(* ===== verification/World_Jobs.thy ===== *)
theory World_Jobs
imports World_Feed
begin

text \<open>
  The jobs and the service over the feed: the windows of the day
  (\<^verbatim>\<open>jobs/world_content/windows.py\<close>), the generation of a batch of posts
  (\<^verbatim>\<open>jobs/world_content/service.py\<close>), the delivery of a batch of events
  (\<^verbatim>\<open>jobs/world_content/outbox.py\<close>), and the checks of user posts
  (\<^verbatim>\<open>domain/companion_world/feed.py\<close> over \<^verbatim>\<open>infrastructure/world_repository.py\<close>).

  The text generator is a function that answers a text or the message of its exception, the
  publisher one that answers the message of its exception, if any. Each repository call is a
  transaction of its own.
\<close>

section \<open>Windows\<close>

record feed_windows =
  fw_morning_start :: int
  fw_morning_end :: int
  fw_evening_start :: int
  fw_evening_end :: int

text \<open>\<open>strptime(text, "%H:%M")\<close>: one or two digits each, the first of two bounded.\<close>

definition clock_number :: "nat \<Rightarrow> string \<Rightarrow> bool" where
  "clock_number bound ds = (list_all is_digit ds \<and> (length ds = 1 \<or> length ds = 2 \<and> str_nat ds < bound))"

definition minute_of_day :: "bool \<Rightarrow> string \<Rightarrow> int res" where
  "minute_of_day allow_24 value =
     (let t = py_strip value; h = takeWhile is_digit t; r = dropWhile is_digit t in
      if allow_24 \<and> t = ''24:00'' then Inr (24 * 60)
      else case r of
        [] \<Rightarrow> Inl (ValueError ''feed windows must use HH:MM'')
      | c # m \<Rightarrow> if c = CHR '':'' \<and> clock_number 24 h \<and> clock_number 60 m
          then Inr (int (str_nat h) * 60 + int (str_nat m))
          else Inl (ValueError ''feed windows must use HH:MM''))"

definition parse_windows :: "string \<Rightarrow> string \<Rightarrow> string \<Rightarrow> string \<Rightarrow> feed_windows res" where
  "parse_windows morning_start morning_end evening_start evening_end =
     and_then (minute_of_day False morning_start) (\<lambda>ms.
     and_then (minute_of_day True morning_end) (\<lambda>me.
     and_then (minute_of_day False evening_start) (\<lambda>es.
     and_then (minute_of_day True evening_end) (\<lambda>ee.
       if 0 \<le> ms \<and> ms < me \<and> me \<le> es \<and> es < ee \<and> ee \<le> 24 * 60
       then Inr \<lparr>fw_morning_start = ms, fw_morning_end = me, fw_evening_start = es, fw_evening_end = ee\<rparr>
       else Inl (ValueError ''feed windows must be ordered, non-overlapping, and same-day'')))))"

text \<open>The civil date of a day of the Gregorian calendar, counted from 1970-01-01, as \<open>strftime\<close> writes it.\<close>

definition pad :: "nat \<Rightarrow> int \<Rightarrow> string" where
  "pad n i = (let s = int_str i in replicate (n - length s) (CHR ''0'') @ s)"

definition civil_date :: "int \<Rightarrow> string" where
  "civil_date d =
     (let z = d + 719468; era = z div 146097; doe = z mod 146097;
          yoe = (doe - doe div 1460 + doe div 36524 - doe div 146096) div 365;
          doy = doe - (365 * yoe + yoe div 4 - yoe div 100); mp = (5 * doy + 2) div 153;
          day = doy - (153 * mp + 2) div 5 + 1; month = (if mp < 10 then mp + 3 else mp - 9);
          year = yoe + era * 400 + (if month \<le> 2 then 1 else 0)
      in pad 4 year @ ''-'' @ pad 2 month @ ''-'' @ pad 2 day)"

record feed_slot =
  fs_name :: string
  fs_date :: string
  fs_end :: int

definition day_of :: "int \<Rightarrow> int" where "day_of now = now div 86400000000"

definition resolve_slot :: "feed_windows \<Rightarrow> int \<Rightarrow> feed_slot option" where
  "resolve_slot w now =
     (let minute = now div 60000000 mod 1440;
          slot = (\<lambda>name m. Some \<lparr>fs_name = name, fs_date = civil_date (day_of now),
            fs_end = day_of now * 86400000000 + m * 60000000\<rparr>)
      in if fw_morning_start w \<le> minute \<and> minute < fw_morning_end w then slot ''morning'' (fw_morning_end w)
         else if fw_evening_start w \<le> minute \<and> minute < fw_evening_end w then slot ''evening'' (fw_evening_end w)
         else None)"

section \<open>Eligible worlds and authors\<close>

definition owned_accounts :: "universe \<Rightarrow> world_db \<Rightarrow> string list" where
  "owned_accounts u db =
     map b_account (filter (\<lambda>b. b_user b = uv_owner u \<and> b_status b = ''active'' \<and> b_app b = MINGCHAN_APP_ID \<and>
        list_ex (\<lambda>a. a_id a = b_account b \<and> a_app a = MINGCHAN_APP_ID \<and> a_status a = ''active'') (accounts db)) (bindings db)) @
     List.map_filter rs_runtime (filter (\<lambda>r. rs_universe r = uv_id u) (residents db))"

definition list_ai_feed_eligible_worlds :: "int \<Rightarrow> string option \<Rightarrow> int \<Rightarrow> world_db \<Rightarrow> string list" where
  "list_ai_feed_eligible_worlds inbound_since after_id limit db =
     sql_limit (max 1 (min limit 200)) (sort (map uv_id (filter (\<lambda>u. uv_app u = MINGCHAN_APP_ID \<and> uv_status u = ''active'' \<and>
        uv_onboarding u = ''confirmed'' \<and>
        list_ex (\<lambda>r. rs_universe r = uv_id u \<and> rs_status r = ''active'' \<and> rs_runtime r \<noteq> None) (residents db) \<and>
        (case or_none after_id of None \<Rightarrow> True | Some a \<Rightarrow> a < uv_id u) \<and>
        list_ex (\<lambda>m. im_direction m = ''inbound'' \<and> im_role m = ''user'' \<and> inbound_since \<le> im_created m \<and>
          im_account m \<in> set (owned_accounts u db)) (world_messages db)) (universes db))))"

record feed_author =
  au_resident :: string
  au_name :: string

definition author_of :: "world_db \<Rightarrow> resident \<Rightarrow> character_template \<Rightarrow> feed_author" where
  "author_of db r t = \<lparr>au_resident = rs_id r,
     au_name = (case find_row (\<lambda>p. Some (pf_account p) = rs_runtime r) (profiles db) of
       None \<Rightarrow> ct_name t | Some p \<Rightarrow> pf_name p)\<rparr>"

definition app_activity :: "world_db \<Rightarrow> resident \<Rightarrow> int option" where
  "app_activity db r =
     (case filter (\<lambda>m. Some (im_account m) = rs_runtime r \<and>
         list_ex (\<lambda>s. as_id s = im_session m \<and> as_key s = APP_ACTIVE_SESSION_KEY) (app_sessions db)) (world_messages db) of
        [] \<Rightarrow> None | m # ms \<Rightarrow> Some (fold (\<lambda>x a. max a (im_created x)) ms (im_created m)))"

text \<open>Known values first, the greatest first: \<open>CASE WHEN ... IS NULL\<close>, then \<open>DESC\<close>.\<close>

definition desc_nulls_last :: "int option \<Rightarrow> int \<times> int" where
  "desc_nulls_last v = (case v of None \<Rightarrow> (1, 0) | Some x \<Rightarrow> (0, - x))"

definition feed_authors :: "string \<Rightarrow> world_db \<Rightarrow> (resident \<times> character_template) list" where
  "feed_authors world_id db =
     concat (map (\<lambda>r. map (\<lambda>t. (r, t)) (filter (\<lambda>t. ct_id t = rs_template r) (templates db)))
       (filter (\<lambda>r. rs_universe r = world_id \<and> rs_runtime r \<noteq> None) (residents db)))"

definition select_ai_feed_author :: "string \<Rightarrow> world_db \<Rightarrow> feed_author option" where
  "select_ai_feed_author world_id db =
     map_option (\<lambda>(r, t). author_of db r t)
       (first_by (\<lambda>(r, t). (desc_nulls_last (app_activity db r), desc_nulls_last (rs_joined r), rs_id r))
         (filter (\<lambda>(r, t). rs_status r = ''active'') (feed_authors world_id db)))"

definition get_ai_feed_author :: "string \<Rightarrow> string option \<Rightarrow> bool \<Rightarrow> world_db \<Rightarrow> feed_author option" where
  "get_ai_feed_author world_id resident_id require_active db =
     map_option (\<lambda>(r, t). author_of db r t)
       (find_row (\<lambda>(r, t). Some (rs_id r) = resident_id \<and> (require_active \<longrightarrow> rs_status r = ''active''))
         (feed_authors world_id db))"

section \<open>A batch of posts\<close>

record feed_ids =
  fd_post :: string
  fd_token :: string
  fd_outbox :: string

record feed_request =
  fq_world :: string
  fq_resident :: string
  fq_name :: string
  fq_slot :: string
  fq_date :: string

record feed_config =
  fc_batch :: int
  fc_lease :: int
  fc_attempts :: int
  fc_base :: int

record feed_result =
  fr_world :: string
  fr_status :: string
  fr_post :: "string option"
  fr_error :: "string option"
  fr_retry :: "string option"

definition plain_result :: "string \<Rightarrow> string \<Rightarrow> feed_result" where
  "plain_result world_id status =
     \<lparr>fr_world = world_id, fr_status = status, fr_post = None, fr_error = None, fr_retry = None\<rparr>"

definition backoff :: "int \<Rightarrow> int \<Rightarrow> int" where
  "backoff base attempts = max 1 base * 2 ^ nat (max (attempts - 1) 0)"

definition feed_payload :: "string \<Rightarrow> string \<Rightarrow> int \<Rightarrow> dict" where
  "feed_payload post_id world_id at = [(''v'', JInt 1), (''post_id'', JStr post_id), (''universe_id'', JStr world_id),
     (''source_type'', JStr ''ai_feed''), (''published_at'', JInt at)]"

text \<open>After the claim: the author is read again, the text generated outside any transaction, the post published.\<close>

definition publish_generated ::
  "feed_ids \<Rightarrow> int \<Rightarrow> int \<Rightarrow> string \<Rightarrow> string \<Rightarrow> string \<Rightarrow> world_db \<Rightarrow> feed_result res \<times> world_db" where
  "publish_generated ids now clock world_id post_id content db =
     (case run_tx (publish_ai_feed_post_with_outbox (fd_outbox ids) post_id (fd_token ids) content (db_time now)
         (published_key post_id) (feed_payload post_id world_id (db_time now))) db of
        (Inl (ValueError reason), db1) \<Rightarrow>
          (if reason \<in> set [''author is not active'', ''slot window closed'']
           then (Inr (plain_result world_id reason), snd (skip_ai_feed_post post_id
              (if reason = ''author is not active'' then ''author_inactive'' else ''window_closed'')
              (Some (fd_token ids)) clock db1))
           else (Inl (ValueError reason), db1))
      | (Inl e, db1) \<Rightarrow> (Inl e, db1)
      | (Inr _, db1) \<Rightarrow> (Inr ((plain_result world_id ''published'')\<lparr>fr_post := Some post_id\<rparr>), db1))"

definition generate_claimed ::
  "(feed_request \<Rightarrow> string + string) \<Rightarrow> feed_ids \<Rightarrow> feed_config \<Rightarrow> int \<Rightarrow> int \<Rightarrow> feed_slot \<Rightarrow> string \<Rightarrow> world_post \<Rightarrow>
     world_db \<Rightarrow> feed_result res \<times> world_db" where
  "generate_claimed generator ids cfg now clock slot world_id post db =
     (case get_ai_feed_author world_id (wp_resident post) True db of
        None \<Rightarrow> (Inr (plain_result world_id ''author_inactive''),
          snd (skip_ai_feed_post (wp_id post) ''author_inactive'' (Some (fd_token ids)) clock db))
      | Some author \<Rightarrow>
          (case generator \<lparr>fq_world = world_id, fq_resident = au_resident author, fq_name = au_name author,
              fq_slot = fs_name slot, fq_date = fs_date slot\<rparr> of
             Inl msg \<Rightarrow>
               (case defer_ai_feed_post (wp_id post) (fd_token ids)
                   (db_time (now + backoff (fc_base cfg) (max 1 (wp_attempts post)) * 1000000)) (fc_attempts cfg) clock db of
                  (left, db1) \<Rightarrow> (Inr ((plain_result world_id ''generation_failed'')
                    \<lparr>fr_error := Some (take 200 msg),
                     fr_retry := Some (case left of None \<Rightarrow> ''unknown'' | Some p \<Rightarrow> wp_status p)\<rparr>), db1))
           | Inr generated \<Rightarrow>
               (let content = py_strip generated in
                if content = [] \<or> 2000 < int (length content)
                then (Inr (plain_result world_id ''invalid_content''),
                  snd (skip_ai_feed_post (wp_id post) ''invalid_generated_content'' (Some (fd_token ids)) clock db))
                else publish_generated ids now clock world_id (wp_id post) content db)))"

definition feed_world ::
  "(feed_request \<Rightarrow> string + string) \<Rightarrow> feed_ids \<Rightarrow> feed_config \<Rightarrow> int \<Rightarrow> int \<Rightarrow> feed_slot \<Rightarrow> string \<Rightarrow>
     world_db \<Rightarrow> feed_result res \<times> world_db" where
  "feed_world generator ids cfg now clock slot world_id db =
     (case select_ai_feed_author world_id db of
        None \<Rightarrow> (Inr (plain_result world_id ''no_author''), db)
      | Some author \<Rightarrow>
          (case run_tx (claim_ai_feed_slot (fd_post ids) world_id (au_resident author) (fs_date slot) (fs_name slot)
              (db_time (fs_end slot)) (fd_token ids) (db_time now) None
              (Some (db_time (now - max 1 (fc_lease cfg) * 1000000), fc_attempts cfg))) db of
             (Inl e, db1) \<Rightarrow> (Inl e, db1)
           | (Inr (Some post, True), db1) \<Rightarrow> generate_claimed generator ids cfg now clock slot world_id post db1
           | (Inr _, db1) \<Rightarrow> (Inr (plain_result world_id ''already_claimed''), db1)))"

fun feed_worlds ::
  "(feed_request \<Rightarrow> string + string) \<Rightarrow> (nat \<Rightarrow> feed_ids) \<Rightarrow> feed_config \<Rightarrow> int \<Rightarrow> (nat \<Rightarrow> int) \<Rightarrow> feed_slot \<Rightarrow>
     string list \<Rightarrow> world_db \<Rightarrow> feed_result list res \<times> world_db" where
  "feed_worlds generator ids cfg now clock slot [] db = (Inr [], db)"
| "feed_worlds generator ids cfg now clock slot (w # ws) db =
     (case feed_world generator (ids (length ws)) cfg now (clock (length ws)) slot w db of
        (Inl e, db1) \<Rightarrow> (Inl e, db1)
      | (Inr r, db1) \<Rightarrow> (case feed_worlds generator ids cfg now clock slot ws db1 of
          (Inl e, db2) \<Rightarrow> (Inl e, db2)
        | (Inr rs, db2) \<Rightarrow> (Inr (r # rs), db2)))"

record feed_batch =
  fb_status :: string
  fb_closed :: int
  fb_scanned :: nat
  fb_published :: nat
  fb_next :: "string option"
  fb_results :: "feed_result list"

definition generate_ai_feed_batch ::
  "(feed_request \<Rightarrow> string + string) \<Rightarrow> (nat \<Rightarrow> feed_ids) \<Rightarrow> feed_config \<Rightarrow> feed_windows \<Rightarrow> int \<Rightarrow> (nat \<Rightarrow> int) \<Rightarrow>
     string option \<Rightarrow> world_db \<Rightarrow> feed_batch res \<times> world_db" where
  "generate_ai_feed_batch generator ids cfg windows now clock after_id db =
     (case close_expired_ai_feed_slots (db_time now) (fc_batch cfg) db of (closed, db1) \<Rightarrow>
       (case resolve_slot windows now of
          None \<Rightarrow> (Inr \<lparr>fb_status = ''outside_window'', fb_closed = closed, fb_scanned = 0, fb_published = 0,
            fb_next = None, fb_results = []\<rparr>, db1)
        | Some slot \<Rightarrow>
            (let worlds = list_ai_feed_eligible_worlds (db_time (now - days 7)) after_id (fc_batch cfg) db1
             in case feed_worlds generator ids cfg now clock slot worlds db1 of
               (Inl e, db2) \<Rightarrow> (Inl e, db2)
             | (Inr rs, db2) \<Rightarrow> (Inr \<lparr>fb_status = ''ok'', fb_closed = closed, fb_scanned = length worlds,
                 fb_published = count_where (\<lambda>r. fr_status r = ''published'') rs,
                 fb_next = (if max 1 (fc_batch cfg) \<le> int (length worlds) then Some (last worlds) else None),
                 fb_results = rs\<rparr>, db2))))"

section \<open>A batch of events\<close>

record delivery =
  dl_delivered :: nat
  dl_failed :: nat
  dl_dead :: nat

text \<open>\<open>publisher\<close> answers the message of its exception; \<open>handed\<close> collects the keys it was called with.\<close>

fun deliver_rows ::
  "(outbox_row \<Rightarrow> string option) \<Rightarrow> string \<Rightarrow> int \<Rightarrow> int \<Rightarrow> int \<Rightarrow> outbox_row list \<Rightarrow> delivery \<Rightarrow> world_db \<Rightarrow>
     (delivery \<times> string list) \<times> world_db" where
  "deliver_rows publisher token now max_attempts base [] d db = ((d, []), db)"
| "deliver_rows publisher token now max_attempts base (x # xs) d db =
     (case (case publisher x of
          None \<Rightarrow> (case complete_companion_world_outbox (ob_id x) token (db_time now) db of (y, db1) \<Rightarrow>
            (if map_option ob_status y = Some ''delivered'' then d\<lparr>dl_delivered := dl_delivered d + 1\<rparr> else d, db1))
        | Some error \<Rightarrow>
            (case fail_companion_world_outbox (ob_id x) token error
                (db_time (now + backoff base (max 1 (ob_attempts x)) * 1000000)) max_attempts db of (y, db1) \<Rightarrow>
              (let d1 = d\<lparr>dl_failed := dl_failed d + 1\<rparr>
               in (if map_option ob_status y = Some ''dead'' then d1\<lparr>dl_dead := dl_dead d1 + 1\<rparr> else d1, db1)))) of
        (d1, db1) \<Rightarrow> (case deliver_rows publisher token now max_attempts base xs d1 db1 of
          ((d2, ks), db2) \<Rightarrow> ((d2, ob_key x # ks), db2)))"

definition dispatch_world_outbox_batch ::
  "(outbox_row \<Rightarrow> string option) \<Rightarrow> string \<Rightarrow> int \<Rightarrow> int \<Rightarrow> int \<Rightarrow> int \<Rightarrow> int \<Rightarrow> world_db \<Rightarrow>
     (nat \<times> delivery \<times> string list \<times> ((string \<times> int) list \<times> int)) \<times> world_db" where
  "dispatch_world_outbox_batch publisher token batch_size lease max_attempts base now db =
     (case claim_companion_world_outbox batch_size (db_time now) token
         (Some (db_time (now - max 1 lease * 1000000))) db of (rows, db1) \<Rightarrow>
       (case deliver_rows publisher token now max_attempts base rows \<lparr>dl_delivered = 0, dl_failed = 0, dl_dead = 0\<rparr> db1 of
         ((d, ks), db2) \<Rightarrow> ((length rows, d, ks, get_companion_world_outbox_metrics (db_time now) db2), db2)))"

section \<open>The posts of users\<close>

definition id_char :: "char \<Rightarrow> bool" where
  "id_char c = (let n = (of_char c :: int) in
     65 \<le> n \<and> n \<le> 90 \<or> 97 \<le> n \<and> n \<le> 122 \<or> 48 \<le> n \<and> n \<le> 57 \<or> n = 95 \<or> n = 45)"

definition id_text :: "nat \<Rightarrow> string \<Rightarrow> bool" where
  "id_text least s = (least \<le> length s \<and> length s \<le> 128 \<and> list_all id_char s)"

definition MAX_FEED_POST_IMAGES :: nat where "MAX_FEED_POST_IMAGES = 4"
definition MAX_FEED_TEXT_CODEPOINTS :: int where "MAX_FEED_TEXT_CODEPOINTS = 2000"

definition user_post_fingerprint :: "(string \<Rightarrow> string) \<Rightarrow> string \<Rightarrow> string list \<Rightarrow> string" where
  "user_post_fingerprint sha text media_ids = sha (json_dumps (JDict (if media_ids = []
     then [(''v'', JInt 1), (''text'', JStr text)]
     else [(''v'', JInt 2), (''text'', JStr text), (''media_ids'', JList (map JStr media_ids))])))"

text \<open>The adapter translates the codes of the persistence layer that are frozen for clients.\<close>

definition as_domain_error :: "string list \<Rightarrow> 'x res \<Rightarrow> 'x res" where
  "as_domain_error codes m = (case m of
     Inl (ValueError c) \<Rightarrow> if c \<in> set codes then Inl (DomainError c) else Inl (ValueError c) | x \<Rightarrow> x)"

definition publish_user_post ::
  "(string \<Rightarrow> string) \<Rightarrow> home_ids \<Rightarrow> bool \<Rightarrow> string \<Rightarrow> string \<Rightarrow> string \<Rightarrow> int \<Rightarrow> string list \<Rightarrow> world_db \<Rightarrow>
     ((feed_post \<times> bool) \<times> world_db) res" where
  "publish_user_post sha ids review user request text now media_ids db =
     (let rq = py_strip request; content = py_strip text; media = map py_strip media_ids in
      if \<not> id_text 8 rq then Inl (DomainError ''invalid_request'')
      else if [] \<in> set media then Inl (DomainError ''media_ref_invalid'')
      else if \<not> distinct media then Inl (DomainError ''media_ref_invalid'')
      else if MAX_FEED_POST_IMAGES < length media then Inl (DomainError ''media_count_exceeded'')
      else if MAX_FEED_TEXT_CODEPOINTS < int (length content) then Inl (DomainError ''invalid_request'')
      else if content = [] \<and> media = [] then Inl (DomainError ''media_content_required'')
      else as_domain_error [''world_not_ready'', ''world_disabled'', ''idempotency_conflict'', ''media_ref_invalid'']
        (publish_user_feed_post_with_outbox ids review user rq content (user_post_fingerprint sha content media) now
          media db))"

definition list_published_posts ::
  "string \<Rightarrow> int option \<Rightarrow> string option \<Rightarrow> int \<Rightarrow> world_db \<Rightarrow> feed_post list res" where
  "list_published_posts user cursor_at cursor_id limit db =
     (if limit < 1 \<or> 51 < limit then Inl (DomainError ''invalid_request'')
      else as_domain_error [''world_not_ready'', ''world_disabled'', ''invalid_cursor'']
        (list_published_feed_posts_for_owner user cursor_at cursor_id limit db))"

definition retire_post ::
  "string \<Rightarrow> string \<Rightarrow> string \<Rightarrow> string \<Rightarrow> int \<Rightarrow> world_db \<Rightarrow> ((feed_post \<times> bool) \<times> world_db) res" where
  "retire_post outbox_id user post_id mode now db =
     (let i = py_strip post_id; rule = py_strip mode;
          retire = (\<lambda>reason author forbidden. as_domain_error [''post_not_found'', ''post_not_hideable'']
            (retire_feed_post_with_outbox outbox_id user i reason now (Some author) forbidden db))
      in if \<not> id_text 1 i then Inl (DomainError ''post_not_found'')
         else if rule = ''delete'' then retire ''owner_deleted'' ''human'' []
         else if rule = ''hide'' then retire ''owner_hidden'' ''resident'' [''farewell'']
         else Inl (DomainError ''invalid_request''))"

end
