(* ===== verification/World_Outbox.thy ===== *)
theory World_Outbox
imports World_Home_Laws World_Feed
begin

text \<open>
  The transactional outbox: in every state each post that was shown has its event, each withdrawn
  post has its withdrawal, and each event names a post of its world. \<open>fed\<close> is what every operation
  does to posts and events: it keeps that, and moves rows forward only.
\<close>

section \<open>The invariant\<close>

abbreviation published_type :: string where "published_type \<equiv> ''universe_post.published.v1''"
abbreviation deleted_type :: string where "deleted_type \<equiv> ''universe_post.deleted.v1''"

text \<open>The shape of an event: its key decides its type, its payload names its post.\<close>

definition event_ok :: "outbox_row \<Rightarrow> bool" where
  "event_ok x = (map_of (ob_payload x) ''post_id'' = Some (JStr (ob_post x)) \<and>
     (if ob_key x = published_key (ob_post x) \<or> starts_with ''departure-farewell:v1:'' (ob_key x)
      then ob_type x = published_type
      else (ob_key x = deleted_key (ob_post x) \<or> starts_with ''departure-farewell-hidden:v1:'' (ob_key x)) \<and>
        ob_type x = deleted_type))"

definition has_event :: "string \<Rightarrow> string \<Rightarrow> world_db \<Rightarrow> bool" where
  "has_event typ post_id db = list_ex (\<lambda>x. ob_post x = post_id \<and> ob_type x = typ) (outbox db)"

text \<open>The events a post needs; a post that was shown needs one, a withdrawn post two.\<close>

definition needs :: "world_post \<Rightarrow> string list" where
  "needs p = (if wp_status p = ''published'' then [published_type]
     else if wp_status p = ''deleted'' then [published_type, deleted_type] else [])"

definition announced :: "world_db \<Rightarrow> world_post \<Rightarrow> bool" where
  "announced db p = list_all (\<lambda>t. has_event t (wp_id p) db) (needs p)"

definition post_status_ok :: "world_post \<Rightarrow> bool" where
  "post_status_ok p = (wp_status p \<in> set [''generating'', ''published'', ''skipped'', ''deleted''])"

definition posts_ok :: "world_post list \<Rightarrow> bool" where
  "posts_ok ps = (unique_on (\<lambda>_. True) wp_id ps \<and> list_all post_status_ok ps \<and>
     unique_on (\<lambda>p. wp_source_type p = ''ai_feed'') (\<lambda>p. (wp_world p, wp_date p, wp_slot p)) ps)"

definition names_post :: "world_db \<Rightarrow> outbox_row \<Rightarrow> bool" where
  "names_post db x = list_ex (\<lambda>p. wp_id p = ob_post x \<and> wp_world p = ob_world x) (world_posts db)"

definition events_ok :: "world_db \<Rightarrow> bool" where
  "events_ok db = (unique_on (\<lambda>_. True) ob_id (outbox db) \<and> unique_on (\<lambda>_. True) ob_key (outbox db) \<and>
     list_all event_ok (outbox db) \<and> list_all (names_post db) (outbox db))"

definition feed_ok :: "world_db \<Rightarrow> bool" where
  "feed_ok db = (posts_ok (world_posts db) \<and> events_ok db \<and> list_all (announced db) (world_posts db))"

text \<open>The life of a post and of an event.\<close>

definition post_stage :: "world_post \<Rightarrow> nat" where
  "post_stage p = (if wp_status p = ''generating'' then 0 else if wp_status p = ''published'' then 1 else 2)"

definition same_post :: "world_post \<Rightarrow> world_post \<Rightarrow> bool" where
  "same_post p q = (wp_id q = wp_id p \<and> wp_world q = wp_world p \<and> wp_source_type q = wp_source_type p \<and>
     wp_date q = wp_date p \<and> wp_slot q = wp_slot p)"

definition post_moved :: "world_post \<Rightarrow> world_post \<Rightarrow> bool" where
  "post_moved p q = (q = p \<or> same_post p q \<and> post_status_ok q \<and> post_stage p < 2 \<and>
     (wp_status q = wp_status p \<or> post_stage p < post_stage q))"

definition event_stage :: "outbox_row \<Rightarrow> nat" where
  "event_stage x = (if ob_status x \<in> set [''delivered'', ''dead''] then 1 else 0)"

definition same_event :: "outbox_row \<Rightarrow> outbox_row \<Rightarrow> bool" where
  "same_event x y = (ob_id y = ob_id x \<and> ob_world y = ob_world x \<and> ob_post y = ob_post x \<and> ob_type y = ob_type x \<and>
     ob_key y = ob_key x \<and> ob_payload y = ob_payload x \<and> ob_created y = ob_created x)"

definition event_moved :: "outbox_row \<Rightarrow> outbox_row \<Rightarrow> bool" where
  "event_moved x y = (y = x \<or> same_event x y \<and> event_stage x = 0)"

definition grows :: "world_db \<Rightarrow> world_db \<Rightarrow> bool" where
  "grows db db' = ((\<forall>p \<in> set (world_posts db). \<exists>q \<in> set (world_posts db'). post_moved p q) \<and>
     (\<forall>x \<in> set (outbox db). \<exists>y \<in> set (outbox db'). event_moved x y))"

definition fed :: "world_db \<Rightarrow> world_db \<Rightarrow> bool" where
  "fed db db' = (grows db db' \<and> (feed_ok db \<longrightarrow> feed_ok db'))"

lemma post_moved_refl [simp]: "post_moved p p"
  by (simp add: post_moved_def)

lemma event_moved_refl [simp]: "event_moved x x"
  by (simp add: event_moved_def)

lemma post_moved_trans: "post_moved a b \<Longrightarrow> post_moved b c \<Longrightarrow> post_moved a c"
  by (auto simp: post_moved_def same_post_def post_stage_def split: if_splits)

lemma event_moved_trans: "event_moved a b \<Longrightarrow> event_moved b c \<Longrightarrow> event_moved a c"
  by (auto simp: event_moved_def same_event_def)

lemma grows_refl [simp]: "grows db db"
  unfolding grows_def using post_moved_refl event_moved_refl by blast

lemma grows_trans: "grows a b \<Longrightarrow> grows b c \<Longrightarrow> grows a c"
  unfolding grows_def by (meson post_moved_trans event_moved_trans)

lemma fed_refl [simp]: "fed db db"
  by (simp add: fed_def)

lemma fed_trans: "fed a b \<Longrightarrow> fed b c \<Longrightarrow> fed a c"
  unfolding fed_def using grows_trans by blast

section \<open>Frames\<close>

definition same_feed :: "world_db \<Rightarrow> world_db \<Rightarrow> bool" where
  "same_feed db db' = (world_posts db' = world_posts db \<and> outbox db' = outbox db)"

lemma same_feed_refl [simp]: "same_feed db db"
  by (simp add: same_feed_def)

lemma same_feed_trans: "same_feed a b \<Longrightarrow> same_feed b c \<Longrightarrow> same_feed a c"
  by (simp add: same_feed_def)

lemma announced_cong: "outbox db' = outbox db \<Longrightarrow> announced db' = announced db"
  by (simp add: announced_def has_event_def fun_eq_iff)

lemma names_post_cong: "world_posts db' = world_posts db \<Longrightarrow> names_post db' = names_post db"
  by (simp add: names_post_def fun_eq_iff)

lemma same_feed_fed: "same_feed db db' \<Longrightarrow> fed db db'"
proof -
  assume s: "same_feed db db'"
  then have "announced db' = announced db" "names_post db' = names_post db"
    by (simp_all add: same_feed_def announced_cong [of db' db] names_post_cong [of db' db])
  moreover have "grows db db'"
    using s post_moved_refl event_moved_refl unfolding grows_def same_feed_def by metis
  ultimately show ?thesis using s by (simp add: fed_def feed_ok_def events_ok_def same_feed_def)
qed

lemma universe_same: "get_or_create_home_universe ids user app db = Inr (u, db') \<Longrightarrow> same_feed db db'"
  by (auto simp: get_or_create_home_universe_def Let_def and_then_Inr same_feed_def split: if_splits option.splits)

lemma onboarding_same: "set_universe_onboarding_state w s db = Inr (u, db') \<Longrightarrow> same_feed db db'"
  by (auto simp: set_universe_onboarding_state_def Let_def same_feed_def split: option.splits)

lemma custom_template_same: "create_custom_template ids ow d db = Inr (t, db') \<Longrightarrow> same_feed db db'"
  by (auto simp: create_custom_template_def Let_def same_feed_def split: if_splits)

lemma candidate_same: "get_or_create_candidate_resident ids now w t origin name naming db = Inr (r, db') \<Longrightarrow> same_feed db db'"
  by (auto simp: get_or_create_candidate_resident_def Let_def same_feed_def split: if_splits option.splits)

lemma ensure_same: "ensure_candidate ids now w t origin name naming db = Inr (c, db') \<Longrightarrow> same_feed db db'"
  by (auto simp: ensure_candidate_def and_then_Inr split: option.splits dest: candidate_same)

lemma ensure_all_same: "ensure_candidates digest ids now w ts db = Inr db' \<Longrightarrow> same_feed db db'"
  by (induction ts arbitrary: db) (auto simp: and_then_Inr dest!: ensure_same intro: same_feed_trans)

lemma dismiss_same: "same_feed db (dismiss_unselected_candidate_residents now w sel db)"
  by (simp add: dismiss_unselected_candidate_residents_def same_feed_def)

lemma seed_file_same: "same_feed db (seed_file acc name seed db)"
  by (auto simp: seed_file_def write_file_def Let_def same_feed_def split: option.split)

lemma runtime_same: "insert_resident_runtime_account reg ids user name prompt soul identity app db = Inr (a, db') \<Longrightarrow> same_feed db db'"
  by (auto simp: insert_resident_runtime_account_def and_then_Inr Let_def split: option.splits if_splits
      dest!: account_row_frame intro!: same_feed_trans [OF _ seed_file_same] simp: same_feed_def [of _ "_\<lparr>profiles := _\<rparr>"])

lemma activation_same: "activate_candidate_resident now w rid runtime db = Inr (x, db') \<Longrightarrow> same_feed db db'"
  by (auto simp: activate_candidate_resident_def Let_def same_feed_def split: if_splits)

lemma conversation_same: "create_ai_conversation ids now w rid owner runtime db = Inr (x, db') \<Longrightarrow> same_feed db db'"
  by (auto simp: create_ai_conversation_def and_then_Inr same_feed_def split: if_splits option.splits)

lemma bring_to_life_same: "bring_to_life reg ids now c owner name parts db = Inr db' \<Longrightarrow> same_feed db db'"
  by (auto simp: bring_to_life_def and_then_Inr Let_def split: if_splits
      dest!: runtime_same activation_same conversation_same) (blast intro: same_feed_trans)

lemma activate_same:
  "activate_candidate_with_runtime reg ids now c owner name db = Inr (r, db') \<Longrightarrow> same_feed db db'"
  "activate_world_candidate reg ids now c owner name db = Inr (r, db') \<Longrightarrow> same_feed db db'"
  by (auto simp: activate_candidate_with_runtime_def activate_world_candidate_def and_then_Inr split: if_splits
      dest: bring_to_life_same)

lemma welcome_same:
  "res_all (\<lambda>r. same_feed db (snd r)) (insert_resident_welcome_message ids now runtime rid txt db)"
  unfolding insert_resident_welcome_message_def insert_message_def Let_def
  by (intro res_all_rules) (auto simp: same_feed_def split: if_splits)

section \<open>Writing a post, then its event\<close>

text \<open>
  Between the two writes of a transaction the event of one post may be missing: \<open>feed_but i typ\<close>
  is the invariant but for the event \<open>typ\<close> of the post \<open>i\<close>.
\<close>

definition announced_but :: "string \<Rightarrow> string \<Rightarrow> world_db \<Rightarrow> world_post \<Rightarrow> bool" where
  "announced_but i typ db p = (\<forall>t \<in> set (needs p). has_event t (wp_id p) db \<or> wp_id p = i \<and> t = typ)"

definition feed_but :: "string \<Rightarrow> string \<Rightarrow> world_db \<Rightarrow> bool" where
  "feed_but i typ db = (posts_ok (world_posts db) \<and> events_ok db \<and> (\<forall>p \<in> set (world_posts db). announced_but i typ db p))"

lemma feed_ok_but: "feed_ok db \<Longrightarrow> feed_but i typ db"
  by (auto simp: feed_ok_def feed_but_def announced_def announced_but_def list_all_iff)

text \<open>The updates of posts.\<close>

definition moves :: "string \<Rightarrow> string \<Rightarrow> (world_post \<Rightarrow> bool) \<Rightarrow> (world_post \<Rightarrow> world_post) \<Rightarrow> bool" where
  "moves i typ q f = (\<forall>p. q p \<longrightarrow> post_moved p (f p) \<and> same_post p (f p) \<and> post_status_ok (f p) \<and>
     (\<forall>t \<in> set (needs (f p)). t \<in> set (needs p) \<or> wp_id p = i \<and> t = typ))"

lemma update_posts_ok:
  assumes "posts_ok ps" and "moves i typ q f"
  shows "posts_ok (update_where q f ps)"
proof -
  have s: "same_post p (f p)" "post_status_ok (f p)" if "q p" for p using assms(2) that by (auto simp: moves_def)
  let ?f = "\<lambda>p. if q p then f p else p"
  have e: "wp_id (?f p) = wp_id p" "wp_source_type (?f p) = wp_source_type p"
      "(wp_world (?f p), wp_date (?f p), wp_slot (?f p)) = (wp_world p, wp_date p, wp_slot p)" for p
    using s by (auto simp: same_post_def)
  have "filter (\<lambda>p. wp_source_type p = ''ai_feed'') (map ?f ps) = map ?f (filter (\<lambda>p. wp_source_type p = ''ai_feed'') ps)"
    by (simp add: filter_map o_def e(2))
  then show ?thesis
    using assms(1) s(2) unfolding posts_ok_def unique_on_def update_where_def
    by (simp add: o_def e(1,3) list_all_iff del: set_map) auto
qed

lemma update_names: "moves i typ q f \<Longrightarrow> outbox db' = outbox db \<Longrightarrow> world_posts db' = update_where q f (world_posts db) \<Longrightarrow>
    events_ok db' = events_ok db"
proof -
  assume m: "moves i typ q f" and o: "outbox db' = outbox db" and p: "world_posts db' = update_where q f (world_posts db)"
  have "wp_id (if q r then f r else r) = wp_id r" "wp_world (if q r then f r else r) = wp_world r" for r
    using m by (auto simp: moves_def same_post_def)
  moreover have "list_ex P (map g xs) = list_ex (\<lambda>r. P (g r)) xs" for P and g :: "world_post \<Rightarrow> world_post" and xs
    by (induction xs) auto
  ultimately have "names_post db' x = names_post db x" for x
    by (simp add: names_post_def p update_where_def)
  then have "names_post db' = names_post db" by blast
  then show ?thesis by (simp add: events_ok_def o)
qed

lemma update_fed:
  assumes m: "moves i typ q f" and o: "outbox db' = outbox db" and p: "world_posts db' = update_where q f (world_posts db)"
  shows "grows db db'" and "feed_ok db \<Longrightarrow> feed_but i typ db'"
proof -
  show "grows db db'"
    unfolding grows_def o p set_update_where
  proof (intro conjI ballI)
    fix x assume "x \<in> set (world_posts db)"
    then show "\<exists>y \<in> (\<lambda>r. if q r then f r else r) ` set (world_posts db). post_moved x y"
      using m by (intro bexI [of _ "if q x then f x else x"]) (auto simp: moves_def)
  qed (auto intro: event_moved_refl)
  assume ok: "feed_ok db"
  have "announced_but i typ db' y" if y: "y \<in> set (world_posts db')" for y
  proof -
    from y obtain x where x: "x \<in> set (world_posts db)" "y = (if q x then f x else x)"
      unfolding p set_update_where by blast
    have ax: "\<forall>t \<in> set (needs x). has_event t (wp_id x) db"
      using ok x(1) by (auto simp: feed_ok_def announced_def list_all_iff)
    show ?thesis
    proof (cases "q x")
      case True
      with x(2) have yx: "y = f x" by simp
      have w: "wp_id (f x) = wp_id x" using m True by (auto simp: moves_def same_post_def)
      show ?thesis unfolding announced_but_def yx w
      proof
        fix t assume "t \<in> set (needs (f x))"
        then have "t \<in> set (needs x) \<or> wp_id x = i \<and> t = typ" using m True by (auto simp: moves_def)
        then show "has_event t (wp_id x) db' \<or> wp_id x = i \<and> t = typ" using ax by (auto simp: has_event_def o)
      qed
    next
      case False
      then show ?thesis using x(2) ax by (simp add: announced_but_def has_event_def o)
    qed
  qed
  moreover have "posts_ok (world_posts db')" "events_ok db'"
    using ok update_posts_ok [OF _ m] update_names [OF m o p] by (simp_all add: feed_ok_def p)
  ultimately show "feed_but i typ db'" by (simp add: feed_but_def)
qed

text \<open>A new post, if the indexes have room for it.\<close>

definition new_post_ok :: "world_post \<Rightarrow> bool" where
  "new_post_ok p = (wp_status p \<in> set [''generating'', ''published''] \<and>
     (wp_source_type p = ''ai_feed'' \<longrightarrow> wp_date p \<noteq> None \<and> wp_slot p \<noteq> None))"

lemma snoc_post_fed:
  assumes n: "new_post_ok p" and o: "outbox db' = outbox db" and ps: "world_posts db' = world_posts db @ [p]"
    and fresh: "\<And>q. q \<in> set (world_posts db) \<Longrightarrow> wp_id q \<noteq> wp_id p"
    and slot: "\<And>q. q \<in> set (world_posts db) \<Longrightarrow> wp_source_type p = ''ai_feed'' \<Longrightarrow> wp_source_type q = ''ai_feed'' \<Longrightarrow>
      (wp_world q, wp_date q, wp_slot q) \<noteq> (wp_world p, wp_date p, wp_slot p)"
  shows "grows db db'" and "feed_ok db \<Longrightarrow> feed_but (wp_id p) published_type db'"
proof -
  show "grows db db'" unfolding grows_def o ps by (auto intro: post_moved_refl event_moved_refl)
  assume ok: "feed_ok db"
  have "posts_ok (world_posts db')"
    using ok n fresh slot by (auto simp: ps feed_ok_def posts_ok_def unique_on_snoc new_post_ok_def post_status_ok_def)
  moreover have "names_post db' x" if "names_post db x" for x using that by (auto simp: names_post_def ps)
  then have "events_ok db'" using ok by (auto simp: feed_ok_def events_ok_def o list_all_iff)
  moreover have "announced_but (wp_id p) published_type db' q" if q: "q \<in> set (world_posts db')" for q
  proof -
    from q consider "q \<in> set (world_posts db)" | "q = p" by (auto simp: ps)
    then show ?thesis
    proof cases
      case 1
      then show ?thesis using ok by (auto simp: feed_ok_def announced_def announced_but_def list_all_iff has_event_def o)
    next
      case 2
      then show ?thesis using n by (auto simp: announced_but_def needs_def new_post_ok_def split: if_splits)
    qed
  qed
  ultimately show "feed_but (wp_id p) published_type db'" by (simp add: feed_but_def)
qed

lemma add_post_fed:
  assumes n: "new_post_ok p"
  shows "grows db (add_post p db)" and "feed_ok db \<Longrightarrow> feed_but (wp_id p) published_type (add_post p db)"
proof -
  show "grows db (add_post p db)"
  proof (cases "list_ex (post_conflict p) (world_posts db)")
    case False
    show ?thesis
      by (rule snoc_post_fed(1) [OF n]) (use False n in \<open>auto simp: add_post_def list_ex_iff post_conflict_def new_post_ok_def\<close>)
  qed (simp add: add_post_def)
  assume ok: "feed_ok db"
  show "feed_but (wp_id p) published_type (add_post p db)"
  proof (cases "list_ex (post_conflict p) (world_posts db)")
    case False
    show ?thesis
      by (rule snoc_post_fed(2) [OF n _ _ _ _ ok]) (use False n in \<open>auto simp: add_post_def list_ex_iff post_conflict_def new_post_ok_def\<close>)
  next
    case True
    then show ?thesis using feed_ok_but [OF ok] by (simp add: add_post_def)
  qed
qed

text \<open>The event of the transaction: inserted, or found under its key.\<close>

lemma emit:
  assumes "insert_outbox o1 db = Inr (x, db')" and "ob_post o1 = i" and "ob_type o1 = typ" and "event_ok o1"
    and "names_post db o1" and fits: "\<And>y. x = Some y \<Longrightarrow> event_ok y \<Longrightarrow> ob_key y = ob_key o1 \<Longrightarrow> ob_post y = i \<and> ob_type y = typ"
  shows "grows db db'" and "feed_but i typ db \<Longrightarrow> feed_ok db'"
proof -
  from assms(1) consider (old) y where "db' = db" "x = Some y" "y \<in> set (outbox db)" "ob_key y = ob_key o1"
    | (new) "db' = db\<lparr>outbox := outbox db @ [o1]\<rparr>" "ob_key o1 \<notin> ob_key ` set (outbox db)" "ob_id o1 \<notin> ob_id ` set (outbox db)"
  proof (cases "ob_key o1 \<in> ob_key ` set (outbox db)")
    case True
    then obtain r where r: "r \<in> set (outbox db)" "ob_key r = ob_key o1" by auto
    from True assms(1) have e: "db' = db" "x = find_row (\<lambda>y. ob_key y = ob_key o1) (outbox db)"
      by (auto simp: insert_outbox_def)
    obtain y where y: "find_row (\<lambda>y. ob_key y = ob_key o1) (outbox db) = Some y" using find_row_ex [of r _ "\<lambda>y. ob_key y = ob_key o1"] r by blast
    show ?thesis by (rule that(1) [OF e(1), of y]) (use find_row_Some [OF y] e(2) y in auto)
  next
    case False
    show ?thesis by (rule that(2)) (use False assms(1) in \<open>auto simp: insert_outbox_def split: if_splits\<close>)
  qed
  note c = this
  from c show "grows db db'"
    by cases (auto simp: grows_def intro: post_moved_refl event_moved_refl)
  assume ok: "feed_but i typ db"
  from c show "feed_ok db'"
  proof cases
    case old
    have "event_ok y" using ok old(3) by (auto simp: feed_but_def events_ok_def list_all_iff)
    then have "has_event typ i db" using fits [OF old(2) _ old(4)] old(3) by (auto simp: has_event_def list_ex_iff)
    then show ?thesis using ok
      by (auto simp: feed_ok_def feed_but_def announced_def announced_but_def list_all_iff old(1))
  next
    case new
    have "has_event t j db'" if "has_event t j db \<or> j = i \<and> t = typ" for t j
      using that assms(2,3) by (auto simp: has_event_def new(1))
    then have ann: "list_all (announced db') (world_posts db')"
      using ok by (auto simp: feed_but_def announced_def announced_but_def list_all_iff new(1))
    have "names_post db' = names_post db" by (rule names_post_cong) (simp add: new(1))
    moreover have "\<forall>y \<in> set (outbox db). ob_key y \<noteq> ob_key o1" "\<forall>y \<in> set (outbox db). ob_id y \<noteq> ob_id o1"
      using new(2,3) by (metis image_eqI)+
    ultimately have "events_ok db'"
      using ok assms(4,5) by (simp add: feed_but_def events_ok_def new(1) unique_on_snoc)
    then show ?thesis using ok ann by (simp add: feed_ok_def feed_but_def new(1))
  qed
qed

text \<open>The three kinds of keys.\<close>

lemma key_prefixes [simp]:
  "published_key i \<noteq> deleted_key j" "deleted_key j \<noteq> published_key i"
  "published_key i = published_key j \<longleftrightarrow> i = j" "deleted_key i = deleted_key j \<longleftrightarrow> i = j"
  "\<not> starts_with ''departure-farewell:v1:'' (published_key i)" "\<not> starts_with ''departure-farewell:v1:'' (deleted_key i)"
  "\<not> starts_with ''departure-farewell-hidden:v1:'' (published_key i)"
  "\<not> starts_with ''departure-farewell-hidden:v1:'' (deleted_key i)"
  "starts_with ''departure-farewell:v1:'' (''departure-farewell:v1:'' @ s)"
  "\<not> starts_with ''departure-farewell:v1:'' (''departure-farewell-hidden:v1:'' @ s)"
  "starts_with ''departure-farewell-hidden:v1:'' (''departure-farewell-hidden:v1:'' @ s)"
  by (simp_all add: published_key_def deleted_key_def starts_with_def)

lemma key_farewell [simp]:
  "published_key i \<noteq> ''departure-farewell-hidden:v1:'' @ s" "''departure-farewell-hidden:v1:'' @ s \<noteq> published_key i"
  "deleted_key i \<noteq> ''departure-farewell-hidden:v1:'' @ s" "''departure-farewell-hidden:v1:'' @ s \<noteq> deleted_key i"
  by (simp_all add: published_key_def deleted_key_def)

lemma emit_published:
  assumes "insert_outbox (outbox_pending oid w i published_type (published_key i) payload now) db = Inr (x, db')"
    and "map_of payload ''post_id'' = Some (JStr i)" and "p \<in> set (world_posts db)" and "wp_id p = i" and "wp_world p = w"
  shows "grows db db'" and "feed_but i published_type db \<Longrightarrow> feed_ok db'"
proof -
  have "names_post db (outbox_pending oid w i published_type (published_key i) payload now)"
    using assms(3-5) by (auto simp: names_post_def list_ex_iff outbox_pending_def)
  note e = emit [OF assms(1), of i published_type, OF _ _ _ this]
  show "grows db db'" "feed_but i published_type db \<Longrightarrow> feed_ok db'"
    using assms(2) by (auto intro!: e simp: outbox_pending_def event_ok_def split: if_splits)
qed

lemma emit_deleted:
  assumes "insert_outbox (outbox_pending oid w i deleted_type (deleted_key i) payload now) db = Inr (x, db')"
    and "map_of payload ''post_id'' = Some (JStr i)" and "p \<in> set (world_posts db)" and "wp_id p = i" and "wp_world p = w"
  shows "grows db db'" and "feed_but i deleted_type db \<Longrightarrow> feed_ok db'"
proof -
  have "names_post db (outbox_pending oid w i deleted_type (deleted_key i) payload now)"
    using assms(3-5) by (auto simp: names_post_def list_ex_iff outbox_pending_def)
  note e = emit [OF assms(1), of i deleted_type, OF _ _ _ this]
  show "grows db db'" "feed_but i deleted_type db \<Longrightarrow> feed_ok db'"
    using assms(2) by (auto intro!: e simp: outbox_pending_def event_ok_def split: if_splits)
qed

lemma fedI: "grows db db' \<Longrightarrow> (feed_ok db \<Longrightarrow> feed_ok db') \<Longrightarrow> fed db db'"
  by (simp add: fed_def)

text \<open>A post is written, then announced: what the two lemmas above give together.\<close>

lemma post_then_event:
  assumes "grows db db1" "feed_ok db \<Longrightarrow> feed_but i typ db1" "grows db1 db2" "feed_but i typ db1 \<Longrightarrow> feed_ok db2"
  shows "fed db db2"
  using assms grows_trans by (auto intro: fedI)

lemma but_ok:
  assumes "feed_but i typ db" and "\<And>p. p \<in> set (world_posts db) \<Longrightarrow> wp_id p = i \<Longrightarrow> typ \<notin> set (needs p)"
  shows "feed_ok db"
  using assms by (auto simp: feed_ok_def feed_but_def announced_def announced_but_def list_all_iff)

end
