(* ===== verification/World_Outbox_Laws.thy ===== *)
theory World_Outbox_Laws
imports World_Outbox World_Steps
begin

text \<open>
  Every operation of the worlds keeps the outbox transactional: the operations of the feed one by
  one, the departures and corrections, the home world, the deletion; then one step, and the life
  cycles of posts and events.
\<close>

section \<open>Slots\<close>

lemma movesI:
  assumes "\<And>p. q p \<Longrightarrow> same_post p (f p) \<and> post_status_ok (f p) \<and> post_stage p < 2 \<and>
    (wp_status (f p) = wp_status p \<or> post_stage p < post_stage (f p))"
    and "\<And>p. q p \<Longrightarrow> \<forall>t \<in> set (needs (f p)). t \<in> set (needs p) \<or> wp_id p = i \<and> t = typ"
  shows "moves i typ q f"
  using assms by (auto simp: moves_def post_moved_def)

text \<open>An update that needs no new event.\<close>

lemma quiet_update:
  assumes "moves [] [] q f" and "\<And>p. wp_id p = [] \<Longrightarrow> q p \<Longrightarrow> needs (f p) = []"
  shows "fed db (db\<lparr>world_posts := update_where q f (world_posts db)\<rparr>)"
proof -
  have m: "moves i k q f" for i k
    using assms unfolding moves_def by (metis empty_iff empty_set)
  let ?d = "db\<lparr>world_posts := update_where q f (world_posts db)\<rparr>"
  note u = update_fed [OF m, of ?d db]
  have "feed_ok ?d" if "feed_ok db"
    by (rule but_ok [OF u(2) [of "[]" "[]", OF _ _ that]]) (auto simp: needs_def split: if_splits)
  then show ?thesis using u(1) by (intro fedI) simp_all
qed

lemma slot_moves:
  assumes "\<And>p. q p \<Longrightarrow> wp_status p = ''generating''"
  shows "moves [] [] q (reclaimed now token)" "moves [] [] q (skipped reason now)"
    "moves [] [] q (if b then skipped reason now else deferred nx now)"
  by (rule movesI; simp add: reclaimed_def skipped_def deferred_def same_post_def post_status_ok_def post_stage_def
      needs_def assms)+

lemma slot_fed:
  assumes "\<And>p. q p \<Longrightarrow> wp_status p = ''generating''"
  shows "fed db (db\<lparr>world_posts := update_where q (reclaimed now token) (world_posts db)\<rparr>)"
    "fed db (db\<lparr>world_posts := update_where q (skipped reason now) (world_posts db)\<rparr>)"
    "fed db (db\<lparr>world_posts := update_where q (if b then skipped reason now else deferred nx now) (world_posts db)\<rparr>)"
  by (rule quiet_update, rule slot_moves, erule assms,
      drule assms, simp add: reclaimed_def skipped_def deferred_def needs_def)+

lemma slot_post_fed:
  assumes "new_post_ok p" and "wp_status p = ''generating''"
  shows "fed db (add_post p db)"
proof (rule fedI [OF add_post_fed(1) [OF assms(1)]])
  assume ok: "feed_ok db"
  show "feed_ok (add_post p db)"
  proof (cases "list_ex (post_conflict p) (world_posts db)")
    case True
    then show ?thesis using ok by (simp add: add_post_def)
  next
    case False
    show ?thesis
    proof (rule but_ok [OF add_post_fed(2) [OF assms(1) ok]])
      fix q assume "q \<in> set (world_posts (add_post p db))" and "wp_id q = wp_id p"
      moreover have "wp_id x \<noteq> wp_id p" if "x \<in> set (world_posts db)" for x
        using that False by (auto simp: list_ex_iff post_conflict_def)
      ultimately have "q = p" using False by (auto simp: add_post_def)
      then show "published_type \<notin> set (needs q)" using assms(2) by (simp add: needs_def)
    qed
  qed
qed

lemma claim_slot_fed: "res_all (\<lambda>r. fed db (snd r)) (claim_ai_feed_slot i w a d s e t now nx lease db)"
  unfolding claim_ai_feed_slot_def Let_def
  by (intro res_all_rules; simp only: snd_conv;
      (rule fed_refl | rule fed_trans [OF slot_post_fed slot_fed(1)] | rule slot_post_fed);
      simp add: plain_post_def new_post_ok_def reclaimable_def)

lemma defer_fed: "out_all (fed db) (defer_ai_feed_post i t nx m now db)"
  unfolding defer_ai_feed_post_def Let_def
  by (intro out_all_rules fed_refl slot_fed) (simp_all add: holds_def)

lemma skip_fed: "out_all (fed db) (skip_ai_feed_post i r t now db)"
  unfolding skip_ai_feed_post_def Let_def by (intro out_all_rules slot_fed) simp

lemma close_fed: "out_all (fed db) (close_expired_ai_feed_slots now n db)"
  unfolding close_expired_ai_feed_slots_def Let_def by (intro out_all_rules fed_refl slot_fed) simp

section \<open>Publishing and retiring\<close>

text \<open>A transaction has written the post \<open>i\<close> of the world \<open>w\<close> and owes its event \<open>k\<close>.\<close>

definition written :: "string \<Rightarrow> string \<Rightarrow> string \<Rightarrow> world_db \<Rightarrow> world_db \<Rightarrow> bool" where
  "written i k w db d = (grows db d \<and> (feed_ok db \<longrightarrow> feed_but i k d) \<and>
     (\<exists>p \<in> set (world_posts d). wp_id p = i \<and> wp_world p = w))"

lemma written_published:
  assumes "written i published_type w db d"
    and "insert_outbox (outbox_pending oid w i published_type (published_key i) payload now) d = Inr (x, d')"
    and "map_of payload ''post_id'' = Some (JStr i)"
  shows "fed db d'"
proof -
  obtain p where "p \<in> set (world_posts d)" "wp_id p = i" "wp_world p = w" using assms(1) by (auto simp: written_def)
  note e = emit_published [OF assms(2,3) this]
  show ?thesis by (rule post_then_event [OF _ _ e]) (use assms(1) in \<open>simp_all add: written_def\<close>)
qed

lemma written_deleted:
  assumes "written i deleted_type w db d"
    and "insert_outbox (outbox_pending oid w i deleted_type (deleted_key i) payload now) d = Inr (x, d')"
    and "map_of payload ''post_id'' = Some (JStr i)"
  shows "fed db d'"
proof -
  obtain p where "p \<in> set (world_posts d)" "wp_id p = i" "wp_world p = w" using assms(1) by (auto simp: written_def)
  note e = emit_deleted [OF assms(2,3) this]
  show ?thesis by (rule post_then_event [OF _ _ e]) (use assms(1) in \<open>simp_all add: written_def\<close>)
qed

lemma written_same: "p \<in> set (world_posts db) \<Longrightarrow> written (wp_id p) k (wp_world p) db db"
  by (auto simp: written_def feed_ok_but)

lemma written_update:
  assumes "moves (wp_id p) k q f" and "p \<in> set (world_posts db)"
  shows "written (wp_id p) k (wp_world p) db (db\<lparr>world_posts := update_where q f (world_posts db)\<rparr>)"
proof -
  let ?d = "db\<lparr>world_posts := update_where q f (world_posts db)\<rparr>"
  note u = update_fed [OF assms(1), of ?d db]
  have "wp_id (if q p then f p else p) = wp_id p \<and> wp_world (if q p then f p else p) = wp_world p"
    using assms(1) by (auto simp: moves_def same_post_def)
  moreover have "(if q p then f p else p) \<in> set (world_posts ?d)" using assms(2) by (auto simp: set_update_where)
  ultimately show ?thesis using u unfolding written_def by auto
qed

lemma written_add:
  assumes n: "new_post_ok p0" and f: "find_row r (world_posts (add_post p0 db)) = Some p"
    and c: "\<And>q. q \<in> set (world_posts db) \<Longrightarrow> r q \<Longrightarrow> post_conflict p0 q"
  shows "written (wp_id p) published_type (wp_world p) db (add_post p0 db)"
proof -
  have p: "p \<in> set (world_posts (add_post p0 db))" "r p" using find_row_Some [OF f] by simp_all
  have "feed_but (wp_id p) published_type (add_post p0 db)" if ok: "feed_ok db"
  proof (cases "list_ex (post_conflict p0) (world_posts db)")
    case True
    then show ?thesis using feed_ok_but [OF ok] by (simp add: add_post_def)
  next
    case False
    then have "p = p0" using p c by (auto simp: add_post_def list_ex_iff)
    then show ?thesis using add_post_fed(2) [OF n ok] by simp
  qed
  then show ?thesis using p add_post_fed(1) [OF n] by (auto simp: written_def)
qed

lemma same_feed_but: "same_feed d d' \<Longrightarrow> feed_but i k d \<Longrightarrow> feed_but i k d'"
proof -
  assume s: "same_feed d d'" and f: "feed_but i k d"
  have "announced_but i k d' = announced_but i k d" "names_post d' = names_post d"
    using s by (simp_all add: announced_but_def has_event_def names_post_def same_feed_def fun_eq_iff)
  then show ?thesis using s f by (simp add: feed_but_def events_ok_def same_feed_def)
qed

lemma written_media: "written i k w db d \<Longrightarrow> same_feed d d' \<Longrightarrow> written i k w db d'"
  unfolding written_def using same_feed_but grows_trans same_feed_fed [unfolded fed_def]
  by (metis same_feed_def)

lemma map_of_sorted: "map_of (sort_key fst xs) k = map_of xs k" for xs :: "(string \<times> 'v) list"
proof -
  have m: "map_of ys k = map_of (filter (\<lambda>(k', _). k' = k) ys) k" for ys :: "(string \<times> 'v) list"
    by (induction ys) auto
  have "filter (\<lambda>(k', _). k' = k) (sort_key fst xs) = filter (\<lambda>(k', _). k' = k) xs"
    using sort_key_stable [of fst k xs] by (simp add: case_prod_unfold)
  then show ?thesis using m [of "sort_key fst xs"] m [of xs] by simp
qed

lemma publish_moves: "moves i published_type (holds i token)
    (\<lambda>p. p\<lparr>wp_text := a, wp_status := ''published'', wp_published := y, wp_updated := z\<rparr>)"
  by (rule movesI) (auto simp: holds_def same_post_def post_status_ok_def post_stage_def needs_def)

lemma publish_ai_fed:
  assumes "map_of payload ''post_id'' = Some (JStr i)"
  shows "res_all (\<lambda>r. fed db (snd r)) (publish_ai_feed_post_with_outbox oid i t txt at (published_key i) payload db)"
proof -
  have a: "written i published_type (wp_world p) db d" if "find_row q (world_posts db) = Some p" "\<And>p. q p \<Longrightarrow> wp_id p = i"
    "(if b1 then if b2 then Inl e2 else if b3 then Inl e3 else if b4 then Inl e4 else
      Inr (db\<lparr>world_posts := update_where (holds i t) (\<lambda>p. p\<lparr>wp_text := a, wp_status := ''published'', wp_published := y,
         wp_updated := z\<rparr>) (world_posts db)\<rparr>) else if b5 then if b6 then Inl e6 else Inr db else Inl e7) = Inr d"
    for q p b1 b2 b3 b4 b5 b6 e2 e3 e4 e6 e7 a y z d
  proof -
    have p: "p \<in> set (world_posts db)" "wp_id p = i" using find_row_Some [OF that(1)] that(2) by auto
    then show ?thesis using that(3) written_same [of p] written_update [of p, OF _ p(1)] publish_moves
      by (auto split: if_splits)
  qed
  show ?thesis
    unfolding publish_ai_feed_post_with_outbox_def Let_def
    by (intro res_all_rules; simp only: snd_conv)
      (rule written_published, rule a, assumption, simp, assumption, assumption, simp add: map_of_sorted assms)
qed

lemma reference_same: "reference_media review ow is db = Inr db' \<Longrightarrow> same_feed db db'"
proof (induction "is" arbitrary: db)
  case (Cons i "is")
  then show ?case by (fastforce simp: same_feed_def split: if_splits)
qed simp

lemma mark_media_same: "mark_media_assets_referenced review ids ow db = Inr db' \<Longrightarrow> same_feed db db'"
  by (auto simp: mark_media_assets_referenced_def Let_def split: if_splits dest: reference_same)

lemma attach_same: "attach_media p n is db = Inr db' \<Longrightarrow> same_feed db db'"
proof (induction "is" arbitrary: n db)
  case (Cons i "is")
  then show ?case by (fastforce simp: same_feed_def split: if_splits)
qed simp

lemma media_same:
  assumes "(if b then and_then (case mark_media_assets_referenced review media ow db of
      Inl (ValueError _) \<Rightarrow> Inl (ValueError ''media_ref_invalid'') | x \<Rightarrow> x) (attach_media p 0 media) else Inr db) = Inr db'"
  shows "same_feed db db'"
  using assms
  by (auto simp: and_then_Inr split: if_splits sum.splits err.splits dest!: mark_media_same attach_same
      intro: same_feed_trans)

lemma published_payload_id [simp]: "map_of (published_payload p) ''post_id'' = Some (JStr (wp_id p))"
  by (simp add: published_payload_def)

lemma publish_user_fed:
  "res_all (\<lambda>r. fed db (snd r)) (publish_user_feed_post_with_outbox ids review ow rq txt fp now ms db)"
proof -
  have a: "written (wp_id p) published_type (wp_world p) db (add_post ((plain_post i w ''human'' ''user_post'' now)
      \<lparr>wp_user := Some ow, wp_content_type := c, wp_text := t, wp_request := Some rq, wp_fingerprint := f, wp_published := y\<rparr>) db)"
    if "find_row (request_of w ow rq) (world_posts (add_post ((plain_post i w ''human'' ''user_post'' now)
      \<lparr>wp_user := Some ow, wp_content_type := c, wp_text := t, wp_request := Some rq, wp_fingerprint := f, wp_published := y\<rparr>) db)) = Some p"
    for i w c t f y p
    by (rule written_add [OF _ that]) (auto simp: plain_post_def new_post_ok_def request_of_def post_conflict_def)
  show ?thesis
    unfolding publish_user_feed_post_with_outbox_def Let_def
    by (intro res_all_rules; simp only: snd_conv)
      (rule written_published, rule written_media, rule a, assumption, erule media_same, assumption, simp)
qed

lemma retire_moves: "moves i deleted_type (\<lambda>x. wp_id x = i \<and> wp_world x = w \<and> wp_status x = ''published'')
    (\<lambda>p. p\<lparr>wp_status := ''deleted'', wp_reason := x, wp_deleted := y, wp_updated := z\<rparr>)"
  by (rule movesI) (auto simp: same_post_def post_status_ok_def post_stage_def needs_def)

lemma retire_fed: "res_all (\<lambda>r. fed db (snd r)) (retire_feed_post_with_outbox oid ow i reason now author forbidden db)"
proof -
  have a: "written i deleted_type (wp_world p) db (if b then db\<lparr>world_posts := update_where
      (\<lambda>x. wp_id x = i \<and> wp_world x = wp_world p \<and> wp_status x = ''published'')
      (\<lambda>x. x\<lparr>wp_status := ''deleted'', wp_reason := r, wp_deleted := y, wp_updated := z\<rparr>) (world_posts db)\<rparr> else db)"
    if "find_row (\<lambda>p. wp_id p = i \<and> owned_world ow (wp_world p) db) (world_posts db) = Some p" for p b r y z
  proof -
    have p: "p \<in> set (world_posts db)" "wp_id p = i" using find_row_Some [OF that] by auto
    then show ?thesis using written_same [of p] written_update [of p, OF _ p(1)] retire_moves by auto
  qed
  show ?thesis
    unfolding retire_feed_post_with_outbox_def Let_def
    by (intro res_all_rules; simp only: snd_conv) (rule written_deleted, erule a, assumption, simp)
qed

section \<open>The outbox worker\<close>

lemma outbox_update_fed:
  assumes "\<And>x. q x \<Longrightarrow> same_event x (f x) \<and> event_stage x = 0"
  shows "fed db (db\<lparr>outbox := update_where q f (outbox db)\<rparr>)"
proof (rule fedI)
  let ?d = "db\<lparr>outbox := update_where q f (outbox db)\<rparr>"
  let ?f = "\<lambda>x. if q x then f x else x"
  show "grows db ?d" unfolding grows_def
  proof (intro conjI ballI)
    fix x assume "x \<in> set (outbox db)"
    then show "\<exists>y \<in> set (outbox ?d). event_moved x y"
      using assms by (intro bexI [of _ "?f x"]) (auto simp: event_moved_def set_update_where)
  qed (auto intro: post_moved_refl)
  assume ok: "feed_ok db"
  have s: "ob_id (?f x) = ob_id x" "ob_key (?f x) = ob_key x" "ob_post (?f x) = ob_post x" "ob_type (?f x) = ob_type x"
      "ob_world (?f x) = ob_world x" "ob_payload (?f x) = ob_payload x" for x
    using assms by (auto simp: same_event_def)
  have ex: "list_ex P (map ?f xs) = list_ex (\<lambda>x. P (?f x)) xs" for P xs by (induction xs) auto
  have all: "list_all P (map ?f xs) = list_all (\<lambda>x. P (?f x)) xs" for P xs by (induction xs) auto
  have "announced ?d = announced db"
    by (simp add: announced_def has_event_def fun_eq_iff update_where_def ex s)
  moreover have "event_ok (?f x) = event_ok x" "names_post ?d (?f x) = names_post db x" for x
    unfolding event_ok_def names_post_def s by simp_all
  then have "events_ok ?d = events_ok db"
    by (simp add: events_ok_def unique_on_def update_where_def all s o_def)
  ultimately show "feed_ok ?d" using ok by (simp add: feed_ok_def)
qed

lemma worker_fed:
  "out_all (fed db) (claim_companion_world_outbox n now t s db)"
  "out_all (fed db) (complete_companion_world_outbox i t now db)"
  "out_all (fed db) (fail_companion_world_outbox i t e nx m db)"
proof -
  show "out_all (fed db) (claim_companion_world_outbox n now t s db)"
    unfolding claim_companion_world_outbox_def Let_def
    by (intro out_all_rules outbox_update_fed fed_refl)
      (auto simp: still_due_def leased_def same_event_def event_stage_def split: option.splits)
  show "out_all (fed db) (complete_companion_world_outbox i t now db)"
    unfolding complete_companion_world_outbox_def Let_def
    by (intro out_all_rules outbox_update_fed) (auto simp: lease_of_def same_event_def event_stage_def)
  show "out_all (fed db) (fail_companion_world_outbox i t e nx m db)"
    unfolding fail_companion_world_outbox_def Let_def
    by (intro out_all_rules outbox_update_fed) (auto simp: lease_of_def same_event_def event_stage_def)
qed

section \<open>Departures and corrections\<close>

lemma append_same: "append_action aid eid action actor_type actor meta created db = Inr db' \<Longrightarrow> same_feed db db'"
  by (erule append_action_effect) (simp add: same_feed_def)

lemma insert_event_same: "insert_event e db = (b, db1) \<Longrightarrow> same_feed db db1"
  by (auto simp: insert_event_def same_feed_def split: if_splits)

lemma create_same: "res_all (\<lambda>r. same_feed db (snd r)) (create_resident_lifecycle_event ids n db)"
  unfolding create_resident_lifecycle_event_def Let_def
  by (auto intro!: res_all_bind split: option.split prod.split bool.split
      dest!: append_same insert_event_same) (blast intro: same_feed_trans)+

lemma events_same: "same_feed (db\<lparr>lifecycle_events := es\<rparr>) d \<longleftrightarrow> same_feed db d"
  by (simp add: same_feed_def)

lemma transition_same: "res_all (\<lambda>r. same_feed db (snd r))
  (transition_resident_lifecycle_event ids eid expected target action actor_type actor now reason meta db)"
  unfolding transition_resident_lifecycle_event_def Let_def
  by (auto intro!: res_all_bind dest!: append_same simp: events_same) (simp_all add: same_feed_def)

lemma run_tx_same: "(\<And>d. res_all (\<lambda>r. same_feed d (snd r)) (f d)) \<Longrightarrow> run_tx f db = (r, db') \<Longrightarrow> same_feed db db'"
  using res_allD [of "\<lambda>r. same_feed db (snd r)" "f db"] by (fastforce simp: run_tx_def split: sum.splits)

lemma create_candidate_same: "same_feed db (snd (create_candidate sha ids p sp now tp ev st cr exc mx db))"
proof -
  obtain r d where r: "run_tx (create_resident_lifecycle_event ids
      (candidate sha p sp now tp ev st cr exc)) db = (r, d)" by fastforce
  from run_tx_same [OF create_same r] show ?thesis
    by (simp add: create_candidate_def r Let_def split: prod.split sum.split err.split)
qed

lemma revalidate_same: "same_feed db (snd (revalidate_open_event ids sp e now severe mismatch inactivity cr mx db))"
proof -
  have t: "same_feed db d" if "run_tx (transition_resident_lifecycle_event ids i f t a ak ac n r m) db = (x, d)"
    for i f t a ak ac n r m x d using run_tx_same [OF transition_same that] .
  have "out_all (same_feed db) (revalidate_open_event ids sp e now severe mismatch inactivity cr mx db)"
    unfolding revalidate_open_event_def Let_def by (intro out_all_rules) (simp_all add: t)
  then show ?thesis by (simp add: out_all_def)
qed

lemma evaluate_scope_same: "same_feed db (snd (evaluate_scope sha ids p now sp mx db))"
  unfolding evaluate_scope_def Let_def
  by (auto split: sum.split option.split simp: create_candidate_same revalidate_same)

lemma evaluate_scopes_same: "same_feed db (snd (evaluate_scopes sha ids p now sps mx db))"
proof (induction sps arbitrary: mx db)
  case (Cons sp sps)
  have s: "same_feed db db1" if "evaluate_scope sha (ids (length sps)) p now sp (mx\<lparr>mx_scanned := mx_scanned mx + 1\<rparr>) db = (r, db1)"
    for r db1 using evaluate_scope_same [of db sha "ids (length sps)" p now sp "mx\<lparr>mx_scanned := mx_scanned mx + 1\<rparr>"] that
    by simp
  have t: "same_feed db1 db2" if "evaluate_scopes sha ids p now sps mx1 db1 = (r, db2)" for r mx1 db1 db2
    using Cons.IH [of db1 mx1] that by simp
  show ?case by (auto split: prod.split sum.split dest!: s t intro: same_feed_trans)
qed simp

lemma evaluate_batch_same: "evaluate_batch sha ids p now after n db = (r, db') \<Longrightarrow> same_feed db db'"
  using evaluate_scopes_same [of db sha ids p now "list_resident_lifecycle_scopes after n db" no_metrics]
  unfolding evaluate_batch_def Let_def by (auto split: prod.splits sum.splits if_splits)

text \<open>The farewell of a departure is a new post with its event.\<close>

lemma commit_written:
  assumes "insert_post (farewell_post i eid w rid txt now) db = Inr db1"
  shows "written i published_type w db db1"
proof -
  let ?p = "farewell_post i eid w rid txt now"
  have f: "wp_id ?p = i" "wp_world ?p = w" "new_post_ok ?p" "wp_source_type ?p \<noteq> ''ai_feed''"
    by (simp_all add: farewell_post_def new_post_ok_def)
  have d: "world_posts db1 = world_posts db @ [?p]" "outbox db1 = outbox db" and i: "i \<notin> wp_id ` set (world_posts db)"
    using assms f(1) by (auto simp: insert_post_def split: if_splits)
  have fresh: "wp_id q \<noteq> wp_id ?p" if "q \<in> set (world_posts db)" for q
    using that i unfolding f(1) by (metis image_eqI)
  note s = snoc_post_fed [OF f(3) d(2) d(1) fresh]
  have "grows db db1" by (rule s(1)) (use f(4) in simp_all)
  moreover have "feed_but i published_type db1" if "feed_ok db"
    using s(2) [OF _ _ that] f(1,4) by simp
  moreover have "?p \<in> set (world_posts db1)" by (simp add: d)
  ultimately show ?thesis unfolding written_def using f(1,2) by blast
qed

lemma written_farewell:
  assumes "written i published_type w db d"
    and "insert_outbox (outbox_pending oid w i published_type key (farewell_payload i w now) now) d = Inr (Some x, d')"
    and "ob_post x = i" and key: "starts_with ''departure-farewell:v1:'' key"
  shows "fed db d'"
proof -
  let ?o = "outbox_pending oid w i published_type key (farewell_payload i w now) now"
  have o1: "ob_post ?o = i" "ob_type ?o = published_type" "event_ok ?o"
    by (simp_all add: outbox_pending_def event_ok_def farewell_payload_def key)
  have n: "names_post d ?o" using assms(1) by (auto simp: written_def names_post_def list_ex_iff outbox_pending_def)
  have k: "ob_post y = i \<and> ob_type y = published_type" if "Some x = Some y" "event_ok y" "ob_key y = ob_key ?o" for y
    using that assms(3) key by (auto simp: event_ok_def outbox_pending_def split: if_splits)
  note e = emit [OF assms(2) o1 n k]
  show ?thesis by (rule post_then_event [OF _ _ e]) (use assms(1) in \<open>simp_all add: written_def\<close>)
qed

lemma fed_then: "fed db a \<Longrightarrow> same_feed a b \<Longrightarrow> fed db b"
  using fed_trans same_feed_fed by blast

lemma commit_fed:
  "res_all (\<lambda>r. fed db (snd r)) (commit_locked_resident_offline ids eid wid rid cid owner farewell admin reason exc now db)"
proof -
  have fin: "fed db d6" if "insert_post (farewell_post (fi_post ids) eid wid rid tx now) db = Inr db1"
    "insert_outbox (outbox_pending (fi_outbox ids) wid (fi_post ids) published_type (''departure-farewell:v1:'' @ eid)
       (farewell_payload (fi_post ids) wid now) now) db1 = Inr (Some x, db2)"
    "\<not> (ob_post x \<noteq> fi_post ids \<or> ob_payload x \<noteq> farewell_payload (fi_post ids) wid now)"
    "append_action ai ae aa ak ac am an (db2\<lparr>residents := rs, ai_conversations := cs, lifecycle_events := es\<rparr>) = Inr d6"
    for tx db1 x db2 ai ae aa ak ac am an rs cs es d6
  proof -
    have "fed db db2" using written_farewell [OF commit_written [OF that(1)] that(2)] that(3)
      by (simp add: starts_with_def)
    moreover have "same_feed db2 d6" using append_same [OF that(4)] by (simp add: same_feed_def)
    ultimately show ?thesis by (rule fed_then)
  qed
  show ?thesis
    unfolding commit_locked_resident_offline_def Let_def
    by (intro res_all_rules; simp only: snd_conv) (rule fin; simp)
qed

lemma approve_fed: "approve_lifecycle_event ids free eid txt why allow admin now policy db = Inr (f, db') \<Longrightarrow> fed db db'"
proof -
  assume a: "approve_lifecycle_event ids free eid txt why allow admin now policy db = Inr (f, db')"
  have "res_all (\<lambda>r. fed db (snd r)) (approve_tx ids free eid t w allow admin now policy db)" for t w
    unfolding approve_tx_def Let_def
    by (intro res_all_rules commit_error_res_all)
      (simp, simp split: err.split, simp only: snd_conv, drule res_allD [OF commit_fed], simp)
  from res_allD [OF this] show ?thesis
    using a by (fastforce simp: approve_lifecycle_event_def Let_def commit_error_def split: if_splits)
qed

text \<open>The farewell that a correction hides is a post of the event's world.\<close>

lemma committed_post:
  assumes a: "audited db" and e: "e \<in> set (lifecycle_events db)" "le_status e = ''committed''" "le_post e = Some i"
  shows "\<exists>p \<in> set (world_posts db). wp_id p = i \<and> wp_world p = le_world e"
proof -
  let ?v = "(le_id e, le_resident e, le_world e, le_post e)"
  have v: "?v \<in> set (committed_view db)" using e(1,2) by (auto simp: committed_view_def)
  then have "departed db ?v" using a unfolding audited_def list_all_iff by blast
  then obtain r where r: "r \<in> set (residents db)" "rs_status r = ''offline''" "rs_departure r = Some (le_id e)"
    by (auto simp: departed_def list_ex_iff)
  then have "departure_ok db r" using a by (auto simp: audited_def list_all_iff)
  then obtain post where p: "(le_id e, rs_id r, rs_universe r, Some post) \<in> set (committed_view db)"
      "(post, Some (le_id e), Some (rs_id r), rs_universe r) \<in> set (farewell_view db)"
    using r(3) unfolding departure_ok_iff by auto
  have "?v = (le_id e, rs_id r, rs_universe r, Some post)"
    by (rule committed_view_key [OF _ v p(1)]) (use a in \<open>simp_all add: audited_def\<close>)
  then show ?thesis using p(2) e(3) by (auto simp: farewell_view_def)
qed

lemma hidden_key:
  "starts_with ''departure-farewell-hidden:v1:'' key \<Longrightarrow> key \<noteq> published_key j \<and> \<not> starts_with ''departure-farewell:v1:'' key"
proof -
  assume h: "starts_with ''departure-farewell-hidden:v1:'' key"
  then obtain s where "key = ''departure-farewell-hidden:v1:'' @ s"
    unfolding starts_with_def by (metis append_take_drop_id)
  then show ?thesis using key_prefixes(10) key_farewell(2) by metis
qed

lemma written_hidden:
  assumes "written i deleted_type w db d"
    and "insert_outbox (outbox_pending oid w i deleted_type key payload now) d = Inr (Some x, d')"
    and "map_of payload ''post_id'' = Some (JStr i)" and "ob_payload x = payload"
    and key: "starts_with ''departure-farewell-hidden:v1:'' key"
  shows "fed db d'"
proof -
  let ?o = "outbox_pending oid w i deleted_type key payload now"
  have o1: "ob_post ?o = i" "ob_type ?o = deleted_type" "event_ok ?o"
    using assms(3) hidden_key [OF key] key by (simp_all add: outbox_pending_def event_ok_def)
  have n: "names_post d ?o" using assms(1) by (auto simp: written_def names_post_def list_ex_iff outbox_pending_def)
  have k: "ob_post y = i \<and> ob_type y = deleted_type" if "Some x = Some y" "event_ok y" "ob_key y = ob_key ?o" for y
    using that assms(3,4) hidden_key [OF key] by (auto simp: event_ok_def outbox_pending_def split: if_splits)
  note e = emit [OF assms(2) o1 n k]
  show ?thesis by (rule post_then_event [OF _ _ e]) (use assms(1) in \<open>simp_all add: written_def\<close>)
qed

lemma hide_moves: "moves i deleted_type (\<lambda>p. wp_id p = i \<and> wp_departure p = e \<and> wp_status p = ''published'')
    (\<lambda>p. p\<lparr>wp_status := ''deleted'', wp_reason := x, wp_deleted := y, wp_updated := z\<rparr>)"
  by (rule movesI) (auto simp: same_post_def post_status_ok_def post_stage_def needs_def)

lemma hide_fed:
  assumes "hide_farewell_post ids eid (wp_world p) (wp_id p) now db = Inr db'" and "p \<in> set (world_posts db)"
  shows "fed db db'"
proof -
  have "res_all (fed db) (hide_farewell_post ids eid (wp_world p) (wp_id p) now db)"
    unfolding hide_farewell_post_def Let_def
    by (intro res_all_rules) (rule written_hidden, rule written_update [OF hide_moves assms(2)], simp only: , simp, simp, simp add: starts_with_def)
  from res_allD [OF this assms(1)] show ?thesis .
qed

lemma correct_fed:
  assumes "audited db"
  shows "res_all (\<lambda>r. fed db (snd r)) (correct_committed_resident_lifecycle_event ids eid who why hide now db)"
proof -
  have h: "fed db d" if "lock_resident_lifecycle_commit_scope eid db = Inr (Some sc)"
    and "\<not> le_status (cs_event sc) \<noteq> ''committed''" and "le_post (cs_event sc) = Some i"
    and "(if b then hide_farewell_post ids eid (le_world (cs_event sc)) i now db else Inr db) = Inr d" for sc i b d
  proof -
    have "res_all (\<lambda>s. opt_all (\<lambda>sc. cs_event sc \<in> set (lifecycle_events db)) s)
      (lock_resident_lifecycle_commit_scope eid db)"
      unfolding lock_resident_lifecycle_commit_scope_def by (intro res_all_rules) (auto simp: find_event_def dest: find_row_Some)
    then have "cs_event sc \<in> set (lifecycle_events db)" using that(1) by simp
    note sc = this that(2,3)
    obtain p where p: "p \<in> set (world_posts db)" "wp_id p = i" "wp_world p = le_world (cs_event sc)"
      using committed_post [OF assms sc(1) _ sc(3)] sc(2) by auto
    then show ?thesis using that(4) hide_fed [OF _ p(1)] by (auto split: if_splits)
  qed
  have fin: "fed db d'" if "fed db d" "append_action ai ae aa ak ac am an (d\<lparr>lifecycle_events := es\<rparr>) = Inr d'"
    for d d' ai ae aa ak ac am an es
    by (rule fed_then [OF that(1)]) (use append_same [OF that(2)] in \<open>simp add: events_same\<close>)
  show ?thesis
    unfolding correct_committed_resident_lifecycle_event_def Let_def
    by (intro res_all_rules; simp only: snd_conv) (simp, (rule fin, rule h; assumption))
qed

section \<open>The home world\<close>

lemma intro_post_fed:
  "res_all (\<lambda>r. fed db (snd r)) (publish_resident_intro_post_with_outbox ids w rid txt now db)"
proof -
  have a: "written (wp_id p) published_type (wp_world p) db (if b then add_post ((plain_post i w ''resident'' ''resident_intro'' now)
      \<lparr>wp_resident := Some rid, wp_text := t, wp_published := y\<rparr>) db else db)"
    if "find_row (intro_of w rid) (world_posts (if b then add_post ((plain_post i w ''resident'' ''resident_intro'' now)
      \<lparr>wp_resident := Some rid, wp_text := t, wp_published := y\<rparr>) db else db)) = Some p" for b i t y p
  proof (cases b)
    case True
    have f: "find_row (intro_of w rid) (world_posts (add_post ((plain_post i w ''resident'' ''resident_intro'' now)
      \<lparr>wp_resident := Some rid, wp_text := t, wp_published := y\<rparr>) db)) = Some p" using that True by simp
    have "written (wp_id p) published_type (wp_world p) db (add_post ((plain_post i w ''resident'' ''resident_intro'' now)
      \<lparr>wp_resident := Some rid, wp_text := t, wp_published := y\<rparr>) db)"
      by (rule written_add [OF _ f]) (auto simp: plain_post_def new_post_ok_def intro_of_def post_conflict_def)
    then show ?thesis using True by simp
  next
    case False
    then show ?thesis using that by (auto intro: written_same dest: find_row_Some)
  qed
  have nobody: "fed db (if b then add_post ((plain_post i w ''resident'' ''resident_intro'' now)
      \<lparr>wp_resident := Some rid, wp_text := t, wp_published := y\<rparr>) db else db)"
    if "find_row (intro_of w rid) (world_posts (if b then add_post ((plain_post i w ''resident'' ''resident_intro'' now)
      \<lparr>wp_resident := Some rid, wp_text := t, wp_published := y\<rparr>) db else db)) = None" for b i t y
  proof (cases b)
    case True
    let ?p = "(plain_post i w ''resident'' ''resident_intro'' now)\<lparr>wp_resident := Some rid, wp_text := t, wp_published := y\<rparr>"
    have "intro_of w rid ?p" by (simp add: intro_of_def plain_post_def)
    then have "list_ex (post_conflict ?p) (world_posts db)"
      using that True by (auto simp: add_post_def find_row_None split: if_splits)
    then show ?thesis using True by (simp add: add_post_def)
  qed simp
  show ?thesis
    unfolding publish_resident_intro_post_with_outbox_def Let_def
    by (intro res_all_rules; simp only: snd_conv)
      (rule nobody, assumption, rule written_published, rule a, assumption, assumption, simp)
qed

lemma intro_fed: "seed_resident_intro intro ids now r k db = Inr db' \<Longrightarrow> fed db db'"
proof -
  assume s: "seed_resident_intro intro ids now r k db = Inr db'"
  have "res_all (fed db) (seed_resident_intro intro ids now r k db)"
    unfolding seed_resident_intro_def
    by (intro res_all_rules) (simp, drule res_allD [OF welcome_same], drule res_allD [OF intro_post_fed],
      simp, erule fed_trans [OF same_feed_fed])
  from res_allD [OF this s] show ?thesis .
qed

lemma bootstrap_fed: "bootstrap_home reg digest ids now user db = Inr (x, db') \<Longrightarrow> fed db db'"
  unfolding bootstrap_home_def
  by (rule same_feed_fed) (auto simp: and_then_Inr split: if_splits
      dest!: universe_same ensure_all_same onboarding_same intro: same_feed_trans)

lemma activate_chosen_fed: "activate_chosen reg intro ids now user cs db = Inr db' \<Longrightarrow> fed db db'"
proof (induction cs arbitrary: db)
  case (Cons x cs)
  obtain c given where x: "x = (c, given)" by (cases x)
  show ?case
  proof (cases "rs_status (cd_row c) = ''active''")
    case True
    then show ?thesis using Cons by (simp add: x)
  next
    case False
    then obtain r name db1 db2 where
      1: "activate_candidate_with_runtime reg (ids (length cs)) now c user name db = Inr (r, db1)"
      and 2: "seed_resident_intro intro (ids (length cs)) now r (ct_persona_key (cd_template c)) db1 = Inr db2"
      and 3: "activate_chosen reg intro ids now user cs db2 = Inr db'"
      using Cons.prems by (auto simp: x and_then_Inr)
    show ?thesis
      using same_feed_fed [OF activate_same(1) [OF 1]] intro_fed [OF 2] Cons.IH [OF 3] by (meson fed_trans)
  qed
qed simp

lemma confirm_fed: "res_all (\<lambda>r. fed db (snd r)) (confirm_residents reg intro ids now user selections db)"
proof -
  have a: "fed db d" if "activate_chosen reg intro ids now user cs db = Inr d1"
    "set_universe_onboarding_state w s (dismiss_unselected_candidate_residents now w sel d1) = Inr (u, d)"
    for cs d1 w s sel u d
    using fed_then [OF activate_chosen_fed [OF that(1)] same_feed_trans [OF dismiss_same onboarding_same [OF that(2)]]] .
  show ?thesis
    unfolding confirm_residents_def Let_def
    by (intro res_all_rules; simp only: snd_conv; (elim conjE exE)?) (rule a; simp)
qed

lemma template_same: "resident_template ids user w source db = Inr (x, db') \<Longrightarrow> same_feed db db'"
  by (auto simp: resident_template_def and_then_Inr split: sum.splits if_splits option.splits
      dest: custom_template_same)

lemma move_in_same:
  assumes "move_in reg ids now user sc db = Inr ((r, c), db')"
  shows "same_feed db db'"
  using assms
proof (cases rule: move_in_cases)
  case (1 soul identity prompt acc db1 db2)
  have "same_feed db1 db2" using 1(4) by (auto simp: insert_resident_def Let_def same_feed_def split: if_splits)
  from same_feed_trans [OF same_feed_trans [OF runtime_same [OF 1(3)] this] conversation_same [OF 1(5)]] show ?thesis .
qed

lemma accept_same: "accept_letter reg ids user k now s = (a, s') \<Longrightarrow> same_feed (ml_world s) (ml_world s')"
  by (erule accept_world) (auto dest: move_in_same)

lemma create_resident_fed: "create_resident reg digest intro ids now user template_id custom db = Inr (x, db') \<Longrightarrow> fed db db'"
proof -
  assume c: "create_resident reg digest intro ids now user template_id custom db = Inr (x, db')"
  have s: "same_feed db d2" if "resident_template ids user w source db = Inr (t, d1)"
    "ensure_candidate ids now i tm origin nm nv d1 = Inr (c, d2)" for w source t d1 i tm origin nm nv c d2
    using same_feed_trans [OF template_same [OF that(1)] ensure_same [OF that(2)]] .
  have f: "fed db d4" if "same_feed db d2" "activate_world_candidate reg ids now c user name d2 = Inr (r, d3)"
    "seed_resident_intro intro ids now r k d3 = Inr d4" for d2 c name r d3 k d4
    using fed_trans [OF same_feed_fed [OF same_feed_trans [OF that(1) activate_same(2) [OF that(2)]]] intro_fed [OF that(3)]] .
  have "res_all (\<lambda>r. fed db (snd r)) (create_resident_locked reg digest intro ids now user source db)" for source
    unfolding create_resident_locked_def Let_def
    by (intro res_all_rules; simp only: snd_conv; (elim conjE exE)?) (auto dest: s f same_feed_fed)
  from res_allD [OF this] show ?thesis using c by (auto simp: create_resident_def split: option.splits)
qed

section \<open>The deletion\<close>

lemma delete_world_feed:
  assumes ok: "feed_ok db"
  shows "feed_ok (delete_world_data now wid db)"
proof -
  let ?d = "delete_world_data now wid db"
  have p: "world_posts ?d = delete_where (\<lambda>p. wp_world p = wid) (world_posts db)"
    and o: "outbox ?d = delete_where (\<lambda>o1. ob_world o1 = wid) (outbox db)"
    by (simp_all add: delete_world_data_def Let_def)
  have ids: "unique_on (\<lambda>_. True) wp_id (world_posts db)" using ok by (simp add: feed_ok_def posts_ok_def)
  have owner: "wp_world q = ob_world x" if "x \<in> set (outbox db)" "q \<in> set (world_posts db)" "wp_id q = ob_post x" for x q
  proof -
    have "names_post db x" using ok that(1) by (auto simp: feed_ok_def events_ok_def list_all_iff)
    then obtain q' where "q' \<in> set (world_posts db)" "wp_id q' = ob_post x" "wp_world q' = ob_world x"
      by (auto simp: names_post_def list_ex_iff)
    then show ?thesis using unique_onD [OF ids that(2)] that(3) by metis
  qed
  have "posts_ok (world_posts ?d)"
    using ok by (auto simp: feed_ok_def posts_ok_def p unique_on_filter list_all_iff delete_where_def)
  moreover have "names_post ?d x" if "x \<in> set (outbox ?d)" for x
  proof -
    from that have x: "x \<in> set (outbox db)" "ob_world x \<noteq> wid" by (auto simp: o delete_where_def)
    then have "names_post db x" using ok by (auto simp: feed_ok_def events_ok_def list_all_iff)
    then show ?thesis using x(2) by (auto simp: names_post_def list_ex_iff p delete_where_def)
  qed
  then have "events_ok ?d"
    using ok by (auto simp: feed_ok_def events_ok_def o unique_on_filter list_all_iff delete_where_def)
  moreover have "announced ?d q" if "q \<in> set (world_posts ?d)" for q
  proof -
    have q: "q \<in> set (world_posts db)" "wp_world q \<noteq> wid" using that by (auto simp: p delete_where_def)
    then have "announced db q" using ok by (auto simp: feed_ok_def list_all_iff)
    moreover have "has_event k (wp_id q) ?d" if "has_event k (wp_id q) db" for k
      using that owner [OF _ q(1)] q(2) by (fastforce simp: has_event_def list_ex_iff o delete_where_def)
    ultimately show ?thesis by (auto simp: announced_def list_all_iff)
  qed
  ultimately show ?thesis by (simp add: feed_ok_def list_all_iff)
qed

lemma same_feed_ok: "same_feed db db' \<Longrightarrow> feed_ok db' = feed_ok db"
  using same_feed_fed [of db db'] same_feed_fed [of db' db] unfolding fed_def same_feed_def by metis

lemma deletion_feed:
  assumes "execute_account_deletion reg now user db = Inr db'" and "feed_ok db"
  shows "feed_ok db'"
proof -
  have "res_all (\<lambda>d. feed_ok db \<longrightarrow> feed_ok d) (execute_account_deletion reg now user db)"
  proof -
    have k: "feed_ok (d\<lparr>memberships := ms\<rparr>) = feed_ok d" "feed_ok (d\<lparr>templates := ts\<rparr>) = feed_ok d" for d ms ts
      by (rule same_feed_ok, simp add: same_feed_def)+
    show ?thesis
      unfolding execute_account_deletion_def Let_def
      by (intro res_all_rules) (auto simp: k split: option.splits intro!: delete_world_feed)
  qed
  from res_allD [OF this assms(1)] assms(2) show ?thesis by simp
qed

section \<open>One transaction\<close>

lemma fedD: "res_all (\<lambda>r. fed db (snd r)) m \<Longrightarrow> m = Inr (x, db') \<Longrightarrow> fed db db'"
  by simp

lemma same_fedD: "res_all (\<lambda>r. same_feed db (snd r)) m \<Longrightarrow> m = Inr (x, db') \<Longrightarrow> fed db db'"
  using same_feed_fed by fastforce

lemma correct_step_fed:
  "audited db \<Longrightarrow> correct_lifecycle_event ids eid why hide admin now db = Inr (e, db') \<Longrightarrow> fed db db'"
  unfolding correct_lifecycle_event_def value_error_as_Inr by (rule fedD [OF correct_fed])

lemmas step_feds = same_fedD [OF create_same] same_fedD [OF transition_same] same_feed_fed [OF evaluate_batch_same]
  approve_fed bootstrap_fed fedD [OF confirm_fed] create_resident_fed fedD [OF claim_slot_fed] out_allD [OF defer_fed]
  out_allD [OF skip_fed] out_allD [OF close_fed] fedD [OF publish_ai_fed] fedD [OF publish_user_fed]
  fedD [OF retire_fed] out_allD [OF worker_fed(1)] out_allD [OF worker_fed(2)] out_allD [OF worker_fed(3)]

text \<open>Every transaction but the deletion of an account lets posts and events grow.\<close>

lemma world_step_fed:
  assumes "world_step exc leavers db db'" and "audited db"
  obtains (fed) "fed db db'"
  | (delete) reg now user where "execute_account_deletion reg now user db = Inr db'" "owner_leaves user leavers db"
  using assms(1)
proof cases
  case correct
  then show ?thesis using that(1) correct_step_fed assms(2) by blast
next
  case (letter reg hid user k now s a s')
  from accept_same [OF letter(3)] letter(1,2) show ?thesis using that(1) same_feed_fed by simp
next
  case other
  then show ?thesis using that(1) same_feed_fed by (simp add: same_feed_def)
qed (erule (1) that(2) | rule that(1), erule (1) step_feds(12) [rotated] | rule that(1), erule step_feds)+

lemma step_feed_ok: "world_step exc leavers db db' \<Longrightarrow> audited db \<Longrightarrow> feed_ok db \<Longrightarrow> feed_ok db'"
  by (erule (1) world_step_fed) (auto simp: fed_def dest: deletion_feed)

lemma reach_feed_ok:
  "(world_step exc leavers)\<^sup>*\<^sup>* db db' \<Longrightarrow> audited db \<Longrightarrow> feed_ok db \<Longrightarrow> feed_ok db'"
  by (induction rule: rtranclp_induct) (auto intro: step_feed_ok reach_audited)

section \<open>Life cycles\<close>

lemma found_unique: "unique_on (\<lambda>_. True) k rs \<Longrightarrow> r \<in> set rs \<Longrightarrow> k r = i \<Longrightarrow> find_row (\<lambda>x. k x = i) rs = Some r"
  by (rule find_row_unique) (auto dest: unique_onD)

text \<open>Posts and events of the worlds whose owners stay.\<close>

definition stay_post :: "string list \<Rightarrow> string \<Rightarrow> world_db \<Rightarrow> world_post option" where
  "stay_post leavers i db = find_row (\<lambda>p. wp_id p = i \<and> wp_world p \<notin> set leavers) (world_posts db)"

definition stay_event :: "string list \<Rightarrow> string \<Rightarrow> world_db \<Rightarrow> outbox_row option" where
  "stay_event leavers i db = find_row (\<lambda>x. ob_id x = i \<and> ob_world x \<notin> set leavers) (outbox db)"

definition feed_inv :: "world_db \<Rightarrow> bool" where
  "feed_inv db = (audited db \<and> feed_ok db)"

lemma stay_postI:
  assumes "feed_ok db" "p \<in> set (world_posts db)" "wp_id p = i" "wp_world p \<notin> set leavers"
  shows "stay_post leavers i db = Some p"
  unfolding stay_post_def
  by (rule find_row_unique) (use assms in \<open>auto simp: feed_ok_def posts_ok_def dest: unique_onD\<close>)

lemma stay_eventI:
  assumes "feed_ok db" "x \<in> set (outbox db)" "ob_id x = i" "ob_world x \<notin> set leavers"
  shows "stay_event leavers i db = Some x"
  unfolding stay_event_def
  by (rule find_row_unique) (use assms in \<open>auto simp: feed_ok_def events_ok_def dest: unique_onD\<close>)

lemma stay_postD: "stay_post leavers i db = Some p \<Longrightarrow> p \<in> set (world_posts db) \<and> wp_id p = i \<and> wp_world p \<notin> set leavers"
  by (auto simp: stay_post_def dest: find_row_Some)

lemma stay_eventD: "stay_event leavers i db = Some x \<Longrightarrow> x \<in> set (outbox db) \<and> ob_id x = i \<and> ob_world x \<notin> set leavers"
  by (auto simp: stay_event_def dest: find_row_Some)

lemma deletion_keeps:
  assumes "execute_account_deletion reg now user db = Inr db'" and "owner_leaves user leavers db"
  shows "(p \<in> set (world_posts db) \<and> wp_world p \<notin> set leavers \<longrightarrow> p \<in> set (world_posts db')) \<and>
    (x \<in> set (outbox db) \<and> ob_world x \<notin> set leavers \<longrightarrow> x \<in> set (outbox db'))" (is "?K db'")
proof -
  have "res_all ?K (execute_account_deletion reg now user db)"
    unfolding execute_account_deletion_def Let_def
    by (intro res_all_rules) (use assms(2) in \<open>auto simp: delete_world_data_def Let_def delete_where_def owner_leaves_def
      list_all_iff split: option.splits dest: find_row_Some\<close>)
  from res_allD [OF this assms(1)] show ?thesis .
qed

lemma step_post:
  assumes "world_step exc leavers db db'" "feed_inv db" "stay_post leavers i db = Some p"
  shows "\<exists>q. stay_post leavers i db' = Some q \<and> post_moved p q"
proof -
  have ok: "audited db" "feed_ok db" "feed_ok db'" using assms(1,2) step_feed_ok by (auto simp: feed_inv_def)
  note p = stay_postD [OF assms(3)]
  from assms(1) ok(1) show ?thesis
  proof (cases rule: world_step_fed)
    case fed
    then obtain q where q: "q \<in> set (world_posts db')" "post_moved p q" using p by (auto simp: fed_def grows_def)
    then show ?thesis using stay_postI [OF ok(3) q(1)] p by (auto simp: post_moved_def same_post_def)
  next
    case delete
    have "p \<in> set (world_posts db')" using deletion_keeps [OF delete, of p] p by simp
    from stay_postI [OF ok(3) this] p have "stay_post leavers i db' = Some p" by simp
    then show ?thesis by simp
  qed
qed

lemma step_event:
  assumes "world_step exc leavers db db'" "feed_inv db" "stay_event leavers i db = Some x"
  shows "\<exists>y. stay_event leavers i db' = Some y \<and> event_moved x y"
proof -
  have ok: "audited db" "feed_ok db" "feed_ok db'" using assms(1,2) step_feed_ok by (auto simp: feed_inv_def)
  note x = stay_eventD [OF assms(3)]
  from assms(1) ok(1) show ?thesis
  proof (cases rule: world_step_fed)
    case fed
    then obtain y where y: "y \<in> set (outbox db')" "event_moved x y" using x by (auto simp: fed_def grows_def)
    then show ?thesis using stay_eventI [OF ok(3) y(1)] x by (auto simp: event_moved_def same_event_def)
  next
    case delete
    have "x \<in> set (outbox db')" using deletion_keeps [OF delete, of _ x] x by simp
    from stay_eventI [OF ok(3) this] x have "stay_event leavers i db' = Some x" by simp
    then show ?thesis by simp
  qed
qed

lemma step_feed_inv: "feed_inv db \<Longrightarrow> world_step exc leavers db db' \<Longrightarrow> feed_inv db'"
  using step_feed_ok step_audited by (auto simp: feed_inv_def)

text \<open>A post is generated, shown, withdrawn; an event waits, then is delivered or dead.\<close>

interpretation post_life: lifecycle feed_inv "world_step exc leavers" "stay_post leavers" wp_status post_stage 2
proof
  fix s s' k p
  assume i: "feed_inv s" and st: "world_step exc leavers s s'" and l: "stay_post leavers k s = Some p"
  from step_post [OF st i l] obtain q where q: "stay_post leavers k s' = Some q" "post_moved p q" by blast
  then show "\<exists>r'. stay_post leavers k s' = Some r' \<and> (wp_status r' = wp_status p \<and> post_stage r' = post_stage p \<or> post_stage p < post_stage r')"
    by (auto simp: post_moved_def post_stage_def)
  show "stay_post leavers k s' = Some p" if "post_stage p = 2"
    using q that by (auto simp: post_moved_def)
qed (auto simp: step_feed_inv post_stage_def)

interpretation event_life: lifecycle feed_inv "world_step exc leavers" "stay_event leavers" event_stage event_stage 1
proof
  fix s s' k x
  assume i: "feed_inv s" and st: "world_step exc leavers s s'" and l: "stay_event leavers k s = Some x"
  from step_event [OF st i l] obtain y where y: "stay_event leavers k s' = Some y" "event_moved x y" by blast
  then show "\<exists>r'. stay_event leavers k s' = Some r' \<and> (event_stage r' = event_stage x \<and> event_stage r' = event_stage x \<or> event_stage x < event_stage r')"
    by (auto simp: event_moved_def)
  show "stay_event leavers k s' = Some x" if "event_stage x = 1"
    using y that by (auto simp: event_moved_def)
qed (auto simp: step_feed_inv event_stage_def)

end
