(* ===== verification/World_Delivery.thy ===== *)
theory World_Delivery
imports World_Jobs World_Outbox_Laws
begin

text \<open>
  The delivery of events: a lease is exclusive, and a batch of single-row updates is one update of
  the claimed rows. Then the user's post is idempotent.
\<close>

section \<open>Claims\<close>

abbreviation event_ids :: "world_db \<Rightarrow> bool" where
  "event_ids db \<equiv> unique_on (\<lambda>_. True) ob_id (outbox db)"

definition picked :: "int \<Rightarrow> int \<Rightarrow> int option \<Rightarrow> world_db \<Rightarrow> outbox_row list" where
  "picked n now stale db = sql_limit (max 1 n) (sort_key (\<lambda>x. (ob_available x, ob_id x))
     (filter (\<lambda>x. in_app (ob_world x) db \<and> due now stale x) (outbox db)))"

lemma picked_row: "x \<in> set (picked n now stale db) \<Longrightarrow> x \<in> set (outbox db) \<and> due now stale x"
  using set_sql_limit unfolding picked_def by fastforce

lemma due_still: "due now stale x \<Longrightarrow> ob_id x \<in> set ids \<Longrightarrow> still_due stale ids x"
  by (auto simp: due_def still_due_def split: option.splits)

text \<open>Under the claim's lock a row that was due is still due.\<close>

lemma still_picked:
  assumes "event_ids db" and "x \<in> set (outbox db)"
  shows "still_due stale (map ob_id (picked n now stale db)) x \<longleftrightarrow> ob_id x \<in> ob_id ` set (picked n now stale db)"
proof
  assume "ob_id x \<in> ob_id ` set (picked n now stale db)"
  then obtain y where y: "y \<in> set (picked n now stale db)" "ob_id x = ob_id y" by auto
  then have "x = y" using unique_onD [OF assms(1) assms(2)] picked_row by metis
  then show "still_due stale (map ob_id (picked n now stale db)) x" 
    using due_still [of now stale y] picked_row [OF y(1)] y by simp
qed (simp add: still_due_def)

lemma update_where_cong2: "(\<And>x. x \<in> set xs \<Longrightarrow> p x = q x) \<Longrightarrow> (\<And>x. x \<in> set xs \<Longrightarrow> q x \<Longrightarrow> f x = g x) \<Longrightarrow>
    update_where p f xs = update_where q g xs"
  by (simp add: update_where_def)

lemma claim_update:
  assumes "event_ids db" and "claim_companion_world_outbox n now token stale db = (rows, db1)"
  shows "db1 = db\<lparr>outbox := update_where (\<lambda>x. ob_id x \<in> ob_id ` set (picked n now stale db)) (leased now token) (outbox db)\<rparr>"
proof (cases "picked n now stale db = []")
  case True
  then show ?thesis using assms(2)
    by (simp add: claim_companion_world_outbox_def picked_def [symmetric] update_where_none)
next
  case False
  then have "db1 = db\<lparr>outbox := update_where (still_due stale (map ob_id (picked n now stale db))) (leased now token) (outbox db)\<rparr>"
    using assms(2) by (auto simp: claim_companion_world_outbox_def picked_def [symmetric] Let_def)
  moreover have "update_where (still_due stale (map ob_id (picked n now stale db))) (leased now token) (outbox db) =
      update_where (\<lambda>x. ob_id x \<in> ob_id ` set (picked n now stale db)) (leased now token) (outbox db)"
    by (rule update_where_cong2) (simp_all add: still_picked assms(1))
  ultimately show ?thesis by simp
qed

definition claimed_row :: "string \<Rightarrow> outbox_row \<Rightarrow> bool" where
  "claimed_row token x = (ob_token x = Some token \<and> ob_status x = ''processing'')"

lemma leased_set: "claimed_row token x \<and> ob_id x \<in> I \<and> x \<in> set (update_where (\<lambda>x. ob_id x \<in> I) (leased now token) xs) \<longleftrightarrow>
    (\<exists>y \<in> set xs. ob_id y \<in> I \<and> x = leased now token y)"
  by (induction xs) (auto simp: leased_def claimed_row_def)

lemma distinct_sorted: "unique_on (\<lambda>_. True) k xs \<Longrightarrow> distinct (map k (sort_key f (filter P xs)))"
  by (auto simp: unique_on_def distinct_map intro: inj_on_subset)

lemma claim_rows:
  assumes u: "event_ids db" and c: "claim_companion_world_outbox n now token stale db = (rows, db1)"
  shows "set rows = leased now token ` set (picked n now stale db)" and "distinct (map ob_id rows)"
    and "\<And>x. x \<in> set rows \<Longrightarrow> x \<in> set (outbox db1) \<and> claimed_row token x"
proof -
  let ?p = "picked n now stale db"
  note d = claim_update [OF u c]
  have u1: "event_ids db1" unfolding d by (simp add: unique_on_update leased_def u)
  have "rows = sort_key (\<lambda>x. (ob_available x, ob_id x))
      (filter (\<lambda>x. ob_token x = Some token \<and> ob_status x = ''processing'' \<and> ob_id x \<in> ob_id ` set ?p) (outbox db1)) \<or>
    rows = [] \<and> ?p = []"
    using c by (auto simp: claim_companion_world_outbox_def picked_def [symmetric] Let_def split: if_splits)
  then have r: "set rows = set (filter (\<lambda>x. claimed_row token x \<and> ob_id x \<in> ob_id ` set ?p) (outbox db1))"
    and m: "distinct (map ob_id rows)"
    unfolding claimed_row_def conj_assoc by (elim disjE; simp add: distinct_sorted [OF u1])+
  show "distinct (map ob_id rows)" by (rule m)
  show "x \<in> set (outbox db1) \<and> claimed_row token x" if "x \<in> set rows" for x using that by (simp add: r)
  show "set rows = leased now token ` set ?p"
  proof (rule set_eqI)
    fix x
    have "x \<in> set rows \<longleftrightarrow> (\<exists>y \<in> set (outbox db). ob_id y \<in> ob_id ` set ?p \<and> x = leased now token y)"
    proof -
      have o: "outbox db1 = update_where (\<lambda>x. ob_id x \<in> ob_id ` set ?p) (leased now token) (outbox db)"
        unfolding d by simp
      show ?thesis
        unfolding r set_filter mem_Collect_eq o leased_set [symmetric] by (simp only: conj_ac)
    qed
    also have "\<dots> \<longleftrightarrow> (\<exists>y \<in> set ?p. x = leased now token y)"
    proof
      assume "\<exists>y \<in> set (outbox db). ob_id y \<in> ob_id ` set ?p \<and> x = leased now token y"
      then obtain y z where yz: "y \<in> set (outbox db)" "z \<in> set ?p" "ob_id y = ob_id z" "x = leased now token y" by auto
      have "y = z" using unique_onD [OF u yz(1)] picked_row [OF yz(2)] yz(3) by blast
      then show "\<exists>y \<in> set ?p. x = leased now token y" using yz by blast
    qed (use picked_row in blast)
    finally show "x \<in> set rows \<longleftrightarrow> x \<in> leased now token ` set ?p" by (simp add: image_iff)
  qed
qed

text \<open>A row that another worker holds is neither returned nor touched.\<close>

lemma held_not_picked:
  assumes "event_ids db" "x \<in> set (outbox db)" "ob_status x = ''processing''" "ob_claimed x = Some c" "opt_all (\<lambda>s. s < c) stale"
  shows "ob_id x \<notin> ob_id ` set (picked n now stale db)"
proof
  assume "ob_id x \<in> ob_id ` set (picked n now stale db)"
  then obtain y where "y \<in> set (picked n now stale db)" "ob_id x = ob_id y" by auto
  moreover from this have "x = y" using unique_onD [OF assms(1,2)] picked_row by metis
  ultimately have "due now stale x" using picked_row by blast
  then show False using assms(3-5) by (auto simp: due_def known_def split: option.splits)
qed

section \<open>A batch\<close>

text \<open>What the batch makes of a claimed row, as a specification.\<close>

definition settle :: "(outbox_row \<Rightarrow> string option) \<Rightarrow> int \<Rightarrow> int \<Rightarrow> int \<Rightarrow> outbox_row \<Rightarrow> outbox_row" where
  "settle publisher now max_attempts base x = (case publisher x of
     None \<Rightarrow> x\<lparr>ob_status := ''delivered'', ob_delivered := Some (db_time now), ob_token := None, ob_error := None\<rparr>
   | Some e \<Rightarrow> x\<lparr>ob_status := (if max 1 max_attempts \<le> ob_attempts x then ''dead'' else ''pending''),
       ob_available := db_time (now + backoff base (max 1 (ob_attempts x)) * 1000000), ob_token := None,
       ob_claimed := None, ob_error := Some (take 1000 e)\<rparr>)"

lemma settle_id [simp]: "ob_id (settle publisher now m b x) = ob_id x"
  by (simp add: settle_def split: option.split)

lemma update_twice:
  assumes "\<And>x. k (f x) = k x" and "i \<notin> I"
  shows "update_where (\<lambda>x. k x \<in> I) f (update_where (\<lambda>x. k x = i) f xs) = update_where (\<lambda>x. k x = i \<or> k x \<in> I) f xs"
  using assms by (auto simp: update_where_def)

lemma deliver_exact:
  "event_ids db \<Longrightarrow> distinct (map ob_id rows) \<Longrightarrow> (\<And>x. x \<in> set rows \<Longrightarrow> x \<in> set (outbox db) \<and> claimed_row token x) \<Longrightarrow>
     deliver_rows publisher token now m b rows d db = ((d', keys), db') \<Longrightarrow>
     db' = db\<lparr>outbox := update_where (\<lambda>x. ob_id x \<in> ob_id ` set rows) (settle publisher now m b) (outbox db)\<rparr> \<and>
     keys = map ob_key rows \<and>
     dl_delivered d' = dl_delivered d + count_where (\<lambda>x. publisher x = None) rows \<and>
     dl_failed d' = dl_failed d + count_where (\<lambda>x. publisher x \<noteq> None) rows \<and>
     dl_dead d' = dl_dead d + count_where (\<lambda>x. publisher x \<noteq> None \<and> max 1 m \<le> ob_attempts x) rows"
proof (induction rows arbitrary: db db' d d' keys)
  case Nil
  then show ?case by (simp add: update_where_none)
next
  case (Cons x rows)
  let ?f = "settle publisher now m b"
  let ?d1 = "db\<lparr>outbox := update_where (\<lambda>y. ob_id y = ob_id x) ?f (outbox db)\<rparr>"
  have x: "x \<in> set (outbox db)" "claimed_row token x" using Cons.prems(3) by auto
  have only: "y = x" if "y \<in> set (outbox db)" "ob_id y = ob_id x" for y
    using unique_onD [OF Cons.prems(1) that(1) x(1)] that(2) by simp
  have up: "update_where (lease_of (ob_id x) token) g (outbox db) = update_where (\<lambda>y. ob_id y = ob_id x) ?f (outbox db)"
    if "g x = ?f x" for g
    by (rule update_where_cong2) (use x(2) only that in \<open>auto simp: lease_of_def claimed_row_def\<close>)
  have u1: "event_ids ?d1" by (simp add: unique_on_update Cons.prems(1))
  have found: "find_outbox (ob_id x) ?d1 = Some (?f x)"
    unfolding find_outbox_def
    by (rule found_unique [OF u1]) (use x(1) in \<open>auto simp: set_update_where\<close>)
  have rest: "y \<in> set (outbox ?d1) \<and> claimed_row token y" if "y \<in> set rows" for y
  proof -
    have "ob_id y \<noteq> ob_id x" using Cons.prems(2) that by (metis distinct.simps(2) image_eqI list.simps(9) set_map)
    then show ?thesis using Cons.prems(3) that by (auto simp: set_update_where image_iff intro!: bexI [of _ y])
  qed
  have glue: "update_where (\<lambda>y. ob_id y \<in> ob_id ` set rows) ?f (outbox ?d1) =
      update_where (\<lambda>y. ob_id y \<in> ob_id ` set (x # rows)) ?f (outbox db)"
    using update_twice [of ob_id ?f "ob_id x" "ob_id ` set rows" "outbox db"] Cons.prems(2) by simp
  obtain d1 where step: "(case publisher x of
          None \<Rightarrow> (case complete_companion_world_outbox (ob_id x) token (db_time now) db of (y, db1) \<Rightarrow>
            (if map_option ob_status y = Some ''delivered'' then d\<lparr>dl_delivered := dl_delivered d + 1\<rparr> else d, db1))
        | Some error \<Rightarrow>
            (case fail_companion_world_outbox (ob_id x) token error
                (db_time (now + backoff b (max 1 (ob_attempts x)) * 1000000)) m db of (y, db1) \<Rightarrow>
              (let d1 = d\<lparr>dl_failed := dl_failed d + 1\<rparr>
               in (if map_option ob_status y = Some ''dead'' then d1\<lparr>dl_dead := dl_dead d1 + 1\<rparr> else d1, db1)))) = (d1, ?d1)"
    and d1: "dl_delivered d1 = dl_delivered d + (if publisher x = None then 1 else 0)"
      "dl_failed d1 = dl_failed d + (if publisher x \<noteq> None then 1 else 0)"
      "dl_dead d1 = dl_dead d + (if publisher x \<noteq> None \<and> max 1 m \<le> ob_attempts x then 1 else 0)"
  proof (cases "publisher x")
    case None
    have g: "?f x = x\<lparr>ob_status := ''delivered'', ob_delivered := Some (db_time now), ob_token := None, ob_error := None\<rparr>"
      by (simp add: settle_def None)
    show thesis
      by (rule that [of "d\<lparr>dl_delivered := dl_delivered d + 1\<rparr>"])
        (simp_all add: None complete_companion_world_outbox_def up g found)
  next
    case (Some e)
    have g: "?f x = x\<lparr>ob_status := (if max 1 m \<le> ob_attempts x then ''dead'' else ''pending''),
       ob_available := db_time (now + backoff b (max 1 (ob_attempts x)) * 1000000), ob_token := None,
       ob_claimed := None, ob_error := Some (take 1000 e)\<rparr>"
      by (simp add: settle_def Some)
    show thesis
      by (rule that [of "let d1 = d\<lparr>dl_failed := dl_failed d + 1\<rparr> in if max 1 m \<le> ob_attempts x then d1\<lparr>dl_dead := dl_dead d1 + 1\<rparr> else d1"])
        (simp_all add: Some fail_companion_world_outbox_def up g found Let_def)
  qed
  obtain d2 ks db2 where r: "deliver_rows publisher token now m b rows d1 ?d1 = ((d2, ks), db2)" by (metis prod.exhaust)
  have e: "d' = d2" "keys = ob_key x # ks" "db' = db2" using Cons.prems(4) r by (simp_all add: step)
  have "distinct (map ob_id rows)" using Cons.prems(2) by simp
  from Cons.IH [OF u1 this rest r] show ?case unfolding e glue [symmetric] by (simp add: d1)
qed

section \<open>A user's post again\<close>

text \<open>What a post under a request leaves: the row, its event, and the world it was accepted in.\<close>

definition user_posted :: "string \<Rightarrow> string \<Rightarrow> string \<Rightarrow> feed_post \<Rightarrow> world_db \<Rightarrow> bool" where
  "user_posted owner request fingerprint y db = (\<exists>w p x.
     find_row (\<lambda>u. uv_owner u = owner \<and> uv_app u = MINGCHAN_APP_ID) (universes db) = Some w \<and>
     uv_status w = ''active'' \<and> uv_onboarding w = ''confirmed'' \<and> has_active_resident (uv_id w) db \<and>
     find_row (request_of (uv_id w) owner request) (world_posts db) = Some p \<and>
     (case wp_fingerprint p of None \<Rightarrow> [] | Some f \<Rightarrow> f) = fingerprint \<and>
     find_row (\<lambda>x. ob_key x = published_key (wp_id p)) (outbox db) = Some x \<and>
     ob_post x = wp_id p \<and> ob_payload x = published_payload p \<and>
     get_universe_post_for_owner (wp_id p) owner db = Some y)"

lemma outbox_found: "insert_outbox o1 db = Inr (x, db') \<Longrightarrow>
    find_row (\<lambda>y. ob_key y = ob_key o1) (outbox db') = x \<and> (\<exists>rows. db' = db\<lparr>outbox := rows\<rparr>)"
  using insert_outbox_effect by (fastforce simp: insert_outbox_def and_then_Inr)

lemma reference_rows: "reference_media review ow is db = Inr db' \<Longrightarrow> \<exists>ms. db' = db\<lparr>media_assets := ms\<rparr>"
proof (induction "is" arbitrary: db)
  case (Cons i "is")
  then show ?case by (fastforce split: if_splits)
qed (auto intro: exI [of _ "media_assets db'"])

lemma attach_rows: "attach_media p n is db = Inr db' \<Longrightarrow> \<exists>ms. db' = db\<lparr>post_media := ms\<rparr>"
proof (induction "is" arbitrary: n db)
  case (Cons i "is")
  then show ?case by (fastforce split: if_splits)
qed (auto intro: exI [of _ "post_media db'"])

lemma media_rows:
  assumes "(if b then and_then (case mark_media_assets_referenced review media ow db of
      Inl (ValueError _) \<Rightarrow> Inl (ValueError ''media_ref_invalid'') | x \<Rightarrow> x) (attach_media p 0 media) else Inr db) = Inr db'"
  shows "universes db' = universes db \<and> residents db' = residents db \<and> world_posts db' = world_posts db"
  using assms
  by (auto simp: and_then_Inr mark_media_assets_referenced_def Let_def split: if_splits sum.splits err.splits
      dest!: reference_rows attach_rows)

lemma add_post_rows [simp]: "universes (add_post p db) = universes db" "residents (add_post p db) = residents db"
  by (simp_all add: add_post_def)

lemma publish_user_posted:
  "res_all (\<lambda>r. user_posted ow rq fp (fst (fst r)) (snd r)) (publish_user_feed_post_with_outbox ids review ow rq txt fp now ms db)"
proof -
  have fin: "user_posted ow rq fp y d3"
    if u: "find_row (\<lambda>u. uv_owner u = ow \<and> uv_app u = MINGCHAN_APP_ID) (universes db) = Some w"
      "\<not> uv_status w \<noteq> ''active''" "\<not> (uv_onboarding w \<noteq> ''confirmed'' \<or> \<not> has_active_resident (uv_id w) db)"
    and p: "find_row (request_of (uv_id w) ow rq) (world_posts (add_post p0 db)) = Some p"
      "\<not> (case wp_fingerprint p of None \<Rightarrow> [] | Some f \<Rightarrow> f) \<noteq> fp"
    and m: "(if b then and_then (case mark_media_assets_referenced review media ow (add_post p0 db) of
      Inl (ValueError _) \<Rightarrow> Inl (ValueError ''media_ref_invalid'') | x \<Rightarrow> x) (attach_media (wp_id p) 0 media) else Inr (add_post p0 db)) = Inr d2"
    and i: "insert_outbox (outbox_pending oid (wp_world p) (wp_id p) published_type (published_key (wp_id p)) (published_payload p) t) d2 = Inr (Some x, d3)"
    and x: "\<not> (ob_post x \<noteq> wp_id p \<or> ob_payload x \<noteq> published_payload p)"
    and y: "get_universe_post_for_owner (wp_id p) ow d3 = Some y"
    for w p0 p b media d2 oid t x d3 y
  proof -
    from outbox_found [OF i] obtain rows where d3: "d3 = d2\<lparr>outbox := rows\<rparr>"
      and f: "find_row (\<lambda>y. ob_key y = published_key (wp_id p)) (outbox d3) = Some x"
      by (auto simp: outbox_pending_def)
    have same: "universes d3 = universes db" "residents d3 = residents db" "world_posts d3 = world_posts (add_post p0 db)"
      using media_rows [OF m] by (simp_all add: d3)
    have "has_active_resident (uv_id w) d3" using u(3) by (simp add: has_active_resident_def same)
    then show ?thesis
      unfolding user_posted_def using u p x y f by (intro exI [of _ w] exI [of _ p] exI [of _ x]) (simp add: same)
  qed
  show ?thesis
    unfolding publish_user_feed_post_with_outbox_def Let_def
    by (intro res_all_rules; simp only: fst_conv snd_conv) (rule fin; assumption?; simp)
qed

lemma posted_again:
  assumes "user_posted ow rq fp y db" and fresh: "list_all (\<lambda>p. wp_id p \<noteq> hi_post ids) (world_posts db)"
  shows "publish_user_feed_post_with_outbox ids review ow rq txt fp now ms db = Inr ((y, False), db)"
proof -
  from assms(1) obtain w p x where
    w: "find_row (\<lambda>u. uv_owner u = ow \<and> uv_app u = MINGCHAN_APP_ID) (universes db) = Some w"
      "uv_status w = ''active''" "uv_onboarding w = ''confirmed''" "has_active_resident (uv_id w) db"
    and p: "find_row (request_of (uv_id w) ow rq) (world_posts db) = Some p"
      "(case wp_fingerprint p of None \<Rightarrow> [] | Some f \<Rightarrow> f) = fp"
    and x: "find_row (\<lambda>x. ob_key x = published_key (wp_id p)) (outbox db) = Some x" "ob_post x = wp_id p"
      "ob_payload x = published_payload p"
    and y: "get_universe_post_for_owner (wp_id p) ow db = Some y"
    unfolding user_posted_def by blast
  have pm: "p \<in> set (world_posts db)" "request_of (uv_id w) ow rq p" using find_row_Some [OF p(1)] by simp_all
  have add: "add_post ((plain_post i (uv_id w) ''human'' ''user_post'' now)\<lparr>wp_user := Some ow, wp_content_type := c,
      wp_text := t, wp_request := Some rq, wp_fingerprint := f, wp_published := z\<rparr>) db = db" for i c t f z
    using pm by (auto simp: add_post_def list_ex_iff post_conflict_def plain_post_def request_of_def)
  have "ob_key x = published_key (wp_id p)" "x \<in> set (outbox db)" using find_row_Some [OF x(1)] by simp_all
  then have out: "insert_outbox (outbox_pending oid v (wp_id p) published_type (published_key (wp_id p)) pl t) db = Inr (Some x, db)"
    for oid v pl t using x(1) by (auto simp: insert_outbox_def outbox_pending_def image_iff intro!: bexI [of _ x])
  have "wp_id p \<noteq> hi_post ids" using fresh pm(1) by (auto simp: list_all_iff)
  then show ?thesis
    unfolding publish_user_feed_post_with_outbox_def Let_def by (simp add: w p x y out add)
qed

lemma publish_user_post_Inr:
  assumes "publish_user_post sha ids review user rq txt now media db = Inr r"
  shows "publish_user_feed_post_with_outbox ids review user (py_strip rq) (py_strip txt)
      (user_post_fingerprint sha (py_strip txt) (map py_strip media)) now (map py_strip media) db = Inr r"
    and "publish_user_post sha ids' review' user rq txt now' media db' =
      as_domain_error [''world_not_ready'', ''world_disabled'', ''idempotency_conflict'', ''media_ref_invalid'']
        (publish_user_feed_post_with_outbox ids' review' user (py_strip rq) (py_strip txt)
          (user_post_fingerprint sha (py_strip txt) (map py_strip media)) now' (map py_strip media) db')"
  using assms by (auto simp: publish_user_post_def Let_def as_domain_error_def split: if_splits sum.splits err.splits)

end
