(* ===== verification/World_Feed_Properties.thy ===== *)
theory World_Feed_Properties
imports World_Delivery World_Samples
begin

text \<open>
  What the feed and its outbox guarantee, with the witnesses on the small world of
  \<open>World_Samples\<close>: a post of the user, its withdrawal, the delivery of their events.
\<close>

section \<open>A small feed\<close>

definition sample_posting :: "((feed_post \<times> bool) \<times> world_db) res" where
  "sample_posting = publish_user_feed_post_with_outbox sample_home_ids True ''user_1'' ''request_1'' ''hello''
     ''print'' 300 [] sample_world"

definition posted_world :: world_db where
  "posted_world = (case sample_posting of Inl _ \<Rightarrow> sample_world | Inr (_, db) \<Rightarrow> db)"

definition sample_retiring :: "((feed_post \<times> bool) \<times> world_db) res" where
  "sample_retiring = retire_feed_post_with_outbox ''o10'' ''user_1'' ''p9'' ''owner_deleted'' 400 (Some ''human'') []
     posted_world"

definition retired_world :: world_db where
  "retired_world = (case sample_retiring of Inl _ \<Rightarrow> posted_world | Inr (_, db) \<Rightarrow> db)"

definition leased_world :: world_db where
  "leased_world = snd (claim_companion_world_outbox 1 500 ''tok'' None retired_world)"

definition delivered_world :: world_db where
  "delivered_world = snd (complete_companion_world_outbox ''o9'' ''tok'' 600 leased_world)"

lemma sample_feed_inv: "feed_inv sample_world" "feed_inv posted_world" "feed_inv retired_world" "feed_inv delivered_world"
  by code_simp+

lemma answered: "case m of Inl _ \<Rightarrow> False | Inr _ \<Rightarrow> True \<Longrightarrow> \<exists>p. m = Inr (p, case m of Inl _ \<Rightarrow> d | Inr (_, db) \<Rightarrow> db)"
  for m :: "('x \<times> 'y) res"
proof (cases m)
  case (Inr r)
  then show ?thesis by (cases r) simp
qed simp

lemma sample_posted: "\<exists>p. sample_posting = Inr (p, posted_world)"
proof -
  have "case sample_posting of Inl _ \<Rightarrow> False | Inr _ \<Rightarrow> True" by code_simp
  then show ?thesis unfolding posted_world_def by (rule answered)
qed

lemma sample_retired: "\<exists>p. sample_retiring = Inr (p, retired_world)"
proof -
  have "case sample_retiring of Inl _ \<Rightarrow> False | Inr _ \<Rightarrow> True" by code_simp
  then show ?thesis unfolding retired_world_def by (rule answered)
qed

lemma sample_feed_steps:
  "world_step exc ls sample_world posted_world" "world_step exc ls posted_world retired_world"
  "world_step exc ls retired_world leased_world" "world_step exc ls leased_world delivered_world"
proof -
  show "world_step exc ls sample_world posted_world"
    using sample_posted unfolding sample_posting_def by (metis world_step.publish_user)
  show "world_step exc ls posted_world retired_world"
    using sample_retired unfolding sample_retiring_def by (metis world_step.retire)
  show "world_step exc ls retired_world leased_world"
    unfolding leased_world_def by (rule world_step.claim_outbox) (rule surjective_pairing)
  show "world_step exc ls leased_world delivered_world"
    unfolding delivered_world_def by (rule world_step.complete) (rule surjective_pairing)
qed

section \<open>The transactional outbox\<close>

text \<open>C4: whatever the workers, the users, the staff and the deletions of accounts do, in any order,
  a post that was shown has its publication event, a withdrawn post its withdrawal event too, no key
  occurs twice, and every event names a post of its world.\<close>

theorem every_post_announced:
  assumes "feed_inv db0" and "(world_step exc leavers)\<^sup>*\<^sup>* db0 db"
  shows "list_all (announced db) (world_posts db) \<and> list_all (names_post db) (outbox db) \<and>
    unique_on (\<lambda>_. True) ob_key (outbox db)"
proof -
  have "feed_inv db" using assms(2,1) by (rule post_life.reach_inv)
  then show ?thesis by (simp add: feed_inv_def feed_ok_def events_ok_def)
qed

theorem every_post_announced_witness:
  "list_all (announced retired_world) (world_posts retired_world) \<and>
    map ob_type (outbox retired_world) = [published_type, deleted_type]"
proof -
  have "map ob_type (outbox retired_world) = [published_type, deleted_type]" by code_simp
  moreover have "(world_step True [])\<^sup>*\<^sup>* sample_world retired_world"
    using sample_feed_steps(1,2) by (meson converse_rtranclp_into_rtranclp r_into_rtranclp)
  ultimately show ?thesis using every_post_announced [OF sample_feed_inv(1)] by blast
qed

text \<open>In every history a world has at most one generated post per date and slot, however many
  workers generate.\<close>

theorem slot_posts_unique:
  assumes "feed_inv db0" and "(world_step exc leavers)\<^sup>*\<^sup>* db0 db"
    and "p \<in> set (world_posts db)" and "q \<in> set (world_posts db)" and "slot_post w date slot p" and "slot_post w date slot q"
  shows "p = q"
proof -
  have "feed_inv db" using assms(2,1) by (rule post_life.reach_inv)
  then have "unique_on (\<lambda>p. wp_source_type p = ''ai_feed'') (\<lambda>p. (wp_world p, wp_date p, wp_slot p)) (world_posts db)"
    by (simp add: feed_inv_def feed_ok_def posts_ok_def)
  from unique_onD [OF this assms(3,4)] assms(5,6) show ?thesis by (simp add: slot_post_def)
qed

definition raced_world :: world_db where
  "raced_world = (let claim = (\<lambda>i token db. case claim_ai_feed_slot i ''w1'' ''r1'' ''2026-07-26'' ''morning'' 900 token 100
       None None db of Inl _ \<Rightarrow> db | Inr (_, db') \<Rightarrow> db') in claim ''q2'' ''tok_2'' (claim ''q1'' ''tok_1'' sample_world))"

theorem slot_posts_unique_witness:
  "\<exists>p. find_row (slot_post ''w1'' ''2026-07-26'' ''morning'') (world_posts raced_world) = Some p \<and>
    find_row (slot_post ''w1'' ''2026-07-26'' ''morning'') (rev (world_posts raced_world)) = Some p"
proof -
  let ?s = "slot_post ''w1'' ''2026-07-26'' ''morning''"
  have "case (find_row ?s (world_posts raced_world), find_row ?s (rev (world_posts raced_world))) of
    (Some _, Some _) \<Rightarrow> True | _ \<Rightarrow> False" by code_simp
  then obtain p q where f: "find_row ?s (world_posts raced_world) = Some p" "find_row ?s (rev (world_posts raced_world)) = Some q"
    by (auto split: option.splits)
  have "feed_inv raced_world" by code_simp
  from slot_posts_unique [OF this rtranclp.rtrancl_refl, of p q] find_row_Some [OF f(1)] find_row_Some [OF f(2)] f
  show ?thesis by auto
qed

text \<open>C7: a post that was withdrawn or given up is final: while its owner stays, no later transaction
  changes its row, so no retry, late publication or second withdrawal can revive it.\<close>

theorem withdrawn_post_final:
  assumes "feed_inv db0" and "(world_step exc leavers)\<^sup>*\<^sup>* db0 db"
    and "stay_post leavers i db0 = Some p" and "wp_status p = ''deleted'' \<or> wp_status p = ''skipped''"
  shows "stay_post leavers i db = Some p"
  by (rule post_life.reach_frozen [OF assms(2,1,3)]) (use assms(4) in \<open>auto simp: post_stage_def\<close>)

theorem withdrawn_post_final_witness: "stay_post [] ''p9'' delivered_world = stay_post [] ''p9'' retired_world"
proof -
  have "case stay_post [] ''p9'' retired_world of None \<Rightarrow> False | Some p \<Rightarrow> wp_status p = ''deleted''" by code_simp
  then obtain p where p: "stay_post [] ''p9'' retired_world = Some p" "wp_status p = ''deleted''"
    by (auto split: option.splits)
  have "(world_step True [])\<^sup>*\<^sup>* retired_world delivered_world"
    using sample_feed_steps(3,4) by (meson converse_rtranclp_into_rtranclp r_into_rtranclp)
  from withdrawn_post_final [OF sample_feed_inv(3) this p(1)] p show ?thesis by simp
qed

text \<open>An event that was delivered or given up is final: while its owner stays, no worker delivers,
  fails or reclaims it again.\<close>

theorem delivered_event_final:
  assumes "feed_inv db0" and "(world_step exc leavers)\<^sup>*\<^sup>* db0 db"
    and "stay_event leavers i db0 = Some x" and "ob_status x = ''delivered'' \<or> ob_status x = ''dead''"
  shows "stay_event leavers i db = Some x"
  by (rule event_life.reach_frozen [OF assms(2,1,3)]) (use assms(4) in \<open>auto simp: event_stage_def\<close>)

theorem delivered_event_final_witness:
  "stay_event [] ''o9'' (snd (claim_companion_world_outbox 9 700 ''late'' (Some 650) delivered_world)) =
    stay_event [] ''o9'' delivered_world"
proof -
  have "case stay_event [] ''o9'' delivered_world of None \<Rightarrow> False | Some x \<Rightarrow> ob_status x = ''delivered''" by code_simp
  then obtain x where x: "stay_event [] ''o9'' delivered_world = Some x" "ob_status x = ''delivered''"
    by (auto split: option.splits)
  have "world_step True [] delivered_world (snd (claim_companion_world_outbox 9 700 ''late'' (Some 650) delivered_world))"
    by (rule world_step.claim_outbox) (rule surjective_pairing)
  from delivered_event_final [OF sample_feed_inv(4) r_into_rtranclp, OF this x(1)] x show ?thesis by simp
qed

section \<open>Delivery\<close>

text \<open>C6: a lease is exclusive: while it is not stale, no other worker claims the event, and a worker
  without its token neither completes nor fails it.\<close>

theorem lease_is_exclusive:
  assumes "unique_on (\<lambda>_. True) ob_id (outbox db)" and "find_outbox i db = Some x" and "ob_status x = ''processing''"
    and "ob_token x = Some token" and "ob_claimed x = Some c" and "opt_all (\<lambda>s. s < c) stale" and "token' \<noteq> token"
  shows "find_outbox i (snd (claim_companion_world_outbox n now token' stale db)) = Some x \<and>
    i \<notin> ob_id ` set (fst (claim_companion_world_outbox n now token' stale db)) \<and>
    find_outbox i (snd (complete_companion_world_outbox j token' now db)) = Some x \<and>
    find_outbox i (snd (fail_companion_world_outbox j token' e next m db)) = Some x"
proof -
  from find_row_Some [OF assms(2) [unfolded find_outbox_def]] have x: "x \<in> set (outbox db)" "ob_id x = i" by simp_all
  have keep: "find_outbox i (db\<lparr>outbox := update_where q f (outbox db)\<rparr>) = Some x"
    if "\<not> q x" "\<And>y. ob_id (f y) = ob_id y" for q f
    using assms(2) that by (simp add: find_outbox_def find_row_update_where)
  obtain rows db1 where c: "claim_companion_world_outbox n now token' stale db = (rows, db1)" by fastforce
  have np: "i \<notin> ob_id ` set (picked n now stale db)"
    using held_not_picked [OF assms(1) x(1) assms(3,5,6)] x(2) by simp
  then have "find_outbox i db1 = Some x"
    unfolding claim_update [OF assms(1) c] using x(2) by (intro keep) (simp_all add: leased_def)
  moreover have "i \<notin> ob_id ` set rows"
    using np unfolding claim_rows(1) [OF assms(1) c] by (auto simp: image_image leased_def)
  moreover have "\<not> lease_of j token' x" using assms(4,7) by (simp add: lease_of_def)
  ultimately show ?thesis
    by (simp add: c complete_companion_world_outbox_def fail_companion_world_outbox_def keep Let_def)
qed

theorem lease_is_exclusive_witness:
  "find_outbox ''o9'' (snd (fail_companion_world_outbox ''o9'' ''other'' ''boom'' 900 3 leased_world)) =
    find_outbox ''o9'' leased_world"
proof -
  have "unique_on (\<lambda>_. True) ob_id (outbox leased_world)" by code_simp
  moreover have "case find_outbox ''o9'' leased_world of None \<Rightarrow> False
    | Some x \<Rightarrow> ob_status x = ''processing'' \<and> ob_token x = Some ''tok'' \<and> ob_claimed x = Some 500" by code_simp
  then obtain x where x: "find_outbox ''o9'' leased_world = Some x" "ob_status x = ''processing''" "ob_token x = Some ''tok''"
    "ob_claimed x = Some 500" by (auto split: option.splits)
  ultimately show ?thesis using lease_is_exclusive [of leased_world "''o9''" x "''tok''" 500 None "''other''"] by simp
qed

text \<open>C5: a batch of deliveries, written as a loop of claims and single-row updates, is one update of the
  picked rows by \<open>settle\<close>: handed to the publisher once each, then delivered, put back with the
  backoff, or dead at the last attempt.\<close>

theorem dispatch_is_one_update:
  assumes "unique_on (\<lambda>_. True) ob_id (outbox db)"
    and "dispatch_world_outbox_batch publisher token n lease m base now db = ((k, d, keys, metrics), db')"
    and "rows = picked n (db_time now) (Some (db_time (now - max 1 lease * 1000000))) db"
  shows "db' = db\<lparr>outbox := update_where (\<lambda>x. ob_id x \<in> ob_id ` set rows)
      (\<lambda>x. settle publisher now m base (leased (db_time now) token x)) (outbox db)\<rparr> \<and>
    k = length keys \<and> set keys = ob_key ` set rows \<and> dl_delivered d + dl_failed d = k"
proof -
  obtain cs db1 where c: "claim_companion_world_outbox n (db_time now) token (Some (db_time (now - max 1 lease * 1000000))) db =
      (cs, db1)" by fastforce
  note c1 = claim_update [OF assms(1) c, folded assms(3)] and c2 = claim_rows [OF assms(1) c, folded assms(3)]
  have u: "event_ids db1" unfolding c1 using assms(1) by (simp add: unique_on_update leased_def)
  obtain d1 ks db2 where r: "deliver_rows publisher token now m base cs \<lparr>dl_delivered = 0, dl_failed = 0, dl_dead = 0\<rparr> db1 =
      ((d1, ks), db2)" by (metis prod.exhaust)
  have e: "k = length cs" "d = d1" "keys = ks" "db' = db2"
    using assms(2) by (simp_all add: dispatch_world_outbox_batch_def c r)
  note x = deliver_exact [OF u c2(2,3) r]
  have "ob_id ` set cs = ob_id ` set rows" unfolding c2(1) by (auto simp: image_image leased_def)
  moreover have "update_where P f (update_where P g xs) = update_where P (\<lambda>x. f (g x)) xs"
    if "\<And>x. P x \<Longrightarrow> P (g x)" for P f g and xs :: "outbox_row list"
    using that by (auto simp: update_where_def)
  ultimately have "db' = db\<lparr>outbox := update_where (\<lambda>x. ob_id x \<in> ob_id ` set rows)
      (\<lambda>x. settle publisher now m base (leased (db_time now) token x)) (outbox db)\<rparr>"
    using x unfolding e(4) by (simp add: c1 leased_def)
  moreover have "ob_key ` set cs = ob_key ` set rows" unfolding c2(1) by (simp add: image_image leased_def)
  then have "set keys = ob_key ` set rows" using x unfolding e(3) by simp
  moreover have "count_where (\<lambda>x. publisher x = None) ys + count_where (\<lambda>x. publisher x \<noteq> None) ys = length ys" for ys
    by (induction ys) auto
  ultimately show ?thesis using x e by simp
qed

theorem dispatch_is_one_update_witness:
  "map ob_status (outbox (snd (dispatch_world_outbox_batch
      (\<lambda>x. if ob_type x = deleted_type then Some ''down'' else None) ''w'' 5 60 3 30 900000000 retired_world))) =
    [''delivered'', ''pending'']"
proof -
  let ?pub = "\<lambda>x. if ob_type x = deleted_type then Some ''down'' else None"
  let ?rows = "picked 5 900 (Some 840) retired_world"
  obtain k d keys mx db' where c: "dispatch_world_outbox_batch ?pub ''w'' 5 60 3 30 900000000 retired_world = ((k, d, keys, mx), db')"
    by (metis prod.exhaust)
  have "unique_on (\<lambda>_. True) ob_id (outbox retired_world)" by code_simp
  from dispatch_is_one_update [OF this c refl]
  have "snd (dispatch_world_outbox_batch ?pub ''w'' 5 60 3 30 900000000 retired_world) = retired_world\<lparr>outbox :=
      update_where (\<lambda>x. ob_id x \<in> ob_id ` set ?rows) (\<lambda>x. settle ?pub 900000000 3 30 (leased 900 ''w'' x)) (outbox retired_world)\<rparr>"
    unfolding c by (simp add: db_time_def)
  moreover have "map ob_status (update_where (\<lambda>x. ob_id x \<in> ob_id ` set ?rows)
      (\<lambda>x. settle ?pub 900000000 3 30 (leased 900 ''w'' x)) (outbox retired_world)) = [''delivered'', ''pending'']"
    by code_simp
  ultimately show ?thesis by simp
qed

section \<open>Users\<close>

text \<open>Publishing is idempotent: the same request, at any later time and with any drawn ids, answers
  the post that was stored, reports that nothing was created, and changes nothing.\<close>

theorem user_post_idempotent:
  assumes "publish_user_post sha ids review user rq txt now media db = Inr ((y, created), db1)"
    and "list_all (\<lambda>p. wp_id p \<noteq> hi_post ids') (world_posts db1)"
  shows "publish_user_post sha ids' review' user rq txt now' media db1 = Inr ((y, False), db1)"
proof -
  from res_allD [OF publish_user_posted publish_user_post_Inr(1) [OF assms(1)]]
  have "user_posted user (py_strip rq) (user_post_fingerprint sha (py_strip txt) (map py_strip media)) y db1" by simp
  from posted_again [OF this assms(2)] show ?thesis
    unfolding publish_user_post_Inr(2) [OF assms(1)] by (simp add: as_domain_error_def)
qed

theorem user_post_idempotent_witness:
  "\<exists>y db1. publish_user_post (\<lambda>s. s) sample_home_ids True ''user_1'' ''request_1'' '' hi '' 300 [] sample_world = Inr ((y, True), db1) \<and>
    publish_user_post (\<lambda>s. s) (sample_home_ids\<lparr>hi_post := ''p10''\<rparr>) False ''user_1'' ''request_1'' '' hi '' 999 [] db1 =
      Inr ((y, False), db1)"
proof -
  let ?m = "publish_user_post (\<lambda>s. s) sample_home_ids True ''user_1'' ''request_1'' '' hi '' 300 [] sample_world"
  have "case ?m of Inl _ \<Rightarrow> False | Inr ((_, created), db) \<Rightarrow> created \<and> list_all (\<lambda>p. wp_id p \<noteq> ''p10'') (world_posts db)"
    by code_simp
  then obtain y db1 where r: "?m = Inr ((y, True), db1)" and f: "list_all (\<lambda>p. wp_id p \<noteq> ''p10'') (world_posts db1)"
    by (cases ?m) auto
  have "list_all (\<lambda>p. wp_id p \<noteq> hi_post (sample_home_ids\<lparr>hi_post := ''p10''\<rparr>)) (world_posts db1)" using f by simp
  from r user_post_idempotent [OF r this] show ?thesis by blast
qed

end
