(* ===== verification/World_Limits.thy ===== *)
theory World_Limits
imports World_Outbox_Laws World_Samples
begin

text \<open>
  Two limits of the companion worlds: what the deletion of an account leaves of the choice of
  residents, and which evidence a departure is judged by.
\<close>

section \<open>After the deletion of an account\<close>

text \<open>Every resident of the world is dismissed, and every template of the catalog has its row there.\<close>

definition locked_out :: "string \<Rightarrow> world_db \<Rightarrow> bool" where
  "locked_out w db = (list_all (\<lambda>r. rs_universe r \<noteq> w \<or> rs_status r = ''dismissed'') (residents db) \<and>
     list_all (\<lambda>t. list_ex (candidate_of w (ct_id t)) (residents db)) (list_initial_templates db))"

lemma locked_list: "locked_out w db \<Longrightarrow> list_candidates w ss db = [] \<or>
    list_all (\<lambda>c. rs_status (cd_row c) = ''dismissed'') (list_candidates w ss db)"
  by (auto simp: locked_out_def list_candidates_def list_all_iff)

lemma locked_candidates:
  assumes "locked_out w db"
  shows "list_candidates w [''candidate''] db = []"
proof -
  have "\<not> (rs_universe r = w \<and> not_legacy r \<and> rs_status r \<in> set [''candidate''])" if "r \<in> set (residents db)" for r
    using assms that by (auto simp: locked_out_def list_all_iff)
  then have "filter (\<lambda>r. rs_universe r = w \<and> not_legacy r \<and> rs_status r \<in> set [''candidate'']) (residents db) = []"
    by (simp add: filter_empty_conv)
  then show ?thesis by (simp add: list_candidates_def)
qed

lemma locked_active: "locked_out w db \<Longrightarrow> active_residents w db = 0"
  by (auto simp: locked_out_def active_residents_def count_where_0 list_all_iff)

lemma found_candidate:
  assumes "list_ex (candidate_of w (ct_id t)) (residents db)" and "ensure_candidate ids now w t origin name naming db = Inr (c, db')"
  shows "db' = db"
proof -
  from assms(1) have "find_row (candidate_of w (ct_id t)) (residents db) \<noteq> None" by (simp add: find_row_None list_ex_iff)
  then show ?thesis using assms(2)
    by (auto simp: ensure_candidate_def get_or_create_candidate_resident_def and_then_Inr Let_def split: if_splits option.splits)
qed

lemma found_candidates:
  "ensure_candidates digest ids now w ts db = Inr db' \<Longrightarrow>
     list_all (\<lambda>t. list_ex (candidate_of w (ct_id t)) (residents db)) ts \<Longrightarrow> db' = db"
  by (induction ts arbitrary: db) (auto simp: and_then_Inr dest!: found_candidate)

lemma locked_same: "locked_out w db \<Longrightarrow> residents db' = residents db \<Longrightarrow> templates db' = templates db \<Longrightarrow> locked_out w db'"
  by (simp add: locked_out_def list_initial_templates_def)

lemma sort_key_empty: "sort_key k xs = [] \<longleftrightarrow> xs = []"
  by (metis set_empty set_sort)

lemma catalog_rows: "validate_initial_catalog ts0 = Inr ts \<Longrightarrow> set ts = set ts0"
  by (auto simp: validate_initial_catalog_def Let_def sort_key_empty split: if_splits)

abbreviation home_of :: "string \<Rightarrow> universe \<Rightarrow> bool" where
  "home_of user \<equiv> \<lambda>u. uv_owner u = user \<and> uv_app u = MINGCHAN_APP_ID"

lemma onboarding_home:
  assumes "set_universe_onboarding_state i s d = Inr (w, d')"
  shows "uv_id w = i \<and> residents d' = residents d \<and> templates d' = templates d \<and>
    map_option uv_id (find_row (home_of user) (universes d')) = map_option uv_id (find_row (home_of user) (universes d))"
proof -
  let ?m = "\<lambda>u. uv_id u = i \<and> uv_app u = MINGCHAN_APP_ID"
  have "find_row (home_of user) (update_where ?m (\<lambda>u. u\<lparr>uv_onboarding := s\<rparr>) (universes d)) =
      map_option (\<lambda>r. if ?m r then r\<lparr>uv_onboarding := s\<rparr> else r) (find_row (home_of user) (universes d))"
    by (rule find_row_update_where) simp
  then show ?thesis using assms
    by (cases "find_row (home_of user) (universes d)")
      (auto simp: set_universe_onboarding_state_def Let_def split: option.splits dest: find_row_Some)
qed

text \<open>Bootstrapping such a world finds its rows and offers none.\<close>

lemma locked_bootstrap:
  assumes l: "locked_out (uv_id u) db" and u: "find_row (home_of user) (universes db) = Some u"
    and b: "bootstrap_home reg digest ids now user db = Inr ((w, cs, rs), db')"
  shows "cs = [] \<and> locked_out (uv_id u) db' \<and> (\<exists>u'. find_row (home_of user) (universes db') = Some u' \<and> uv_id u' = uv_id u)"
proof -
  from b obtain w0 d1 w1 where 1: "get_or_create_home_universe (ids 0) user MINGCHAN_APP_ID db = Inr (w0, d1)"
    and 2: "lock_universe (uv_id w0) d1 = Inr w1" and cs: "cs = list_candidates (uv_id w) [''candidate''] db'"
    and 3: "w = w1 \<and> db' = d1 \<or> (\<exists>ts d2. validate_initial_catalog (list_initial_templates d1) = Inr ts \<and>
      ensure_candidates digest ids now (uv_id w1) ts d1 = Inr d2 \<and> set_universe_onboarding_state (uv_id w1) ''selecting'' d2 = Inr (w, db'))"
    unfolding bootstrap_home_def by (auto simp: and_then_Inr split: if_splits)
  from 1 u have d1: "w0 = u" "d1 = db"
    by (auto simp: get_or_create_home_universe_def Let_def and_then_Inr split: option.splits if_splits)
  have w1: "uv_id w1 = uv_id u" using lock_universe_id [OF 2] d1(1) by simp
  from 3 have "uv_id w = uv_id u \<and> residents db' = residents db \<and> templates db' = templates db \<and>
      (\<exists>u'. find_row (home_of user) (universes db') = Some u' \<and> uv_id u' = uv_id u)"
  proof (elim disjE exE conjE)
    fix ts d2
    assume v: "validate_initial_catalog (list_initial_templates d1) = Inr ts"
      and e: "ensure_candidates digest ids now (uv_id w1) ts d1 = Inr d2"
      and o: "set_universe_onboarding_state (uv_id w1) ''selecting'' d2 = Inr (w, db')"
    have "set ts = set (list_initial_templates db)" using v unfolding d1(2) by (rule catalog_rows)
    then have d2: "d2 = db"
      using found_candidates [OF e [unfolded d1(2) w1]] l by (simp add: locked_out_def list_all_iff)
    from onboarding_home [OF o [unfolded d2], of user] u w1 show ?thesis by auto
  qed (use u w1 d1 in auto)
  moreover from this l have "locked_out (uv_id u) db'" using locked_same by blast
  ultimately show ?thesis using locked_candidates cs by simp
qed

text \<open>And no selection can be confirmed.\<close>

lemma locked_confirm:
  assumes l: "locked_out (uv_id u) db" and u: "find_row (home_of user) (universes db) = Some u"
  shows "confirm_residents reg intro ids now user selections db \<noteq> Inr r"
proof
  assume c: "confirm_residents reg intro ids now user selections db = Inr r"
  then obtain sel w0 w chosen where s: "normalize_selections selections [] = Inr sel"
    and h: "home_universe reg user db = Inr (Some w0)" and w: "lock_universe (uv_id w0) db = Inr w"
    and ch: "each (choose_candidate (list_candidates (uv_id w) [''candidate'', ''active'', ''dismissed''] db)) sel = Inr chosen"
    and n: "0 < int (active_residents (uv_id w) db) + int (length (filter (\<lambda>c. rs_status (cd_row (fst c)) = ''candidate'') chosen))"
    unfolding confirm_residents_def Let_def by (auto simp: and_then_Inr not_le split: option.splits if_splits)
  have "w0 = u" using h u
    by (auto simp: home_universe_def and_then_Inr get_universe_def or_none_def split: option.splits if_splits)
  then have w: "uv_id w = uv_id u" using lock_universe_id [OF w] by simp
  have "chosen = []"
  proof (cases chosen)
    case (Cons x xs)
    then have "fst x \<in> set (list_candidates (uv_id u) [''candidate'', ''active'', ''dismissed''] db)"
      "rs_status (cd_row (fst x)) \<noteq> ''dismissed''" using choose_each [OF ch] w by auto
    then show ?thesis using locked_list [OF l, of "[''candidate'', ''active'', ''dismissed'']"] by (auto simp: list_all_iff)
  qed simp
  then show False using n locked_active [OF l] w by simp
qed

text \<open>The deletion of an account leaves its world so.\<close>

lemma deletion_locks:
  assumes "execute_account_deletion reg now user db = Inr db'" and u: "find_row (home_of user) (universes db) = Some u"
    and cat: "list_all (\<lambda>t. list_ex (candidate_of (uv_id u) (ct_id t)) (residents db)) (list_initial_templates db)"
  shows "locked_out (uv_id u) db' \<and> (\<exists>u'. find_row (home_of user) (universes db') = Some u' \<and> uv_id u' = uv_id u)"
proof -
  let ?gone = "\<lambda>r. rs_universe r = uv_id u \<and> rs_status r \<noteq> ''dismissed''"
  let ?f = "\<lambda>r. r\<lparr>rs_status := ''dismissed'', rs_updated := now\<rparr>"
  have r: "residents db' = update_where ?gone ?f (residents db)"
    and v: "universes db' = update_where (\<lambda>x. uv_id x = uv_id u) (\<lambda>x. x\<lparr>uv_onboarding := ''preparing''\<rparr>) (universes db)"
    and t: "set (templates db') \<subseteq> set (templates db)"
    using assms(1) u by (auto simp: execute_account_deletion_def and_then_Inr delete_world_data_def Let_def delete_where_def)
  have "candidate_of w i (?f x) = candidate_of w i x" for w i and x :: resident
    by (simp add: candidate_of_def not_legacy_def)
  moreover have "list_ex P (map g xs) = list_ex P xs" if "\<And>x. P (g x) = P x" for P and g :: "resident \<Rightarrow> resident" and xs
    by (induction xs) (simp_all add: that)
  ultimately have c: "list_ex (candidate_of w i) (residents db') = list_ex (candidate_of w i) (residents db)" for w i
    unfolding r update_where_def by simp
  have "set (list_initial_templates db') \<subseteq> set (list_initial_templates db)" using t by (auto simp: list_initial_templates_def)
  then have "list_all (\<lambda>t. list_ex (candidate_of (uv_id u) (ct_id t)) (residents db')) (list_initial_templates db')"
    using cat by (auto simp: list_all_iff c)
  moreover have "list_all (\<lambda>r. rs_universe r \<noteq> uv_id u \<or> rs_status r = ''dismissed'') (residents db')"
    by (auto simp: r list_all_iff set_update_where)
  moreover have "find_row (home_of user) (universes db') =
      map_option (\<lambda>x. if uv_id x = uv_id u then x\<lparr>uv_onboarding := ''preparing''\<rparr> else x) (find_row (home_of user) (universes db))"
    unfolding v by (rule find_row_update_where) simp
  ultimately show ?thesis using u by (simp add: locked_out_def)
qed

section \<open>Which evidence is read\<close>

lemma sort_key_snoc: "(\<And>x. x \<in> set xs \<Longrightarrow> k x \<le> k t) \<Longrightarrow> sort_key k (xs @ [t]) = sort_key k xs @ [t]"
proof -
  assume le: "\<And>x. x \<in> set xs \<Longrightarrow> k x \<le> k t"
  have "insort_key k t ys = ys @ [t]" if "\<forall>y \<in> set ys. k y < k t" for ys
    using that by (induction ys) auto
  show ?thesis
  proof (rule properties_for_sort_key)
    show "sorted (map k (sort_key k xs @ [t]))" using le by (auto simp: sorted_append)
    have "(\<lambda>y. k x = k y) = (\<lambda>y. k y = k x)" for x by auto
    then show "filter (\<lambda>y. k x = k y) (sort_key k xs @ [t]) = filter (\<lambda>y. k x = k y) (xs @ [t])" for x
      by (simp add: sort_key_stable)
  qed simp
qed

text \<open>The query for evidence reads the oldest 500 rows: with as many before it, a newer one is not read.\<close>

definition evidence_row :: "string \<Rightarrow> int \<Rightarrow> int \<Rightarrow> moderation_task \<Rightarrow> bool" where
  "evidence_row runtime since until t = (mt_account t = runtime \<and> mt_direction t = ''inbound'' \<and>
     since \<le> mt_created t \<and> mt_created t \<le> until)"

lemma oldest_tasks:
  assumes "500 \<le> count_where (evidence_row (py_strip runtime) since until) (moderation_tasks db)"
    and "list_all (\<lambda>x. (mt_created x, mt_id x) \<le> (mt_created t, mt_id t)) (moderation_tasks db)"
  shows "list_evidence_tasks runtime since until 500 (db\<lparr>moderation_tasks := moderation_tasks db @ [t]\<rparr>) =
    list_evidence_tasks runtime since until 500 db"
proof -
  let ?k = "\<lambda>t. (mt_created t, mt_id t)"
  have e: "(\<lambda>t. mt_account t = acc \<and> mt_direction t = ''inbound'' \<and> since \<le> mt_created t \<and> mt_created t \<le> until) =
      evidence_row acc since until" for acc by (simp add: evidence_row_def fun_eq_iff)
  have "take 500 (sort_key ?k (filter (evidence_row (py_strip runtime) since until) (moderation_tasks db @ [t]))) =
      take 500 (sort_key ?k (filter (evidence_row (py_strip runtime) since until) (moderation_tasks db)))"
  proof (cases "evidence_row (py_strip runtime) since until t")
    case True
    have "sort_key ?k (filter (evidence_row (py_strip runtime) since until) (moderation_tasks db) @ [t]) =
        sort_key ?k (filter (evidence_row (py_strip runtime) since until) (moderation_tasks db)) @ [t]"
      by (rule sort_key_snoc) (use assms(2) in \<open>auto simp: list_all_iff\<close>)
    then show ?thesis using True assms(1) by (simp add: count_where_def)
  qed simp
  then show ?thesis
    by (auto simp: list_evidence_tasks_def e sql_limit_def clean_required_def Let_def and_then_def)
qed

section \<open>The two limits\<close>

text \<open>C8: the deletion of an account does not lead to a clean new world: if the world had offered the
  catalog before, a new membership bootstraps it without any candidate, and no selection of residents
  can be confirmed.\<close>

theorem deleted_account_locked_out:
  assumes "execute_account_deletion reg now user db = Inr db1"
    and "find_row (home_of user) (universes db) = Some u"
    and "list_all (\<lambda>t. list_ex (candidate_of (uv_id u) (ct_id t)) (residents db)) (list_initial_templates db)"
    and "bootstrap_home reg digest ids now' user (db1\<lparr>memberships := ms\<rparr>) = Inr ((w, cs, rs), db2)"
  shows "cs = [] \<and> confirm_residents reg intro ids' now'' user selections db2 \<noteq> Inr r"
proof -
  from deletion_locks [OF assms(1-3)] obtain u1 where l: "locked_out (uv_id u1) db1"
    and u1: "find_row (home_of user) (universes db1) = Some u1" by metis
  have "locked_out (uv_id u1) (db1\<lparr>memberships := ms\<rparr>)" by (rule locked_same [OF l]) simp_all
  from locked_bootstrap [OF this _ assms(4)] u1 have r: "cs = []" "locked_out (uv_id u1) db2"
    "\<exists>u2. find_row (home_of user) (universes db2) = Some u2 \<and> uv_id u2 = uv_id u1" by simp_all
  then obtain u2 where "find_row (home_of user) (universes db2) = Some u2" "uv_id u2 = uv_id u1" by blast
  then show ?thesis using locked_confirm r(1,2) by metis
qed

definition catalog_world :: world_db where
  "catalog_world = sample_world\<lparr>
     templates := map (\<lambda>(i, k). (sample_template i)\<lparr>ct_rank := Some k\<rparr>) [(''t1'', 1), (''t2'', 2), (''t3'', 3), (''t4'', 4)],
     residents := map (\<lambda>i. (sample_resident (''r'' @ i) i ''rt'')\<lparr>rs_status := ''candidate'', rs_runtime := None\<rparr>)
       [''t1'', ''t2'', ''t3'', ''t4''], ai_conversations := [], lifecycle_events := []\<rparr>"

definition sample_deletion :: "world_db res" where
  "sample_deletion = execute_account_deletion production_products 700 ''user_1'' catalog_world"

definition sample_return :: "world_db \<Rightarrow> ((universe \<times> candidate_record list \<times> resident_record list) \<times> world_db) res" where
  "sample_return db = bootstrap_home production_products (\<lambda>_. 0) (\<lambda>_. sample_home_ids) 800 ''user_1''
     (db\<lparr>memberships := [sample_membership ''mingchan'']\<rparr>)"

theorem deleted_account_locked_out_witness:
  "\<exists>db1 w rs db2. sample_deletion = Inr db1 \<and> sample_return db1 = Inr ((w, [], rs), db2) \<and>
     confirm_residents production_products (\<lambda>_. None) (\<lambda>_. sample_home_ids) 900 ''user_1'' [(''t1'', None)] db2 \<noteq> Inr ([], db2)"
proof -
  have "case sample_deletion of Inl _ \<Rightarrow> False | Inr db1 \<Rightarrow> (case sample_return db1 of Inl _ \<Rightarrow> False | Inr _ \<Rightarrow> True)"
    by code_simp
  then obtain db1 w cs rs db2 where d: "sample_deletion = Inr db1" and b: "sample_return db1 = Inr ((w, cs, rs), db2)"
    by (auto split: sum.splits)
  have u: "case find_row (home_of ''user_1'') (universes catalog_world) of None \<Rightarrow> False | Some u \<Rightarrow>
      list_all (\<lambda>t. list_ex (candidate_of (uv_id u) (ct_id t)) (residents catalog_world)) (list_initial_templates catalog_world)"
    by code_simp
  then obtain u where u: "find_row (home_of ''user_1'') (universes catalog_world) = Some u"
    "list_all (\<lambda>t. list_ex (candidate_of (uv_id u) (ct_id t)) (residents catalog_world)) (list_initial_templates catalog_world)"
    by (auto split: option.splits)
  from deleted_account_locked_out [OF d [unfolded sample_deletion_def] u b [unfolded sample_return_def]] d b
  show ?thesis by blast
qed

text \<open>C9: the evidence of a departure is the oldest 500 rows of the window, so a row after them, a crisis
  signal too, changes neither the scheduled evaluation nor an approval.\<close>

theorem newest_evidence_ignored:
  assumes "500 \<le> count_where (evidence_row (py_strip runtime) (db_time (now - days (max (lp_window p) (lp_freeze p))))
      (db_time now)) (moderation_tasks db)"
    and "list_all (\<lambda>x. (mt_created x, mt_id x) \<le> (mt_created t, mt_id t)) (moderation_tasks db)"
  shows "observations_for_resident resident runtime now p (db\<lparr>moderation_tasks := moderation_tasks db @ [t]\<rparr>) =
    observations_for_resident resident runtime now p db"
  unfolding observations_for_resident_def oldest_tasks [OF assms] ..

theorem newest_evidence_ignored_witness:
  "observations_for_resident ''r1'' ''rt_1'' 100000000 sample_policy (sample_world\<lparr>moderation_tasks :=
      replicate 500 sample_task @ [sample_task\<lparr>mt_id := ''t2'', mt_categories := [''self_harm''], mt_created := 95\<rparr>]\<rparr>) =
    observations_for_resident ''r1'' ''rt_1'' 100000000 sample_policy (sample_world\<lparr>moderation_tasks := replicate 500 sample_task\<rparr>)"
proof -
  let ?db = "sample_world\<lparr>moderation_tasks := replicate 500 sample_task\<rparr>"
  let ?t = "sample_task\<lparr>mt_id := ''t2'', mt_categories := [''self_harm''], mt_created := 95\<rparr>"
  have "evidence_row (py_strip ''rt_1'') (db_time (100000000 - days (max (lp_window sample_policy) (lp_freeze sample_policy))))
      (db_time 100000000) sample_task" by code_simp
  then have "500 \<le> count_where (evidence_row (py_strip ''rt_1'')
      (db_time (100000000 - days (max (lp_window sample_policy) (lp_freeze sample_policy)))) (db_time 100000000)) (moderation_tasks ?db)"
    by (simp add: count_where_def filter_replicate)
  moreover have "list_all (\<lambda>x. (mt_created x, mt_id x) \<le> (mt_created ?t, mt_id ?t)) (moderation_tasks ?db)"
    by (simp add: list_all_iff set_replicate_conv_if sample_task_def less_eq_prod_def)
  ultimately show ?thesis
    using newest_evidence_ignored [of "''rt_1''" 100000000 sample_policy ?db ?t "''r1''"] by simp
qed

end
