(* ===== verification/World_Slots.thy ===== *)
theory World_Slots
imports World_Jobs World_Outbox_Laws World_Samples
begin

text \<open>
  The window of a generated post: the batch claims a slot and checks the window when it publishes,
  both with the time at which the batch started.
\<close>

section \<open>A claimed slot is open\<close>

abbreviation post_ids :: "world_db \<Rightarrow> bool" where
  "post_ids db \<equiv> unique_on (\<lambda>_. True) wp_id (world_posts db)"

definition open_slot :: "int \<Rightarrow> world_post \<Rightarrow> world_db \<Rightarrow> bool" where
  "open_slot now p db = (post_ids db \<and> p \<in> set (world_posts db) \<and> known (\<lambda>e. now < e) (wp_window_end p))"

lemma add_post_ids: "post_ids db \<Longrightarrow> post_ids (add_post p db)"
  by (auto simp: add_post_def unique_on_snoc list_ex_iff post_conflict_def)

lemma claim_open:
  assumes "post_ids db" and "now < window_end"
    and fresh: "list_all (\<lambda>p. wp_id p \<noteq> i) (world_posts db)"
  shows "res_all (\<lambda>r. case r of ((Some p, True), db') \<Rightarrow> open_slot now p db' | _ \<Rightarrow> True)
    (claim_ai_feed_slot i w author date slot window_end token now nx lease db)"
proof -
  let ?p = "(plain_post i w ''resident'' ''ai_feed'' now)\<lparr>wp_resident := Some author, wp_status := ''generating'',
     wp_date := Some date, wp_slot := Some slot, wp_window_end := Some window_end, wp_attempts := 1,
     wp_claimed := Some now, wp_token := Some token, wp_next := nx\<rparr>"
  have ids: "post_ids (add_post ?p db)" by (rule add_post_ids [OF assms(1)])
  have new: "open_slot now p (add_post ?p db)"
    if "find_row q (world_posts (add_post ?p db)) = Some p" "wp_id p = i" for q p
  proof -
    have p: "p \<in> set (world_posts (add_post ?p db))" using find_row_Some [OF that(1)] by simp
    have "p = ?p"
    proof (rule ccontr)
      assume "p \<noteq> ?p"
      then have "p \<in> set (world_posts db)" using p by (auto simp: add_post_def split: if_splits)
      then show False using fresh that(2) by (auto simp: list_all_iff)
    qed
    then show ?thesis using p ids assms(2) by (simp add: open_slot_def known_def)
  qed
  have old: "open_slot now x (d\<lparr>world_posts := update_where (reclaimable j now s m) (reclaimed now token) (world_posts d)\<rparr>)"
    if "post_ids d" "count_where (reclaimable j now s m) (world_posts d) \<noteq> 0"
      "find_row (\<lambda>x. wp_id x = j) (world_posts (d\<lparr>world_posts := update_where (reclaimable j now s m) (reclaimed now token)
        (world_posts d)\<rparr>)) = Some x" for d j s m x
  proof -
    from that(2) obtain y where y: "y \<in> set (world_posts d)" "reclaimable j now s m y" by (auto simp: count_where_0)
    have u: "post_ids (d\<lparr>world_posts := update_where (reclaimable j now s m) (reclaimed now token) (world_posts d)\<rparr>)"
      using that(1) by (simp add: unique_on_update reclaimed_def)
    have m: "reclaimed now token y \<in> set (update_where (reclaimable j now s m) (reclaimed now token) (world_posts d))"
      using y by (auto simp: set_update_where)
    have "wp_id (reclaimed now token y) = j" using y(2) by (simp add: reclaimable_def reclaimed_def)
    then have "x = reclaimed now token y" using found_unique [of wp_id _ _ j, OF _ m] u that(3) by simp
    then show ?thesis using u m y(2) by (simp add: open_slot_def reclaimable_def reclaimed_def)
  qed
  show ?thesis
    unfolding claim_ai_feed_slot_def Let_def
    by (intro res_all_rules; simp only: prod.case option.case bool.case; (rule TrueI | rule new, assumption, assumption | rule old [OF ids], assumption, assumption))
qed

text \<open>So the check at the publication, with the same time, finds it open.\<close>

lemma publish_open:
  assumes "open_slot now p db"
  shows "publish_ai_feed_post_with_outbox oid (wp_id p) token content now key payload db \<noteq> Inl (ValueError ''slot window closed'')"
proof
  assume e: "publish_ai_feed_post_with_outbox oid (wp_id p) token content now key payload db = Inl (ValueError ''slot window closed'')"
  have same: "q = p" if "find_row (\<lambda>x. wp_id x = wp_id p \<and> r x) (world_posts db) = Some q" for q r
    using find_row_Some [OF that] assms unique_onD [of "\<lambda>_. True" wp_id "world_posts db" q p] by (auto simp: open_slot_def)
  have o: "insert_outbox o1 d \<noteq> Inl (ValueError x)" for o1 d x by (simp add: insert_outbox_def and_then_def)
  have "\<not> known (\<lambda>e. e \<le> now) (wp_window_end p)" using assms by (auto simp: open_slot_def known_def split: option.splits)
  then show False
    using e unfolding publish_ai_feed_post_with_outbox_def Let_def
    by (auto simp: and_then_def o split: if_splits option.splits sum.splits dest!: same)
qed

section \<open>The batch\<close>

lemma slot_ends_later:
  assumes "resolve_slot windows now = Some slot"
  shows "db_time now < db_time (fs_end slot)"
proof -
  obtain m where m: "fs_end slot = day_of now * 86400000000 + m * 60000000" "now div 60000000 mod 1440 < m"
    using assms by (auto simp: resolve_slot_def Let_def split: if_splits)
  have "now = day_of now * 86400000000 + now mod 86400000000" by (simp add: day_of_def)
  moreover have "now mod 86400000000 = 60000000 * (now div 60000000 mod 1440) + now mod 60000000"
    using zmod_zmult2_eq [of 1440 now 60000000] by simp
  moreover have "now mod 60000000 < 60000000" by simp
  ultimately have "now < fs_end slot" using m by linarith
  moreover have "fs_end slot = 1000000 * (day_of now * 86400 + m * 60)" by (simp add: m(1))
  moreover have "x div 1000000 < k" if "x < 1000000 * k" for x k :: int using that by presburger
  ultimately show ?thesis unfolding db_time_def by (metis nonzero_mult_div_cancel_left zero_neq_numeral)
qed

lemma run_tx_InrD: "run_tx m db = (Inr x, db') \<Longrightarrow> m db = Inr (x, db')"
  by (auto simp: run_tx_def split: sum.splits)

lemma run_tx_InlD: "run_tx m db = (Inl e, db') \<Longrightarrow> m db = Inl e"
  by (auto simp: run_tx_def split: sum.splits)

lemma generated_open:
  assumes "open_slot (db_time now) p db"
  shows "fst (generate_claimed generator ids cfg now clock slot w p db) \<noteq> Inr (plain_result w ''slot window closed'')"
proof -
  have p: "fst (publish_generated ids now clock w (wp_id p) content db) \<noteq> Inr (plain_result w ''slot window closed'')" for content
    using publish_open [OF assms]
    by (auto simp: publish_generated_def plain_result_def split: prod.splits sum.splits err.splits dest!: run_tx_InlD)
  show ?thesis
    by (auto simp: generate_claimed_def Let_def plain_result_def p [unfolded plain_result_def] split: option.splits sum.splits prod.splits)
qed

text \<open>C10: the second look at the window before a post is published never fires: the batch claims and
  publishes with the time at which it started, so however long the generation took, and however late
  the clock is then, no result of a slot is \<open>slot window closed\<close>.\<close>

theorem window_check_never_fires:
  assumes "resolve_slot windows now = Some slot" and "post_ids db" and "list_all (\<lambda>p. wp_id p \<noteq> fd_post ids) (world_posts db)"
  shows "fst (feed_world generator ids cfg now clock slot w db) \<noteq> Inr (plain_result w ''slot window closed'')"
proof -
  have c: "fst (generate_claimed generator ids cfg now clock slot w p db1) \<noteq> Inr (plain_result w ''slot window closed'')"
    if "run_tx (claim_ai_feed_slot (fd_post ids) w author (fs_date slot) (fs_name slot) (db_time (fs_end slot)) (fd_token ids)
      (db_time now) None lease) db = (Inr (Some p, True), db1)" for author lease p db1
    using res_allD [OF claim_open [OF assms(2) slot_ends_later [OF assms(1)] assms(3)] run_tx_InrD [OF that]]
    by (intro generated_open) simp
  show ?thesis
    using c by (auto simp: feed_world_def plain_result_def split: option.splits prod.splits sum.splits bool.splits)
qed

text \<open>A post generated from 07:59 to 08:10 in the window that ends at 08:00: published.\<close>

definition late_feed :: "feed_result res \<times> world_db" where
  "late_feed = feed_world (\<lambda>_. Inr ''good morning'') \<lparr>fd_post = ''q1'', fd_token = ''tok'', fd_outbox = ''o1''\<rparr>
     \<lparr>fc_batch = 10, fc_lease = 60, fc_attempts = 3, fc_base = 30\<rparr> (479 * 60000000) (490 * 60000000)
     \<lparr>fs_name = ''morning'', fs_date = ''1970-01-01'', fs_end = 480 * 60000000\<rparr> ''w1'' sample_world"

theorem window_check_never_fires_witness:
  "fst late_feed \<noteq> Inr (plain_result ''w1'' ''slot window closed'') \<and>
    map wp_status (world_posts (snd late_feed)) = [''published'']"
proof -
  let ?w = "\<lparr>fw_morning_start = 420, fw_morning_end = 480, fw_evening_start = 1200, fw_evening_end = 1320\<rparr>"
  have "resolve_slot ?w (479 * 60000000) = Some \<lparr>fs_name = ''morning'', fs_date = ''1970-01-01'', fs_end = 480 * 60000000\<rparr>"
    by code_simp
  moreover have "post_ids sample_world" "list_all (\<lambda>p. wp_id p \<noteq> fd_post \<lparr>fd_post = ''q1'', fd_token = ''tok'', fd_outbox = ''o1''\<rparr>)
      (world_posts sample_world)" "map wp_status (world_posts (snd late_feed)) = [''published'']"
    by code_simp+
  ultimately show ?thesis unfolding late_feed_def by (simp add: window_check_never_fires)
qed

end
