(* ===== verification/World_Visits.thy ===== *)
theory World_Visits
imports World_Feed
begin

text \<open>
  Visits between worlds (\<^verbatim>\<open>infrastructure/persistence/companion_world_visits.py\<close> and the part of
  \<^verbatim>\<open>companion_world_human_chat.py\<close> that visits call): invites, the three visit slots of a world,
  pending and active visits, the human conversation of a visit and blocks between users. The tables
  are those of migration 0035 with the read cursors of 0052 and the media column of 0054; they stand
  beside the tables of the companion world, which \<open>vd_world\<close> holds. A row lock is no change of the
  state: every operation here runs in one transaction, and the locks put the transactions that touch
  a row in some order.
\<close>

section \<open>Tables\<close>

record visit_slot =
  vl_world :: string
  vl_no :: int
  vl_type :: "string option"
  vl_occupant :: "string option"
  vl_at :: "int option"

record world_invite =
  wi_id :: string
  wi_world :: string
  wi_owner :: string
  wi_hash :: string
  wi_prefix :: string
  wi_status :: string
  wi_expires :: int
  wi_redeemer :: "string option"
  wi_visit :: "string option"
  wi_redeemed :: "int option"
  wi_revoked :: "int option"
  wi_created :: int
  wi_updated :: int

record world_visit =
  vi_id :: string
  vi_invite :: string
  vi_world :: string
  vi_owner :: string
  vi_visitor :: string
  vi_status :: string
  vi_pending_expires :: int
  vi_accepted :: "int option"
  vi_expires :: "int option"
  vi_terminal :: "int option"
  vi_reason :: "string option"
  vi_created :: int
  vi_updated :: int

record human_conversation =
  hc_id :: string
  hc_visit :: string
  hc_owner :: string
  hc_visitor :: string
  hc_status :: string
  hc_owner_hidden :: "int option"
  hc_visitor_hidden :: "int option"
  hc_owner_read :: "int option"
  hc_visitor_read :: "int option"
  hc_last :: "int option"
  hc_created :: int
  hc_updated :: int
  hc_owner_seq :: "int option"
  hc_visitor_seq :: "int option"

record human_message =
  hm_id :: string
  hm_conversation :: string
  hm_sender :: string
  hm_client :: string
  hm_seq :: int
  hm_body :: string
  hm_media :: "string option"
  hm_created :: int

record user_block =
  ub_blocker :: string
  ub_blocked :: string
  ub_created :: int

record chat_report =
  hr_id :: string
  hr_conversation :: string
  hr_reporter :: string
  hr_reported :: string
  hr_message :: "string option"
  hr_reason :: string
  hr_details :: "string option"
  hr_evidence :: dict
  hr_status :: string
  hr_created :: int

record visit_db =
  vd_world :: world_db
  vd_slots :: "visit_slot list"
  vd_invites :: "world_invite list"
  vd_visits :: "world_visit list"
  vd_conversations :: "human_conversation list"
  vd_messages :: "human_message list"
  vd_blocks :: "user_block list"
  vd_reports :: "chat_report list"

section \<open>The domain's rules\<close>

definition INVITE_STATUSES :: "string list" where
  "INVITE_STATUSES = [''active'', ''redeemed'', ''revoked'', ''expired'']"
definition VISIT_OPEN_STATUSES :: "string list" where
  "VISIT_OPEN_STATUSES = [''pending'', ''active'']"
definition VISIT_TERMINAL_STATUSES :: "string list" where
  "VISIT_TERMINAL_STATUSES = [''expired'', ''rejected'', ''cancelled'', ''left'', ''revoked'', ''blocked'']"

text \<open>The repository's \<open>_VISIT_STATUSES\<close> is the union of the two.\<close>

definition VISIT_STATUSES :: "string list" where
  "VISIT_STATUSES = VISIT_OPEN_STATUSES @ VISIT_TERMINAL_STATUSES"

definition visit_transition_allowed :: "string \<Rightarrow> string \<Rightarrow> bool" where
  "visit_transition_allowed current target =
     (if current = ''pending'' then target \<in> set [''active'', ''expired'', ''rejected'', ''cancelled'', ''blocked'']
      else if current = ''active'' then target \<in> set [''expired'', ''left'', ''revoked'', ''blocked'']
      else False)"

record visit_policy =
  vp_owner_slots :: int
  vp_visitor_limit :: int
  vp_invite_hours :: int
  vp_pending_days :: int
  vp_active_days :: int

definition VISIT_POLICY :: visit_policy where
  "VISIT_POLICY = \<lparr>vp_owner_slots = 3, vp_visitor_limit = 3, vp_invite_hours = 24, vp_pending_days = 7,
     vp_active_days = 30\<rparr>"

definition hours :: "int \<Rightarrow> int" where "hours n = n * 3600000000"

text \<open>\<open>now >= parse_db_timestamp(expires_at)\<close>; a missing time is no deadline.\<close>

definition is_due :: "int \<Rightarrow> int option \<Rightarrow> bool" where
  "is_due now expires = known (\<lambda>t. t \<le> now) (parse_time expires)"

definition is_open :: "world_visit \<Rightarrow> bool" where
  "is_open v = (vi_status v \<in> set VISIT_OPEN_STATUSES)"

section \<open>Slots and invites\<close>

definition required :: "string \<Rightarrow> string \<Rightarrow> string res" where
  "required value field =
     (let c = py_strip value in if c = [] then Inl (ValueError (field @ '' is required'')) else Inr c)"

definition lock_owner_world :: "string \<Rightarrow> string \<Rightarrow> visit_db \<Rightarrow> universe res" where
  "lock_owner_world world_id owner s =
     (case find_row (\<lambda>u. uv_id u = world_id \<and> uv_owner u = owner \<and> uv_app u = MINGCHAN_APP_ID) (universes (vd_world s)) of
        None \<Rightarrow> Inl (ValueError ''visit universe ownership mismatch'')
      | Some u \<Rightarrow>
          if uv_status u \<noteq> ''active'' \<or> uv_onboarding u \<noteq> ''confirmed''
          then Inl (ValueError ''visit universe is not confirmed'') else Inr u)"

definition add_slot :: "string \<Rightarrow> int \<Rightarrow> visit_slot list \<Rightarrow> visit_slot list" where
  "add_slot world_id n ls =
     (if list_ex (\<lambda>l. vl_world l = world_id \<and> vl_no l = n) ls then ls
      else ls @ [\<lparr>vl_world = world_id, vl_no = n, vl_type = None, vl_occupant = None, vl_at = None\<rparr>])"

definition ensure_universe_visit_slots ::
  "string \<Rightarrow> string \<Rightarrow> visit_db \<Rightarrow> (visit_slot list \<times> visit_db) res" where
  "ensure_universe_visit_slots world_id owner s =
     and_then (required world_id ''universe_id'') (\<lambda>w.
     and_then (required owner ''owner_platform_user_id'') (\<lambda>o'.
     and_then (lock_owner_world w o' s) (\<lambda>_.
       let s1 = s\<lparr>vd_slots := add_slot w 3 (add_slot w 2 (add_slot w 1 (vd_slots s)))\<rparr>
       in Inr (sort_key vl_no (filter (\<lambda>l. vl_world l = w) (vd_slots s1)), s1))))"

text \<open>
  An update that puts an occupant into the slots of \<open>q\<close>, under \<open>UNIQUE(occupant_type, occupant_id)\<close>,
  and its row count.
\<close>

definition occupy ::
  "(visit_slot \<Rightarrow> bool) \<Rightarrow> string \<Rightarrow> string \<Rightarrow> int \<Rightarrow> visit_db \<Rightarrow> (nat \<times> visit_db) res" where
  "occupy q kind i now s =
     (let n = count_where q (vd_slots s) in
      if 1 < n \<or> (n = 1 \<and> list_ex (\<lambda>l. \<not> q l \<and> vl_type l = Some kind \<and> vl_occupant l = Some i) (vd_slots s))
      then Inl (IntegrityError ''universe_visit_slots_occupant_type_occupant_id_key'')
      else Inr (n, s\<lparr>vd_slots := update_where q
             (\<lambda>l. l\<lparr>vl_type := Some kind, vl_occupant := Some i, vl_at := Some now\<rparr>) (vd_slots s)\<rparr>))"

definition held_by :: "string \<Rightarrow> string \<Rightarrow> string \<Rightarrow> visit_slot \<Rightarrow> bool" where
  "held_by world_id kind i l = (vl_world l = world_id \<and> vl_type l = Some kind \<and> vl_occupant l = Some i)"

definition vacate :: "string \<Rightarrow> string \<Rightarrow> string \<Rightarrow> visit_slot list \<Rightarrow> visit_slot list" where
  "vacate world_id kind i = update_where (held_by world_id kind i)
     (\<lambda>l. l\<lparr>vl_type := None, vl_occupant := None, vl_at := None\<rparr>)"

definition free_slot :: "string \<Rightarrow> visit_slot \<Rightarrow> bool" where
  "free_slot world_id l = (vl_world l = world_id \<and> vl_occupant l = None)"

definition insert_universe_invite ::
  "string \<Rightarrow> string \<Rightarrow> string \<Rightarrow> string \<Rightarrow> string \<Rightarrow> int \<Rightarrow> int \<Rightarrow> visit_db \<Rightarrow> (world_invite \<times> visit_db) res" where
  "insert_universe_invite invite_id world_id owner hash prefix expires now s =
     and_then (required world_id ''universe_id'') (\<lambda>w.
     and_then (required owner ''owner_platform_user_id'') (\<lambda>o'.
     and_then (required hash ''code_hash'') (\<lambda>h.
     and_then (required prefix ''code_prefix'') (\<lambda>p.
     and_then (ensure_universe_visit_slots w o' s) (\<lambda>(slots, s1).
       case first_by vl_no (filter (free_slot w) (vd_slots s1)) of
         None \<Rightarrow> Inl (ValueError ''world visit limit reached'')
       | Some slot \<Rightarrow>
         if invite_id \<in> wi_id ` set (vd_invites s1) then Inl (IntegrityError ''universe_invites_pkey'')
         else if h \<in> wi_hash ` set (vd_invites s1) then Inl (IntegrityError ''universe_invites_code_hash_key'')
         else let i = \<lparr>wi_id = invite_id, wi_world = w, wi_owner = o', wi_hash = h, wi_prefix = p,
                wi_status = ''active'', wi_expires = expires, wi_redeemer = None, wi_visit = None, wi_redeemed = None,
                wi_revoked = None, wi_created = now, wi_updated = now\<rparr>;
              s2 = s1\<lparr>vd_invites := vd_invites s1 @ [i]\<rparr>
         in and_then (occupy (\<lambda>l. vl_world l = w \<and> vl_no l = vl_no slot \<and> vl_occupant l = None)
              ''invite'' invite_id now s2) (\<lambda>(n, s3).
            if n \<noteq> 1 then Inl (RuntimeError ''visit slot allocation lost'')
            else (case find_row (\<lambda>x. wi_id x = invite_id) (vd_invites s3) of
              None \<Rightarrow> Inl (RuntimeError ''universe invite was not created'')
            | Some x \<Rightarrow> Inr (x, s3))))))))"

definition in_mingchan :: "string \<Rightarrow> visit_db \<Rightarrow> bool" where
  "in_mingchan world_id s = in_app world_id (vd_world s)"

definition get_universe_invite_for_owner :: "string \<Rightarrow> string \<Rightarrow> visit_db \<Rightarrow> world_invite option" where
  "get_universe_invite_for_owner invite_id owner s =
     find_row (\<lambda>i. wi_id i = invite_id \<and> wi_owner i = owner \<and> in_mingchan (wi_world i) s) (vd_invites s)"

definition get_universe_invite_by_code_hash :: "string \<Rightarrow> visit_db \<Rightarrow> world_invite option" where
  "get_universe_invite_by_code_hash hash s =
     find_row (\<lambda>i. wi_hash i = hash \<and> in_mingchan (wi_world i) s) (vd_invites s)"

text \<open>The optional status filter: \<open>[]\<close> is no filter, a filter without a known status finds nothing.\<close>

definition status_filter :: "string list \<Rightarrow> string list \<Rightarrow> string \<Rightarrow> bool" where
  "status_filter allowed statuses status = (statuses = [] \<or> status \<in> set (filter (\<lambda>x. x \<in> set allowed) statuses))"

definition list_universe_invites_for_owner :: "string \<Rightarrow> string list \<Rightarrow> int \<Rightarrow> visit_db \<Rightarrow> world_invite list" where
  "list_universe_invites_for_owner owner statuses limit s =
     sql_limit (max 1 (min limit 100)) (order_desc (\<lambda>i. (wi_created i, wi_id i))
       (filter (\<lambda>i. wi_owner i = owner \<and> in_mingchan (wi_world i) s \<and> status_filter INVITE_STATUSES statuses (wi_status i))
         (vd_invites s)))"

definition list_due_universe_invites :: "int \<Rightarrow> int \<Rightarrow> visit_db \<Rightarrow> world_invite list" where
  "list_due_universe_invites now limit s =
     sql_limit (max 1 (min limit 500)) (sort_key (\<lambda>i. (wi_expires i, wi_id i))
       (filter (\<lambda>i. wi_status i = ''active'' \<and> wi_expires i \<le> now \<and> in_mingchan (wi_world i) s) (vd_invites s)))"

definition mark_universe_invite_terminal ::
  "string \<Rightarrow> string \<Rightarrow> string \<Rightarrow> int \<Rightarrow> visit_db \<Rightarrow> (world_invite option \<times> visit_db) res" where
  "mark_universe_invite_terminal invite_id owner target now s =
     (if target \<notin> set [''revoked'', ''expired''] then Inl (ValueError ''invalid invite terminal status'')
      else (case get_universe_invite_for_owner invite_id owner s of
        None \<Rightarrow> Inr (None, s)
      | Some i \<Rightarrow>
          if wi_status i = target then Inr (Some i, s)
          else if wi_status i \<noteq> ''active'' then Inl (ValueError ''invite is not active'')
          else let s1 = s\<lparr>vd_invites := update_where (\<lambda>x. wi_id x = invite_id \<and> wi_status x = ''active'')
                 (\<lambda>x. if target = ''revoked'' then x\<lparr>wi_status := ''revoked'', wi_revoked := Some now, wi_updated := now\<rparr>
                      else x\<lparr>wi_status := ''expired'', wi_updated := now\<rparr>) (vd_invites s),
                 vd_slots := vacate (wi_world i) ''invite'' invite_id (vd_slots s)\<rparr>
          in Inr (find_row (\<lambda>x. wi_id x = invite_id) (vd_invites s1), s1)))"

section \<open>Visits\<close>

definition visit_conflict :: "world_visit \<Rightarrow> world_visit \<Rightarrow> bool" where
  "visit_conflict v x = (vi_id v = vi_id x \<or> vi_invite v = vi_invite x \<or>
     (is_open v \<and> is_open x \<and> vi_world v = vi_world x \<and> vi_visitor v = vi_visitor x))"

definition insert_pending_universe_visit ::
  "string \<Rightarrow> string \<Rightarrow> string \<Rightarrow> string \<Rightarrow> string \<Rightarrow> int \<Rightarrow> int \<Rightarrow> visit_db \<Rightarrow> (world_visit \<times> visit_db) res" where
  "insert_pending_universe_visit visit_id invite_id world_id owner visitor pending_expires now s =
     (if owner = visitor then Inl (ValueError ''self invite is forbidden'')
      else and_then (lock_owner_world world_id owner s) (\<lambda>_.
        case find_row (\<lambda>i. wi_id i = invite_id \<and> wi_world i = world_id \<and> wi_owner i = owner) (vd_invites s) of
          None \<Rightarrow> Inl (ValueError ''invite is not active'')
        | Some i \<Rightarrow>
          if wi_status i \<noteq> ''active'' then Inl (ValueError ''invite is not active'')
          else let v = \<lparr>vi_id = visit_id, vi_invite = invite_id, vi_world = world_id, vi_owner = owner,
                 vi_visitor = visitor, vi_status = ''pending'', vi_pending_expires = pending_expires,
                 vi_accepted = None, vi_expires = None, vi_terminal = None, vi_reason = None,
                 vi_created = now, vi_updated = now\<rparr>
          in if list_ex (visit_conflict v) (vd_visits s) then Inl (IntegrityError ''universe_visits'')
          else and_then (occupy (held_by world_id ''invite'' invite_id) ''visit'' visit_id now
                 (s\<lparr>vd_visits := vd_visits s @ [v]\<rparr>)) (\<lambda>(n, s1).
            if n \<noteq> 1 then Inl (RuntimeError ''invite slot transfer failed'')
            else let s2 = s1\<lparr>vd_invites := update_where (\<lambda>x. wi_id x = invite_id \<and> wi_status x = ''active'')
                   (\<lambda>x. x\<lparr>wi_status := ''redeemed'', wi_redeemer := Some visitor, wi_visit := Some visit_id,
                     wi_redeemed := Some now, wi_updated := now\<rparr>) (vd_invites s1)\<rparr>
            in (case find_row (\<lambda>x. vi_id x = visit_id) (vd_visits s2) of
                  None \<Rightarrow> Inl (RuntimeError ''pending universe visit was not created'')
                | Some x \<Rightarrow> Inr (x, s2)))))"

definition count_open_universe_visits_for_visitor :: "string \<Rightarrow> visit_db \<Rightarrow> nat" where
  "count_open_universe_visits_for_visitor visitor s =
     count_where (\<lambda>v. vi_visitor v = visitor \<and> in_mingchan (vi_world v) s \<and> is_open v) (vd_visits s)"

definition get_universe_visit :: "string \<Rightarrow> visit_db \<Rightarrow> world_visit option" where
  "get_universe_visit visit_id s = find_row (\<lambda>v. vi_id v = visit_id \<and> in_mingchan (vi_world v) s) (vd_visits s)"

definition get_universe_visit_for_participant :: "string \<Rightarrow> string \<Rightarrow> visit_db \<Rightarrow> world_visit option" where
  "get_universe_visit_for_participant visit_id user s =
     find_row (\<lambda>v. vi_id v = visit_id \<and> (vi_owner v = user \<or> vi_visitor v = user) \<and> in_mingchan (vi_world v) s)
       (vd_visits s)"

text \<open>The inner joins with \<^verbatim>\<open>platform_users\<close> drop a visit whose owner or visitor has no row.\<close>

definition user_row :: "string \<Rightarrow> visit_db \<Rightarrow> platform_user option" where
  "user_row i s = find_row (\<lambda>u. u_id u = i) (users (vd_world s))"

definition list_universe_visits_for_participant :: "string \<Rightarrow> string list \<Rightarrow> int \<Rightarrow> visit_db \<Rightarrow> world_visit list" where
  "list_universe_visits_for_participant user statuses limit s =
     sql_limit (max 1 (min limit 100)) (order_desc (\<lambda>v. (vi_created v, vi_id v))
       (filter (\<lambda>v. (vi_owner v = user \<or> vi_visitor v = user) \<and> in_mingchan (vi_world v) s \<and>
          status_filter VISIT_STATUSES statuses (vi_status v) \<and>
          user_row (vi_owner v) s \<noteq> None \<and> user_row (vi_visitor v) s \<noteq> None) (vd_visits s)))"

definition list_due_universe_visits :: "int \<Rightarrow> int \<Rightarrow> visit_db \<Rightarrow> world_visit list" where
  "list_due_universe_visits now limit s =
     sql_limit (max 1 (min limit 500))
       (sort_key (\<lambda>v. (if vi_status v = ''pending'' then vi_pending_expires v else the (vi_expires v), vi_id v))
         (filter (\<lambda>v. ((vi_status v = ''pending'' \<and> vi_pending_expires v \<le> now) \<or>
            (vi_status v = ''active'' \<and> known (\<lambda>t. t \<le> now) (vi_expires v))) \<and> in_mingchan (vi_world v) s)
           (vd_visits s)))"

definition list_open_universe_visits_between :: "string \<Rightarrow> string \<Rightarrow> visit_db \<Rightarrow> world_visit list" where
  "list_open_universe_visits_between a b s =
     sort_key (\<lambda>v. (vi_world v, vi_id v)) (filter (\<lambda>v. is_open v \<and> in_mingchan (vi_world v) s \<and>
       ((vi_owner v = a \<and> vi_visitor v = b) \<or> (vi_owner v = b \<and> vi_visitor v = a))) (vd_visits s))"

definition lock_platform_user_for_visit :: "string \<Rightarrow> visit_db \<Rightarrow> platform_user res" where
  "lock_platform_user_for_visit user s =
     (case user_row user s of None \<Rightarrow> Inl (ValueError ''platform user not found'') | Some u \<Rightarrow> Inr u)"

definition mark_universe_visit_active ::
  "string \<Rightarrow> int \<Rightarrow> int \<Rightarrow> visit_db \<Rightarrow> (world_visit \<times> visit_db) res" where
  "mark_universe_visit_active visit_id accepted expires s =
     (let q = (\<lambda>v. vi_id v = visit_id \<and> vi_status v = ''pending'');
          s1 = s\<lparr>vd_visits := update_where q (\<lambda>v. v\<lparr>vi_status := ''active'', vi_accepted := Some accepted,
            vi_expires := Some expires, vi_updated := accepted\<rparr>) (vd_visits s)\<rparr>
      in if count_where q (vd_visits s) \<noteq> 1 then Inl (ValueError ''visit is not pending'')
         else (case find_row (\<lambda>v. vi_id v = visit_id) (vd_visits s1) of
           None \<Rightarrow> Inl (RuntimeError ''visit disappeared after activation'') | Some v \<Rightarrow> Inr (v, s1)))"

definition close_conversation :: "string \<Rightarrow> int \<Rightarrow> human_conversation list \<Rightarrow> human_conversation list" where
  "close_conversation visit_id now = update_where (\<lambda>c. hc_visit c = visit_id \<and> hc_status c = ''active'')
     (\<lambda>c. c\<lparr>hc_status := ''read_only'', hc_updated := now\<rparr>)"

definition mark_universe_visit_terminal ::
  "string \<Rightarrow> string \<Rightarrow> string \<Rightarrow> int \<Rightarrow> string \<Rightarrow> visit_db \<Rightarrow> (world_visit \<times> visit_db) res" where
  "mark_universe_visit_terminal visit_id expected target now reason s =
     (let q = (\<lambda>v. vi_id v = visit_id \<and> vi_status v = expected);
          s1 = s\<lparr>vd_visits := update_where q (\<lambda>v. v\<lparr>vi_status := target, vi_terminal := Some now,
            vi_reason := Some reason, vi_updated := now\<rparr>) (vd_visits s)\<rparr>
      in if expected \<notin> set VISIT_OPEN_STATUSES then Inl (ValueError ''invalid expected visit status'')
         else if target \<notin> set VISIT_TERMINAL_STATUSES then Inl (ValueError ''invalid visit terminal status'')
         else if count_where q (vd_visits s) \<noteq> 1 then Inl (ValueError (''visit is not '' @ expected))
         else (case find_row (\<lambda>v. vi_id v = visit_id) (vd_visits s1) of
           None \<Rightarrow> Inl (RuntimeError ''visit disappeared after terminal transition'')
         | Some v \<Rightarrow> Inr (v, s1\<lparr>vd_slots := vacate (vi_world v) ''visit'' visit_id (vd_slots s1),
             vd_conversations := close_conversation visit_id now (vd_conversations s1)\<rparr>)))"

section \<open>The conversation of a visit and blocks\<close>

definition create_human_conversation_for_visit ::
  "string \<Rightarrow> string \<Rightarrow> string \<Rightarrow> string \<Rightarrow> int \<Rightarrow> visit_db \<Rightarrow> (human_conversation \<times> visit_db) res" where
  "create_human_conversation_for_visit conversation_id visit_id owner visitor now s =
     (if visit_id = [] \<or> owner = [] \<or> visitor = [] then Inl (ValueError ''human conversation anchors are required'')
      else if owner = visitor then Inl (ValueError ''human conversation participants must differ'')
      else (case get_universe_visit visit_id s of
        None \<Rightarrow> Inl (ValueError ''human conversation visit not found'')
      | Some v \<Rightarrow>
        if vi_owner v \<noteq> owner \<or> vi_visitor v \<noteq> visitor
        then Inl (ValueError ''human conversation visit ownership mismatch'')
        else if vi_status v \<noteq> ''active'' then Inl (ValueError ''human conversation requires active visit'')
        else (case find_row (\<lambda>c. hc_visit c = visit_id) (vd_conversations s) of
          Some c \<Rightarrow> Inr (c, s)
        | None \<Rightarrow>
          if conversation_id \<in> hc_id ` set (vd_conversations s) then Inl (IntegrityError ''human_conversations_pkey'')
          else let s1 = s\<lparr>vd_conversations := vd_conversations s @ [\<lparr>hc_id = conversation_id, hc_visit = visit_id,
                 hc_owner = owner, hc_visitor = visitor, hc_status = ''active'', hc_owner_hidden = None,
                 hc_visitor_hidden = None, hc_owner_read = None, hc_visitor_read = None, hc_last = None,
                 hc_created = now, hc_updated = now, hc_owner_seq = None, hc_visitor_seq = None\<rparr>]\<rparr>
          in (case find_row (\<lambda>c. hc_id c = conversation_id) (vd_conversations s1) of
                None \<Rightarrow> Inl (RuntimeError ''human conversation was not created'')
              | Some c \<Rightarrow> Inr (c, s1)))))"

text \<open>The joins of a conversation with its visit and the visit's world.\<close>

definition conversation_in_mingchan :: "visit_db \<Rightarrow> human_conversation \<Rightarrow> bool" where
  "conversation_in_mingchan s c = list_ex (\<lambda>v. vi_id v = hc_visit c \<and> in_mingchan (vi_world v) s) (vd_visits s)"

definition get_human_conversation_for_visit :: "string \<Rightarrow> visit_db \<Rightarrow> human_conversation option" where
  "get_human_conversation_for_visit visit_id s =
     find_row (\<lambda>c. hc_visit c = visit_id \<and> conversation_in_mingchan s c) (vd_conversations s)"

definition blocks :: "string \<Rightarrow> string \<Rightarrow> user_block \<Rightarrow> bool" where
  "blocks a b k = (ub_blocker k = a \<and> ub_blocked k = b)"

definition insert_platform_user_block :: "string \<Rightarrow> string \<Rightarrow> int \<Rightarrow> visit_db \<Rightarrow> (bool \<times> visit_db) res" where
  "insert_platform_user_block blocker blocked now s =
     (if blocker = [] \<or> blocked = [] then Inl (ValueError ''block participants are required'')
      else if blocker = blocked then Inl (ValueError ''cannot block self'')
      else if list_ex (blocks blocker blocked) (vd_blocks s) then Inr (False, s)
      else Inr (True, s\<lparr>vd_blocks := vd_blocks s @ [\<lparr>ub_blocker = blocker, ub_blocked = blocked, ub_created = now\<rparr>]\<rparr>))"

definition has_platform_user_block :: "string \<Rightarrow> string \<Rightarrow> visit_db \<Rightarrow> bool" where
  "has_platform_user_block a b s = list_ex (\<lambda>k. blocks a b k \<or> blocks b a k) (vd_blocks s)"

end
