(* ===== verification/World_Visit_Service.thy ===== *)
theory World_Visit_Service
imports World_Visits
begin

text \<open>
  \<^verbatim>\<open>CompanionWorldVisitService\<close> of \<^verbatim>\<open>application/visits.py\<close>: invites and visits as an owner and a
  visitor use them, and the scheduled expiry. The drawn invite code and the new row ids are
  arguments; \<open>sha\<close> is SHA-256. A preview outside the transaction reads only columns of an invite or a
  visit that no operation changes (its owner, visitor, world and hash), so it is read in the state of
  the transaction. An operation that commits a change and then raises answers the error together with
  the new state.
\<close>

section \<open>Invites\<close>

definition require_home_world :: "string \<Rightarrow> visit_db \<Rightarrow> universe res" where
  "require_home_world user s =
     and_then (get_universe None (Some user) (vd_world s)) (\<lambda>w. case w of
        None \<Rightarrow> Inl (DomainError ''world_not_ready'')
      | Some u \<Rightarrow> if uv_status u \<noteq> ''active'' \<or> uv_onboarding u \<noteq> ''confirmed''
                  then Inl (DomainError ''world_not_ready'') else Inr u)"

definition create_invite ::
  "visit_policy \<Rightarrow> (string \<Rightarrow> string) \<Rightarrow> string \<Rightarrow> string \<Rightarrow> string \<Rightarrow> int \<Rightarrow> visit_db \<Rightarrow>
     ((world_invite \<times> string) \<times> visit_db) res" where
  "create_invite pol sha code invite_id user now s =
     and_then (require_home_world user s) (\<lambda>world.
       case and_then (lock_platform_user_for_visit user s) (\<lambda>_.
         and_then (lock_universe (uv_id world) (vd_world s)) (\<lambda>locked.
           if uv_owner locked \<noteq> user then Inl (DomainError ''world_not_ready'')
           else insert_universe_invite invite_id (uv_id world) user (sha code) (take 6 code)
             (db_time (now + hours (vp_invite_hours pol))) (db_time now) s)) of
         Inl (ValueError m) \<Rightarrow> Inl (if m = ''world visit limit reached'' then DomainError ''world_visit_limit_reached''
                                    else ValueError m)
       | Inl e \<Rightarrow> Inl e
       | Inr (i, s1) \<Rightarrow> Inr ((i, code), s1))"

definition list_invites :: "string \<Rightarrow> visit_db \<Rightarrow> world_invite list" where
  "list_invites user s = list_universe_invites_for_owner user [] 100 s"

definition revoke_invite :: "string \<Rightarrow> string \<Rightarrow> int \<Rightarrow> visit_db \<Rightarrow> (world_invite \<times> visit_db) res" where
  "revoke_invite user invite_id now s =
     (case get_universe_invite_for_owner invite_id user s of
        None \<Rightarrow> Inl (DomainError ''invite_not_found'')
      | Some preview \<Rightarrow>
          and_then (lock_platform_user_for_visit user s) (\<lambda>_.
          and_then (lock_universe (wi_world preview) (vd_world s)) (\<lambda>_.
            case mark_universe_invite_terminal invite_id user ''revoked'' (db_time now) s of
              Inl (ValueError _) \<Rightarrow> Inl (DomainError ''invite_unavailable'')
            | Inl e \<Rightarrow> Inl e
            | Inr (None, s1) \<Rightarrow> Inl (DomainError ''invite_not_found'')
            | Inr (Some i, s1) \<Rightarrow> Inr (i, s1))))"

definition expire_invite_candidate :: "world_invite \<Rightarrow> int \<Rightarrow> visit_db \<Rightarrow> (bool \<times> visit_db) res" where
  "expire_invite_candidate cand now s =
     and_then (lock_platform_user_for_visit (wi_owner cand) s) (\<lambda>_.
     and_then (lock_universe (wi_world cand) (vd_world s)) (\<lambda>_.
       case get_universe_invite_by_code_hash (wi_hash cand) s of
         None \<Rightarrow> Inr (False, s)
       | Some i \<Rightarrow>
           if wi_status i = ''active'' \<and> is_due now (Some (wi_expires i))
           then and_then (mark_universe_invite_terminal (wi_id i) (wi_owner i) ''expired'' (db_time now) s)
                  (\<lambda>(x, s1). Inr (True, s1))
           else Inr (False, s)))"

text \<open>One transaction per candidate; an error ends the loop, the earlier candidates stay committed.\<close>

fun expire_each :: "('c \<Rightarrow> visit_db \<Rightarrow> (bool \<times> visit_db) res) \<Rightarrow> 'c list \<Rightarrow> visit_db \<Rightarrow> nat res \<times> visit_db" where
  "expire_each f [] s = (Inr 0, s)"
| "expire_each f (c # cs) s =
     (case f c s of
        Inl e \<Rightarrow> (Inl e, s)
      | Inr (changed, s1) \<Rightarrow>
          (case expire_each f cs s1 of
             (Inl e, s2) \<Rightarrow> (Inl e, s2)
           | (Inr n, s2) \<Rightarrow> (Inr ((if changed then 1 else 0) + n), s2)))"

definition list_invites_current :: "string \<Rightarrow> int \<Rightarrow> visit_db \<Rightarrow> world_invite list res \<times> visit_db" where
  "list_invites_current user now s =
     (case expire_each (\<lambda>c. expire_invite_candidate c now)
             (filter (\<lambda>i. is_due now (Some (wi_expires i))) (list_universe_invites_for_owner user [''active''] 100 s)) s of
        (Inl e, s1) \<Rightarrow> (Inl e, s1) | (Inr n, s1) \<Rightarrow> (Inr (list_invites user s1), s1))"

section \<open>Redeeming\<close>

definition invite_char :: "char \<Rightarrow> bool" where
  "invite_char c = (let n = (of_char c :: int) in
     (48 \<le> n \<and> n \<le> 57) \<or> (65 \<le> n \<and> n \<le> 90) \<or> (97 \<le> n \<and> n \<le> 122) \<or> n = 95 \<or> n = 45)"

definition invite_code_ok :: "string \<Rightarrow> bool" where
  "invite_code_ok code = (length code = 43 \<and> list_all invite_char code)"

text \<open>The transaction of \<open>redeem\<close>: \<open>None\<close> when the invite turned out to be expired.\<close>

definition redeem_locked ::
  "visit_policy \<Rightarrow> string \<Rightarrow> string \<Rightarrow> string \<Rightarrow> string \<Rightarrow> int \<Rightarrow> visit_db \<Rightarrow> (world_visit option \<times> visit_db) res" where
  "redeem_locked pol hash visit_id world_id user now s =
     and_then (lock_platform_user_for_visit user s) (\<lambda>_.
     and_then (lock_universe world_id (vd_world s)) (\<lambda>locked.
       case get_universe_invite_by_code_hash hash s of
         None \<Rightarrow> Inl (DomainError ''invite_not_found'')
       | Some i \<Rightarrow>
         if uv_owner locked \<noteq> wi_owner i then Inl (DomainError ''invite_unavailable'')
         else if wi_status i \<noteq> ''active'' then Inl (DomainError ''invite_unavailable'')
         else if is_due now (Some (wi_expires i))
         then and_then (mark_universe_invite_terminal (wi_id i) (wi_owner i) ''expired'' (db_time now) s)
                (\<lambda>(x, s1). Inr (None, s1))
         else if wi_owner i = user then Inl (DomainError ''self_invite_not_allowed'')
         else if has_platform_user_block (wi_owner i) user s then Inl (DomainError ''visit_contact_blocked'')
         else if vp_visitor_limit pol \<le> int (count_open_universe_visits_for_visitor user s)
         then Inl (DomainError ''visitor_visit_limit_reached'')
         else (case insert_pending_universe_visit visit_id (wi_id i) (wi_world i) (wi_owner i) user
               (db_time (now + days (vp_pending_days pol))) (db_time now) s of
             Inl (IntegrityError _) \<Rightarrow> Inl (DomainError ''visit_already_open'')
           | Inl e \<Rightarrow> Inl e
           | Inr (v, s1) \<Rightarrow> Inr (Some v, s1))))"

definition redeem ::
  "visit_policy \<Rightarrow> (string \<Rightarrow> string) \<Rightarrow> string \<Rightarrow> string \<Rightarrow> string \<Rightarrow> int \<Rightarrow> visit_db \<Rightarrow> world_visit res \<times> visit_db" where
  "redeem pol sha visit_id user code now s =
     (let clean = py_strip code in
      if \<not> invite_code_ok clean then (Inl (DomainError ''invalid_invite_code''), s)
      else (case get_universe_invite_by_code_hash (sha clean) s of
        None \<Rightarrow> (Inl (DomainError ''invite_not_found''), s)
      | Some preview \<Rightarrow>
        (case redeem_locked pol (sha clean) visit_id (wi_world preview) user now s of
           Inl e \<Rightarrow> (Inl e, s)
         | Inr (None, s1) \<Rightarrow> (Inl (DomainError ''invite_expired''), s1)
         | Inr (Some v, s1) \<Rightarrow> (Inr v, s1))))"

section \<open>Accepting and ending a visit\<close>

definition accept_locked ::
  "visit_policy \<Rightarrow> string \<Rightarrow> string \<Rightarrow> string \<Rightarrow> int \<Rightarrow> world_visit \<Rightarrow> visit_db \<Rightarrow>
     ((world_visit \<times> human_conversation option \<times> bool) option \<times> visit_db) res" where
  "accept_locked pol conversation_id visit_id user now preview s =
     and_then (lock_platform_user_for_visit (vi_visitor preview) s) (\<lambda>_.
     and_then (lock_universe (vi_world preview) (vd_world s)) (\<lambda>_.
       case get_universe_visit visit_id s of
         None \<Rightarrow> Inl (DomainError ''visit_not_found'')
       | Some v \<Rightarrow>
         if vi_owner v \<noteq> user then Inl (DomainError ''visit_not_found'')
         else if vi_status v = ''active'' then Inr (Some (v, get_human_conversation_for_visit visit_id s, True), s)
         else if vi_status v \<noteq> ''pending'' then Inl (DomainError ''visit_not_pending'')
         else if is_due now (Some (vi_pending_expires v))
         then and_then (mark_universe_visit_terminal visit_id ''pending'' ''expired'' (db_time now) ''pending_expired'' s)
                (\<lambda>(x, s1). Inr (None, s1))
         else if has_platform_user_block (vi_owner v) (vi_visitor v) s then Inl (DomainError ''visit_contact_blocked'')
         else and_then (mark_universe_visit_active visit_id (db_time now) (db_time (now + days (vp_active_days pol))) s)
           (\<lambda>(x, s1). and_then (create_human_conversation_for_visit conversation_id visit_id (vi_owner x) (vi_visitor x)
              (db_time now) s1) (\<lambda>(c, s2). Inr (Some (x, Some c, False), s2)))))"

definition accept ::
  "visit_policy \<Rightarrow> string \<Rightarrow> string \<Rightarrow> string \<Rightarrow> int \<Rightarrow> visit_db \<Rightarrow>
     (world_visit \<times> human_conversation \<times> bool) res \<times> visit_db" where
  "accept pol conversation_id user visit_id now s =
     (case get_universe_visit visit_id s of
        None \<Rightarrow> (Inl (DomainError ''visit_not_found''), s)
      | Some preview \<Rightarrow>
        if vi_owner preview \<noteq> user then (Inl (DomainError ''visit_not_found''), s)
        else (case accept_locked pol conversation_id visit_id user now preview s of
           Inl e \<Rightarrow> (Inl e, s)
         | Inr (None, s1) \<Rightarrow> (Inl (DomainError ''visit_pending_expired''), s1)
         | Inr (Some (v, None, replayed), s1) \<Rightarrow> (Inl (RuntimeError ''visit accept missing conversation''), s1)
         | Inr (Some (v, Some c, replayed), s1) \<Rightarrow> (Inr (v, c, replayed), s1)))"

text \<open>The role that may take an action, the status it needs and the status it leads to.\<close>

definition visit_rule :: "string \<Rightarrow> (string \<times> string \<times> string) option" where
  "visit_rule = map_of [(''reject'', ''owner'', ''pending'', ''rejected''), (''cancel'', ''visitor'', ''pending'', ''cancelled''),
     (''leave'', ''visitor'', ''active'', ''left''), (''revoke'', ''owner'', ''active'', ''revoked'')]"

definition actor_of :: "string \<Rightarrow> world_visit \<Rightarrow> string" where
  "actor_of role v = (if role = ''owner'' then vi_owner v else vi_visitor v)"

definition terminate :: "string \<Rightarrow> string \<Rightarrow> string \<Rightarrow> int \<Rightarrow> visit_db \<Rightarrow> (world_visit \<times> visit_db) res" where
  "terminate user visit_id action now s =
     (case visit_rule action of
        None \<Rightarrow> Inl (ValueError ''invalid visit terminal action'')
      | Some (role, expected, target) \<Rightarrow>
        (case get_universe_visit visit_id s of
           None \<Rightarrow> Inl (DomainError ''visit_not_found'')
         | Some preview \<Rightarrow>
           if actor_of role preview \<noteq> user then Inl (DomainError ''visit_not_found'')
           else if vi_status preview = target then Inr (preview, s)
           else and_then (lock_platform_user_for_visit (vi_visitor preview) s) (\<lambda>_.
                and_then (lock_universe (vi_world preview) (vd_world s)) (\<lambda>_.
                  case get_universe_visit visit_id s of
                    None \<Rightarrow> Inl (DomainError ''visit_not_found'')
                  | Some v \<Rightarrow>
                    if actor_of role v \<noteq> user then Inl (DomainError ''visit_not_found'')
                    else if vi_status v = target then Inr (v, s)
                    else if vi_status v \<noteq> expected
                    then Inl (DomainError (if expected = ''pending'' then ''visit_not_pending'' else ''visit_not_active''))
                    else mark_universe_visit_terminal visit_id expected target (db_time now)
                           (role @ ''_'' @ action) s))))"

definition expire_visit_candidate :: "world_visit \<Rightarrow> int \<Rightarrow> visit_db \<Rightarrow> (bool \<times> visit_db) res" where
  "expire_visit_candidate cand now s =
     and_then (lock_platform_user_for_visit (vi_visitor cand) s) (\<lambda>_.
     and_then (lock_universe (vi_world cand) (vd_world s)) (\<lambda>_.
       case get_universe_visit (vi_id cand) s of
         None \<Rightarrow> Inr (False, s)
       | Some v \<Rightarrow>
         if \<not> is_open v then Inr (False, s)
         else if is_due now (if vi_status v = ''pending'' then Some (vi_pending_expires v) else vi_expires v)
         then and_then (mark_universe_visit_terminal (vi_id v) (vi_status v) ''expired'' (db_time now)
                (if vi_status v = ''pending'' then ''pending_expired'' else ''active_expired'') s)
                (\<lambda>(x, s1). Inr (True, s1))
         else Inr (False, s)))"

record visit_view =
  vv_id :: string
  vv_role :: string
  vv_counterpart :: "string option"
  vv_status :: string
  vv_pending_expires :: int
  vv_accepted :: "int option"
  vv_expires :: "int option"
  vv_terminal :: "int option"
  vv_reason :: "string option"
  vv_created :: int

definition display_name :: "string \<Rightarrow> visit_db \<Rightarrow> string option" where
  "display_name user s = Option.bind (user_row user s) u_name"

definition visit_public :: "visit_db \<Rightarrow> string \<Rightarrow> world_visit \<Rightarrow> visit_view" where
  "visit_public s user v = \<lparr>vv_id = vi_id v, vv_role = (if vi_owner v = user then ''owner'' else ''visitor''),
     vv_counterpart = display_name (if vi_owner v = user then vi_visitor v else vi_owner v) s,
     vv_status = vi_status v, vv_pending_expires = vi_pending_expires v, vv_accepted = vi_accepted v,
     vv_expires = vi_expires v, vv_terminal = vi_terminal v, vv_reason = vi_reason v, vv_created = vi_created v\<rparr>"

definition list_visits :: "string \<Rightarrow> string list \<Rightarrow> visit_db \<Rightarrow> visit_view list" where
  "list_visits user statuses s = map (visit_public s user) (list_universe_visits_for_participant user statuses 100 s)"

definition visit_deadline :: "world_visit \<Rightarrow> int option" where
  "visit_deadline v = (if vi_status v = ''pending'' then Some (vi_pending_expires v) else vi_expires v)"

definition expire_listed_visits :: "string \<Rightarrow> int \<Rightarrow> visit_db \<Rightarrow> nat res \<times> visit_db" where
  "expire_listed_visits user now s = expire_each (\<lambda>c. expire_visit_candidate c now)
     (filter (\<lambda>v. is_due now (visit_deadline v))
       (list_universe_visits_for_participant user [''pending'', ''active''] 100 s)) s"

definition list_visits_current :: "string \<Rightarrow> int \<Rightarrow> string list \<Rightarrow> visit_db \<Rightarrow> visit_view list res \<times> visit_db" where
  "list_visits_current user now statuses s =
     (case expire_listed_visits user now s of
        (Inl e, s1) \<Rightarrow> (Inl e, s1) | (Inr n, s1) \<Rightarrow> (Inr (list_visits user statuses s1), s1))"

section \<open>The feed of a visited world\<close>

datatype visit_feed = Feed "int option" "feed_post list" | Closed string

definition visit_feed_locked ::
  "string \<Rightarrow> string \<Rightarrow> int \<Rightarrow> int option \<Rightarrow> string option \<Rightarrow> int \<Rightarrow> world_visit \<Rightarrow> visit_db \<Rightarrow>
     (visit_feed \<times> visit_db) res" where
  "visit_feed_locked user visit_id now cursor_at cursor_id limit preview s =
     and_then (lock_platform_user_for_visit user s) (\<lambda>_.
     and_then (lock_universe (vi_world preview) (vd_world s)) (\<lambda>_.
       case get_universe_visit visit_id s of
         None \<Rightarrow> Inl (DomainError ''visit_not_found'')
       | Some v \<Rightarrow>
         if vi_visitor v \<noteq> user then Inl (DomainError ''visit_not_found'')
         else if vi_status v \<noteq> ''active'' then Inl (DomainError ''visit_not_active'')
         else if is_due now (vi_expires v)
         then and_then (mark_universe_visit_terminal visit_id ''active'' ''expired'' (db_time now) ''active_expired'' s)
                (\<lambda>(x, s1). Inr (Closed ''visit_not_active'', s1))
         else if has_platform_user_block (vi_owner v) (vi_visitor v) s
         then and_then (mark_universe_visit_terminal visit_id ''active'' ''blocked'' (db_time now) ''contact_blocked'' s)
                (\<lambda>(x, s1). Inr (Closed ''visit_contact_blocked'', s1))
         else (case list_published_feed_posts_for_owner (vi_owner v) cursor_at cursor_id limit (vd_world s) of
             Inl (ValueError m) \<Rightarrow> Inl (DomainError (if m = ''invalid_cursor'' then ''invalid_cursor'' else ''visit_not_active''))
           | Inl e \<Rightarrow> Inl e
           | Inr rows \<Rightarrow> Inr (Feed (vi_expires v) rows, s))))"

definition list_visit_feed ::
  "string \<Rightarrow> string \<Rightarrow> int \<Rightarrow> int option \<Rightarrow> string option \<Rightarrow> int \<Rightarrow> visit_db \<Rightarrow>
     (int option \<times> feed_post list) res \<times> visit_db" where
  "list_visit_feed user visit_id now cursor_at cursor_id limit s =
     (case get_universe_visit visit_id s of
        None \<Rightarrow> (Inl (DomainError ''visit_not_found''), s)
      | Some preview \<Rightarrow>
        if vi_visitor preview \<noteq> user then (Inl (DomainError ''visit_not_found''), s)
        else (case visit_feed_locked user visit_id now cursor_at cursor_id limit preview s of
           Inl e \<Rightarrow> (Inl e, s)
         | Inr (Closed code, s1) \<Rightarrow> (Inl (DomainError code), s1)
         | Inr (Feed expires rows, s1) \<Rightarrow> (Inr (expires, rows), s1)))"

section \<open>Blocking a user\<close>

fun block_visits :: "int \<Rightarrow> world_visit list \<Rightarrow> visit_db \<Rightarrow> (nat \<times> visit_db) res" where
  "block_visits now [] s = Inr (0, s)"
| "block_visits now (v # vs) s =
     (case get_universe_visit (vi_id v) s of
        None \<Rightarrow> block_visits now vs s
      | Some x \<Rightarrow>
        if \<not> is_open x then block_visits now vs s
        else and_then (mark_universe_visit_terminal (vi_id x) (vi_status x) ''blocked'' (db_time now) ''contact_blocked'' s)
               (\<lambda>(y, s1). and_then (block_visits now vs s1) (\<lambda>(n, s2). Inr (Suc n, s2))))"

definition block_user :: "string \<Rightarrow> string \<Rightarrow> int \<Rightarrow> visit_db \<Rightarrow> (nat \<times> visit_db) res" where
  "block_user user visit_id now s =
     (case get_universe_visit visit_id s of
        None \<Rightarrow> Inl (DomainError ''visit_not_found'')
      | Some preview \<Rightarrow>
        if user \<noteq> vi_owner preview \<and> user \<noteq> vi_visitor preview then Inl (DomainError ''visit_not_found'')
        else let counterpart = (if vi_owner preview = user then vi_visitor preview else vi_owner preview)
        in and_then (each (\<lambda>u. lock_platform_user_for_visit u s) (sort (remdups [user, counterpart]))) (\<lambda>_.
           let open_visits = list_open_universe_visits_between user counterpart s
           in and_then (each (\<lambda>w. lock_universe w (vd_world s)) (sort (remdups (map vi_world open_visits)))) (\<lambda>_.
              and_then (insert_platform_user_block user counterpart (db_time now) s) (\<lambda>(created, s1).
                block_visits now open_visits s1))))"

section \<open>The scheduled expiry\<close>

record expiry_metrics =
  em_scanned :: nat
  em_invites :: nat
  em_visits :: nat

definition maintain_expiry_batch :: "int \<Rightarrow> int \<Rightarrow> visit_db \<Rightarrow> expiry_metrics res \<times> visit_db" where
  "maintain_expiry_batch now batch s =
     (let clean = max 1 (min batch 500);
          invites = list_due_universe_invites (db_time now) clean s;
          remaining = max 0 (clean - int (length invites));
          visits = (if remaining \<noteq> 0 then list_due_universe_visits (db_time now) remaining s else [])
      in case expire_each (\<lambda>c. expire_invite_candidate c now) invites s of
           (Inl e, s1) \<Rightarrow> (Inl e, s1)
         | (Inr ni, s1) \<Rightarrow>
           (case expire_each (\<lambda>c. expire_visit_candidate c now) visits s1 of
              (Inl e, s2) \<Rightarrow> (Inl e, s2)
            | (Inr nv, s2) \<Rightarrow>
                (Inr \<lparr>em_scanned = length invites + length visits, em_invites = ni, em_visits = nv\<rparr>, s2)))"

end
