(* ===== verification/World_Human_Chat.thy ===== *)
theory World_Human_Chat
imports World_Visit_Service
begin

text \<open>
  The chat between two people on a visit: \<^verbatim>\<open>domain/companion_world/human_chat.py\<close>, the repository
  \<^verbatim>\<open>infrastructure/persistence/companion_world_human_chat.py\<close> and \<^verbatim>\<open>CompanionWorldHumanChatService\<close> of
  \<^verbatim>\<open>application/human_chat.py\<close>. The labels of the report reasons, which are Chinese display texts, are
  left out, and the two placeholders of a preview are constructors.
\<close>

section \<open>The domain's rules\<close>

text \<open>\<open>str.lower()\<close> on Latin-1.\<close>

definition py_lower :: "string \<Rightarrow> string" where
  "py_lower = map (\<lambda>c. let n = (of_char c :: int) in
     if (65 \<le> n \<and> n \<le> 90) \<or> (192 \<le> n \<and> n \<le> 222 \<and> n \<noteq> 215) then char_of (n + 32) else c)"

record report_reason =
  rr_code :: string
  rr_details_required :: bool

definition HUMAN_REPORT_REASONS_VERSION :: int where "HUMAN_REPORT_REASONS_VERSION = 1"

definition HUMAN_REPORT_REASONS :: "report_reason list" where
  "HUMAN_REPORT_REASONS =
     map (\<lambda>c. \<lparr>rr_code = c, rr_details_required = False\<rparr>)
       [''spam'', ''harassment'', ''threat'', ''hate'', ''sexual'', ''privacy'']
     @ [\<lparr>rr_code = ''other'', rr_details_required = True\<rparr>]"

definition human_report_reason :: "string \<Rightarrow> report_reason option" where
  "human_report_reason code = find_row (\<lambda>r. rr_code r = py_lower (py_strip code)) HUMAN_REPORT_REASONS"

definition human_conversation_transition_allowed :: "string \<Rightarrow> string \<Rightarrow> bool" where
  "human_conversation_transition_allowed current target =
     (current = target \<or> (current = ''active'' \<and> target = ''read_only''))"

definition MAX_MESSAGE_CHARS :: nat where "MAX_MESSAGE_CHARS = 4000"

definition normalize_human_message_body :: "bool \<Rightarrow> string \<Rightarrow> string res" where
  "normalize_human_message_body allow_empty body =
     (let c = py_strip body in
      if c = [] \<and> \<not> allow_empty then Inl (ValueError ''human message body is required'')
      else if MAX_MESSAGE_CHARS < length c then Inl (ValueError ''human message body is too long'')
      else Inr c)"

section \<open>The repository\<close>

definition participant :: "string \<Rightarrow> human_conversation \<Rightarrow> bool" where
  "participant user c = (hc_owner c = user \<or> hc_visitor c = user)"

definition shown_to :: "string \<Rightarrow> human_conversation \<Rightarrow> bool" where
  "shown_to user c = ((hc_owner c = user \<and> hc_owner_hidden c = None) \<or>
     (hc_visitor c = user \<and> hc_visitor_hidden c = None))"

definition get_human_conversation_for_participant ::
  "string \<Rightarrow> string \<Rightarrow> bool \<Rightarrow> visit_db \<Rightarrow> human_conversation option" where
  "get_human_conversation_for_participant conversation_id user include_hidden s =
     find_row (\<lambda>c. hc_id c = conversation_id \<and> conversation_in_mingchan s c \<and> participant user c \<and>
       (include_hidden \<or> shown_to user c)) (vd_conversations s)"

definition HUMAN_CONVERSATION_PREVIEW_CHARS :: nat where "HUMAN_CONVERSATION_PREVIEW_CHARS = 120"

definition last_message :: "visit_db \<Rightarrow> human_conversation \<Rightarrow> human_message option" where
  "last_message s c = first_by (\<lambda>m. - hm_seq m) (filter (\<lambda>m. hm_conversation m = hc_id c) (vd_messages s))"

definition read_cursor :: "string \<Rightarrow> human_conversation \<Rightarrow> int" where
  "read_cursor user c = (case (if hc_owner c = user then hc_owner_seq c else hc_visitor_seq c) of
     None \<Rightarrow> 0 | Some n \<Rightarrow> n)"

definition unread_count :: "string \<Rightarrow> human_conversation \<Rightarrow> visit_db \<Rightarrow> nat" where
  "unread_count user c s = count_where (\<lambda>m. hm_conversation m = hc_id c \<and> hm_sender m \<noteq> user \<and>
     read_cursor user c < hm_seq m) (vd_messages s)"

record conversation_row =
  cw_row :: human_conversation
  cw_owner_name :: "string option"
  cw_visitor_name :: "string option"
  cw_visit_status :: "string option"
  cw_visit_expires :: "int option"
  cw_preview :: "string option"
  cw_media_kind :: "string option"
  cw_unread :: nat

text \<open>The visit is joined first and its world after it, so a conversation without a visit is not listed.\<close>

definition conversation_row_of :: "string \<Rightarrow> visit_db \<Rightarrow> human_conversation \<Rightarrow> conversation_row" where
  "conversation_row_of user s c =
     (let v = find_row (\<lambda>v. vi_id v = hc_visit c) (vd_visits s); m = last_message s c
      in \<lparr>cw_row = c, cw_owner_name = display_name (hc_owner c) s, cw_visitor_name = display_name (hc_visitor c) s,
          cw_visit_status = map_option vi_status v, cw_visit_expires = Option.bind v vi_expires,
          cw_preview = map_option (\<lambda>m. take HUMAN_CONVERSATION_PREVIEW_CHARS (hm_body m)) m,
          cw_media_kind = Option.bind m (\<lambda>m. map_option md_kind (find_row (\<lambda>a. Some (md_id a) = hm_media m)
            (media_assets (vd_world s)))),
          cw_unread = unread_count user c s\<rparr>)"

definition list_human_conversations_for_participant ::
  "string \<Rightarrow> bool \<Rightarrow> int \<Rightarrow> visit_db \<Rightarrow> conversation_row list" where
  "list_human_conversations_for_participant user include_hidden limit s =
     map (conversation_row_of user s) (sql_limit (max 1 (min limit 100))
       (order_desc (\<lambda>c. (case hc_last c of None \<Rightarrow> hc_created c | Some t \<Rightarrow> t, hc_id c))
         (filter (\<lambda>c. participant user c \<and> conversation_in_mingchan s c \<and> (include_hidden \<or> shown_to user c) \<and>
            user_row (hc_owner c) s \<noteq> None \<and> user_row (hc_visitor c) s \<noteq> None) (vd_conversations s))))"

definition lock_human_conversation :: "string \<Rightarrow> visit_db \<Rightarrow> human_conversation option" where
  "lock_human_conversation conversation_id s = find_row (\<lambda>c. hc_id c = conversation_id) (vd_conversations s)"

definition sent_as :: "string \<Rightarrow> string \<Rightarrow> string \<Rightarrow> human_message \<Rightarrow> bool" where
  "sent_as conversation_id sender client m =
     (hm_conversation m = conversation_id \<and> hm_sender m = sender \<and> hm_client m = client)"

definition get_human_message_by_client_id :: "string \<Rightarrow> string \<Rightarrow> string \<Rightarrow> visit_db \<Rightarrow> human_message option" where
  "get_human_message_by_client_id conversation_id sender client s =
     find_row (sent_as conversation_id sender client) (vd_messages s)"

text \<open>\<open>MAX(sequence_no)\<close> of a conversation, \<open>0\<close> without messages.\<close>

definition last_sequence :: "string \<Rightarrow> visit_db \<Rightarrow> int" where
  "last_sequence conversation_id s =
     (case map hm_seq (filter (\<lambda>m. hm_conversation m = conversation_id) (vd_messages s)) of
        [] \<Rightarrow> 0 | n # ns \<Rightarrow> fold max ns n)"

definition message_conflict :: "human_message \<Rightarrow> human_message \<Rightarrow> bool" where
  "message_conflict m x = (hm_id m = hm_id x \<or> (hm_conversation m = hm_conversation x \<and>
     ((hm_sender m = hm_sender x \<and> hm_client m = hm_client x) \<or> hm_seq m = hm_seq x)))"

definition insert_human_message ::
  "string \<Rightarrow> string \<Rightarrow> string \<Rightarrow> string \<Rightarrow> string \<Rightarrow> string option \<Rightarrow> int \<Rightarrow> visit_db \<Rightarrow>
     ((human_message \<times> bool) \<times> visit_db) res" where
  "insert_human_message message_id conversation_id sender client body media now s =
     (case get_human_message_by_client_id conversation_id sender client s of
        Some x \<Rightarrow> if hm_body x \<noteq> body \<or> hm_media x \<noteq> media then Inl (ValueError ''idempotency_conflict'')
                  else Inr ((x, False), s)
      | None \<Rightarrow>
        let m = \<lparr>hm_id = message_id, hm_conversation = conversation_id, hm_sender = sender, hm_client = client,
              hm_seq = last_sequence conversation_id s + 1, hm_body = body, hm_media = media, hm_created = now\<rparr>;
            s1 = (if list_ex (message_conflict m) (vd_messages s) then s
                  else s\<lparr>vd_messages := vd_messages s @ [m]\<rparr>)
        in (case get_human_message_by_client_id conversation_id sender client s1 of
              None \<Rightarrow> Inl (RuntimeError ''human message was not inserted'')
            | Some x \<Rightarrow>
              if hm_id x \<noteq> message_id \<and> (hm_body x \<noteq> body \<or> hm_media x \<noteq> media)
              then Inl (ValueError ''idempotency_conflict'')
              else if hm_id x = message_id
              then Inr ((x, True), s1\<lparr>vd_conversations := update_where (\<lambda>c. hc_id c = conversation_id)
                     (\<lambda>c. c\<lparr>hc_last := Some now, hc_updated := now\<rparr>) (vd_conversations s1)\<rparr>)
              else Inr ((x, False), s1)))"

definition list_human_messages_for_participant ::
  "string \<Rightarrow> string \<Rightarrow> int option \<Rightarrow> string option \<Rightarrow> int \<Rightarrow> visit_db \<Rightarrow> human_message list res" where
  "list_human_messages_for_participant conversation_id user cursor_seq cursor_id limit s =
     (if (cursor_seq = None) \<noteq> (cursor_id = None) then Inl (ValueError ''invalid_cursor'')
      else Inr (sql_limit (max 1 (min limit 51)) (order_desc hm_seq (filter (\<lambda>m. hm_conversation m = conversation_id \<and>
        opt_all (\<lambda>n. hm_seq m < n) cursor_seq \<and>
        list_ex (\<lambda>c. hc_id c = conversation_id \<and> participant user c \<and> shown_to user c) (vd_conversations s))
        (vd_messages s)))))"

definition get_human_message_for_participant :: "string \<Rightarrow> string \<Rightarrow> string \<Rightarrow> visit_db \<Rightarrow> human_message option" where
  "get_human_message_for_participant conversation_id message_id user s =
     find_row (\<lambda>m. hm_id m = message_id \<and> hm_conversation m = conversation_id \<and>
       list_ex (\<lambda>c. hc_id c = conversation_id \<and> participant user c) (vd_conversations s)) (vd_messages s)"

text \<open>The cursor only moves forward.\<close>

definition advance :: "int \<Rightarrow> int option \<Rightarrow> int option" where
  "advance target cursor = (case cursor of None \<Rightarrow> Some target | Some n \<Rightarrow> if n < target then Some target else Some n)"

definition mark_human_conversation_read ::
  "string \<Rightarrow> string \<Rightarrow> int \<Rightarrow> visit_db \<Rightarrow> human_conversation option \<times> visit_db" where
  "mark_human_conversation_read conversation_id user now s =
     (case lock_human_conversation conversation_id s of
        None \<Rightarrow> (None, s)
      | Some c0 \<Rightarrow>
        if \<not> participant user c0 then (None, s)
        else let target = last_sequence conversation_id s;
                 s1 = s\<lparr>vd_conversations := update_where (\<lambda>c. hc_id c = conversation_id)
                   (\<lambda>c. if hc_owner c0 = user
                        then c\<lparr>hc_owner_read := Some now, hc_owner_seq := advance target (hc_owner_seq c), hc_updated := now\<rparr>
                        else c\<lparr>hc_visitor_read := Some now, hc_visitor_seq := advance target (hc_visitor_seq c),
                          hc_updated := now\<rparr>) (vd_conversations s)\<rparr>
             in (lock_human_conversation conversation_id s1, s1))"

definition hide_human_conversation_for_participant ::
  "string \<Rightarrow> string \<Rightarrow> int \<Rightarrow> visit_db \<Rightarrow> human_conversation option \<times> visit_db" where
  "hide_human_conversation_for_participant conversation_id user now s =
     (case lock_human_conversation conversation_id s of
        None \<Rightarrow> (None, s)
      | Some c0 \<Rightarrow>
        if \<not> participant user c0 then (None, s)
        else let first = (\<lambda>v. case v of None \<Rightarrow> Some now | Some t \<Rightarrow> Some t);
                 s1 = s\<lparr>vd_conversations := update_where (\<lambda>c. hc_id c = conversation_id)
                   (\<lambda>c. if hc_owner c0 = user then c\<lparr>hc_owner_hidden := first (hc_owner_hidden c), hc_updated := now\<rparr>
                        else c\<lparr>hc_visitor_hidden := first (hc_visitor_hidden c), hc_updated := now\<rparr>)
                   (vd_conversations s)\<rparr>
             in (lock_human_conversation conversation_id s1, s1))"

definition counterpart_of :: "string \<Rightarrow> human_conversation \<Rightarrow> string" where
  "counterpart_of user c = (if hc_owner c = user then hc_visitor c else hc_owner c)"

definition insert_human_chat_report ::
  "string \<Rightarrow> string \<Rightarrow> string \<Rightarrow> string \<Rightarrow> string option \<Rightarrow> string \<Rightarrow> string option \<Rightarrow> dict \<Rightarrow> int \<Rightarrow> visit_db \<Rightarrow>
     (chat_report \<times> visit_db) res" where
  "insert_human_chat_report report_id conversation_id reporter reported message_id reason details evidence now s =
     (case lock_human_conversation conversation_id s of
        None \<Rightarrow> Inl (ValueError ''human conversation not found'')
      | Some c \<Rightarrow>
        if \<not> participant reporter c then Inl (ValueError ''human conversation not found'')
        else if counterpart_of reporter c \<noteq> reported then Inl (ValueError ''reported participant mismatch'')
        else if report_id \<in> hr_id ` set (vd_reports s) then Inl (IntegrityError ''human_chat_reports_pkey'')
        else let s1 = s\<lparr>vd_reports := vd_reports s @ [\<lparr>hr_id = report_id, hr_conversation = conversation_id,
               hr_reporter = reporter, hr_reported = reported, hr_message = message_id, hr_reason = reason,
               hr_details = details, hr_evidence = evidence, hr_status = ''open'', hr_created = now\<rparr>]\<rparr>
        in (case find_row (\<lambda>r. hr_id r = report_id) (vd_reports s1) of
              None \<Rightarrow> Inl (RuntimeError ''human chat report was not created'') | Some r \<Rightarrow> Inr (r, s1)))"

end
