(* ===== verification/World_Chat_Service.thy ===== *)
theory World_Chat_Service
imports World_Human_Chat
begin

text \<open>
  \<^verbatim>\<open>CompanionWorldHumanChatService\<close> (\<^verbatim>\<open>application/human_chat.py\<close>): listing, sending, reading, hiding and
  reporting, each as the transactions it runs. \<open>review\<close> is \<open>media_moderation_ready()\<close>.
\<close>

section \<open>Listing\<close>

definition read_only_reason :: "string option \<Rightarrow> string \<Rightarrow> bool \<Rightarrow> string option" where
  "read_only_reason visit_status status write_enabled =
     (if visit_status = Some ''blocked'' then Some ''counterpart_blocked''
      else if visit_status \<noteq> Some ''active'' then Some ''visit_ended''
      else if status \<noteq> ''active'' then Some ''conversation_ended''
      else if \<not> write_enabled then Some ''feature_disabled''
      else None)"

text \<open>\<open>' '.join(value.split())\<close>.\<close>

fun words_from :: "string \<Rightarrow> string \<Rightarrow> string list" where
  "words_from acc [] = (if acc = [] then [] else [rev acc])"
| "words_from acc (c # cs) =
     (if py_space c then (if acc = [] then words_from [] cs else rev acc # words_from [] cs)
      else words_from (c # acc) cs)"

fun join_words :: "string list \<Rightarrow> string" where
  "join_words [] = []"
| "join_words [w] = w"
| "join_words (w # v # vs) = w @ '' '' @ join_words (v # vs)"

definition collapse :: "string \<Rightarrow> string" where
  "collapse s = join_words (words_from [] s)"

text \<open>The preview of a list: the collapsed text, or the placeholder of a picture or a voice message.\<close>

datatype preview = Preview string | ImagePreview | VoicePreview

definition media_preview :: "string option \<Rightarrow> string \<Rightarrow> preview option" where
  "media_preview caption kind =
     (let cleaned = collapse (case caption of None \<Rightarrow> [] | Some t \<Rightarrow> t) in
      if cleaned \<noteq> [] then Some (Preview cleaned)
      else if py_strip kind = ''image'' then Some ImagePreview
      else if py_strip kind = ''voice'' then Some VoicePreview else None)"

definition preview_text :: "string option \<Rightarrow> string option \<Rightarrow> preview option" where
  "preview_text value media_kind =
     (case (value, or_none media_kind) of
        (None, None) \<Rightarrow> None
      | (v, Some kind) \<Rightarrow> media_preview v kind
      | (Some t, None) \<Rightarrow> (if collapse t = [] then None else Some (Preview (collapse t))))"

record conversation_view =
  cx_id :: string
  cx_visit :: string
  cx_counterpart :: "string option"
  cx_status :: string
  cx_last :: "int option"
  cx_last_read :: "int option"
  cx_created :: int
  cx_preview :: "preview option"
  cx_unread :: nat
  cx_can_send :: bool
  cx_reason :: "string option"
  cx_expires :: "int option"

definition conversation_public :: "string \<Rightarrow> bool \<Rightarrow> conversation_row \<Rightarrow> conversation_view" where
  "conversation_public user write_enabled r =
     (let c = cw_row r; owner = (hc_owner c = user);
          reason = read_only_reason (cw_visit_status r) (hc_status c) write_enabled
      in \<lparr>cx_id = hc_id c, cx_visit = hc_visit c,
          cx_counterpart = (if owner then cw_visitor_name r else cw_owner_name r), cx_status = hc_status c,
          cx_last = hc_last c, cx_last_read = (if owner then hc_owner_read c else hc_visitor_read c),
          cx_created = hc_created c, cx_preview = preview_text (cw_preview r) (cw_media_kind r),
          cx_unread = cw_unread r, cx_can_send = (reason = None), cx_reason = reason, cx_expires = cw_visit_expires r\<rparr>)"

definition list_conversations :: "string \<Rightarrow> int \<Rightarrow> bool \<Rightarrow> visit_db \<Rightarrow> conversation_view list res \<times> visit_db" where
  "list_conversations user now write_enabled s =
     (case list_visits_current user now [] s of
        (Inl e, s1) \<Rightarrow> (Inl e, s1)
      | (Inr vs, s1) \<Rightarrow> (Inr (map (conversation_public user write_enabled)
          (list_human_conversations_for_participant user False 100 s1)), s1))"

definition list_chat_messages ::
  "string \<Rightarrow> string \<Rightarrow> int \<Rightarrow> int option \<Rightarrow> string option \<Rightarrow> int \<Rightarrow> visit_db \<Rightarrow>
     ((human_conversation \<times> int option) \<times> human_message list) res \<times> visit_db" where
  "list_chat_messages user conversation_id now cursor_seq cursor_id limit s =
     (case get_human_conversation_for_participant conversation_id user False s of
        None \<Rightarrow> (Inl (DomainError ''human_conversation_not_found''), s)
      | Some c \<Rightarrow>
        (case list_visits_current user now [] s of
           (Inl e, s1) \<Rightarrow> (Inl e, s1)
         | (Inr vs, s1) \<Rightarrow>
           (case list_human_messages_for_participant conversation_id user cursor_seq cursor_id limit s1 of
              Inl e \<Rightarrow> (Inl (DomainError ''invalid_cursor''), s1)
            | Inr rows \<Rightarrow> (Inr ((c, Option.bind (get_universe_visit (hc_visit c) s1) vi_expires), rows), s1))))"

section \<open>Sending\<close>

definition hidden_field :: "string \<Rightarrow> human_conversation \<Rightarrow> int option" where
  "hidden_field user c = (if hc_owner c = user then hc_owner_hidden c else hc_visitor_hidden c)"

definition reference_message_media :: "bool \<Rightarrow> string option \<Rightarrow> string \<Rightarrow> visit_db \<Rightarrow> visit_db res" where
  "reference_message_media review media user s =
     (case or_none media of
        None \<Rightarrow> Inr s
      | Some i \<Rightarrow> (case mark_media_assets_referenced review [i] user (vd_world s) of
          Inl (ValueError m) \<Rightarrow> Inl (DomainError ''media_ref_invalid'')
        | Inl e \<Rightarrow> Inl e
        | Inr w \<Rightarrow> Inr (s\<lparr>vd_world := w\<rparr>)))"

text \<open>The transaction of \<open>send\<close>: \<open>None\<close> when it ended the visit instead.\<close>

definition send_locked ::
  "bool \<Rightarrow> string \<Rightarrow> string \<Rightarrow> string \<Rightarrow> string \<Rightarrow> string \<Rightarrow> string option \<Rightarrow> int \<Rightarrow> bool \<Rightarrow> world_visit \<Rightarrow> visit_db \<Rightarrow>
     ((human_message \<times> bool) option \<times> visit_db) res" where
  "send_locked review message_id user conversation_id client body media now write_enabled visit s =
     and_then (lock_platform_user_for_visit (vi_visitor visit) s) (\<lambda>_.
     and_then (lock_universe (vi_world visit) (vd_world s)) (\<lambda>_.
       case (get_universe_visit (vi_id visit) s, lock_human_conversation conversation_id s) of
         (Some v, Some c) \<Rightarrow>
           if \<not> participant user c then Inl (DomainError ''human_conversation_not_found'')
           else if hidden_field user c \<noteq> None then Inl (DomainError ''human_conversation_not_found'')
           else (case get_human_message_by_client_id conversation_id user client s of
             Some m \<Rightarrow>
               if hm_body m \<noteq> body \<or> hm_media m \<noteq> media then Inl (DomainError ''idempotency_conflict'')
               else Inr (Some (m, False), s)
           | None \<Rightarrow>
             if \<not> write_enabled then Inl (DomainError ''human_chat_read_only'')
             else if vi_status v \<noteq> ''active'' \<or> hc_status c \<noteq> ''active'' then Inl (DomainError ''human_chat_read_only'')
             else if is_due now (vi_expires v)
             then and_then (mark_universe_visit_terminal (vi_id v) ''active'' ''expired'' (db_time now) ''active_expired'' s)
                    (\<lambda>(x, s1). Inr (None, s1))
             else if has_platform_user_block (vi_owner v) (vi_visitor v) s
             then and_then (mark_universe_visit_terminal (vi_id v) ''active'' ''blocked'' (db_time now) ''contact_blocked'' s)
                    (\<lambda>(x, s1). Inr (None, s1))
             else and_then (reference_message_media review media user s) (\<lambda>s1.
               case insert_human_message message_id conversation_id user client body media (db_time now) s1 of
                 Inl (ValueError e) \<Rightarrow>
                   Inl (if e = ''idempotency_conflict'' then DomainError ''idempotency_conflict'' else ValueError e)
               | Inl e \<Rightarrow> Inl e
               | Inr (r, s2) \<Rightarrow> Inr (Some r, s2)))
       | _ \<Rightarrow> Inl (DomainError ''human_conversation_not_found'')))"

definition send_message ::
  "bool \<Rightarrow> string \<Rightarrow> string \<Rightarrow> string \<Rightarrow> string \<Rightarrow> string \<Rightarrow> string option \<Rightarrow> int \<Rightarrow> bool \<Rightarrow> visit_db \<Rightarrow>
     (human_message \<times> bool) res \<times> visit_db" where
  "send_message review message_id user conversation_id client body_text media now write_enabled s =
     (case normalize_human_message_body (media \<noteq> None) body_text of
        Inl e \<Rightarrow> (Inl (DomainError ''invalid_request''), s)
      | Inr body \<Rightarrow>
        (case get_human_conversation_for_participant conversation_id user False s of
           None \<Rightarrow> (Inl (DomainError ''human_conversation_not_found''), s)
         | Some c \<Rightarrow>
           (case get_universe_visit (hc_visit c) s of
              None \<Rightarrow> (Inl (DomainError ''human_chat_read_only''), s)
            | Some visit \<Rightarrow>
              (case send_locked review message_id user conversation_id client body media now write_enabled visit s of
                 Inl e \<Rightarrow> (Inl e, s)
               | Inr (None, s1) \<Rightarrow> (Inl (DomainError ''human_chat_read_only''), s1)
               | Inr (Some r, s1) \<Rightarrow> (Inr r, s1)))))"

section \<open>Reading, hiding, reporting\<close>

definition mark_read :: "string \<Rightarrow> string \<Rightarrow> int \<Rightarrow> visit_db \<Rightarrow> human_conversation res \<times> visit_db" where
  "mark_read user conversation_id now s =
     (if get_human_conversation_for_participant conversation_id user False s = None
      then (Inl (DomainError ''human_conversation_not_found''), s)
      else (case mark_human_conversation_read conversation_id user (db_time now) s of
        (None, s1) \<Rightarrow> (Inl (DomainError ''human_conversation_not_found''), s1)
      | (Some c, s1) \<Rightarrow> (Inr c, s1)))"

definition hide_conversation :: "string \<Rightarrow> string \<Rightarrow> int \<Rightarrow> visit_db \<Rightarrow> human_conversation res \<times> visit_db" where
  "hide_conversation user conversation_id now s =
     (case hide_human_conversation_for_participant conversation_id user (db_time now) s of
        (None, s1) \<Rightarrow> (Inl (DomainError ''human_conversation_not_found''), s1)
      | (Some c, s1) \<Rightarrow> (Inr c, s1))"

definition report_options :: "int \<times> report_reason list" where
  "report_options = (HUMAN_REPORT_REASONS_VERSION, HUMAN_REPORT_REASONS)"

text \<open>The evidence, with sorted keys.\<close>

definition report_evidence :: "string \<Rightarrow> human_message option \<Rightarrow> int \<Rightarrow> dict" where
  "report_evidence conversation_id m now =
     [(''captured_at'', JInt (db_time now)), (''conversation_id'', JStr conversation_id),
      (''reported_message'', (case m of None \<Rightarrow> JNull | Some x \<Rightarrow> JDict [(''body_text'', JStr (hm_body x)),
         (''created_at'', JInt (hm_created x)), (''message_id'', JStr (hm_id x))])),
      (''version'', JInt 1)]"

definition report_details :: "string option \<Rightarrow> string option" where
  "report_details details = or_none (map_option py_strip details)"

definition MAX_REPORT_DETAILS :: nat where "MAX_REPORT_DETAILS = 1000"

definition report_conversation ::
  "string \<Rightarrow> string \<Rightarrow> string \<Rightarrow> string option \<Rightarrow> string \<Rightarrow> string option \<Rightarrow> bool \<Rightarrow> int \<Rightarrow> visit_db \<Rightarrow>
     (chat_report \<times> nat option) res \<times> visit_db" where
  "report_conversation report_id user conversation_id message_id reason_code details_text block_after now s =
     (case get_human_conversation_for_participant conversation_id user False s of
        None \<Rightarrow> (Inl (DomainError ''human_conversation_not_found''), s)
      | Some c \<Rightarrow>
        (case human_report_reason reason_code of
           None \<Rightarrow> (Inl (DomainError ''invalid_request''), s)
         | Some reason \<Rightarrow>
           let details = report_details details_text; counterpart = counterpart_of user c;
               found = Option.bind (or_none message_id)
                 (\<lambda>i. get_human_message_for_participant conversation_id i user s)
           in if known (\<lambda>d. MAX_REPORT_DETAILS < length d) details then (Inl (DomainError ''invalid_request''), s)
              else if rr_details_required reason \<and> details = None then (Inl (DomainError ''invalid_request''), s)
              else if or_none message_id \<noteq> None \<and> \<not> known (\<lambda>m. hm_sender m = counterpart) found
              then (Inl (DomainError ''human_message_not_found''), s)
              else (case insert_human_chat_report report_id conversation_id user counterpart message_id (rr_code reason)
                  details (report_evidence conversation_id found now) (db_time now) s of
                Inl e \<Rightarrow> (Inl e, s)
              | Inr (r, s1) \<Rightarrow>
                if \<not> block_after then (Inr (r, None), s1)
                else (case block_user user (hc_visit c) now s1 of
                    Inl e \<Rightarrow> (Inl e, s1) | Inr (n, s2) \<Rightarrow> (Inr (r, Some n), s2)))))"

definition block_conversation :: "string \<Rightarrow> string \<Rightarrow> int \<Rightarrow> visit_db \<Rightarrow> (nat \<times> visit_db) res" where
  "block_conversation user conversation_id now s =
     (case get_human_conversation_for_participant conversation_id user True s of
        None \<Rightarrow> Inl (DomainError ''human_conversation_not_found'')
      | Some c \<Rightarrow> block_user user (hc_visit c) now s)"

end
