(* ===== verification/Visit_Laws.thy ===== *)
theory Visit_Laws
imports World_Chat_Service
begin

text \<open>
  The invariant of the tables of visits, one predicate per group of tables, and what the primitives do
  to it; how the rows may change over time (\<open>evolves\<close>), which every primitive respects.
\<close>

section \<open>Tables that grow\<close>

text \<open>Every row stays at its place, changed at most as \<open>R\<close> says; new rows come after the old ones.\<close>

fun grown :: "('r \<Rightarrow> 'r \<Rightarrow> bool) \<Rightarrow> 'r list \<Rightarrow> 'r list \<Rightarrow> bool" where
  "grown R [] ys = True"
| "grown R (x # xs) [] = False"
| "grown R (x # xs) (y # ys) = (R x y \<and> grown R xs ys)"

lemma grown_append: "reflp R \<Longrightarrow> grown R xs (xs @ ys)"
  by (induction xs) (auto simp: reflpD)

lemma grown_refl: "reflp R \<Longrightarrow> grown R xs xs"
  using grown_append [of R xs "[]"] by simp

lemma grown_update:
  "reflp R \<Longrightarrow> (\<And>x. x \<in> set xs \<Longrightarrow> q x \<Longrightarrow> R x (f x)) \<Longrightarrow> grown R xs (update_where q f xs)"
  by (induction xs) (auto simp: reflpD)

lemma grown_trans: "transp R \<Longrightarrow> grown R xs ys \<Longrightarrow> grown R ys zs \<Longrightarrow> grown R xs zs"
proof (induction R xs ys arbitrary: zs rule: grown.induct)
  case (3 R x xs y ys)
  then show ?case by (cases zs) (auto dest: transpD)
qed simp_all

lemma grown_member: "grown R xs ys \<Longrightarrow> x \<in> set xs \<Longrightarrow> \<exists>y \<in> set ys. R x y"
  by (induction R xs ys rule: grown.induct) auto

lemma grown_find:
  "grown R xs ys \<Longrightarrow> (\<And>x y. R x y \<Longrightarrow> p y = p x) \<Longrightarrow> find_row p xs = Some x \<Longrightarrow>
     \<exists>y. find_row p ys = Some y \<and> R x y"
  by (induction R xs ys rule: grown.induct) (auto split: if_splits)

section \<open>Rows by key\<close>

text \<open>The keys of the rows of \<open>p\<close> when the rows of \<open>q\<close> leave it, stay in it, or when a row is added.\<close>

lemma ids_leave:
  assumes "\<And>x. x \<in> set xs \<Longrightarrow> q x \<Longrightarrow> k x = i \<and> \<not> p (f x)" and "\<And>x. x \<in> set xs \<Longrightarrow> p x \<Longrightarrow> k x = i \<Longrightarrow> q x"
  shows "k ` {x \<in> set (update_where q f xs). p x} = k ` {x \<in> set xs. p x} - {i}"
proof -
  have "{x \<in> set (update_where q f xs). p x} = {x \<in> set xs. p x \<and> \<not> q x}"
    using assms by (auto simp: set_update_where image_iff split: if_splits)
  then show ?thesis using assms by auto
qed

lemma ids_stay:
  assumes "\<And>x. x \<in> set xs \<Longrightarrow> q x \<Longrightarrow> k (f x) = k x \<and> p (f x) = p x"
  shows "k ` {x \<in> set (update_where q f xs). p x} = k ` {x \<in> set xs. p x}"
proof -
  have "k ` {x \<in> set (update_where q f xs). p x} = (\<lambda>x. k (if q x then f x else x)) ` {x \<in> set xs. p (if q x then f x else x)}"
    by (auto simp: set_update_where)
  also have "\<dots> = k ` {x \<in> set xs. p x}"
    by (rule image_cong) (use assms in \<open>auto split: if_splits\<close>)
  finally show ?thesis .
qed

lemma unique_on_one:
  "unique_on p k xs \<Longrightarrow> count_where q xs \<le> 1 \<Longrightarrow> (\<And>x. x \<in> set xs \<Longrightarrow> \<not> q x \<Longrightarrow> p x \<Longrightarrow> k x \<noteq> key) \<Longrightarrow>
     (\<And>x. q x \<Longrightarrow> p (f x) \<Longrightarrow> k (f x) = key) \<Longrightarrow> unique_on p k (update_where q f xs)"
proof (induction xs)
  case Nil
  then show ?case by simp
next
  case (Cons a xs)
  note pre = Cons.prems
  have ih: "unique_on p k (update_where q f xs)"
    by (rule Cons.IH) (use pre in \<open>auto simp: unique_on_Cons split: if_splits\<close>)
  show ?case
  proof (cases "q a")
    case True
    then have none: "\<forall>x \<in> set xs. \<not> q x" using pre(2) by (simp add: count_where_0)
    then have "update_where q f xs = xs" by (rule update_where_none)
    moreover have "p (f a) \<longrightarrow> (\<forall>x \<in> set xs. p x \<longrightarrow> k x \<noteq> k (f a))"
      using pre(3,4) none True by (metis list.set_intros(2))
    ultimately show ?thesis using ih True by (simp add: unique_on_Cons)
  next
    case False
    have "k x \<noteq> k a" if "p a" "x \<in> set (update_where q f xs)" "p x" for x
    proof -
      from that(2) obtain y where y: "y \<in> set xs" "x = (if q y then f y else y)" by (auto simp: set_update_where)
      show ?thesis
      proof (cases "q y")
        case True
        then have "k x = key" using pre(4) y that(3) by simp
        moreover have "k a \<noteq> key" using pre(3) [of a] False that(1) by simp
        ultimately show ?thesis by simp
      next
        case no: False
        then show ?thesis using pre(1) y that by (auto simp: unique_on_Cons)
      qed
    qed
    then show ?thesis using ih False by (auto simp: unique_on_Cons)
  qed
qed

lemma count_key_1:
  assumes "unique_on (\<lambda>_. True) k xs" and "count_where q xs = 1" and "\<And>x. q x \<Longrightarrow> k x = i"
  obtains r where "r \<in> set xs" "q r" "k r = i" "\<And>x. x \<in> set xs \<Longrightarrow> k x = i \<Longrightarrow> x = r"
proof -
  from count_where_one [OF assms(2)] obtain r where r: "r \<in> set xs" "q r" by blast
  have "k r = i" using assms(3) r(2) .
  moreover have "x = r" if "x \<in> set xs" "k x = i" for x
    using unique_onD [OF assms(1) that(1) r(1)] that(2) assms(3) [OF r(2)] by simp
  ultimately show ?thesis using that r by blast
qed

section \<open>The slots\<close>

text \<open>
  Who holds a slot of a world, against the invites and visits that are open in it: exactly the active
  invites and the pending or active visits of a world hold one of its slots.
\<close>

definition held :: "string \<Rightarrow> string \<Rightarrow> visit_slot list \<Rightarrow> string set" where
  "held kind w ls = {i. \<exists>l \<in> set ls. held_by w kind i l}"

definition open_invites :: "string \<Rightarrow> world_invite list \<Rightarrow> string set" where
  "open_invites w is = wi_id ` {i \<in> set is. wi_world i = w \<and> wi_status i = ''active''}"

definition open_visits :: "string \<Rightarrow> world_visit list \<Rightarrow> string set" where
  "open_visits w vs = vi_id ` {v \<in> set vs. vi_world v = w \<and> is_open v}"

definition slot_row_ok :: "visit_slot \<Rightarrow> bool" where
  "slot_row_ok l = (vl_no l \<in> {1, 2, 3} \<and> (vl_type l = None) = (vl_occupant l = None) \<and>
     opt_all (\<lambda>t. t \<in> {''invite'', ''visit''}) (vl_type l))"

definition slots_ok :: "visit_slot list \<Rightarrow> world_invite list \<Rightarrow> world_visit list \<Rightarrow> bool" where
  "slots_ok ls is vs =
     (unique_on (\<lambda>_. True) (\<lambda>l. (vl_world l, vl_no l)) ls \<and>
      unique_on (\<lambda>l. vl_occupant l \<noteq> None) (\<lambda>l. (vl_type l, vl_occupant l)) ls \<and>
      (\<forall>l \<in> set ls. slot_row_ok l) \<and>
      (\<forall>w. held ''invite'' w ls = open_invites w is) \<and> (\<forall>w. held ''visit'' w ls = open_visits w vs))"

lemma held_append: "held kind w (ls @ ms) = held kind w ls \<union> held kind w ms"
  by (auto simp: held_def)

lemma held_by_same: "held_by w k i l \<Longrightarrow> held_by w' k' i' l \<longleftrightarrow> w' = w \<and> k' = k \<and> i' = i"
  by (auto simp: held_by_def)

lemma held_update: "i \<in> held k w (update_where q f ls) \<longleftrightarrow> (\<exists>l \<in> set ls. held_by w k i (if q l then f l else l))"
  by (auto simp: held_def set_update_where)

lemma held_by_cleared: "\<not> held_by w k i (l\<lparr>vl_type := None, vl_occupant := None, vl_at := None\<rparr>)"
  by (simp add: held_by_def)

lemma held_by_put:
  "held_by w k i (l\<lparr>vl_type := Some kind, vl_occupant := Some j, vl_at := Some now\<rparr>) \<longleftrightarrow> vl_world l = w \<and> k = kind \<and> i = j"
  by (auto simp: held_by_def)

lemma held_minus:
  "{x. \<exists>l \<in> set ls. \<not> held_by w k i l \<and> held_by w' k' x l} = held k' w' ls - (if w' = w \<and> k' = k then {i} else {})"
proof (rule set_eqI)
  fix j
  have "(\<exists>l \<in> set ls. \<not> held_by w k i l \<and> held_by w' k' j l) \<longleftrightarrow>
      (\<exists>l \<in> set ls. held_by w' k' j l \<and> \<not> (w' = w \<and> k' = k \<and> j = i))"
    by (intro bex_cong refl) (auto simp: held_by_same)
  then show "j \<in> {x. \<exists>l \<in> set ls. \<not> held_by w k i l \<and> held_by w' k' x l} \<longleftrightarrow>
      j \<in> held k' w' ls - (if w' = w \<and> k' = k then {i} else {})"
    by (auto simp: held_def)
qed

lemma held_vacate:
  "held k' w' (vacate w k i ls) = held k' w' ls - (if w' = w \<and> k' = k then {i} else {})"
proof -
  have "held k' w' (vacate w k i ls) = {x. \<exists>l \<in> set ls. \<not> held_by w k i l \<and> held_by w' k' x l}"
    unfolding vacate_def by (intro set_eqI, unfold held_update mem_Collect_eq, intro bex_cong refl) (simp add: held_by_cleared)
  then show ?thesis by (simp only: held_minus)
qed

lemma held_put:
  assumes one: "count_where q ls = 1" and q: "\<And>l. q l \<Longrightarrow> vl_world l = w"
  shows "held k' w' (update_where q (\<lambda>l. l\<lparr>vl_type := Some kind, vl_occupant := Some i, vl_at := Some now\<rparr>) ls) =
    {j. \<exists>l \<in> set ls. \<not> q l \<and> held_by w' k' j l} \<union> (if w' = w \<and> k' = kind then {i} else {})"
proof -
  obtain l where l: "l \<in> set ls" "q l" using count_where_one [OF one] by blast
  have "j \<in> held k' w' (update_where q (\<lambda>l. l\<lparr>vl_type := Some kind, vl_occupant := Some i, vl_at := Some now\<rparr>) ls) \<longleftrightarrow>
      (\<exists>l \<in> set ls. q l \<and> w' = w \<and> k' = kind \<and> j = i \<or> \<not> q l \<and> held_by w' k' j l)" for j
    unfolding held_update by (intro bex_cong refl) (auto simp: held_by_put dest: q)
  then show ?thesis using l by auto
qed

lemma held_occupy_free:
  assumes "count_where q ls = 1" and q: "\<And>l. q l \<Longrightarrow> vl_world l = w \<and> vl_occupant l = None"
  shows "held k' w' (update_where q (\<lambda>l. l\<lparr>vl_type := Some kind, vl_occupant := Some i, vl_at := Some now\<rparr>) ls) =
    held k' w' ls \<union> (if w' = w \<and> k' = kind then {i} else {})"
proof -
  have "{j. \<exists>l \<in> set ls. \<not> q l \<and> held_by w' k' j l} = held k' w' ls"
    unfolding held_def by (intro Collect_cong bex_cong refl) (auto simp: held_by_def dest: q)
  then show ?thesis using held_put [OF assms(1), where w = w and k' = k' and w' = w' and kind = kind and i = i and now = now] q by simp
qed

lemma held_transfer:
  assumes "count_where (held_by w kind0 j) ls = 1"
  shows "held k' w' (update_where (held_by w kind0 j)
      (\<lambda>l. l\<lparr>vl_type := Some kind, vl_occupant := Some i, vl_at := Some now\<rparr>) ls) =
    (held k' w' ls - (if w' = w \<and> k' = kind0 then {j} else {})) \<union> (if w' = w \<and> k' = kind then {i} else {})"
proof -
  have "\<And>l. held_by w kind0 j l \<Longrightarrow> vl_world l = w" by (simp add: held_by_def)
  from held_put [OF assms this, where k' = k' and w' = w' and kind = kind and i = i and now = now] show ?thesis by (simp only: held_minus)
qed

lemma unique_on_vacate:
  "unique_on (\<lambda>l. vl_occupant l \<noteq> None) (\<lambda>l. (vl_type l, vl_occupant l)) ls \<Longrightarrow>
     unique_on (\<lambda>l. vl_occupant l \<noteq> None) (\<lambda>l. (vl_type l, vl_occupant l)) (vacate w kind i ls)"
proof (induction ls)
  case Nil
  then show ?case by (simp add: vacate_def)
next
  case (Cons l ls)
  have "(vl_type l', vl_occupant l') \<noteq> (vl_type l, vl_occupant l)"
    if "vl_occupant l \<noteq> None" "l' \<in> set (vacate w kind i ls)" "vl_occupant l' \<noteq> None" for l'
    using Cons.prems that by (auto simp: vacate_def set_update_where unique_on_Cons split: if_splits)
  with Cons show ?case by (auto simp: vacate_def unique_on_Cons)
qed

lemma unique_vacate_numbers:
  "unique_on (\<lambda>_. True) (\<lambda>l. (vl_world l, vl_no l)) ls \<Longrightarrow>
     unique_on (\<lambda>_. True) (\<lambda>l. (vl_world l, vl_no l)) (vacate w kind i ls)"
  unfolding vacate_def by (subst unique_on_update) simp_all

lemma slots_ok_add:
  assumes "slots_ok ls is vs" and "n \<in> {1, 2, 3}"
  shows "slots_ok (add_slot w n ls) is vs"
proof -
  have "held kind w' [\<lparr>vl_world = w, vl_no = n, vl_type = None, vl_occupant = None, vl_at = None\<rparr>] = {}" for kind w'
    by (auto simp: held_def held_by_def)
  then show ?thesis
    using assms by (auto simp: slots_ok_def add_slot_def held_append unique_on_snoc slot_row_ok_def list_ex_iff)
qed

lemma slots_ok_vacate_rows: "(\<forall>l \<in> set ls. slot_row_ok l) \<Longrightarrow> (\<forall>l \<in> set (vacate w kind i ls). slot_row_ok l)"
  by (auto simp: vacate_def set_update_where slot_row_ok_def)

lemma slots_ok_close_invite:
  assumes ok: "slots_ok ls is vs" and keys: "unique_on (\<lambda>_. True) wi_id is" and i: "i \<in> set is" "wi_id i = k"
    and f: "\<And>x. wi_status (f x) \<noteq> ''active''"
  shows "slots_ok (vacate (wi_world i) ''invite'' k ls)
    (update_where (\<lambda>x. wi_id x = k \<and> wi_status x = ''active'') f is) vs"
proof -
  have eq: "x = i" if "x \<in> set is" "wi_id x = k" for x using unique_onD [OF keys that(1) i(1)] that(2) i(2) by simp
  have "open_invites w (update_where (\<lambda>x. wi_id x = k \<and> wi_status x = ''active'') f is) = open_invites w is - {k}" for w
    unfolding open_invites_def by (rule ids_leave) (use f in auto)
  moreover have "open_invites w is - {k} = open_invites w is" if "w \<noteq> wi_world i" for w
    using eq that by (auto simp: open_invites_def)
  ultimately have inv: "held ''invite'' w (vacate (wi_world i) ''invite'' k ls) =
      open_invites w (update_where (\<lambda>x. wi_id x = k \<and> wi_status x = ''active'') f is)" for w
    using ok by (cases "w = wi_world i") (simp_all add: slots_ok_def held_vacate)
  have vis: "held ''visit'' w (vacate (wi_world i) ''invite'' k ls) = open_visits w vs" for w
    using ok by (simp add: slots_ok_def held_vacate)
  show ?thesis using ok unfolding slots_ok_def
    by (intro conjI allI inv vis unique_on_vacate unique_vacate_numbers slots_ok_vacate_rows) simp_all
qed

lemma slots_ok_end:
  assumes ok: "slots_ok ls is vs" and keys: "unique_on (\<lambda>_. True) vi_id vs" and v: "v \<in> set vs" "vi_id v = k" "vi_status v = e"
    and f: "\<And>x. \<not> is_open (f x)"
  shows "slots_ok (vacate (vi_world v) ''visit'' k ls) is (update_where (\<lambda>x. vi_id x = k \<and> vi_status x = e) f vs)"
proof -
  have eq: "x = v" if "x \<in> set vs" "vi_id x = k" for x using unique_onD [OF keys that(1) v(1)] that(2) v(2) by simp
  have "open_visits w (update_where (\<lambda>x. vi_id x = k \<and> vi_status x = e) f vs) = open_visits w vs - {k}" for w
    unfolding open_visits_def by (rule ids_leave) (use f eq v(3) in auto)
  moreover have "open_visits w vs - {k} = open_visits w vs" if "w \<noteq> vi_world v" for w
    using eq that by (auto simp: open_visits_def)
  ultimately have vis: "held ''visit'' w (vacate (vi_world v) ''visit'' k ls) =
      open_visits w (update_where (\<lambda>x. vi_id x = k \<and> vi_status x = e) f vs)" for w
    using ok by (cases "w = vi_world v") (simp_all add: slots_ok_def held_vacate)
  have inv: "held ''invite'' w (vacate (vi_world v) ''visit'' k ls) = open_invites w is" for w
    using ok by (simp add: slots_ok_def held_vacate)
  show ?thesis using ok unfolding slots_ok_def
    by (intro conjI allI inv vis unique_on_vacate unique_vacate_numbers slots_ok_vacate_rows) simp_all
qed

lemma slots_ok_stay:
  assumes "slots_ok ls is vs" and "\<And>x. x \<in> set vs \<Longrightarrow> q x \<Longrightarrow> vi_id (f x) = vi_id x \<and> vi_world (f x) = vi_world x \<and> is_open (f x) = is_open x"
  shows "slots_ok ls is (update_where q f vs)"
proof -
  have "open_visits w (update_where q f vs) = open_visits w vs" for w
    unfolding open_visits_def by (rule ids_stay) (use assms(2) in auto)
  then show ?thesis using assms(1) by (simp add: slots_ok_def)
qed

lemma put_rows_ok:
  "(\<forall>l \<in> set ls. slot_row_ok l) \<Longrightarrow> k \<in> {''invite'', ''visit''} \<Longrightarrow>
     (\<forall>l \<in> set (update_where q (\<lambda>l. l\<lparr>vl_type := Some k, vl_occupant := Some i, vl_at := Some now\<rparr>) ls). slot_row_ok l)"
  by (auto simp: set_update_where slot_row_ok_def)

lemma put_numbers:
  "unique_on (\<lambda>_. True) (\<lambda>l. (vl_world l, vl_no l)) ls \<Longrightarrow> unique_on (\<lambda>_. True) (\<lambda>l. (vl_world l, vl_no l))
     (update_where q (\<lambda>l. l\<lparr>vl_type := Some k, vl_occupant := Some i, vl_at := Some now\<rparr>) ls)"
  by (subst unique_on_update) simp_all

lemma put_unique:
  assumes "unique_on (\<lambda>l. vl_occupant l \<noteq> None) (\<lambda>l. (vl_type l, vl_occupant l)) ls" and "count_where q ls = 1"
    and "\<And>w. i \<notin> held k w ls"
  shows "unique_on (\<lambda>l. vl_occupant l \<noteq> None) (\<lambda>l. (vl_type l, vl_occupant l))
    (update_where q (\<lambda>l. l\<lparr>vl_type := Some k, vl_occupant := Some i, vl_at := Some now\<rparr>) ls)"
proof (rule unique_on_one [OF assms(1), where key = "(Some k, Some i)"])
  show "count_where q ls \<le> 1" using assms(2) by simp
  fix l assume "l \<in> set ls"
  then have "\<not> held_by (vl_world l) k i l" using assms(3) [of "vl_world l"] by (auto simp: held_def)
  then show "(vl_type l, vl_occupant l) \<noteq> (Some k, Some i)" by (simp add: held_by_def)
qed simp

text \<open>A new invite takes a free slot of its world; a redeemed invite hands its slot over to the visit.\<close>

lemma slots_ok_invite:
  assumes ok: "slots_ok ls is vs" and one: "count_where q ls = 1"
    and q: "\<And>l. q l \<Longrightarrow> vl_world l = wi_world i \<and> vl_occupant l = None"
    and i: "wi_status i = ''active''" "wi_id i \<notin> wi_id ` set is"
  shows "slots_ok (update_where q (\<lambda>l. l\<lparr>vl_type := Some ''invite'', vl_occupant := Some (wi_id i), vl_at := Some now\<rparr>) ls)
    (is @ [i]) vs"
proof -
  have new: "wi_id i \<notin> held ''invite'' w ls" for w
    using ok i(2) by (auto simp: slots_ok_def open_invites_def)
  have "open_invites w (is @ [i]) = open_invites w is \<union> (if w = wi_world i then {wi_id i} else {})" for w
    using i(1) by (auto simp: open_invites_def)
  then have inv: "held ''invite'' w (update_where q (\<lambda>l. l\<lparr>vl_type := Some ''invite'', vl_occupant := Some (wi_id i),
      vl_at := Some now\<rparr>) ls) = open_invites w (is @ [i])" for w
    using ok by (subst held_occupy_free [OF one q]) (auto simp: slots_ok_def)
  have vis: "held ''visit'' w (update_where q (\<lambda>l. l\<lparr>vl_type := Some ''invite'', vl_occupant := Some (wi_id i),
      vl_at := Some now\<rparr>) ls) = open_visits w vs" for w
    using ok by (subst held_occupy_free [OF one q]) (auto simp: slots_ok_def)
  show ?thesis using ok new unfolding slots_ok_def
    by (intro conjI allI inv vis put_unique [OF _ one] put_numbers put_rows_ok) simp_all
qed

lemma slots_ok_redeem:
  assumes ok: "slots_ok ls is vs" and keys: "unique_on (\<lambda>_. True) wi_id is" and i: "i \<in> set is" "wi_id i = k"
    and one: "count_where (held_by (wi_world i) ''invite'' k) ls = 1"
    and v: "vi_world v = wi_world i" "is_open v" "vi_id v \<notin> vi_id ` set vs"
    and f: "\<And>x. wi_status (f x) \<noteq> ''active''"
  shows "slots_ok (update_where (held_by (wi_world i) ''invite'' k)
      (\<lambda>l. l\<lparr>vl_type := Some ''visit'', vl_occupant := Some (vi_id v), vl_at := Some now\<rparr>) ls)
    (update_where (\<lambda>x. wi_id x = k \<and> wi_status x = ''active'') f is) (vs @ [v])"
    (is "slots_ok ?ls ?is ?vs")
proof -
  have eq: "x = i" if "x \<in> set is" "wi_id x = k" for x using unique_onD [OF keys that(1) i(1)] that(2) i(2) by simp
  have new: "vi_id v \<notin> held ''visit'' w ls" for w
    using ok v(3) by (auto simp: slots_ok_def open_visits_def)
  have "open_invites w ?is = open_invites w is - {k}" for w
    unfolding open_invites_def by (rule ids_leave) (use f in auto)
  moreover have "open_invites w is - {k} = open_invites w is" if "w \<noteq> wi_world i" for w
    using eq that by (auto simp: open_invites_def)
  ultimately have inv: "held ''invite'' w ?ls = open_invites w ?is" for w
    using ok by (cases "w = wi_world i"; subst held_transfer [OF one]) (simp_all add: slots_ok_def)
  have "open_visits w ?vs = open_visits w vs \<union> (if w = wi_world i then {vi_id v} else {})" for w
    using v by (auto simp: open_visits_def)
  then have vis: "held ''visit'' w ?ls = open_visits w ?vs" for w
    using ok by (subst held_transfer [OF one]) (auto simp: slots_ok_def)
  show ?thesis using ok new unfolding slots_ok_def
    by (intro conjI allI inv vis put_unique [OF _ one] put_numbers put_rows_ok) simp_all
qed

text \<open>Three slots, each held by at most one: at most three open invites and visits.\<close>

lemma slots_of_world: "slots_ok ls is vs \<Longrightarrow> card {l \<in> set ls. vl_world l = w} \<le> 3"
proof -
  assume ok: "slots_ok ls is vs"
  have "inj_on vl_no {l \<in> set ls. vl_world l = w}"
    using ok by (intro inj_onI) (auto simp: slots_ok_def dest: unique_onD)
  moreover have "vl_no ` {l \<in> set ls. vl_world l = w} \<subseteq> {1, 2, 3}"
    using ok by (auto simp: slots_ok_def slot_row_ok_def)
  ultimately show ?thesis using card_inj_on_le [of vl_no _ "{1, 2, 3}"] by fastforce
qed

lemma held_pairs:
  assumes "slots_ok ls is vs"
  shows "Pair ''invite'' ` open_invites w is \<union> Pair ''visit'' ` open_visits w vs \<subseteq>
    (\<lambda>l. (the (vl_type l), the (vl_occupant l))) ` {l \<in> set ls. vl_world l = w}"
proof -
  have "Pair k ` held k w ls \<subseteq> (\<lambda>l. (the (vl_type l), the (vl_occupant l))) ` {l \<in> set ls. vl_world l = w}" for k
    by (force simp: held_def held_by_def)
  moreover have "open_invites w is = held ''invite'' w ls" "open_visits w vs = held ''visit'' w ls"
    using assms by (simp_all add: slots_ok_def)
  ultimately show ?thesis by (simp only: Un_least)
qed

lemma open_at_most_three:
  assumes "slots_ok ls is vs"
  shows "card (open_invites w is) + card (open_visits w vs) \<le> 3"
proof -
  have fin: "finite (open_invites w is)" "finite (open_visits w vs)" by (simp_all add: open_invites_def open_visits_def)
  have "card (open_invites w is) + card (open_visits w vs) =
      card (Pair ''invite'' ` open_invites w is \<union> Pair ''visit'' ` open_visits w vs)"
    using fin by (subst card_Un_disjoint) (auto simp: card_image inj_on_def)
  also have "\<dots> \<le> card ((\<lambda>l. (the (vl_type l), the (vl_occupant l))) ` {l \<in> set ls. vl_world l = w})"
    by (rule card_mono [OF _ held_pairs [OF assms]]) simp
  also have "\<dots> \<le> card {l \<in> set ls. vl_world l = w}" by (rule card_image_le) simp
  also have "\<dots> \<le> 3" using assms by (rule slots_of_world)
  finally show ?thesis .
qed

lemma count_keys:
  assumes "unique_on (\<lambda>_. True) k xs"
  shows "card (k ` {x \<in> set xs. p x}) = count_where p xs"
  using assms
proof (induction xs)
  case Nil
  then show ?case by simp
next
  case (Cons a xs)
  have "{x \<in> set (a # xs). p x} = (if p a then insert a {x \<in> set xs. p x} else {x \<in> set xs. p x})" by auto
  moreover have "k a \<notin> k ` {x \<in> set xs. p x}" using Cons.prems by (auto simp: unique_on_Cons)
  ultimately show ?case using Cons by (simp add: unique_on_Cons)
qed

section \<open>The other tables\<close>

text \<open>
  Keys and anchors of invites and visits: an open visit has a redeemed invite of the same world and
  owner, its two users differ, an active one has a deadline.
\<close>

definition invites_ok :: "world_db \<Rightarrow> world_invite list \<Rightarrow> bool" where
  "invites_ok w is = (unique_on (\<lambda>_. True) wi_id is \<and> unique_on (\<lambda>_. True) wi_hash is \<and>
     (\<forall>i \<in> set is. in_app (wi_world i) w \<and> wi_status i \<in> set INVITE_STATUSES))"

definition visit_row_ok :: "world_db \<Rightarrow> world_invite list \<Rightarrow> world_visit \<Rightarrow> bool" where
  "visit_row_ok w is v = (in_app (vi_world v) w \<and> vi_owner v \<noteq> vi_visitor v \<and> vi_status v \<in> set VISIT_STATUSES \<and>
     (vi_status v = ''active'' \<longrightarrow> vi_expires v \<noteq> None) \<and>
     (\<exists>i \<in> set is. wi_id i = vi_invite v \<and> wi_world i = vi_world v \<and> wi_owner i = vi_owner v \<and> wi_status i = ''redeemed''))"

definition visits_ok :: "world_db \<Rightarrow> world_invite list \<Rightarrow> world_visit list \<Rightarrow> bool" where
  "visits_ok w is vs = (unique_on (\<lambda>_. True) vi_id vs \<and> unique_on (\<lambda>_. True) vi_invite vs \<and>
     unique_on is_open (\<lambda>v. (vi_world v, vi_visitor v)) vs \<and> (\<forall>v \<in> set vs. visit_row_ok w is v))"

text \<open>
  A conversation belongs to a visit that was accepted, with the same two users, and is open exactly
  while the visit is active; an active visit has its conversation.
\<close>

definition conversation_ok :: "world_visit list \<Rightarrow> human_conversation \<Rightarrow> bool" where
  "conversation_ok vs c = (hc_status c \<in> {''active'', ''read_only''} \<and>
     (\<exists>v \<in> set vs. vi_id v = hc_visit c \<and> vi_owner v = hc_owner c \<and> vi_visitor v = hc_visitor c \<and>
        vi_status v \<noteq> ''pending'' \<and> (hc_status c = ''active'' \<longleftrightarrow> vi_status v = ''active'')))"

definition talk_ok :: "world_visit list \<Rightarrow> human_conversation list \<Rightarrow> bool" where
  "talk_ok vs cs = (unique_on (\<lambda>_. True) hc_id cs \<and> unique_on (\<lambda>_. True) hc_visit cs \<and>
     (\<forall>c \<in> set cs. conversation_ok vs c) \<and>
     (\<forall>v \<in> set vs. vi_status v = ''active'' \<longrightarrow> (\<exists>c \<in> set cs. hc_visit c = vi_id v)))"

text \<open>
  The messages of a conversation, in the order they were written, have the numbers \<open>1, 2, 3, ...\<close> and
  are by its two users; a read cursor does not run ahead of them.
\<close>

definition messages_of :: "string \<Rightarrow> human_message list \<Rightarrow> human_message list" where
  "messages_of k ms = filter (\<lambda>m. hm_conversation m = k) ms"

definition numbered :: "human_message list \<Rightarrow> bool" where
  "numbered ms = (map hm_seq ms = map int [1..<Suc (length ms)])"

definition cursor_ok :: "human_message list \<Rightarrow> human_conversation \<Rightarrow> bool" where
  "cursor_ok ms c = (opt_all (\<lambda>n. 0 \<le> n \<and> n \<le> int (length (messages_of (hc_id c) ms))) (hc_owner_seq c) \<and>
     opt_all (\<lambda>n. 0 \<le> n \<and> n \<le> int (length (messages_of (hc_id c) ms))) (hc_visitor_seq c))"

definition chat_ok :: "human_conversation list \<Rightarrow> human_message list \<Rightarrow> bool" where
  "chat_ok cs ms = (unique_on (\<lambda>_. True) hm_id ms \<and>
     unique_on (\<lambda>_. True) (\<lambda>m. (hm_conversation m, hm_sender m, hm_client m)) ms \<and>
     (\<forall>k. numbered (messages_of k ms)) \<and> (\<forall>c \<in> set cs. cursor_ok ms c) \<and>
     (\<forall>m \<in> set ms. \<exists>c \<in> set cs. hc_id c = hm_conversation m \<and> participant (hm_sender m) c))"

text \<open>Nobody is on an open visit with a user that one of the two blocked; nobody is on too many visits.\<close>

definition blocked_pair :: "string \<Rightarrow> string \<Rightarrow> user_block list \<Rightarrow> bool" where
  "blocked_pair a b bs = list_ex (\<lambda>k. blocks a b k \<or> blocks b a k) bs"

definition peace_ok :: "user_block list \<Rightarrow> world_visit list \<Rightarrow> bool" where
  "peace_ok bs vs = (\<forall>v \<in> set vs. is_open v \<longrightarrow> \<not> blocked_pair (vi_owner v) (vi_visitor v) bs)"

definition open_of :: "string \<Rightarrow> world_visit list \<Rightarrow> nat" where
  "open_of user vs = count_where (\<lambda>v. vi_visitor v = user \<and> is_open v) vs"

definition limit_ok :: "int \<Rightarrow> world_visit list \<Rightarrow> bool" where
  "limit_ok n vs = (\<forall>user. int (open_of user vs) \<le> max 0 n)"

definition visit_ok :: "int \<Rightarrow> visit_db \<Rightarrow> bool" where
  "visit_ok n s = (slots_ok (vd_slots s) (vd_invites s) (vd_visits s) \<and> invites_ok (vd_world s) (vd_invites s) \<and>
     visits_ok (vd_world s) (vd_invites s) (vd_visits s) \<and> talk_ok (vd_visits s) (vd_conversations s) \<and>
     chat_ok (vd_conversations s) (vd_messages s) \<and> peace_ok (vd_blocks s) (vd_visits s) \<and> limit_ok n (vd_visits s))"

section \<open>How rows change\<close>

definition same_invite :: "world_invite \<Rightarrow> world_invite \<Rightarrow> bool" where
  "same_invite i i' = (wi_id i' = wi_id i \<and> wi_world i' = wi_world i \<and> wi_owner i' = wi_owner i \<and> wi_hash i' = wi_hash i \<and>
     wi_prefix i' = wi_prefix i \<and> wi_expires i' = wi_expires i \<and> wi_created i' = wi_created i)"

definition invite_row :: "world_invite \<Rightarrow> world_invite \<Rightarrow> bool" where
  "invite_row i i' = (i' = i \<or> (same_invite i i' \<and> wi_status i = ''active'' \<and>
     wi_status i' \<in> {''redeemed'', ''revoked'', ''expired''}))"

definition same_visit :: "world_visit \<Rightarrow> world_visit \<Rightarrow> bool" where
  "same_visit v v' = (vi_id v' = vi_id v \<and> vi_invite v' = vi_invite v \<and> vi_world v' = vi_world v \<and>
     vi_owner v' = vi_owner v \<and> vi_visitor v' = vi_visitor v \<and> vi_pending_expires v' = vi_pending_expires v \<and>
     vi_created v' = vi_created v)"

text \<open>One move of the domain's state machine, and any number of them.\<close>

definition visit_once :: "world_visit \<Rightarrow> world_visit \<Rightarrow> bool" where
  "visit_once v v' = (v' = v \<or> (same_visit v v' \<and> visit_transition_allowed (vi_status v) (vi_status v')))"

definition visit_stage :: "world_visit \<Rightarrow> nat" where
  "visit_stage v = (if vi_status v = ''pending'' then 0 else if vi_status v = ''active'' then 1 else 2)"

definition visit_row :: "world_visit \<Rightarrow> world_visit \<Rightarrow> bool" where
  "visit_row v v' = (v' = v \<or> (same_visit v v' \<and> visit_stage v < visit_stage v'))"

definition cursor_le :: "int option \<Rightarrow> int option \<Rightarrow> bool" where
  "cursor_le a b = (case a of None \<Rightarrow> True | Some n \<Rightarrow> known (\<lambda>m. n \<le> m) b)"

definition kept_time :: "int option \<Rightarrow> int option \<Rightarrow> bool" where
  "kept_time a b = (a = None \<or> b = a)"

definition conversation_row_step :: "human_conversation \<Rightarrow> human_conversation \<Rightarrow> bool" where
  "conversation_row_step c c' = (hc_id c' = hc_id c \<and> hc_visit c' = hc_visit c \<and> hc_owner c' = hc_owner c \<and>
     hc_visitor c' = hc_visitor c \<and> hc_created c' = hc_created c \<and>
     human_conversation_transition_allowed (hc_status c) (hc_status c') \<and>
     kept_time (hc_owner_hidden c) (hc_owner_hidden c') \<and> kept_time (hc_visitor_hidden c) (hc_visitor_hidden c') \<and>
     cursor_le (hc_owner_seq c) (hc_owner_seq c') \<and> cursor_le (hc_visitor_seq c) (hc_visitor_seq c'))"

text \<open>New messages are written to conversations that were open, or new.\<close>

definition talked :: "visit_db \<Rightarrow> visit_db \<Rightarrow> bool" where
  "talked s s' = (\<exists>new. vd_messages s' = vd_messages s @ new \<and>
     (\<forall>m \<in> set new. \<forall>c \<in> set (vd_conversations s). hc_id c = hm_conversation m \<longrightarrow> hc_status c = ''active''))"

definition world_kept :: "world_db \<Rightarrow> world_db \<Rightarrow> bool" where
  "world_kept w w' = (\<forall>i. in_app i w \<longrightarrow> in_app i w')"

definition evolves :: "(world_visit \<Rightarrow> world_visit \<Rightarrow> bool) \<Rightarrow> visit_db \<Rightarrow> visit_db \<Rightarrow> bool" where
  "evolves R s s' = (grown invite_row (vd_invites s) (vd_invites s') \<and> grown R (vd_visits s) (vd_visits s') \<and>
     grown conversation_row_step (vd_conversations s) (vd_conversations s') \<and> talked s s' \<and>
     (\<exists>bs. vd_blocks s' = vd_blocks s @ bs) \<and> (\<exists>rs. vd_reports s' = vd_reports s @ rs) \<and>
     world_kept (vd_world s) (vd_world s'))"

lemma row_refl: "reflp invite_row" "reflp visit_once" "reflp visit_row" "reflp conversation_row_step"
  by (auto simp: reflp_def invite_row_def visit_once_def visit_row_def conversation_row_step_def
      human_conversation_transition_allowed_def kept_time_def cursor_le_def known_def split: option.splits)

lemma cursor_le_trans: "cursor_le a b \<Longrightarrow> cursor_le b c \<Longrightarrow> cursor_le a c"
  by (cases a; cases b; cases c) (simp_all add: cursor_le_def known_def)

lemma kept_time_trans: "kept_time a b \<Longrightarrow> kept_time b c \<Longrightarrow> kept_time a c"
  by (auto simp: kept_time_def)

lemma chat_transition_trans:
  "human_conversation_transition_allowed a b \<Longrightarrow> human_conversation_transition_allowed b c \<Longrightarrow>
     human_conversation_transition_allowed a c"
  by (auto simp: human_conversation_transition_allowed_def)

lemma row_trans: "transp invite_row" "transp visit_row" "transp conversation_row_step"
  subgoal by (auto simp: transp_def invite_row_def same_invite_def)
  subgoal by (auto simp: transp_def visit_row_def same_visit_def)
  subgoal unfolding transp_def conversation_row_step_def
    by (metis cursor_le_trans kept_time_trans chat_transition_trans)
  done

lemma evolves_refl: "reflp R \<Longrightarrow> evolves R s s"
  by (simp add: evolves_def grown_refl row_refl talked_def world_kept_def)

lemma talked_trans:
  assumes "talked s t" and "grown conversation_row_step (vd_conversations s) (vd_conversations t)" and "talked t u"
  shows "talked s u"
proof -
  from assms(1) obtain n1 where 1: "vd_messages t = vd_messages s @ n1"
    "\<forall>m \<in> set n1. \<forall>c \<in> set (vd_conversations s). hc_id c = hm_conversation m \<longrightarrow> hc_status c = ''active''"
    by (auto simp: talked_def)
  from assms(3) obtain n2 where 2: "vd_messages u = vd_messages t @ n2"
    "\<forall>m \<in> set n2. \<forall>c \<in> set (vd_conversations t). hc_id c = hm_conversation m \<longrightarrow> hc_status c = ''active''"
    by (auto simp: talked_def)
  have "hc_status c = ''active''" if "m \<in> set n2" "c \<in> set (vd_conversations s)" "hc_id c = hm_conversation m" for m c
  proof -
    from grown_member [OF assms(2) that(2)] obtain c' where c': "c' \<in> set (vd_conversations t)" "conversation_row_step c c'" by blast
    with 2(2) that(1,3) have "hc_status c' = ''active''" by (simp add: conversation_row_step_def)
    with c'(2) show ?thesis by (auto simp: conversation_row_step_def human_conversation_transition_allowed_def)
  qed
  with 1 2 show ?thesis unfolding talked_def by (intro exI [of _ "n1 @ n2"]) auto
qed

lemma evolves_trans:
  assumes "evolves R s t" and "evolves R t u" and "transp R"
  shows "evolves R s u"
  using assms unfolding evolves_def
  by (auto intro: grown_trans row_trans talked_trans simp: world_kept_def)

lemma grown_mono: "grown R xs ys \<Longrightarrow> (\<And>x y. R x y \<Longrightarrow> S x y) \<Longrightarrow> grown S xs ys"
  by (induction R xs ys rule: grown.induct) auto

lemma visit_once_row: "visit_once v v' \<Longrightarrow> visit_row v v'"
  by (auto simp: visit_once_def visit_row_def visit_transition_allowed_def visit_stage_def split: if_splits)

lemma evolves_once: "evolves visit_once s s' \<Longrightarrow> evolves visit_row s s'"
  by (auto simp: evolves_def intro: grown_mono visit_once_row)

end
