(* ===== verification/Visit_Primitives.thy ===== *)
theory Visit_Primitives
imports Visit_Laws
begin

text \<open>Each write of the two repositories keeps the invariant and moves rows only forward.\<close>

definition sound :: "int \<Rightarrow> visit_db \<Rightarrow> visit_db \<Rightarrow> bool" where
  "sound n s s' = (visit_ok n s \<longrightarrow> visit_ok n s' \<and> evolves visit_once s s')"

lemma soundI: "(visit_ok n s \<Longrightarrow> visit_ok n s') \<Longrightarrow> (visit_ok n s \<Longrightarrow> evolves visit_once s s') \<Longrightarrow> sound n s s'"
  by (simp add: sound_def)

lemma sound_refl: "sound n s s"
  by (simp add: sound_def evolves_refl row_refl)

lemma evolves_frame:
  assumes "grown invite_row (vd_invites s) (vd_invites s')" "grown R (vd_visits s) (vd_visits s')"
    "grown conversation_row_step (vd_conversations s) (vd_conversations s')" "vd_messages s' = vd_messages s"
    "vd_blocks s' = vd_blocks s" "vd_reports s' = vd_reports s" "vd_world s' = vd_world s"
  shows "evolves R s s'"
  using assms by (simp add: evolves_def talked_def world_kept_def)

lemma count_where_update_le:
  "(\<And>x. x \<in> set xs \<Longrightarrow> q x \<Longrightarrow> p (f x) \<Longrightarrow> p x) \<Longrightarrow> count_where p (update_where q f xs) \<le> count_where p xs"
proof (induction xs)
  case Nil
  then show ?case by simp
next
  case (Cons a xs)
  then have "count_where p (update_where q f xs) \<le> count_where p xs" by simp
  with Cons.prems [of a] show ?case by auto
qed

section \<open>Slots and invites\<close>

lemma required_Inr: "required v field = Inr c \<longleftrightarrow> c = py_strip v \<and> c \<noteq> []"
  by (auto simp: required_def Let_def)

lemma lock_owner_app: "lock_owner_world w o' s = Inr u \<Longrightarrow> in_app w (vd_world s)"
  by (auto simp: lock_owner_world_def in_app_def list_ex_iff split: option.splits if_splits dest!: find_row_Some)

lemma occupy_Inr:
  "occupy q kind i now s = Inr (n, s') \<Longrightarrow> n = count_where q (vd_slots s) \<and>
     s' = s\<lparr>vd_slots := update_where q (\<lambda>l. l\<lparr>vl_type := Some kind, vl_occupant := Some i, vl_at := Some now\<rparr>) (vd_slots s)\<rparr>"
  by (auto simp: occupy_def Let_def split: if_splits)

lemma ensure_Inr:
  assumes "ensure_universe_visit_slots w o' s = Inr (ls, s')"
  obtains w' o'' u where "s' = s\<lparr>vd_slots := add_slot w' 3 (add_slot w' 2 (add_slot w' 1 (vd_slots s)))\<rparr>"
    "w' = py_strip w" "lock_owner_world w' o'' s = Inr u"
proof -
  from assms obtain a b u where "required w ''universe_id'' = Inr a" "lock_owner_world a b s = Inr u"
    "s' = s\<lparr>vd_slots := add_slot a 3 (add_slot a 2 (add_slot a 1 (vd_slots s)))\<rparr>"
    by (auto simp: ensure_universe_visit_slots_def and_then_Inr Let_def)
  then show ?thesis using that by (simp add: required_Inr)
qed

lemma ensure_ok: "ensure_universe_visit_slots w o' s = Inr (ls, s') \<Longrightarrow> visit_ok n s \<Longrightarrow> visit_ok n s'"
  by (erule ensure_Inr) (auto simp: visit_ok_def intro!: slots_ok_add)

lemma ensure_evolves: "ensure_universe_visit_slots w o' s = Inr (ls, s') \<Longrightarrow> evolves visit_once s s'"
  by (erule ensure_Inr) (auto intro!: evolves_frame grown_refl row_refl)

text \<open>A visit's invite stays what it was when another invite is added.\<close>

lemma visit_row_ok_mono:
  "visit_row_ok w is v \<Longrightarrow> (\<And>i. i \<in> set is \<Longrightarrow> wi_status i = ''redeemed'' \<Longrightarrow> i \<in> set is') \<Longrightarrow> visit_row_ok w is' v"
  by (fastforce simp: visit_row_ok_def)

lemma visits_ok_mono:
  "visits_ok w is vs \<Longrightarrow> (\<And>i. i \<in> set is \<Longrightarrow> wi_status i = ''redeemed'' \<Longrightarrow> i \<in> set is') \<Longrightarrow> visits_ok w is' vs"
  unfolding visits_ok_def using visit_row_ok_mono by blast

lemma insert_invite_cases:
  assumes "insert_universe_invite invite_id w0 o0 h0 p0 expires now s = Inr (x, s')"
  obtains ls s1 slot i where "ensure_universe_visit_slots (py_strip w0) (py_strip o0) s = Inr (ls, s1)"
    "slot \<in> set (vd_slots s1)" "free_slot (wi_world i) slot" "wi_world i = py_strip w0" "wi_id i = invite_id"
    "wi_status i = ''active''" "invite_id \<notin> wi_id ` set (vd_invites s1)" "wi_hash i \<notin> wi_hash ` set (vd_invites s1)"
    "count_where (\<lambda>l. vl_world l = wi_world i \<and> vl_no l = vl_no slot \<and> vl_occupant l = None) (vd_slots s1) = 1"
    "s' = s1\<lparr>vd_invites := vd_invites s1 @ [i], vd_slots := update_where
       (\<lambda>l. vl_world l = wi_world i \<and> vl_no l = vl_no slot \<and> vl_occupant l = None)
       (\<lambda>l. l\<lparr>vl_type := Some ''invite'', vl_occupant := Some invite_id, vl_at := Some now\<rparr>) (vd_slots s1)\<rparr>"
    "x = i"
proof -
  let ?i = "\<lparr>wi_id = invite_id, wi_world = py_strip w0, wi_owner = py_strip o0, wi_hash = py_strip h0, wi_prefix = py_strip p0,
     wi_status = ''active'', wi_expires = expires, wi_redeemer = None, wi_visit = None, wi_redeemed = None,
     wi_revoked = None, wi_created = now, wi_updated = now\<rparr>"
  have ne: "py_strip w0 \<noteq> []" "py_strip o0 \<noteq> []" "py_strip h0 \<noteq> []" "py_strip p0 \<noteq> []"
    using assms by (auto simp: insert_universe_invite_def required_def Let_def and_then_Inr split: if_splits)
  from assms ne obtain ls s1 where e: "ensure_universe_visit_slots (py_strip w0) (py_strip o0) s = Inr (ls, s1)"
    by (auto simp: insert_universe_invite_def required_def and_then_Inr)
  note eqs = insert_universe_invite_def required_def ne e
  obtain slot where f: "first_by vl_no (filter (free_slot (py_strip w0)) (vd_slots s1)) = Some slot"
    using assms by (cases "first_by vl_no (filter (free_slot (py_strip w0)) (vd_slots s1))") (simp_all add: eqs)
  have fresh: "invite_id \<notin> wi_id ` set (vd_invites s1)" "py_strip h0 \<notin> wi_hash ` set (vd_invites s1)"
    using assms by (auto simp: eqs f split: if_splits)
  from assms obtain m s3 where o: "occupy (\<lambda>l. vl_world l = py_strip w0 \<and> vl_no l = vl_no slot \<and> vl_occupant l = None)
      ''invite'' invite_id now (s1\<lparr>vd_invites := vd_invites s1 @ [?i]\<rparr>) = Inr (m, s3)"
    and m: "m = 1" and x: "find_row (\<lambda>x. wi_id x = invite_id) (vd_invites s3) = Some x" and s': "s' = s3"
    by (auto simp: eqs f fresh Let_def and_then_Inr split: if_splits option.splits)
  from first_by_Some [OF f] have "slot \<in> set (vd_slots s1)" "free_slot (py_strip w0) slot" by simp_all
  moreover note occupy_Inr [OF o]
  moreover from this x fresh(1) have "x = ?i" by (auto simp: find_row_append image_iff split: option.splits dest!: find_row_Some)
  ultimately show ?thesis by (intro that [OF e, where i = ?i and slot = slot]) (use fresh m s' in auto)
qed

lemma insert_invite_sound: "insert_universe_invite invite_id w0 o0 h0 p0 expires now s = Inr (x, s') \<Longrightarrow> sound n s s'"
proof (erule insert_invite_cases, rule soundI)
  fix ls s1 slot i
  assume e: "ensure_universe_visit_slots (py_strip w0) (py_strip o0) s = Inr (ls, s1)"
    and i: "wi_world i = py_strip w0" "wi_id i = invite_id" "wi_status i = ''active''"
    and fresh: "invite_id \<notin> wi_id ` set (vd_invites s1)" "wi_hash i \<notin> wi_hash ` set (vd_invites s1)"
    and one: "count_where (\<lambda>l. vl_world l = wi_world i \<and> vl_no l = vl_no slot \<and> vl_occupant l = None) (vd_slots s1) = 1"
    and s': "s' = s1\<lparr>vd_invites := vd_invites s1 @ [i], vd_slots := update_where
       (\<lambda>l. vl_world l = wi_world i \<and> vl_no l = vl_no slot \<and> vl_occupant l = None)
       (\<lambda>l. l\<lparr>vl_type := Some ''invite'', vl_occupant := Some invite_id, vl_at := Some now\<rparr>) (vd_slots s1)\<rparr>"
  have app: "in_app (wi_world i) (vd_world s1)"
    using e by (rule ensure_Inr) (auto simp: i(1) dest: lock_owner_app)
  { assume "visit_ok n s"
    with e have ok: "visit_ok n s1" by (rule ensure_ok)
    have "slots_ok (vd_slots s') (vd_invites s') (vd_visits s')"
      unfolding s' using ok slots_ok_invite [OF _ one, of "vd_invites s1" "vd_visits s1" i now] i(2,3) fresh(1)
      by (simp add: visit_ok_def)
    moreover have "invites_ok (vd_world s') (vd_invites s')"
      using ok app fresh i by (auto simp: s' visit_ok_def invites_ok_def unique_on_snoc INVITE_STATUSES_def image_iff)
    moreover have "visits_ok (vd_world s') (vd_invites s') (vd_visits s')"
      using ok by (auto simp: s' visit_ok_def elim: visits_ok_mono)
    ultimately show "visit_ok n s'" using ok by (simp add: visit_ok_def s') }
  have "evolves visit_once s s1" using e by (rule ensure_evolves)
  moreover have "vd_invites s1 = vd_invites s" "vd_visits s1 = vd_visits s" "vd_conversations s1 = vd_conversations s"
    "vd_messages s1 = vd_messages s" "vd_blocks s1 = vd_blocks s" "vd_reports s1 = vd_reports s" "vd_world s1 = vd_world s"
    using e by (auto elim: ensure_Inr)
  ultimately show "evolves visit_once s s'"
    by (intro evolves_frame) (simp_all add: s' grown_append grown_refl row_refl)
qed

lemma close_invite_cases:
  assumes "mark_universe_invite_terminal k owner target now s = Inr (x, s')"
  obtains (same) "s' = s" | (closed) i f where "i \<in> set (vd_invites s)" "wi_id i = k" "wi_status i = ''active''"
    "s' = s\<lparr>vd_invites := update_where (\<lambda>x. wi_id x = k \<and> wi_status x = ''active'') f (vd_invites s),
       vd_slots := vacate (wi_world i) ''invite'' k (vd_slots s)\<rparr>"
    "\<And>x. same_invite x (f x) \<and> wi_status (f x) = target" "target \<in> {''revoked'', ''expired''}"
proof -
  let ?f = "\<lambda>x::world_invite. if target = ''revoked'' then x\<lparr>wi_status := ''revoked'', wi_revoked := Some now, wi_updated := now\<rparr>
    else x\<lparr>wi_status := ''expired'', wi_updated := now\<rparr>"
  from assms consider "s' = s" | i where "get_universe_invite_for_owner k owner s = Some i" "wi_status i = ''active''"
    "s' = s\<lparr>vd_invites := update_where (\<lambda>x. wi_id x = k \<and> wi_status x = ''active'') ?f (vd_invites s),
       vd_slots := vacate (wi_world i) ''invite'' k (vd_slots s)\<rparr>" "target \<in> {''revoked'', ''expired''}"
    unfolding mark_universe_invite_terminal_def Let_def by (auto split: if_splits option.splits)
  then show ?thesis
  proof cases
    case 1
    then show ?thesis by (rule same)
  next
    case 2
    then have "i \<in> set (vd_invites s)" "wi_id i = k" by (auto simp: get_universe_invite_for_owner_def dest: find_row_Some)
    then show ?thesis using 2 by (intro closed [of i ?f]) (auto simp: same_invite_def)
  qed
qed

lemma close_invite_sound: "mark_universe_invite_terminal k owner target now s = Inr (x, s') \<Longrightarrow> sound n s s'"
proof (erule close_invite_cases)
  assume "s' = s"
  then show ?thesis by (simp add: sound_refl)
next
  fix i f
  assume i: "i \<in> set (vd_invites s)" "wi_id i = k" "wi_status i = ''active''"
    and s': "s' = s\<lparr>vd_invites := update_where (\<lambda>x. wi_id x = k \<and> wi_status x = ''active'') f (vd_invites s),
       vd_slots := vacate (wi_world i) ''invite'' k (vd_slots s)\<rparr>"
    and f: "\<And>x. same_invite x (f x) \<and> wi_status (f x) = target" and t: "target \<in> {''revoked'', ''expired''}"
  show ?thesis
  proof (rule soundI)
    assume ok: "visit_ok n s"
    then have keys: "unique_on (\<lambda>_. True) wi_id (vd_invites s)" by (simp add: visit_ok_def invites_ok_def)
    have "slots_ok (vd_slots s') (vd_invites s') (vd_visits s')"
      unfolding s' using slots_ok_close_invite [OF _ keys i(1,2), of "vd_slots s" "vd_visits s" f] ok f t
      by (auto simp: visit_ok_def)
    moreover have "invites_ok (vd_world s') (vd_invites s')"
      using ok f t by (auto simp: s' visit_ok_def invites_ok_def set_update_where INVITE_STATUSES_def same_invite_def
          intro!: unique_on_update [THEN iffD2])
    moreover have "visits_ok (vd_world s') (vd_invites s') (vd_visits s')"
      using ok by (auto simp: s' visit_ok_def set_update_where elim!: visits_ok_mono intro!: image_eqI)
    ultimately show "visit_ok n s'" using ok by (simp add: visit_ok_def s')
  next
    have "grown invite_row (vd_invites s) (vd_invites s')"
      unfolding s' by (simp, rule grown_update) (use f t in \<open>auto simp: row_refl invite_row_def\<close>)
    then show "evolves visit_once s s'" by (rule evolves_frame) (simp_all add: s' grown_refl row_refl)
  qed
qed

section \<open>A redeemed invite\<close>

lemma insert_pending_cases:
  assumes "insert_pending_universe_visit vid k w owner visitor pend now s = Inr (x, s')"
  obtains i v f where "owner \<noteq> visitor" "in_app w (vd_world s)" "i \<in> set (vd_invites s)" "wi_id i = k" "wi_world i = w"
    "wi_owner i = owner" "wi_status i = ''active''"
    "vi_id v = vid" "vi_invite v = k" "vi_world v = w" "vi_owner v = owner" "vi_visitor v = visitor" "vi_status v = ''pending''"
    "\<not> list_ex (visit_conflict v) (vd_visits s)" "count_where (held_by w ''invite'' k) (vd_slots s) = 1"
    "s' = s\<lparr>vd_visits := vd_visits s @ [v], vd_invites := update_where (\<lambda>x. wi_id x = k \<and> wi_status x = ''active'') f (vd_invites s),
       vd_slots := update_where (held_by w ''invite'' k)
         (\<lambda>l. l\<lparr>vl_type := Some ''visit'', vl_occupant := Some vid, vl_at := Some now\<rparr>) (vd_slots s)\<rparr>"
    "\<And>x. same_invite x (f x) \<and> wi_status (f x) = ''redeemed''" "x = v"
proof -
  let ?v = "\<lparr>vi_id = vid, vi_invite = k, vi_world = w, vi_owner = owner, vi_visitor = visitor, vi_status = ''pending'',
     vi_pending_expires = pend, vi_accepted = None, vi_expires = None, vi_terminal = None, vi_reason = None,
     vi_created = now, vi_updated = now\<rparr>"
  let ?f = "\<lambda>x::world_invite. x\<lparr>wi_status := ''redeemed'', wi_redeemer := Some visitor, wi_visit := Some vid,
     wi_redeemed := Some now, wi_updated := now\<rparr>"
  have ne: "owner \<noteq> visitor" using assms by (auto simp: insert_pending_universe_visit_def)
  obtain u where u: "lock_owner_world w owner s = Inr u"
    using assms ne by (auto simp: insert_pending_universe_visit_def and_then_Inr)
  obtain i where i: "find_row (\<lambda>i. wi_id i = k \<and> wi_world i = w \<and> wi_owner i = owner) (vd_invites s) = Some i"
    using assms ne u by (cases "find_row (\<lambda>i. wi_id i = k \<and> wi_world i = w \<and> wi_owner i = owner) (vd_invites s)")
      (simp_all add: insert_pending_universe_visit_def)
  note eqs = insert_pending_universe_visit_def ne u i
  have act: "wi_status i = ''active''" using assms by (auto simp: eqs split: if_splits)
  have new: "\<not> list_ex (visit_conflict ?v) (vd_visits s)" using assms by (auto simp: eqs act Let_def split: if_splits)
  from assms obtain m s1 where o: "occupy (held_by w ''invite'' k) ''visit'' vid now (s\<lparr>vd_visits := vd_visits s @ [?v]\<rparr>) = Inr (m, s1)"
    and m: "m = 1" and s': "s' = s1\<lparr>vd_invites := update_where (\<lambda>x. wi_id x = k \<and> wi_status x = ''active'') ?f (vd_invites s1)\<rparr>"
    and x: "find_row (\<lambda>x. vi_id x = vid) (vd_visits s') = Some x"
    by (auto simp: eqs act new Let_def and_then_Inr split: if_splits option.splits)
  have "vid \<notin> vi_id ` set (vd_visits s)" using new by (auto simp: list_ex_iff visit_conflict_def)
  then have "x = ?v" using x occupy_Inr [OF o] s'
    by (auto simp: find_row_append image_iff split: option.splits dest!: find_row_Some)
  moreover have "i \<in> set (vd_invites s)" "wi_id i = k" "wi_world i = w" "wi_owner i = owner" using find_row_Some [OF i] by simp_all
  ultimately show ?thesis
    by (intro that [of i ?v ?f] ne lock_owner_app [OF u] act) (use new m s' occupy_Inr [OF o] in \<open>auto simp: same_invite_def\<close>)
qed

lemma open_of_append: "open_of u (vs @ [v]) = open_of u vs + (if vi_visitor v = u \<and> is_open v then 1 else 0)"
  by (simp add: open_of_def)

lemma insert_pending_sound:
  assumes "insert_pending_universe_visit vid k w owner visitor pend now s = Inr (x, s')"
    and free: "\<not> blocked_pair owner visitor (vd_blocks s)" "int (open_of visitor (vd_visits s)) < n"
  shows "sound n s s'"
  using assms(1)
proof (cases rule: insert_pending_cases)
  case (1 i v f)
  have opn: "is_open v" using 1(13) by (simp add: is_open_def VISIT_OPEN_STATUSES_def)
  have fresh: "vi_id v \<notin> vi_id ` set (vd_visits s)" "vi_invite v \<notin> vi_invite ` set (vd_visits s)"
    "\<And>y. y \<in> set (vd_visits s) \<Longrightarrow> is_open y \<Longrightarrow> (vi_world y, vi_visitor y) \<noteq> (vi_world v, vi_visitor v)"
    using 1(14) opn by (auto simp: list_ex_iff visit_conflict_def)
  show ?thesis
  proof (rule soundI)
    assume ok: "visit_ok n s"
    then have keys: "unique_on (\<lambda>_. True) wi_id (vd_invites s)" by (simp add: visit_ok_def invites_ok_def)
    let ?is = "update_where (\<lambda>x. wi_id x = k \<and> wi_status x = ''active'') f (vd_invites s)"
    have "slots_ok (vd_slots s') (vd_invites s') (vd_visits s')"
      using slots_ok_redeem [OF _ keys 1(3,4), of "vd_slots s" "vd_visits s" v f now] ok 1 opn fresh(1)
      by (simp add: visit_ok_def)
    moreover have "invites_ok (vd_world s') (vd_invites s')"
      using ok 1(17) by (auto simp: 1(16) visit_ok_def invites_ok_def set_update_where INVITE_STATUSES_def same_invite_def
          intro!: unique_on_update [THEN iffD2])
    moreover have "visits_ok (vd_world s') (vd_invites s') (vd_visits s')"
    proof -
    have "visits_ok (vd_world s) ?is (vd_visits s)"
      using ok by (auto simp: visit_ok_def set_update_where elim!: visits_ok_mono intro!: image_eqI)
    moreover have "f i \<in> set ?is" using 1(3,4,7) by (auto simp: set_update_where intro!: image_eqI [of _ _ i])
    then have "visit_row_ok (vd_world s) ?is v" unfolding visit_row_ok_def using 1(1,2,4-6,8-13) 1(17) [of i]
      by (auto simp: VISIT_STATUSES_def VISIT_OPEN_STATUSES_def same_invite_def intro!: bexI [of _ "f i"])
    ultimately show ?thesis using fresh by (auto simp: 1(16) visits_ok_def unique_on_snoc image_iff)
    qed
    moreover have "talk_ok (vd_visits s') (vd_conversations s')"
      using ok 1(13) by (auto simp: 1(16) visit_ok_def talk_ok_def conversation_ok_def)
    moreover have "peace_ok (vd_blocks s') (vd_visits s')"
      using ok 1(11,12) free(1) by (auto simp: 1(16) visit_ok_def peace_ok_def)
    moreover have "limit_ok n (vd_visits s')"
      using ok 1(12) free(2) opn unfolding 1(16) visit_ok_def limit_ok_def
      by (simp add: open_of_append)
    ultimately show "visit_ok n s'" using ok by (simp add: visit_ok_def 1(16))
  next
    have "grown invite_row (vd_invites s) (vd_invites s')"
      unfolding 1(16) by (simp, rule grown_update) (use 1(17) in \<open>auto simp: row_refl invite_row_def\<close>)
    then show "evolves visit_once s s'" by (rule evolves_frame) (simp_all add: 1(16) grown_append grown_refl row_refl)
  qed
qed

section \<open>An ended visit\<close>

lemma end_visit_cases:
  assumes "mark_universe_visit_terminal k e target now reason s = Inr (x, s')" and keys: "unique_on (\<lambda>_. True) vi_id (vd_visits s)"
  obtains v f where "v \<in> set (vd_visits s)" "vi_id v = k" "vi_status v = e" "e \<in> set VISIT_OPEN_STATUSES"
    "target \<in> set VISIT_TERMINAL_STATUSES" "\<And>y. same_visit y (f y) \<and> vi_status (f y) = target" "x = f v"
    "\<And>y. vi_expires (f y) = vi_expires y"
    "s' = s\<lparr>vd_visits := update_where (\<lambda>y. vi_id y = k \<and> vi_status y = e) f (vd_visits s),
       vd_slots := vacate (vi_world v) ''visit'' k (vd_slots s), vd_conversations := close_conversation k now (vd_conversations s)\<rparr>"
proof -
  let ?q = "\<lambda>y. vi_id y = k \<and> vi_status y = e"
  let ?f = "\<lambda>y::world_visit. y\<lparr>vi_status := target, vi_terminal := Some now, vi_reason := Some reason, vi_updated := now\<rparr>"
  from assms(1) have 1: "e \<in> set VISIT_OPEN_STATUSES" "target \<in> set VISIT_TERMINAL_STATUSES" "count_where ?q (vd_visits s) = 1"
    and x: "find_row (\<lambda>y. vi_id y = k) (update_where ?q ?f (vd_visits s)) = Some x"
    and s': "s' = s\<lparr>vd_visits := update_where ?q ?f (vd_visits s),
       vd_slots := vacate (vi_world x) ''visit'' k (vd_slots s), vd_conversations := close_conversation k now (vd_conversations s)\<rparr>"
    unfolding mark_universe_visit_terminal_def Let_def by (auto split: if_splits option.splits)
  obtain v where v: "v \<in> set (vd_visits s)" "?q v" "\<And>y. y \<in> set (vd_visits s) \<Longrightarrow> vi_id y = k \<Longrightarrow> y = v"
    by (rule count_key_1 [OF keys 1(3), of k]) blast+
  obtain y where y: "y \<in> set (vd_visits s)" "x = (if ?q y then ?f y else y)" "vi_id x = k"
    using find_row_Some [OF x] unfolding set_update_where by blast
  then have "vi_id y = k" by (simp split: if_splits)
  with v(3) y(1) have "y = v" by blast
  with y(2) v(2) have fx: "x = ?f v" by simp
  then have w: "vi_world x = vi_world v" by simp
  show ?thesis
    by (rule that [of v ?f, OF v(1) _ _ 1(1,2) _ fx _ s' [unfolded w]]) (use v(2) in \<open>simp_all add: same_visit_def\<close>)
qed

lemma close_conversation_grown: "grown conversation_row_step cs (close_conversation k now cs)"
  unfolding close_conversation_def
  by (rule grown_update) (auto simp: row_refl conversation_row_step_def human_conversation_transition_allowed_def kept_time_def
      cursor_le_def known_def split: option.splits)

lemma talk_ok_end:
  assumes ok: "talk_ok vs cs" and keys: "unique_on (\<lambda>_. True) vi_id vs" and v: "v \<in> set vs" "vi_id v = k" "vi_status v = e"
    and f: "\<And>y. same_visit y (f y) \<and> vi_status (f y) = target" and t: "target \<in> set VISIT_TERMINAL_STATUSES"
  shows "talk_ok (update_where (\<lambda>y. vi_id y = k \<and> vi_status y = e) f vs) (close_conversation k now cs)"
proof -
  let ?vs = "update_where (\<lambda>y. vi_id y = k \<and> vi_status y = e) f vs" and ?cs = "close_conversation k now cs"
  have tn: "target \<noteq> ''active''" "target \<noteq> ''pending''" using t by (auto simp: VISIT_TERMINAL_STATUSES_def)
  have eq: "y = v" if "y \<in> set vs" "vi_id y = k" for y using unique_onD [OF keys that(1) v(1)] that(2) v(2) by simp
  have "conversation_ok ?vs c'" if c': "c' \<in> set ?cs" for c'
  proof -
    from c' obtain c where c: "c \<in> set cs" "c' = (if hc_visit c = k \<and> hc_status c = ''active''
        then c\<lparr>hc_status := ''read_only'', hc_updated := now\<rparr> else c)"
      by (auto simp: close_conversation_def set_update_where)
    from ok c(1) obtain y where y: "y \<in> set vs" "vi_id y = hc_visit c" "vi_owner y = hc_owner c" "vi_visitor y = hc_visitor c"
      "vi_status y \<noteq> ''pending''" "hc_status c = ''active'' \<longleftrightarrow> vi_status y = ''active''" "hc_status c \<in> {''active'', ''read_only''}"
      by (auto simp: talk_ok_def conversation_ok_def)
    let ?y = "if vi_id y = k \<and> vi_status y = e then f y else y"
    have "?y \<in> set ?vs" using y(1) by (auto simp: set_update_where)
    moreover have "hc_status c' \<in> {''active'', ''read_only''} \<and> vi_id ?y = hc_visit c' \<and> vi_owner ?y = hc_owner c' \<and>
        vi_visitor ?y = hc_visitor c' \<and> vi_status ?y \<noteq> ''pending'' \<and> (hc_status c' = ''active'' \<longleftrightarrow> vi_status ?y = ''active'')"
      using y c(2) f tn eq [OF y(1)] v(3) by (auto simp: same_visit_def split: if_splits)
    ultimately show ?thesis unfolding conversation_ok_def by blast
  qed
  moreover have "\<exists>c' \<in> set ?cs. hc_visit c' = vi_id y'" if y': "y' \<in> set ?vs" "vi_status y' = ''active''" for y'
  proof -
    have "y' \<in> set vs" using y' f tn(1) by (auto simp: set_update_where split: if_splits)
    then obtain c where c: "c \<in> set cs" "hc_visit c = vi_id y'" using ok y'(2) by (auto simp: talk_ok_def)
    then show ?thesis unfolding close_conversation_def set_update_where
      by (intro bexI [of _ "if hc_visit c = k \<and> hc_status c = ''active'' then c\<lparr>hc_status := ''read_only'', hc_updated := now\<rparr> else c"])
        auto
  qed
  moreover have "unique_on (\<lambda>_. True) hc_id ?cs" "unique_on (\<lambda>_. True) hc_visit ?cs"
    using ok by (simp_all add: talk_ok_def close_conversation_def unique_on_update)
  ultimately show ?thesis unfolding talk_ok_def by blast
qed

text \<open>Closing a conversation changes neither its users nor its cursors.\<close>

lemma chat_ok_same:
  assumes "chat_ok cs ms" and "grown R cs cs'" and "length cs' = length cs"
    and "\<And>c c'. R c c' \<Longrightarrow> hc_id c' = hc_id c \<and> hc_owner c' = hc_owner c \<and> hc_visitor c' = hc_visitor c"
    and "\<And>c c'. c \<in> set cs \<Longrightarrow> R c c' \<Longrightarrow> cursor_ok ms c \<Longrightarrow> cursor_ok ms c'"
  shows "chat_ok cs' ms"
proof -
  have source: "\<exists>c \<in> set cs. R c c'" if "c' \<in> set cs'" for c'
    using assms(2,3) that by (induction R cs cs' rule: grown.induct) auto
  have "\<exists>c' \<in> set cs'. hc_id c' = hm_conversation m \<and> participant (hm_sender m) c'" if "m \<in> set ms" for m
  proof -
    from assms(1) that obtain c where c: "c \<in> set cs" "hc_id c = hm_conversation m" "participant (hm_sender m) c"
      by (auto simp: chat_ok_def)
    from grown_member [OF assms(2) c(1)] obtain c' where c': "c' \<in> set cs'" "R c c'" by blast
    then show ?thesis using c assms(4) [OF c'(2)] by (intro bexI [of _ c']) (simp_all add: participant_def)
  qed
  moreover have "cursor_ok ms c'" if "c' \<in> set cs'" for c'
    using source [OF that] assms(1,5) by (auto simp: chat_ok_def)
  ultimately show ?thesis using assms(1) by (simp add: chat_ok_def)
qed

lemma length_close [simp]: "length (close_conversation k now cs) = length cs"
  by (simp add: close_conversation_def)

lemma chat_ok_close: "chat_ok cs ms \<Longrightarrow> chat_ok (close_conversation k now cs) ms"
  by (rule chat_ok_same [where R = "\<lambda>c c'. hc_id c' = hc_id c \<and> hc_owner c' = hc_owner c \<and> hc_visitor c' = hc_visitor c \<and>
      hc_owner_seq c' = hc_owner_seq c \<and> hc_visitor_seq c' = hc_visitor_seq c"])
    (auto simp: cursor_ok_def close_conversation_def reflp_def intro!: grown_update)

text \<open>Everything but the peace between blocked users, which \<open>block_user\<close> restores.\<close>

definition visit_ok_but_peace :: "int \<Rightarrow> visit_db \<Rightarrow> bool" where
  "visit_ok_but_peace n s = (slots_ok (vd_slots s) (vd_invites s) (vd_visits s) \<and> invites_ok (vd_world s) (vd_invites s) \<and>
     visits_ok (vd_world s) (vd_invites s) (vd_visits s) \<and> talk_ok (vd_visits s) (vd_conversations s) \<and>
     chat_ok (vd_conversations s) (vd_messages s) \<and> limit_ok n (vd_visits s))"

lemma visit_ok_split: "visit_ok n s \<longleftrightarrow> visit_ok_but_peace n s \<and> peace_ok (vd_blocks s) (vd_visits s)"
  by (auto simp: visit_ok_def visit_ok_but_peace_def)

lemma end_visit_keeps:
  assumes "mark_universe_visit_terminal k e target now reason s = Inr (x, s')" and ok: "visit_ok_but_peace n s"
  shows "visit_ok_but_peace n s'"
proof -
  from ok have keys: "unique_on (\<lambda>_. True) vi_id (vd_visits s)" by (simp add: visit_ok_but_peace_def visits_ok_def)
  from assms(1) keys show ?thesis
  proof (cases rule: end_visit_cases)
    case (1 v f)
    have closed: "\<not> is_open (f y)" for y
      using 1(5) 1(6) [of y] by (auto simp: is_open_def VISIT_OPEN_STATUSES_def VISIT_TERMINAL_STATUSES_def)
    have "slots_ok (vd_slots s') (vd_invites s') (vd_visits s')"
      using slots_ok_end [OF _ keys 1(1-3), of "vd_slots s" "vd_invites s" f] closed ok by (simp add: 1(9) visit_ok_but_peace_def)
    moreover have "visits_ok (vd_world s') (vd_invites s') (vd_visits s')"
      using ok 1(5,6) closed unfolding 1(9) visit_ok_but_peace_def visits_ok_def
      by (auto simp: set_update_where visit_row_ok_def same_visit_def VISIT_STATUSES_def VISIT_TERMINAL_STATUSES_def
          intro!: unique_on_update [THEN iffD2] unique_on_update_weaken)
    moreover have "talk_ok (vd_visits s') (vd_conversations s')"
      using ok talk_ok_end [OF _ keys 1(1-3) 1(6) 1(5)] by (simp add: 1(9) visit_ok_but_peace_def)
    moreover have "chat_ok (vd_conversations s') (vd_messages s')"
      using ok chat_ok_close by (simp add: 1(9) visit_ok_but_peace_def)
    moreover have "open_of u (vd_visits s') \<le> open_of u (vd_visits s)" for u
      unfolding open_of_def 1(9) using closed by (auto intro!: count_where_update_le)
    then have "limit_ok n (vd_visits s')" using ok unfolding visit_ok_but_peace_def limit_ok_def
      by (meson of_nat_mono order_trans)
    ultimately show ?thesis using ok by (simp add: visit_ok_but_peace_def 1(9))
  qed
qed

lemma end_visit_peace:
  assumes "mark_universe_visit_terminal k e target now reason s = Inr (x, s')" and keys: "unique_on (\<lambda>_. True) vi_id (vd_visits s)"
    and "peace_ok bs (vd_visits s)"
  shows "peace_ok bs (vd_visits s')"
  using assms(1,2)
proof (cases rule: end_visit_cases)
  case (1 v f)
  have closed: "\<not> is_open (f y)" for y
    using 1(5) 1(6) [of y] by (auto simp: is_open_def VISIT_OPEN_STATUSES_def VISIT_TERMINAL_STATUSES_def)
  then show ?thesis using assms(3) by (auto simp: 1(9) peace_ok_def set_update_where)
qed

lemma end_visit_evolves:
  assumes "mark_universe_visit_terminal k e target now reason s = Inr (x, s')" and keys: "unique_on (\<lambda>_. True) vi_id (vd_visits s)"
    and R: "reflp R" "\<And>y z. same_visit y z \<Longrightarrow> vi_status y = e \<Longrightarrow> vi_status z = target \<Longrightarrow> R y z"
  shows "evolves R s s'"
  using assms(1,2)
proof (cases rule: end_visit_cases)
  case (1 v f)
  have "grown R (vd_visits s) (vd_visits s')"
    unfolding 1(9) by (simp, rule grown_update) (use 1(6) R in auto)
  then show ?thesis
    by (intro evolves_frame) (simp_all add: 1(9) grown_refl row_refl close_conversation_grown)
qed

lemma end_visit_sound:
  assumes "mark_universe_visit_terminal k e target now reason s = Inr (x, s')" and "visit_transition_allowed e target"
  shows "sound n s s'"
proof (rule soundI)
  assume ok: "visit_ok n s"
  then have keys: "unique_on (\<lambda>_. True) vi_id (vd_visits s)" by (simp add: visit_ok_def visits_ok_def)
  show "visit_ok n s'"
    using end_visit_keeps [OF assms(1)] end_visit_peace [OF assms(1) keys, of "vd_blocks s"] ok assms(1)
    by (auto simp: visit_ok_split) (auto elim!: end_visit_cases [OF _ keys])
  show "evolves visit_once s s'"
    by (rule end_visit_evolves [OF assms(1) keys]) (use assms(2) in \<open>auto simp: row_refl visit_once_def\<close>)
qed

section \<open>An accepted visit\<close>

lemma activate_cases:
  assumes "mark_universe_visit_active k accepted expires s = Inr (x, s')" and keys: "unique_on (\<lambda>_. True) vi_id (vd_visits s)"
  obtains v f where "v \<in> set (vd_visits s)" "vi_id v = k" "vi_status v = ''pending''"
    "\<And>y. same_visit y (f y) \<and> vi_status (f y) = ''active'' \<and> vi_expires (f y) = Some expires" "x = f v"
    "s' = s\<lparr>vd_visits := update_where (\<lambda>y. vi_id y = k \<and> vi_status y = ''pending'') f (vd_visits s)\<rparr>"
proof -
  let ?q = "\<lambda>y. vi_id y = k \<and> vi_status y = ''pending''"
  let ?f = "\<lambda>y::world_visit. y\<lparr>vi_status := ''active'', vi_accepted := Some accepted, vi_expires := Some expires, vi_updated := accepted\<rparr>"
  from assms(1) have 1: "count_where ?q (vd_visits s) = 1"
    and x: "find_row (\<lambda>y. vi_id y = k) (update_where ?q ?f (vd_visits s)) = Some x"
    and s': "s' = s\<lparr>vd_visits := update_where ?q ?f (vd_visits s)\<rparr>"
    unfolding mark_universe_visit_active_def Let_def by (auto split: if_splits option.splits)
  obtain v where v: "v \<in> set (vd_visits s)" "?q v" "\<And>y. y \<in> set (vd_visits s) \<Longrightarrow> vi_id y = k \<Longrightarrow> y = v"
    by (rule count_key_1 [OF keys 1, of k]) blast+
  obtain y where y: "y \<in> set (vd_visits s)" "x = (if ?q y then ?f y else y)" "vi_id x = k"
    using find_row_Some [OF x] unfolding set_update_where by blast
  then have "vi_id y = k" by (simp split: if_splits)
  with v(3) y(1) have "y = v" by blast
  with y(2) v(2) have fx: "x = ?f v" by simp
  show ?thesis
    by (rule that [of v ?f, OF v(1) _ _ _ fx s']) (use v(2) in \<open>simp_all add: same_visit_def\<close>)
qed

lemma create_conversation_cases:
  assumes "create_human_conversation_for_visit cid k owner visitor now s = Inr (c, s')"
  obtains (existing) "s' = s" "c \<in> set (vd_conversations s)" "hc_visit c = k"
  | (new) "\<forall>c \<in> set (vd_conversations s). hc_visit c \<noteq> k" "cid \<notin> hc_id ` set (vd_conversations s)"
    "s' = s\<lparr>vd_conversations := vd_conversations s @ [c]\<rparr>" "hc_id c = cid" "hc_visit c = k" "hc_owner c = owner"
    "hc_visitor c = visitor" "hc_status c = ''active''" "hc_owner_seq c = None" "hc_visitor_seq c = None"
proof (cases "find_row (\<lambda>c. hc_visit c = k) (vd_conversations s)")
  case None
  let ?c = "\<lparr>hc_id = cid, hc_visit = k, hc_owner = owner, hc_visitor = visitor, hc_status = ''active'', hc_owner_hidden = None,
     hc_visitor_hidden = None, hc_owner_read = None, hc_visitor_read = None, hc_last = None,
     hc_created = now, hc_updated = now, hc_owner_seq = None, hc_visitor_seq = None\<rparr>"
  from assms None have fresh: "cid \<notin> hc_id ` set (vd_conversations s)"
    and s': "s' = s\<lparr>vd_conversations := vd_conversations s @ [?c]\<rparr>"
    and c: "find_row (\<lambda>c. hc_id c = cid) (vd_conversations s @ [?c]) = Some c"
    unfolding create_human_conversation_for_visit_def Let_def by (auto split: if_splits option.splits)
  have "c = ?c" using c fresh by (auto simp: find_row_append image_iff split: option.splits dest!: find_row_Some)
  then show ?thesis using None fresh s' by (intro new) (auto simp: find_row_None)
next
  case (Some c0)
  with assms have "s' = s" "c = c0"
    unfolding create_human_conversation_for_visit_def Let_def by (auto split: if_splits option.splits)
  then show ?thesis using existing find_row_Some [OF Some] by simp
qed

lemma chat_ok_new_conversation: "chat_ok cs ms \<Longrightarrow> hc_owner_seq c = None \<Longrightarrow> hc_visitor_seq c = None \<Longrightarrow> chat_ok (cs @ [c]) ms"
  by (auto simp: chat_ok_def cursor_ok_def)

lemma talk_ok_accept:
  assumes ok: "talk_ok vs cs" and keys: "unique_on (\<lambda>_. True) vi_id vs"
    and v: "v \<in> set vs" "vi_id v = k" "vi_status v = ''pending''"
    and f: "\<And>y. same_visit y (f y) \<and> vi_status (f y) = ''active''"
    and c: "hc_id c \<notin> hc_id ` set cs" "hc_visit c = k" "hc_owner c = vi_owner v" "hc_visitor c = vi_visitor v" "hc_status c = ''active''"
  shows "talk_ok (update_where (\<lambda>y. vi_id y = k \<and> vi_status y = ''pending'') f vs) (cs @ [c])"
proof -
  let ?vs = "update_where (\<lambda>y. vi_id y = k \<and> vi_status y = ''pending'') f vs"
  have eq: "y = v" if "y \<in> set vs" "vi_id y = k" for y using unique_onD [OF keys that(1) v(1)] that(2) v(2) by simp
  have other: "hc_visit d \<noteq> k" if "d \<in> set cs" for d
  proof
    assume "hc_visit d = k"
    with ok that obtain y where "y \<in> set vs" "vi_id y = k" "vi_status y \<noteq> ''pending''" by (auto simp: talk_ok_def conversation_ok_def)
    with eq v(3) show False by auto
  qed
  have fv: "f v \<in> set ?vs" using v unfolding set_update_where by (intro image_eqI [of _ _ v]) simp_all
  have stay: "y \<in> set ?vs" if "y \<in> set vs" "vi_id y \<noteq> k" for y
    using that unfolding set_update_where by (intro image_eqI [of _ _ y]) simp_all
  have "conversation_ok ?vs d" if "d \<in> set cs" for d
  proof -
    from ok that obtain y where y: "y \<in> set vs" "vi_id y = hc_visit d" "vi_owner y = hc_owner d" "vi_visitor y = hc_visitor d"
      "vi_status y \<noteq> ''pending''" "hc_status d = ''active'' \<longleftrightarrow> vi_status y = ''active''" "hc_status d \<in> {''active'', ''read_only''}"
      by (auto simp: talk_ok_def conversation_ok_def)
    then have "y \<in> set ?vs" using stay other [OF that] by simp
    with y show ?thesis unfolding conversation_ok_def by blast
  qed
  moreover have "conversation_ok ?vs c"
    unfolding conversation_ok_def using c(2-5) f [of v] v by (intro conjI bexI [OF _ fv]) (simp_all add: same_visit_def)
  moreover have "\<exists>d \<in> set (cs @ [c]). hc_visit d = vi_id y'" if y': "y' \<in> set ?vs" "vi_status y' = ''active''" for y'
  proof -
    from y'(1) obtain y where y: "y \<in> set vs" "y' = (if vi_id y = k \<and> vi_status y = ''pending'' then f y else y)"
      unfolding set_update_where by blast
    show ?thesis
    proof (cases "vi_id y = k \<and> vi_status y = ''pending''")
      case True
      then have "vi_id y' = k" using y(2) f [of y] by (simp add: same_visit_def)
      then show ?thesis using c(2) by simp
    next
      case False
      then show ?thesis using y y'(2) ok by (auto simp: talk_ok_def)
    qed
  qed
  moreover have "unique_on (\<lambda>_. True) hc_id (cs @ [c])" "unique_on (\<lambda>_. True) hc_visit (cs @ [c])"
    using ok c(1,2) other by (auto simp: talk_ok_def unique_on_snoc image_iff)
  ultimately show ?thesis unfolding talk_ok_def by auto
qed

lemma accept_sound:
  assumes a: "mark_universe_visit_active k accepted expires s = Inr (x, s1)"
    and b: "create_human_conversation_for_visit cid k (vi_owner x) (vi_visitor x) now s1 = Inr (c, s2)"
  shows "sound n s s2"
proof (rule soundI)
  assume ok: "visit_ok n s"
  then have keys: "unique_on (\<lambda>_. True) vi_id (vd_visits s)" by (simp add: visit_ok_def visits_ok_def)
  obtain v f where v: "v \<in> set (vd_visits s)" "vi_id v = k" "vi_status v = ''pending''"
    and f: "\<And>y. same_visit y (f y) \<and> vi_status (f y) = ''active'' \<and> vi_expires (f y) = Some expires" and x: "x = f v"
    and s1: "s1 = s\<lparr>vd_visits := update_where (\<lambda>y. vi_id y = k \<and> vi_status y = ''pending'') f (vd_visits s)\<rparr>"
    by (rule activate_cases [OF a keys]) (rule that; assumption)
  have none: "hc_visit d \<noteq> k" if "d \<in> set (vd_conversations s)" for d
  proof
    assume "hc_visit d = k"
    with ok that obtain y where "y \<in> set (vd_visits s)" "vi_id y = k" "vi_status y \<noteq> ''pending''"
      by (auto simp: visit_ok_def talk_ok_def conversation_ok_def)
    with unique_onD [OF keys _ v(1)] v(2,3) show False by auto
  qed
  from b have "s2 = s1\<lparr>vd_conversations := vd_conversations s @ [c]\<rparr> \<and> hc_id c \<notin> hc_id ` set (vd_conversations s) \<and>
      hc_visit c = k \<and> hc_owner c = vi_owner v \<and> hc_visitor c = vi_visitor v \<and> hc_status c = ''active'' \<and>
      hc_owner_seq c = None \<and> hc_visitor_seq c = None"
  proof (cases rule: create_conversation_cases)
    case existing
    then show ?thesis using none [of c] by (simp add: s1)
  next
    case new
    then show ?thesis using f [of v] by (simp add: s1 x same_visit_def)
  qed
  then have s2: "s2 = s1\<lparr>vd_conversations := vd_conversations s @ [c]\<rparr>"
    and c: "hc_id c \<notin> hc_id ` set (vd_conversations s)" "hc_visit c = k" "hc_owner c = vi_owner v"
      "hc_visitor c = vi_visitor v" "hc_status c = ''active''" "hc_owner_seq c = None" "hc_visitor_seq c = None"
    by blast+
  have opn: "is_open (f y) = is_open y" if "vi_status y = ''pending''" for y
    using f [of y] that by (simp add: is_open_def VISIT_OPEN_STATUSES_def)
  have "slots_ok (vd_slots s2) (vd_invites s2) (vd_visits s2)"
    unfolding s2 s1 using ok f opn by (auto simp: visit_ok_def same_visit_def intro!: slots_ok_stay)
  moreover have "unique_on is_open (\<lambda>v. (vi_world v, vi_visitor v)) (vd_visits s2)"
    unfolding s2 s1 using ok f opn by (auto simp: visit_ok_def visits_ok_def same_visit_def intro!: unique_on_update_weaken)
  then have "visits_ok (vd_world s2) (vd_invites s2) (vd_visits s2)"
    using ok f by (auto simp: s2 s1 visit_ok_def visits_ok_def unique_on_update same_visit_def set_update_where visit_row_ok_def
        VISIT_STATUSES_def VISIT_OPEN_STATUSES_def)
  moreover have "talk_ok (vd_visits s2) (vd_conversations s2)"
    using talk_ok_accept [OF _ keys v, of "vd_conversations s" f c] ok f c by (simp add: s2 s1 visit_ok_def)
  moreover have "chat_ok (vd_conversations s2) (vd_messages s2)"
    using ok c by (simp add: s2 s1 visit_ok_def chat_ok_new_conversation)
  moreover have "peace_ok (vd_blocks s2) (vd_visits s2)"
    using ok f opn by (auto simp: s2 s1 visit_ok_def peace_ok_def set_update_where same_visit_def)
  moreover have "open_of u (vd_visits s2) \<le> open_of u (vd_visits s)" for u
    unfolding open_of_def s2 s1 using f opn by (auto simp: same_visit_def intro!: count_where_update_le)
  then have "limit_ok n (vd_visits s2)" using ok unfolding visit_ok_def limit_ok_def by (meson of_nat_mono order_trans)
  ultimately show "visit_ok n s2" using ok by (simp add: visit_ok_def s2 s1)
  have "grown visit_once (vd_visits s) (vd_visits s2)"
    unfolding s2 s1 by (simp, rule grown_update) (use f in \<open>auto simp: row_refl visit_once_def visit_transition_allowed_def\<close>)
  then show "evolves visit_once s s2" by (intro evolves_frame) (simp_all add: s2 s1 grown_refl grown_append row_refl)
qed

section \<open>A block\<close>

lemma grown_source: "grown R xs ys \<Longrightarrow> length ys = length xs \<Longrightarrow> y \<in> set ys \<Longrightarrow> \<exists>x \<in> set xs. R x y"
  by (induction R xs ys rule: grown.induct) auto

definition blocked_step :: "world_visit \<Rightarrow> world_visit \<Rightarrow> bool" where
  "blocked_step v v' = (v' = v \<or> (same_visit v v' \<and> is_open v \<and> vi_status v' = ''blocked''))"

lemma blocked_step_refl: "reflp blocked_step"
  by (simp add: reflp_def blocked_step_def)

lemma blocked_step_trans: "transp blocked_step"
  by (auto simp: transp_def blocked_step_def same_visit_def is_open_def VISIT_OPEN_STATUSES_def)

lemma blocked_step_once: "blocked_step v v' \<Longrightarrow> visit_once v v'"
  by (auto simp: blocked_step_def visit_once_def is_open_def VISIT_OPEN_STATUSES_def visit_transition_allowed_def)

lemma blocked_step_open: "blocked_step v v' \<Longrightarrow> is_open v' \<Longrightarrow> v' = v"
  by (auto simp: blocked_step_def is_open_def VISIT_OPEN_STATUSES_def)

text \<open>What the loop of \<open>block\<close> does: only visits of the list end, and all of them do.\<close>

definition blocked_all :: "int \<Rightarrow> world_visit list \<Rightarrow> visit_db \<Rightarrow> visit_db \<Rightarrow> bool" where
  "blocked_all lim vs s s' = (visit_ok_but_peace lim s' \<and> evolves blocked_step s s' \<and>
     length (vd_visits s') = length (vd_visits s) \<and> vd_blocks s' = vd_blocks s \<and> vd_world s' = vd_world s \<and>
     (\<forall>v \<in> set vs. \<forall>x \<in> set (vd_visits s'). vi_id x = vi_id v \<longrightarrow> \<not> is_open x))"

lemma blocked_all_Cons:
  assumes first: "visit_ok_but_peace lim s1" "evolves blocked_step s s1" "length (vd_visits s1) = length (vd_visits s)"
      "vd_blocks s1 = vd_blocks s" "vd_world s1 = vd_world s"
    and gone: "\<And>x. x \<in> set (vd_visits s1) \<Longrightarrow> vi_id x = vi_id v \<Longrightarrow> \<not> is_open x"
    and rest: "blocked_all lim vs s1 s'"
  shows "blocked_all lim (v # vs) s s'"
proof -
  have "\<not> is_open x" if x: "x \<in> set (vd_visits s')" "vi_id x = vi_id v" for x
  proof
    assume o: "is_open x"
    have "grown blocked_step (vd_visits s1) (vd_visits s')" "length (vd_visits s') = length (vd_visits s1)"
      using rest by (simp_all add: blocked_all_def evolves_def)
    from grown_source [OF this x(1)] obtain y where "y \<in> set (vd_visits s1)" "blocked_step y x" by blast
    with blocked_step_open [OF _ o] gone x(2) o show False by blast
  qed
  then show ?thesis using first rest evolves_trans [OF first(2) _ blocked_step_trans, of s']
    by (auto simp: blocked_all_def)
qed

lemma get_visit_id: "get_universe_visit k s = Some v \<Longrightarrow> v \<in> set (vd_visits s) \<and> vi_id v = k"
  by (auto simp: get_universe_visit_def dest: find_row_Some)

lemma get_visit_None:
  "visits_ok (vd_world s) is (vd_visits s) \<Longrightarrow> get_universe_visit k s = None \<Longrightarrow> v \<in> set (vd_visits s) \<Longrightarrow> vi_id v \<noteq> k"
  by (auto simp: get_universe_visit_def find_row_None visits_ok_def visit_row_ok_def in_mingchan_def)

lemma block_visits_effect: "block_visits now vs s = Inr (m, s') \<Longrightarrow> visit_ok_but_peace lim s \<Longrightarrow> blocked_all lim vs s s'"
proof (induction vs arbitrary: s m)
  case Nil
  then show ?case by (simp add: blocked_all_def evolves_refl blocked_step_refl)
next
  case (Cons v vs)
  have vok: "visits_ok (vd_world s) (vd_invites s) (vd_visits s)" using Cons.prems(2) by (simp add: visit_ok_but_peace_def)
  then have keys: "unique_on (\<lambda>_. True) vi_id (vd_visits s)" by (simp add: visits_ok_def)
  have skip: ?case if "block_visits now vs s = Inr (m, s')" "\<And>x. x \<in> set (vd_visits s) \<Longrightarrow> vi_id x = vi_id v \<Longrightarrow> \<not> is_open x"
    by (rule blocked_all_Cons [OF Cons.prems(2) _ _ _ _ that(2) Cons.IH [OF that(1) Cons.prems(2)]])
      (simp_all add: evolves_refl blocked_step_refl)
  show ?case
  proof (cases "get_universe_visit (vi_id v) s")
    case None
    then show ?thesis using Cons.prems(1) get_visit_None [OF vok None] by (intro skip) auto
  next
    case (Some x)
    note x = get_visit_id [OF Some]
    have eq: "y = x" if "y \<in> set (vd_visits s)" "vi_id y = vi_id v" for y using unique_onD [OF keys that(1)] x that(2) by simp
    show ?thesis
    proof (cases "is_open x")
      case False
      then show ?thesis using Cons.prems(1) Some eq by (intro skip) auto
    next
      case True
      from Cons.prems(1) Some True obtain z s1 k where
        t: "mark_universe_visit_terminal (vi_id x) (vi_status x) ''blocked'' (db_time now) ''contact_blocked'' s = Inr (z, s1)"
        and r: "block_visits now vs s1 = Inr (k, s')"
        by (auto simp: and_then_Inr)
      have ok1: "visit_ok_but_peace lim s1" using t Cons.prems(2) by (rule end_visit_keeps)
      have ev: "evolves blocked_step s s1"
        by (rule end_visit_evolves [OF t keys blocked_step_refl])
          (use True in \<open>simp add: blocked_step_def is_open_def\<close>)
      from t keys show ?thesis
      proof (cases rule: end_visit_cases)
        case (1 u f)
        have gone: "\<not> is_open y" if y: "y \<in> set (vd_visits s1)" "vi_id y = vi_id v" for y
        proof -
          have "y \<in> set (update_where (\<lambda>y. vi_id y = vi_id x \<and> vi_status y = vi_status x) f (vd_visits s))"
            using y(1) by (simp add: 1(9))
          then obtain y0 where y0: "y0 \<in> set (vd_visits s)"
            "y = (if vi_id y0 = vi_id x \<and> vi_status y0 = vi_status x then f y0 else y0)"
            unfolding set_update_where by blast
          then have "vi_id y0 = vi_id v" using y(2) 1(6) [of y0] by (auto simp: same_visit_def split: if_splits)
          with eq y0(1) have "y0 = x" by blast
          then show ?thesis using y0(2) 1(6) [of x] by (simp add: is_open_def VISIT_OPEN_STATUSES_def)
        qed
        show ?thesis
          by (rule blocked_all_Cons [OF ok1 ev _ _ _ gone Cons.IH [OF r ok1]]) (simp_all add: 1(9))
      qed
    qed
  qed
qed

lemma insert_block_cases:
  assumes "insert_platform_user_block a b now s = Inr (x, s')"
  obtains bs where "s' = s\<lparr>vd_blocks := vd_blocks s @ bs\<rparr>" "blocked_pair a b (vd_blocks s')"
    "\<And>k. k \<in> set bs \<Longrightarrow> blocks a b k"
proof (cases "list_ex (blocks a b) (vd_blocks s)")
  case True
  with assms have "s' = s" by (auto simp: insert_platform_user_block_def split: if_splits)
  then show ?thesis using True by (intro that [of "[]"]) (auto simp: blocked_pair_def list_ex_iff)
next
  case False
  with assms have "s' = s\<lparr>vd_blocks := vd_blocks s @ [\<lparr>ub_blocker = a, ub_blocked = b, ub_created = now\<rparr>]\<rparr>"
    by (auto simp: insert_platform_user_block_def split: if_splits)
  then show ?thesis by (intro that) (auto simp: blocked_pair_def blocks_def)
qed

lemma has_block_pair: "has_platform_user_block a b s = blocked_pair a b (vd_blocks s)"
  by (simp add: has_platform_user_block_def blocked_pair_def)

lemma blocked_pair_append:
  assumes "\<And>k. k \<in> set ks \<Longrightarrow> blocks a b k"
  shows "blocked_pair x y (bs @ ks) \<Longrightarrow> blocked_pair x y bs \<or> (x = a \<and> y = b) \<or> (x = b \<and> y = a)"
  using assms by (auto simp: blocked_pair_def list_ex_iff blocks_def)

lemma block_user_cases:
  assumes "block_user user k now s = Inr (m, s')"
  obtains v c b s1 where "get_universe_visit k s = Some v" "c = (if vi_owner v = user then vi_visitor v else vi_owner v)"
    "insert_platform_user_block user c (db_time now) s = Inr (b, s1)"
    "block_visits now (list_open_universe_visits_between user c s) s1 = Inr (m, s')"
proof -
  from assms obtain v where v: "get_universe_visit k s = Some v" by (auto simp: block_user_def split: option.splits)
  with assms show ?thesis
    by (auto simp: block_user_def and_then_Inr Let_def split: if_splits intro!: that)
qed

lemma block_user_sound: "block_user user k now s = Inr (m, s') \<Longrightarrow> sound lim s s'"
proof (erule block_user_cases, rule soundI)
  fix v c b s1
  assume ins: "insert_platform_user_block user c (db_time now) s = Inr (b, s1)"
    and bl: "block_visits now (list_open_universe_visits_between user c s) s1 = Inr (m, s')"
  from ins obtain ks where s1: "s1 = s\<lparr>vd_blocks := vd_blocks s @ ks\<rparr>" and ks: "\<And>k. k \<in> set ks \<Longrightarrow> blocks user c k"
    by (rule insert_block_cases) (rule that; assumption)
  { assume ok: "visit_ok lim s"
    then have "visit_ok_but_peace lim s1" by (simp add: s1 visit_ok_split visit_ok_but_peace_def)
    with bl have all: "blocked_all lim (list_open_universe_visits_between user c s) s1 s'" by (rule block_visits_effect)
    have "\<not> blocked_pair (vi_owner x) (vi_visitor x) (vd_blocks s')" if x: "x \<in> set (vd_visits s')" "is_open x" for x
    proof
      assume bp: "blocked_pair (vi_owner x) (vi_visitor x) (vd_blocks s')"
      have "grown blocked_step (vd_visits s) (vd_visits s')" "length (vd_visits s') = length (vd_visits s)"
        using all by (simp_all add: blocked_all_def evolves_def s1)
      from grown_source [OF this x(1)] obtain y where "y \<in> set (vd_visits s)" "blocked_step y x" by blast
      with blocked_step_open [OF _ x(2)] have y: "x \<in> set (vd_visits s)" by blast
      then have "\<not> blocked_pair (vi_owner x) (vi_visitor x) (vd_blocks s)"
        using ok x(2) by (simp add: visit_ok_def peace_ok_def)
      moreover have "vd_blocks s' = vd_blocks s @ ks" using all by (simp add: blocked_all_def s1)
      ultimately have "(vi_owner x = user \<and> vi_visitor x = c) \<or> (vi_owner x = c \<and> vi_visitor x = user)"
        using bp blocked_pair_append [OF ks] by metis
      moreover have "in_mingchan (vi_world x) s"
        using ok y by (auto simp: visit_ok_def visits_ok_def visit_row_ok_def in_mingchan_def)
      ultimately have "x \<in> set (list_open_universe_visits_between user c s)"
        using y x(2) by (auto simp: list_open_universe_visits_between_def)
      then show False using all x by (auto simp: blocked_all_def)
    qed
    then show "visit_ok lim s'" using all by (simp add: visit_ok_split peace_ok_def blocked_all_def)
    from all have "evolves visit_once s1 s'"
      by (auto simp: blocked_all_def evolves_def intro: grown_mono blocked_step_once)
    then show "evolves visit_once s s'" by (auto simp: s1 evolves_def talked_def) }
qed

end
