(* ===== verification/Visit_Chat_Laws.thy ===== *)
theory Visit_Chat_Laws
imports Visit_Primitives
begin

text \<open>The writes of the chat keep the invariant: messages, read cursors, hidden conversations, reports.\<close>

section \<open>Changed conversations\<close>

text \<open>An update of conversations that leaves their visit, users and status alone.\<close>

lemma talk_ok_update:
  assumes ok: "talk_ok vs cs"
    and f: "\<And>c. hc_id (f c) = hc_id c \<and> hc_visit (f c) = hc_visit c \<and> hc_owner (f c) = hc_owner c \<and>
      hc_visitor (f c) = hc_visitor c \<and> hc_status (f c) = hc_status c"
  shows "talk_ok vs (update_where q f cs)"
proof -
  have "conversation_ok vs c'" if "c' \<in> set (update_where q f cs)" for c'
  proof -
    from that obtain c where "c \<in> set cs" "c' = (if q c then f c else c)" unfolding set_update_where by blast
    then show ?thesis using ok f [of c] by (auto simp: talk_ok_def conversation_ok_def split: if_splits)
  qed
  moreover have "\<exists>c \<in> set (update_where q f cs). hc_visit c = vi_id v" if v: "v \<in> set vs" "vi_status v = ''active''" for v
  proof -
    from ok v obtain c where c: "c \<in> set cs" "hc_visit c = vi_id v" by (auto simp: talk_ok_def)
    then show ?thesis unfolding set_update_where using f [of c]
      by (intro bexI [of _ "if q c then f c else c"] image_eqI [of _ _ c]) simp_all
  qed
  ultimately show ?thesis using ok f by (simp add: talk_ok_def unique_on_update)
qed

lemma chat_ok_update:
  assumes "chat_ok cs ms" and "\<And>c. hc_id (f c) = hc_id c \<and> hc_owner (f c) = hc_owner c \<and> hc_visitor (f c) = hc_visitor c"
    and "\<And>c. c \<in> set cs \<Longrightarrow> cursor_ok ms c \<Longrightarrow> cursor_ok ms (f c)"
  shows "chat_ok (update_where q f cs) ms"
  by (rule chat_ok_same [OF assms(1), where R = "\<lambda>c c'. c' = c \<or> c' = f c"])
    (use assms(2,3) in \<open>auto simp: reflp_def intro!: grown_update\<close>)

text \<open>A transaction that only updates conversations that way.\<close>

lemma conversations_sound:
  assumes s': "s' = s\<lparr>vd_conversations := update_where q f (vd_conversations s)\<rparr>"
    and f: "\<And>c. hc_status (f c) = hc_status c" "\<And>c. conversation_row_step c (f c)"
    and cur: "\<And>c. visit_ok n s \<Longrightarrow> c \<in> set (vd_conversations s) \<Longrightarrow> cursor_ok (vd_messages s) c \<Longrightarrow> cursor_ok (vd_messages s) (f c)"
  shows "sound n s s'"
proof (rule soundI)
  have same: "hc_id (f c) = hc_id c \<and> hc_visit (f c) = hc_visit c \<and> hc_owner (f c) = hc_owner c \<and>
      hc_visitor (f c) = hc_visitor c \<and> hc_status (f c) = hc_status c" for c
    using f [of c] by (simp add: conversation_row_step_def)
  { assume ok: "visit_ok n s"
    then have "talk_ok (vd_visits s') (vd_conversations s')" "chat_ok (vd_conversations s') (vd_messages s')"
      using talk_ok_update [of "vd_visits s" "vd_conversations s" f q] chat_ok_update [of "vd_conversations s" "vd_messages s" f q]
        same cur [OF ok] by (simp_all add: s' visit_ok_def)
    then show "visit_ok n s'" using ok by (simp add: visit_ok_def s') }
  have "grown conversation_row_step (vd_conversations s) (vd_conversations s')"
    unfolding s' by (simp, rule grown_update) (use f(2) in \<open>auto simp: row_refl\<close>)
  then show "evolves visit_once s s'" by (intro evolves_frame) (simp_all add: s' grown_refl row_refl)
qed

section \<open>Messages\<close>

lemma fold_max_numbers: "fold max (map int [2..<Suc (Suc k)]) 1 = int (Suc k)"
proof (induction k)
  case 0
  then show ?case by simp
next
  case (Suc k)
  have "[2..<Suc (Suc (Suc k))] = [2..<Suc (Suc k)] @ [Suc (Suc k)]" by simp
  with Suc show ?case by simp
qed

lemma last_sequence_numbered:
  assumes "numbered (messages_of k (vd_messages s))"
  shows "last_sequence k s = int (length (messages_of k (vd_messages s)))"
proof -
  let ?n = "length (messages_of k (vd_messages s))"
  have l: "last_sequence k s = (case map int [1..<Suc ?n] of [] \<Rightarrow> 0 | n # ns \<Rightarrow> fold max ns n)"
    using assms by (simp add: last_sequence_def messages_of_def numbered_def)
  show ?thesis
  proof (cases ?n)
    case 0
    then show ?thesis by (simp add: l)
  next
    case (Suc j)
    have "[1..<Suc (Suc j)] = 1 # [2..<Suc (Suc j)]" by (simp add: upt_conv_Cons numeral_2_eq_2)
    then show ?thesis using Suc fold_max_numbers [of j] by (simp only: l list.map list.case) simp
  qed
qed

lemma messages_of_append: "messages_of k (ms @ [m]) = messages_of k ms @ (if hm_conversation m = k then [m] else [])"
  by (simp add: messages_of_def)

lemma numbered_append: "numbered ms \<Longrightarrow> hm_seq m = int (length ms) + 1 \<Longrightarrow> numbered (ms @ [m])"
  by (simp add: numbered_def)

lemma insert_message_cases:
  assumes "insert_human_message mid k sender client body media now s = Inr ((m, created), s')"
  obtains (replay) "s' = s" "\<not> created" "m \<in> set (vd_messages s)" "sent_as k sender client m" "hm_body m = body" "hm_media m = media"
  | (fresh) "created" "get_human_message_by_client_id k sender client s = None" "\<not> list_ex (message_conflict m) (vd_messages s)"
    "m = \<lparr>hm_id = mid, hm_conversation = k, hm_sender = sender, hm_client = client, hm_seq = last_sequence k s + 1,
       hm_body = body, hm_media = media, hm_created = now\<rparr>"
    "s' = s\<lparr>vd_messages := vd_messages s @ [m], vd_conversations := update_where (\<lambda>c. hc_id c = k)
       (\<lambda>c. c\<lparr>hc_last := Some now, hc_updated := now\<rparr>) (vd_conversations s)\<rparr>"
proof (cases "get_human_message_by_client_id k sender client s")
  case (Some x)
  with assms have "s' = s" "\<not> created" "m = x" "hm_body m = body" "hm_media m = media"
    by (auto simp: insert_human_message_def split: if_splits)
  moreover have "x \<in> set (vd_messages s)" "sent_as k sender client x"
    using Some by (auto simp: get_human_message_by_client_id_def dest: find_row_Some)
  ultimately show ?thesis using replay by blast
next
  case None
  let ?m = "\<lparr>hm_id = mid, hm_conversation = k, hm_sender = sender, hm_client = client, hm_seq = last_sequence k s + 1,
       hm_body = body, hm_media = media, hm_created = now\<rparr>"
  have free: "\<not> list_ex (message_conflict ?m) (vd_messages s)"
    using assms None by (auto simp: insert_human_message_def Let_def)
  have "get_human_message_by_client_id k sender client (s\<lparr>vd_messages := vd_messages s @ [?m]\<rparr>) = Some ?m"
    using None by (simp add: get_human_message_by_client_id_def find_row_append sent_as_def)
  with assms None free show ?thesis by (intro fresh) (auto simp: insert_human_message_def Let_def)
qed

lemma chat_ok_message:
  assumes ok: "chat_ok cs ms" and free: "\<not> list_ex (message_conflict m) ms"
    and seq: "hm_seq m = int (length (messages_of (hm_conversation m) ms)) + 1"
    and c: "c \<in> set cs" "hc_id c = hm_conversation m" "participant (hm_sender m) c"
  shows "chat_ok cs (ms @ [m])"
proof -
  have "numbered (messages_of k (ms @ [m]))" for k
    using ok seq by (auto simp: messages_of_append chat_ok_def intro!: numbered_append)
  moreover have "cursor_ok (ms @ [m]) d" if "d \<in> set cs" for d
    using ok that by (auto simp: chat_ok_def cursor_ok_def messages_of_append opt_all_iff)
  moreover have "unique_on (\<lambda>_. True) hm_id (ms @ [m])"
    "unique_on (\<lambda>_. True) (\<lambda>m. (hm_conversation m, hm_sender m, hm_client m)) (ms @ [m])"
    using ok free by (auto simp: chat_ok_def unique_on_snoc list_ex_iff message_conflict_def)
  moreover have "\<exists>c \<in> set cs. hc_id c = hm_conversation x \<and> participant (hm_sender x) c" if "x \<in> set (ms @ [m])" for x
    using ok c that by (auto simp: chat_ok_def)
  ultimately show ?thesis by (simp add: chat_ok_def)
qed

lemma insert_message_sound:
  assumes "insert_human_message mid k sender client body media now s = Inr ((m, created), s')"
    and c: "c \<in> set (vd_conversations s)" "hc_id c = k" "participant sender c" "hc_status c = ''active''"
  shows "sound n s s'"
  using assms(1)
proof (cases rule: insert_message_cases)
  case replay
  then show ?thesis by (simp add: sound_refl)
next
  case fresh
  let ?f = "\<lambda>c::human_conversation. c\<lparr>hc_last := Some now, hc_updated := now\<rparr>"
  show ?thesis
  proof (rule soundI)
    assume ok: "visit_ok n s"
    then have "numbered (messages_of k (vd_messages s))" by (simp add: visit_ok_def chat_ok_def)
    from last_sequence_numbered [OF this] have "chat_ok (vd_conversations s) (vd_messages s @ [m])"
      using ok c fresh(3,4) by (intro chat_ok_message [of _ _ m c]) (simp_all add: visit_ok_def)
    then have "chat_ok (vd_conversations s') (vd_messages s')"
      using chat_ok_update [of "vd_conversations s" "vd_messages s @ [m]" ?f "\<lambda>c. hc_id c = k"]
      by (simp add: fresh(5) cursor_ok_def)
    moreover have "talk_ok (vd_visits s') (vd_conversations s')"
      using ok talk_ok_update [of "vd_visits s" "vd_conversations s" ?f "\<lambda>c. hc_id c = k"] by (simp add: fresh(5) visit_ok_def)
    ultimately show "visit_ok n s'" using ok by (simp add: visit_ok_def fresh(5))
    have "unique_on (\<lambda>_. True) hc_id (vd_conversations s)" using ok by (simp add: visit_ok_def talk_ok_def)
    then have only: "d = c" if "d \<in> set (vd_conversations s)" "hc_id d = k" for d using unique_onD c(1,2) that by metis
    have "conversation_row_step d (?f d)" for d
      by (simp add: conversation_row_step_def human_conversation_transition_allowed_def kept_time_def cursor_le_def known_def
          split: option.splits)
    then have "grown conversation_row_step (vd_conversations s) (vd_conversations s')"
      unfolding fresh(5) by (simp, intro grown_update) (simp_all add: row_refl)
    moreover have "talked s s'" unfolding talked_def using only c(4) fresh(4) by (auto simp: fresh(5))
    ultimately show "evolves visit_once s s'" by (simp add: evolves_def fresh(5) grown_refl row_refl world_kept_def)
  qed
qed

section \<open>Reading, hiding, reporting\<close>

lemma advance_le: "cursor_le a (advance t a)"
  by (simp add: cursor_le_def advance_def known_def split: option.splits)

lemma mark_read_sound: "mark_human_conversation_read k user now s = (x, s') \<Longrightarrow> sound n s s'"
proof -
  assume a: "mark_human_conversation_read k user now s = (x, s')"
  show ?thesis
  proof (cases "\<exists>c0. lock_human_conversation k s = Some c0 \<and> participant user c0")
    case False
    with a have "s' = s" by (auto simp: mark_human_conversation_read_def split: option.splits if_splits)
    then show ?thesis by (simp add: sound_refl)
  next
    case True
    then obtain c0 where c0: "lock_human_conversation k s = Some c0" "participant user c0" by blast
    let ?f = "\<lambda>c::human_conversation. if hc_owner c0 = user
      then c\<lparr>hc_owner_read := Some now, hc_owner_seq := advance (last_sequence k s) (hc_owner_seq c), hc_updated := now\<rparr>
      else c\<lparr>hc_visitor_read := Some now, hc_visitor_seq := advance (last_sequence k s) (hc_visitor_seq c), hc_updated := now\<rparr>"
    from a c0 have s': "s' = s\<lparr>vd_conversations := update_where (\<lambda>c. hc_id c = k) ?f (vd_conversations s)\<rparr>"
      by (auto simp: mark_human_conversation_read_def Let_def)
    have s'': "s' = s\<lparr>vd_conversations := update_where (\<lambda>c. hc_id c = k) (\<lambda>c. if hc_id c = k then ?f c else c) (vd_conversations s)\<rparr>"
      unfolding s' by (simp add: update_where_def)
    show ?thesis
    proof (rule conversations_sound [OF s''])
      fix c :: human_conversation
      show "hc_status (if hc_id c = k then ?f c else c) = hc_status c" by simp
      show "conversation_row_step c (if hc_id c = k then ?f c else c)"
        by (auto simp: conversation_row_step_def human_conversation_transition_allowed_def kept_time_def advance_le)
          (auto simp: cursor_le_def known_def split: option.splits)
      assume "visit_ok n s" "cursor_ok (vd_messages s) c"
      moreover from this have "last_sequence k s = int (length (messages_of k (vd_messages s)))"
        by (intro last_sequence_numbered) (simp add: visit_ok_def chat_ok_def)
      ultimately show "cursor_ok (vd_messages s) (if hc_id c = k then ?f c else c)"
        by (auto simp: cursor_ok_def advance_def split: option.splits)
    qed
  qed
qed

lemma hide_sound: "hide_human_conversation_for_participant k user now s = (x, s') \<Longrightarrow> sound n s s'"
proof -
  assume a: "hide_human_conversation_for_participant k user now s = (x, s')"
  show ?thesis
  proof (cases "\<exists>c0. lock_human_conversation k s = Some c0 \<and> participant user c0")
    case False
    with a have "s' = s" by (auto simp: hide_human_conversation_for_participant_def split: option.splits if_splits)
    then show ?thesis by (simp add: sound_refl)
  next
    case True
    then obtain c0 where c0: "lock_human_conversation k s = Some c0" "participant user c0" by blast
    let ?t = "\<lambda>v. case v of None \<Rightarrow> Some now | Some t \<Rightarrow> Some t"
    let ?f = "\<lambda>c::human_conversation. if hc_owner c0 = user then c\<lparr>hc_owner_hidden := ?t (hc_owner_hidden c), hc_updated := now\<rparr>
      else c\<lparr>hc_visitor_hidden := ?t (hc_visitor_hidden c), hc_updated := now\<rparr>"
    from a c0 have s': "s' = s\<lparr>vd_conversations := update_where (\<lambda>c. hc_id c = k) ?f (vd_conversations s)\<rparr>"
      by (auto simp: hide_human_conversation_for_participant_def Let_def)
    show ?thesis
      by (rule conversations_sound [OF s'])
        (auto simp: conversation_row_step_def human_conversation_transition_allowed_def kept_time_def cursor_le_def known_def
          cursor_ok_def split: option.splits)
  qed
qed

lemma report_sound:
  assumes "insert_human_chat_report rid k a b m reason details evidence now s = Inr (r, s')"
  shows "sound n s s'"
proof -
  from assms obtain r0 where s': "s' = s\<lparr>vd_reports := vd_reports s @ [r0]\<rparr>"
    by (auto simp: insert_human_chat_report_def Let_def split: option.splits if_splits)
  show ?thesis
    by (rule soundI) (simp_all add: s' visit_ok_def evolves_def grown_refl row_refl talked_def world_kept_def)
qed

section \<open>The companion world beside it\<close>

lemma world_sound:
  assumes s': "s' = s\<lparr>vd_world := w\<rparr>" and kept: "world_kept (vd_world s) w"
  shows "sound n s s'"
  using kept by (intro soundI)
    (auto simp: s' visit_ok_def invites_ok_def visits_ok_def visit_row_ok_def world_kept_def evolves_def grown_refl row_refl talked_def)

lemma reference_media_universes: "reference_media review owner ids w = Inr w' \<Longrightarrow> universes w' = universes w"
  by (induction ids arbitrary: w) (auto split: if_splits)

lemma reference_message_media_world:
  "reference_message_media review media user s = Inr s' \<Longrightarrow> \<exists>w. s' = s\<lparr>vd_world := w\<rparr> \<and> universes w = universes (vd_world s)"
  by (auto simp: reference_message_media_def mark_media_assets_referenced_def Let_def
      split: option.splits sum.splits err.splits if_splits dest: reference_media_universes intro: exI [of _ "vd_world s"])

end
