(* ===== verification/Visit_Steps.thy ===== *)
theory Visit_Steps
imports Visit_Chat_Laws
begin

text \<open>
  The histories of visits: one step is one transaction of any user or of the scheduled expiry, in any
  order; \<open>pol\<close> is the policy the services run with. Every step keeps the invariant and moves rows only
  as \<open>evolves\<close> allows, and the operations that run several transactions are histories of steps.
\<close>

section \<open>The operations\<close>

lemma sound_if: "(visit_ok n s \<Longrightarrow> sound n s s') \<Longrightarrow> sound n s s'"
  by (simp add: sound_def)

text \<open>What a transaction leaves if it returns, and what an operation leaves that always does.\<close>

abbreviation safe :: "int \<Rightarrow> visit_db \<Rightarrow> err + 'a \<times> visit_db \<Rightarrow> bool" where
  "safe n s \<equiv> res_all (\<lambda>r. sound n s (snd r))"

lemma create_invite_safe: "safe n s (create_invite pol sha code iid user now s)"
  unfolding create_invite_def
  apply (rule res_all_bind)
  apply (rule res_all_sum)
  subgoal for w e by (cases e) simp_all
  apply (rule res_all_prod)
  apply (auto simp: and_then_Inr split: if_splits intro: insert_invite_sound)
  done

lemma revoke_invite_safe: "safe n s (revoke_invite user iid now s)"
  unfolding revoke_invite_def
  apply (intro res_all_rules)
  subgoal for w e by (auto split: err.splits)
  by (auto intro: close_invite_sound)

lemma expire_invite_safe: "safe n s (expire_invite_candidate c now s)"
  unfolding expire_invite_candidate_def
  by (intro res_all_rules) (auto simp: sound_refl intro: close_invite_sound)

lemma open_count: "visit_ok n s \<Longrightarrow> count_open_universe_visits_for_visitor user s = open_of user (vd_visits s)"
proof -
  assume "visit_ok n s"
  then have "\<forall>v \<in> set (vd_visits s). in_mingchan (vi_world v) s"
    by (simp add: visit_ok_def visits_ok_def visit_row_ok_def in_mingchan_def)
  then show ?thesis unfolding count_open_universe_visits_for_visitor_def open_of_def count_where_def
    by (metis (mono_tags, lifting) filter_cong)
qed

lemma redeem_locked_safe: "safe (vp_visitor_limit pol) s (redeem_locked pol h vid w user now s)"
proof -
  have new: "sound (vp_visitor_limit pol) s s'"
    if "insert_pending_universe_visit vid (wi_id i) (wi_world i) (wi_owner i) user t u s = Inr (v, s')"
      "\<not> has_platform_user_block (wi_owner i) user s"
      "\<not> vp_visitor_limit pol \<le> int (count_open_universe_visits_for_visitor user s)" for i t u v s'
  proof (rule sound_if)
    assume "visit_ok (vp_visitor_limit pol) s"
    from open_count [OF this, of user] show "sound (vp_visitor_limit pol) s s'"
      using that by (intro insert_pending_sound [OF that(1)]) (simp_all add: has_block_pair)
  qed
  show ?thesis
    unfolding redeem_locked_def
    apply (intro res_all_rules)
    subgoal by (auto intro: close_invite_sound)
    subgoal for a b i e by (cases e) simp_all
    subgoal by (auto intro: new)
    done
qed

lemma redeem_sound: "out_all (sound (vp_visitor_limit pol) s) (redeem pol sha vid user code now s)"
  unfolding redeem_def Let_def
  by (intro out_all_rules) (auto simp: sound_refl dest: res_allD [OF redeem_locked_safe])

lemma accept_locked_safe: "safe n s (accept_locked pol cid k user now p s)"
  unfolding accept_locked_def
  by (intro res_all_rules) (auto simp: sound_refl visit_transition_allowed_def intro: end_visit_sound accept_sound)

lemma accept_op_sound: "out_all (sound n s) (accept pol cid user k now s)"
  unfolding accept_def
  by (intro out_all_rules) (auto simp: sound_refl dest: res_allD [OF accept_locked_safe])

lemma visit_rule_allowed: "visit_rule a = Some (role, e, t) \<Longrightarrow> visit_transition_allowed e t"
  by (auto simp: visit_rule_def visit_transition_allowed_def split: if_splits)

lemma ended_safe: "visit_transition_allowed e t \<Longrightarrow> safe n s (mark_universe_visit_terminal k e t now why s)"
  by (cases "mark_universe_visit_terminal k e t now why s") (auto intro: end_visit_sound)

lemma terminate_safe: "safe n s (terminate user k action now s)"
  unfolding terminate_def
  by (intro res_all_rules) (auto simp: sound_refl intro: ended_safe visit_rule_allowed)

lemma expire_allowed: "is_open v \<Longrightarrow> visit_transition_allowed (vi_status v) ''expired''"
  by (auto simp: is_open_def VISIT_OPEN_STATUSES_def visit_transition_allowed_def)

lemma expire_visit_safe: "safe n s (expire_visit_candidate c now s)"
  unfolding expire_visit_candidate_def
  by (intro res_all_rules) (simp_all only: snd_conv sound_refl end_visit_sound expire_allowed not_not)

lemma feed_locked_safe: "safe n s (visit_feed_locked user k now a i l p s)"
  unfolding visit_feed_locked_def
  apply (intro res_all_rules)
  subgoal by (auto simp: visit_transition_allowed_def intro: end_visit_sound)
  subgoal by (auto simp: visit_transition_allowed_def intro: end_visit_sound)
  subgoal for a b v e by (cases e) simp_all
  subgoal by (simp add: sound_refl)
  done

lemma feed_sound: "out_all (sound n s) (list_visit_feed user k now a i l s)"
  unfolding list_visit_feed_def
  by (auto simp: out_all_def sound_refl split: option.splits sum.splits prod.splits visit_feed.splits
      dest: res_allD [OF feed_locked_safe])

lemma sound_after_world:
  assumes "s1 = s\<lparr>vd_world := w\<rparr>" and u: "universes w = universes (vd_world s)" and "sound n s1 s'"
  shows "sound n s s'"
proof (rule soundI)
  have app: "in_app i w = in_app i (vd_world s)" for i by (simp add: in_app_def u)
  assume "visit_ok n s"
  then have "visit_ok n s1"
    unfolding assms(1) visit_ok_def invites_ok_def visits_ok_def visit_row_ok_def by (simp add: app)
  with assms(3) have 1: "visit_ok n s'" "evolves visit_once s1 s'" by (simp_all add: sound_def)
  then show "visit_ok n s'" by simp
  show "evolves visit_once s s'" using 1(2) by (simp add: assms(1) evolves_def talked_def world_kept_def app)
qed

lemma message_safe:
  assumes c: "lock_human_conversation k s = Some c" "participant user c" "hc_status c = ''active''"
    and m: "reference_message_media review media user s = Inr s1"
    and i: "insert_human_message mid k user client body media now s1 = Inr (y, s')"
  shows "sound n s s'"
proof -
  from reference_message_media_world [OF m] obtain w where w: "s1 = s\<lparr>vd_world := w\<rparr>" "universes w = universes (vd_world s)"
    by blast
  have "c \<in> set (vd_conversations s1)" "hc_id c = k" using c(1) w(1) by (auto simp: lock_human_conversation_def dest: find_row_Some)
  with i show ?thesis by (cases y) (auto intro!: sound_after_world [OF w] insert_message_sound c(2,3))
qed

lemma active_ends:
  "mark_universe_visit_terminal k ''active'' ''expired'' t why s = Inr (x, s') \<Longrightarrow> sound n s s'"
  "mark_universe_visit_terminal k ''active'' ''blocked'' t why s = Inr (x, s') \<Longrightarrow> sound n s s'"
  by (erule end_visit_sound, simp add: visit_transition_allowed_def)+

lemma send_locked_safe: "safe n s (send_locked review mid user k client body media now enabled visit s)"
  unfolding send_locked_def
  by (intro res_all_rules) (auto simp: sound_refl intro: active_ends message_safe split: err.splits)

lemma send_sound: "out_all (sound n s) (send_message review mid user k client txt media now enabled s)"
  unfolding send_message_def
  by (auto simp: out_all_def sound_refl split: option.splits sum.splits prod.splits dest: res_allD [OF send_locked_safe])

lemma mark_read_op_sound: "out_all (sound n s) (mark_read user k now s)"
  unfolding mark_read_def
  by (auto simp: out_all_def sound_refl split: option.splits prod.splits dest: mark_read_sound)

lemma hide_op_sound: "out_all (sound n s) (hide_conversation user k now s)"
  unfolding hide_conversation_def by (auto simp: out_all_def split: option.splits prod.splits dest: hide_sound)

section \<open>Histories\<close>

inductive visit_step :: "visit_policy \<Rightarrow> visit_db \<Rightarrow> visit_db \<Rightarrow> bool" for pol :: visit_policy where
  invite: "create_invite pol sha code iid user now s = Inr (i, s') \<Longrightarrow> visit_step pol s s'"
| revoke: "revoke_invite user iid now s = Inr (i, s') \<Longrightarrow> visit_step pol s s'"
| expire_invite: "expire_invite_candidate c now s = Inr (b, s') \<Longrightarrow> visit_step pol s s'"
| redeem: "redeem pol sha vid user code now s = (v, s') \<Longrightarrow> visit_step pol s s'"
| accept: "accept pol cid user k now s = (a, s') \<Longrightarrow> visit_step pol s s'"
| terminate: "terminate user k action now s = Inr (v, s') \<Longrightarrow> visit_step pol s s'"
| expire_visit: "expire_visit_candidate v now s = Inr (b, s') \<Longrightarrow> visit_step pol s s'"
| feed: "list_visit_feed user k now cursor_at cursor_id limit s = (f, s') \<Longrightarrow> visit_step pol s s'"
| block: "block_user user k now s = Inr (n, s') \<Longrightarrow> visit_step pol s s'"
| send: "send_message review mid user k client txt media now enabled s = (m, s') \<Longrightarrow> visit_step pol s s'"
| read: "mark_read user k now s = (x, s') \<Longrightarrow> visit_step pol s s'"
| hide: "hide_conversation user k now s = (x, s') \<Longrightarrow> visit_step pol s s'"
| report: "insert_human_chat_report rid k a b' m reason details evidence now s = Inr (r, s') \<Longrightarrow> visit_step pol s s'"
| world: "world_kept (vd_world s) w \<Longrightarrow> visit_step pol s (s\<lparr>vd_world := w\<rparr>)"

text \<open>\<open>world\<close> is every transaction on the tables of the companion world: a world keeps its product.\<close>

lemma out_all_after: "out_all P r \<Longrightarrow> r = (x, s) \<Longrightarrow> P s"
  by (simp add: out_all_def)

lemma safeD: "safe n s m \<Longrightarrow> m = Inr (x, s') \<Longrightarrow> sound n s s'"
  by simp

lemmas step_sounds = safeD [OF create_invite_safe] safeD [OF revoke_invite_safe] safeD [OF expire_invite_safe]
  out_all_after [OF redeem_sound] out_all_after [OF accept_op_sound] safeD [OF terminate_safe] safeD [OF expire_visit_safe]
  out_all_after [OF feed_sound] block_user_sound out_all_after [OF send_sound] out_all_after [OF mark_read_op_sound]
  out_all_after [OF hide_op_sound] report_sound

lemma step_sound: "visit_step pol s s' \<Longrightarrow> sound (vp_visitor_limit pol) s s'"
  by (induction rule: visit_step.induct) (erule step_sounds | rule world_sound; simp)+

lemma step_ok: "visit_step pol s s' \<Longrightarrow> visit_ok (vp_visitor_limit pol) s \<Longrightarrow> visit_ok (vp_visitor_limit pol) s'"
  using step_sound by (auto simp: sound_def)

lemma step_evolves: "visit_step pol s s' \<Longrightarrow> visit_ok (vp_visitor_limit pol) s \<Longrightarrow> evolves visit_once s s'"
  using step_sound by (auto simp: sound_def)

lemma reach_ok: "(visit_step pol)\<^sup>*\<^sup>* s s' \<Longrightarrow> visit_ok (vp_visitor_limit pol) s \<Longrightarrow> visit_ok (vp_visitor_limit pol) s'"
  by (induction rule: rtranclp_induct) (auto intro: step_ok)

lemma reach_evolves: "(visit_step pol)\<^sup>*\<^sup>* s s' \<Longrightarrow> visit_ok (vp_visitor_limit pol) s \<Longrightarrow> evolves visit_row s s'"
proof (induction rule: rtranclp_induct)
  case base
  then show ?case by (simp add: evolves_refl row_refl)
next
  case (step t u)
  have "evolves visit_row t u" using step_evolves [OF step.hyps(2) reach_ok [OF step.hyps(1) step.prems]] by (rule evolves_once)
  with step.IH [OF step.prems] show ?case by (rule evolves_trans) (rule row_trans)
qed

text \<open>The state the migration leaves: no visits yet, beside any companion world.\<close>

definition no_visits :: "world_db \<Rightarrow> visit_db" where
  "no_visits w = \<lparr>vd_world = w, vd_slots = [], vd_invites = [], vd_visits = [], vd_conversations = [], vd_messages = [],
     vd_blocks = [], vd_reports = []\<rparr>"

definition visits_reachable :: "visit_policy \<Rightarrow> visit_db \<Rightarrow> bool" where
  "visits_reachable pol s = (\<exists>w. (visit_step pol)\<^sup>*\<^sup>* (no_visits w) s)"

lemma no_visits_ok: "visit_ok n (no_visits w)"
  by (simp add: no_visits_def visit_ok_def slots_ok_def invites_ok_def visits_ok_def talk_ok_def chat_ok_def peace_ok_def
      limit_ok_def open_of_def held_def open_invites_def open_visits_def messages_of_def numbered_def)

lemma reachable_ok: "visits_reachable pol s \<Longrightarrow> visit_ok (vp_visitor_limit pol) s"
  using reach_ok no_visits_ok by (auto simp: visits_reachable_def)

lemma reachable_step: "visits_reachable pol s \<Longrightarrow> visit_step pol s s' \<Longrightarrow> visits_reachable pol s'"
  unfolding visits_reachable_def by (blast intro: rtranclp.rtrancl_into_rtrancl)

lemma reachable_start: "visits_reachable pol (no_visits w)"
  by (auto simp: visits_reachable_def)

section \<open>Operations of several transactions\<close>

lemma expire_each_steps:
  assumes "\<And>c t b t'. f c t = Inr (b, t') \<Longrightarrow> visit_step pol t t'"
  shows "(visit_step pol)\<^sup>*\<^sup>* s (snd (expire_each f cs s))"
proof (induction cs arbitrary: s)
  case Nil
  then show ?case by simp
next
  case (Cons c cs)
  show ?case
  proof (cases "f c s")
    case (Inl e)
    then show ?thesis by simp
  next
    case (Inr r)
    then have "visit_step pol s (snd r)" using assms by (cases r) simp
    with Cons [of "snd r"] Inr show ?thesis
      by (auto split: prod.splits sum.splits intro: converse_rtranclp_into_rtranclp)
  qed
qed

lemma list_invites_current_steps: "(visit_step pol)\<^sup>*\<^sup>* s (snd (list_invites_current user now s))"
proof -
  have "(visit_step pol)\<^sup>*\<^sup>* s (snd (expire_each (\<lambda>c. expire_invite_candidate c now) cs s))" for cs
    by (rule expire_each_steps) (rule expire_invite)
  then show ?thesis by (auto simp: list_invites_current_def split: prod.splits sum.splits) (metis snd_conv)+
qed

lemma expire_listed_visits_steps: "(visit_step pol)\<^sup>*\<^sup>* s (snd (expire_listed_visits user now s))"
  unfolding expire_listed_visits_def by (rule expire_each_steps) (rule expire_visit)

lemma list_visits_current_steps: "(visit_step pol)\<^sup>*\<^sup>* s (snd (list_visits_current user now statuses s))"
  using expire_listed_visits_steps [of pol s user now]
  by (auto simp: list_visits_current_def split: prod.splits sum.splits)

lemma list_conversations_steps: "(visit_step pol)\<^sup>*\<^sup>* s (snd (list_conversations user now enabled s))"
  using list_visits_current_steps [of pol s user now "[]"]
  by (auto simp: list_conversations_def split: prod.splits sum.splits)

lemma list_chat_messages_steps: "(visit_step pol)\<^sup>*\<^sup>* s (snd (list_chat_messages user k now a i limit s))"
  using list_visits_current_steps [of pol s user now "[]"]
  by (auto simp: list_chat_messages_def split: prod.splits sum.splits option.splits)

lemma report_conversation_steps:
  "(visit_step pol)\<^sup>*\<^sup>* s (snd (report_conversation rid user k m reason details after now s))"
  by (auto simp: report_conversation_def Let_def split: prod.splits sum.splits option.splits
      intro: report block converse_rtranclp_into_rtranclp r_into_rtranclp)

lemma block_conversation_step: "block_conversation user k now s = Inr (n, s') \<Longrightarrow> visit_step pol s s'"
  by (auto simp: block_conversation_def split: option.splits intro: block)

lemma maintain_expiry_steps: "(visit_step pol)\<^sup>*\<^sup>* s (snd (maintain_expiry_batch now batch s))"
proof -
  have a: "(visit_step pol)\<^sup>*\<^sup>* s (snd (expire_each (\<lambda>c. expire_invite_candidate c now) cs s))" for cs s
    by (rule expire_each_steps) (rule expire_invite)
  have b: "(visit_step pol)\<^sup>*\<^sup>* s (snd (expire_each (\<lambda>c. expire_visit_candidate c now) vs s))" for vs s
    by (rule expire_each_steps) (rule expire_visit)
  have two: "(visit_step pol)\<^sup>*\<^sup>* s s2" if "expire_each (\<lambda>c. expire_invite_candidate c now) cs s = (r1, s1)"
    "expire_each (\<lambda>c. expire_visit_candidate c now) vs s1 = (r2, s2)" for cs vs s1 s2 r1 r2
    by (rule rtranclp_trans [of _ s s1]) (use a [of s cs] b [of s1 vs] that in simp_all)
  have one: "(visit_step pol)\<^sup>*\<^sup>* s s1" if "expire_each (\<lambda>c. expire_invite_candidate c now) cs s = (r1, s1)" for cs s1 r1
    using a [of s cs] that by simp
  show ?thesis by (auto simp: maintain_expiry_batch_def Let_def split: prod.splits sum.splits intro: one two)
qed

section \<open>The life of a visit, an invite and a message\<close>

definition find_visit :: "string \<Rightarrow> visit_db \<Rightarrow> world_visit option" where
  "find_visit k s = find_row (\<lambda>v. vi_id v = k) (vd_visits s)"

definition find_invite :: "string \<Rightarrow> visit_db \<Rightarrow> world_invite option" where
  "find_invite k s = find_row (\<lambda>i. wi_id i = k) (vd_invites s)"

definition invite_stage :: "world_invite \<Rightarrow> nat" where
  "invite_stage i = (if wi_status i = ''active'' then 0 else 1)"

definition find_message :: "string \<Rightarrow> visit_db \<Rightarrow> human_message option" where
  "find_message k s = find_row (\<lambda>m. hm_id m = k) (vd_messages s)"

lemma visit_kept:
  assumes "visit_ok (vp_visitor_limit pol) s" "visit_step pol s s'" "find_visit k s = Some v"
  shows "\<exists>v'. find_visit k s' = Some v' \<and> visit_once v v'"
proof -
  have "grown visit_once (vd_visits s) (vd_visits s')" using step_evolves [OF assms(2,1)] by (simp add: evolves_def)
  from grown_find [OF this, of "\<lambda>v. vi_id v = k"] assms(3) show ?thesis
    by (fastforce simp: find_visit_def visit_once_def same_visit_def)
qed

lemma invite_kept:
  assumes "visit_ok (vp_visitor_limit pol) s" "visit_step pol s s'" "find_invite k s = Some i"
  shows "\<exists>i'. find_invite k s' = Some i' \<and> invite_row i i'"
proof -
  have "grown invite_row (vd_invites s) (vd_invites s')" using step_evolves [OF assms(2,1)] by (simp add: evolves_def)
  from grown_find [OF this, of "\<lambda>i. wi_id i = k"] assms(3) show ?thesis
    by (fastforce simp: find_invite_def invite_row_def same_invite_def)
qed

lemma message_kept:
  assumes "visit_ok (vp_visitor_limit pol) s" "visit_step pol s s'" "find_message k s = Some m"
  shows "find_message k s' = Some m"
  using step_evolves [OF assms(2,1)] assms(3) by (auto simp: evolves_def talked_def find_message_def find_row_append)

interpretation visit_life: lifecycle "visit_ok (vp_visitor_limit pol)" "visit_step pol" find_visit vi_status visit_stage 2
proof
  fix s s' k v
  assume ok: "visit_ok (vp_visitor_limit pol) s"
  { assume st: "visit_step pol s s'"
    then show "visit_ok (vp_visitor_limit pol) s'" using ok by (rule step_ok)
    assume v: "find_visit k s = Some v"
    from visit_kept [OF ok st v] obtain v' where v': "find_visit k s' = Some v'" "visit_once v v'" by blast
    then show "\<exists>v'. find_visit k s' = Some v' \<and>
        (vi_status v' = vi_status v \<and> visit_stage v' = visit_stage v \<or> visit_stage v < visit_stage v')"
      by (auto simp: visit_once_def visit_transition_allowed_def visit_stage_def split: if_splits)
    assume "visit_stage v = 2"
    with v' show "find_visit k s' = Some v"
      by (auto simp: visit_once_def visit_transition_allowed_def visit_stage_def split: if_splits) }
  show "visit_stage v \<le> 2" by (simp add: visit_stage_def)
qed

interpretation invite_life: lifecycle "visit_ok (vp_visitor_limit pol)" "visit_step pol" find_invite wi_status invite_stage 1
proof
  fix s s' k i
  assume ok: "visit_ok (vp_visitor_limit pol) s"
  { assume st: "visit_step pol s s'"
    then show "visit_ok (vp_visitor_limit pol) s'" using ok by (rule step_ok)
    assume i: "find_invite k s = Some i"
    from invite_kept [OF ok st i] obtain i' where i': "find_invite k s' = Some i'" "invite_row i i'" by blast
    then show "\<exists>i'. find_invite k s' = Some i' \<and>
        (wi_status i' = wi_status i \<and> invite_stage i' = invite_stage i \<or> invite_stage i < invite_stage i')"
      by (auto simp: invite_row_def invite_stage_def)
    assume "invite_stage i = 1"
    with i' show "find_invite k s' = Some i" by (auto simp: invite_row_def invite_stage_def split: if_splits) }
  show "invite_stage i \<le> 1" by (simp add: invite_stage_def)
qed

interpretation message_life: lifecycle "visit_ok (vp_visitor_limit pol)" "visit_step pol" find_message hm_body "\<lambda>_. 0" 0
proof
  fix s s' k m
  assume ok: "visit_ok (vp_visitor_limit pol) s"
  { assume st: "visit_step pol s s'"
    then show "visit_ok (vp_visitor_limit pol) s'" using ok by (rule step_ok)
    assume m: "find_message k s = Some m"
    with ok st show "find_message k s' = Some m" by (rule message_kept)
    then show "\<exists>m'. find_message k s' = Some m' \<and> (hm_body m' = hm_body m \<and> (0::nat) = 0 \<or> (0::nat) < 0)" by simp }
qed simp

end
