(* ===== verification/Visit_Expiry.thy ===== *)
theory Visit_Expiry
imports Visit_Steps
begin

text \<open>
  The scheduled expiry. \<open>expiry\<close> is what the loop \<open>expire_each\<close> needs of the transaction of one
  candidate: it returns, keeps the invariant, and its candidate is no longer due. It is interpreted on
  the transactions for invites and for visits; the batch then leaves nothing due.
\<close>

section \<open>The contract of one candidate\<close>

locale expiry =
  fixes one :: "'c \<Rightarrow> visit_db \<Rightarrow> (bool \<times> visit_db) res"
    and inv :: "visit_db \<Rightarrow> bool"
    and stored :: "'c \<Rightarrow> visit_db \<Rightarrow> bool"
    and due :: "visit_db \<Rightarrow> string set"
    and key :: "'c \<Rightarrow> string"
    and rest :: "visit_db \<Rightarrow> 'x"
  assumes returns: "inv s \<Longrightarrow> stored c s \<Longrightarrow> \<exists>b s'. one c s = Inr (b, s')"
    and keeps: "inv s \<Longrightarrow> stored c s \<Longrightarrow> one c s = Inr (b, s') \<Longrightarrow> inv s' \<and> rest s' = rest s \<and> (\<forall>d. stored d s \<longrightarrow> stored d s')"
    and clears: "inv s \<Longrightarrow> stored c s \<Longrightarrow> one c s = Inr (b, s') \<Longrightarrow> due s' \<subseteq> due s - {key c}"
begin

lemma loop_clears:
  "inv s \<Longrightarrow> \<forall>c \<in> set cs. stored c s \<Longrightarrow>
     \<exists>n s'. expire_each one cs s = (Inr n, s') \<and> inv s' \<and> rest s' = rest s \<and> due s' \<subseteq> due s - key ` set cs"
proof (induction cs arbitrary: s)
  case Nil
  then show ?case by simp
next
  case (Cons c cs)
  then obtain b s1 where 1: "one c s = Inr (b, s1)" using returns by fastforce
  note kept = keeps [OF Cons.prems(1) _ 1] clears [OF Cons.prems(1) _ 1]
  have "\<forall>d \<in> set cs. stored d s1" "inv s1" "rest s1 = rest s" "due s1 \<subseteq> due s - {key c}"
    using kept Cons.prems(2) by simp_all
  moreover from Cons.IH [OF this(2,1)] obtain n s' where
    "expire_each one cs s1 = (Inr n, s')" "inv s'" "rest s' = rest s1" "due s' \<subseteq> due s1 - key ` set cs" by blast
  ultimately show ?case using 1 by auto
qed

end

section \<open>Invites\<close>

definition due_invite :: "int \<Rightarrow> world_invite \<Rightarrow> bool" where
  "due_invite now i = (wi_status i = ''active'' \<and> wi_expires i \<le> db_time now)"

definition due_visit :: "int \<Rightarrow> world_visit \<Rightarrow> bool" where
  "due_visit now v = ((vi_status v = ''pending'' \<and> vi_pending_expires v \<le> db_time now) \<or>
     (vi_status v = ''active'' \<and> known (\<lambda>t. t \<le> db_time now) (vi_expires v)))"

text \<open>The foreign keys to the users of the platform.\<close>

definition users_present :: "visit_db \<Rightarrow> bool" where
  "users_present s = ((\<forall>i \<in> set (vd_invites s). user_row (wi_owner i) s \<noteq> None) \<and>
     (\<forall>v \<in> set (vd_visits s). user_row (vi_visitor v) s \<noteq> None))"

lemma is_due_iff: "is_due now (Some e) \<longleftrightarrow> e \<le> db_time now"
  unfolding is_due_def parse_time_def db_time_def known_def by auto

lemma user_locked: "user_row u s \<noteq> None \<Longrightarrow> \<exists>p. lock_platform_user_for_visit u s = Inr p"
  by (auto simp: lock_platform_user_for_visit_def)

lemma world_locked:
  assumes "in_app w db"
  shows "\<exists>u. lock_universe w db = Inr u"
proof -
  from assms obtain u where "u \<in> set (universes db)" "uv_id u = w \<and> uv_app u = MINGCHAN_APP_ID" by (auto simp: in_app_def list_ex_iff)
  from find_row_ex [where p = "\<lambda>u. uv_id u = w \<and> uv_app u = MINGCHAN_APP_ID", OF this] show ?thesis by (auto simp: lock_universe_def)
qed

lemma stored_hash:
  assumes "visit_ok n s" and "i \<in> set (vd_invites s)"
  shows "get_universe_invite_by_code_hash (wi_hash i) s = Some i"
proof -
  have "unique_on (\<lambda>_. True) wi_hash (vd_invites s)" "in_mingchan (wi_world i) s"
    using assms by (simp_all add: visit_ok_def invites_ok_def in_mingchan_def)
  then show ?thesis unfolding get_universe_invite_by_code_hash_def
    using assms(2) by (intro find_row_unique) (auto dest: unique_onD)
qed

lemma stored_owner:
  assumes "visit_ok n s" and "i \<in> set (vd_invites s)"
  shows "get_universe_invite_for_owner (wi_id i) (wi_owner i) s = Some i"
proof -
  have "unique_on (\<lambda>_. True) wi_id (vd_invites s)" "in_mingchan (wi_world i) s"
    using assms by (simp_all add: visit_ok_def invites_ok_def in_mingchan_def)
  then show ?thesis unfolding get_universe_invite_for_owner_def
    using assms(2) by (intro find_row_unique) (auto dest: unique_onD)
qed

text \<open>An active invite expires: its row is marked and its slot is free again.\<close>

definition expired_invite :: "world_invite \<Rightarrow> int \<Rightarrow> visit_db \<Rightarrow> visit_db" where
  "expired_invite i now s = s\<lparr>vd_invites := update_where (\<lambda>x. wi_id x = wi_id i \<and> wi_status x = ''active'')
       (\<lambda>x. x\<lparr>wi_status := ''expired'', wi_updated := now\<rparr>) (vd_invites s),
     vd_slots := vacate (wi_world i) ''invite'' (wi_id i) (vd_slots s)\<rparr>"

lemma expire_invite_effect:
  assumes "visit_ok n s" and "i \<in> set (vd_invites s)" and "wi_status i = ''active''"
  shows "\<exists>x. mark_universe_invite_terminal (wi_id i) (wi_owner i) ''expired'' now s = Inr (x, expired_invite i now s)"
  using stored_owner [OF assms(1,2)] assms(3)
  by (simp add: mark_universe_invite_terminal_def expired_invite_def Let_def)

lemma expire_invite_eq:
  assumes "visit_ok n s" and "i \<in> set (vd_invites s)" and "same_invite c i" and "user_row (wi_owner i) s \<noteq> None"
  shows "expire_invite_candidate c now s = Inr (if due_invite now i then (True, expired_invite i (db_time now) s) else (False, s))"
proof -
  have c: "wi_owner c = wi_owner i" "wi_world c = wi_world i" "wi_hash c = wi_hash i" using assms(3) by (auto simp: same_invite_def)
  obtain p where p: "lock_platform_user_for_visit (wi_owner i) s = Inr p" using user_locked [OF assms(4)] ..
  have "in_app (wi_world i) (vd_world s)" using assms(1,2) by (simp add: visit_ok_def invites_ok_def)
  then obtain u where u: "lock_universe (wi_world i) (vd_world s) = Inr u" using world_locked by blast
  show ?thesis
  proof (cases "due_invite now i")
    case True
    then obtain x where "mark_universe_invite_terminal (wi_id i) (wi_owner i) ''expired'' (db_time now) s =
        Inr (x, expired_invite i (db_time now) s)"
      using expire_invite_effect [OF assms(1,2)] by (auto simp: due_invite_def)
    with True show ?thesis
      by (simp add: expire_invite_candidate_def c p u stored_hash [OF assms(1,2)] is_due_iff due_invite_def)
  next
    case False
    then show ?thesis
      by (auto simp: expire_invite_candidate_def c p u stored_hash [OF assms(1,2)] is_due_iff due_invite_def)
  qed
qed

lemma user_row_same: "vd_world s' = vd_world s \<Longrightarrow> user_row u s' = user_row u s"
  by (simp add: user_row_def)

definition invite_stored :: "world_invite \<Rightarrow> visit_db \<Rightarrow> bool" where
  "invite_stored c s = (\<exists>i \<in> set (vd_invites s). same_invite c i)"

definition due_invites :: "int \<Rightarrow> visit_db \<Rightarrow> string set" where
  "due_invites now s = wi_id ` {i \<in> set (vd_invites s). due_invite now i}"

definition present :: "int \<Rightarrow> visit_db \<Rightarrow> bool" where
  "present n s = (visit_ok n s \<and> users_present s)"

lemma invite_stays:
  "sound n s s' \<Longrightarrow> visit_ok n s \<Longrightarrow> invite_stored c s \<Longrightarrow> invite_stored c s'"
proof -
  assume "sound n s s'" "visit_ok n s" "invite_stored c s"
  then obtain i where i: "i \<in> set (vd_invites s)" "same_invite c i" and g: "grown invite_row (vd_invites s) (vd_invites s')"
    by (auto simp: sound_def evolves_def invite_stored_def)
  from grown_member [OF g i(1)] obtain j where "j \<in> set (vd_invites s')" "invite_row i j" by blast
  moreover from this(2) i(2) have "same_invite c j" by (auto simp: invite_row_def same_invite_def)
  ultimately show "invite_stored c s'" by (auto simp: invite_stored_def)
qed

lemma expired_users: "users_present s \<Longrightarrow> users_present (expired_invite i t s)"
  by (auto simp: users_present_def expired_invite_def set_update_where user_row_def)

lemma expired_due: "due_invites now (expired_invite i t s) \<subseteq> due_invites now s - {wi_id i}"
  by (auto simp: due_invites_def expired_invite_def set_update_where due_invite_def)

text \<open>What the transaction of a stored candidate does.\<close>

lemma expire_invite_stored:
  assumes "present n s" and "invite_stored c s"
  obtains i where "i \<in> set (vd_invites s)" "wi_id i = wi_id c"
    "expire_invite_candidate c now s = Inr (if due_invite now i then (True, expired_invite i (db_time now) s) else (False, s))"
proof -
  from assms obtain i where i: "i \<in> set (vd_invites s)" "same_invite c i" by (auto simp: invite_stored_def)
  with assms have "user_row (wi_owner i) s \<noteq> None" by (auto simp: present_def users_present_def)
  with assms i have "expire_invite_candidate c now s = Inr (if due_invite now i then (True, expired_invite i (db_time now) s) else (False, s))"
    by (intro expire_invite_eq) (auto simp: present_def)
  with i that show ?thesis by (auto simp: same_invite_def)
qed

interpretation invite_expiry: expiry "\<lambda>c. expire_invite_candidate c now" "present n" invite_stored "due_invites now" wi_id
  "\<lambda>s. (vd_world s, vd_visits s)"
proof
  fix s c b s'
  assume p: "present n s" and c: "invite_stored c s"
  from expire_invite_stored [OF p c, of now] obtain i where i: "i \<in> set (vd_invites s)" "wi_id i = wi_id c"
    and eq: "expire_invite_candidate c now s = Inr (if due_invite now i then (True, expired_invite i (db_time now) s) else (False, s))"
    by metis
  show "\<exists>b s'. expire_invite_candidate c now s = Inr (b, s')" by (simp add: eq)
  assume r: "expire_invite_candidate c now s = Inr (b, s')"
  then have s': "s' = (if due_invite now i then expired_invite i (db_time now) s else s)" by (auto simp: eq split: if_splits)
  have snd: "sound n s s'" using res_allD [OF expire_invite_safe r] by simp
  have ok: "visit_ok n s" "users_present s" using p by (simp_all add: present_def)
  have "visit_ok n s'" using snd ok(1) by (simp add: sound_def)
  moreover have "users_present s'" using ok(2) by (simp add: s' expired_users)
  ultimately show "present n s' \<and> (vd_world s', vd_visits s') = (vd_world s, vd_visits s) \<and>
      (\<forall>d. invite_stored d s \<longrightarrow> invite_stored d s')"
    using invite_stays [OF snd ok(1)] by (simp add: present_def s' expired_invite_def)
  show "due_invites now s' \<subseteq> due_invites now s - {wi_id c}"
  proof (cases "due_invite now i")
    case True
    then show ?thesis using expired_due [of now i "db_time now" s] i(2) by (simp add: s')
  next
    case False
    have "unique_on (\<lambda>_. True) wi_id (vd_invites s)" using ok(1) by (simp add: visit_ok_def invites_ok_def)
    from unique_onD [OF this i(1)] False i(2) show ?thesis by (auto simp: s' due_invites_def)
  qed
qed

section \<open>Visits\<close>

text \<open>An open visit expires: its row is marked, its slot is free again, its conversation is read-only.\<close>

definition expired_visit :: "world_visit \<Rightarrow> int \<Rightarrow> visit_db \<Rightarrow> visit_db" where
  "expired_visit v now s = s\<lparr>vd_visits := update_where (\<lambda>x. vi_id x = vi_id v \<and> vi_status x = vi_status v)
       (\<lambda>x. x\<lparr>vi_status := ''expired'', vi_terminal := Some now,
          vi_reason := Some (if vi_status v = ''pending'' then ''pending_expired'' else ''active_expired''), vi_updated := now\<rparr>)
       (vd_visits s),
     vd_slots := vacate (vi_world v) ''visit'' (vi_id v) (vd_slots s),
     vd_conversations := close_conversation (vi_id v) now (vd_conversations s)\<rparr>"

lemma stored_visit:
  assumes "visit_ok n s" and "v \<in> set (vd_visits s)"
  shows "get_universe_visit (vi_id v) s = Some v"
proof -
  have "unique_on (\<lambda>_. True) vi_id (vd_visits s)" "in_mingchan (vi_world v) s"
    using assms by (simp_all add: visit_ok_def visits_ok_def visit_row_ok_def in_mingchan_def)
  then show ?thesis unfolding get_universe_visit_def
    using assms(2) by (intro find_row_unique) (auto dest: unique_onD)
qed

lemma end_visit_effect:
  assumes "visit_ok n s" and "v \<in> set (vd_visits s)" and "is_open v"
  shows "\<exists>x. mark_universe_visit_terminal (vi_id v) (vi_status v) ''expired'' now
    (if vi_status v = ''pending'' then ''pending_expired'' else ''active_expired'') s = Inr (x, expired_visit v now s)"
proof -
  let ?why = "if vi_status v = ''pending'' then ''pending_expired'' else ''active_expired''"
  let ?q = "\<lambda>x. vi_id x = vi_id v \<and> vi_status x = vi_status v"
  let ?f = "\<lambda>x::world_visit. x\<lparr>vi_status := ''expired'', vi_terminal := Some now, vi_reason := Some ?why, vi_updated := now\<rparr>"
  have keys: "unique_on (\<lambda>_. True) vi_id (vd_visits s)" using assms(1) by (simp add: visit_ok_def visits_ok_def)
  have one: "count_where ?q (vd_visits s) = 1" using count_where_key [OF keys assms(2), of ?q] by simp
  have "find_row (\<lambda>x. vi_id x = vi_id v) (vd_visits s) = Some v"
    using assms(2) unique_onD [OF keys] by (intro find_row_unique) auto
  then have "find_row (\<lambda>x. vi_id x = vi_id v) (update_where ?q ?f (vd_visits s)) = Some (?f v)"
    by (subst find_row_update_where) simp_all
  then show ?thesis using one assms(3)
    by (simp add: mark_universe_visit_terminal_def expired_visit_def Let_def is_open_def VISIT_TERMINAL_STATUSES_def)
qed

lemma expire_visit_eq:
  assumes "visit_ok n s" and "v \<in> set (vd_visits s)" and "same_visit c v" and "user_row (vi_visitor v) s \<noteq> None"
  shows "expire_visit_candidate c now s = Inr (if due_visit now v then (True, expired_visit v (db_time now) s) else (False, s))"
proof -
  have c: "vi_visitor c = vi_visitor v" "vi_world c = vi_world v" "vi_id c = vi_id v" using assms(3) by (auto simp: same_visit_def)
  obtain p where p: "lock_platform_user_for_visit (vi_visitor v) s = Inr p" using user_locked [OF assms(4)] ..
  have "in_app (vi_world v) (vd_world s)" using assms(1,2) by (simp add: visit_ok_def visits_ok_def visit_row_ok_def)
  then obtain u where u: "lock_universe (vi_world v) (vd_world s) = Inr u" using world_locked by blast
  have due: "due_visit now v \<longleftrightarrow>
      is_open v \<and> is_due now (if vi_status v = ''pending'' then Some (vi_pending_expires v) else vi_expires v)"
    by (auto simp: due_visit_def is_open_def VISIT_OPEN_STATUSES_def is_due_iff)
      (auto simp: is_due_iff is_due_def parse_time_def known_def db_time_def split: option.splits)
  show ?thesis
  proof (cases "is_open v")
    case False
    then show ?thesis by (simp add: expire_visit_candidate_def c p u stored_visit [OF assms(1,2)] due)
  next
    case True
    from end_visit_effect [OF assms(1,2) True, of "db_time now"] obtain x where
      "mark_universe_visit_terminal (vi_id v) (vi_status v) ''expired'' (db_time now)
         (if vi_status v = ''pending'' then ''pending_expired'' else ''active_expired'') s = Inr (x, expired_visit v (db_time now) s)" ..
    then show ?thesis using True
      by (simp add: expire_visit_candidate_def c p u stored_visit [OF assms(1,2)] due if_distrib [of Inr] split del: if_split cong: if_cong)
  qed
qed

definition visit_stored :: "world_visit \<Rightarrow> visit_db \<Rightarrow> bool" where
  "visit_stored c s = (\<exists>v \<in> set (vd_visits s). same_visit c v)"

definition due_visits :: "int \<Rightarrow> visit_db \<Rightarrow> string set" where
  "due_visits now s = vi_id ` {v \<in> set (vd_visits s). due_visit now v}"

lemma visit_stays: "sound n s s' \<Longrightarrow> visit_ok n s \<Longrightarrow> visit_stored c s \<Longrightarrow> visit_stored c s'"
proof -
  assume "sound n s s'" "visit_ok n s" "visit_stored c s"
  then obtain i where i: "i \<in> set (vd_visits s)" "same_visit c i" and g: "grown visit_once (vd_visits s) (vd_visits s')"
    by (auto simp: sound_def evolves_def visit_stored_def)
  from grown_member [OF g i(1)] obtain j where "j \<in> set (vd_visits s')" "visit_once i j" by blast
  moreover from this(2) i(2) have "same_visit c j" by (auto simp: visit_once_def same_visit_def)
  ultimately show "visit_stored c s'" by (auto simp: visit_stored_def)
qed

lemma expired_visit_users: "users_present s \<Longrightarrow> users_present (expired_visit i t s)"
  by (auto simp: users_present_def expired_visit_def set_update_where user_row_def)

lemma expired_visit_due: "visit_ok n s \<Longrightarrow> v \<in> set (vd_visits s) \<Longrightarrow> due_visits now (expired_visit v t s) \<subseteq> due_visits now s - {vi_id v}"
proof -
  assume ok: "visit_ok n s" and v: "v \<in> set (vd_visits s)"
  have "unique_on (\<lambda>_. True) vi_id (vd_visits s)" using ok by (simp add: visit_ok_def visits_ok_def)
  note same = unique_onD [OF this _ v]
  show ?thesis
  proof
    fix k assume "k \<in> due_visits now (expired_visit v t s)"
    then obtain y where y: "y \<in> set (vd_visits s)" "due_visit now y" "k = vi_id y"
      "\<not> (vi_id y = vi_id v \<and> vi_status y = vi_status v)"
      by (auto simp: due_visits_def expired_visit_def set_update_where due_visit_def split: if_splits)
    with same [OF y(1)] have "vi_id y \<noteq> vi_id v" by auto
    with y show "k \<in> due_visits now s - {vi_id v}" by (auto simp: due_visits_def)
  qed
qed

lemma expire_visit_stored:
  assumes "present n s" and "visit_stored c s"
  obtains v where "v \<in> set (vd_visits s)" "vi_id v = vi_id c"
    "expire_visit_candidate c now s = Inr (if due_visit now v then (True, expired_visit v (db_time now) s) else (False, s))"
proof -
  from assms obtain v where v: "v \<in> set (vd_visits s)" "same_visit c v" by (auto simp: visit_stored_def)
  with assms have "user_row (vi_visitor v) s \<noteq> None" by (auto simp: present_def users_present_def)
  with assms v have "expire_visit_candidate c now s = Inr (if due_visit now v then (True, expired_visit v (db_time now) s) else (False, s))"
    by (intro expire_visit_eq) (auto simp: present_def)
  with v that show ?thesis by (auto simp: same_visit_def)
qed

interpretation visit_expiry: expiry "\<lambda>c. expire_visit_candidate c now" "present n" visit_stored "due_visits now" vi_id
  "\<lambda>s. (vd_world s, vd_invites s)"
proof
  fix s c b s'
  assume p: "present n s" and c: "visit_stored c s"
  from expire_visit_stored [OF p c, of now] obtain v where v: "v \<in> set (vd_visits s)" "vi_id v = vi_id c"
    and eq: "expire_visit_candidate c now s = Inr (if due_visit now v then (True, expired_visit v (db_time now) s) else (False, s))"
    by metis
  show "\<exists>b s'. expire_visit_candidate c now s = Inr (b, s')" by (simp add: eq)
  assume r: "expire_visit_candidate c now s = Inr (b, s')"
  then have s': "s' = (if due_visit now v then expired_visit v (db_time now) s else s)" by (auto simp: eq split: if_splits)
  have snd: "sound n s s'" using res_allD [OF expire_visit_safe r] by simp
  have ok: "visit_ok n s" "users_present s" using p by (simp_all add: present_def)
  have "visit_ok n s'" using snd ok(1) by (simp add: sound_def)
  moreover have "users_present s'" using ok(2) by (simp add: s' expired_visit_users)
  ultimately show "present n s' \<and> (vd_world s', vd_invites s') = (vd_world s, vd_invites s) \<and>
      (\<forall>d. visit_stored d s \<longrightarrow> visit_stored d s')"
    using visit_stays [OF snd ok(1)] by (simp add: present_def s' expired_visit_def)
  show "due_visits now s' \<subseteq> due_visits now s - {vi_id c}"
  proof (cases "due_visit now v")
    case True
    then show ?thesis using expired_visit_due [OF ok(1) v(1), of now "db_time now"] v(2) by (simp add: s')
  next
    case False
    have "unique_on (\<lambda>_. True) vi_id (vd_visits s)" using ok(1) by (simp add: visit_ok_def visits_ok_def)
    from unique_onD [OF this v(1)] False v(2) show ?thesis by (auto simp: s' due_visits_def)
  qed
qed

section \<open>The batch\<close>

lemma take_all_due:
  "int (count_where p rs) \<le> n \<Longrightarrow> set (sql_limit n (sort_key k (filter p rs))) = {r \<in> set rs. p r}"
  by (auto simp: sql_limit_def count_where_def)

lemma listed_invites:
  assumes "visit_ok lim s" and "int (count_where (due_invite now) (vd_invites s)) \<le> max 1 (min n 500)"
  shows "set (list_due_universe_invites (db_time now) n s) = {i \<in> set (vd_invites s). due_invite now i}"
    and "length (list_due_universe_invites (db_time now) n s) = count_where (due_invite now) (vd_invites s)"
proof -
  have "filter (\<lambda>i. wi_status i = ''active'' \<and> wi_expires i \<le> db_time now \<and> in_mingchan (wi_world i) s) (vd_invites s) =
      filter (due_invite now) (vd_invites s)"
    using assms(1) by (intro filter_cong) (auto simp: visit_ok_def invites_ok_def in_mingchan_def due_invite_def)
  then have l: "list_due_universe_invites (db_time now) n s =
      sql_limit (max 1 (min n 500)) (sort_key (\<lambda>i. (wi_expires i, wi_id i)) (filter (due_invite now) (vd_invites s)))"
    by (simp add: list_due_universe_invites_def)
  show "set (list_due_universe_invites (db_time now) n s) = {i \<in> set (vd_invites s). due_invite now i}"
    unfolding l by (rule take_all_due [OF assms(2)])
  show "length (list_due_universe_invites (db_time now) n s) = count_where (due_invite now) (vd_invites s)"
    using assms(2) unfolding l sql_limit_def count_where_def by simp
qed

lemma listed_visits:
  assumes "visit_ok lim s" and "int (count_where (due_visit now) (vd_visits s)) \<le> max 1 (min n 500)"
  shows "set (list_due_universe_visits (db_time now) n s) = {v \<in> set (vd_visits s). due_visit now v}"
    and "length (list_due_universe_visits (db_time now) n s) = count_where (due_visit now) (vd_visits s)"
proof -
  have "filter (\<lambda>v. ((vi_status v = ''pending'' \<and> vi_pending_expires v \<le> db_time now) \<or>
       (vi_status v = ''active'' \<and> known (\<lambda>t. t \<le> db_time now) (vi_expires v))) \<and> in_mingchan (vi_world v) s) (vd_visits s) =
      filter (due_visit now) (vd_visits s)"
    using assms(1) by (intro filter_cong) (auto simp: visit_ok_def visits_ok_def visit_row_ok_def in_mingchan_def due_visit_def)
  then have l: "list_due_universe_visits (db_time now) n s = sql_limit (max 1 (min n 500))
      (sort_key (\<lambda>v. (if vi_status v = ''pending'' then vi_pending_expires v else the (vi_expires v), vi_id v))
        (filter (due_visit now) (vd_visits s)))"
    by (simp add: list_due_universe_visits_def)
  show "set (list_due_universe_visits (db_time now) n s) = {v \<in> set (vd_visits s). due_visit now v}"
    unfolding l by (rule take_all_due [OF assms(2)])
  show "length (list_due_universe_visits (db_time now) n s) = count_where (due_visit now) (vd_visits s)"
    using assms(2) unfolding l sql_limit_def count_where_def by simp
qed

lemma nothing_due:
  "due_invites now s = {} \<longleftrightarrow> (\<forall>i \<in> set (vd_invites s). \<not> due_invite now i)"
  "due_visits now s = {} \<longleftrightarrow> (\<forall>v \<in> set (vd_visits s). \<not> due_visit now v)"
  by (auto simp: due_invites_def due_visits_def)

text \<open>A batch with room for everything that is due returns and leaves nothing due.\<close>

lemma batch_clears:
  assumes p: "present lim s"
    and room: "int (count_where (due_invite now) (vd_invites s) + count_where (due_visit now) (vd_visits s)) \<le> max 1 (min batch 500)"
  obtains m s1 where "maintain_expiry_batch now batch s = (Inr m, s1)" "due_invites now s1 = {}" "due_visits now s1 = {}"
    "em_scanned m = count_where (due_invite now) (vd_invites s) + count_where (due_visit now) (vd_visits s)"
proof -
  define clean where "clean = max 1 (min batch 500)"
  define invs where "invs = list_due_universe_invites (db_time now) clean s"
  define rest where "rest = max 0 (clean - int (length invs))"
  define viss where "viss = (if rest \<noteq> 0 then list_due_universe_visits (db_time now) rest s else [])"
  let ?ni = "count_where (due_invite now) (vd_invites s)" and ?nv = "count_where (due_visit now) (vd_visits s)"
  have ok: "visit_ok lim s" using p by (simp add: present_def)
  have cl: "max 1 (min clean 500) = clean" "int ?ni + int ?nv \<le> clean" using room by (simp_all add: clean_def)
  then have "int ?ni \<le> max 1 (min clean 500)" by linarith
  from listed_invites [OF ok this] have i: "set invs = {i \<in> set (vd_invites s). due_invite now i}" "length invs = ?ni"
    by (simp_all add: invs_def)
  have "int ?nv \<le> rest" using cl i(2) by (simp add: rest_def)
  moreover have "rest = 0 \<or> max 1 (min rest 500) = rest" using cl(1) unfolding rest_def by linarith
  ultimately have rst: "int ?nv \<le> rest" "rest = 0 \<or> max 1 (min rest 500) = rest" by simp_all
  have v: "set viss = {v \<in> set (vd_visits s). due_visit now v} \<and> length viss = ?nv"
  proof (cases "rest = 0")
    case True
    then have "?nv = 0" using rst(1) by simp
    then show ?thesis using True by (auto simp: count_where_0 viss_def)
  next
    case False
    then have "int ?nv \<le> max 1 (min rest 500)" using rst by simp
    from listed_visits [OF ok this] False show ?thesis by (simp add: viss_def)
  qed
  have "\<forall>c \<in> set invs. invite_stored c s" using i(1) by (auto simp: invite_stored_def same_invite_def)
  from invite_expiry.loop_clears [OF p this, of now] obtain n1 t where
    t: "expire_each (\<lambda>c. expire_invite_candidate c now) invs s = (Inr n1, t)" "present lim t" "vd_visits t = vd_visits s"
      "due_invites now t \<subseteq> due_invites now s - wi_id ` set invs" by blast
  have ti: "due_invites now t = {}" using t(4) unfolding i(1) by (auto simp: due_invites_def)
  have "\<forall>c \<in> set viss. visit_stored c t" using v t(3) by (auto simp: visit_stored_def same_visit_def)
  from visit_expiry.loop_clears [OF t(2) this, of now] obtain n2 u where
    u: "expire_each (\<lambda>c. expire_visit_candidate c now) viss t = (Inr n2, u)" "vd_invites u = vd_invites t"
      "due_visits now u \<subseteq> due_visits now t - vi_id ` set viss" by blast
  have "vi_id ` set viss = due_visits now t" using v t(3) by (simp add: due_visits_def)
  with u(3) have du: "due_visits now u = {}" by auto
  have di: "due_invites now u = {}" using ti u(2) by (simp add: due_invites_def)
  have m: "maintain_expiry_batch now batch s =
      (Inr \<lparr>em_scanned = length invs + length viss, em_invites = n1, em_visits = n2\<rparr>, u)"
    unfolding maintain_expiry_batch_def Let_def
      clean_def [symmetric] invs_def [symmetric] rest_def [symmetric] viss_def [symmetric] by (simp add: t(1) u(1))
  show ?thesis using that [OF m di du] i(2) v by simp
qed

end
