(* ===== verification/Visit_Properties.thy ===== *)
theory Visit_Properties
imports Visit_Expiry World_Samples
begin

text \<open>What holds of visits and of the chat between their users in every history.\<close>

section \<open>A visit for the witnesses\<close>

text \<open>
  A second user beside the sample world; \<open>user_1\<close> invites, \<open>user_2\<close> redeems the code, \<open>user_1\<close> accepts,
  \<open>user_2\<close> writes.
\<close>

definition sample_guest :: platform_user where
  "sample_guest = \<lparr>u_id = ''user_2'', u_phone = ''13900000000'', u_name = None, u_avatar = None, u_status = ''active''\<rparr>"

definition sample_code :: string where "sample_code = replicate 43 (CHR ''a'')"
definition sample_hash :: "string \<Rightarrow> string" where "sample_hash code = CHR ''h'' # code"

definition sample_visits :: visit_db where
  "sample_visits = no_visits (sample_world\<lparr>users := [sample_user, sample_guest]\<rparr>)"

definition sample_invited :: visit_db where
  "sample_invited = (case create_invite VISIT_POLICY sample_hash sample_code ''i1'' ''user_1'' 0 sample_visits of
     Inl e \<Rightarrow> sample_visits | Inr (x, s) \<Rightarrow> s)"
definition sample_pending :: visit_db where
  "sample_pending = snd (redeem VISIT_POLICY sample_hash ''v1'' ''user_2'' sample_code 1000000 sample_invited)"
definition sample_active :: visit_db where
  "sample_active = snd (accept VISIT_POLICY ''h1'' ''user_1'' ''v1'' 2000000 sample_pending)"
definition sample_talk :: visit_db where
  "sample_talk = snd (send_message False ''m1'' ''user_2'' ''h1'' ''c1'' ''hello'' None 3000000 True sample_active)"

lemma sample_reachable:
  "visits_reachable VISIT_POLICY sample_visits" "visits_reachable VISIT_POLICY sample_invited"
  "visits_reachable VISIT_POLICY sample_pending" "visits_reachable VISIT_POLICY sample_active"
  "visits_reachable VISIT_POLICY sample_talk"
proof -
  show 0: "visits_reachable VISIT_POLICY sample_visits" by (simp add: sample_visits_def reachable_start)
  show 1: "visits_reachable VISIT_POLICY sample_invited"
    using 0 by (auto simp: sample_invited_def split: sum.splits intro: reachable_step visit_step.invite)
  show 2: "visits_reachable VISIT_POLICY sample_pending"
    unfolding sample_pending_def by (rule reachable_step [OF 1]) (metis visit_step.redeem prod.collapse)
  show 3: "visits_reachable VISIT_POLICY sample_active"
    unfolding sample_active_def by (rule reachable_step [OF 2]) (metis visit_step.accept prod.collapse)
  show "visits_reachable VISIT_POLICY sample_talk"
    unfolding sample_talk_def by (rule reachable_step [OF 3]) (metis visit_step.send prod.collapse)
qed

lemma sample_states:
  "map_option vi_status (find_visit ''v1'' sample_pending) = Some ''pending''"
  "map_option vi_status (find_visit ''v1'' sample_active) = Some ''active''"
  "map hm_seq (vd_messages sample_talk) = [1]"
  by code_simp+

section \<open>Capacity\<close>

definition active_invites :: "string \<Rightarrow> visit_db \<Rightarrow> nat" where
  "active_invites w s = count_where (\<lambda>i. wi_world i = w \<and> wi_status i = ''active'') (vd_invites s)"

definition open_visits_in :: "string \<Rightarrow> visit_db \<Rightarrow> nat" where
  "open_visits_in w s = count_where (\<lambda>v. vi_world v = w \<and> is_open v) (vd_visits s)"

text \<open>C15: In no history does a world have more than three active invites and pending or active visits
  together, nor a visitor more open visits than the policy allows.
\<close>

theorem visit_capacity:
  assumes "visits_reachable pol s"
  shows "active_invites w s + open_visits_in w s \<le> 3 \<and>
    int (count_open_universe_visits_for_visitor user s) \<le> max 0 (vp_visitor_limit pol)"
proof -
  note ok = reachable_ok [OF assms]
  then have sl: "slots_ok (vd_slots s) (vd_invites s) (vd_visits s)"
    and keys: "unique_on (\<lambda>_. True) wi_id (vd_invites s)" "unique_on (\<lambda>_. True) vi_id (vd_visits s)"
    by (simp_all add: visit_ok_def invites_ok_def visits_ok_def)
  have "active_invites w s + open_visits_in w s = card (open_invites w (vd_invites s)) + card (open_visits w (vd_visits s))"
    using keys by (simp add: active_invites_def open_visits_in_def open_invites_def open_visits_def count_keys)
  also have "\<dots> \<le> 3" using sl by (rule open_at_most_three)
  finally show ?thesis using ok open_count [OF ok] by (simp add: visit_ok_def limit_ok_def)
qed

lemma visit_capacity_witness: "active_invites ''w1'' sample_invited + open_visits_in ''w1'' sample_invited \<le> 3 \<and>
    active_invites ''w1'' sample_invited = 1"
  using visit_capacity [OF sample_reachable(2), of "''w1''"] by (auto simp: sample_invited_def) code_simp

section \<open>The life of a visit\<close>

text \<open>In every history each transaction leaves a visit as it is or moves it along the transitions that
  the domain's table allows; no visit disappears.
\<close>

theorem visit_follows_domain_table:
  assumes "visits_reachable pol s" and "visit_step pol s s'" and "find_visit k s = Some v"
  shows "\<exists>v'. find_visit k s' = Some v' \<and> (v' = v \<or> visit_transition_allowed (vi_status v) (vi_status v'))"
  using visit_kept [OF reachable_ok [OF assms(1)] assms(2,3)] by (auto simp: visit_once_def)

lemma visit_follows_domain_table_witness:
  "\<exists>v v'. find_visit ''v1'' sample_pending = Some v \<and> find_visit ''v1'' sample_active = Some v' \<and>
     (v' = v \<or> visit_transition_allowed (vi_status v) (vi_status v'))"
proof -
  obtain v where v: "find_visit ''v1'' sample_pending = Some v" using sample_states(1) by auto
  have "visit_step VISIT_POLICY sample_pending sample_active"
    unfolding sample_active_def by (metis visit_step.accept prod.collapse)
  from visit_follows_domain_table [OF sample_reachable(3) this v] v show ?thesis by blast
qed

text \<open>C16: Once a visit has ended its row never changes again, and no history writes another message to the
  conversation of its two users.
\<close>

theorem ended_visit_is_silent:
  assumes "visits_reachable pol s" and "find_visit k s = Some v" and "\<not> is_open v" and "(visit_step pol)\<^sup>*\<^sup>* s s'"
  shows "find_visit k s' = Some v \<and>
    (\<forall>c \<in> set (vd_conversations s). hc_visit c = k \<longrightarrow>
       messages_of (hc_id c) (vd_messages s') = messages_of (hc_id c) (vd_messages s))"
proof (intro conjI ballI impI)
  note ok = reachable_ok [OF assms(1)]
  show "find_visit k s' = Some v"
    using visit_life.reach_frozen [OF assms(4) ok assms(2)] assms(3)
    by (simp add: visit_stage_def is_open_def VISIT_OPEN_STATUSES_def)
  fix c assume c: "c \<in> set (vd_conversations s)" "hc_visit c = k"
  from ok have keys: "unique_on (\<lambda>_. True) vi_id (vd_visits s)" by (simp add: visit_ok_def visits_ok_def)
  from ok c obtain y where y: "y \<in> set (vd_visits s)" "vi_id y = k" "hc_status c = ''active'' \<longleftrightarrow> vi_status y = ''active''"
    by (auto simp: visit_ok_def talk_ok_def conversation_ok_def)
  have "v \<in> set (vd_visits s)" "vi_id v = k" using assms(2) by (auto simp: find_visit_def dest: find_row_Some)
  with unique_onD [OF keys this(1) y(1)] y(2) have "y = v" by simp
  with y(3) assms(3) have ro: "hc_status c \<noteq> ''active''" by (auto simp: is_open_def VISIT_OPEN_STATUSES_def)
  from reach_evolves [OF assms(4) ok] obtain new where new: "vd_messages s' = vd_messages s @ new"
    "\<forall>m \<in> set new. \<forall>c \<in> set (vd_conversations s). hc_id c = hm_conversation m \<longrightarrow> hc_status c = ''active''"
    by (auto simp: evolves_def talked_def)
  then have "messages_of (hc_id c) new = []" using c(1) ro by (auto simp: messages_of_def filter_empty_conv)
  then show "messages_of (hc_id c) (vd_messages s') = messages_of (hc_id c) (vd_messages s)"
    by (simp add: new(1) messages_of_def)
qed

definition sample_left :: visit_db where
  "sample_left = (case terminate ''user_2'' ''v1'' ''leave'' 4000000 sample_talk of Inl e \<Rightarrow> sample_talk | Inr (v, s) \<Rightarrow> s)"

lemma sample_left_reachable: "visits_reachable VISIT_POLICY sample_left"
  using sample_reachable(5) by (auto simp: sample_left_def split: sum.splits intro: reachable_step visit_step.terminate)

definition sample_late :: visit_db where
  "sample_late = snd (send_message False ''m2'' ''user_1'' ''h1'' ''c2'' ''late'' None 5000000 True sample_left)"

lemma ended_visit_is_silent_witness:
  "\<exists>v. find_visit ''v1'' sample_left = Some v \<and> vi_status v = ''left'' \<and> find_visit ''v1'' sample_late = Some v"
proof -
  have "map_option vi_status (find_visit ''v1'' sample_left) = Some ''left''" by code_simp
  then obtain v where v: "find_visit ''v1'' sample_left = Some v" "vi_status v = ''left''" by auto
  have "visit_step VISIT_POLICY sample_left sample_late"
    unfolding sample_late_def by (metis visit_step.send prod.collapse)
  then have "(visit_step VISIT_POLICY)\<^sup>*\<^sup>* sample_left sample_late" ..
  from ended_visit_is_silent [OF sample_left_reachable v(1) _ this] v show ?thesis
    by (simp add: is_open_def VISIT_OPEN_STATUSES_def)
qed

section \<open>Blocks\<close>

lemma blocked_pair_more: "blocked_pair a b bs \<Longrightarrow> blocked_pair a b (bs @ cs)"
  by (simp add: blocked_pair_def)

lemma blocked_pair_sym: "blocked_pair a b bs = blocked_pair b a bs"
  by (auto simp: blocked_pair_def list_ex_iff)

lemma block_user_blocks:
  assumes "visit_ok lim s" and "block_user user k now s = Inr (n, s1)" and "find_visit k s = Some v"
  shows "blocked_pair (vi_owner v) (vi_visitor v) (vd_blocks s1)"
  using assms(2)
proof (cases rule: block_user_cases)
  case (1 v' c b s0)
  from 1(1) have "v' \<in> set (vd_visits s)" "vi_id v' = k" by (auto dest: get_visit_id)
  moreover have "v \<in> set (vd_visits s)" "vi_id v = k" using assms(3) by (auto simp: find_visit_def dest: find_row_Some)
  moreover have "unique_on (\<lambda>_. True) vi_id (vd_visits s)" using assms(1) by (simp add: visit_ok_def visits_ok_def)
  ultimately have v: "v' = v" by (metis unique_onD)
  from assms(2) 1(1) have user: "user = vi_owner v' \<or> user = vi_visitor v'" by (auto simp: block_user_def split: if_splits)
  from 1(3) obtain bs where bs: "s0 = s\<lparr>vd_blocks := vd_blocks s @ bs\<rparr>" "blocked_pair user c (vd_blocks s0)"
    by (rule insert_block_cases)
  have "visit_ok_but_peace lim s0" using assms(1) by (simp add: bs(1) visit_ok_split visit_ok_but_peace_def)
  from block_visits_effect [OF 1(4) this] have "vd_blocks s1 = vd_blocks s0" by (simp add: blocked_all_def)
  then have "blocked_pair user c (vd_blocks s1)" using bs(2) by simp
  then show ?thesis using user 1(2) v blocked_pair_sym by (auto split: if_splits)
qed

text \<open>C17: After one of two users blocks the other from a visit, no history contains an open visit between
  them in either direction, and no invite of the one can be redeemed by the other.
\<close>

theorem block_separates:
  assumes "visits_reachable pol s" and "find_visit k s = Some v" and "block_user user k now s = Inr (n, s1)"
    and "(visit_step pol)\<^sup>*\<^sup>* s1 s2"
    and "x \<in> set (vd_visits s2)" and "{vi_owner x, vi_visitor x} = {vi_owner v, vi_visitor v}"
  shows "\<not> is_open x"
proof -
  have r1: "visits_reachable pol s1" using assms(1,3) by (blast intro: reachable_step visit_step.block)
  from block_user_blocks [OF reachable_ok [OF assms(1)] assms(3,2)] reach_evolves [OF assms(4) reachable_ok [OF r1]]
  have b: "blocked_pair (vi_owner v) (vi_visitor v) (vd_blocks s2)" by (auto simp: evolves_def blocked_pair_more)
  have "(vi_owner x = vi_owner v \<and> vi_visitor x = vi_visitor v) \<or> (vi_owner x = vi_visitor v \<and> vi_visitor x = vi_owner v)"
    using assms(6) by (auto simp: doubleton_eq_iff)
  with b blocked_pair_sym have "blocked_pair (vi_owner x) (vi_visitor x) (vd_blocks s2)" by metis
  moreover have "peace_ok (vd_blocks s2) (vd_visits s2)"
    using reach_ok [OF assms(4) reachable_ok [OF r1]] by (simp add: visit_ok_def)
  ultimately show ?thesis using assms(5) by (auto simp: peace_ok_def)
qed

definition sample_blocked :: visit_db where
  "sample_blocked = (case block_user ''user_2'' ''v1'' 4000000 sample_talk of Inl e \<Rightarrow> sample_talk | Inr (n, s) \<Rightarrow> s)"

lemma sample_blocking: "\<exists>n. block_user ''user_2'' ''v1'' 4000000 sample_talk = Inr (n, sample_blocked)"
proof -
  have "(case block_user ''user_2'' ''v1'' 4000000 sample_talk of Inl e \<Rightarrow> False | Inr r \<Rightarrow> fst r = 1)" by code_simp
  then show ?thesis by (auto simp: sample_blocked_def split: sum.splits)
qed

lemma block_separates_witness: "\<exists>v. find_visit ''v1'' sample_blocked = Some v \<and> \<not> is_open v \<and> vi_status v = ''blocked''"
proof -
  have "map_option (\<lambda>v. (vi_owner v, vi_visitor v)) (find_visit ''v1'' sample_talk) = Some (''user_1'', ''user_2'')"
    "map_option (\<lambda>v. (vi_owner v, vi_visitor v, vi_status v)) (find_visit ''v1'' sample_blocked) =
       Some (''user_1'', ''user_2'', ''blocked'')" by code_simp+
  then obtain v v' where v: "find_visit ''v1'' sample_talk = Some v" "vi_owner v = ''user_1''" "vi_visitor v = ''user_2''"
    and v': "find_visit ''v1'' sample_blocked = Some v'" "vi_owner v' = ''user_1''" "vi_visitor v' = ''user_2''"
      "vi_status v' = ''blocked''" by auto
  obtain n where n: "block_user ''user_2'' ''v1'' 4000000 sample_talk = Inr (n, sample_blocked)" using sample_blocking ..
  have "v' \<in> set (vd_visits sample_blocked)" using v'(1) by (auto simp: find_visit_def dest: find_row_Some)
  from block_separates [OF sample_reachable(5) v(1) n rtranclp.rtrancl_refl this] v v' have "\<not> is_open v'" by simp
  with v'(1,4) show ?thesis by blast
qed

section \<open>The chat\<close>

text \<open>C18: The messages of a conversation are numbered without gaps from one, in the order they were
  written, and a history only adds messages at the end: none is changed, removed or put in between.
\<close>

theorem chat_is_append_only:
  assumes "visits_reachable pol s" and "(visit_step pol)\<^sup>*\<^sup>* s s'"
  shows "(\<exists>new. messages_of k (vd_messages s') = messages_of k (vd_messages s) @ new) \<and>
    map hm_seq (messages_of k (vd_messages s')) = map int [1..<Suc (length (messages_of k (vd_messages s')))]"
proof
  from reach_evolves [OF assms(2) reachable_ok [OF assms(1)]] obtain new where "vd_messages s' = vd_messages s @ new"
    by (auto simp: evolves_def talked_def)
  then show "\<exists>new. messages_of k (vd_messages s') = messages_of k (vd_messages s) @ new" by (simp add: messages_of_def)
  from reach_ok [OF assms(2) reachable_ok [OF assms(1)]]
  show "map hm_seq (messages_of k (vd_messages s')) = map int [1..<Suc (length (messages_of k (vd_messages s')))]"
    by (simp add: visit_ok_def chat_ok_def numbered_def)
qed

lemma chat_is_append_only_witness: "map hm_seq (messages_of ''h1'' (vd_messages sample_talk)) = [1] \<and>
    (\<exists>new. messages_of ''h1'' (vd_messages sample_talk) = messages_of ''h1'' (vd_messages sample_active) @ new)"
proof -
  have "visit_step VISIT_POLICY sample_active sample_talk"
    unfolding sample_talk_def by (metis visit_step.send prod.collapse)
  then have "(visit_step VISIT_POLICY)\<^sup>*\<^sup>* sample_active sample_talk" ..
  from chat_is_append_only [OF sample_reachable(4) this, of "''h1''"]
  have a: "\<exists>new. messages_of ''h1'' (vd_messages sample_talk) = messages_of ''h1'' (vd_messages sample_active) @ new" by blast
  have "map hm_seq (messages_of ''h1'' (vd_messages sample_talk)) = [1]" by code_simp
  with a show ?thesis by blast
qed

lemma locked_unique: "visit_ok n s \<Longrightarrow> c \<in> set (vd_conversations s) \<Longrightarrow> hc_id c = k \<Longrightarrow> lock_human_conversation k s = Some c"
  unfolding lock_human_conversation_def visit_ok_def talk_ok_def by (rule find_row_unique) (auto dest: unique_onD)

lemma conversation_visit:
  assumes ok: "visit_ok n s" and c: "c \<in> set (vd_conversations s)"
  obtains v where "get_universe_visit (hc_visit c) s = Some v" "v \<in> set (vd_visits s)" "vi_id v = hc_visit c"
    "vi_visitor v = hc_visitor c" "in_app (vi_world v) (vd_world s)" "vi_owner v = hc_owner c" "vi_owner v \<noteq> vi_visitor v"
proof -
  from ok c obtain v where v: "v \<in> set (vd_visits s)" "vi_id v = hc_visit c" "vi_visitor v = hc_visitor c" "vi_owner v = hc_owner c"
    by (auto simp: visit_ok_def talk_ok_def conversation_ok_def)
  with ok have w: "in_app (vi_world v) (vd_world s)" "vi_owner v \<noteq> vi_visitor v"
    by (auto simp: visit_ok_def visits_ok_def visit_row_ok_def)
  have "unique_on (\<lambda>_. True) vi_id (vd_visits s)" using ok by (simp add: visit_ok_def visits_ok_def)
  then have "get_universe_visit (hc_visit c) s = Some v" unfolding get_universe_visit_def
    using v w by (intro find_row_unique) (auto simp: in_mingchan_def dest: unique_onD)
  then show ?thesis using that v w by blast
qed

lemma sent_message:
  assumes "send_message review mid user k client txt media now enabled s = (Inr (m, created), s1)"
  obtains body where "normalize_human_message_body (media \<noteq> None) txt = Inr body" "m \<in> set (vd_messages s1)"
    "sent_as k user client m" "hm_body m = body" "hm_media m = media"
proof -
  from assms obtain body c visit where b: "normalize_human_message_body (media \<noteq> None) txt = Inr body"
    and l: "send_locked review mid user k client body media now enabled visit s = Inr (Some (m, created), s1)"
    unfolding send_message_def by (auto split: sum.splits option.splits prod.splits)
  have "res_all (\<lambda>r. \<forall>m created. fst r = Some (m, created) \<longrightarrow>
      m \<in> set (vd_messages (snd r)) \<and> sent_as k user client m \<and> hm_body m = body \<and> hm_media m = media)
      (send_locked review mid user k client body media now enabled visit s)"
    unfolding send_locked_def
    by (intro res_all_rules)
      (auto simp: get_human_message_by_client_id_def sent_as_def split: err.splits dest: find_row_Some elim!: insert_message_cases)
  then show ?thesis using that [OF b] l by simp
qed

text \<open>C19: Sending is idempotent over any history: sending the same message again under the same client id
  answers the stored message and changes nothing, also after the visit ended or while writing is switched
  off, as long as the sender has not hidden the conversation.
\<close>

theorem send_again_replays:
  assumes "visits_reachable pol s"
    and first: "send_message review mid user k client txt media now enabled s = (Inr (m, created), s1)"
    and "(visit_step pol)\<^sup>*\<^sup>* s1 s2"
    and c: "get_human_conversation_for_participant k user False s2 = Some c" "user_row (hc_visitor c) s2 \<noteq> None"
  shows "send_message review' mid' user k client txt media now' enabled' s2 = (Inr (m, False), s2)"
proof -
  from first obtain body where body: "normalize_human_message_body (media \<noteq> None) txt = Inr body"
    and m: "m \<in> set (vd_messages s1)" "sent_as k user client m" "hm_body m = body" "hm_media m = media"
    by (rule sent_message)
  have r1: "visits_reachable pol s1" using assms(1) first by (blast intro: reachable_step visit_step.send)
  note ok = reach_ok [OF assms(3) reachable_ok [OF r1]]
  from reach_evolves [OF assms(3) reachable_ok [OF r1]] m(1) have m2: "m \<in> set (vd_messages s2)"
    by (auto simp: evolves_def talked_def)
  have "unique_on (\<lambda>_. True) (\<lambda>m. (hm_conversation m, hm_sender m, hm_client m)) (vd_messages s2)"
    using ok by (simp add: visit_ok_def chat_ok_def)
  then have rep: "get_human_message_by_client_id k user client s2 = Some m"
    unfolding get_human_message_by_client_id_def using m(2) m2
    by (intro find_row_unique) (auto simp: sent_as_def dest: unique_onD)
  from c(1) have cs: "c \<in> set (vd_conversations s2)" "hc_id c = k" "participant user c" "shown_to user c"
    by (auto simp: get_human_conversation_for_participant_def dest: find_row_Some)
  from ok cs(1) obtain v where v: "get_universe_visit (hc_visit c) s2 = Some v" "vi_id v = hc_visit c" "vi_visitor v = hc_visitor c"
    "in_app (vi_world v) (vd_world s2)" "hc_owner c \<noteq> hc_visitor c"
    by (rule conversation_visit) metis
  obtain u where u: "lock_universe (vi_world v) (vd_world s2) = Inr u" using world_locked [OF v(4)] ..
  obtain p where p: "lock_platform_user_for_visit (vi_visitor v) s2 = Inr p"
    using c(2) v(3) by (auto simp: lock_platform_user_for_visit_def)
  have "hidden_field user c = None" using cs(4) v(5) by (auto simp: shown_to_def hidden_field_def)
  with rep cs v u p locked_unique [OF ok cs(1,2)]
  have "send_locked review' mid' user k client body media now' enabled' v s2 = Inr (Some (m, False), s2)"
    by (simp add: send_locked_def m)
  then show ?thesis unfolding send_message_def body c(1) by (simp only: v(1) sum.case option.case prod.case)
qed

lemma send_again_replays_witness:
  "\<exists>m c. find_message ''m1'' sample_left = Some m \<and> get_human_conversation_for_participant ''h1'' ''user_2'' False sample_left = Some c \<and>
     send_message False ''m9'' ''user_2'' ''h1'' ''c1'' ''hello'' None 9000000 False sample_left = (Inr (m, False), sample_left)"
proof -
  have "(case fst (send_message False ''m1'' ''user_2'' ''h1'' ''c1'' ''hello'' None 3000000 True sample_active) of
      Inl e \<Rightarrow> False | Inr r \<Rightarrow> find_message ''m1'' sample_left = Some (fst r))" by code_simp
  then obtain m created where 1: "send_message False ''m1'' ''user_2'' ''h1'' ''c1'' ''hello'' None 3000000 True sample_active =
      (Inr (m, created), sample_talk)" "find_message ''m1'' sample_left = Some m"
    unfolding sample_talk_def by (cases "send_message False ''m1'' ''user_2'' ''h1'' ''c1'' ''hello'' None 3000000 True sample_active")
      (auto split: sum.splits)
  have "(case get_human_conversation_for_participant ''h1'' ''user_2'' False sample_left of
      None \<Rightarrow> False | Some c \<Rightarrow> user_row (hc_visitor c) sample_left \<noteq> None)" by code_simp
  then obtain c where 2: "get_human_conversation_for_participant ''h1'' ''user_2'' False sample_left = Some c"
    "user_row (hc_visitor c) sample_left \<noteq> None" by (auto split: option.splits)
  have "(visit_step VISIT_POLICY)\<^sup>*\<^sup>* sample_talk sample_left"
    by (auto simp: sample_left_def split: sum.splits intro: visit_step.terminate)
  from send_again_replays [OF sample_reachable(4) 1(1) this 2] 1(2) 2(1) show ?thesis by blast
qed

section \<open>Unread messages\<close>

lemma drop_by_number:
  "map hm_seq ms = map int [a..<a + length ms] \<Longrightarrow> filter (\<lambda>m. p m \<and> int n < hm_seq m) ms = filter p (drop (Suc n - a) ms)"
proof (induction ms arbitrary: a)
  case Nil
  then show ?case by simp
next
  case (Cons m ms)
  from Cons.prems have m: "hm_seq m = int a" and r: "map hm_seq ms = map int [Suc a..<Suc a + length ms]"
    by (simp_all add: upt_conv_Cons del: upt_Suc)
  from Cons.IH [OF r] have ih: "filter (\<lambda>m. p m \<and> int n < hm_seq m) ms = filter p (drop (Suc n - Suc a) ms)" .
  show ?case
  proof (cases "a \<le> n")
    case True
    then show ?thesis using m ih by (simp add: Suc_diff_le)
  next
    case False
    then show ?thesis using m ih by simp
  qed
qed

lemma unread_after_cursor:
  assumes "numbered (messages_of (hc_id c) (vd_messages s))" and "0 \<le> read_cursor user c"
  shows "unread_count user c s = count_where (\<lambda>m. hm_sender m \<noteq> user) (drop (nat (read_cursor user c)) (messages_of (hc_id c) (vd_messages s)))"
proof -
  let ?ms = "messages_of (hc_id c) (vd_messages s)"
  have seqs: "map hm_seq ?ms = map int [1..<1 + length ?ms]" using assms(1) by (simp add: numbered_def)
  have "unread_count user c s = length (filter (\<lambda>m. hm_sender m \<noteq> user \<and> int (nat (read_cursor user c)) < hm_seq m) ?ms)"
    using assms(2) by (simp add: unread_count_def count_where_def messages_of_def del: int_nat_eq)
  also have "\<dots> = length (filter (\<lambda>m. hm_sender m \<noteq> user) (drop (nat (read_cursor user c)) ?ms))"
    unfolding drop_by_number [OF seqs] by simp
  finally show ?thesis by (simp add: count_where_def)
qed

text \<open>C20: Once a user has read a conversation, what the list shows as unread later is exactly the number of
  messages that the other user wrote since, whatever happened in between, until the next read.
\<close>

theorem unread_counts_new_messages:
  assumes "visits_reachable pol s" and "mark_read user k now s = (Inr c, s1)" and "(visit_step pol)\<^sup>*\<^sup>* s1 s2"
    and "c2 \<in> set (vd_conversations s2)" and "hc_id c2 = k" and "read_cursor user c2 = read_cursor user c"
  shows "unread_count user c2 s2 = count_where (\<lambda>m. hm_sender m \<noteq> user)
    (drop (length (messages_of k (vd_messages s))) (messages_of k (vd_messages s2)))"
proof -
  note ok = reachable_ok [OF assms(1)]
  from assms(2) have mr: "mark_human_conversation_read k user (db_time now) s = (Some c, s1)"
    by (auto simp: mark_read_def split: if_splits option.splits prod.splits)
  then obtain c0 where c0: "lock_human_conversation k s = Some c0" "participant user c0"
    by (auto simp: mark_human_conversation_read_def split: option.splits if_splits)
  let ?n = "int (length (messages_of k (vd_messages s)))"
  have ls: "last_sequence k s = ?n" using ok by (intro last_sequence_numbered) (simp add: visit_ok_def chat_ok_def)
  from c0(1) have c0s: "c0 \<in> set (vd_conversations s)" "hc_id c0 = k" by (auto simp: lock_human_conversation_def dest: find_row_Some)
  have cur: "cursor_ok (vd_messages s) c0" using ok c0s by (simp add: visit_ok_def chat_ok_def)
  let ?f = "\<lambda>c::human_conversation. if hc_owner c0 = user
    then c\<lparr>hc_owner_read := Some (db_time now), hc_owner_seq := advance (last_sequence k s) (hc_owner_seq c), hc_updated := db_time now\<rparr>
    else c\<lparr>hc_visitor_read := Some (db_time now), hc_visitor_seq := advance (last_sequence k s) (hc_visitor_seq c), hc_updated := db_time now\<rparr>"
  from mr c0 have s1: "s1 = s\<lparr>vd_conversations := update_where (\<lambda>c. hc_id c = k) ?f (vd_conversations s)\<rparr>"
    and look: "lock_human_conversation k s1 = Some c"
    by (auto simp: mark_human_conversation_read_def Let_def)
  have "unique_on (\<lambda>_. True) hc_id (vd_conversations s)" using ok by (simp add: visit_ok_def talk_ok_def)
  then have "find_row (\<lambda>c. hc_id c = k) (update_where (\<lambda>c. hc_id c = k) ?f (vd_conversations s)) = Some (?f c0)"
    by (rule find_row_updated) (use c0s in auto)
  with look have c: "c = ?f c0" by (simp add: lock_human_conversation_def s1)
  have "read_cursor user c = ?n"
    using cur c0s(2) c0(2) by (auto simp: c ls read_cursor_def cursor_ok_def advance_def participant_def split: option.splits)
  then have rc: "read_cursor user c2 = ?n" using assms(6) by simp
  have "visits_reachable pol s1" using assms(1,2) by (blast intro: reachable_step visit_step.read)
  from reach_ok [OF assms(3) reachable_ok [OF this]] have "numbered (messages_of (hc_id c2) (vd_messages s2))"
    by (simp add: visit_ok_def chat_ok_def)
  from unread_after_cursor [OF this, of user] show ?thesis by (simp add: rc assms(5))
qed

definition sample_read :: visit_db where "sample_read = snd (mark_read ''user_1'' ''h1'' 4000000 sample_talk)"
definition sample_more :: visit_db where
  "sample_more = snd (send_message False ''m2'' ''user_2'' ''h1'' ''c2'' ''again'' None 5000000 True sample_read)"

lemma unread_counts_new_messages_witness:
  "\<exists>c. lock_human_conversation ''h1'' sample_more = Some c \<and> unread_count ''user_1'' c sample_more = 1"
proof -
  have "(case fst (mark_read ''user_1'' ''h1'' 4000000 sample_talk) of Inl e \<Rightarrow> False
      | Inr c \<Rightarrow> map_option (read_cursor ''user_1'') (lock_human_conversation ''h1'' sample_more) = Some (read_cursor ''user_1'' c))"
    by code_simp
  then obtain c c2 where c: "mark_read ''user_1'' ''h1'' 4000000 sample_talk = (Inr c, sample_read)"
    and c2: "lock_human_conversation ''h1'' sample_more = Some c2" "read_cursor ''user_1'' c2 = read_cursor ''user_1'' c"
    unfolding sample_read_def by (cases "mark_read ''user_1'' ''h1'' 4000000 sample_talk") (auto split: sum.splits)
  have "visit_step VISIT_POLICY sample_read sample_more"
    unfolding sample_more_def by (metis visit_step.send prod.collapse)
  then have st: "(visit_step VISIT_POLICY)\<^sup>*\<^sup>* sample_read sample_more" ..
  have m: "c2 \<in> set (vd_conversations sample_more)" "hc_id c2 = ''h1''"
    using c2(1) by (auto simp: lock_human_conversation_def dest: find_row_Some)
  have "count_where (\<lambda>m. hm_sender m \<noteq> ''user_1'') (drop (length (messages_of ''h1'' (vd_messages sample_talk)))
      (messages_of ''h1'' (vd_messages sample_more))) = 1" by code_simp
  with unread_counts_new_messages [OF sample_reachable(5) c st m c2(2)] c2(1) show ?thesis by simp
qed

section \<open>Expiry\<close>

text \<open>C22: A batch of the scheduled expiry with room for all that is due returns, has looked at exactly
  these invites and visits, and leaves none of them active past its time.\<close>

theorem expiry_batch_clears:
  assumes "visits_reachable pol s" and "users_present s"
    and "int (count_where (due_invite now) (vd_invites s) + count_where (due_visit now) (vd_visits s)) \<le> max 1 (min batch 500)"
  shows "\<exists>m s1. maintain_expiry_batch now batch s = (Inr m, s1) \<and>
    em_scanned m = count_where (due_invite now) (vd_invites s) + count_where (due_visit now) (vd_visits s) \<and>
    (\<forall>i \<in> set (vd_invites s1). \<not> due_invite now i) \<and> (\<forall>v \<in> set (vd_visits s1). \<not> due_visit now v)"
proof -
  have "present (vp_visitor_limit pol) s" using reachable_ok [OF assms(1)] assms(2) by (simp add: present_def)
  from batch_clears [OF this assms(3)] show ?thesis unfolding nothing_due by metis
qed

lemma expiry_batch_clears_witness:
  "\<exists>m s1. maintain_expiry_batch (days 60) 10 sample_talk = (Inr m, s1) \<and> em_scanned m = 1 \<and>
     map_option (due_visit (days 60)) (find_visit ''v1'' s1) = Some False \<and>
     map_option (due_visit (days 60)) (find_visit ''v1'' sample_talk) = Some True"
proof -
  have pre: "users_present sample_talk" "count_where (due_invite (days 60)) (vd_invites sample_talk) = 0"
    "count_where (due_visit (days 60)) (vd_visits sample_talk) = 1"
    "map_option (due_visit (days 60)) (find_visit ''v1'' sample_talk) = Some True" by code_simp+
  then have "int (count_where (due_invite (days 60)) (vd_invites sample_talk) +
      count_where (due_visit (days 60)) (vd_visits sample_talk)) \<le> max 1 (min 10 500)" by simp
  from expiry_batch_clears [OF sample_reachable(5) pre(1) this] pre obtain m s1 where
    m: "maintain_expiry_batch (days 60) 10 sample_talk = (Inr m, s1)" "em_scanned m = 1"
      "\<forall>v \<in> set (vd_visits s1). \<not> due_visit (days 60) v" by auto
  have "(visit_step VISIT_POLICY)\<^sup>*\<^sup>* sample_talk s1"
    using maintain_expiry_steps [of VISIT_POLICY sample_talk "days 60" 10] by (simp add: m(1))
  from visit_life.reach_kept [OF this reachable_ok [OF sample_reachable(5)]] pre(4) obtain v where
    v: "find_visit ''v1'' s1 = Some v" by auto
  then have "v \<in> set (vd_visits s1)" by (auto simp: find_visit_def dest: find_row_Some)
  with m v pre(4) show ?thesis by auto
qed

section \<open>Refused codes\<close>

lemma active_after_expiry:
  assumes "visit_ok n s" and "i \<in> set (vd_invites s)" and "wi_status i = ''active''"
  shows "active_invites (wi_world i) (expired_invite i t s) + 1 = active_invites (wi_world i) s"
proof -
  have keys: "unique_on (\<lambda>_. True) wi_id (vd_invites s)" using assms(1) by (simp add: visit_ok_def invites_ok_def)
  have c: "count_where (\<lambda>x. wi_world x = wi_world i \<and> wi_status x = ''active'' \<and> wi_id x = wi_id i) (vd_invites s) = 1"
    using count_where_key [OF keys assms(2), of "\<lambda>x. wi_world x = wi_world i \<and> wi_status x = ''active'' \<and> wi_id x = wi_id i"] assms(3)
    by simp
  have "count_where (\<lambda>x. wi_world x = wi_world i \<and> wi_status x = ''active'')
        (update_where (\<lambda>x. wi_id x = wi_id i \<and> wi_status x = ''active'') (\<lambda>x. x\<lparr>wi_status := ''expired'', wi_updated := t\<rparr>) xs) =
      count_where (\<lambda>x. wi_world x = wi_world i \<and> wi_status x = ''active'' \<and> wi_id x \<noteq> wi_id i) xs" for xs
    by (induction xs) auto
  then have "count_where (\<lambda>x. wi_world x = wi_world i \<and> wi_status x = ''active'') (vd_invites (expired_invite i t s)) =
      count_where (\<lambda>x. wi_world x = wi_world i \<and> wi_status x = ''active'' \<and> wi_id x \<noteq> wi_id i) (vd_invites s)"
    by (simp add: expired_invite_def)
  moreover have "count_where (\<lambda>x. wi_world x = wi_world i \<and> wi_status x = ''active'') xs =
      count_where (\<lambda>x. wi_world x = wi_world i \<and> wi_status x = ''active'' \<and> wi_id x = wi_id i) xs +
      count_where (\<lambda>x. wi_world x = wi_world i \<and> wi_status x = ''active'' \<and> wi_id x \<noteq> wi_id i) xs" for xs
    by (induction xs) auto
  from this [of "vd_invites s"] c have "count_where (\<lambda>x. wi_world x = wi_world i \<and> wi_status x = ''active'') (vd_invites s) =
      1 + count_where (\<lambda>x. wi_world x = wi_world i \<and> wi_status x = ''active'' \<and> wi_id x \<noteq> wi_id i) (vd_invites s)" by simp
  ultimately show ?thesis unfolding active_invites_def by linarith
qed

text \<open>A refused redemption changes nothing, except that the one refused as too late commits the expiry
  of its invite, which gives the owner one more free place.\<close>

theorem failed_redeem:
  assumes "visits_reachable pol s" and "redeem pol sha visit_id user code now s = (Inl e, s1)"
  shows "s1 = s \<or> (e = DomainError ''invite_expired'' \<and>
    (\<exists>i. get_universe_invite_by_code_hash (sha (py_strip code)) s = Some i \<and> due_invite now i \<and>
       map_option wi_status (find_invite (wi_id i) s1) = Some ''expired'' \<and>
       active_invites (wi_world i) s1 + 1 = active_invites (wi_world i) s))"
proof (rule disjCI)
  assume ne: "\<not> (e = DomainError ''invite_expired'' \<and>
    (\<exists>i. get_universe_invite_by_code_hash (sha (py_strip code)) s = Some i \<and> due_invite now i \<and>
       map_option wi_status (find_invite (wi_id i) s1) = Some ''expired'' \<and>
       active_invites (wi_world i) s1 + 1 = active_invites (wi_world i) s))"
  note ok = reachable_ok [OF assms(1)]
  let ?h = "sha (py_strip code)"
  show "s1 = s"
  proof (rule ccontr)
    assume "s1 \<noteq> s"
    with assms(2) obtain w where e: "e = DomainError ''invite_expired''"
      and l: "redeem_locked pol ?h visit_id w user now s = Inr (None, s1)"
      by (auto simp: redeem_def Let_def split: if_splits option.splits sum.splits prod.splits)
    have "res_all (\<lambda>r. fst r = None \<longrightarrow> (\<exists>i x. get_universe_invite_by_code_hash ?h s = Some i \<and> wi_status i = ''active'' \<and>
        is_due now (Some (wi_expires i)) \<and>
        mark_universe_invite_terminal (wi_id i) (wi_owner i) ''expired'' (db_time now) s = Inr (x, snd r)))
      (redeem_locked pol ?h visit_id w user now s)"
      unfolding redeem_locked_def by (intro res_all_rules) (auto split: err.splits)
    with l obtain i x where i: "get_universe_invite_by_code_hash ?h s = Some i" "wi_status i = ''active''"
      "is_due now (Some (wi_expires i))"
      and x: "mark_universe_invite_terminal (wi_id i) (wi_owner i) ''expired'' (db_time now) s = Inr (x, s1)" by auto
    from i(1) have mem: "i \<in> set (vd_invites s)" by (auto simp: get_universe_invite_by_code_hash_def dest: find_row_Some)
    from expire_invite_effect [OF ok mem i(2), of "db_time now"] x have s1: "s1 = expired_invite i (db_time now) s" by auto
    have "unique_on (\<lambda>_. True) wi_id (vd_invites s)" using ok by (simp add: visit_ok_def invites_ok_def)
    from unique_onD [OF this _ mem] have "find_row (\<lambda>x. wi_id x = wi_id i) (vd_invites s) = Some i"
      using mem by (intro find_row_unique) auto
    then have "map_option wi_status (find_invite (wi_id i) s1) = Some ''expired''"
      using i(2) unfolding s1 find_invite_def expired_invite_def by (simp add: find_row_update_where)
    with ne e i active_after_expiry [OF ok mem i(2), of "db_time now"] s1 show False
      by (auto simp: due_invite_def is_due_iff)
  qed
qed

lemma failed_redeem_witness:
  "redeem VISIT_POLICY sample_hash ''v1'' ''user_2'' sample_code (days 2) sample_invited \<noteq>
     (Inl (DomainError ''invite_expired''), sample_invited) \<and>
   fst (redeem VISIT_POLICY sample_hash ''v1'' ''user_2'' sample_code (days 2) sample_invited) = Inl (DomainError ''invite_expired'') \<and>
   (\<exists>(i :: world_invite) s1. redeem VISIT_POLICY sample_hash ''v1'' ''user_2'' sample_code (days 2) sample_invited = (Inl (DomainError ''invite_expired''), s1) \<and>
      map_option wi_status (find_invite (wi_id i) s1) = Some ''expired'')"
proof -
  let ?r = "redeem VISIT_POLICY sample_hash ''v1'' ''user_2'' sample_code (days 2) sample_invited"
  have pre: "fst ?r = Inl (DomainError ''invite_expired'')"
    "map_option wi_status (find_invite ''i1'' (snd ?r)) = Some ''expired''"
    "map_option wi_status (find_invite ''i1'' sample_invited) = Some ''active''" by code_simp+
  then obtain s1 where r: "?r = (Inl (DomainError ''invite_expired''), s1)" by (metis prod.collapse)
  have "s1 \<noteq> sample_invited" using pre(2,3) by (auto simp: r)
  with failed_redeem [OF sample_reachable(2) r] obtain i :: world_invite where
    "map_option wi_status (find_invite (wi_id i) s1) = Some ''expired''" by blast
  with r \<open>s1 \<noteq> sample_invited\<close> show ?thesis by (intro conjI exI [of _ i] exI [of _ s1]) simp_all
qed

text \<open>C23: Deleting the account of an owner leaves its invites active. Who redeems such a code, within its
  time and with a free place, gets no domain error but the \<open>ValueError\<close> of the lower layer.\<close>

theorem redeem_after_deletion_raises:
  assumes "visits_reachable pol s" and "i \<in> set (vd_invites s)" and "wi_status i = ''active''" and "\<not> due_invite now i"
    and "invite_code_ok (py_strip code)" and "sha (py_strip code) = wi_hash i"
    and "user \<noteq> wi_owner i" and "user_row user s \<noteq> None" and "\<not> has_platform_user_block (wi_owner i) user s"
    and "int (count_open_universe_visits_for_visitor user s) < vp_visitor_limit pol"
    and "unique_on (\<lambda>_. True) uv_id (universes (vd_world s))"
    and "find_row (\<lambda>x. uv_owner x = wi_owner i \<and> uv_app x = MINGCHAN_APP_ID) (universes (vd_world s)) = Some u" and "uv_id u = wi_world i"
    and "execute_account_deletion reg t (wi_owner i) (vd_world s) = Inr w"
  shows "redeem pol sha visit_id user code now (s\<lparr>vd_world := w\<rparr>) =
    (Inl (ValueError ''visit universe is not confirmed''), s\<lparr>vd_world := w\<rparr>)"
proof -
  let ?s = "s\<lparr>vd_world := w\<rparr>" and ?f = "\<lambda>x. x\<lparr>uv_onboarding := ''preparing''\<rparr>"
  have v: "universes w = update_where (\<lambda>x. uv_id x = uv_id u) ?f (universes (vd_world s))" and us: "users w = users (vd_world s)"
    using assms(14,12) by (auto simp: execute_account_deletion_def and_then_Inr delete_world_data_def Let_def delete_where_def)
  have app: "in_app x w = in_app x (vd_world s)" for x
  proof -
    have "list_ex (\<lambda>u. uv_id u = x \<and> uv_app u = MINGCHAN_APP_ID) (update_where q ?f us) =
        list_ex (\<lambda>u. uv_id u = x \<and> uv_app u = MINGCHAN_APP_ID) us" for q us
      by (induction us) (simp_all add: update_where_def)
    then show ?thesis by (simp add: in_app_def v)
  qed
  have ok: "visit_ok (vp_visitor_limit pol) ?s"
    using reachable_ok [OF assms(1)] by (simp add: visit_ok_def invites_ok_def visits_ok_def visit_row_ok_def app)
  have u: "u \<in> set (universes (vd_world s))" "uv_owner u = wi_owner i" "uv_app u = MINGCHAN_APP_ID"
    using assms(12) by (auto dest: find_row_Some)
  note same = unique_onD [OF assms(11) _ u(1)]
  have look: "find_row q (universes w) = Some (?f u)" if "q u" "\<And>x. q (?f x) = q x" "\<And>x. q x \<Longrightarrow> uv_id x = uv_id u" for q
  proof -
    have "find_row q (universes (vd_world s)) = Some u"
    proof (rule find_row_unique [where p = q, OF u(1) that(1)])
      fix x assume "x \<in> set (universes (vd_world s))" "q x"
      then show "x = u" using same that(3) by simp
    qed
    then show ?thesis unfolding v by (subst find_row_update_where) (simp_all add: that(2))
  qed
  have hash: "get_universe_invite_by_code_hash (wi_hash i) ?s = Some i" using stored_hash [OF ok] assms(2) by simp
  obtain p where p: "lock_platform_user_for_visit user ?s = Inr p"
    using assms(8) by (auto simp: lock_platform_user_for_visit_def user_row_def us)
  have l: "lock_universe (wi_world i) w = Inr (?f u)"
    unfolding lock_universe_def by (subst look) (use u assms(13) in auto)
  have o1: "lock_owner_world (wi_world i) (wi_owner i) ?s = Inl (ValueError ''visit universe is not confirmed'')"
    unfolding lock_owner_world_def by (simp, subst look) (use u assms(13) in auto)
  have b: "\<not> has_platform_user_block (wi_owner i) user ?s" "count_open_universe_visits_for_visitor user ?s =
      count_open_universe_visits_for_visitor user s"
    using assms(9) by (simp_all add: has_platform_user_block_def count_open_universe_visits_for_visitor_def in_mingchan_def app)
  have "redeem_locked pol (wi_hash i) visit_id (wi_world i) user now ?s = Inl (ValueError ''visit universe is not confirmed'')"
    using p l u(2) hash assms(3,4,7,10) b o1
    by (simp add: redeem_locked_def insert_pending_universe_visit_def due_invite_def is_due_iff)
  then show ?thesis using assms(5,6) hash by (simp add: redeem_def Let_def)
qed

lemma redeem_after_deletion_raises_witness:
  "\<exists>w. execute_account_deletion production_products 700 ''user_1'' (vd_world sample_invited) = Inr w \<and>
     fst (redeem VISIT_POLICY sample_hash ''v1'' ''user_2'' sample_code 1000000 (sample_invited\<lparr>vd_world := w\<rparr>)) =
       Inl (ValueError ''visit universe is not confirmed'')"
proof -
  have "case execute_account_deletion production_products 700 ''user_1'' (vd_world sample_invited) of Inl _ \<Rightarrow> False | Inr _ \<Rightarrow> True"
    by code_simp
  then obtain w where w: "execute_account_deletion production_products 700 ''user_1'' (vd_world sample_invited) = Inr w"
    by (auto split: sum.splits)
  have "(case find_invite ''i1'' sample_invited of None \<Rightarrow> False | Some i \<Rightarrow> wi_owner i = ''user_1'' \<and> wi_status i = ''active'' \<and>
      \<not> due_invite 1000000 i \<and> sample_hash (py_strip sample_code) = wi_hash i \<and> wi_world i = ''w1'')" by code_simp
  then obtain i where i: "find_invite ''i1'' sample_invited = Some i" "wi_owner i = ''user_1''" "wi_status i = ''active''"
    "\<not> due_invite 1000000 i" "sample_hash (py_strip sample_code) = wi_hash i" "wi_world i = ''w1''" by (auto split: option.splits)
  from i(1) have mem: "i \<in> set (vd_invites sample_invited)" by (auto simp: find_invite_def dest: find_row_Some)
  have c: "invite_code_ok (py_strip sample_code)" "user_row ''user_2'' sample_invited \<noteq> None"
    "\<not> has_platform_user_block ''user_1'' ''user_2'' sample_invited"
    "int (count_open_universe_visits_for_visitor ''user_2'' sample_invited) < vp_visitor_limit VISIT_POLICY"
    "unique_on (\<lambda>_. True) uv_id (universes (vd_world sample_invited))"
    "map_option uv_id (find_row (\<lambda>x. uv_owner x = ''user_1'' \<and> uv_app x = MINGCHAN_APP_ID) (universes (vd_world sample_invited))) = Some ''w1''" by code_simp+
  then obtain u where u: "find_row (\<lambda>x. uv_owner x = ''user_1'' \<and> uv_app x = MINGCHAN_APP_ID) (universes (vd_world sample_invited)) = Some u" "uv_id u = ''w1''" by auto
  have ne: "''user_2'' \<noteq> wi_owner i" by (simp add: i(2))
  from redeem_after_deletion_raises [where sha = sample_hash and code = sample_code and user = "''user_2''" and now = 1000000, OF sample_reachable(2) mem i(3,4) c(1) i(5) ne c(2) _ c(4,5)] c(3) i(2,6) u w
  show ?thesis by auto
qed

section \<open>What a visitor sees\<close>

text \<open>C21: A visitor is shown posts only while the visit is active, not past its time and no block lies
  between the two users, and then only published posts of the owner's world; reading changes nothing.\<close>

theorem visit_feed_is_guarded:
  assumes "list_visit_feed user k now cursor_at cursor_id limit s = (Inr (expires, posts), s1)"
  shows "s1 = s \<and> (\<exists>v. get_universe_visit k s = Some v \<and> vi_visitor v = user \<and> vi_status v = ''active'' \<and>
    expires = vi_expires v \<and> \<not> is_due now (vi_expires v) \<and> \<not> has_platform_user_block (vi_owner v) user s \<and>
    list_all (\<lambda>p. wp_status (fp_row p) = ''published'' \<and> owned_world (vi_owner v) (wp_world (fp_row p)) (vd_world s)) posts)"
proof -
  from assms obtain v0 where
    l: "visit_feed_locked user k now cursor_at cursor_id limit v0 s = Inr (Feed expires posts, s1)"
    by (auto simp: list_visit_feed_def split: if_splits option.splits sum.splits prod.splits visit_feed.splits)
  have "res_all (\<lambda>r. \<forall>x ps. fst r = Feed x ps \<longrightarrow> snd r = s \<and> (\<exists>v. get_universe_visit k s = Some v \<and> vi_visitor v = user \<and>
      vi_status v = ''active'' \<and> x = vi_expires v \<and> \<not> is_due now (vi_expires v) \<and> \<not> has_platform_user_block (vi_owner v) user s \<and>
      list_published_feed_posts_for_owner (vi_owner v) cursor_at cursor_id limit (vd_world s) = Inr ps))
    (visit_feed_locked user k now cursor_at cursor_id limit v0 s)"
    unfolding visit_feed_locked_def by (intro res_all_rules) (auto split: err.splits)
  with l obtain v where v: "s1 = s" "get_universe_visit k s = Some v" "vi_visitor v = user" "vi_status v = ''active''"
    "expires = vi_expires v" "\<not> is_due now (vi_expires v)" "\<not> has_platform_user_block (vi_owner v) user s"
    "list_published_feed_posts_for_owner (vi_owner v) cursor_at cursor_id limit (vd_world s) = Inr posts" by auto
  have "fp_row (project_post db p) = p" for db p by (simp add: project_post_def Let_def)
  then have "list_all (\<lambda>p. wp_status (fp_row p) = ''published'' \<and> owned_world (vi_owner v) (wp_world (fp_row p)) (vd_world s)) posts"
    using v(8) by (auto simp: list_published_feed_posts_for_owner_def Let_def list_all_iff sql_limit_def order_desc_def visible_def
        split: if_splits option.splits dest!: in_set_takeD)
  with v show ?thesis by blast
qed

lemma visit_feed_is_guarded_witness:
  "\<exists>posts s1. list_visit_feed ''user_2'' ''v1'' 5000000 None None 20 sample_talk = (Inr (Some (db_time (2000000 + days 30)), posts), s1) \<and>
     s1 = sample_talk"
proof -
  have "map_sum (\<lambda>_. ()) fst (fst (list_visit_feed ''user_2'' ''v1'' 5000000 None None 20 sample_talk)) =
      Inr (Some (db_time (2000000 + days 30)))" by code_simp
  then obtain posts s1 where
    r: "list_visit_feed ''user_2'' ''v1'' 5000000 None None 20 sample_talk = (Inr (Some (db_time (2000000 + days 30)), posts), s1)"
    by (cases "list_visit_feed ''user_2'' ''v1'' 5000000 None None 20 sample_talk"; cases "fst (list_visit_feed ''user_2'' ''v1'' 5000000 None None 20 sample_talk)")
      auto
  from visit_feed_is_guarded [OF r] r show ?thesis by blast
qed

end
