(* ===== verification/Mailbox_Steps.thy ===== *)
theory Mailbox_Steps
imports World_Mailbox_Laws World_Steps
begin

text \<open>
  The histories of the mailbox: one step is one transaction of an owner, of the staff, of the scheduled
  batch, of a wish worker or of the companion world, in any order. Open letters change their status, new
  ones are added, no other row changes; the letters of a world keep their distance.
\<close>

section \<open>The invariant\<close>

abbreviation organic :: "letter \<Rightarrow> bool" where
  "organic l \<equiv> lt_source l = ''organic''"

definition spaced :: "int \<Rightarrow> letter list \<Rightarrow> bool" where
  "spaced n ls = (\<forall>x \<in> set ls. \<forall>y \<in> set ls. organic x \<and> organic y \<and> lt_world x = lt_world y \<and> lt_id x \<noteq> lt_id y \<longrightarrow>
     n \<le> \<bar>lt_delivered x - lt_delivered y\<bar>)"

definition letters_ok :: "int \<Rightarrow> letter list \<Rightarrow> bool" where
  "letters_ok n ls = (unique_on (\<lambda>_. True) lt_id ls \<and> unique_on (\<lambda>_. True) lt_idem ls \<and>
     unique_on (\<lambda>_. True) (\<lambda>l. (lt_world l, lt_key l)) ls \<and> unique_on (\<lambda>l. open_letter l \<and> organic l) lt_world ls \<and> spaced n ls)"

definition same_letter :: "letter \<Rightarrow> letter \<Rightarrow> bool" where
  "same_letter l l' = (lt_id l' = lt_id l \<and> lt_owner l' = lt_owner l \<and> lt_world l' = lt_world l \<and> lt_catalog l' = lt_catalog l \<and>
     lt_key l' = lt_key l \<and> lt_template l' = lt_template l \<and> lt_version l' = lt_version l \<and> lt_body l' = lt_body l \<and>
     lt_idem l' = lt_idem l \<and> lt_delivered l' = lt_delivered l \<and> lt_expires l' = lt_expires l \<and> lt_source l' = lt_source l \<and>
     lt_wish l' = lt_wish l)"

text \<open>A transaction on the letters that are there: open ones get another status.\<close>

definition moved :: "letter list \<Rightarrow> letter list \<Rightarrow> bool" where
  "moved ls ls' = (\<exists>q f. ls' = update_where q f ls \<and> (\<forall>l. q l \<longrightarrow> open_letter l) \<and> (\<forall>l. same_letter l (f l)))"

lemma moved_refl: "moved ls ls"
proof -
  have "ls = update_where (\<lambda>_. False) id ls" by (simp add: update_where_def)
  then show ?thesis unfolding moved_def by (intro exI [of _ "\<lambda>_. False"] exI [of _ id]) (simp add: same_letter_def)
qed

lemma movedI: "(\<And>l. q l \<Longrightarrow> open_letter l) \<Longrightarrow> (\<And>l. same_letter l (f l)) \<Longrightarrow> moved ls (update_where q f ls)"
  unfolding moved_def by blast

lemma moved_ok:
  assumes "moved ls ls'" and ok: "letters_ok n ls"
  shows "letters_ok n ls'"
proof -
  from assms(1) obtain q f where u: "ls' = update_where q f ls" and q: "\<And>l. q l \<Longrightarrow> open_letter l"
    and f: "\<And>l. same_letter l (f l)" unfolding moved_def by blast
  have f': "lt_id (f l) = lt_id l" "lt_idem (f l) = lt_idem l" "lt_world (f l) = lt_world l" "lt_key (f l) = lt_key l"
    "lt_source (f l) = lt_source l" "lt_delivered (f l) = lt_delivered l" for l using f [of l] by (simp_all add: same_letter_def)
  have "spaced n ls'"
    using ok unfolding u spaced_def set_update_where letters_ok_def by (auto simp: f')
  moreover have "unique_on (\<lambda>l. open_letter l \<and> organic l) lt_world ls'"
    unfolding u by (rule unique_on_update_weaken) (use ok q in \<open>auto simp: f' letters_ok_def\<close>)
  ultimately show ?thesis using ok unfolding letters_ok_def u by (simp add: unique_on_update f')
qed

lemma added_letter_ok:
  assumes ok: "letters_ok n ls" and free: "\<not> list_ex (letter_conflict l) ls"
    and far: "\<And>x. x \<in> set ls \<Longrightarrow> organic l \<Longrightarrow> organic x \<Longrightarrow> lt_world x = lt_world l \<Longrightarrow> n \<le> \<bar>lt_delivered l - lt_delivered x\<bar>"
  shows "letters_ok n (ls @ [l])"
proof -
  have c: "lt_id x \<noteq> lt_id l" "lt_idem x \<noteq> lt_idem l" "\<not> (lt_world x = lt_world l \<and> lt_key x = lt_key l)"
    "\<not> (lt_world x = lt_world l \<and> open_letter l \<and> open_letter x \<and> organic l \<and> organic x)" if "x \<in> set ls" for x
    using free that by (auto simp: list_ex_iff letter_conflict_def)
  have "spaced n (ls @ [l])" unfolding spaced_def
  proof (intro ballI impI)
    fix x y
    assume xy: "x \<in> set (ls @ [l])" "y \<in> set (ls @ [l])"
      and h: "organic x \<and> organic y \<and> lt_world x = lt_world y \<and> lt_id x \<noteq> lt_id y"
    from xy consider "x \<in> set ls" "y \<in> set ls" | "x = l" "y \<in> set ls" | "x \<in> set ls" "y = l" | "x = l" "y = l" by auto
    then show "n \<le> \<bar>lt_delivered x - lt_delivered y\<bar>"
    proof cases
      case 1
      then show ?thesis using ok h unfolding letters_ok_def spaced_def by blast
    next
      case 2
      then show ?thesis using far [of y] h by simp
    next
      case 3
      then show ?thesis using far [of x] h by (simp add: abs_minus_commute)
    next
      case 4
      then show ?thesis using h by simp
    qed
  qed
  then show ?thesis using ok c unfolding letters_ok_def by (auto simp: unique_on_snoc)
qed

section \<open>The operations\<close>

lemma expire_effect:
  assumes "expire_due_character_letters now owner w limit s = Inr (n, s')"
  shows "ml_world s' = ml_world s \<and> ml_catalog s' = ml_catalog s \<and> moved (ml_letters s) (ml_letters s')"
proof -
  have "res_all (\<lambda>r. ml_world (snd r) = ml_world s \<and> ml_catalog (snd r) = ml_catalog s \<and> moved (ml_letters s) (ml_letters (snd r)))
      (expire_due_character_letters now owner w limit s)"
    unfolding expire_due_character_letters_def Let_def
    by (intro res_all_rules conjI) (simp_all del: set_map, (intro movedI; simp add: same_letter_def))
  from res_allD [OF this assms] show ?thesis by simp
qed

lemma transition_effect:
  assumes "transition_open_character_letter k user t now reason s = Inr (x, s')"
  shows "ml_world s' = ml_world s \<and> ml_catalog s' = ml_catalog s \<and> moved (ml_letters s) (ml_letters s')"
proof -
  have "res_all (\<lambda>r. ml_world (snd r) = ml_world s \<and> ml_catalog (snd r) = ml_catalog s \<and> moved (ml_letters s) (ml_letters (snd r)))
      (transition_open_character_letter k user t now reason s)"
    unfolding transition_open_character_letter_def Let_def
    by (intro res_all_rules conjI impI) (simp_all add: moved_refl, (intro conjI impI movedI; simp add: same_letter_def)+)
  from res_allD [OF this assms] show ?thesis by simp
qed

lemma mark_moved:
  "moved (ml_letters s) (ml_letters (snd (mark_locked_character_letter_expired k user now s)))"
  "moved (ml_letters s) (ml_letters (snd (mark_locked_character_letter_accepted k user r now s)))"
  by (auto simp: mark_locked_character_letter_expired_def mark_locked_character_letter_accepted_def Let_def same_letter_def
      intro!: movedI)

lemma accept_moved:
  assumes "accept_letter reg ids user k now s = (a, s')"
  shows "moved (ml_letters s) (ml_letters s')"
proof -
  have e: "moved (ml_letters s) (ml_letters s1)" if "mark_locked_character_letter_expired k user now s = (ok, s1)" for ok s1
    using mark_moved(1) [of s k user now] by (simp add: that)
  have m: "moved (ml_letters s) (ml_letters s2)" if "mark_locked_character_letter_accepted k user r now (s\<lparr>ml_world := w\<rparr>) = (ok, s2)" for ok s2 w r
    using mark_moved(2) [of "s\<lparr>ml_world := w\<rparr>" k user r now] by (simp add: that)
  have "res_all (\<lambda>r. moved (ml_letters s) (ml_letters (snd r))) (accept_locked_letter reg ids user k now s)"
    unfolding accept_locked_letter_def Let_def by (intro res_all_rules) (auto simp: moved_refl dest: e m)
  then show ?thesis using assms by (auto simp: accept_letter_def moved_refl split: sum.splits prod.splits option.splits)
qed

section \<open>Delivery\<close>

lemma order_desc_head:
  assumes "find_row (\<lambda>_. True) (order_desc k rs) = r"
  shows "case r of None \<Rightarrow> rs = [] | Some x \<Rightarrow> x \<in> set rs \<and> (\<forall>y \<in> set rs. k y \<le> k x)"
proof (cases "order_desc k rs")
  case Nil
  then have "rs = []" by simp
  then show ?thesis using assms [symmetric] Nil by (simp add: order_desc_def)
next
  case (Cons x xs)
  have "sorted (rev (map k (order_desc k rs)))" by (simp add: order_desc_def rev_map)
  then have "\<forall>y \<in> set xs. k y \<le> k x" by (simp add: Cons sorted_append)
  moreover have "set rs = insert x (set xs)" using set_order_desc [of k rs] Cons by simp
  ultimately show ?thesis using assms Cons by auto
qed

lemma delivered_before:
  assumes "\<not> known (\<lambda>l. since < lt_delivered l) (find_row (\<lambda>_. True) (order_desc (\<lambda>l. (lt_delivered l, lt_id l)) ls))"
    and "l \<in> set ls"
  shows "lt_delivered l \<le> since"
  using order_desc_head [OF refl, of ls "\<lambda>l. (lt_delivered l, lt_id l)"] assms
  by (fastforce simp: known_def split: option.splits)

lemma prepare_effect:
  assumes "prepare_character_letter_delivery w now since m s = Inr (p, s')"
  shows "ml_world s' = ml_world s \<and> ml_catalog s' = ml_catalog s \<and> moved (ml_letters s) (ml_letters s') \<and>
    (mp_catalog p \<noteq> None \<longrightarrow> (\<forall>l \<in> set (ml_letters s'). organic_of w l \<longrightarrow> \<not> open_letter l \<and> lt_delivered l \<le> since))"
proof -
  have x: "ml_world s1 = ml_world s \<and> ml_catalog s1 = ml_catalog s \<and> moved (ml_letters s) (ml_letters s1)"
    if "expire_due_character_letters now None (Some w) None s = Inr (n, s1)" for n s1
    using expire_effect [OF that] .
  have "res_all (\<lambda>r. ml_world (snd r) = ml_world s \<and> ml_catalog (snd r) = ml_catalog s \<and>
      moved (ml_letters s) (ml_letters (snd r)) \<and> (mp_catalog (fst r) \<noteq> None \<longrightarrow>
        (\<forall>l \<in> set (ml_letters (snd r)). organic_of w l \<longrightarrow> \<not> open_letter l \<and> lt_delivered l \<le> since)))
      (prepare_character_letter_delivery w now since m s)"
    unfolding prepare_character_letter_delivery_def Let_def
    by (intro res_all_rules) (simp_all add: moved_refl, auto simp: list_ex_iff dest: x delivered_before)
  from res_allD [OF this assms] show ?thesis by simp
qed


lemma clean_required_Inr: "clean_required x f = Inr c \<Longrightarrow> c = py_strip x"
  by (simp add: clean_required_def Let_def split: if_splits)

lemma insert_letter_effect:
  assumes "insert_character_letter i owner w cid idem fp snap pol t expires source wish s = Inr ((l, new), s')"
  shows "ml_world s' = ml_world s"
    and "ml_letters s' = ml_letters s \<or> ml_letters s' = ml_letters s @ [l] \<and> \<not> list_ex (letter_conflict l) (ml_letters s) \<and>
      lt_delivered l = t \<and> lt_world l = py_strip w \<and> lt_source l = py_strip (if source = [] then ''organic'' else source)"
proof -
  have "res_all (\<lambda>r. ml_world (snd r) = ml_world s \<and> (ml_letters (snd r) = ml_letters s \<or>
      ml_letters (snd r) = ml_letters s @ [fst (fst r)] \<and> \<not> list_ex (letter_conflict (fst (fst r))) (ml_letters s) \<and>
      lt_delivered (fst (fst r)) = t \<and> lt_world (fst (fst r)) = py_strip w \<and>
      lt_source (fst (fst r)) = py_strip (if source = [] then ''organic'' else source)))
      (insert_character_letter i owner w cid idem fp snap pol t expires source wish s)"
    unfolding insert_character_letter_def Let_def
    by (intro res_all_rules) (auto dest: clean_required_Inr split: if_splits)
  from res_allD [OF this assms] show "ml_world s' = ml_world s"
    and "ml_letters s' = ml_letters s \<or> ml_letters s' = ml_letters s @ [l] \<and> \<not> list_ex (letter_conflict l) (ml_letters s) \<and>
      lt_delivered l = t \<and> lt_world l = py_strip w \<and> lt_source l = py_strip (if source = [] then ''organic'' else source)"
    by simp_all
qed

text \<open>A delivery waits until every organic letter of the world is handled and the cooldown is over.\<close>

lemma since_days: "db_time (now - days k) = db_time now - 86400 * k"
proof -
  have "now - days k = now + (- 86400 * k) * 1000000" by (simp add: World.days_def)
  then show ?thesis unfolding db_time_def by simp
qed

lemma deliver_effect:
  assumes "deliver_world pol sha i w now s = Inr (d, s')" and w: "py_strip w = w"
    and n: "n \<le> 86400 * mb_cooldown_days pol" "0 \<le> n" and ok: "letters_ok n (ml_letters s)"
  shows "ml_world s' = ml_world s" and "letters_ok n (ml_letters s')"
    and "\<exists>ls ms. moved (ml_letters s) ls \<and> ml_letters s' = ls @ ms"
proof -
  from assms(1) obtain p s1 where
    prep: "prepare_character_letter_delivery w (db_time now) (db_time (now - days (mb_cooldown_days pol))) (mb_active_limit pol) s = Inr (p, s1)"
    and c: "s' = s1 \<or> mp_catalog p \<noteq> None \<and> (\<exists>l new i' o' cid idem fp snap v e. insert_character_letter i' o' w cid idem fp snap v
      (db_time now) e ''organic'' None s1 = Inr ((l, new), s'))"
    unfolding deliver_world_def Let_def by (auto simp: and_then_Inr split: option.splits) blast+
  note e = prepare_effect [OF prep]
  have ok1: "letters_ok n (ml_letters s1)" using e ok moved_ok by blast
  have "ml_world s' = ml_world s1 \<and> letters_ok n (ml_letters s') \<and> (\<exists>ms. ml_letters s' = ml_letters s1 @ ms)"
    using c
  proof
    assume "mp_catalog p \<noteq> None \<and> (\<exists>l new i' o' cid idem fp snap v e. insert_character_letter i' o' w cid idem fp snap v
      (db_time now) e ''organic'' None s1 = Inr ((l, new), s'))"
    then obtain l new i' o' cid idem fp snap v ex where m: "mp_catalog p \<noteq> None"
      and ins: "insert_character_letter i' o' w cid idem fp snap v (db_time now) ex ''organic'' None s1 = Inr ((l, new), s')" by blast
    have strip: "py_strip ''organic'' = ''organic''" by code_simp
    note f = insert_letter_effect [OF ins, unfolded w, simplified strip if_False, simplified]
    have "letters_ok n (ml_letters s1 @ [l])" if "\<not> list_ex (letter_conflict l) (ml_letters s1)"
      "lt_delivered l = db_time now" "lt_world l = w"
    proof (rule added_letter_ok [OF ok1 that(1)])
      fix x assume "x \<in> set (ml_letters s1)" "organic x" "lt_world x = lt_world l"
      then have "lt_delivered x \<le> db_time now - 86400 * mb_cooldown_days pol"
        using e m that(3) by (simp add: organic_of_def since_days)
      then show "n \<le> \<bar>lt_delivered l - lt_delivered x\<bar>" using n that(2) by linarith
    qed
    then show ?thesis using f ok1 by auto
  qed (use ok1 in auto)
  then show "ml_world s' = ml_world s" and "letters_ok n (ml_letters s')"
    and "\<exists>ls ms. moved (ml_letters s) ls \<and> ml_letters s' = ls @ ms" using e by auto
qed


section \<open>Histories\<close>

text \<open>
  \<open>n\<close> is the cooldown in seconds that every delivery has at least. \<open>wish\<close> is the letter of a finished wish
  (\<^verbatim>\<open>resident_wishes.py\<close>), under the indexes of the table; \<open>other\<close> are the transactions on the other tables.
\<close>

inductive mail_step :: "int \<Rightarrow> mail_db \<Rightarrow> mail_db \<Rightarrow> bool"
  for n :: int where
  expire: "expire_due_character_letters now owner w limit s = Inr (k, s') \<Longrightarrow> mail_step n s s'"
| deliver: "deliver_world pol sha i w now s = Inr (d, s') \<Longrightarrow> py_strip w = w \<Longrightarrow> n \<le> 86400 * mb_cooldown_days pol \<Longrightarrow>
    mail_step n s s'"
| answer: "letter_transition user k target now s = (a, s') \<Longrightarrow> mail_step n s s'"
| accept: "accept_letter reg hid user k now s = (a, s') \<Longrightarrow> mail_step n s s'"
| wish: "lt_source l = ''wish'' \<Longrightarrow> \<not> list_ex (letter_conflict l) (ml_letters s) \<Longrightarrow> ml_letters s' = ml_letters s @ [l] \<Longrightarrow>
    mail_step n s s'"
| delete: "delete_account_mail reg now user s = Inr s' \<Longrightarrow> mail_step n s s'"
| other: "ml_letters s' = ml_letters s \<Longrightarrow> mail_step n s s'"

lemma letter_transition_moved:
  assumes "letter_transition user k target now s = (a, s')"
  obtains s1 :: mail_db where "moved (ml_letters s) (ml_letters s1)" and "moved (ml_letters s1) (ml_letters s')"
proof -
  obtain b s1 where e: "expire_owner user now s = (b, s1)" by (cases "expire_owner user now s")
  then have "moved (ml_letters s) (ml_letters s1)"
    using expire_effect by (auto simp: expire_owner_def moved_refl split: sum.splits prod.splits)
  moreover have "moved (ml_letters s1) (ml_letters s')" using assms unfolding letter_transition_def e
    by (auto simp: moved_refl split: sum.splits option.splits if_splits dest: transition_effect)
  ultimately show ?thesis by (rule that)
qed

lemma deleted_ok: "letters_ok n ls \<Longrightarrow> letters_ok n (delete_where q ls)"
  unfolding letters_ok_def spaced_def by (simp add: unique_on_delete)

lemma mail_step_ok:
  assumes "mail_step n s s'" and ok: "letters_ok n (ml_letters s)" and n: "0 \<le> n"
  shows "letters_ok n (ml_letters s')"
  using assms(1)
proof cases
  case (expire now owner w limit k)
  then show ?thesis using expire_effect moved_ok ok by blast
next
  case (deliver pol sha i w now d)
  then show ?thesis using deliver_effect(2) n ok by blast
next
  case (answer user k target now a)
  then show ?thesis by (rule letter_transition_moved) (rule moved_ok, assumption, rule moved_ok [OF _ ok])
next
  case (accept reg hid user k now a)
  then show ?thesis using accept_moved moved_ok ok by blast
next
  case (wish l)
  have "letters_ok n (ml_letters s @ [l])"
    by (rule added_letter_ok [OF ok wish(2)]) (use wish(1) in simp)
  then show ?thesis by (simp add: wish(3))
next
  case (delete reg now user)
  then show ?thesis using ok deleted_ok by (auto simp: delete_account_mail_def and_then_Inr Let_def)
qed (use ok in simp)

lemma mail_reach_ok: "(mail_step n)\<^sup>*\<^sup>* s s' \<Longrightarrow> letters_ok n (ml_letters s) \<Longrightarrow> 0 \<le> n \<Longrightarrow> letters_ok n (ml_letters s')"
  by (induction rule: rtranclp_induct) (auto intro: mail_step_ok)

section \<open>What happens to an organic letter\<close>

text \<open>It stays, with the columns of its delivery, and for good as it is once it is handled.\<close>

definition letters_kept :: "letter list \<Rightarrow> letter list \<Rightarrow> bool" where
  "letters_kept ls ls' = (\<forall>l \<in> set ls. organic l \<longrightarrow> (\<exists>l' \<in> set ls'. same_letter l l' \<and> (open_letter l \<or> l' = l)))"

lemma same_letter_refl [simp]: "same_letter l l" by (simp add: same_letter_def)

lemma moved_kept:
  assumes "moved ls ls'"
  shows "letters_kept ls ls'"
proof -
  from assms obtain q f where u: "ls' = update_where q f ls" and q: "\<And>l. q l \<Longrightarrow> open_letter l"
    and f: "\<And>l. same_letter l (f l)" unfolding moved_def by blast
  have "(if q l then f l else l) \<in> set ls'" if "l \<in> set ls" for l using that by (auto simp: u set_update_where)
  then show ?thesis unfolding letters_kept_def by (metis f q same_letter_refl)
qed

lemma kept_more: "set ls \<subseteq> set ls' \<Longrightarrow> letters_kept ls ls'"
  unfolding letters_kept_def by (blast intro: same_letter_refl)

lemma kept_trans:
  assumes "letters_kept a b" and "letters_kept b c"
  shows "letters_kept a c"
  unfolding letters_kept_def
proof (intro ballI impI)
  fix l assume "l \<in> set a" "organic l"
  with assms(1) obtain m where m: "m \<in> set b" "same_letter l m" "open_letter l \<or> m = l" unfolding letters_kept_def by blast
  then have "organic m" using \<open>organic l\<close> by (simp add: same_letter_def)
  with assms(2) m(1) obtain r where "r \<in> set c" "same_letter m r" "open_letter m \<or> r = m" unfolding letters_kept_def by blast
  then show "\<exists>l' \<in> set c. same_letter l l' \<and> (open_letter l \<or> l' = l)"
    using m(2,3) by (intro bexI [of _ r]) (auto simp: same_letter_def)
qed

lemma mail_step_kept:
  assumes "mail_step n s s'" and ok: "letters_ok n (ml_letters s)" and n: "0 \<le> n"
  shows "letters_kept (ml_letters s) (ml_letters s')"
  using assms(1)
proof cases
  case (expire now owner w limit k)
  then show ?thesis using expire_effect moved_kept by blast
next
  case (deliver pol sha i w now d)
  from deliver_effect(3) [OF deliver(1-3) n ok] obtain ls ms where "moved (ml_letters s) ls" "ml_letters s' = ls @ ms" by blast
  then show ?thesis by (intro kept_trans [OF moved_kept kept_more]) auto
next
  case (answer user k target now a)
  then show ?thesis by (rule letter_transition_moved) (rule kept_trans [OF moved_kept moved_kept])
next
  case (accept reg hid user k now a)
  then show ?thesis using accept_moved moved_kept by blast
next
  case (wish l)
  then show ?thesis by (auto intro: kept_more)
next
  case (delete reg now user)
  then have "\<forall>l \<in> set (ml_letters s). organic l \<longrightarrow> l \<in> set (ml_letters s')"
    by (auto simp: delete_account_mail_def and_then_Inr Let_def)
  then show ?thesis unfolding letters_kept_def by (blast intro: same_letter_refl)
qed (simp add: kept_more)

lemma mail_reach_kept:
  "(mail_step n)\<^sup>*\<^sup>* s s' \<Longrightarrow> letters_ok n (ml_letters s) \<Longrightarrow> 0 \<le> n \<Longrightarrow> letters_kept (ml_letters s) (ml_letters s')"
  by (induction rule: rtranclp_induct) (auto intro: kept_more kept_trans mail_step_kept mail_reach_ok)

end
