(* ===== verification/Mailbox_Properties.thy ===== *)
theory Mailbox_Properties
imports Mailbox_Steps World_Samples
begin

text \<open>
  What the mailbox guarantees: the distance of the letters of a world, what becomes of a letter, and
  the acceptance that happens once; then two departures.
\<close>

section \<open>A sample\<close>

definition letter_template :: "string \<Rightarrow> character_template" where
  "letter_template i = (sample_template i)\<lparr>ct_source_type := ''official''\<rparr>"

definition sample_entry :: "string \<Rightarrow> string \<Rightarrow> string \<Rightarrow> catalog_entry" where
  "sample_entry i k t = \<lparr>lc_id = i, lc_key = k, lc_template = t, lc_version = ''1'', lc_body = ''hello'', lc_policy = ''p'',
     lc_priority = 0, lc_status = ''active'', lc_from = None, lc_until = None, lc_created_by = ''staff'', lc_retired_by = None,
     lc_retired = None, lc_source = ''organic''\<rparr>"

definition sample_mail_policy :: mailbox_policy where
  "sample_mail_policy = \<lparr>mb_version = ''v'', mb_cooldown_days = 7, mb_ttl_days = 14, mb_active_limit = 8\<rparr>"

definition mail_sample :: mail_db where
  "mail_sample = \<lparr>ml_world = sample_world\<lparr>templates := [letter_template ''t4'', letter_template ''t5'']\<rparr>,
     ml_catalog = [sample_entry ''c1'' ''mei'' ''t4'', sample_entry ''c2'' ''lan'' ''t5''], ml_letters = [], ml_wishes = []\<rparr>"

definition delivered_at :: "string \<Rightarrow> int \<Rightarrow> mail_db \<Rightarrow> mail_db" where
  "delivered_at i now s = (case deliver_world sample_mail_policy (\<lambda>_. ''fp'') i ''w1'' now s of Inr (_, s') \<Rightarrow> s' | Inl _ \<Rightarrow> s)"

definition accepted_at :: "int \<Rightarrow> mail_db \<Rightarrow> acceptance res \<times> mail_db" where
  "accepted_at now s = accept_letter production_products sample_home_ids ''user_1'' ''l1'' now s"

definition mail_one :: mail_db where "mail_one = delivered_at ''l1'' 0 mail_sample"
definition mail_accepted :: mail_db where "mail_accepted = snd (accepted_at 100 mail_one)"
definition mail_two :: mail_db where "mail_two = delivered_at ''l2'' (World.days 7) mail_accepted"

lemma delivered_step:
  assumes "n \<le> 604800" and "case deliver_world sample_mail_policy (\<lambda>_. ''fp'') i ''w1'' now s of Inr _ \<Rightarrow> True | Inl _ \<Rightarrow> False"
  shows "mail_step n s (delivered_at i now s)"
proof -
  from assms(2) obtain d s' where "deliver_world sample_mail_policy (\<lambda>_. ''fp'') i ''w1'' now s = Inr (d, s')" by (auto split: sum.splits)
  moreover have "py_strip ''w1'' = ''w1''" by code_simp
  ultimately show ?thesis
    unfolding delivered_at_def using assms(1) by (auto intro!: mail_step.deliver simp: sample_mail_policy_def)
qed

lemma mail_sample_history: "(mail_step 604800)\<^sup>*\<^sup>* mail_sample mail_two"
proof -
  have "mail_step 604800 mail_sample mail_one" unfolding mail_one_def by (rule delivered_step) (simp, code_simp)
  moreover have "mail_step 604800 mail_one mail_accepted"
    unfolding mail_accepted_def accepted_at_def by (rule mail_step.accept [OF prod.collapse [symmetric]])
  moreover have "mail_step 604800 mail_accepted mail_two" unfolding mail_two_def by (rule delivered_step) (simp, code_simp)
  ultimately show ?thesis by (meson converse_rtranclp_into_rtranclp rtranclp.rtrancl_refl)
qed

section \<open>The distance of the letters\<close>

text \<open>C12: a world gets its letters one at a time. In every history of deliveries, answers, acceptances,
  expiries, wishes, deletions and staff changes, in any order and whatever the clocks of the workers
  say, any two letters of the catalog that a world was ever sent were delivered at least the cooldown of \<open>n\<close>
  seconds apart, are from different characters, and are not both open.\<close>

theorem letters_are_spaced:
  assumes "(mail_step n)\<^sup>*\<^sup>* s s'" and "ml_letters s = []" and "0 \<le> n"
    and "x \<in> set (ml_letters s')" and "y \<in> set (ml_letters s')" and "organic x" and "organic y"
    and "lt_world x = lt_world y" and "lt_id x \<noteq> lt_id y"
  shows "n \<le> \<bar>lt_delivered x - lt_delivered y\<bar> \<and> lt_key x \<noteq> lt_key y \<and> \<not> (open_letter x \<and> open_letter y)"
proof -
  have "letters_ok n (ml_letters s)" using assms(2) by (simp add: letters_ok_def spaced_def)
  then have ok: "letters_ok n (ml_letters s')" using mail_reach_ok [OF assms(1) _ assms(3)] by blast
  then have "n \<le> \<bar>lt_delivered x - lt_delivered y\<bar>" using assms(4-9) unfolding letters_ok_def spaced_def by blast
  moreover have "lt_key x \<noteq> lt_key y" "\<not> (open_letter x \<and> open_letter y)"
    using ok assms(4-9) unfolding letters_ok_def by (auto dest: unique_onD)
  ultimately show ?thesis by blast
qed

theorem letters_are_spaced_witness:
  "map lt_id (ml_letters mail_two) = [''l1'', ''l2''] \<and> map lt_status (ml_letters mail_two) = [''accepted'', ''unread''] \<and>
   604800 \<le> \<bar>lt_delivered (ml_letters mail_two ! 0) - lt_delivered (ml_letters mail_two ! 1)\<bar>"
proof -
  have i: "map lt_id (ml_letters mail_two) = [''l1'', ''l2'']" by code_simp
  have st: "map lt_status (ml_letters mail_two) = [''accepted'', ''unread'']" by code_simp
  have o: "map organic (ml_letters mail_two) = [True, True]" "map lt_world (ml_letters mail_two) = [''w1'', ''w1'']" by code_simp+
  from i obtain x y where l: "ml_letters mail_two = [x, y]" by (auto simp: map_eq_Cons_conv)
  have "604800 \<le> \<bar>lt_delivered x - lt_delivered y\<bar>"
    using letters_are_spaced [OF mail_sample_history, of x y] i o by (simp add: l mail_sample_def)
  then show ?thesis using i st by (simp add: l)
qed

section \<open>What becomes of a letter\<close>




section \<open>Accepting once\<close>

lemma move_in_frame:
  assumes "move_in reg ids now user sc db = Inr ((r, c), db')"
  shows "universes db' = universes db \<and> templates db' = templates db \<and> rs_template r = lt_template (ap_letter sc) \<and>
    find_row (\<lambda>x. rs_id x = rs_id r) (residents db') = Some r \<and>
    find_row (\<lambda>c. ac_resident c = rs_id r) (ai_conversations db') = Some c"
  using assms
proof (cases rule: move_in_cases)
  case (1 soul identity prompt acc db1 db2)
  obtain x rows y where f: "db1 = db\<lparr>accounts := x, profiles := rows, profile_files := y\<rparr>" by (rule runtime_frame [OF 1(3)])
  have r: "db2 = db1\<lparr>residents := residents db1 @ [r]\<rparr>" "rs_template r = lt_template (ap_letter sc)"
    "rs_id r \<notin> rs_id ` set (residents db1)"
    using 1(4) by (auto simp: insert_resident_def Let_def split: if_splits)
  have c: "residents db' = residents db2" "universes db' = universes db2" "templates db' = templates db2"
    "find_row (\<lambda>c. ac_resident c = rs_id r) (ai_conversations db') = Some c"
    using 1(5) by (auto simp: create_ai_conversation_def and_then_Inr split: if_splits option.splits)
  have "find_row (\<lambda>x. rs_id x = rs_id r) (residents db') = Some r"
    using r(3) by (intro find_row_unique) (auto simp: c r(1) image_iff)
  then show ?thesis using c r(1,2) by (simp add: f)
qed

lemma accepted_locked: "accept_letter reg ids user k now s = (Inr a, s') \<Longrightarrow> accept_locked_letter reg ids user k now s = Inr (Some a, s')"
  by (auto simp: accept_letter_def split: sum.splits prod.splits option.splits)

text \<open>A replay leaves the database; a first acceptance has brought the character to life.\<close>

lemma accept_cases:
  assumes "accept_locked_letter reg ids user k now s = Inr (Some a, s')"
  obtains (replay) sc r where "ax_replayed a" and "s' = s" and "lock_character_letter_accept_scope k user s = Some sc"
    and "lt_status (ap_letter sc) = ''accepted''" and "get_accepted_character_letter_resident k user s = Some r"
    and "a = \<lparr>ax_letter = letter_with (ap_letter sc) (ap_template sc), ax_resident = r, ax_replayed = True\<rparr>"
  | (new) sc r c w where "lock_character_letter_accept_scope k user s = Some sc" and "open_letter (ap_letter sc)"
    and "now < lt_expires (ap_letter sc)" and "move_in reg ids now user sc (ml_world s) = Inr ((r, c), w)"
    and "mark_locked_character_letter_accepted k user (rs_id r) now (s\<lparr>ml_world := w\<rparr>) = (True, s')"
    and "get_character_letter_for_owner k user s' = Some (ax_letter a)" and "ar_resident (ax_resident a) = rs_id r"
    and "ar_conversation (ax_resident a) = ac_id c" and "\<not> ax_replayed a"
proof -
  note L = assms [unfolded accept_locked_letter_def Let_def]
  obtain sc where sc: "lock_character_letter_accept_scope k user s = Some sc"
    using L by (cases "lock_character_letter_accept_scope k user s") simp_all
  note L = L [unfolded sc option.case]
  show ?thesis
  proof (cases "lt_status (ap_letter sc) = ''accepted''")
    case True
    then obtain r where "get_accepted_character_letter_resident k user s = Some r"
      using L by (cases "get_accepted_character_letter_resident k user s") simp_all
    then show ?thesis using L True by (intro replay [OF _ _ sc True]) auto
  next
    case acc: False
    have ex: "lt_status (ap_letter sc) \<noteq> ''expired''" using L acc by auto
    have due: "\<not> (open_letter (ap_letter sc) \<and> lt_expires (ap_letter sc) \<le> now)"
    proof
      assume "open_letter (ap_letter sc) \<and> lt_expires (ap_letter sc) \<le> now"
      with L acc ex show False by (simp split: prod.splits if_splits)
    qed
    have op: "open_letter (ap_letter sc)" using L acc ex due by (cases "open_letter (ap_letter sc)") simp_all
    have av: "letter_available user sc" using L acc ex due op by (cases "letter_available user sc") simp_all
    obtain r c w where m: "move_in reg ids now user sc (ml_world s) = Inr ((r, c), w)"
      using L acc ex due op av by (cases "move_in reg ids now user sc (ml_world s)") auto
    obtain ok s2 where mark: "mark_locked_character_letter_accepted k user (rs_id r) now (s\<lparr>ml_world := w\<rparr>) = (ok, s2)"
      by (cases "mark_locked_character_letter_accepted k user (rs_id r) now (s\<lparr>ml_world := w\<rparr>)")
    have ok: ok using L acc ex due op av m mark by (cases ok) simp_all
    obtain v where v: "get_character_letter_for_owner k user s2 = Some v"
      using L acc ex due op av m mark ok by (cases "get_character_letter_for_owner k user s2") simp_all
    have a: "s2 = s'" "ax_letter a = v" "ar_resident (ax_resident a) = rs_id r" "ar_conversation (ax_resident a) = ac_id c"
      "\<not> ax_replayed a"
      using L acc ex due op av m mark ok v by auto
    show ?thesis using due op mark ok v by (intro new [OF sc op _ m]) (simp_all add: a)
  qed
qed

text \<open>C13: a letter is accepted once. Whoever repeats the request, at any time and with any new ids, right
  after it succeeded, is answered with the letter, the resident and the conversation of the first
  acceptance, and nothing is written: no second resident, account or conversation.\<close>

theorem accept_letter_replays:
  assumes "accept_letter reg ids user k now s = (Inr a, s')" and "letters_ok n (ml_letters s)"
  shows "\<exists>b. accept_letter reg' ids' user k now' s' = (Inr b, s') \<and> ax_replayed b \<and> ax_letter b = ax_letter a \<and>
    ar_resident (ax_resident b) = ar_resident (ax_resident a) \<and> ar_conversation (ax_resident b) = ar_conversation (ax_resident a)"
  using accepted_locked [OF assms(1)]
proof (cases rule: accept_cases)
  case (replay sc r)
  then have "accept_locked_letter reg' ids' user k now' s' = Inr (Some a, s')" by (simp add: accept_locked_letter_def)
  then show ?thesis using replay(1) by (simp add: accept_letter_def)
next
  case (new sc r c w)
  note sc = new(1-3) and m = new(4) and mark = new(5) and v = new(6) and ids = new(7,8)
  have fr: "universes w = universes (ml_world s)" "templates w = templates (ml_world s)" "rs_template r = lt_template (ap_letter sc)"
    "find_row (\<lambda>x. rs_id x = rs_id r) (residents w) = Some r" "find_row (\<lambda>c. ac_resident c = rs_id r) (ai_conversations w) = Some c"
    using move_in_frame [OF m] by simp_all
  define q where "q = (\<lambda>l. lt_id l = k \<and> lt_owner l = user \<and> open_letter l \<and> now < lt_expires l)"
  define f where "f = (\<lambda>l. l\<lparr>lt_status := ''accepted'', lt_resident := Some (rs_id r), lt_handled := Some now, lt_reason := None\<rparr> :: letter)"
  have s': "ml_world s' = w" "ml_catalog s' = ml_catalog s" "ml_letters s' = update_where q f (ml_letters s)"
    using mark unfolding mark_locked_character_letter_accepted_def Let_def q_def f_def by (auto split: if_splits)
  obtain u l e t where u: "find_row (\<lambda>u. uv_owner u = user \<and> confirmed_home u) (universes (ml_world s)) = Some u"
    and l: "find_row (\<lambda>l. lt_id l = k \<and> lt_owner l = user \<and> lt_world l = uv_id u) (ml_letters s) = Some l"
    and e: "find_row (\<lambda>c. lc_id c = lt_catalog l) (ml_catalog s) = Some e"
    and t: "find_row (\<lambda>t. ct_id t = lt_template l) (templates (ml_world s)) = Some t"
    and sce: "sc = \<lparr>ap_letter = l, ap_entry = e, ap_template = t\<rparr>"
    using sc(1) unfolding lock_character_letter_accept_scope_def by (auto split: option.splits)
  note lrow = find_row_Some [OF l]
  have ql: "q l" using sc(2,3) lrow by (simp add: q_def sce)
  have keep: "lt_id (f x) = lt_id x" "lt_owner (f x) = lt_owner x" "lt_world (f x) = lt_world x" "lt_catalog (f x) = lt_catalog x"
    "lt_template (f x) = lt_template x" "lt_status (f x) = ''accepted''" "lt_resident (f x) = Some (rs_id r)" for x
    by (simp_all add: f_def)
  have l': "find_row (\<lambda>l. lt_id l = k \<and> lt_owner l = user \<and> lt_world l = uv_id u) (ml_letters s') = Some (f l)"
    using l ql by (simp add: s'(3) find_row_update_where keep)
  have sc': "lock_character_letter_accept_scope k user s' = Some \<lparr>ap_letter = f l, ap_entry = e, ap_template = t\<rparr>"
    unfolding lock_character_letter_accept_scope_def s'(1,2) fr(1,2) u using l' e t by (simp add: keep)
  have "moved (ml_letters s) (ml_letters s')"
    unfolding s'(3) by (rule movedI) (simp_all add: q_def f_def same_letter_def)
  from moved_ok [OF this assms(2)] have uniq: "unique_on (\<lambda>_. True) lt_id (ml_letters s')" by (simp add: letters_ok_def)
  note frow = find_row_Some [OF l']
  have only: "x = f l" if "x \<in> set (ml_letters s')" "lt_id x = k" for x using unique_onD [OF uniq that(1)] that(2) frow by auto
  have acc: "find_row (\<lambda>l. lt_id l = k \<and> lt_owner l = user \<and> lt_status l = ''accepted'') (ml_letters s') = Some (f l)"
    "find_letter k user s' = Some (f l)"
    unfolding find_letter_def
    by (rule find_row_unique; (use only in blast)?; use frow in \<open>simp add: keep\<close>)+
  have lt: "ax_letter a = letter_with (f l) t"
    using v t unfolding get_character_letter_for_owner_def acc letter_view_of_def s'(1) fr(2) by (simp add: keep)
  have rt: "find_row (\<lambda>t. ct_id t = rs_template r) (templates w) = Some t" using t by (simp add: fr(2,3) sce)
  obtain p where p: "get_accepted_character_letter_resident k user s' = Some p" "ar_resident p = rs_id r" "ar_conversation p = ac_id c"
    unfolding get_accepted_character_letter_resident_def acc using fr(4,5) rt by (simp add: s'(1) keep)
  have "accept_locked_letter reg' ids' user k now' s' = Inr (Some \<lparr>ax_letter = letter_with (f l) t, ax_resident = p, ax_replayed = True\<rparr>, s')"
    unfolding accept_locked_letter_def sc' by (simp add: keep p)
  then show ?thesis using lt ids p by (simp add: accept_letter_def)
qed

theorem accept_letter_replays_witness:
  "\<exists>a b. accepted_at 100 mail_one = (Inr a, mail_accepted) \<and> \<not> ax_replayed a \<and> accepted_at 900 mail_accepted = (Inr b, mail_accepted) \<and>
     ax_replayed b \<and> ar_resident (ax_resident b) = ar_resident (ax_resident a) \<and> length (residents (ml_world mail_accepted)) = 3"
proof -
  have n: "length (residents (ml_world mail_accepted)) = 3" by code_simp
  have "case fst (accepted_at 100 mail_one) of Inr a \<Rightarrow> \<not> ax_replayed a | Inl _ \<Rightarrow> False" by code_simp
  then obtain a where a: "fst (accepted_at 100 mail_one) = Inr a" "\<not> ax_replayed a" by (auto split: sum.splits)
  then have 1: "accepted_at 100 mail_one = (Inr a, mail_accepted)" unfolding mail_accepted_def by (metis prod.collapse)
  have o: "letters_ok 0 (ml_letters mail_one)"
  proof -
    have "length (ml_letters mail_one) = 1" by code_simp
    then obtain x where "ml_letters mail_one = [x]" by (auto simp: length_Suc_conv)
    then show ?thesis by (simp add: letters_ok_def spaced_def unique_on_def)
  qed
  from accept_letter_replays [OF 1 [unfolded accepted_at_def] o, of production_products sample_home_ids 900]
  show ?thesis using 1 a(2) n unfolding accepted_at_def by blast
qed

section \<open>A departure\<close>

text \<open>The catalog of the staff keeps entries immutable and versions them, and the version check of the
  repository asks for the key and the version. The index on the template alone refuses any second
  version of a character, even after the first one was retired, and the service, which turns errors of
  the input into a domain error, does not catch it.\<close>

definition retired_sample :: mail_db where
  "retired_sample = (case retire_mailbox_catalog_entry ''c1'' ''staff'' 50
     (mail_sample\<lparr>ml_world := sample_world\<lparr>templates := [(letter_template ''t4'')\<lparr>ct_version := ''2''\<rparr>]\<rparr>\<rparr>) of
       Inr (_, s) \<Rightarrow> s | Inl _ \<Rightarrow> mail_sample)"

theorem second_version_raises:
  "map lc_status (ml_catalog retired_sample) = [''retired'', ''active''] \<and>
   (case create_mailbox_catalog_entry ''c3'' ''mei'' ''t4'' ''2'' ''a new body'' ''p'' 0 ''staff'' None None retired_sample of
      Inl e \<Rightarrow> e = IntegrityError ''character_letter_catalog'' | Inr _ \<Rightarrow> False)"
  by code_simp

end
