(* ===== verification/Spec2Isabelle.thy ===== *)
theory Spec2Isabelle
imports Billing_Properties Quota_Properties Referral_Properties Turn_Properties World_Properties World_Feed_Properties
  World_Limits World_Slots Visit_Properties Mailbox_Properties
begin

text \<open>
  AI4ALL runs several companion products (\<^verbatim>\<open>zhaoxi\<close>, \<^verbatim>\<open>mingchan\<close>, \<^verbatim>\<open>plum\<close>) on one backend: HTTP
  layers (\<^verbatim>\<open>app/routers\<close>, \<^verbatim>\<open>app/products/*/api\<close>) call application services, which call repositories of
  plain functions over SQL tables of one PostgreSQL database (\<^verbatim>\<open>app/db\<close> and
  \<^verbatim>\<open>app/products/*/infrastructure/persistence\<close>). What has to be right lies in these functions: who is
  charged how much, who may use which product, what is delivered once, what a departed resident or an
  ended visit leaves behind. This library translates them, function by function, and proves what the
  components guarantee over all histories of their transactions. Paths below are relative to
  \<^verbatim>\<open>src/\<close>; a definition bears the name of the function, constant or table it translates.

  \<^bold>\<open>How the code is read.\<close>
  A table is a list of records in the order of insertion, one field per column that the modelled code
  reads or writes; a repository record of Python becomes the same row. The SQL verbs are the list
  functions of \<^verbatim>\<open>Prelude\<close>: \<open>find_row\<close> (SELECT of one row), \<open>filter\<close> with \<open>sort_key\<close>, \<open>order_desc\<close> and
  \<open>sql_limit\<close> (ORDER BY and LIMIT), \<open>update_where\<close> (UPDATE, its row count by \<open>count_where\<close>),
  \<open>delete_where\<close>. A unique index or key that the code relies on is checked where a row is inserted and
  answers \<open>IntegrityError\<close>; ON CONFLICT DO NOTHING and DO UPDATE are written out. An operation maps the
  database to \<open>Inl\<close> of the raised exception or \<open>Inr\<close> of its value and the new database (\<open>err\<close>, \<open>res\<close>);
  \<open>and_then\<close> is the sequence of statements. \<open>run_tx\<close> is \<^verbatim>\<open>connect()\<close>: an exception rolls the
  transaction back. Operations that commit before they raise, or that run several transactions, return
  the outcome beside the state. Row locks and advisory locks serialise the transactions that take them,
  so a step of a history is one whole transaction and every order of steps is admitted; what a
  transaction reads before its lock is read in its own state where the columns never change. The daily
  quota is the exception: confirmations take no lock, so \<^verbatim>\<open>Quota_Race\<close> has the statements as its steps.
  Amounts are \<open>int\<close> (shell micros), as Python's integers are unbounded; the BIGINT columns are not
  reached by the amounts the price functions yield. Times are \<open>int\<close>: microseconds for the clock of a
  service, seconds for the text of a TIMESTAMP column (\<open>db_time\<close>, \<open>parse_time\<close>; the text format sorts as
  the number does). Strings are character lists; \<open>py_strip\<close>, \<open>py_lower\<close> and the regular expressions are
  written out on ASCII. The one float, the price of tokens, is the exact rational with its rounding.
  Clocks, drawn ids and codes, digests (SHA-256), the generator of texts, the publisher of events, the
  provider of a model and whether an advisory lock is free are arguments of the definitions. Loops are
  structural recursion on the rows they walk over, or on the list of events a stream yields, so no fuel
  is needed; the retry loop of new invite codes tries the fixed number of drawn codes that the
  code allows, and running out of them is its own error.

  \<^bold>\<open>The shared layer.\<close> \<^verbatim>\<open>Prelude\<close>: errors, transactions, tables, and the rules that follow an operation
  to all its outcomes (\<open>res_all\<close>, \<open>out_all\<close>). \<^verbatim>\<open>Lifecycle\<close>: the locale \<open>lifecycle\<close>, a contract of tables whose rows
  move through stages and are frozen at the end, interpreted on turn runs, posts, events, invites,
  visits and messages. \<^verbatim>\<open>Samples\<close>, \<^verbatim>\<open>World_Samples\<close>: the concrete states of the witnesses.

  \<^bold>\<open>Products, identity, text.\<close> \<^verbatim>\<open>Product_Registry\<close> (\<^verbatim>\<open>app/bootstrap/product_registry.py\<close>,
  \<^verbatim>\<open>app/platform/channels.py\<close>), \<^verbatim>\<open>Core_Text\<close> (\<^verbatim>\<open>app/db/_core.py\<close>), \<^verbatim>\<open>Identity\<close>
  (\<^verbatim>\<open>app/db/product_memberships.py\<close>, the owner of an account in \<^verbatim>\<open>app/db/accounts.py\<close>).

  \<^bold>\<open>Billing\<close> (\<^verbatim>\<open>app/db/billing.py\<close>). \<^verbatim>\<open>Wallet\<close>, \<^verbatim>\<open>Subscriptions\<close>, \<^verbatim>\<open>Token_Pricing\<close>: wallets, ledger, charges,
  subscriptions, prices. \<^verbatim>\<open>Wallet_Laws\<close> states the effect of every operation; \<^verbatim>\<open>Wallet_Book\<close> the abstract
  account book (locale \<open>idempotent_book\<close>) that postings refine; \<^verbatim>\<open>Reservations\<close> the pairing of reserve and
  release; \<^verbatim>\<open>Billing_Contract\<close> the violation counts of the migrations as executable checks.
  \<^verbatim>\<open>Billing_Properties\<close>: all counts stay zero in every history, prepaid balances never go below zero, a
  release gives back exactly what was reserved, replayed postings change nothing, chat charges are exact.

  \<^bold>\<open>Admission\<close> (\<^verbatim>\<open>app/db/accounts.py\<close>, \<^verbatim>\<open>app/platform/quota/rate_limiter.py\<close>). \<^verbatim>\<open>Quota\<close>; \<^verbatim>\<open>Quota_Laws\<close>
  has the interface of admission under a cap, interpreted on the daily quota and the request limit;
  \<^verbatim>\<open>Quota_Race\<close> splits a reservation into its two reads, between which other transactions may commit.
  \<^verbatim>\<open>Quota_Properties\<close>: the limit holds unless a confirmation commits between the two reads, how far it can be
  exceeded then, and what a change of owner does.

  \<^bold>\<open>Invitations\<close> (\<^verbatim>\<open>app/db/billing.py\<close>). \<^verbatim>\<open>Referral\<close>, with the invariant in \<^verbatim>\<open>Referral_Laws\<close>, one
  lemma per operation in \<^verbatim>\<open>Referral_Ops\<close>, and \<^verbatim>\<open>Referral_Properties\<close>: each reward is paid once, the
  counts of the migration stay zero, and the batch release that reports what it rolled back.

  \<^bold>\<open>Turns\<close> (\<^verbatim>\<open>app/db/runtime_turn_runs.py\<close>, \<^verbatim>\<open>app/products/plum/api/app.py\<close>). \<^verbatim>\<open>Turn_Runs\<close>: the table of runs
  with its three unique indexes and the step relation of its workers; \<^verbatim>\<open>Plum_Turns\<close>: the paid stream with
  its except and finally clauses over the events of the runtime (\<open>serve_stream\<close> is the stream with a client
  that may be gone before it starts); \<^verbatim>\<open>Plum_Laws\<close>, \<^verbatim>\<open>Turn_Properties\<close>: a run ends with a generator that has
  started and otherwise at a later reclaim, finished runs stay, a refused turn costs nothing.

  \<^bold>\<open>Companion worlds\<close> (\<^verbatim>\<open>app/products/mingchan\<close>). \<^verbatim>\<open>World\<close> has the tables and the pure domain.
  \<^verbatim>\<open>World_Lifecycle\<close>, \<^verbatim>\<open>World_Service\<close>: departures of residents, from the evidence and the scheduled evaluation to the
  decision of the staff (\<^verbatim>\<open>infrastructure/persistence/companion_world_lifecycle.py\<close>,
  \<^verbatim>\<open>application/lifecycle.py\<close>, \<^verbatim>\<open>jobs/world_lifecycle/evidence.py\<close>).
  \<^verbatim>\<open>World_Home\<close>: bootstrap, choice and activation of residents, deletion of an account
  (\<^verbatim>\<open>domain/companion_world/onboarding.py\<close>, \<^verbatim>\<open>infrastructure/world_onboarding.py\<close>,
  \<^verbatim>\<open>application/account_deletion.py\<close>). \<^verbatim>\<open>World_Feed\<close>, \<^verbatim>\<open>World_Jobs\<close>: posts, media, outbox, the daily slots and
  the batch jobs (\<^verbatim>\<open>infrastructure/persistence/companion_world.py\<close>, \<^verbatim>\<open>jobs/world_content\<close>,
  \<^verbatim>\<open>domain/companion_world/feed.py\<close>). Their histories are the step relation of \<^verbatim>\<open>World_Steps\<close>, whose
  steps are all of these transactions and the acceptance of a letter. \<^verbatim>\<open>World_Laws\<close>, \<^verbatim>\<open>World_Home_Laws\<close>, \<^verbatim>\<open>World_Feed_Laws\<close>, \<^verbatim>\<open>World_Outbox\<close>,
  \<^verbatim>\<open>World_Outbox_Laws\<close>, \<^verbatim>\<open>World_Decisions\<close>, \<^verbatim>\<open>World_Delivery\<close> hold the invariants and the effect of each
  operation; \<^verbatim>\<open>World_Mailbox_Laws\<close> what accepting a letter does to a world; \<^verbatim>\<open>World_Properties\<close>, \<^verbatim>\<open>World_Feed_Properties\<close>, \<^verbatim>\<open>World_Limits\<close>, \<^verbatim>\<open>World_Slots\<close> what follows: every
  departure is audited, a world keeps a resident and has at most ten, every post shown or withdrawn has
  its event, a lease is exclusive, a batch of deliveries is one update.

  \<^bold>\<open>Letters\<close> (\<^verbatim>\<open>application/mailbox.py\<close> and its repository). \<^verbatim>\<open>World_Mailbox\<close>, \<^verbatim>\<open>World_Mailbox_Service\<close>: the
  catalog of the staff, expiry and delivery, the owner's view, accepting a letter; \<open>mail_db\<close> holds the companion
  world beside the new tables. \<^verbatim>\<open>Mailbox_Steps\<close> has the histories; \<^verbatim>\<open>Mailbox_Properties\<close>: the distance between
  the letters of a world, the finality of an answer, and an acceptance that happens once.

  \<^bold>\<open>Visits and chat\<close> (\<^verbatim>\<open>application/visits.py\<close>, \<^verbatim>\<open>application/human_chat.py\<close> and their repositories).
  \<^verbatim>\<open>World_Visits\<close>, \<^verbatim>\<open>World_Visit_Service\<close>: three slots per world, invites, redemption, acceptance, the
  ends of a visit, blocks, expiry; \<^verbatim>\<open>World_Human_Chat\<close>, \<^verbatim>\<open>World_Chat_Service\<close>: the conversation of a visit,
  messages, read cursors, reports. \<open>visit_db\<close> holds the companion world beside the new tables, and the
  history of \<^verbatim>\<open>Visit_Steps\<close> admits any transaction of the world between those of the visits.
  \<^verbatim>\<open>Visit_Laws\<close>, \<^verbatim>\<open>Visit_Primitives\<close>, \<^verbatim>\<open>Visit_Chat_Laws\<close>: the invariant and how each write keeps it; \<^verbatim>\<open>Visit_Expiry\<close>:
  the loop of the expiry over a contract of one candidate; \<^verbatim>\<open>Visit_Properties\<close>: capacity, the domain's state machine,
  silence after the end, blocks, numbering, replays, unread counts, the guarded feed, expiry, refusals.

  \<^bold>\<open>Not modelled.\<close>
  The HTTP layers parse, authenticate and map errors. The agent runtime (\<^verbatim>\<open>app/agent_runtime\<close>) builds
  prompts, calls model providers and tools; its outcome enters as the events of a stream. The other
  services of \<^verbatim>\<open>zhaoxi\<close> (proactive messages, missions, creator templates, memory) and of \<^verbatim>\<open>mingchan\<close> (wishes,
  notifications, media) keep tables of their own; of them the modelled operations see the letter of a finished
  wish, its row when the letter closes, and the references to media.
  \<^verbatim>\<open>create_resident_runtime_account\<close> (\<^verbatim>\<open>app/db/billing.py\<close>), which adds an active resident without looking at
  the capacity, is called by tests only. Moderation,
  search and gateways are services behind an interface. The SQL backend, its pool and the
  runner of the migrations, phone sign-in and sessions, the rest of \<^verbatim>\<open>app/db/accounts.py\<close> (messages, sessions, profiles),
  administration and analytics, configuration, the frontend and scripts are left out; of the migrations the
  tables, keys and reconcile counts that the operations need are taken. Confidence values of observations
  and the update time of an outbox row are written and never read, and are left out.
\<close>

end
